(* ===== verification/Decimal_Context.thy ===== *)
theory Decimal_Context
  imports Complex_Main "HOL-Library.Log_Nat"
begin

text \<open>
  Finite-precision arithmetic as Python has it. A finite \<open>decimal.Decimal\<close> and a finite
  \<open>float\<close> are both modelled by the rational number they denote, and every arithmetic
  operation of the source rounds its exact result the way the language does:
  \<open>fl_round b p\<close> rounds to \<open>p\<close> significant digits in base \<open>b\<close>, ties to even.
  \<open>Decimal\<close> arithmetic runs in the default context (base 10, 28 digits,
  \<open>ROUND_HALF_EVEN\<close>), the \<open>localcontext\<close> blocks of \<open>domain/money.py\<close> in 60 digits,
  and \<open>float\<close> is IEEE binary64 (base 2, 53 digits). Overflow, underflow, signed zeros,
  infinities and NaN are outside the model: the amounts of the program stay far from the
  exponent limits, and \<open>D()\<close> refuses non-finite strings.
  The theory proves that rounding is exact on representable values, odd, idempotent and
  monotone; the locale \<open>rounding\<close> derives from those laws the facts the components use.
\<close>

definition mag_exp :: "nat \<Rightarrow> rat \<Rightarrow> int" where
  "mag_exp b x =
     (if 1 \<le> \<bar>x\<bar> then int (floorlog b (nat \<lfloor>\<bar>x\<bar>\<rfloor>)) - 1
      else - int (floorlog b (nat (\<lceil>1 / \<bar>x\<bar>\<rceil> - 1))))"

definition half_even :: "rat \<Rightarrow> int" where
  "half_even x =
     (let f = \<lfloor>x\<rfloor>; r = x - of_int f
      in if r < 1/2 then f else if 1/2 < r then f + 1 else if even f then f else f + 1)"

definition fl_round :: "nat \<Rightarrow> nat \<Rightarrow> rat \<Rightarrow> rat" where
  "fl_round b p x =
     (if x = 0 then 0
      else let u = of_nat b powi (mag_exp b x - int p + 1)
           in of_int (half_even (x / u)) * u)"

subsection \<open>Rounding to an integer\<close>

lemma half_even_of_int [simp]: "half_even (of_int n) = n"
  by (simp add: half_even_def)

lemma half_even_error: "\<bar>of_int (half_even x) - x\<bar> \<le> 1 / 2"
proof -
  define f where "f = \<lfloor>x\<rfloor>"
  have "of_int f \<le> x" "x < of_int f + 1" unfolding f_def by linarith+
  then show ?thesis unfolding half_even_def Let_def abs_le_iff f_def [symmetric] by auto
qed

lemma half_even_nearest: "\<bar>of_int (half_even x) - x\<bar> \<le> \<bar>of_int n - x\<bar>"
proof (cases "n = half_even x")
  case False
  then have "1 \<le> \<bar>n - half_even x\<bar>" by linarith
  then have "(1::rat) \<le> \<bar>of_int n - of_int (half_even x)\<bar>"
    by (metis of_int_1_le_iff of_int_abs of_int_diff)
  with half_even_error [of x] show ?thesis by linarith
qed simp

lemma half_even_uminus: "half_even (- x) = - half_even x"
proof (cases "x \<in> \<int>")
  case True
  then obtain n where "x = of_int n" by (auto elim: Ints_cases)
  then show ?thesis
    by (metis half_even_of_int of_int_minus)
next
  case False
  then have "of_int \<lfloor>x\<rfloor> \<noteq> x" by (metis Ints_of_int)
  then have "\<lceil>x\<rceil> = \<lfloor>x\<rfloor> + 1" by (simp add: ceiling_altdef)
  then show ?thesis
    unfolding half_even_def Let_def floor_minus by auto
qed

subsection \<open>The exponent of the leading digit\<close>

lemma powi_nat_of_nat: "(of_nat b :: rat) powi (int n) = of_nat (b ^ n)"
  by simp

lemma mag_exp_bounds:
  assumes "1 < b" and "x \<noteq> 0"
  shows "of_nat b powi (mag_exp b x) \<le> \<bar>x\<bar>" (is ?lo)
    and "\<bar>x\<bar> < of_nat b powi (mag_exp b x + 1)" (is ?hi)
proof -
  let ?B = "of_nat b :: rat"
  have b0: "?B \<noteq> 0" and b1: "1 < ?B" using assms(1) by auto
  have "?lo \<and> ?hi"
  proof (cases "1 \<le> \<bar>x\<bar>")
    case True
    define n where "n = nat \<lfloor>\<bar>x\<bar>\<rfloor>"
    define k where "k = floorlog b n"
    have npos: "0 < n" using True by (simp add: n_def)
    have nb: "of_nat n \<le> \<bar>x\<bar>" "\<bar>x\<bar> < of_nat n + 1"
      using True unfolding n_def by (auto simp: of_nat_nat) linarith+
    from floorlog_bounds [OF npos assms(1)]
    have fb: "b ^ (k - 1) \<le> n" "n < b ^ k" by (auto simp: k_def)
    have kpos: "0 < k" using npos assms(1) by (simp add: k_def floorlog_def)
    have e: "mag_exp b x = int k - 1"
      using True by (simp add: mag_exp_def n_def k_def)
    have lo: "?B powi (int k - 1) = of_nat (b ^ (k - 1))"
      using kpos by (metis One_nat_def Suc_leI int_ops(2) of_nat_diff powi_nat_of_nat)
    have hi: "?B powi (int k - 1 + 1) = of_nat (b ^ k)" by simp
    have "of_nat (b ^ (k - 1)) \<le> \<bar>x\<bar>"
      using fb(1) nb(1) of_nat_mono [of "b ^ (k - 1)" n] by (meson order_trans)
    moreover have "\<bar>x\<bar> < of_nat (b ^ k)"
    proof -
      have "n + 1 \<le> b ^ k" using fb(2) by simp
      then have "(of_nat (n + 1) :: rat) \<le> of_nat (b ^ k)" by (rule of_nat_mono)
      with nb(2) show ?thesis by simp
    qed
    ultimately show ?thesis unfolding e lo hi by blast
  next
    case False
    then have ax: "0 < \<bar>x\<bar>" "\<bar>x\<bar> < 1" using assms(2) by auto
    define y where "y = 1 / \<bar>x\<bar>"
    have y1: "1 < y" using ax by (simp add: y_def)
    define m where "m = nat (\<lceil>y\<rceil> - 1)"
    define k where "k = floorlog b m"
    have mi: "int m = \<lceil>y\<rceil> - 1" using y1 by (simp add: m_def)
    have mpos: "0 < m" using y1 unfolding m_def by linarith
    have mb: "of_nat m < y" "y \<le> of_nat m + 1"
    proof -
      have "(of_nat m :: rat) = of_int \<lceil>y\<rceil> - 1" using mi by (metis of_int_1 of_int_diff of_int_of_nat_eq)
      then show "of_nat m < y" "y \<le> of_nat m + 1" by linarith+
    qed
    from floorlog_bounds [OF mpos assms(1)]
    have fb: "b ^ (k - 1) \<le> m" "m < b ^ k" by (auto simp: k_def)
    have kpos: "0 < k" using mpos assms(1) by (simp add: k_def floorlog_def)
    have e: "mag_exp b x = - int k"
      using False by (simp add: mag_exp_def m_def k_def y_def)
    have lo: "?B powi (- int k) = 1 / of_nat (b ^ k)"
      by (simp add: power_int_minus field_simps)
    have hi: "?B powi (- int k + 1) = 1 / of_nat (b ^ (k - 1))"
    proof -
      have "- int k + 1 = - int (k - 1)" using kpos by simp
      then show ?thesis by (simp only: power_int_minus powi_nat_of_nat) (simp add: field_simps)
    qed
    have xy: "\<bar>x\<bar> = 1 / y" by (simp add: y_def)
    have "y \<le> of_nat (b ^ k)"
    proof -
      have "m + 1 \<le> b ^ k" using fb(2) by simp
      then have "(of_nat (m + 1) :: rat) \<le> of_nat (b ^ k)" by (rule of_nat_mono)
      with mb(2) show ?thesis by simp
    qed
    then have "1 / of_nat (b ^ k) \<le> \<bar>x\<bar>"
      unfolding xy using y1 assms(1) by (intro divide_left_mono) auto
    moreover have "of_nat (b ^ (k - 1)) < y"
      using fb(1) mb(1) of_nat_mono [of "b ^ (k - 1)" m] by (meson le_less_trans)
    then have "\<bar>x\<bar> < 1 / of_nat (b ^ (k - 1))"
      unfolding xy using y1 assms(1) by (intro divide_strict_left_mono) auto
    ultimately show ?thesis unfolding e lo hi by blast
  qed
  then show ?lo ?hi by blast+
qed

lemma mag_exp_uminus [simp]: "mag_exp b (- x) = mag_exp b x"
  by (simp add: mag_exp_def)

subsection \<open>Rounding to p significant digits\<close>

definition has_digits :: "nat \<Rightarrow> nat \<Rightarrow> rat \<Rightarrow> bool" where
  "has_digits b p y \<longleftrightarrow> (\<exists>c e. y = of_int c * of_nat b powi e \<and> \<bar>c\<bar> \<le> int b ^ p)"

lemma fl_round_0 [simp]: "fl_round b p 0 = 0"
  by (simp add: fl_round_def)

lemma fl_round_uminus: "fl_round b p (- x) = - fl_round b p x"
  by (simp add: fl_round_def Let_def half_even_uminus)

lemma fl_round_grid_nearest:
  assumes "1 < b" and "x \<noteq> 0" and "mag_exp b x - int p + 1 \<le> e"
  shows "\<bar>fl_round b p x - x\<bar> \<le> \<bar>of_int c * of_nat b powi e - x\<bar>"
proof -
  define s where "s = mag_exp b x - int p + 1"
  define u where "u = (of_nat b :: rat) powi s"
  have u: "0 < u" using assms(1) by (simp add: u_def)
  have "of_nat b powi e = (of_nat b :: rat) powi (e - s) * u"
    using assms(1) by (simp add: u_def flip: power_int_add)
  moreover have "e - s = int (nat (e - s))" using assms(3) by (simp add: s_def)
  then have "(of_nat b :: rat) powi (e - s) = of_int (int b ^ nat (e - s))"
    by (metis of_int_of_nat_eq of_nat_power powi_nat_of_nat)
  moreover define n where "n = c * int b ^ nat (e - s)"
  ultimately have g: "of_int c * of_nat b powi e = of_int n * u" by simp
  have f: "fl_round b p x = of_int (half_even (x / u)) * u"
    using assms(2) by (simp add: fl_round_def u_def s_def Let_def)
  have "\<bar>of_int (half_even (x / u)) - x / u\<bar> * u \<le> \<bar>of_int n - x / u\<bar> * u"
    using u by (intro mult_right_mono half_even_nearest) simp
  moreover have "\<bar>of_int m - x / u\<bar> * u = \<bar>of_int m * u - x\<bar>" for m
    using u by (simp add: abs_mult_pos left_diff_distrib)
  ultimately show ?thesis unfolding f g by simp
qed

lemma fl_round_nearest:
  assumes "1 < b" and "0 < p" and "has_digits b p y"
  shows "\<bar>fl_round b p x - x\<bar> \<le> \<bar>y - x\<bar>"
proof (cases "x = 0")
  case False
  define s where "s = mag_exp b x - int p + 1"
  obtain c e where y: "y = of_int c * of_nat b powi e" and c: "\<bar>c\<bar> \<le> int b ^ p"
    using assms(3) by (auto simp: has_digits_def)
  show ?thesis
  proof (cases "s \<le> e")
    case True
    then show ?thesis
      unfolding y s_def using fl_round_grid_nearest [OF assms(1) False] by blast
  next
    case False': False
    define g where "g = (of_nat b :: rat) powi (mag_exp b x)"
    have lo: "g \<le> \<bar>x\<bar>" unfolding g_def by (rule mag_exp_bounds(1) [OF assms(1) False])
    have "\<bar>y\<bar> = of_int \<bar>c\<bar> * of_nat b powi e"
      using assms(1) by (simp add: y abs_mult)
    also have "\<dots> \<le> of_int (int b ^ p) * of_nat b powi e"
      using c by (intro mult_right_mono of_int_le_iff [THEN iffD2]) auto
    also have "\<dots> = of_nat b powi (int p + e)"
      using assms(1) by (simp add: power_int_add)
    also have "\<dots> \<le> g"
      unfolding g_def using assms(1) False' by (intro power_int_increasing) (auto simp: s_def)
    finally have "\<bar>y\<bar> \<le> g" .
    define sg :: int where "sg = (if 0 < x then 1 else -1)"
    have "\<bar>fl_round b p x - x\<bar> \<le> \<bar>of_int sg * g - x\<bar>"
      unfolding g_def using fl_round_grid_nearest [OF assms(1) False] assms(2) by simp
    also have "\<dots> = \<bar>x\<bar> - g"
      using lo by (auto simp: sg_def)
    also have "\<dots> \<le> \<bar>y - x\<bar>" using \<open>\<bar>y\<bar> \<le> g\<close> by linarith
    finally show ?thesis .
  qed
qed simp

lemma fl_round_exact: "1 < b \<Longrightarrow> 0 < p \<Longrightarrow> has_digits b p y \<Longrightarrow> fl_round b p y = y"
  using fl_round_nearest [of b p y y] by simp

lemma has_digits_fl_round:
  assumes "1 < b" and "0 < p"
  shows "has_digits b p (fl_round b p x)"
proof (cases "x = 0")
  case False
  define s where "s = mag_exp b x - int p + 1"
  define u where "u = (of_nat b :: rat) powi s"
  have u: "0 < u" using assms(1) by (simp add: u_def)
  define k where "k = half_even (x / u)"
  have "\<bar>x\<bar> < of_nat b powi (int p + s)"
    using mag_exp_bounds(2) [OF assms(1) False] by (simp add: s_def)
  also have "\<dots> = of_int (int b ^ p) * u"
    using assms(1) by (simp add: u_def power_int_add)
  finally have "\<bar>x / u\<bar> < of_int (int b ^ p)" using u by (simp add: abs_divide pos_divide_less_eq)
  moreover have "\<bar>of_int k - x / u\<bar> \<le> 1 / 2" unfolding k_def by (rule half_even_error)
  ultimately have "\<bar>of_int k\<bar> < (of_int (int b ^ p) + 1 :: rat)" by linarith
  then have "of_int \<bar>k\<bar> < (of_int (int b ^ p + 1) :: rat)" by simp
  then have "\<bar>k\<bar> \<le> int b ^ p" by (simp only: of_int_less_iff)
  moreover have "fl_round b p x = of_int k * of_nat b powi s"
    using False by (simp add: fl_round_def k_def u_def s_def Let_def)
  ultimately show ?thesis unfolding has_digits_def by blast
qed (auto simp: has_digits_def intro!: exI [of _ 0])

lemma fl_round_idem: "1 < b \<Longrightarrow> 0 < p \<Longrightarrow> fl_round b p (fl_round b p x) = fl_round b p x"
  by (simp add: fl_round_exact has_digits_fl_round)

lemma fl_round_mono:
  assumes "1 < b" and "0 < p" and "x \<le> y"
  shows "fl_round b p x \<le> fl_round b p y"
proof (rule ccontr)
  let ?f = "fl_round b p"
  assume gt: "\<not> ?f x \<le> ?f y"
  note near = fl_round_nearest [OF assms(1,2) has_digits_fl_round [OF assms(1,2)]]
  have "\<bar>?f x - x\<bar> \<le> \<bar>?f y - x\<bar>" "\<bar>?f y - y\<bar> \<le> \<bar>?f x - y\<bar>" by (rule near)+
  with gt assms(3) have "x = y" by linarith
  with gt show False by simp
qed

subsection \<open>Evaluation\<close>

text \<open>
  Rounding on numerator and denominator, with integer arithmetic only: the equation by which
  concrete amounts are evaluated. Its result is a quotient of two literals.
\<close>

definition half_even_div :: "int \<Rightarrow> int \<Rightarrow> int" where
  "half_even_div n d =
     (let f = n div d; r = 2 * (n mod d)
      in if r < d then f else if d < r then f + 1 else if even f then f else f + 1)"

lemma half_even_div:
  assumes "0 < d"
  shows "half_even (of_int n / of_int d) = half_even_div n d"
proof -
  have f: "\<lfloor>(of_int n / of_int d :: rat)\<rfloor> = n div d" by (rule floor_divide_of_int_eq)
  have "of_int n = (of_int d * of_int (n div d) + of_int (n mod d) :: rat)"
    by (metis mult_div_mod_eq of_int_add of_int_mult)
  then have r: "of_int n / of_int d - of_int (n div d) = (of_int (n mod d) / of_int d :: rat)"
    using assms by (simp add: field_simps)
  have "of_int (n mod d) / of_int d < (1 / 2 :: rat) \<longleftrightarrow> of_int (2 * (n mod d)) < (of_int d :: rat)"
    "1 / 2 < (of_int (n mod d) / of_int d :: rat) \<longleftrightarrow> of_int d < (of_int (2 * (n mod d)) :: rat)"
    using assms by (auto simp: field_simps)
  then have "of_int (n mod d) / of_int d < (1 / 2 :: rat) \<longleftrightarrow> 2 * (n mod d) < d"
    "1 / 2 < (of_int (n mod d) / of_int d :: rat) \<longleftrightarrow> d < 2 * (n mod d)"
    by (simp_all only: of_int_less_iff)
  then show ?thesis unfolding half_even_def half_even_div_def Let_def f r by simp
qed

function int_floorlog :: "int \<Rightarrow> int \<Rightarrow> int" where
  "int_floorlog b n = (if 0 < n \<and> 1 < b then int_floorlog b (n div b) + 1 else 0)"
  by pat_completeness auto
termination
proof (relation "measure (\<lambda>(b, n). nat n)", simp)
  fix b n :: int
  assume "0 < n \<and> 1 < b"
  then have "n div b < n" by (intro int_div_less_self) auto
  with \<open>0 < n \<and> 1 < b\<close> show "((b, n div b), (b, n)) \<in> measure (\<lambda>(b, n). nat n)" by simp
qed

declare int_floorlog.simps [simp del]

lemma int_floorlog: "int_floorlog (int b) n = int (floorlog b (nat n))"
proof (induction "nat n" arbitrary: n rule: less_induct)
  case less
  show ?case
  proof (cases "0 < n \<and> 1 < b")
    case True
    then have "n div int b < n" by (intro int_div_less_self) auto
    then have "int_floorlog (int b) (n div int b) = int (floorlog b (nat (n div int b)))"
      using less True by simp
    moreover have "nat (n div int b) = nat n div b" using True by (simp add: nat_div_distrib)
    moreover have "floorlog b (nat n) = floorlog b (nat n div b) + 1"
      using True by (subst compute_floorlog) auto
    ultimately show ?thesis using True by (subst int_floorlog.simps) simp
  next
    case False
    then show ?thesis by (subst int_floorlog.simps, subst compute_floorlog) auto
  qed
qed

definition mag_exp_div :: "nat \<Rightarrow> int \<Rightarrow> int \<Rightarrow> int" where
  "mag_exp_div b a q =
     (if q \<le> a then int_floorlog (int b) (a div q) - 1 else - int_floorlog (int b) ((q - 1) div a))"

lemma ceiling_div_minus_1:
  assumes "0 < a"
  shows "\<lceil>(of_int q / of_int a :: rat)\<rceil> - 1 = (q - 1) div a"
proof -
  define k where "k = (q - 1) div a"
  have "q - 1 = a * k + (q - 1) mod a" by (simp add: k_def)
  moreover have "0 \<le> (q - 1) mod a" "(q - 1) mod a < a" using assms by simp_all
  ultimately have "a * k < q" "q \<le> a * k + a" by linarith+
  then have "a * k < q" "q \<le> a * (k + 1)" by (simp_all add: distrib_left)
  then have "of_int (a * k) < (of_int q :: rat)" "(of_int q :: rat) \<le> of_int (a * (k + 1))"
    by (simp_all only: of_int_less_iff of_int_le_iff)
  then have "of_int k < (of_int q / of_int a :: rat)" "(of_int q / of_int a :: rat) \<le> of_int k + 1"
    using assms by (simp_all add: field_simps)
  then have "\<lceil>(of_int q / of_int a :: rat)\<rceil> = k + 1" by (simp add: ceiling_eq_iff)
  then show ?thesis by (simp add: k_def)
qed

lemma mag_exp_div:
  assumes "0 < q" and "a \<noteq> 0"
  shows "mag_exp b (of_int a / of_int q) = mag_exp_div b \<bar>a\<bar> q"
proof -
  have x: "\<bar>of_int a / of_int q\<bar> = (of_int \<bar>a\<bar> / of_int q :: rat)" using assms by simp
  have "1 \<le> (of_int \<bar>a\<bar> / of_int q :: rat) \<longleftrightarrow> of_int q \<le> (of_int \<bar>a\<bar> :: rat)"
    using assms by (simp add: le_divide_eq)
  then have c: "1 \<le> (of_int \<bar>a\<bar> / of_int q :: rat) \<longleftrightarrow> q \<le> \<bar>a\<bar>" by (simp only: of_int_le_iff)
  have "1 / (of_int \<bar>a\<bar> / of_int q :: rat) = of_int q / of_int \<bar>a\<bar>" by simp
  then have d: "\<lceil>1 / (of_int \<bar>a\<bar> / of_int q :: rat)\<rceil> - 1 = (q - 1) div \<bar>a\<bar>"
    using ceiling_div_minus_1 [of "\<bar>a\<bar>" q] assms by simp
  have f: "\<lfloor>(of_int \<bar>a\<bar> / of_int q :: rat)\<rfloor> = \<bar>a\<bar> div q" by (rule floor_divide_of_int_eq)
  show ?thesis unfolding mag_exp_def mag_exp_div_def x c d f int_floorlog ..
qed

fun fl_round_div :: "nat \<Rightarrow> nat \<Rightarrow> int \<times> int \<Rightarrow> rat" where
  "fl_round_div b p (a, q) =
     (if a = 0 then 0
      else let e = mag_exp_div b \<bar>a\<bar> q - int p + 1
           in if 0 \<le> e then (let u = int b ^ nat e in of_int (half_even_div a (q * u) * u))
              else (let s = int b ^ nat (- e) in of_int (half_even_div (a * s) q) / of_int s))"

definition fl_round_eval :: "nat \<Rightarrow> nat \<Rightarrow> rat \<Rightarrow> rat" where
  "fl_round_eval b p x = fl_round_div b p (quotient_of x)"

lemma fl_round_eval:
  assumes "0 < b"
  shows "fl_round b p x = fl_round_eval b p x"
proof -
  obtain a q where q: "quotient_of x = (a, q)" by force
  then have q0: "0 < q" and x: "x = of_int a / of_int q"
    by (auto simp: quotient_of_denom_pos quotient_of_div)
  show ?thesis
  proof (cases "a = 0")
    case True
    then show ?thesis by (simp add: fl_round_eval_def q, simp add: x)
  next
    case False
    define e where "e = mag_exp_div b \<bar>a\<bar> q - int p + 1"
    define u :: rat where "u = of_nat b powi e"
    have f: "fl_round b p x = of_int (half_even (x / u)) * u"
      using False q0 by (simp add: fl_round_def x mag_exp_div u_def e_def Let_def)
    show ?thesis
    proof (cases "0 \<le> e")
      case True
      then have u: "u = of_int (int b ^ nat e)" by (simp add: u_def power_int_def)
      have "0 < q * int b ^ nat e" using q0 assms by simp
      then have "half_even (x / u) = half_even_div a (q * int b ^ nat e)"
        using half_even_div [of "q * int b ^ nat e" a] by (simp add: x u)
      then show ?thesis using True False by (simp add: f q u e_def [symmetric] Let_def fl_round_eval_def)
    next
      case neg: False
      then have u: "u = 1 / of_int (int b ^ nat (- e))" by (simp add: u_def power_int_def divide_inverse power_inverse)
      have "half_even (x / u) = half_even_div (a * int b ^ nat (- e)) q"
        using half_even_div [OF q0, of "a * int b ^ nat (- e)"] by (simp add: x u)
      then show ?thesis using neg False by (simp add: f q u e_def [symmetric] Let_def fl_round_eval_def)
    qed
  qed
qed

subsection \<open>The laws the components rely on\<close>

locale rounding =
  fixes rnd :: "rat \<Rightarrow> rat"
  assumes rnd_zero [simp]: "rnd 0 = 0"
    and rnd_uminus: "rnd (- x) = - rnd x"
    and rnd_idem [simp]: "rnd (rnd x) = rnd x"
    and rnd_mono: "x \<le> y \<Longrightarrow> rnd x \<le> rnd y"
begin

lemma rnd_nonneg: "0 \<le> x \<Longrightarrow> 0 \<le> rnd x"
  using rnd_mono [of 0 x] by simp

lemma rnd_nonpos: "x \<le> 0 \<Longrightarrow> rnd x \<le> 0"
  using rnd_mono [of x 0] by simp

lemma rnd_abs: "\<bar>rnd x\<bar> = rnd \<bar>x\<bar>"
  using rnd_nonneg [of x] rnd_nonpos [of x] by (cases "0 \<le> x") (auto simp: rnd_uminus)

lemma rnd_le_fixed: "rnd y = y \<Longrightarrow> x \<le> y \<Longrightarrow> rnd x \<le> y"
  using rnd_mono [of x y] by simp

lemma fixed_le_rnd: "rnd y = y \<Longrightarrow> y \<le> x \<Longrightarrow> y \<le> rnd x"
  using rnd_mono [of y x] by simp

lemma rnd_pos_imp: "0 < rnd x \<Longrightarrow> 0 < x"
  using rnd_nonpos [of x] by linarith

lemma rnd_neg_imp: "rnd x < 0 \<Longrightarrow> x < 0"
  using rnd_nonneg [of x] by linarith

lemma rnd_diff_nonneg: "y \<le> x \<Longrightarrow> 0 \<le> rnd (x - y)"
  by (simp add: rnd_nonneg)

lemma rnd_diff_swap: "rnd (x - y) = - rnd (y - x)"
  using rnd_uminus [of "y - x"] by simp

lemma fold_add_nonneg:
  "0 \<le> a \<Longrightarrow> \<forall>x \<in> set xs. 0 \<le> x \<Longrightarrow> 0 \<le> foldl (\<lambda>s x. rnd (s + x)) a xs"
  by (induction xs arbitrary: a) (simp_all add: rnd_nonneg)

lemma fold_add_mono:
  "0 \<le> a \<Longrightarrow> a \<le> b \<Longrightarrow> \<forall>x \<in> set xs. 0 \<le> x \<Longrightarrow>
     foldl (\<lambda>s x. rnd (s + x)) a xs \<le> foldl (\<lambda>s x. rnd (s + x)) b xs"
  by (induction xs arbitrary: a b) (simp_all add: rnd_nonneg rnd_mono)

lemma fold_add_fixed: "rnd a = a \<Longrightarrow> rnd (foldl (\<lambda>s x. rnd (s + x)) a xs) = foldl (\<lambda>s x. rnd (s + x)) a xs"
  by (induction xs arbitrary: a) auto

end

lemma rounding_fl_round: "1 < b \<Longrightarrow> 0 < p \<Longrightarrow> rounding (fl_round b p)"
  by unfold_locales (auto simp: fl_round_uminus fl_round_idem fl_round_mono)

definition dround :: "rat \<Rightarrow> rat" where
  "dround = fl_round 10 28"

definition dround60 :: "rat \<Rightarrow> rat" where
  "dround60 = fl_round 10 60"

definition fround :: "rat \<Rightarrow> rat" where
  "fround = fl_round 2 53"

lemma round_code [code]:
  "dround x = fl_round_eval 10 28 x" "dround60 x = fl_round_eval 10 60 x" "fround x = fl_round_eval 2 53 x"
  by (simp_all add: dround_def dround60_def fround_def fl_round_eval)

interpretation dec: rounding dround
  unfolding dround_def by (rule rounding_fl_round) simp_all

interpretation dec60: rounding dround60
  unfolding dround60_def by (rule rounding_fl_round) simp_all

interpretation flt: rounding fround
  unfolding fround_def by (rule rounding_fl_round) simp_all

lemma dround_exact: "x = of_int c * 10 powi e \<Longrightarrow> \<bar>c\<bar> \<le> 10 ^ 28 \<Longrightarrow> dround x = x"
  unfolding dround_def by (rule fl_round_exact) (auto simp: has_digits_def)

lemma dround_of_int: "\<bar>c\<bar> \<le> 10 ^ 28 \<Longrightarrow> dround (of_int c) = of_int c"
  by (rule dround_exact [where e = 0]) simp_all

lemma dround_numeral_nat: "n \<le> 10 ^ 28 \<Longrightarrow> dround (of_nat n) = of_nat n"
  using dround_of_int [of "int n"] by simp

text \<open>
  Amounts kept to \<open>k\<close> decimal places and below \<open>10 ^ (28 - k)\<close> add and subtract without
  rounding.
\<close>

definition places :: "nat \<Rightarrow> rat \<Rightarrow> bool" where
  "places k x \<longleftrightarrow> x * 10 ^ k \<in> \<int>"

lemma places_add: "places k x \<Longrightarrow> places k y \<Longrightarrow> places k (x + y)"
  by (simp add: places_def distrib_right)

lemma places_diff: "places k x \<Longrightarrow> places k y \<Longrightarrow> places k (x - y)"
  by (simp add: places_def left_diff_distrib)

lemma places_uminus: "places k x \<Longrightarrow> places k (- x)"
  by (simp add: places_def)

lemma places_0 [simp]: "places k 0"
  by (simp add: places_def)

lemma dround_places:
  assumes "places k x" and "\<bar>x\<bar> \<le> 10 ^ 28 / 10 ^ k"
  shows "dround x = x"
proof -
  from assms(1) obtain c where c: "x * 10 ^ k = of_int c" by (auto simp: places_def elim: Ints_cases)
  have "\<bar>x * 10 ^ k\<bar> \<le> 10 ^ 28" using assms(2) by (simp add: abs_mult field_simps)
  then have "of_int \<bar>c\<bar> \<le> (of_int (10 ^ 28) :: rat)" by (simp add: c)
  then have "\<bar>c\<bar> \<le> 10 ^ 28" by (simp only: of_int_le_iff)
  moreover have "x = of_int c * 10 powi (- int k)"
    by (simp add: c [symmetric] power_int_minus)
  ultimately show ?thesis by (rule dround_exact [rotated])
qed

subsection \<open>Decimal operations in the default context\<close>

type_synonym dec = rat

definition dadd :: "dec \<Rightarrow> dec \<Rightarrow> dec" where "dadd a b = dround (a + b)"
definition dsub :: "dec \<Rightarrow> dec \<Rightarrow> dec" where "dsub a b = dround (a - b)"
definition dmul :: "dec \<Rightarrow> dec \<Rightarrow> dec" where "dmul a b = dround (a * b)"

text \<open>
  Division is used where the source has tested the divisor; the branches where it has not
  are written out as errors by the definitions that use it.
\<close>

definition ddiv :: "dec \<Rightarrow> dec \<Rightarrow> dec" where "ddiv a b = dround (a / b)"

text \<open>The unary operators round as well: \<open>-x\<close> and \<open>abs(x)\<close>.\<close>

definition dneg :: "dec \<Rightarrow> dec" where "dneg a = dround (- a)"
definition dabs :: "dec \<Rightarrow> dec" where "dabs a = dround \<bar>a\<bar>"

text \<open>\<open>sum(xs, Decimal("0"))\<close>: left to right, rounding at every step.\<close>

definition dsum :: "dec list \<Rightarrow> dec" where "dsum xs = foldl dadd 0 xs"

named_theorems dec_ops

lemmas dec_op_defs [dec_ops] = dadd_def dsub_def dmul_def ddiv_def dneg_def dabs_def

lemma dsum_Nil [simp]: "dsum [] = 0"
  by (simp add: dsum_def)

lemma dsum_snoc: "dsum (xs @ [x]) = dadd (dsum xs) x"
  by (simp add: dsum_def)

lemma dsum_nonneg: "\<forall>x \<in> set xs. 0 \<le> x \<Longrightarrow> 0 \<le> dsum xs"
  unfolding dsum_def dadd_def by (rule dec.fold_add_nonneg) simp_all

lemma dabs_nonneg [simp]: "0 \<le> dabs x"
  by (simp add: dabs_def dec.rnd_nonneg)

lemma dabs_uminus [simp]: "dabs (- x) = dabs x"
  by (simp add: dabs_def)

lemma dneg_dneg: "dneg (dneg x) = dround x"
  by (simp add: dneg_def dec.rnd_uminus)

lemma dmul_commute: "dmul a b = dmul b a"
  by (simp add: dmul_def mult.commute)

lemma dadd_commute: "dadd a b = dadd b a"
  by (simp add: dadd_def add.commute)

lemma dmul_nonneg: "0 \<le> a \<Longrightarrow> 0 \<le> b \<Longrightarrow> 0 \<le> dmul a b"
  by (simp add: dmul_def dec.rnd_nonneg)

lemma dadd_nonneg: "0 \<le> a \<Longrightarrow> 0 \<le> b \<Longrightarrow> 0 \<le> dadd a b"
  by (simp add: dadd_def dec.rnd_nonneg)

lemma ddiv_nonneg: "0 \<le> a \<Longrightarrow> 0 \<le> b \<Longrightarrow> 0 \<le> ddiv a b"
  by (simp add: ddiv_def dec.rnd_nonneg)

lemma dround_fixed_ops [simp]:
  "dround (dadd a b) = dadd a b" "dround (dsub a b) = dsub a b" "dround (dmul a b) = dmul a b"
  "dround (ddiv a b) = ddiv a b" "dround (dneg a) = dneg a" "dround (dabs a) = dabs a"
  by (simp_all add: dec_ops)

lemma dround_dsum [simp]: "dround (dsum xs) = dsum xs"
  unfolding dsum_def dadd_def by (rule dec.fold_add_fixed) simp

lemma dmul_0 [simp]: "dmul 0 b = 0" "dmul a 0 = 0"
  by (simp_all add: dmul_def)

lemma dadd_0 [simp]: "dadd 0 b = dround b" "dadd a 0 = dround a"
  by (simp_all add: dadd_def)

lemma dsub_self [simp]: "dsub a a = 0"
  by (simp add: dsub_def)

subsection \<open>Rounding to an exponent: \<open>quantize\<close>\<close>

definition half_up :: "rat \<Rightarrow> int" where
  "half_up x = (if 0 \<le> x then \<lfloor>x + 1/2\<rfloor> else - \<lfloor>1/2 - x\<rfloor>)"

definition round_down :: "rat \<Rightarrow> int" where
  "round_down x = (if 0 \<le> x then \<lfloor>x\<rfloor> else \<lceil>x\<rceil>)"

lemma half_up_of_int [simp]: "half_up (of_int n) = n"
  by (simp add: half_up_def floor_eq_iff)

lemma round_down_of_int [simp]: "round_down (of_int n) = n"
  by (simp add: round_down_def)

lemma round_down_abs_le: "\<bar>of_int (round_down x)\<bar> \<le> \<bar>x\<bar>"
proof (cases "0 \<le> x")
  case True
  then have "0 \<le> \<lfloor>x\<rfloor>" by simp
  with True show ?thesis by (simp add: round_down_def)
next
  case False
  then have "\<lceil>x\<rceil> \<le> 0" "x \<le> of_int \<lceil>x\<rceil>" by simp_all
  with False show ?thesis by (simp add: round_down_def)
qed

end
