(* ===== verification/Prelude.thy ===== *)
theory Prelude
  imports Decimal_Context "HOL-Library.AList"
begin

text \<open>
  What every component shares: the exceptions of \<open>domain/errors.py\<close> and of the Python
  standard library that the code raises or catches, results of fallible code, Python's
  insertion-ordered \<open>dict\<close> as an association list, tables of database rows, and time.
\<close>

subsection \<open>Exceptions and fallible results\<close>

text \<open>
  One constructor per exception class. \<open>parent_class\<close> is the class hierarchy (the standard
  library's intermediate classes, which no clause of the program names, are left out), \<open>is_a\<close> is
  what an \<open>except\<close> clause tests. An exception value keeps its class and the text the code can read
  back; numbers interpolated into messages are left out.
\<close>

datatype exn_class =
    ExceptionC | CryptoTraderError | ExchangeError | ExchangeUnavailable | RateLimited
  | AuthenticationError | InvalidOrder | InsufficientBalance | OrderNotFound | OrderRejected
  | StaleMarketData | SequenceGap | TemporaryNetworkError | UnknownExecutionState
  | IdempotencyConflict | InvalidStateTransition | JournalUnbalanced | LeaseNotHeld
  | KillSwitchEngaged | MarketDataUnhealthy
  | ValueError | DecimalError | InvalidOperation | ZeroDivisionError | KeyErrorC | IndexErrorC
  | ConnectionError | RuntimeErrorC | IntegrityError | AttributeErrorC | TypeErrorC | TimeoutErrorC

fun parent_class :: "exn_class \<Rightarrow> exn_class option" where
  "parent_class ExceptionC = None"
| "parent_class CryptoTraderError = Some ExceptionC"
| "parent_class ExchangeError = Some CryptoTraderError"
| "parent_class ExchangeUnavailable = Some ExchangeError"
| "parent_class RateLimited = Some ExchangeError"
| "parent_class AuthenticationError = Some ExchangeError"
| "parent_class InvalidOrder = Some ExchangeError"
| "parent_class InsufficientBalance = Some ExchangeError"
| "parent_class OrderNotFound = Some ExchangeError"
| "parent_class OrderRejected = Some ExchangeError"
| "parent_class StaleMarketData = Some ExchangeError"
| "parent_class SequenceGap = Some ExchangeError"
| "parent_class TemporaryNetworkError = Some ExchangeError"
| "parent_class UnknownExecutionState = Some ExchangeError"
| "parent_class IdempotencyConflict = Some CryptoTraderError"
| "parent_class InvalidStateTransition = Some CryptoTraderError"
| "parent_class JournalUnbalanced = Some CryptoTraderError"
| "parent_class LeaseNotHeld = Some CryptoTraderError"
| "parent_class KillSwitchEngaged = Some CryptoTraderError"
| "parent_class MarketDataUnhealthy = Some CryptoTraderError"
| "parent_class DecimalError = Some ValueError"
| "parent_class _ = Some ExceptionC"

fun class_depth :: "exn_class \<Rightarrow> nat" where
  "class_depth ExceptionC = 0"
| "class_depth CryptoTraderError = 1"
| "class_depth ExchangeError = 2"
| "class_depth IdempotencyConflict = 2"
| "class_depth InvalidStateTransition = 2"
| "class_depth JournalUnbalanced = 2"
| "class_depth LeaseNotHeld = 2"
| "class_depth KillSwitchEngaged = 2"
| "class_depth MarketDataUnhealthy = 2"
| "class_depth ValueError = 1"
| "class_depth DecimalError = 2"
| "class_depth InvalidOperation = 1"
| "class_depth ZeroDivisionError = 1"
| "class_depth KeyErrorC = 1"
| "class_depth IndexErrorC = 1"
| "class_depth ConnectionError = 1"
| "class_depth RuntimeErrorC = 1"
| "class_depth IntegrityError = 1"
| "class_depth _ = 3"

function is_a :: "exn_class \<Rightarrow> exn_class \<Rightarrow> bool" where
  "is_a c d = (c = d \<or> (case parent_class c of None \<Rightarrow> False | Some p \<Rightarrow> is_a p d))"
  by pat_completeness auto
termination
proof (relation "measure (\<lambda>(c, d). class_depth c)", simp)
  fix c d p :: exn_class
  assume "parent_class c = Some p"
  then show "((p, d), (c, d)) \<in> measure (\<lambda>(c, d). class_depth c)"
    by (cases c) auto
qed

declare is_a.simps [simp del]

datatype exn = Exn (exn_cls: exn_class) (exn_msg: string)

definition catches :: "exn_class list \<Rightarrow> exn \<Rightarrow> bool" where
  "catches cs e \<longleftrightarrow> list_ex (is_a (exn_cls e)) cs"

type_synonym 'a res = "exn + 'a"

abbreviation ret :: "'a \<Rightarrow> 'a res" where "ret \<equiv> Inr"

abbreviation raise :: "exn_class \<Rightarrow> 'a res" where "raise c \<equiv> Inl (Exn c [])"

definition rbind :: "'a res \<Rightarrow> ('a \<Rightarrow> 'b res) \<Rightarrow> 'b res" where
  "rbind m f = (case m of Inl e \<Rightarrow> Inl e | Inr x \<Rightarrow> f x)"

lemma rbind_simps [simp]: "rbind (Inl e) f = Inl e" "rbind (Inr x) f = f x"
  by (simp_all add: rbind_def)

lemma rbind_eq_Inr: "rbind m f = Inr y \<longleftrightarrow> (\<exists>x. m = Inr x \<and> f x = Inr y)"
  by (cases m) auto

lemma rbind_eq_Inl: "rbind m f = Inl e \<longleftrightarrow> m = Inl e \<or> (\<exists>x. m = Inr x \<and> f x = Inl e)"
  by (cases m) auto

lemma rbind_assoc: "rbind (rbind m f) g = rbind m (\<lambda>x. rbind (f x) g)"
  by (cases m) auto

text \<open>A loop whose body may raise stops at the first exception.\<close>

fun rfold :: "('x \<Rightarrow> 's \<Rightarrow> 's res) \<Rightarrow> 'x list \<Rightarrow> 's \<Rightarrow> 's res" where
  "rfold f [] s = Inr s"
| "rfold f (x # xs) s = rbind (f x s) (rfold f xs)"

lemma rfold_append: "rfold f (xs @ ys) s = rbind (rfold f xs s) (rfold f ys)"
proof (induction xs arbitrary: s)
  case (Cons x xs)
  then show ?case by (cases "f x s") auto
qed simp

lemma rfold_inv:
  assumes "\<And>x s s'. x \<in> set xs \<Longrightarrow> P s \<Longrightarrow> f x s = Inr s' \<Longrightarrow> P s'"
  shows "rfold f xs s = Inr s' \<Longrightarrow> P s \<Longrightarrow> P s'"
  using assms
proof (induction xs arbitrary: s)
  case (Cons x xs)
  then obtain t where "f x s = Inr t" "rfold f xs t = Inr s'"
    by (auto simp: rbind_eq_Inr)
  with Cons show ?case by (metis list.set_intros)
qed simp

lemma case_InrD: "(case r of Inr s \<Rightarrow> P s | Inl _ \<Rightarrow> False) \<Longrightarrow> \<exists>s. r = Inr s \<and> P s"
  by (cases r) simp_all

text \<open>A comprehension over an expression that may raise.\<close>

fun map_res :: "('x \<Rightarrow> 'y res) \<Rightarrow> 'x list \<Rightarrow> 'y list res" where
  "map_res f [] = Inr []"
| "map_res f (x # xs) = rbind (f x) (\<lambda>y. rbind (map_res f xs) (\<lambda>ys. Inr (y # ys)))"

text \<open>Division: by zero it raises, \<open>0 / 0\<close> another exception than the rest.\<close>

definition div_res :: "dec \<Rightarrow> dec \<Rightarrow> dec res" where
  "div_res a b = (if b = 0 then raise (if a = 0 then InvalidOperation else ZeroDivisionError) else ret (ddiv a b))"

subsection \<open>Python truth values\<close>

definition or_str :: "string option \<Rightarrow> string option \<Rightarrow> string option" where
  "or_str a b = (case a of Some s \<Rightarrow> (if s \<noteq> [] then a else b) | None \<Rightarrow> b)"

definition dec_or :: "dec option \<Rightarrow> dec \<Rightarrow> dec" where
  "dec_or a d = (case a of Some x \<Rightarrow> (if x \<noteq> 0 then x else d) | None \<Rightarrow> d)"

definition truthy_str :: "string option \<Rightarrow> bool" where
  "truthy_str a = (case a of Some s \<Rightarrow> s \<noteq> [] | None \<Rightarrow> False)"

lemma dec_or_Some_0 [simp]: "dec_or (Some 0) d = d" by (simp add: dec_or_def)
lemma dec_or_None [simp]: "dec_or None d = d" by (simp add: dec_or_def)
lemma dec_or_zero: "dec_or a 0 = (case a of Some x \<Rightarrow> x | None \<Rightarrow> 0)"
  by (auto simp: dec_or_def split: option.splits)

subsection \<open>Dictionaries\<close>

text \<open>
  A \<open>dict\<close> whose iteration order matters is an association list: \<open>AList.update\<close> overwrites
  in place or appends, \<open>AList.delete\<close> removes, \<open>map_of\<close> looks up, which is Python's
  insertion-ordered dictionary. \<open>dict_ok\<close> says that no key occurs twice.
\<close>

type_synonym ('k, 'v) dict = "('k \<times> 'v) list"

definition dict_ok :: "('k, 'v) dict \<Rightarrow> bool" where
  "dict_ok d \<longleftrightarrow> distinct (map fst d)"

definition dict_values :: "('k, 'v) dict \<Rightarrow> 'v list" where
  "dict_values d = map snd d"

lemma dict_ok_Nil [simp]: "dict_ok []"
  by (simp add: dict_ok_def)

lemma dict_ok_update [simp]: "dict_ok d \<Longrightarrow> dict_ok (AList.update k v d)"
  by (simp add: dict_ok_def distinct_update)

lemma dict_ok_delete [simp]: "dict_ok d \<Longrightarrow> dict_ok (AList.delete k d)"
  by (simp add: dict_ok_def distinct_delete)

lemma map_of_update [simp]: "map_of (AList.update k v d) = (map_of d)(k \<mapsto> v)"
  by (simp add: update_conv')

lemma map_of_delete [simp]: "map_of (AList.delete k d) = (map_of d)(k := None)"
  by (simp add: delete_conv')

lemma set_dict_update:
  "set (AList.update k v d) \<subseteq> insert (k, v) (set d)"
  by (induction d) auto

lemma dict_values_update: "set (dict_values (AList.update k v d)) \<subseteq> insert v (set (dict_values d))"
  using set_dict_update [of k v d] by (auto simp: dict_values_def)

lemma set_dict_delete: "set (AList.delete k d) \<subseteq> set d"
  by (auto simp: AList.delete_eq)

lemma dict_values_map_of: "map_of d k = Some v \<Longrightarrow> v \<in> set (dict_values d)"
  by (auto simp: dict_values_def dest!: map_of_SomeD intro: rev_image_eqI)

lemma dict_ok_map_of_iff: "dict_ok d \<Longrightarrow> (k, v) \<in> set d \<longleftrightarrow> map_of d k = Some v"
  by (auto simp: dict_ok_def)

subsection \<open>Time\<close>

text \<open>
  A \<open>datetime\<close> is a number of microseconds since the epoch. \<open>total_seconds\<close> of a difference
  and \<open>timestamp\<close> are the microseconds divided by a million, correctly rounded to a float.
\<close>

type_synonym usec = int
type_synonym fl = rat

definition total_seconds :: "usec \<Rightarrow> fl" where
  "total_seconds d = fround (of_int d / 1000000)"

definition fadd :: "fl \<Rightarrow> fl \<Rightarrow> fl" where "fadd a b = fround (a + b)"
definition fsub :: "fl \<Rightarrow> fl \<Rightarrow> fl" where "fsub a b = fround (a - b)"
definition fmul :: "fl \<Rightarrow> fl \<Rightarrow> fl" where "fmul a b = fround (a * b)"

lemma total_seconds_mono: "d \<le> d' \<Longrightarrow> total_seconds d \<le> total_seconds d'"
  unfolding total_seconds_def by (rule flt.rnd_mono) (simp add: divide_right_mono)

end
