(* ===== verification/Money.thy ===== *)
theory Money
  imports Prelude
begin

text \<open>
  \<open>domain/money.py\<close>: strict conversion to \<open>Decimal\<close>, the canonical text form that the
  persistence layer stores (\<open>ExactDecimal\<close> in \<open>persistence/models.py\<close>), rounding to tick and
  step sizes. The lemmas show that the stored text reads back to the same amount, what
  \<open>floor_to_step\<close> returns, and that \<open>round_tick\<close> looks only at the exponent of the tick.
\<close>

subsection \<open>Text to decimal\<close>

definition is_digit :: "char \<Rightarrow> bool" where
  "is_digit c \<longleftrightarrow> c \<in> set ''0123456789''"

definition digit_val :: "char \<Rightarrow> int" where
  "digit_val c = of_char c - 48"

definition digits_val :: "string \<Rightarrow> int" where
  "digits_val s = foldl (\<lambda>n c. 10 * n + digit_val c) 0 s"

definition is_space :: "char \<Rightarrow> bool" where
  "is_space c \<longleftrightarrow> (let n = (of_char c :: nat) in n = 32 \<or> (9 \<le> n \<and> n \<le> 13) \<or> (28 \<le> n \<and> n \<le> 31) \<or> n = 133 \<or> n = 160)"

definition strip :: "string \<Rightarrow> string" where
  "strip s = rev (dropWhile is_space (rev (dropWhile is_space s)))"

definition parse_exponent :: "string \<Rightarrow> int option" where
  "parse_exponent s =
     (let (neg, ds) = (case s of c # t \<Rightarrow> (if c = CHR ''-'' then (True, t)
                                           else if c = CHR ''+'' then (False, t) else (False, s))
                       | [] \<Rightarrow> (False, []))
      in if ds \<noteq> [] \<and> list_all is_digit ds
         then Some (if neg then - digits_val ds else digits_val ds) else None)"

definition parse_sign :: "string \<Rightarrow> int \<times> string" where
  "parse_sign s =
     (case s of c # t \<Rightarrow> (if c = CHR ''-'' then (-1, t) else if c = CHR ''+'' then (1, t) else (1, s))
      | [] \<Rightarrow> (1, []))"

definition parse_decimal :: "string \<Rightarrow> dec option" where
  "parse_decimal s0 =
     (let s1 = filter (\<lambda>c. c \<noteq> CHR ''_'') s0;
          (sg, s) = parse_sign s1;
          ip = takeWhile is_digit s;
          r = dropWhile is_digit s;
          (fp, r2) = (case r of c # t \<Rightarrow> (if c = CHR ''.'' then (takeWhile is_digit t, dropWhile is_digit t)
                                          else ([], r))
                      | [] \<Rightarrow> ([], []))
      in if ip = [] \<and> fp = [] then None
         else (case r2 of
                 [] \<Rightarrow> Some (of_int (sg * digits_val (ip @ fp)) / 10 ^ length fp)
               | c # t \<Rightarrow> (if c = CHR ''e'' \<or> c = CHR ''E'' then
                    map_option (\<lambda>e. of_int (sg * digits_val (ip @ fp)) * 10 powi (e - int (length fp)))
                      (parse_exponent t)
                  else None)))"

datatype py_value = PyInt int | PyBool bool | PyStr string | PyDec dec | PyFloat fl | PyOther

fun D :: "py_value \<Rightarrow> dec res" where
  "D (PyDec d) = ret d"
| "D (PyBool b) = raise DecimalError"
| "D (PyInt n) = ret (of_int n)"
| "D (PyStr s) =
     (let t = strip s in
      if t = [] then raise DecimalError
      else case parse_decimal t of None \<Rightarrow> raise DecimalError | Some d \<Rightarrow> ret d)"
| "D (PyFloat x) = raise DecimalError"
| "D PyOther = raise DecimalError"

subsection \<open>Decimal to text\<close>

definition digit_char :: "int \<Rightarrow> char" where
  "digit_char n = ''0123456789'' ! nat n"

function int_digits :: "int \<Rightarrow> string" where
  "int_digits n = (if n < 10 then [digit_char n] else int_digits (n div 10) @ [digit_char (n mod 10)])"
  by pat_completeness auto
termination by (relation "measure nat") auto

declare int_digits.simps [simp del]

fun fixed_digits :: "nat \<Rightarrow> int \<Rightarrow> string" where
  "fixed_digits 0 n = []"
| "fixed_digits (Suc k) n = fixed_digits k (n div 10) @ [digit_char (n mod 10)]"

text \<open>
  The number of decimals of a terminating fraction with denominator \<open>d\<close>: as often as a factor
  shared with ten can be taken out.
\<close>

function places_of :: "int \<Rightarrow> nat" where
  "places_of d = (if d \<le> 1 \<or> gcd d 10 = 1 then 0 else Suc (places_of (d div gcd d 10)))"
  by pat_completeness auto
termination
proof (relation "measure nat", simp)
  fix d :: int
  assume a: "\<not> (d \<le> 1 \<or> gcd d 10 = 1)"
  then have "1 < gcd d 10" by (smt (verit) gcd_pos_int zero_neq_numeral)
  with a have "d div gcd d 10 < d" by (intro int_div_less_self) auto
  with a show "(d div gcd d 10, d) \<in> measure nat" by simp
qed

declare places_of.simps [simp del]

definition dec_places :: "dec \<Rightarrow> nat" where
  "dec_places x = places_of (snd (quotient_of x))"

definition plain_text :: "dec \<Rightarrow> string" where
  "plain_text x =
     (let k = dec_places x; n = \<lfloor>\<bar>x\<bar> * 10 ^ k\<rfloor>
      in (if x < 0 then ''-'' else '''') @ int_digits (n div 10 ^ k) @
         (if k = 0 then '''' else ''.'' @ fixed_digits k (n mod 10 ^ k)))"

subsection \<open>\<open>quantize\<close> and rounding to tick and step\<close>

definition quantize :: "(rat \<Rightarrow> int) \<Rightarrow> int \<Rightarrow> dec \<Rightarrow> dec res" where
  "quantize mode e x =
     (let c = mode (x / 10 powi e)
      in if 10 ^ 28 \<le> \<bar>c\<bar> then raise InvalidOperation else ret (of_int c * 10 powi e))"

definition quantize_8 :: "py_value \<Rightarrow> (rat \<Rightarrow> int) \<Rightarrow> dec res" where
  "quantize_8 v mode = rbind (D v) (quantize mode (-8))"

definition format_decimal :: "dec \<Rightarrow> string res" where
  "format_decimal d =
     (if d = 0 then ret ''0'' else rbind (quantize half_even (-8) d) (\<lambda>q. ret (plain_text d)))"

function trailing_zeros :: "int \<Rightarrow> nat" where
  "trailing_zeros n = (if 0 < n \<and> n mod 10 = 0 then Suc (trailing_zeros (n div 10)) else 0)"
  by pat_completeness auto
termination by (relation "measure nat") auto

declare trailing_zeros.simps [simp del]

text \<open>The exponent of \<open>tick.normalize()\<close>: trailing zeros of the coefficient are stripped.\<close>

definition norm_exponent :: "dec \<Rightarrow> int" where
  "norm_exponent x0 =
     (let x = dround x0; k = dec_places x
      in if 0 < k then - int k else int (trailing_zeros \<lfloor>\<bar>x\<bar>\<rfloor>))"

definition round_tick :: "dec \<Rightarrow> dec \<Rightarrow> (rat \<Rightarrow> int) \<Rightarrow> dec res" where
  "round_tick v tick mode =
     (if tick \<le> 0 then raise DecimalError else quantize mode (norm_exponent tick) v)"

definition floor_to_step :: "dec \<Rightarrow> dec \<Rightarrow> dec res" where
  "floor_to_step v step =
     (if step \<le> 0 then raise DecimalError
      else let steps = round_down (dround60 (v / step)) in ret (dround60 (of_int steps * step)))"

definition is_zero :: "dec \<Rightarrow> bool" where "is_zero v \<longleftrightarrow> v = 0"

definition safe_mul :: "dec \<Rightarrow> dec \<Rightarrow> dec" where "safe_mul a b = dround60 (a * b)"

definition safe_div :: "dec \<Rightarrow> dec \<Rightarrow> dec res" where
  "safe_div a b = (if b = 0 then raise DecimalError else ret (dround60 (a / b)))"

subsection \<open>The persisted form\<close>

definition process_bind_param :: "dec option \<Rightarrow> string option res" where
  "process_bind_param v =
     (case v of None \<Rightarrow> ret None | Some d \<Rightarrow> rbind (format_decimal d) (\<lambda>s. ret (Some s)))"

definition process_result_value :: "string option \<Rightarrow> dec option res" where
  "process_result_value v =
     (case v of None \<Rightarrow> ret None | Some s \<Rightarrow> rbind (D (PyStr s)) (\<lambda>d. ret (Some d)))"

subsection \<open>Digits\<close>

lemma digit_char_ok:
  assumes "0 \<le> n" "n < 10"
  shows "is_digit (digit_char n)" "digit_val (digit_char n) = n"
proof -
  have "n = 0 \<or> n = 1 \<or> n = 2 \<or> n = 3 \<or> n = 4 \<or> n = 5 \<or> n = 6 \<or> n = 7 \<or> n = 8 \<or> n = 9"
    using assms by presburger
  then show "is_digit (digit_char n)" "digit_val (digit_char n) = n"
    by (auto simp: is_digit_def digit_char_def digit_val_def)
qed

lemma digits_val_append: "digits_val (xs @ ys) = digits_val xs * 10 ^ length ys + digits_val ys"
  by (induction ys rule: rev_induct) (simp_all add: digits_val_def algebra_simps)

lemma digits_val_snoc: "digits_val (xs @ [c]) = 10 * digits_val xs + digit_val c"
  by (simp add: digits_val_def)

lemma int_digits_ok: "0 \<le> n \<Longrightarrow> digits_val (int_digits n) = n \<and> list_all is_digit (int_digits n) \<and> int_digits n \<noteq> []"
proof (induction n rule: int_digits.induct)
  case (1 n)
  show ?case
  proof (cases "n < 10")
    case True
    with 1(2) show ?thesis
      by (subst (1 2 3) int_digits.simps) (simp add: digit_char_ok digits_val_def)
  next
    case False
    with 1 have "digits_val (int_digits (n div 10)) = n div 10 \<and> list_all is_digit (int_digits (n div 10))"
      by simp
    with False show ?thesis
      by (subst (1 2 3) int_digits.simps) (simp add: digit_char_ok digits_val_snoc)
  qed
qed

lemma fixed_digits_ok:
  "0 \<le> n \<Longrightarrow> digits_val (fixed_digits k n) = n mod 10 ^ k \<and> list_all is_digit (fixed_digits k n)
     \<and> length (fixed_digits k n) = k"
proof (induction k arbitrary: n)
  case 0
  then show ?case by (simp add: digits_val_def)
next
  case (Suc k)
  then have "digits_val (fixed_digits k (n div 10)) = n div 10 mod 10 ^ k" by simp
  moreover have "10 * (n div 10 mod 10 ^ k) + n mod 10 = n mod 10 ^ Suc k"
    by (simp add: zmod_zmult2_eq)
  ultimately show ?case using Suc by (simp add: digit_char_ok digits_val_snoc)
qed

lemma is_digit_not [simp]:
  "is_digit c \<Longrightarrow> c \<noteq> CHR ''_''" "is_digit c \<Longrightarrow> c \<noteq> CHR ''-''" "is_digit c \<Longrightarrow> c \<noteq> CHR ''+''"
  "is_digit c \<Longrightarrow> c \<noteq> CHR ''.''" "is_digit c \<Longrightarrow> \<not> is_space c"
  by (auto simp: is_digit_def is_space_def)

subsection \<open>The number of decimals\<close>

lemma places_of_dvd: "0 < d \<Longrightarrow> d dvd 10 ^ m \<Longrightarrow> d dvd 10 ^ places_of d"
proof (induction d rule: places_of.induct)
  case (1 d)
  let ?g = "gcd d 10"
  show ?case
  proof (cases "d \<le> 1 \<or> ?g = 1")
    case True
    then have "d = 1"
    proof
      assume "?g = 1"
      then have "coprime d (10 ^ m)" by (metis coprime_iff_gcd_eq_1 coprime_power_right_iff)
      with 1(3) have "is_unit d" by (metis coprime_common_divisor dvd_refl)
      with 1(2) show ?thesis by simp
    qed (use 1(2) in simp)
    then show ?thesis by simp
  next
    case False
    have "d div ?g dvd d" by (simp add: div_dvd_iff_mult)
    then have "d div ?g dvd 10 ^ m" using 1(3) dvd_trans by blast
    moreover have "0 < d div ?g" using 1(2) by (simp add: pos_imp_zdiv_pos_iff zdvd_imp_le)
    ultimately have "d div ?g dvd 10 ^ places_of (d div ?g)" using 1(1) False by blast
    then have "(d div ?g) * ?g dvd 10 ^ places_of (d div ?g) * 10" by (intro mult_dvd_mono) auto
    with False show ?thesis by (subst places_of.simps) (simp add: mult.commute)
  qed
qed

lemma dec_places_ok:
  assumes "places m x"
  shows "places (dec_places x) x"
proof -
  obtain a d where q: "quotient_of x = (a, d)" by force
  then have d: "0 < d" and ad: "coprime a d" and x: "x = of_int a / of_int d"
    by (auto simp: quotient_of_denom_pos quotient_of_coprime quotient_of_div)
  obtain c where "x * 10 ^ m = of_int c" using assms by (auto simp: places_def elim: Ints_cases)
  then have "(of_int (a * 10 ^ m) :: rat) = of_int (c * d)" using d by (simp add: x field_simps)
  then have "a * 10 ^ m = c * d" by (simp only: of_int_eq_iff)
  then have "d dvd a * 10 ^ m" by simp
  with ad have "d dvd 10 ^ m" by (metis coprime_commute coprime_dvd_mult_right_iff)
  with d have "d dvd 10 ^ places_of d" by (rule places_of_dvd)
  then obtain b where b: "10 ^ places_of d = d * b" by blast
  have "x * of_int (10 ^ places_of d) = of_int (a * b)" unfolding b using d by (simp add: x)
  then have "x * 10 ^ places_of d = of_int (a * b)" by simp
  then show ?thesis unfolding places_def dec_places_def q snd_conv by (metis Ints_of_int)
qed

subsection \<open>What is stored reads back\<close>

lemma takeWhile_digits:
  "list_all is_digit xs \<Longrightarrow> takeWhile is_digit (xs @ ys) = xs @ takeWhile is_digit ys"
  "list_all is_digit xs \<Longrightarrow> dropWhile is_digit (xs @ ys) = dropWhile is_digit ys"
  by (induction xs) auto

lemma filter_digits: "list_all is_digit xs \<Longrightarrow> filter (\<lambda>c. c \<noteq> CHR ''_'') xs = xs"
  by (induction xs) auto

lemma not_digit_dot [simp]: "\<not> is_digit CHR ''.''"
  by (simp add: is_digit_def)

lemma parse_plain:
  assumes "list_all is_digit ip" "ip \<noteq> []" "list_all is_digit fp"
  shows "parse_decimal ((if neg then ''-'' else '''') @ ip @ (if fp = [] then '''' else ''.'' @ fp)) =
           Some ((if neg then - 1 else 1) * of_int (digits_val (ip @ fp)) / 10 ^ length fp)"
proof -
  define body where "body = ip @ (if fp = [] then '''' else ''.'' @ fp)"
  have f: "filter (\<lambda>c. c \<noteq> CHR ''_'') ((if neg then ''-'' else '''') @ body) = (if neg then ''-'' else '''') @ body"
    using assms by (simp add: body_def filter_digits)
  obtain c t where ct: "ip = c # t" "is_digit c" using assms by (cases ip) auto
  then have sg: "parse_sign ((if neg then ''-'' else '''') @ body) = (if neg then (-1, body) else (1, body))"
    by (simp add: parse_sign_def body_def)
  have tw: "takeWhile is_digit body = ip"
    "dropWhile is_digit body = (if fp = [] then '''' else ''.'' @ fp)"
    using assms takeWhile_digits [of ip] by (auto simp: body_def)
  have fr: "takeWhile is_digit fp = fp" "dropWhile is_digit fp = []"
    using assms(3) by (auto simp: list_all_iff takeWhile_eq_all_conv)
  show ?thesis
    unfolding parse_decimal_def Let_def body_def [symmetric] f sg
    by (cases neg; cases "fp = []") (use assms(2) fr in \<open>simp_all add: tw del: takeWhile_eq_all_conv dropWhile_eq_Nil_conv\<close>)
qed

lemma strip_plain:
  assumes "xs \<noteq> []" "list_all (\<lambda>c. \<not> is_space c) xs"
  shows "strip xs = xs"
proof -
  have d: "dropWhile is_space ys = ys" if "list_all (\<lambda>c. \<not> is_space c) ys" for ys
    using that by (cases ys) auto
  show ?thesis using assms by (simp add: strip_def d)
qed

lemma D_plain_text:
  assumes "places m x"
  shows "D (PyStr (plain_text x)) = ret x"
proof -
  define k where "k = dec_places x"
  define n where "n = \<lfloor>\<bar>x\<bar> * 10 ^ k\<rfloor>"
  define ip where "ip = int_digits (n div 10 ^ k)"
  define fp where "fp = fixed_digits k (n mod 10 ^ k)"
  have n: "of_int n = \<bar>x\<bar> * 10 ^ k"
  proof -
    obtain c where c: "x * 10 ^ k = of_int c"
      using dec_places_ok [OF assms] by (auto simp: places_def k_def elim: Ints_cases)
    have "\<bar>x\<bar> * 10 ^ k = \<bar>x * 10 ^ k\<bar>" by (simp add: abs_mult)
    then show ?thesis by (simp add: n_def c flip: of_int_abs)
  qed
  have n0: "0 \<le> n" by (simp add: n_def)
  then have ip: "digits_val ip = n div 10 ^ k" "list_all is_digit ip" "ip \<noteq> []"
    using int_digits_ok [of "n div 10 ^ k"] by (auto simp: ip_def pos_imp_zdiv_nonneg_iff)
  have fp: "digits_val fp = n mod 10 ^ k" "list_all is_digit fp" "length fp = k"
    using fixed_digits_ok [of "n mod 10 ^ k" k] by (auto simp: fp_def)
  have pt: "plain_text x = (if x < 0 then ''-'' else '''') @ ip @ (if fp = [] then '''' else ''.'' @ fp)"
    using fp(3) by (auto simp: plain_text_def Let_def k_def [symmetric] n_def [symmetric] ip_def fp_def)
  have "(if x < 0 then - 1 else 1) * of_int (digits_val (ip @ fp)) / 10 ^ length fp = x"
    unfolding digits_val_append ip(1) fp(1,3) div_mult_mod_eq by (simp add: n)
  then have pd: "parse_decimal (plain_text x) = Some x"
    unfolding pt using parse_plain [OF ip(2,3) fp(2)] by simp
  have "list_all (\<lambda>c. \<not> is_space c) (plain_text x)"
    unfolding pt using ip(2) fp(2) by (auto simp: list_all_iff) (simp_all add: is_space_def)
  moreover have "plain_text x \<noteq> []" using ip(3) by (simp add: pt)
  ultimately show ?thesis by (simp add: strip_plain pd)
qed

lemma abs_half_even_less: "\<bar>y\<bar> < of_int n - 1 \<Longrightarrow> \<bar>half_even y\<bar> < n"
  using half_even_error [of y] by linarith

lemma le_abs_half_even: "of_int n \<le> \<bar>y\<bar> \<Longrightarrow> n \<le> \<bar>half_even y\<bar>"
  using half_even_error [of y] by linarith

lemma quantum_8: "d / 10 powi (-8) = d * 10 ^ 8" for d :: rat
  by (simp add: power_int_minus)

lemma quantize_8_ok:
  assumes "\<bar>d\<bar> < 10 ^ 20 - 1"
  shows "\<exists>q. quantize half_even (-8) d = ret q"
proof -
  have "\<bar>d * 10 ^ 8\<bar> < of_int (10 ^ 28) - 1" using assms by (simp add: abs_mult)
  then have "\<bar>half_even (d * 10 ^ 8)\<bar> < 10 ^ 28" by (rule abs_half_even_less)
  then have "\<not> 10 ^ 28 \<le> \<bar>half_even (d * 10 ^ 8)\<bar>" by linarith
  then show ?thesis unfolding quantize_def Let_def quantum_8 by (simp only: if_False) blast
qed

lemma quantize_overflow:
  assumes "10 ^ 20 \<le> \<bar>d\<bar>"
  shows "quantize half_even (-8) d = raise InvalidOperation"
proof -
  have "of_int (10 ^ 28) \<le> \<bar>d * 10 ^ 8\<bar>" using assms by (simp add: abs_mult)
  then have "10 ^ 28 \<le> \<bar>half_even (d * 10 ^ 8)\<bar>" by (rule le_abs_half_even)
  then show ?thesis unfolding quantize_def Let_def quantum_8 by simp
qed

text \<open>C40: an amount with finitely many decimals and below the quantum's range is stored as a
  text that reads back to exactly the same amount, so the database keeps the ledger exactly.\<close>

theorem exact_decimal_roundtrip:
  assumes "places m x" and "\<bar>x\<bar> < 10 ^ 20 - 1"
  shows "\<exists>s. process_bind_param (Some x) = ret (Some s) \<and> process_result_value (Some s) = ret (Some x)"
proof (cases "x = 0")
  case True
  have "D (PyStr ''0'') = ret 0" by code_simp
  with True show ?thesis by (simp add: process_bind_param_def process_result_value_def format_decimal_def)
next
  case False
  obtain q where "quantize half_even (-8) x = ret q" using quantize_8_ok [OF assms(2)] by blast
  with False D_plain_text [OF assms(1)] show ?thesis
    by (simp add: process_bind_param_def process_result_value_def format_decimal_def del: D.simps)
qed

theorem exact_decimal_roundtrip_witness:
  "\<exists>s. process_bind_param (Some (- 123456 / 1000)) = ret (Some s)
     \<and> process_result_value (Some s) = ret (Some (- 123456 / 1000))"
proof (rule exact_decimal_roundtrip [of 3])
  show "places 3 (- 123456 / 1000)" by (simp add: places_def)
qed simp

text \<open>An amount of \<open>10 ^ 20\<close> or more cannot be stored: quantizing it to eight decimals
  needs more than the 28 digits of the context, and \<open>InvalidOperation\<close> is raised.\<close>

theorem exact_decimal_overflow:
  assumes "10 ^ 20 \<le> \<bar>x\<bar>"
  shows "process_bind_param (Some x) = raise InvalidOperation"
proof -
  have "x \<noteq> 0" using assms by auto
  with quantize_overflow [OF assms] show ?thesis
    by (simp add: process_bind_param_def format_decimal_def)
qed

theorem exact_decimal_overflow_witness:
  "process_bind_param (Some (- (10 ^ 21))) = raise InvalidOperation"
  by (rule exact_decimal_overflow) simp

subsection \<open>Rounding to a step\<close>

lemma dround60_int: "\<bar>c\<bar> \<le> 10 ^ 60 \<Longrightarrow> dround60 (of_int c * 10 powi e) = of_int c * 10 powi e"
  unfolding dround60_def by (rule fl_round_exact) (auto simp: has_digits_def)

lemma dround60_nearest: "\<bar>c\<bar> \<le> 10 ^ 60 \<Longrightarrow> \<bar>dround60 x - x\<bar> \<le> \<bar>of_int c * 10 powi e - x\<bar>"
  unfolding dround60_def by (rule fl_round_nearest) (auto simp: has_digits_def)

lemma floor_dround60:
  assumes "0 \<le> a" "a \<le> 10 ^ 29" "0 < b" "b < 10 ^ 30"
  shows "\<lfloor>dround60 (of_int a / of_int b)\<rfloor> = a div b"
proof -
  define q :: rat where "q = of_int a / of_int b"
  have fl: "\<lfloor>q\<rfloor> = a div b" unfolding q_def by (rule floor_divide_of_int_eq)
  have q0: "0 \<le> q" using assms by (simp add: q_def)
  have qa: "q \<le> 10 ^ 29"
  proof -
    have "q \<le> of_int a" using assms unfolding q_def by (simp add: divide_le_eq mult_le_cancel_left1)
    also have "\<dots> \<le> of_int (10 ^ 29)" using assms(2) by (simp only: of_int_le_iff)
    finally show ?thesis by simp
  qed
  have n: "a div b \<le> 10 ^ 29" "0 \<le> a div b"
    using qa q0 by (simp_all add: fl [symmetric] floor_le_iff)
  have lo: "of_int (a div b) \<le> dround60 q"
  proof (rule dec60.fixed_le_rnd)
    show "dround60 (of_int (a div b)) = of_int (a div b)"
      using dround60_int [of "a div b" 0] n by simp
    show "of_int (a div b) \<le> q" by (simp add: fl [symmetric])
  qed
  have hi: "dround60 q < of_int (a div b) + 1"
  proof -
    define c where "c = \<lfloor>q * 10 ^ 30\<rfloor>"
    have "c \<le> 10 ^ 59" using qa unfolding c_def by (simp add: floor_le_iff)
    moreover have "0 \<le> c" using q0 by (simp add: c_def)
    ultimately have "\<bar>dround60 q - q\<bar> \<le> \<bar>of_int c * 10 powi (-30) - q\<bar>"
      by (intro dround60_nearest) simp
    moreover have "of_int c \<le> q * 10 ^ 30" "q * 10 ^ 30 < of_int c + 1" unfolding c_def by linarith+
    then have "\<bar>of_int c * 10 powi (-30) - q\<bar> < 1 / 10 ^ 30" by (simp add: power_int_minus abs_less_iff field_simps)
    ultimately have near: "dround60 q < q + 1 / 10 ^ 30" by linarith
    have "a + 1 \<le> (a div b + 1) * b"
    proof -
      have "a mod b < b" using assms(3) by simp
      moreover have "(a div b + 1) * b = a div b * b + b" by (simp add: distrib_right)
      ultimately show ?thesis using div_mult_mod_eq [of a b] by linarith
    qed
    then have "of_int (a + 1) \<le> (of_int ((a div b + 1) * b) :: rat)" by (simp only: of_int_le_iff)
    then have "q + 1 / of_int b \<le> of_int (a div b) + 1"
      using assms(3) by (simp add: q_def field_simps)
    moreover have "1 / 10 ^ 30 \<le> 1 / (of_int b :: rat)"
    proof -
      have "of_int b \<le> (of_int (10 ^ 30) :: rat)" using assms(4) by (simp only: of_int_le_iff)
      then show ?thesis using assms(3) by (intro divide_left_mono) auto
    qed
    ultimately show ?thesis using near by linarith
  qed
  show ?thesis using lo hi unfolding q_def [symmetric] by (simp add: floor_eq_iff)
qed

lemma places_int: "places k x \<Longrightarrow> \<exists>c. x = of_int c / 10 ^ k"
  by (auto simp: places_def elim!: Ints_cases) (metis nonzero_eq_divide_eq power_not_zero zero_neq_numeral)

text \<open>\<open>floor_to_step\<close> returns the largest multiple of the step that is at most the value,
  exactly: the 60-digit context never rounds the quotient up to the next step.\<close>

theorem floor_to_step_exact:
  assumes "places k v" "places k step" "0 \<le> v" "0 < step"
    and "v * 10 ^ k \<le> 10 ^ 29" "step * 10 ^ k < 10 ^ 30"
  shows "\<exists>n r. floor_to_step v step = ret r \<and> r = of_int n * step \<and> r \<le> v \<and> v < r + step"
proof -
  obtain a b where a: "v = of_int a / 10 ^ k" and b: "step = of_int b / 10 ^ k"
    using assms(1,2) places_int by metis
  have "0 \<le> of_int a / (10 :: rat) ^ k" "0 < of_int b / (10 :: rat) ^ k" using assms(3,4) a b by auto
  then have ab: "0 \<le> a" "0 < b" by (simp_all add: pos_le_divide_eq pos_less_divide_eq)
  have "of_int a \<le> (of_int (10 ^ 29) :: rat)" "of_int b < (of_int (10 ^ 30) :: rat)"
    using assms(5,6) by (simp_all add: a b)
  then have bd: "a \<le> 10 ^ 29" "b < 10 ^ 30" by (simp_all only: of_int_le_iff of_int_less_iff)
  have q: "v / step = of_int a / of_int b" by (simp add: a b)
  define n where "n = a div b"
  have "0 \<le> dround60 (v / step)" using assms by (intro dec60.rnd_nonneg) simp
  then have rd: "round_down (dround60 (v / step)) = n"
    unfolding q n_def round_down_def using floor_dround60 [OF ab(1) bd(1) ab(2) bd(2)] by simp
  have nb: "0 \<le> n" "n * b \<le> a" "a < n * b + b"
  proof -
    have "n * b + a mod b = a" "0 \<le> a mod b" "a mod b < b"
      using ab by (simp_all add: n_def)
    then show "n * b \<le> a" "a < n * b + b" by linarith+
  qed (use ab in \<open>simp add: n_def pos_imp_zdiv_nonneg_iff\<close>)
  have "dround60 (of_int (n * b) * 10 powi (- int k)) = of_int (n * b) * 10 powi (- int k)"
    using nb ab bd by (intro dround60_int) simp
  then have ex: "dround60 (of_int n * step) = of_int n * step"
    by (simp add: b power_int_minus divide_inverse mult.assoc)
  have "of_int (n * b) \<le> (of_int a :: rat)" "of_int a < (of_int (n * b + b) :: rat)"
    using nb by (simp_all only: of_int_le_iff of_int_less_iff)
  then have "of_int n * step \<le> v" "v < of_int n * step + step"
    by (simp_all add: a b divide_right_mono add_divide_distrib [symmetric] divide_strict_right_mono)
  moreover have "floor_to_step v step = ret (of_int n * step)"
    using assms(4) by (simp add: floor_to_step_def rd ex)
  ultimately show ?thesis by blast
qed

theorem floor_to_step_exact_witness:
  "\<exists>n r. floor_to_step (1234567 / 1000000) (1 / 1000) = ret r \<and> r = of_int n * (1 / 1000)
     \<and> r \<le> 1234567 / 1000000 \<and> 1234567 / 1000000 < r + 1 / 1000"
proof (rule floor_to_step_exact [where k = 6])
  show "places 6 (1234567 / 1000000)" "places 6 (1 / 1000)" by (simp_all add: places_def)
qed simp_all

subsection \<open>Rounding to a tick\<close>

lemma places_of_10: "places_of (10 ^ k) = k"
proof (induction k)
  case (Suc k)
  have g: "gcd (10 ^ Suc k) 10 = (10 :: int)" by (metis dvd_triv_left gcd_unique_int gcd_proj2_if_dvd_int abs_numeral power_Suc)
  have "1 \<le> (10 :: int) ^ k" by (rule one_le_power) simp
  then have "1 < (10 :: int) ^ Suc k" by (simp only: power_Suc)
  then have "10 ^ Suc k \<le> (1 :: int) \<longleftrightarrow> False" by (simp only: not_le [symmetric])
  then have "places_of (10 ^ Suc k) = Suc (places_of (10 ^ Suc k div 10))"
    by (subst places_of.simps) (simp add: g del: power_Suc)
  with Suc show ?case by simp
qed (simp add: places_of.simps)

lemma trailing_zeros_10: "trailing_zeros (10 ^ k) = k"
  by (induction k) (simp_all add: trailing_zeros.simps)

lemma norm_exponent_10: "norm_exponent (10 powi e) = e"
proof -
  have r: "dround (10 powi e) = 10 powi e" by (rule dround_exact [of _ 1 e]) simp_all
  show ?thesis
  proof (cases "0 \<le> e")
    case True
    then obtain k where k: "e = int k" by (metis nonneg_int_cases)
    have "quotient_of (10 ^ k) = (10 ^ k, 1)"
      using quotient_of_int [of "10 ^ k"] by (simp add: Rat.of_int_def)
    then have "dec_places (10 ^ k) = 0" by (simp add: dec_places_def places_of.simps)
    moreover have "\<lfloor>(10 :: rat) ^ k\<rfloor> = 10 ^ k" by (metis floor_of_int of_int_numeral of_int_power)
    ultimately show ?thesis using r by (simp add: norm_exponent_def k Let_def trailing_zeros_10)
  next
    case False
    define k where "k = nat (- e)"
    with False have k: "e = - int k" "0 < k" by simp_all
    have "(10 :: rat) powi e = Fract 1 (10 ^ k)"
      by (simp add: k power_int_minus Fract_of_int_quotient divide_inverse)
    then have "quotient_of (10 powi e) = (1, 10 ^ k)" by (simp add: quotient_of_Fract normalize_def)
    then have "dec_places (10 powi e) = k" by (simp add: dec_places_def places_of_10)
    moreover have "- int k = e" using k by simp
    ultimately show ?thesis unfolding norm_exponent_def Let_def r using k(2) by (simp only: if_True)
  qed
qed

lemma half_up_error: "\<bar>of_int (half_up x) - x\<bar> \<le> 1 / 2"
proof (cases "0 \<le> x")
  case True
  then have "half_up x = \<lfloor>x + 1 / 2\<rfloor>" by (simp add: half_up_def)
  then show ?thesis unfolding abs_le_iff by linarith
next
  case False
  then have "half_up x = - \<lfloor>1 / 2 - x\<rfloor>" by (simp add: half_up_def)
  then show ?thesis unfolding abs_le_iff by linarith
qed

lemma abs_rounded_less: "\<bar>of_int c - y\<bar> \<le> 1 / 2 \<Longrightarrow> \<bar>y\<bar> < of_int n - 1 \<Longrightarrow> \<bar>c\<bar> < n"
  for y :: rat
  by linarith

text \<open>For a tick that is a power of ten, \<open>round_tick\<close> returns a multiple of the tick that is
  at most half a tick away from the value.\<close>

theorem round_tick_power_of_ten:
  assumes "\<bar>v\<bar> < (10 ^ 28 - 1) * 10 powi e"
  shows "\<exists>n r. round_tick v (10 powi e) half_up = ret r \<and> r = of_int n * 10 powi e
           \<and> \<bar>r - v\<bar> \<le> 10 powi e / 2"
proof -
  define u :: rat where "u = 10 powi e"
  have u: "0 < u" by (simp add: u_def)
  define c where "c = half_up (v / u)"
  have err: "\<bar>of_int c - v / u\<bar> \<le> 1 / 2" unfolding c_def by (rule half_up_error)
  have "\<bar>v / u\<bar> < of_int (10 ^ 28) - 1" using assms u by (simp add: u_def [symmetric] abs_divide pos_divide_less_eq)
  with err have "\<bar>c\<bar> < 10 ^ 28" by (rule abs_rounded_less)
  then have "\<not> 10 ^ 28 \<le> \<bar>c\<bar>" by linarith
  then have "round_tick v u half_up = ret (of_int c * u)"
    using u by (simp add: round_tick_def quantize_def u_def [symmetric] c_def norm_exponent_10 [of e, folded u_def])
  moreover have "\<bar>of_int c * u - v\<bar> = \<bar>of_int c - v / u\<bar> * u" using u by (simp add: abs_mult_pos left_diff_distrib)
  then have "\<bar>of_int c * u - v\<bar> \<le> u / 2" using mult_right_mono [OF err, of u] u by simp
  ultimately show ?thesis unfolding u_def by blast
qed

theorem round_tick_power_of_ten_witness:
  "\<exists>n r. round_tick (12345 / 1000) (10 powi (-2)) half_up = ret r \<and> r = of_int n * 10 powi (-2)
           \<and> \<bar>r - 12345 / 1000\<bar> \<le> 10 powi (-2) / 2"
  by (rule round_tick_power_of_ten) (simp add: power_int_minus)

text \<open>\<open>round_tick\<close> does not round to multiples of the tick otherwise: only the exponent of
  the tick counts, so with a tick of 0.05 the price 0.03 is accepted as it is.\<close>

theorem round_tick_not_multiple:
  "round_tick (3 / 100) (5 / 100) half_up = ret (3 / 100) \<and> (\<nexists>n. (3 / 100 :: dec) = of_int n * (5 / 100))"
proof
  show "round_tick (3 / 100) (5 / 100) half_up = ret (3 / 100)" by code_simp
  show "\<nexists>n. (3 / 100 :: dec) = of_int n * (5 / 100)"
  proof
    assume "\<exists>n. (3 / 100 :: dec) = of_int n * (5 / 100)"
    then obtain n where "(of_int 3 :: dec) = of_int (n * 5)" by (auto simp: field_simps)
    then have "3 = n * 5" by (simp only: of_int_eq_iff)
    then show False by presburger
  qed
qed

end
