(* ===== verification/Domain.thy ===== *)
theory Domain
  imports Money
begin

text \<open>
  \<open>domain/enums.py\<close>, \<open>domain/models.py\<close>, \<open>domain/clock.py\<close> and \<open>domain/identifiers.py\<close>: the
  enumerations, the value objects the components exchange, and the simulation clock. A row of
  the persistence layer holds the fields of the domain object it is converted to and from, so
  one record stands for both. Fields are prefixed by a letter for their record. Constructors
  that two enumerations of the source share carry a prefix here.
\<close>

subsection \<open>Enumerations\<close>

datatype market_type = SPOT | PERPETUAL

datatype position_side = LONG | SHORT | FLAT

datatype order_side = BUY | SELL

datatype order_type = MARKET | LIMIT

datatype time_in_force = GTC | IOC | FOK

datatype order_status =
    CREATED | VALIDATED | SUBMITTING | SUBMITTED | ACKNOWLEDGED | OPEN | PARTIALLY_FILLED
  | FILLED | CANCEL_PENDING | CANCELLED | REJECTED | EXPIRED | UNKNOWN

definition ACTIVE_ORDER_STATUSES :: "order_status list" where
  "ACTIVE_ORDER_STATUSES =
     [CREATED, VALIDATED, SUBMITTING, SUBMITTED, ACKNOWLEDGED, OPEN, PARTIALLY_FILLED, CANCEL_PENDING]"

definition TERMINAL_ORDER_STATUSES :: "order_status list" where
  "TERMINAL_ORDER_STATUSES = [FILLED, CANCELLED, REJECTED, EXPIRED]"

datatype order_event_type =
    ORDER_CREATED | ORDER_VALIDATED | ORDER_SUBMITTING | ORDER_SUBMITTED | ORDER_ACKNOWLEDGED
  | ORDER_OPENED | ORDER_PARTIALLY_FILLED | ORDER_FILLED | ORDER_CANCEL_PENDING | ORDER_CANCELLED
  | ORDER_REJECTED | ORDER_EXPIRED | ORDER_UNKNOWN | ORDER_RECOVERED

datatype ledger_entry_type =
    TRADE | FEE | DEPOSIT | WITHDRAWAL | TRANSFER | FUNDING | INTEREST | REALIZED_PNL
  | MARGIN_CHANGE | FUTURES_MARGIN_POST | FUTURES_MARGIN_RELEASE | FUNDING_PAYMENT
  | FUNDING_RECEIPT | FUTURES_REALIZED_PNL | FUTURES_TRADING_FEE | LIQUIDATION_FEE
  | MARGIN_ADJUSTMENT

datatype ledger_direction = DEBIT | CREDIT

datatype trading_mode = PAPER | LIVE | SHADOW

datatype runtime_state = STOPPED | STARTING | RUNNING | RECOVERING | STOPPING | HALTED

datatype market_data_status = HEALTHY | RESYNCING | UNHEALTHY

datatype exchange_event_type =
    EX_ORDER_ACK | EX_ORDER_OPENED | EX_ORDER_PARTIALLY_FILLED | EX_ORDER_FILLED
  | EX_ORDER_CANCELLED | EX_ORDER_REJECTED | EX_ORDER_UNKNOWN | EX_BALANCE_UPDATE
  | EX_POSITION_UPDATE | EX_MARKET_SNAPSHOT | EX_MARKET_DELTA

datatype execution_decision = APPROVE | HOLD | REJECT

datatype health_status = H_OK | H_DEGRADED | H_UNHEALTHY

instantiation order_status :: enum
begin

definition "enum_order_status =
  [CREATED, VALIDATED, SUBMITTING, SUBMITTED, ACKNOWLEDGED, OPEN, PARTIALLY_FILLED,
   FILLED, CANCEL_PENDING, CANCELLED, REJECTED, EXPIRED, UNKNOWN]"

definition "enum_all_order_status P \<longleftrightarrow> list_all P (enum_class.enum :: order_status list)"

definition "enum_ex_order_status P \<longleftrightarrow> list_ex P (enum_class.enum :: order_status list)"

instance
proof
  show u: "(UNIV :: order_status set) = set enum_class.enum"
    by (auto simp: enum_order_status_def intro: order_status.exhaust)
  show "distinct (enum_class.enum :: order_status list)" by (simp add: enum_order_status_def)
  show "enum_class.enum_all P \<longleftrightarrow> Ball UNIV P" for P :: "order_status \<Rightarrow> bool"
    by (simp add: enum_all_order_status_def u list_all_iff)
  show "enum_class.enum_ex P \<longleftrightarrow> Bex UNIV P" for P :: "order_status \<Rightarrow> bool"
    by (simp add: enum_ex_order_status_def u list_ex_iff)
qed

end

lemma order_status_cases [case_names CREATED VALIDATED SUBMITTING SUBMITTED ACKNOWLEDGED OPEN
    PARTIALLY_FILLED FILLED CANCEL_PENDING CANCELLED REJECTED EXPIRED UNKNOWN]:
  "P CREATED \<Longrightarrow> P VALIDATED \<Longrightarrow> P SUBMITTING \<Longrightarrow> P SUBMITTED \<Longrightarrow> P ACKNOWLEDGED \<Longrightarrow> P OPEN \<Longrightarrow>
   P PARTIALLY_FILLED \<Longrightarrow> P FILLED \<Longrightarrow> P CANCEL_PENDING \<Longrightarrow> P CANCELLED \<Longrightarrow> P REJECTED \<Longrightarrow> P EXPIRED \<Longrightarrow>
   P UNKNOWN \<Longrightarrow> P s"
  by (cases s) simp_all

lemma statuses_partition:
  "s \<in> set ACTIVE_ORDER_STATUSES \<or> s \<in> set TERMINAL_ORDER_STATUSES \<or> s = UNKNOWN"
  "set ACTIVE_ORDER_STATUSES \<inter> set TERMINAL_ORDER_STATUSES = {}"
  by (cases s) (simp_all add: ACTIVE_ORDER_STATUSES_def TERMINAL_ORDER_STATUSES_def)

subsection \<open>Metadata\<close>

text \<open>
  The \<open>dict[str, Any]\<close> payloads. \<open>JDec d\<close> is the text of a decimal, which the readers pass
  to \<open>D\<close> again; \<open>JRaw\<close> is a \<open>Decimal\<close> stored as such.
\<close>

datatype json = JNull | JBool bool | JInt int | JStr string | JDec dec | JRaw dec
  | JList "json list" | JObj "(string \<times> json) list"

type_synonym meta = "(string, json) dict"

definition meta_dec :: "meta \<Rightarrow> string \<Rightarrow> dec option" where
  "meta_dec m k = (case map_of m k of Some (JDec d) \<Rightarrow> Some d | Some (JRaw d) \<Rightarrow> Some d
     | Some (JInt n) \<Rightarrow> Some (of_int n) | _ \<Rightarrow> None)"

definition meta_str :: "meta \<Rightarrow> string \<Rightarrow> string option" where
  "meta_str m k = (case map_of m k of Some (JStr s) \<Rightarrow> Some s | _ \<Rightarrow> None)"

text \<open>What the code writes into them: an optional text, a formatted amount, and \<open>{**m, **u}\<close>.\<close>

definition opt_json :: "string option \<Rightarrow> json" where
  "opt_json t = (case t of Some s \<Rightarrow> JStr s | None \<Rightarrow> JNull)"

definition dec_json :: "dec \<Rightarrow> json res" where
  "dec_json d = rbind (format_decimal d) (\<lambda>_. ret (JDec d))"

fun merge_meta :: "meta \<Rightarrow> meta \<Rightarrow> meta" where
  "merge_meta m [] = m"
| "merge_meta m ((k, v) # u) = merge_meta (AList.update k v m) u"

subsection \<open>Value objects\<close>

record instrument =
  i_symbol :: string
  i_base :: string
  i_quote :: string
  i_status :: string
  i_tick :: dec
  i_step :: dec
  i_min_qty :: dec
  i_min_notional :: dec
  i_price_precision :: int
  i_qty_precision :: int
  i_exchange :: string

record order_intent =
  oi_client :: string
  oi_symbol :: string
  oi_side :: order_side
  oi_type :: order_type
  oi_tif :: time_in_force
  oi_price :: "dec option"
  oi_qty :: dec
  oi_quote_qty :: "dec option"
  oi_strategy :: string
  oi_run :: "string option"
  oi_expires :: "usec option"
  oi_market :: market_type
  oi_pside :: position_side
  oi_reduce_only :: bool
  oi_meta :: meta

record order_event =
  oe_id :: string
  oe_order :: string
  oe_client :: "string option"
  oe_exchange :: "string option"
  oe_type :: order_event_type
  oe_status :: order_status
  oe_time :: usec
  oe_payload :: meta

record order =
  o_id :: string
  o_client :: string
  o_exchange :: "string option"
  o_symbol :: string
  o_side :: order_side
  o_type :: order_type
  o_tif :: time_in_force
  o_price :: "dec option"
  o_qty :: dec
  o_filled :: dec
  o_avg :: "dec option"
  o_status :: order_status
  o_mode :: trading_mode
  o_strategy :: string
  o_run :: "string option"
  o_created :: usec
  o_updated :: usec
  o_expires :: "usec option"
  o_reason :: "string option"
  o_last_event :: "string option"
  o_market :: market_type
  o_pside :: position_side
  o_reduce_only :: bool

definition remaining_quantity :: "order \<Rightarrow> dec" where
  "remaining_quantity r = dsub (o_qty r) (o_filled r)"

record fill =
  f_id :: string
  f_trade :: "string option"
  f_order :: string
  f_client :: "string option"
  f_exchange :: "string option"
  f_symbol :: string
  f_side :: order_side
  f_price :: dec
  f_qty :: dec
  f_fee :: dec
  f_fee_ccy :: "string option"
  f_time :: usec
  f_payload :: meta

record trade =
  t_id :: string
  t_order :: string
  t_fill :: string
  t_symbol :: string
  t_side :: order_side
  t_price :: dec
  t_qty :: dec
  t_fee :: dec
  t_fee_ccy :: "string option"
  t_time :: usec

record position =
  p_symbol :: string
  p_base :: string
  p_quote :: string
  p_qty :: dec
  p_avg :: "dec option"
  p_cost :: dec
  p_realized :: dec
  p_updated :: "usec option"

record balance =
  b_ccy :: string
  b_total :: dec
  b_available :: dec
  b_frozen :: dec

record account =
  a_id :: string
  a_mode :: trading_mode
  a_balances :: "(string, balance) dict"
  a_equity :: dec
  a_margin_used :: dec
  a_updated :: "usec option"

record ledger_entry =
  le_id :: string
  le_tx :: string
  le_seq :: int
  le_type :: ledger_entry_type
  le_account :: string
  le_dir :: ledger_direction
  le_amount :: dec
  le_ccy :: string
  le_created :: usec
  le_order :: "string option"
  le_fill :: "string option"
  le_event :: "string option"
  le_meta :: meta

record ledger_transaction =
  lt_id :: string
  lt_type :: ledger_entry_type
  lt_created :: usec
  lt_meta :: meta
  lt_entries :: "ledger_entry list"

record risk_decision =
  rd_id :: string
  rd_order :: "string option"
  rd_client :: string
  rd_symbol :: string
  rd_side :: order_side
  rd_decision :: execution_decision
  rd_reason :: "string option"
  rd_checks :: meta
  rd_time :: usec
  rd_run :: "string option"

record exchange_event =
  ee_id :: string
  ee_type :: exchange_event_type
  ee_symbol :: "string option"
  ee_time :: usec
  ee_payload :: meta

record signal_intent =
  s_id :: string
  s_strategy :: string
  s_symbol :: string
  s_side :: order_side
  s_qty :: dec
  s_limit :: "dec option"
  s_type :: order_type
  s_tif :: time_in_force
  s_expires :: "usec option"
  s_reason :: string
  s_run :: "string option"
  s_market :: market_type
  s_pside :: position_side
  s_reduce_only :: bool
  s_meta :: meta

record market_snapshot =
  ms_symbol :: string
  ms_seq :: int
  ms_bids :: "(dec \<times> dec) list"
  ms_asks :: "(dec \<times> dec) list"
  ms_time :: usec
  ms_status :: market_data_status

subsection \<open>Identifiers\<close>

definition is_valid_id :: "string \<Rightarrow> string option \<Rightarrow> bool" where
  "is_valid_id v p =
     (if v = [] then False
      else case p of None \<Rightarrow> True | Some q \<Rightarrow> take (length q + 1) v = q @ ''_'')"

subsection \<open>The simulation clock\<close>

record sim_clock =
  ck_ticks :: "usec list"
  ck_idx :: int
  ck_cur :: "usec option"
  ck_prev :: "usec option"

definition clock_init :: "usec list \<Rightarrow> sim_clock" where
  "clock_init ts = \<lparr> ck_ticks = sort ts, ck_idx = -1, ck_cur = None, ck_prev = None \<rparr>"

definition clock_now :: "sim_clock \<Rightarrow> usec res" where
  "clock_now c = (case ck_cur c of None \<Rightarrow> raise RuntimeErrorC | Some t \<Rightarrow> ret t)"

definition clock_step :: "sim_clock \<Rightarrow> sim_clock \<times> usec option" where
  "clock_step c =
     (let c1 = c \<lparr> ck_prev := ck_cur c, ck_idx := ck_idx c + 1 \<rparr>
      in if int (length (ck_ticks c1)) \<le> ck_idx c1 then (c1 \<lparr> ck_cur := None \<rparr>, None)
         else (let t = ck_ticks c1 ! nat (ck_idx c1) in (c1 \<lparr> ck_cur := Some t \<rparr>, Some t)))"

definition clock_reset :: "sim_clock \<Rightarrow> sim_clock" where
  "clock_reset c = c \<lparr> ck_idx := -1, ck_cur := None, ck_prev := None \<rparr>"

definition clock_ok :: "sim_clock \<Rightarrow> bool" where
  "clock_ok c \<longleftrightarrow> sorted (ck_ticks c) \<and> -1 \<le> ck_idx c \<and>
     ck_cur c = (if 0 \<le> ck_idx c \<and> ck_idx c < int (length (ck_ticks c))
                 then Some (ck_ticks c ! nat (ck_idx c)) else None)"

lemma clock_ok_init: "clock_ok (clock_init ts)"
  by (simp add: clock_ok_def clock_init_def)

lemma clock_ok_step: "clock_ok c \<Longrightarrow> clock_ok (fst (clock_step c))"
  by (auto simp: clock_ok_def clock_step_def Let_def)

text \<open>Time never runs backwards while the clock has ticks left.\<close>

lemma clock_step_mono:
  assumes "clock_ok c" "ck_cur c = Some t" "snd (clock_step c) = Some t'"
  shows "t \<le> t'"
proof -
  have i: "0 \<le> ck_idx c" "ck_idx c + 1 < int (length (ck_ticks c))"
    using assms by (auto simp: clock_ok_def clock_step_def Let_def split: if_splits)
  then have "t = ck_ticks c ! nat (ck_idx c)" "t' = ck_ticks c ! nat (ck_idx c + 1)"
    using assms by (auto simp: clock_ok_def clock_step_def Let_def split: if_splits)
  moreover have "nat (ck_idx c) \<le> nat (ck_idx c + 1)" "nat (ck_idx c + 1) < length (ck_ticks c)"
    using i by linarith+
  ultimately show ?thesis
    using assms(1) by (auto simp: clock_ok_def intro: sorted_nth_mono)
qed

end
