(* ===== verification/Event_Machine.thy ===== *)
theory Event_Machine
  imports Prelude
begin

text \<open>
  The contract shared by the state machines of the program: a partial transition function on
  states and events, and a set of final states that no event leaves. The locale derives that a
  whole run stays in a final state once it has reached one, that a run never enters a state
  without an incoming transition, and that an event that is idempotent may be delivered again.
\<close>

locale event_machine =
  fixes tr :: "'s \<Rightarrow> 'e \<Rightarrow> 's res"
    and final :: "'s \<Rightarrow> bool"
    and initial_only :: "'s \<Rightarrow> bool"
    and redeliverable :: "'e \<Rightarrow> bool"
  assumes final_stays: "final s \<Longrightarrow> tr s e = ret s' \<Longrightarrow> s' = s"
    and not_entered: "tr s e = ret s' \<Longrightarrow> initial_only s' \<Longrightarrow> s' = s"
    and redelivery: "redeliverable e \<Longrightarrow> tr s e = ret s' \<Longrightarrow> tr s' e = ret s'"
begin

definition run :: "'e list \<Rightarrow> 's \<Rightarrow> 's res" where
  "run = rfold (\<lambda>e s. tr s e)"

lemma run_simps [simp]: "run [] s = ret s" "run (e # es) s = rbind (tr s e) (run es)"
  by (simp_all add: run_def)

lemma run_append: "run (es @ fs) s = rbind (run es s) (run fs)"
  by (simp add: run_def rfold_append)

lemma run_final: "run es s = ret s' \<Longrightarrow> final s \<Longrightarrow> s' = s"
proof (induction es arbitrary: s)
  case (Cons e es)
  then show ?case using final_stays by (fastforce simp: rbind_eq_Inr)
qed simp

lemma run_not_entered: "run es s = ret s' \<Longrightarrow> initial_only s' \<Longrightarrow> s' = s"
proof (induction es arbitrary: s)
  case (Cons e es)
  then show ?case using not_entered by (fastforce simp: rbind_eq_Inr)
qed simp

lemma run_redelivery:
  assumes "redeliverable e" "run (es @ [e]) s = ret s'"
  shows "run (es @ [e, e]) s = ret s'"
  using assms redelivery by (auto simp: run_append rbind_eq_Inr)

lemma run_stationary: "tr s e = ret s \<Longrightarrow> run (replicate n e) s = ret s"
  by (induction n) simp_all

lemma run_repeated:
  assumes "redeliverable e" "run (es @ [e]) s = ret s'"
  shows "run (es @ replicate (Suc n) e) s = ret s'"
proof -
  obtain t where t: "run es s = ret t" "tr t e = ret s'"
    using assms(2) by (auto simp: run_append rbind_eq_Inr)
  then have "tr s' e = ret s'" using assms(1) redelivery by blast
  with t show ?thesis by (simp add: run_append run_stationary)
qed

end

end
