(* ===== verification/Order_State_Machine.thy ===== *)
theory Order_State_Machine
  imports Domain Event_Machine
begin

text \<open>
  \<open>order/state_machine.py\<close>: the transition table, the table of events that are recorded but
  do not move the order, and \<open>OrderStateMachine.transition\<close>. The step relation \<open>ostep\<close> says
  which moves a run of events can make; the lemmas cover final states, duplicate and
  reordered deliveries, and which events the table refuses.
\<close>

definition TRANSITIONS :: "((order_status \<times> order_event_type) \<times> order_status) list" where
  "TRANSITIONS = [
    ((CREATED, ORDER_VALIDATED), VALIDATED),
    ((CREATED, ORDER_REJECTED), REJECTED),
    ((VALIDATED, ORDER_SUBMITTING), SUBMITTING),
    ((VALIDATED, ORDER_REJECTED), REJECTED),
    ((SUBMITTING, ORDER_SUBMITTED), SUBMITTED),
    ((SUBMITTING, ORDER_ACKNOWLEDGED), ACKNOWLEDGED),
    ((SUBMITTING, ORDER_OPENED), OPEN),
    ((SUBMITTING, ORDER_PARTIALLY_FILLED), PARTIALLY_FILLED),
    ((SUBMITTING, ORDER_FILLED), FILLED),
    ((SUBMITTING, ORDER_REJECTED), REJECTED),
    ((SUBMITTING, ORDER_UNKNOWN), UNKNOWN),
    ((SUBMITTED, ORDER_ACKNOWLEDGED), ACKNOWLEDGED),
    ((SUBMITTED, ORDER_OPENED), OPEN),
    ((SUBMITTED, ORDER_PARTIALLY_FILLED), PARTIALLY_FILLED),
    ((SUBMITTED, ORDER_FILLED), FILLED),
    ((SUBMITTED, ORDER_REJECTED), REJECTED),
    ((SUBMITTED, ORDER_UNKNOWN), UNKNOWN),
    ((ACKNOWLEDGED, ORDER_OPENED), OPEN),
    ((ACKNOWLEDGED, ORDER_PARTIALLY_FILLED), PARTIALLY_FILLED),
    ((ACKNOWLEDGED, ORDER_FILLED), FILLED),
    ((ACKNOWLEDGED, ORDER_CANCEL_PENDING), CANCEL_PENDING),
    ((ACKNOWLEDGED, ORDER_REJECTED), REJECTED),
    ((ACKNOWLEDGED, ORDER_UNKNOWN), UNKNOWN),
    ((OPEN, ORDER_PARTIALLY_FILLED), PARTIALLY_FILLED),
    ((OPEN, ORDER_FILLED), FILLED),
    ((OPEN, ORDER_CANCEL_PENDING), CANCEL_PENDING),
    ((OPEN, ORDER_REJECTED), REJECTED),
    ((OPEN, ORDER_EXPIRED), EXPIRED),
    ((OPEN, ORDER_UNKNOWN), UNKNOWN),
    ((PARTIALLY_FILLED, ORDER_PARTIALLY_FILLED), PARTIALLY_FILLED),
    ((PARTIALLY_FILLED, ORDER_FILLED), FILLED),
    ((PARTIALLY_FILLED, ORDER_CANCEL_PENDING), CANCEL_PENDING),
    ((PARTIALLY_FILLED, ORDER_REJECTED), REJECTED),
    ((PARTIALLY_FILLED, ORDER_EXPIRED), EXPIRED),
    ((PARTIALLY_FILLED, ORDER_UNKNOWN), UNKNOWN),
    ((CANCEL_PENDING, ORDER_CANCELLED), CANCELLED),
    ((CANCEL_PENDING, ORDER_PARTIALLY_FILLED), PARTIALLY_FILLED),
    ((CANCEL_PENDING, ORDER_FILLED), FILLED),
    ((CANCELLED, ORDER_PARTIALLY_FILLED), PARTIALLY_FILLED),
    ((CANCELLED, ORDER_FILLED), FILLED),
    ((UNKNOWN, ORDER_ACKNOWLEDGED), ACKNOWLEDGED),
    ((UNKNOWN, ORDER_OPENED), OPEN),
    ((UNKNOWN, ORDER_PARTIALLY_FILLED), PARTIALLY_FILLED),
    ((UNKNOWN, ORDER_FILLED), FILLED),
    ((UNKNOWN, ORDER_CANCELLED), CANCELLED),
    ((UNKNOWN, ORDER_REJECTED), REJECTED),
    ((UNKNOWN, ORDER_EXPIRED), EXPIRED)]"

definition NOOP_EVENTS :: "(order_status \<times> order_event_type) list" where
  "NOOP_EVENTS = [
    (ACKNOWLEDGED, ORDER_ACKNOWLEDGED),
    (OPEN, ORDER_ACKNOWLEDGED),
    (OPEN, ORDER_OPENED),
    (PARTIALLY_FILLED, ORDER_ACKNOWLEDGED),
    (PARTIALLY_FILLED, ORDER_OPENED),
    (FILLED, ORDER_ACKNOWLEDGED),
    (FILLED, ORDER_OPENED),
    (CANCELLED, ORDER_CANCELLED),
    (FILLED, ORDER_FILLED),
    (REJECTED, ORDER_REJECTED),
    (EXPIRED, ORDER_EXPIRED)]"

record transition_result =
  tr_new_status :: order_status
  tr_changed :: bool
  tr_noop :: bool

definition osm_transition :: "order_status \<Rightarrow> order_event_type \<Rightarrow> transition_result res" where
  "osm_transition current ev =
     (case map_of TRANSITIONS (current, ev) of
        Some s \<Rightarrow> ret \<lparr> tr_new_status = s, tr_changed = (s \<noteq> current), tr_noop = False \<rparr>
      | None \<Rightarrow>
          if (current, ev) \<in> set NOOP_EVENTS
          then ret \<lparr> tr_new_status = current, tr_changed = False, tr_noop = True \<rparr>
          else raise InvalidStateTransition)"

definition next_status :: "order_status \<Rightarrow> order_event_type \<Rightarrow> order_status res" where
  "next_status s e = rbind (osm_transition s e) (\<lambda>r. ret (tr_new_status r))"

text \<open>The events that report what happened at the exchange.\<close>

definition exchange_report :: "order_event_type \<Rightarrow> bool" where
  "exchange_report e \<longleftrightarrow> e \<in> {ORDER_ACKNOWLEDGED, ORDER_OPENED, ORDER_PARTIALLY_FILLED, ORDER_FILLED,
     ORDER_CANCELLED, ORDER_REJECTED, ORDER_EXPIRED}"

text \<open>The step relation: one accepted event.\<close>

inductive ostep :: "order_status \<Rightarrow> order_status \<Rightarrow> bool" where
  step: "next_status s e = ret s' \<Longrightarrow> ostep s s'"

inductive_cases ostepE: "ostep s s'"

lemmas table_defs = next_status_def osm_transition_def TRANSITIONS_def NOOP_EVENTS_def

definition osm_final :: "order_status \<Rightarrow> bool" where
  "osm_final s \<longleftrightarrow> s \<in> {FILLED, REJECTED, EXPIRED}"

lemma next_status_final: "osm_final s \<Longrightarrow> next_status s e = ret s' \<Longrightarrow> s' = s"
  by (cases e) (auto simp: osm_final_def table_defs)

lemma next_status_not_created:
  "next_status s e = ret s' \<Longrightarrow> s' = CREATED \<Longrightarrow> s' = s"
  by (cases s; cases e; simp add: table_defs)

lemma next_status_redelivery:
  "exchange_report e \<Longrightarrow> next_status s e = ret s' \<Longrightarrow> next_status s' e = ret s'"
  by (cases s; cases e; simp add: table_defs exchange_report_def; blast?)

interpretation osm: event_machine next_status osm_final "\<lambda>s. s = CREATED" exchange_report
  by unfold_locales (rule next_status_final next_status_not_created next_status_redelivery; assumption)+

subsection \<open>Deliveries out of order, twice, late\<close>

definition run_events :: "order_event_type list \<Rightarrow> order_status \<Rightarrow> order_status res" where
  "run_events es s = rfold (\<lambda>e s. next_status s e) es s"

lemma run_events_osm: "run_events es s = osm.run es s"
  by (simp add: run_events_def osm.run_def)

definition working :: "order_status \<Rightarrow> bool" where
  "working s \<longleftrightarrow> s \<in> {SUBMITTING, SUBMITTED, ACKNOWLEDGED, OPEN, PARTIALLY_FILLED, UNKNOWN}"

lemma working_step:
  "working s \<Longrightarrow> e \<in> {ORDER_ACKNOWLEDGED, ORDER_OPENED, ORDER_PARTIALLY_FILLED} \<Longrightarrow>
     \<exists>s'. next_status s e = ret s' \<and> working s'"
  by (cases s) (auto simp: table_defs working_def)

lemma working_run:
  "working s \<Longrightarrow> set es \<subseteq> {ORDER_ACKNOWLEDGED, ORDER_OPENED, ORDER_PARTIALLY_FILLED} \<Longrightarrow>
     \<exists>s'. osm.run es s = ret s' \<and> working s'"
proof (induction es arbitrary: s)
  case (Cons e es)
  then obtain t where "next_status s e = ret t" "working t" using working_step [of s e] by auto
  with Cons show ?case by auto
qed simp

lemma working_filled: "working s \<Longrightarrow> next_status s ORDER_FILLED = ret FILLED"
  by (cases s) (auto simp: table_defs working_def)

lemma filled_step:
  "next_status FILLED e = (if e \<in> {ORDER_ACKNOWLEDGED, ORDER_OPENED, ORDER_FILLED} then ret FILLED else raise InvalidStateTransition)"
  by (cases e) (simp_all add: table_defs)

lemma filled_run:
  "osm.run es FILLED =
     (if set es \<subseteq> {ORDER_ACKNOWLEDGED, ORDER_OPENED, ORDER_FILLED} then ret FILLED else raise InvalidStateTransition)"
  by (induction es) (auto simp: filled_step)

text \<open>C38: acknowledgements, openings and partial fills may reach a submitted order before the final fill in any
  order and number, and the fill itself is accepted and makes it \<open>FILLED\<close>. After the fill it stays so under any
  order and number of acknowledgements, openings and copies of the fill, and only under these: a delivery with a
  partial fill, a cancellation, a rejection, an expiry or any other event after the fill is refused with
  \<open>InvalidStateTransition\<close>.\<close>

theorem report_order_irrelevant:
  assumes "s \<in> {SUBMITTING, SUBMITTED, ACKNOWLEDGED, OPEN, PARTIALLY_FILLED, UNKNOWN}"
    and "set es \<subseteq> {ORDER_ACKNOWLEDGED, ORDER_OPENED, ORDER_PARTIALLY_FILLED}"
  shows "run_events (es @ ORDER_FILLED # fs) s =
    (if set fs \<subseteq> {ORDER_ACKNOWLEDGED, ORDER_OPENED, ORDER_FILLED} then ret FILLED else raise InvalidStateTransition)"
proof -
  obtain t where "osm.run es s = ret t" "working t"
    using working_run [of s es] assms by (auto simp: working_def)
  then show ?thesis
    using filled_run [of fs] by (simp add: run_events_osm osm.run_append working_filled)
qed

theorem report_order_irrelevant_witness:
  "run_events [ORDER_PARTIALLY_FILLED, ORDER_ACKNOWLEDGED, ORDER_FILLED, ORDER_OPENED, ORDER_FILLED] SUBMITTED = ret FILLED \<and>
   run_events [ORDER_FILLED, ORDER_PARTIALLY_FILLED] OPEN = raise InvalidStateTransition"
  using report_order_irrelevant [of SUBMITTED "[ORDER_PARTIALLY_FILLED, ORDER_ACKNOWLEDGED]" "[ORDER_OPENED, ORDER_FILLED]"]
    report_order_irrelevant [of OPEN "[]" "[ORDER_PARTIALLY_FILLED]"] by simp

text \<open>A report of the exchange that was accepted once can be delivered any number of times
  more; the order keeps the status it had after the first delivery.\<close>

theorem report_redelivery:
  assumes "e \<in> {ORDER_ACKNOWLEDGED, ORDER_OPENED, ORDER_PARTIALLY_FILLED, ORDER_FILLED,
     ORDER_CANCELLED, ORDER_REJECTED, ORDER_EXPIRED}"
    and "run_events (es @ [e]) s = ret s'"
  shows "run_events (es @ replicate (Suc n) e) s = ret s'"
  unfolding run_events_osm
  by (rule osm.run_repeated) (use assms in \<open>simp_all add: exchange_report_def run_events_osm\<close>)

theorem report_redelivery_witness:
  "run_events ([ORDER_OPENED, ORDER_CANCEL_PENDING] @ replicate 3 ORDER_CANCELLED) SUBMITTED = ret CANCELLED"
  using report_redelivery [of ORDER_CANCELLED "[ORDER_OPENED, ORDER_CANCEL_PENDING]" SUBMITTED CANCELLED 2]
  by (simp add: run_events_def table_defs numeral_3_eq_3)

lemma cancelled_step:
  "next_status CANCELLED e = ret t \<Longrightarrow> e \<notin> {ORDER_PARTIALLY_FILLED, ORDER_FILLED} \<Longrightarrow> t = CANCELLED"
  by (cases e) (simp_all add: table_defs)

lemma cancelled_run:
  "osm.run es CANCELLED = ret t \<Longrightarrow> set es \<inter> {ORDER_PARTIALLY_FILLED, ORDER_FILLED} = {} \<Longrightarrow> t = CANCELLED"
proof (induction es)
  case (Cons e es)
  then obtain u where "next_status CANCELLED e = ret u" "osm.run es u = ret t"
    by (auto simp: rbind_eq_Inr)
  moreover have "u = CANCELLED" using cancelled_step [of e u] calculation(1) Cons.prems(2) by auto
  ultimately show ?case using Cons by simp
qed simp

text \<open>No run of events leaves \<open>FILLED\<close>, \<open>REJECTED\<close> or \<open>EXPIRED\<close>, and only a fill
  moves a cancelled order.\<close>

theorem terminal_statuses_kept:
  assumes "s \<in> {FILLED, REJECTED, EXPIRED, CANCELLED}" and "run_events es s = ret s'"
    and "s = CANCELLED \<Longrightarrow> set es \<inter> {ORDER_PARTIALLY_FILLED, ORDER_FILLED} = {}"
  shows "s' = s"
proof (cases "s = CANCELLED")
  case True
  with assms show ?thesis using cancelled_run by (simp add: run_events_osm)
next
  case False
  with assms show ?thesis using osm.run_final [of es s s'] by (simp add: run_events_osm osm_final_def)
qed

theorem terminal_statuses_kept_witness:
  "run_events [ORDER_ACKNOWLEDGED, ORDER_FILLED] FILLED = ret FILLED \<and> FILLED = FILLED"
proof
  show *: "run_events [ORDER_ACKNOWLEDGED, ORDER_FILLED] FILLED = ret FILLED"
    by (simp add: run_events_def table_defs)
  show "FILLED = FILLED" by (rule terminal_statuses_kept [OF _ *]) simp_all
qed

text \<open>Once a cancellation has been requested or confirmed, a late acknowledgement or opening
  is refused with \<open>InvalidStateTransition\<close>, although the module promises out-of-order delivery.\<close>

theorem late_ack_refused:
  "run_events [ORDER_ACKNOWLEDGED] CANCEL_PENDING = raise InvalidStateTransition
   \<and> run_events [ORDER_OPENED] CANCEL_PENDING = raise InvalidStateTransition
   \<and> run_events [ORDER_ACKNOWLEDGED] CANCELLED = raise InvalidStateTransition
   \<and> run_events [ORDER_OPENED] CANCELLED = raise InvalidStateTransition"
  by (simp add: run_events_def table_defs)

text \<open>Every order can still finish: from each status some run ends in a terminal one.\<close>

lemma terminal_reachable:
  "\<exists>es t. run_events es s = ret t \<and> t \<in> set TERMINAL_ORDER_STATUSES"
proof -
  let ?es = "case s of CANCEL_PENDING \<Rightarrow> [ORDER_CANCELLED] | FILLED \<Rightarrow> [] | CANCELLED \<Rightarrow> []
    | EXPIRED \<Rightarrow> [] | _ \<Rightarrow> [ORDER_REJECTED]"
  have "\<exists>t. run_events ?es s = ret t \<and> t \<in> set TERMINAL_ORDER_STATUSES"
    by (cases s) (simp_all add: run_events_def table_defs TERMINAL_ORDER_STATUSES_def)
  then show ?thesis by blast
qed

lemma ostep_final: "ostep s s' \<Longrightarrow> osm_final s \<Longrightarrow> s' = s"
  by (auto elim!: ostepE dest: next_status_final)

lemma ostep_reaches_final: "ostep\<^sup>*\<^sup>* s s' \<Longrightarrow> osm_final s \<Longrightarrow> s' = s"
  by (induction rule: rtranclp_induct) (auto dest: ostep_final)

end
