(* ===== verification/Exactly_Once.thy ===== *)
theory Exactly_Once
  imports Prelude
begin

text \<open>
  The contract of an operation that applies each input at most once, keyed by an identifier
  that it stores: a repeated key changes nothing and is reported as not new, a failure changes
  nothing, and a new key is stored. The locale derives what a consumer can rely on when it
  acts only on the inputs reported as new: every key is acted on once.
\<close>

locale exactly_once =
  fixes apply_one :: "'db \<Rightarrow> 'i \<Rightarrow> 'x \<Rightarrow> 'db \<times> ('r \<times> bool) res"
    and seen :: "'db \<Rightarrow> 'k set"
    and key :: "'x \<Rightarrow> 'k"
  assumes failed: "apply_one db i x = (db', Inl e) \<Longrightarrow> db' = db"
    and not_new: "apply_one db i x = (db', Inr (r, False)) \<Longrightarrow> db' = db"
    and new: "apply_one db i x = (db', Inr (r, True)) \<Longrightarrow> key x \<notin> seen db \<and> seen db' = insert (key x) (seen db)"
begin

text \<open>A sequence of deliveries; the log holds the keys that were reported as new.\<close>

fun consume :: "('i \<times> 'x) list \<Rightarrow> 'db \<Rightarrow> 'k list \<Rightarrow> 'db \<times> 'k list" where
  "consume [] db lg = (db, lg)"
| "consume ((i, x) # xs) db lg =
     (case apply_one db i x of
        (db', Inl e) \<Rightarrow> consume xs db' lg
      | (db', Inr (r, n)) \<Rightarrow> consume xs db' (if n then lg @ [key x] else lg))"

lemma repeated_not_new:
  "apply_one db i x = (db', Inr (r, n)) \<Longrightarrow> key x \<in> seen db \<Longrightarrow> n = False \<and> db' = db"
  using not_new new by (metis (full_types))

lemma apply_one_cases:
  assumes "apply_one db i x = (db', r)"
  obtains "db' = db" "\<And>y. r \<noteq> Inr (y, True)"
  | y where "r = Inr (y, True)" "key x \<notin> seen db" "seen db' = insert (key x) (seen db)"
proof (cases r)
  case (Inl e)
  then show ?thesis using that(1) failed assms by auto
next
  case (Inr yn)
  then obtain y n where r: "r = Inr (y, n)" by (cases yn) auto
  show ?thesis
  proof (cases n)
    case True
    then show ?thesis using that(2) new assms r by auto
  next
    case False
    then show ?thesis using that(1) not_new assms r by auto
  qed
qed

lemma seen_mono: "apply_one db i x = (db', r) \<Longrightarrow> seen db \<subseteq> seen db'"
  by (erule apply_one_cases) auto

lemma consume_mono: "consume xs db lg = (db', lg') \<Longrightarrow> seen db \<subseteq> seen db'"
proof (induction xs arbitrary: db lg)
  case (Cons ix xs)
  obtain i x where ix: "ix = (i, x)" by force
  obtain d r where a: "apply_one db i x = (d, r)" by force
  then obtain l where "consume xs d l = (db', lg')"
    using Cons.prems by (auto simp: ix split: sum.splits prod.splits)
  then show ?case using Cons.IH seen_mono [OF a] by blast
qed simp

lemma consume_log:
  assumes "distinct lg" "set lg \<subseteq> seen db" "consume xs db lg = (db', lg')"
  shows "distinct lg' \<and> set lg' = set lg \<union> (seen db' - seen db)"
  using assms
proof (induction xs arbitrary: db lg)
  case (Cons ix xs)
  obtain i x where ix: "ix = (i, x)" by force
  obtain d r where a: "apply_one db i x = (d, r)" by force
  from a show ?case
  proof (cases rule: apply_one_cases)
    case 1
    then have "consume xs db lg = (db', lg')"
      using Cons.prems(3) a by (auto simp: ix split: sum.splits prod.splits if_splits)
    then show ?thesis by (rule Cons.IH [OF Cons.prems(1,2)])
  next
    case (2 y)
    then have c: "consume xs d (lg @ [key x]) = (db', lg')" using Cons.prems(3) a by (simp add: ix)
    have "distinct (lg @ [key x])" "set (lg @ [key x]) \<subseteq> seen d" using Cons.prems(1,2) 2 by auto
    from Cons.IH [OF this c] have ih: "distinct lg' \<and> set lg' = insert (key x) (set lg) \<union> (seen db' - seen d)"
      by simp
    have "seen d \<subseteq> seen db'" by (rule consume_mono [OF c])
    with ih 2 show ?thesis by auto
  qed
qed simp

end

end
