(* ===== verification/Order_Manager.thy ===== *)
theory Order_Manager
  imports Order_State_Machine Exactly_Once
begin

text \<open>
  \<open>order/manager.py\<close>: the persisted order manager. The three tables it writes are lists in
  insertion order. A commit checks the unique constraints of \<open>persistence/models.py\<close> and raises
  \<open>IntegrityError\<close> when one fails. An operation that reads in one transaction state and commits in
  a later one takes both: \<open>r\<close> is what it read, \<open>w\<close> what the tables hold at its commit; the
  sequential operation is the case where they are equal. Fresh identifiers and the current time
  are arguments. An operation returns the tables together with its result, because what was
  committed survives an exception.
\<close>

subsection \<open>Tables\<close>

record om_db =
  db_orders :: "order list"
  db_events :: "order_event list"
  db_fills :: "fill list"

definition get_order :: "om_db \<Rightarrow> string \<Rightarrow> order option" where
  "get_order db oid = List.find (\<lambda>r. o_id r = oid) (db_orders db)"

definition get_by_client :: "om_db \<Rightarrow> string \<Rightarrow> order option" where
  "get_by_client db cid = List.find (\<lambda>r. o_client r = cid) (db_orders db)"

definition get_by_exchange :: "om_db \<Rightarrow> string \<Rightarrow> order option" where
  "get_by_exchange db xid = List.find (\<lambda>r. o_exchange r = Some xid) (db_orders db)"

definition get_fill :: "om_db \<Rightarrow> string \<Rightarrow> fill option" where
  "get_fill db fid = List.find (\<lambda>f. f_id f = fid) (db_fills db)"

definition list_events :: "om_db \<Rightarrow> string \<Rightarrow> order_event list" where
  "list_events db oid = filter (\<lambda>e. oe_order e = oid) (db_events db)"

definition list_fills_for_orders :: "om_db \<Rightarrow> string list \<Rightarrow> fill list" where
  "list_fills_for_orders db oids =
     (if oids = [] then [] else sort_key f_time (filter (\<lambda>f. f_order f \<in> set oids) (db_fills db)))"

definition list_open :: "om_db \<Rightarrow> order list" where
  "list_open db = filter (\<lambda>r. o_status r \<in>
     set [SUBMITTED, ACKNOWLEDGED, OPEN, PARTIALLY_FILLED, CANCEL_PENDING, UNKNOWN]) (db_orders db)"

definition count_open :: "om_db \<Rightarrow> int" where
  "count_open db = int (length (list_open db))"

definition list_all_orders :: "om_db \<Rightarrow> nat \<Rightarrow> order list" where
  "list_all_orders db n = take n (sort_key (\<lambda>r. - o_created r) (db_orders db))"

definition put_order :: "string \<Rightarrow> (order \<Rightarrow> order) \<Rightarrow> om_db \<Rightarrow> om_db" where
  "put_order oid g db = db \<lparr> db_orders := map (\<lambda>r. if o_id r = oid then g r else r) (db_orders db) \<rparr>"

subsection \<open>Creating an order\<close>

definition reuse_or_conflict :: "order \<Rightarrow> order_intent \<Rightarrow> order res" where
  "reuse_or_conflict ex i =
     (if o_symbol ex = oi_symbol i \<and> o_side ex = oi_side i \<and> o_type ex = oi_type i
        \<and> dec_or (o_price ex) 0 = dec_or (oi_price i) 0 \<and> o_qty ex = oi_qty i
      then ret ex else raise IdempotencyConflict)"

definition order_of_intent :: "string \<Rightarrow> usec \<Rightarrow> order_intent \<Rightarrow> trading_mode \<Rightarrow> order" where
  "order_of_intent oid now i mode =
     \<lparr> o_id = oid, o_client = oi_client i, o_exchange = None, o_symbol = oi_symbol i,
       o_side = oi_side i, o_type = oi_type i, o_tif = oi_tif i, o_price = oi_price i,
       o_qty = oi_qty i, o_filled = 0, o_avg = None, o_status = CREATED, o_mode = mode,
       o_strategy = oi_strategy i, o_run = oi_run i, o_created = now, o_updated = now,
       o_expires = oi_expires i, o_reason = None, o_last_event = None, o_market = oi_market i,
       o_pside = oi_pside i, o_reduce_only = oi_reduce_only i \<rparr>"

fun mode_text :: "trading_mode \<Rightarrow> string" where
  "mode_text PAPER = ''PAPER''"
| "mode_text LIVE = ''LIVE''"
| "mode_text SHADOW = ''SHADOW''"

text \<open>
  The insertion is flushed before the \<open>try\<close> block, so a duplicate key raises there and is not
  handled; the handler is reached only by the event row.
\<close>

definition create_from_intent_at ::
  "om_db \<Rightarrow> om_db \<Rightarrow> string \<Rightarrow> string \<Rightarrow> usec \<Rightarrow> order_intent \<Rightarrow> trading_mode \<Rightarrow> om_db \<times> order res" where
  "create_from_intent_at r w oid eid now i mode =
     (case get_by_client r (oi_client i) of
        Some ex \<Rightarrow> (w, reuse_or_conflict ex i)
      | None \<Rightarrow>
          let row = order_of_intent oid now i mode;
              ev = \<lparr> oe_id = eid, oe_order = oid, oe_client = Some (oi_client i), oe_exchange = None,
                     oe_type = ORDER_CREATED, oe_status = CREATED, oe_time = now,
                     oe_payload = [(''trading_mode'', JStr (mode_text mode))] \<rparr>
          in if get_order w oid \<noteq> None \<or> get_by_client w (oi_client i) \<noteq> None
             then (w, raise IntegrityError)
             else if eid \<in> oe_id ` set (db_events w)
             then (w, case get_by_client w (oi_client i) of
                        Some ex \<Rightarrow> reuse_or_conflict ex i | None \<Rightarrow> raise IntegrityError)
             else (w \<lparr> db_orders := db_orders w @ [row], db_events := db_events w @ [ev] \<rparr>, ret row))"

definition create_from_intent ::
  "om_db \<Rightarrow> string \<Rightarrow> string \<Rightarrow> usec \<Rightarrow> order_intent \<Rightarrow> trading_mode \<Rightarrow> om_db \<times> order res" where
  "create_from_intent db = create_from_intent_at db db"

subsection \<open>Recording events\<close>

record event_args =
  ea_event_id :: "string option"
  ea_exchange :: "string option"
  ea_payload :: meta
  ea_reason :: "string option"

definition no_args :: event_args where
  "no_args = \<lparr> ea_event_id = None, ea_exchange = None, ea_payload = [], ea_reason = None \<rparr>"

definition exchange_id_taken :: "om_db \<Rightarrow> string \<Rightarrow> string option \<Rightarrow> bool" where
  "exchange_id_taken db oid x =
     (x \<noteq> None \<and> (\<exists>r \<in> set (db_orders db). o_id r \<noteq> oid \<and> o_exchange r = x))"

text \<open>\<open>event_id or new_id("evt")\<close>, the columns an event sets, and its row.\<close>

definition or_new :: "string option \<Rightarrow> string \<Rightarrow> string" where
  "or_new a new = (case a of Some e \<Rightarrow> (if e \<noteq> [] then e else new) | None \<Rightarrow> new)"

definition event_update :: "order_status \<Rightarrow> usec \<Rightarrow> string \<Rightarrow> event_args \<Rightarrow> order \<Rightarrow> order" where
  "event_update st now eid a r =
     r \<lparr> o_status := st, o_updated := now, o_last_event := Some eid,
         o_exchange := (if truthy_str (ea_exchange a) then ea_exchange a else o_exchange r),
         o_reason := (if truthy_str (ea_reason a) then ea_reason a else o_reason r) \<rparr>"

definition event_row ::
  "order \<Rightarrow> order_event_type \<Rightarrow> order_status \<Rightarrow> usec \<Rightarrow> string \<Rightarrow> event_args \<Rightarrow> order_event" where
  "event_row ord ety st now eid a =
     \<lparr> oe_id = eid, oe_order = o_id ord, oe_client = Some (o_client ord),
       oe_exchange = or_str (ea_exchange a) (o_exchange ord),
       oe_type = ety, oe_status = st, oe_time = now, oe_payload = ea_payload a \<rparr>"

definition record_event ::
  "om_db \<Rightarrow> string \<Rightarrow> usec \<Rightarrow> order \<Rightarrow> order_event_type \<Rightarrow> order_status \<Rightarrow> event_args
     \<Rightarrow> om_db \<times> order_event res" where
  "record_event db new now ord ety st a =
     (let eid = or_new (ea_event_id a) new;
          ev = event_row ord ety st now eid a
      in case get_order db (o_id ord) of
           None \<Rightarrow> (db, raise OrderNotFound)
         | Some _ \<Rightarrow>
             if eid \<in> oe_id ` set (db_events db)
                \<or> truthy_str (ea_exchange a) \<and> exchange_id_taken db (o_id ord) (ea_exchange a)
             then (db, case List.find (\<lambda>e. oe_id e = eid) (db_events db) of
                         Some e \<Rightarrow> ret e | None \<Rightarrow> raise IntegrityError)
             else ((put_order (o_id ord) (event_update st now eid a) db)
                     \<lparr> db_events := db_events db @ [ev] \<rparr>, ret ev))"

definition om_transition ::
  "om_db \<Rightarrow> string \<Rightarrow> usec \<Rightarrow> string \<Rightarrow> order_event_type \<Rightarrow> event_args \<Rightarrow> om_db \<times> order res" where
  "om_transition db new now oid ety a =
     (case get_order db oid of
        None \<Rightarrow> (db, raise OrderNotFound)
      | Some ord \<Rightarrow>
          (case osm_transition (o_status ord) ety of
             Inl e \<Rightarrow> (db, Inl e)
           | Inr t \<Rightarrow>
               if tr_noop t \<and> \<not> tr_changed t then
                 (case record_event db new now ord ety (o_status ord) a of
                    (db', Inl e) \<Rightarrow> (db', Inl e) | (db', Inr _) \<Rightarrow> (db', ret ord))
               else
                 (case record_event db new now ord ety (tr_new_status t) a of
                    (db', Inl e) \<Rightarrow> (db', Inl e)
                  | (db', Inr _) \<Rightarrow>
                      (db', case get_order db' oid of Some r \<Rightarrow> ret r | None \<Rightarrow> raise OrderNotFound))))"

definition om_validate :: "om_db \<Rightarrow> string \<Rightarrow> usec \<Rightarrow> string \<Rightarrow> om_db \<times> order res" where
  "om_validate db new now oid = om_transition db new now oid ORDER_VALIDATED no_args"

definition om_submitting :: "om_db \<Rightarrow> string \<Rightarrow> usec \<Rightarrow> string \<Rightarrow> om_db \<times> order res" where
  "om_submitting db new now oid = om_transition db new now oid ORDER_SUBMITTING no_args"

definition om_submitted :: "om_db \<Rightarrow> string \<Rightarrow> usec \<Rightarrow> string \<Rightarrow> om_db \<times> order res" where
  "om_submitted db new now oid = om_transition db new now oid ORDER_SUBMITTED no_args"

definition om_ack :: "om_db \<Rightarrow> string \<Rightarrow> usec \<Rightarrow> string \<Rightarrow> string \<Rightarrow> string option \<Rightarrow> om_db \<times> order res" where
  "om_ack db new now oid xid eid = om_transition db new now oid ORDER_ACKNOWLEDGED
     (no_args \<lparr> ea_event_id := eid, ea_exchange := Some xid \<rparr>)"

definition om_opened :: "om_db \<Rightarrow> string \<Rightarrow> usec \<Rightarrow> string \<Rightarrow> string option \<Rightarrow> om_db \<times> order res" where
  "om_opened db new now oid eid = om_transition db new now oid ORDER_OPENED
     (no_args \<lparr> ea_event_id := eid \<rparr>)"

definition om_cancel_pending :: "om_db \<Rightarrow> string \<Rightarrow> usec \<Rightarrow> string \<Rightarrow> string \<Rightarrow> om_db \<times> order res" where
  "om_cancel_pending db new now oid reason = om_transition db new now oid ORDER_CANCEL_PENDING
     (no_args \<lparr> ea_payload := [(''reason'', JStr reason)] \<rparr>)"

definition om_cancel_confirm :: "om_db \<Rightarrow> string \<Rightarrow> usec \<Rightarrow> string \<Rightarrow> string option \<Rightarrow> om_db \<times> order res" where
  "om_cancel_confirm db new now oid eid = om_transition db new now oid ORDER_CANCELLED
     (no_args \<lparr> ea_event_id := eid \<rparr>)"

definition om_reject :: "om_db \<Rightarrow> string \<Rightarrow> usec \<Rightarrow> string \<Rightarrow> string \<Rightarrow> string option \<Rightarrow> om_db \<times> order res" where
  "om_reject db new now oid reason eid = om_transition db new now oid ORDER_REJECTED
     (no_args \<lparr> ea_event_id := eid, ea_reason := Some reason, ea_payload := [(''reason'', JStr reason)] \<rparr>)"

definition om_expire :: "om_db \<Rightarrow> string \<Rightarrow> usec \<Rightarrow> string \<Rightarrow> om_db \<times> order res" where
  "om_expire db new now oid = om_transition db new now oid ORDER_EXPIRED no_args"

definition om_mark_unknown :: "om_db \<Rightarrow> string \<Rightarrow> usec \<Rightarrow> string \<Rightarrow> string \<Rightarrow> om_db \<times> order res" where
  "om_mark_unknown db new now oid reason = om_transition db new now oid ORDER_UNKNOWN
     (no_args \<lparr> ea_payload := [(''reason'', JStr reason)] \<rparr>)"

subsection \<open>Applying a fill\<close>

text \<open>The order a fill belongs to: by exchange id when it has one, else by its order id.\<close>

definition fill_target :: "om_db \<Rightarrow> fill \<Rightarrow> order option" where
  "fill_target db f =
     (case (if truthy_str (f_exchange f) then get_by_exchange db (the (f_exchange f)) else None) of
        Some r \<Rightarrow> Some r | None \<Rightarrow> get_order db (f_order f))"

text \<open>An update writes the columns whose value differs from the one that was loaded.\<close>

definition written :: "'a \<Rightarrow> 'a \<Rightarrow> 'a \<Rightarrow> 'a" where
  "written loaded new current = (if new = loaded then current else new)"

record fill_ids =
  fi_last :: string
  fi_event :: string
  fi_trade :: string

definition fill_event_type :: "order \<Rightarrow> fill \<Rightarrow> order_event_type" where
  "fill_event_type ord f =
     (if dadd (o_filled ord) (f_qty f) = o_qty ord then ORDER_FILLED else ORDER_PARTIALLY_FILLED)"

text \<open>The quantity-weighted average price after the fill.\<close>

definition fill_avg :: "order \<Rightarrow> fill \<Rightarrow> dec" where
  "fill_avg ord f =
     (let new_filled = dadd (o_filled ord) (f_qty f);
          previous_total = dmul (o_filled ord) (dec_or (o_avg ord) 0);
          incremental = dmul (f_price f) (f_qty f)
      in if 0 < new_filled then ddiv (dadd previous_total incremental) new_filled else 0)"

text \<open>The order object after the assignments, and the columns its update writes.\<close>

definition fill_order :: "fill_ids \<Rightarrow> fill \<Rightarrow> order_status \<Rightarrow> order \<Rightarrow> order" where
  "fill_order ids f st ord =
     ord \<lparr> o_filled := dadd (o_filled ord) (f_qty f), o_avg := Some (fill_avg ord f), o_status := st,
           o_updated := f_time f, o_last_event := Some (fi_last ids),
           o_exchange := (if truthy_str (f_exchange f) then f_exchange f else o_exchange ord) \<rparr>"

definition write_back :: "order \<Rightarrow> order \<Rightarrow> order \<Rightarrow> order" where
  "write_back old new c =
     c \<lparr> o_filled := written (o_filled old) (o_filled new) (o_filled c),
         o_avg := written (o_avg old) (o_avg new) (o_avg c),
         o_status := written (o_status old) (o_status new) (o_status c),
         o_updated := written (o_updated old) (o_updated new) (o_updated c),
         o_last_event := written (o_last_event old) (o_last_event new) (o_last_event c),
         o_exchange := written (o_exchange old) (o_exchange new) (o_exchange c) \<rparr>"

definition fill_event_row :: "fill_ids \<Rightarrow> fill \<Rightarrow> order \<Rightarrow> order_event_type \<Rightarrow> order_event" where
  "fill_event_row ids f ord ety =
     \<lparr> oe_id = fi_event ids, oe_order = o_id ord, oe_client = Some (o_client ord),
       oe_exchange = o_exchange ord, oe_type = ety, oe_status = o_status ord, oe_time = f_time f,
       oe_payload = [(''fill_id'', JStr (f_id f)), (''fill_quantity'', JDec (f_qty f))] \<rparr>"

definition fill_row :: "fill_ids \<Rightarrow> fill \<Rightarrow> order \<Rightarrow> fill" where
  "fill_row ids f ord =
     f \<lparr> f_trade := Some (or_new (f_trade f) (fi_trade ids)),
         f_order := o_id ord, f_client := Some (o_client ord), f_exchange := o_exchange ord \<rparr>"

definition already_applied :: "om_db \<Rightarrow> fill \<Rightarrow> ((order \<times> fill) \<times> bool) res" where
  "already_applied db ex =
     (case get_order db (f_order ex) of Some r \<Rightarrow> ret ((r, ex), False) | None \<Rightarrow> raise ExceptionC)"

definition fill_conflict :: "om_db \<Rightarrow> fill_ids \<Rightarrow> fill \<Rightarrow> order \<Rightarrow> order \<Rightarrow> bool" where
  "fill_conflict w ids f ord ord' \<longleftrightarrow>
     fi_event ids \<in> oe_id ` set (db_events w) \<or> f_id f \<in> f_id ` set (db_fills w)
     \<or> f_trade (fill_row ids f ord') \<in> f_trade ` set (db_fills w)
     \<or> o_exchange ord' \<noteq> o_exchange ord \<and> exchange_id_taken w (o_id ord) (o_exchange ord')"

definition apply_fill_at ::
  "om_db \<Rightarrow> om_db \<Rightarrow> fill_ids \<Rightarrow> fill \<Rightarrow> om_db \<times> ((order \<times> fill) \<times> bool) res" where
  "apply_fill_at r w ids f =
     (case get_fill r (f_id f) of
        Some ex \<Rightarrow> (w, already_applied r ex)
      | None \<Rightarrow>
        (case fill_target r f of
           None \<Rightarrow> (w, raise OrderNotFound)
         | Some ord \<Rightarrow>
             if o_qty ord < dadd (o_filled ord) (f_qty f) then (w, raise InvalidStateTransition)
             else
               (case osm_transition (o_status ord) (fill_event_type ord f) of
                  Inl e \<Rightarrow> (w, Inl e)
                | Inr t \<Rightarrow>
                    let ord' = fill_order ids f (tr_new_status t) ord
                    in if fill_conflict w ids f ord ord'
                       then (w, case get_fill w (f_id f) of
                                  Some ex \<Rightarrow> already_applied w ex | None \<Rightarrow> raise IntegrityError)
                       else ((put_order (o_id ord) (write_back ord ord') w)
                               \<lparr> db_events := db_events w @ [fill_event_row ids f ord' (fill_event_type ord f)],
                                 db_fills := db_fills w @ [fill_row ids f ord'] \<rparr>,
                             ret ((ord', f), True)))))"

definition apply_fill :: "om_db \<Rightarrow> fill_ids \<Rightarrow> fill \<Rightarrow> om_db \<times> ((order \<times> fill) \<times> bool) res" where
  "apply_fill db = apply_fill_at db db"

text \<open>The settlement callback runs after the commit, on the fill as it was received.\<close>

definition apply_fill_settling ::
  "(fill \<Rightarrow> 'w \<Rightarrow> 'w \<times> unit res) \<Rightarrow> om_db \<times> 'w \<Rightarrow> fill_ids \<Rightarrow> fill
     \<Rightarrow> (om_db \<times> 'w) \<times> ((order \<times> fill) \<times> bool) res" where
  "apply_fill_settling cb s ids f =
     (case apply_fill (fst s) ids f of
        (db', Inr (r, True)) \<Rightarrow>
          (case cb f (snd s) of
             (w', Inl e) \<Rightarrow> ((db', w'), Inl e) | (w', Inr _) \<Rightarrow> ((db', w'), ret (r, True)))
      | (db', res) \<Rightarrow> ((db', snd s), res))"

subsection \<open>Looking up and updating\<close>

lemma find_Some_iff_distinct:
  "distinct (map k xs) \<Longrightarrow> List.find (\<lambda>x. k x = a) xs = Some x \<longleftrightarrow> x \<in> set xs \<and> k x = a"
  by (induction xs) (auto simp: image_iff)

lemma find_None: "List.find (\<lambda>x. k x = a) xs = None \<longleftrightarrow> a \<notin> k ` set xs"
  by (auto simp: find_None_iff)

lemma find_Some_mem: "List.find P xs = Some x \<Longrightarrow> x \<in> set xs \<and> P x"
  by (auto simp: find_Some_iff)

lemma written_same [simp]: "written v n v = n"
  by (simp add: written_def)

lemma put_order_simps [simp]:
  "db_events (put_order oid g db) = db_events db" "db_fills (put_order oid g db) = db_fills db"
  "db_orders (put_order oid g db) = map (\<lambda>r. if o_id r = oid then g r else r) (db_orders db)"
  by (simp_all add: put_order_def)

lemma map_id_put:
  "(\<And>r. o_id (g r) = o_id r) \<Longrightarrow> map o_id (map (\<lambda>r. if o_id r = oid then g r else r) rs) = map o_id rs"
  by simp

lemma find_put:
  assumes "\<And>r. o_id (g r) = o_id r"
  shows "List.find (\<lambda>r. o_id r = a) (map (\<lambda>r. if o_id r = oid then g r else r) rs) =
           map_option (\<lambda>r. if o_id r = oid then g r else r) (List.find (\<lambda>r. o_id r = a) rs)"
  using assms by (induction rs) auto

lemma get_order_put:
  assumes "\<And>r. o_id (g r) = o_id r"
  shows "get_order (put_order oid g db) a = map_option (\<lambda>r. if o_id r = oid then g r else r) (get_order db a)"
  using find_put [OF assms] by (simp add: get_order_def)

lemma get_order_more [simp]:
  "get_order (db\<lparr>db_events := es\<rparr>) a = get_order db a" "get_order (db\<lparr>db_fills := fs\<rparr>) a = get_order db a"
  by (simp_all add: get_order_def)

lemma get_order_id: "get_order db a = Some r \<Longrightarrow> o_id r = a \<and> r \<in> set (db_orders db)"
  by (auto simp: get_order_def dest: find_Some_mem)

lemma get_by_exchange_id: "get_by_exchange db x = Some r \<Longrightarrow> o_exchange r = Some x \<and> r \<in> set (db_orders db)"
  by (auto simp: get_by_exchange_def dest: find_Some_mem)

lemma fill_target_mem: "fill_target db f = Some r \<Longrightarrow> r \<in> set (db_orders db)"
  by (auto simp: fill_target_def split: option.splits if_splits dest: get_by_exchange_id get_order_id)

subsection \<open>The invariant of the tables\<close>

definition fills_total :: "om_db \<Rightarrow> string \<Rightarrow> dec" where
  "fills_total db oid = foldl (\<lambda>s f. dadd s (f_qty f)) 0 (filter (\<lambda>f. f_order f = oid) (db_fills db))"

definition exchange_ids_ok :: "order list \<Rightarrow> bool" where
  "exchange_ids_ok rs \<longleftrightarrow>
     (\<forall>r1 \<in> set rs. \<forall>r2 \<in> set rs. o_exchange r1 \<noteq> None \<longrightarrow> o_exchange r1 = o_exchange r2 \<longrightarrow> o_id r1 = o_id r2)"

definition om_ok :: "om_db \<Rightarrow> bool" where
  "om_ok db \<longleftrightarrow>
     distinct (map o_id (db_orders db)) \<and> distinct (map o_client (db_orders db)) \<and>
     exchange_ids_ok (db_orders db) \<and>
     distinct (map oe_id (db_events db)) \<and> distinct (map f_id (db_fills db)) \<and>
     (\<forall>f \<in> set (db_fills db). f_order f \<in> o_id ` set (db_orders db)) \<and>
     (\<forall>r \<in> set (db_orders db). 0 \<le> o_filled r \<and> o_filled r \<le> o_qty r \<and> fills_total db (o_id r) = o_filled r)"

lemma om_ok_empty: "om_ok \<lparr> db_orders = [], db_events = [], db_fills = [] \<rparr>"
  by (simp add: om_ok_def exchange_ids_ok_def)

lemma fills_total_more [simp]:
  "fills_total (db\<lparr>db_events := es\<rparr>) a = fills_total db a"
  "fills_total (db\<lparr>db_orders := rs\<rparr>) a = fills_total db a"
  "fills_total (put_order oid g db) a = fills_total db a"
  by (simp_all add: fills_total_def)

lemma fills_total_snoc:
  "fills_total (db\<lparr>db_fills := db_fills db @ [f]\<rparr>) a =
     (if f_order f = a then dadd (fills_total db a) (f_qty f) else fills_total db a)"
  by (simp add: fills_total_def)

lemma fills_total_none:
  "\<forall>f \<in> set (db_fills db). f_order f \<noteq> a \<Longrightarrow> fills_total db a = 0"
proof -
  assume "\<forall>f \<in> set (db_fills db). f_order f \<noteq> a"
  then have "filter (\<lambda>f. f_order f = a) (db_fills db) = []" by (simp add: filter_empty_conv)
  then show ?thesis by (simp add: fills_total_def)
qed

lemma om_okD:
  assumes "om_ok db"
  shows "distinct (map o_id (db_orders db))" "distinct (map o_client (db_orders db))"
    "exchange_ids_ok (db_orders db)" "distinct (map oe_id (db_events db))" "distinct (map f_id (db_fills db))"
    "f \<in> set (db_fills db) \<Longrightarrow> f_order f \<in> o_id ` set (db_orders db)"
    "r \<in> set (db_orders db) \<Longrightarrow> 0 \<le> o_filled r" "r \<in> set (db_orders db) \<Longrightarrow> o_filled r \<le> o_qty r"
    "r \<in> set (db_orders db) \<Longrightarrow> fills_total db (o_id r) = o_filled r"
  using assms unfolding om_ok_def by blast+

lemma om_ok_unique:
  "om_ok db \<Longrightarrow> r \<in> set (db_orders db) \<Longrightarrow> q \<in> set (db_orders db) \<Longrightarrow> o_id r = o_id q \<Longrightarrow> r = q"
  using om_okD(1) [of db] by (auto simp: distinct_map inj_on_def)

text \<open>An update that touches one order and none of the keys keeps the invariant.\<close>

lemma om_ok_put:
  assumes ok: "om_ok db"
    and keys: "\<And>r. o_id (g r) = o_id r" "\<And>r. o_client (g r) = o_client r" "\<And>r. o_qty (g r) = o_qty r"
    and ex: "\<And>r. r \<in> set (db_orders db) \<Longrightarrow> o_id r = oid \<Longrightarrow>
               o_exchange (g r) = o_exchange r \<or> \<not> exchange_id_taken db oid (o_exchange (g r))"
    and ev: "distinct (map oe_id es)" and fl: "distinct (map f_id fs)"
    and fk: "\<forall>f \<in> set fs. f_order f \<in> o_id ` set (db_orders db)"
    and tot: "\<And>r. r \<in> set (db_orders db) \<Longrightarrow>
       (let r' = (if o_id r = oid then g r else r) in
        0 \<le> o_filled r' \<and> o_filled r' \<le> o_qty r' \<and>
        fills_total (db\<lparr>db_fills := fs\<rparr>) (o_id r) = o_filled r')"
  shows "om_ok ((put_order oid g db)\<lparr>db_events := es, db_fills := fs\<rparr>)"
proof -
  let ?m = "map (\<lambda>r. if o_id r = oid then g r else r) (db_orders db)"
  have ids: "map o_id ?m = map o_id (db_orders db)" by (rule map_id_put) (rule keys)
  have cl: "map o_client ?m = map o_client (db_orders db)" using keys by simp
  have exok: "exchange_ids_ok ?m"
    unfolding exchange_ids_ok_def
  proof (intro ballI impI)
    fix a b
    assume "a \<in> set ?m" "b \<in> set ?m" and n: "o_exchange a \<noteq> None" and e: "o_exchange a = o_exchange b"
    then obtain r1 r2 where r1: "r1 \<in> set (db_orders db)" "a = (if o_id r1 = oid then g r1 else r1)"
      and r2: "r2 \<in> set (db_orders db)" "b = (if o_id r2 = oid then g r2 else r2)" by auto
    have old: "o_exchange r1 \<noteq> None \<Longrightarrow> o_exchange r1 = o_exchange r2 \<Longrightarrow> o_id r1 = o_id r2"
      using ok r1(1) r2(1) unfolding om_ok_def exchange_ids_ok_def by blast
    have free: "\<not> exchange_id_taken db oid x \<Longrightarrow> x \<noteq> None \<Longrightarrow> r \<in> set (db_orders db) \<Longrightarrow> o_exchange r = x \<Longrightarrow> o_id r = oid"
      for x r by (auto simp: exchange_id_taken_def)
    have "o_id r1 = o_id r2"
    proof (cases "o_id r1 = oid"; cases "o_id r2 = oid")
      assume o: "o_id r1 = oid" "o_id r2 \<noteq> oid"
      then have ab: "a = g r1" "b = r2" using r1 r2 by simp_all
      from ex [OF r1(1) o(1)] show ?thesis
      proof
        assume "o_exchange (g r1) = o_exchange r1"
        then show ?thesis using old n e ab by metis
      next
        assume "\<not> exchange_id_taken db oid (o_exchange (g r1))"
        from free [OF this _ r2(1)] show ?thesis using n e ab o by metis
      qed
    next
      assume o: "o_id r1 \<noteq> oid" "o_id r2 = oid"
      then have ab: "a = r1" "b = g r2" using r1 r2 by simp_all
      from ex [OF r2(1) o(2)] show ?thesis
      proof
        assume "o_exchange (g r2) = o_exchange r2"
        then show ?thesis using old n e ab by metis
      next
        assume "\<not> exchange_id_taken db oid (o_exchange (g r2))"
        from free [OF this _ r1(1)] show ?thesis using n e ab o by metis
      qed
    qed (use old n e r1(2) r2(2) in metis)+
    then show "o_id a = o_id b" using keys(1) r1(2) r2(2) by simp
  qed
  have im: "o_id ` set ?m = o_id ` set (db_orders db)" by (simp only: ids list.set_map [symmetric])
  let ?d = "(put_order oid g db)\<lparr>db_events := es, db_fills := fs\<rparr>"
  have t: "fills_total ?d a = fills_total (db\<lparr>db_fills := fs\<rparr>) a" for a
    by (simp add: fills_total_def)
  have o: "db_orders ?d = ?m" "db_events ?d = es" "db_fills ?d = fs" by simp_all
  have rows: "0 \<le> o_filled r \<and> o_filled r \<le> o_qty r \<and> fills_total ?d (o_id r) = o_filled r"
    if m: "r \<in> set ?m" for r
  proof -
    obtain q where "q \<in> set (db_orders db)" "r = (if o_id q = oid then g q else q)"
      using m unfolding list.set_map image_iff by blast
    moreover from this have "o_id r = o_id q" using keys(1) by simp
    ultimately show ?thesis using tot [of q] unfolding t by (simp add: Let_def)
  qed
  have "distinct (map o_id (db_orders db))" "distinct (map o_client (db_orders db))"
    using ok by (simp_all add: om_ok_def)
  then show ?thesis unfolding om_ok_def o ids cl im
    by (intro conjI ballI exok ev fl) (use rows fk in blast)+
qed

subsection \<open>Every operation keeps the invariant\<close>

lemma get_order_None: "get_order db a = None \<longleftrightarrow> a \<notin> o_id ` set (db_orders db)"
  by (simp add: get_order_def find_None)

lemma get_by_client_None: "get_by_client db a = None \<longleftrightarrow> a \<notin> o_client ` set (db_orders db)"
  by (simp add: get_by_client_def find_None)

lemma get_fill_None: "get_fill db a = None \<longleftrightarrow> a \<notin> f_id ` set (db_fills db)"
  by (simp add: get_fill_def find_None)

lemma om_ok_append_order:
  assumes ok: "om_ok w" and new: "o_id row \<notin> o_id ` set (db_orders w)" "o_client row \<notin> o_client ` set (db_orders w)"
    and row: "o_exchange row = None" "o_filled row = 0" "0 \<le> o_qty row"
    and ev: "oe_id ev \<notin> oe_id ` set (db_events w)"
  shows "om_ok (w\<lparr>db_orders := db_orders w @ [row], db_events := db_events w @ [ev]\<rparr>)"
proof -
  have "\<forall>f \<in> set (db_fills w). f_order f \<noteq> o_id row"
    using om_okD(6) [OF ok] new(1) by metis
  then have t: "fills_total w (o_id row) = 0" by (rule fills_total_none)
  have "exchange_ids_ok (db_orders w @ [row])"
    unfolding exchange_ids_ok_def
  proof (intro ballI impI)
    fix a b assume ab: "a \<in> set (db_orders w @ [row])" "b \<in> set (db_orders w @ [row])"
      "o_exchange a \<noteq> None" "o_exchange a = o_exchange b"
    then have "a \<noteq> row" "b \<noteq> row" using row(1) by metis+
    then have "a \<in> set (db_orders w)" "b \<in> set (db_orders w)" using ab by simp_all
    then show "o_id a = o_id b" using om_okD(3) [OF ok] ab(3,4) unfolding exchange_ids_ok_def by blast
  qed
  moreover have "\<forall>f \<in> set (db_fills w). f_order f \<in> insert (o_id row) (o_id ` set (db_orders w))"
    using ok by (simp add: om_ok_def)
  ultimately show ?thesis
    using ok new row ev t by (simp add: om_ok_def)
qed

lemma create_ok:
  assumes ok: "om_ok w" and q: "0 \<le> oi_qty i"
  shows "om_ok (fst (create_from_intent_at r w oid eid now i mode))"
proof -
  have row: "o_exchange (order_of_intent oid now i mode) = None" "o_filled (order_of_intent oid now i mode) = 0"
    "0 \<le> o_qty (order_of_intent oid now i mode)" "o_id (order_of_intent oid now i mode) = oid"
    "o_client (order_of_intent oid now i mode) = oi_client i"
    using q by (simp_all add: order_of_intent_def)
  then show ?thesis
    unfolding create_from_intent_at_def Let_def using ok
    by (simp add: om_ok_append_order get_order_None get_by_client_None split: option.split)
qed

lemma event_update_keys [simp]:
  "o_id (event_update st now eid a r) = o_id r" "o_client (event_update st now eid a r) = o_client r"
  "o_qty (event_update st now eid a r) = o_qty r" "o_filled (event_update st now eid a r) = o_filled r"
  "o_status (event_update st now eid a r) = st" "o_last_event (event_update st now eid a r) = Some eid"
  "o_exchange (event_update st now eid a r) =
     (if truthy_str (ea_exchange a) then ea_exchange a else o_exchange r)"
  by (simp_all add: event_update_def)

lemma event_row_id [simp]: "oe_id (event_row ord ety st now eid a) = eid"
  by (simp add: event_row_def)

lemma record_event_ok:
  assumes ok: "om_ok db"
  shows "om_ok (fst (record_event db new now ord ety st a))"
proof -
  have n: "om_ok ((put_order (o_id ord) (event_update st now eid a) db)\<lparr>db_events := db_events db @ [ev]\<rparr>)"
    if "oe_id ev \<notin> oe_id ` set (db_events db)"
      and "\<not> (truthy_str (ea_exchange a) \<and> exchange_id_taken db (o_id ord) (ea_exchange a))" for ev eid
  proof -
    have "om_ok ((put_order (o_id ord) (event_update st now eid a) db)
            \<lparr>db_events := db_events db @ [ev], db_fills := db_fills db\<rparr>)"
      using ok that by (intro om_ok_put) (auto simp: om_ok_def Let_def)
    moreover have "(put_order (o_id ord) (event_update st now eid a) db)
            \<lparr>db_events := db_events db @ [ev], db_fills := db_fills db\<rparr>
        = (put_order (o_id ord) (event_update st now eid a) db)\<lparr>db_events := db_events db @ [ev]\<rparr>"
      by (simp add: put_order_def)
    ultimately show ?thesis by simp
  qed
  show ?thesis
    unfolding record_event_def Let_def using ok n by (simp split: option.split)
qed

lemma transition_ok:
  assumes "om_ok db"
  shows "om_ok (fst (om_transition db new now oid ety a))"
proof -
  have r: "om_ok d" if "record_event db new now ord ety st a = (d, res)" for ord st d res
    using record_event_ok [OF assms, of new now ord ety st a] that by simp
  show ?thesis
    unfolding om_transition_def using assms r by (auto split: option.split sum.split prod.split)
qed

lemma fill_order_keys [simp]:
  "o_id (fill_order ids f st r) = o_id r" "o_client (fill_order ids f st r) = o_client r"
  "o_qty (fill_order ids f st r) = o_qty r" "o_filled (fill_order ids f st r) = dadd (o_filled r) (f_qty f)"
  "o_status (fill_order ids f st r) = st"
  "o_exchange (fill_order ids f st r) = (if truthy_str (f_exchange f) then f_exchange f else o_exchange r)"
  by (simp_all add: fill_order_def)

lemma write_back_keys [simp]:
  "o_id (write_back r r' c) = o_id c" "o_client (write_back r r' c) = o_client c"
  "o_qty (write_back r r' c) = o_qty c"
  by (simp_all add: write_back_def)

lemma write_back_same [simp]: "write_back r (fill_order ids f st r) r = fill_order ids f st r"
  by (simp add: write_back_def fill_order_def)

lemma fill_row_keys [simp]:
  "f_id (fill_row ids f r) = f_id f" "f_order (fill_row ids f r) = o_id r" "f_qty (fill_row ids f r) = f_qty f"
  by (simp_all add: fill_row_def)

lemma fill_event_row_id [simp]: "oe_id (fill_event_row ids f r ety) = fi_event ids"
  by (simp add: fill_event_row_def)

text \<open>The branches of \<open>apply_fill\<close>: it is applied, or the tables stay as they were.\<close>

lemma apply_fill_cases:
  assumes "apply_fill_at r w ids f = (db', res)"
  obtains (unchanged) "db' = w" "\<And>y. res \<noteq> Inr (y, True)"
  | (applied) ord t ord' where "get_fill r (f_id f) = None" "fill_target r f = Some ord"
      "dadd (o_filled ord) (f_qty f) \<le> o_qty ord"
      "osm_transition (o_status ord) (fill_event_type ord f) = Inr t"
      "ord' = fill_order ids f (tr_new_status t) ord" "\<not> fill_conflict w ids f ord ord'"
      "db' = (put_order (o_id ord) (write_back ord ord') w)
               \<lparr> db_events := db_events w @ [fill_event_row ids f ord' (fill_event_type ord f)],
                 db_fills := db_fills w @ [fill_row ids f ord'] \<rparr>"
      "res = ret ((ord', f), True)"
proof (cases "get_fill r (f_id f)")
  case (Some ex)
  then show ?thesis using assms unchanged
    by (auto simp: apply_fill_at_def already_applied_def split: option.splits)
next
  case fresh: None
  show ?thesis
  proof (cases "fill_target r f")
    case None
    then show ?thesis using assms fresh unchanged by (auto simp: apply_fill_at_def)
  next
    case tgt: (Some ord)
    show ?thesis
    proof (cases "o_qty ord < dadd (o_filled ord) (f_qty f)")
      case True
      then show ?thesis using assms fresh tgt unchanged by (auto simp: apply_fill_at_def)
    next
      case qty: False
      show ?thesis
      proof (cases "osm_transition (o_status ord) (fill_event_type ord f)")
        case (Inl e)
        then show ?thesis using assms fresh tgt qty unchanged by (auto simp: apply_fill_at_def)
      next
        case (Inr t)
        define ord' where "ord' = fill_order ids f (tr_new_status t) ord"
        show ?thesis
        proof (cases "fill_conflict w ids f ord ord'")
          case True
          then show ?thesis using assms fresh tgt qty Inr unchanged
            by (auto simp: apply_fill_at_def Let_def ord'_def already_applied_def split: option.splits)
        next
          case False
          show ?thesis
            by (rule applied [OF fresh tgt _ Inr ord'_def False])
              (use assms fresh tgt qty Inr False in \<open>simp_all add: apply_fill_at_def Let_def ord'_def\<close>)
        qed
      qed
    qed
  qed
qed

lemma apply_fill_ok:
  assumes ok: "om_ok db" and q: "0 \<le> f_qty f" and a: "apply_fill db ids f = (db', res)"
  shows "om_ok db'"
  using a unfolding apply_fill_def
proof (cases rule: apply_fill_cases)
  case (applied ord t ord')
  have mem: "ord \<in> set (db_orders db)" by (rule fill_target_mem [OF applied(2)])
  have uniq: "r = ord" if "r \<in> set (db_orders db)" "o_id r = o_id ord" for r
    using om_ok_unique [OF ok _ mem] that by blast
  have wb: "write_back ord ord' r = ord'" if "r \<in> set (db_orders db)" "o_id r = o_id ord" for r
    using uniq [OF that] applied(5) by simp
  have tot: "fills_total (db\<lparr>db_fills := db_fills db @ [fill_row ids f ord']\<rparr>) a
      = (if a = o_id ord then dadd (o_filled ord) (f_qty f) else fills_total db a)" for a
    using om_okD(9) [OF ok mem] applied(5) by (simp add: fills_total_snoc)
  have c: "fi_event ids \<notin> oe_id ` set (db_events db)" "f_id f \<notin> f_id ` set (db_fills db)"
    "o_exchange ord' = o_exchange ord \<or> \<not> exchange_id_taken db (o_id ord) (o_exchange ord')"
    using applied(6) by (auto simp: fill_conflict_def)
  show ?thesis
    unfolding applied(7)
  proof (rule om_ok_put [OF ok])
    fix r assume r: "r \<in> set (db_orders db)"
    have row: "0 \<le> o_filled r" "o_filled r \<le> o_qty r" "fills_total db (o_id r) = o_filled r"
      using om_okD(7-9) [OF ok r] .
    show "let r' = if o_id r = o_id ord then write_back ord ord' r else r
          in 0 \<le> o_filled r' \<and> o_filled r' \<le> o_qty r' \<and>
             fills_total (db\<lparr>db_fills := db_fills db @ [fill_row ids f ord']\<rparr>) (o_id r) = o_filled r'"
    proof (cases "o_id r = o_id ord")
      case True
      have "o_filled ord' = dadd (o_filled ord) (f_qty f)" "o_qty ord' = o_qty ord" using applied(5) by simp_all
      moreover have "0 \<le> dadd (o_filled ord) (f_qty f)" using row(1) q uniq [OF r True] by (simp add: dadd_nonneg)
      moreover have "o_id r = o_id ord" by (rule True)
      ultimately show ?thesis using wb [OF r True] applied(3) unfolding tot by (simp add: Let_def)
    next
      case False
      then show ?thesis using row by (simp add: tot Let_def)
    qed
    assume "o_id r = o_id ord"
    then show "o_exchange (write_back ord ord' r) = o_exchange r \<or>
        \<not> exchange_id_taken db (o_id ord) (o_exchange (write_back ord ord' r))"
      using wb [OF r] uniq [OF r] c(3) by simp
  next
    show "\<forall>g \<in> set (db_fills db @ [fill_row ids f ord']). f_order g \<in> o_id ` set (db_orders db)"
      using ok mem applied(5) by (auto simp: om_ok_def)
  qed (use ok c in \<open>simp_all add: om_ok_def\<close>)
qed (use ok in simp)

inductive om_reach :: "om_db \<Rightarrow> bool" where
  empty: "om_reach \<lparr> db_orders = [], db_events = [], db_fills = [] \<rparr>"
| create: "om_reach db \<Longrightarrow> 0 \<le> oi_qty i \<Longrightarrow> om_reach (fst (create_from_intent db oid eid now i mode))"
| transition: "om_reach db \<Longrightarrow> om_reach (fst (om_transition db new now oid ety a))"
| fill: "om_reach db \<Longrightarrow> 0 \<le> f_qty f \<Longrightarrow> om_reach (fst (apply_fill db ids f))"

lemma om_reach_ok: "om_reach db \<Longrightarrow> om_ok db"
proof (induction rule: om_reach.induct)
  case (create db i oid eid now mode)
  then show ?case by (simp add: create_from_intent_def create_ok)
next
  case (fill db f ids)
  then show ?case using apply_fill_ok [of db f ids "fst (apply_fill db ids f)" "snd (apply_fill db ids f)"] by simp
qed (simp_all add: om_ok_empty transition_ok)

text \<open>C10: in every state the order manager can reach, no two orders share an id, a client id or
  an exchange id, no event or fill is stored twice, and the filled quantity of every order is
  the total of its stored fills and lies between zero and the ordered quantity.\<close>

theorem order_tables_invariant:
  assumes "om_reach db"
  shows "distinct (map o_id (db_orders db)) \<and> distinct (map o_client (db_orders db))
    \<and> distinct (map oe_id (db_events db)) \<and> distinct (map f_id (db_fills db))
    \<and> exchange_ids_ok (db_orders db)
    \<and> list_all (\<lambda>r. 0 \<le> o_filled r \<and> o_filled r \<le> o_qty r \<and> o_filled r = fills_total db (o_id r)) (db_orders db)"
proof -
  have ok: "om_ok db" by (rule om_reach_ok [OF assms])
  have "list_all (\<lambda>r. 0 \<le> o_filled r \<and> o_filled r \<le> o_qty r \<and> o_filled r = fills_total db (o_id r)) (db_orders db)"
    unfolding list_all_iff using om_okD(7-9) [OF ok] by metis
  then show ?thesis using om_okD(1-5) [OF ok] by blast
qed

subsection \<open>A fill is settled once\<close>

interpretation fills: exactly_once apply_fill "\<lambda>db. f_id ` set (db_fills db)" f_id
proof
  show "db' = db" if "apply_fill db i x = (db', Inl e)" for db i x db' e
    using that unfolding apply_fill_def by (cases rule: apply_fill_cases) simp_all
  show "db' = db" if "apply_fill db i x = (db', Inr (r, False))" for db i x db' r
    using that unfolding apply_fill_def by (cases rule: apply_fill_cases) simp_all
  show "f_id x \<notin> f_id ` set (db_fills db) \<and> f_id ` set (db_fills db') = insert (f_id x) (f_id ` set (db_fills db))"
    if "apply_fill db i x = (db', Inr (r, True))" for db i x db' r
    using that unfolding apply_fill_def
    by (cases rule: apply_fill_cases) (blast, simp add: fill_conflict_def)
qed

text \<open>Deliveries one after the other, with a settlement that writes the fill id into a log.\<close>

definition log_settlement :: "fill \<Rightarrow> string list \<Rightarrow> string list \<times> unit res" where
  "log_settlement f lg = (lg @ [f_id f], ret ())"

definition deliver_fills :: "(fill_ids \<times> fill) list \<Rightarrow> om_db \<Rightarrow> om_db \<times> string list" where
  "deliver_fills xs db = foldl (\<lambda>s x. fst (apply_fill_settling log_settlement s (fst x) (snd x))) (db, []) xs"

lemma deliver_consume:
  "foldl (\<lambda>s x. fst (apply_fill_settling log_settlement s (fst x) (snd x))) (db, lg) xs = fills.consume xs db lg"
proof (induction xs arbitrary: db lg)
  case (Cons x xs)
  obtain ids f where x: "x = (ids, f)" by force
  obtain d r where a: "apply_fill db ids f = (d, r)" by force
  have "fst (apply_fill_settling log_settlement (db, lg) ids f) =
      (d, case r of Inr (y, True) \<Rightarrow> lg @ [f_id f] | _ \<Rightarrow> lg)"
    by (simp add: apply_fill_settling_def a log_settlement_def split: sum.split prod.split bool.split)
  then show ?case using Cons by (simp add: x a split: sum.split prod.split bool.split)
qed simp

text \<open>C1: however often and in whatever order fills are delivered, the settlement is called at
  most once for each fill id, and exactly for the fills that were newly stored.\<close>

theorem fills_settled_once:
  assumes "deliver_fills xs db = (db', settled)"
  shows "distinct settled \<and> set settled = f_id ` set (db_fills db') - f_id ` set (db_fills db)"
proof -
  have "fills.consume xs db [] = (db', settled)"
    using assms by (simp add: deliver_fills_def deliver_consume)
  from fills.consume_log [OF _ _ this] show ?thesis by simp
qed

text \<open>When two deliveries of the same fill race, the one that commits second changes no
  table, is reported as not new, and settles nothing.\<close>

theorem fill_race_once:
  assumes "om_ok w" and "ex \<in> set (db_fills w)" and "f_id ex = f_id f"
    and "get_fill r (f_id f) = None" and "fill_target r f = Some ord"
    and "dadd (o_filled ord) (f_qty f) \<le> o_qty ord"
    and "osm_transition (o_status ord) (fill_event_type ord f) = ret t"
  shows "\<exists>ord'. apply_fill_at r w ids f = (w, ret ((ord', ex), False))"
proof -
  have "f_id f \<in> f_id ` set (db_fills w)" using assms(2,3) by (metis imageI)
  then have c: "fill_conflict w ids f ord (fill_order ids f (tr_new_status t) ord)"
    by (simp add: fill_conflict_def)
  have g: "get_fill w (f_id f) = Some ex"
    unfolding get_fill_def find_Some_iff_distinct [OF om_okD(5) [OF assms(1)]] using assms(2,3) by blast
  have "f_order ex \<in> o_id ` set (db_orders w)" using om_okD(6) [OF assms(1,2)] .
  then obtain o' where "get_order w (f_order ex) = Some o'"
    using get_order_None by (metis not_None_eq)
  then show ?thesis
    using assms(4-7) c g by (simp add: apply_fill_at_def Let_def already_applied_def not_less)
qed

subsection \<open>A small run\<close>

definition ex_intent :: order_intent where
  "ex_intent = \<lparr> oi_client = ''c1'', oi_symbol = ''BTCUSDT'', oi_side = BUY, oi_type = LIMIT, oi_tif = GTC,
     oi_price = Some 100, oi_qty = 2, oi_quote_qty = None, oi_strategy = ''manual'', oi_run = None,
     oi_expires = None, oi_market = SPOT, oi_pside = FLAT, oi_reduce_only = False, oi_meta = [] \<rparr>"

definition ex_fill :: "string \<Rightarrow> dec \<Rightarrow> dec \<Rightarrow> fill" where
  "ex_fill fid q p = \<lparr> f_id = fid, f_trade = None, f_order = ''o1'', f_client = None, f_exchange = None,
     f_symbol = ''BTCUSDT'', f_side = BUY, f_price = p, f_qty = q, f_fee = 0, f_fee_ccy = None,
     f_time = 5, f_payload = [] \<rparr>"

definition ex_ids :: "string \<Rightarrow> fill_ids" where
  "ex_ids s = \<lparr> fi_last = s @ ''l'', fi_event = s @ ''e'', fi_trade = s @ ''t'' \<rparr>"

definition ex_db_created :: om_db where
  "ex_db_created = fst (create_from_intent \<lparr> db_orders = [], db_events = [], db_fills = [] \<rparr>
     ''o1'' ''e1'' 1 ex_intent PAPER)"

definition ex_db_submitted :: om_db where
  "ex_db_submitted =
     (let d1 = fst (om_validate ex_db_created ''e2'' 2 ''o1'');
          d2 = fst (om_submitting d1 ''e3'' 3 ''o1'') in fst (om_submitted d2 ''e4'' 4 ''o1''))"

definition ex_db_filled :: om_db where
  "ex_db_filled = fst (apply_fill ex_db_submitted (ex_ids ''a'') (ex_fill ''f1'' 1 100))"

lemma ex_db_submitted_reach: "om_reach ex_db_submitted"
proof -
  have c: "om_reach ex_db_created"
    unfolding ex_db_created_def by (rule om_reach.create [OF om_reach.empty]) (simp add: ex_intent_def)
  show ?thesis
    unfolding ex_db_submitted_def Let_def om_submitted_def om_submitting_def om_validate_def
    by (intro om_reach.transition c)
qed

lemma ex_db_filled_reach: "om_reach ex_db_filled"
  unfolding ex_db_filled_def
  by (rule om_reach.fill [OF ex_db_submitted_reach]) (simp add: ex_fill_def)

theorem order_tables_invariant_witness:
  "length (db_fills ex_db_filled) = 1 \<and> map o_filled (db_orders ex_db_filled) = [1]
   \<and> distinct (map o_id (db_orders ex_db_filled)) \<and> distinct (map f_id (db_fills ex_db_filled))"
proof -
  have "length (db_fills ex_db_filled) = 1" "map o_filled (db_orders ex_db_filled) = [1]" by code_simp+
  then show ?thesis using order_tables_invariant [OF ex_db_filled_reach] by blast
qed

theorem fills_settled_once_witness:
  "snd (deliver_fills [(ex_ids ''a'', ex_fill ''f1'' 1 100), (ex_ids ''b'', ex_fill ''f1'' 1 100)] ex_db_submitted)
     = [''f1''] \<and> distinct [''f1'']"
proof -
  let ?xs = "[(ex_ids ''a'', ex_fill ''f1'' 1 100), (ex_ids ''b'', ex_fill ''f1'' 1 100)]"
  have s: "snd (deliver_fills ?xs ex_db_submitted) = [''f1'']" by code_simp
  then obtain d where "deliver_fills ?xs ex_db_submitted = (d, [''f1''])"
    by (cases "deliver_fills ?xs ex_db_submitted") simp
  from fills_settled_once [OF this] s show ?thesis by blast
qed

theorem fill_race_once_witness:
  "\<exists>ex ord'. apply_fill_at ex_db_submitted ex_db_filled (ex_ids ''b'') (ex_fill ''f1'' 1 100)
     = (ex_db_filled, ret ((ord', ex), False))"
proof -
  obtain ord t where "fill_target ex_db_submitted (ex_fill ''f1'' 1 100) = Some ord"
    "osm_transition (o_status ord) (fill_event_type ord (ex_fill ''f1'' 1 100)) = ret t"
    "dadd (o_filled ord) (f_qty (ex_fill ''f1'' 1 100)) \<le> o_qty ord"
  proof -
    have "(case fill_target ex_db_submitted (ex_fill ''f1'' 1 100) of None \<Rightarrow> False | Some ord \<Rightarrow>
        (case osm_transition (o_status ord) (fill_event_type ord (ex_fill ''f1'' 1 100)) of Inl e \<Rightarrow> False
         | Inr t \<Rightarrow> dadd (o_filled ord) (f_qty (ex_fill ''f1'' 1 100)) \<le> o_qty ord))" by code_simp
    then show ?thesis using that by (auto split: option.splits sum.splits)
  qed
  note t = this
  have g: "get_fill ex_db_submitted (f_id (ex_fill ''f1'' 1 100)) = None" by code_simp
  have "map f_id (db_fills ex_db_filled) = [f_id (ex_fill ''f1'' 1 100)]" by code_simp
  then obtain ex where ex: "ex \<in> set (db_fills ex_db_filled)" "f_id ex = f_id (ex_fill ''f1'' 1 100)"
    by auto
  show ?thesis
    using fill_race_once [OF om_reach_ok [OF ex_db_filled_reach] ex g t(1,3,2)] by blast
qed

subsection \<open>What an applied fill does\<close>

text \<open>A fill that is applied adds its quantity to the order, never beyond the ordered
  quantity; the order is \<open>FILLED\<close> exactly when all of it is filled and \<open>PARTIALLY_FILLED\<close>
  otherwise; and the order that is returned is the stored one.\<close>

theorem applied_fill_effect:
  assumes "om_ok db" and "apply_fill db ids f = (db', ret ((ord', f'), True))"
  shows "\<exists>ord. fill_target db f = Some ord \<and> get_order db' (o_id ord) = Some ord'
    \<and> o_filled ord' = dadd (o_filled ord) (f_qty f) \<and> o_filled ord' \<le> o_qty ord'
    \<and> o_status ord' = (if o_filled ord' = o_qty ord' then FILLED else PARTIALLY_FILLED)
    \<and> o_avg ord' = Some (fill_avg ord f)"
  using assms(2) unfolding apply_fill_def
proof (cases rule: apply_fill_cases)
  case (applied ord t o2)
  have o2: "o2 = ord'" "f' = f" using applied(8) by simp_all
  have mem: "ord \<in> set (db_orders db)" by (rule fill_target_mem [OF applied(2)])
  have "get_order db (o_id ord) = Some ord"
    unfolding get_order_def find_Some_iff_distinct [OF om_okD(1) [OF assms(1)]] using mem by simp
  then have g: "get_order db' (o_id ord) = Some ord'"
    unfolding applied(7) using applied(5) by (simp add: get_order_put o2)
  have e: "e \<in> {ORDER_FILLED, ORDER_PARTIALLY_FILLED} \<Longrightarrow> osm_transition s e = Inr t \<Longrightarrow>
      tr_new_status t = (if e = ORDER_FILLED then FILLED else PARTIALLY_FILLED)" for s e
    by (cases s) (auto simp: table_defs split: if_splits)
  have "tr_new_status t = (if dadd (o_filled ord) (f_qty f) = o_qty ord then FILLED else PARTIALLY_FILLED)"
    using e [OF _ applied(4)] by (simp add: fill_event_type_def split: if_splits)
  then show ?thesis
    using applied(2,3,5) g by (intro exI [of _ ord]) (simp add: o2, simp add: fill_order_def)
qed blast

lemma fill_result_cases:
  "(case X of (d, Inr ((r, f), n)) \<Rightarrow> P d r f n | _ \<Rightarrow> False) \<Longrightarrow> \<exists>d r f n. X = (d, Inr ((r, f), n)) \<and> P d r f n"
  by (auto split: prod.splits sum.splits)

theorem applied_fill_effect_witness:
  "\<exists>db' ord'. apply_fill ex_db_filled (ex_ids ''b'') (ex_fill ''f2'' 1 102) = (db', ret ((ord', ex_fill ''f2'' 1 102), True))
     \<and> o_status ord' = FILLED \<and> o_avg ord' = Some 101
     \<and> (\<exists>ord. fill_target ex_db_filled (ex_fill ''f2'' 1 102) = Some ord \<and> o_avg ord' = Some (fill_avg ord (ex_fill ''f2'' 1 102)))"
proof -
  have "(case apply_fill ex_db_filled (ex_ids ''b'') (ex_fill ''f2'' 1 102) of
      (db', Inr ((ord', f'), n)) \<Rightarrow> n \<and> f' = ex_fill ''f2'' 1 102 \<and> o_status ord' = FILLED \<and> o_avg ord' = Some 101
    | _ \<Rightarrow> False)" by code_simp
  from fill_result_cases [OF this] obtain db' ord' where
    a: "apply_fill ex_db_filled (ex_ids ''b'') (ex_fill ''f2'' 1 102) = (db', ret ((ord', ex_fill ''f2'' 1 102), True))"
    "o_status ord' = FILLED" "o_avg ord' = Some 101"
    by metis
  from applied_fill_effect [OF om_reach_ok [OF ex_db_filled_reach] a(1)] a show ?thesis by blast
qed

subsection \<open>Creating twice\<close>

lemma find_append_None: "List.find P xs = None \<Longrightarrow> List.find P (xs @ ys) = List.find P ys"
  by (induction xs) (auto split: if_splits)

lemma created_order_found:
  assumes "create_from_intent db oid eid now i mode = (db', ret r)" and "get_by_client db (oi_client i) = None"
  shows "get_by_client db' (oi_client i) = Some r \<and> r = order_of_intent oid now i mode"
proof -
  have d: "db' = db\<lparr>db_orders := db_orders db @ [order_of_intent oid now i mode], db_events := db_events db' \<rparr>"
    and r: "r = order_of_intent oid now i mode"
    using assms unfolding create_from_intent_def create_from_intent_at_def Let_def
    by (auto split: if_splits)
  have "db_orders db' = db_orders db @ [order_of_intent oid now i mode]" by (subst d) simp
  then show ?thesis using assms(2) r
    by (simp add: get_by_client_def find_append_None, simp add: order_of_intent_def)
qed

text \<open>Sending the same intent again, one after the other, returns the order that exists and
  writes nothing; a different order under the same client id is an \<open>IdempotencyConflict\<close>.\<close>

theorem create_idempotent:
  assumes "create_from_intent db oid eid now i mode = (db', ret r)" and "get_by_client db (oi_client i) = None"
    and "oi_client i' = oi_client i"
  shows "create_from_intent db' oid' eid' now' i' mode' =
    (db', if oi_symbol i' = oi_symbol i \<and> oi_side i' = oi_side i \<and> oi_type i' = oi_type i
             \<and> dec_or (oi_price i') 0 = dec_or (oi_price i) 0 \<and> oi_qty i' = oi_qty i
          then ret r else raise IdempotencyConflict)"
proof -
  have c: "get_by_client db' (oi_client i') = Some r" and r: "r = order_of_intent oid now i mode"
    using created_order_found [OF assms(1,2)] assms(3) by simp_all
  have "reuse_or_conflict r i' =
    (if oi_symbol i' = oi_symbol i \<and> oi_side i' = oi_side i \<and> oi_type i' = oi_type i
        \<and> dec_or (oi_price i') 0 = dec_or (oi_price i) 0 \<and> oi_qty i' = oi_qty i
     then ret r else raise IdempotencyConflict)"
    unfolding reuse_or_conflict_def r by (auto simp: order_of_intent_def)
  then show ?thesis unfolding create_from_intent_def create_from_intent_at_def c by simp
qed

theorem create_idempotent_witness:
  "create_from_intent ex_db_created ''o2'' ''e9'' 9 ex_intent PAPER
     = (ex_db_created, ret (order_of_intent ''o1'' 1 ex_intent PAPER))
   \<and> create_from_intent ex_db_created ''o2'' ''e9'' 9 (ex_intent\<lparr>oi_qty := 3\<rparr>) PAPER
     = (ex_db_created, raise IdempotencyConflict)"
proof -
  let ?e = "\<lparr> db_orders = [], db_events = [], db_fills = [] \<rparr>"
  have a: "create_from_intent ?e ''o1'' ''e1'' 1 ex_intent PAPER
      = (ex_db_created, ret (order_of_intent ''o1'' 1 ex_intent PAPER))"
    by (simp add: ex_db_created_def create_from_intent_def create_from_intent_at_def get_by_client_def get_order_def Let_def)
  have n: "get_by_client ?e (oi_client ex_intent) = None" by (simp add: get_by_client_def)
  show ?thesis
    using create_idempotent [OF a n, of ex_intent "''o2''" "''e9''" 9 PAPER]
      create_idempotent [OF a n, of "ex_intent\<lparr>oi_qty := 3\<rparr>" "''o2''" "''e9''" 9 PAPER]
    by (simp add: ex_intent_def)
qed

text \<open>When two creations with the same client id race, the one that commits second raises
  \<open>IntegrityError\<close>, whatever it asked for: the row is flushed outside the block that
  handles the error, so the order that exists is never returned.\<close>

theorem create_race_raises:
  assumes "get_by_client r (oi_client i) = None" and "get_by_client w (oi_client i) = Some ex"
  shows "create_from_intent_at r w oid eid now i mode = (w, raise IntegrityError)"
  using assms by (simp add: create_from_intent_at_def Let_def)

theorem create_race_raises_witness:
  "create_from_intent_at \<lparr> db_orders = [], db_events = [], db_fills = [] \<rparr> ex_db_created ''o2'' ''e9'' 9 ex_intent PAPER
     = (ex_db_created, raise IntegrityError)"
proof (rule create_race_raises)
  show "get_by_client \<lparr> db_orders = [], db_events = [], db_fills = [] \<rparr> (oi_client ex_intent) = None"
    by (simp add: get_by_client_def)
  show "get_by_client ex_db_created (oi_client ex_intent) = Some (order_of_intent ''o1'' 1 ex_intent PAPER)"
    by code_simp
qed

text \<open>Two different fills of one order that race are both stored, but the order keeps only
  the quantity of the one that commits second: the filled quantity is less than the stored
  fills.\<close>

theorem fill_race_lost_update:
  "(case apply_fill_at ex_db_submitted ex_db_filled (ex_ids ''b'') (ex_fill ''f2'' (1 / 2) 100) of
      (db', Inr (r, n)) \<Rightarrow> n \<and> map f_id (db_fills db') = [''f1'', ''f2''] \<and> map o_filled (db_orders db') = [1 / 2]
        \<and> fills_total db' ''o1'' = 3 / 2
    | _ \<Rightarrow> False)"
  by code_simp

text \<open>An event identifier that was recorded before changes no table.\<close>

lemma repeated_event_unchanged:
  assumes "or_new (ea_event_id a) new \<in> oe_id ` set (db_events db)"
  shows "fst (om_transition db new now oid ety a) = db"
  using assms unfolding om_transition_def record_event_def Let_def
  by (auto split: option.split sum.split)

end
