(* ===== verification/Ledger.thy ===== *)
theory Ledger
  imports Domain "HOL-Library.Product_Lexorder" "HOL-Library.List_Lexorder" "HOL-Library.Char_ord"
    "HOL-Library.Multiset"
begin

text \<open>
  \<open>ledger/service.py\<close>: balanced journals, the journal of a spot trade, and the append-only
  ledger tables with their idempotent \<open>record\<close>. The lemmas show when a trade journal balances,
  that everything that is stored is balanced and never changed again, and what the
  idempotency key really covers.
\<close>

subsection \<open>Postings and journals\<close>

record posting =
  lp_account :: string
  lp_dir :: ledger_direction
  lp_amount :: dec
  lp_ccy :: string

definition side_total :: "ledger_direction \<Rightarrow> posting list \<Rightarrow> dec" where
  "side_total d ps = dsum (map lp_amount (filter (\<lambda>p. lp_dir p = d) ps))"

definition journal_balanced :: "posting list \<Rightarrow> bool" where
  "journal_balanced ps \<longleftrightarrow> side_total DEBIT ps = side_total CREDIT ps"

fun side_text :: "order_side \<Rightarrow> string" where
  "side_text BUY = ''BUY''"
| "side_text SELL = ''SELL''"

abbreviation post :: "string \<Rightarrow> ledger_direction \<Rightarrow> dec \<Rightarrow> string \<Rightarrow> posting" where
  "post a d x c \<equiv> \<lparr> lp_account = a, lp_dir = d, lp_amount = x, lp_ccy = c \<rparr>"

definition build_trade_entries ::
  "order_side \<Rightarrow> string \<Rightarrow> string \<Rightarrow> dec \<Rightarrow> dec \<Rightarrow> dec \<Rightarrow> dec option \<Rightarrow> (posting list \<times> meta) res" where
  "build_trade_entries side symbol ccy price qty fee cost_released =
     (let gross = dmul price qty;
          asset = ''POSITION_ASSET:'' @ symbol;
          m = [(''symbol'', JStr symbol), (''quote_currency'', JStr ccy), (''side'', JStr (side_text side)),
               (''quantity'', JDec qty), (''price'', JDec price), (''fee'', JDec fee)];
          (ps, md) =
            (case side of
               BUY \<Rightarrow>
                 ([post asset DEBIT gross ccy, post ''FEE_EXPENSE'' DEBIT fee ccy,
                   post ''CASH'' CREDIT (dadd gross fee) ccy],
                  m @ [(''gross_cost'', JDec gross)])
             | SELL \<Rightarrow>
                 (let cost = (case cost_released of Some c \<Rightarrow> c | None \<Rightarrow> 0);
                      realized = dsub gross cost
                  in ([post ''CASH'' DEBIT gross ccy, post asset CREDIT cost ccy] @
                      (if 0 < realized then [post ''REALIZED_PNL'' CREDIT realized ccy]
                       else if realized < 0 then [post ''REALIZED_PNL'' DEBIT (dneg realized) ccy] else []) @
                      [post ''FEE_EXPENSE'' DEBIT fee ccy, post ''CASH'' CREDIT fee ccy],
                      m @ [(''gross_proceeds'', JDec gross), (''cost_released'', JDec cost),
                           (''realized_pnl'', JDec realized)])))
      in if journal_balanced ps then ret (ps, md) else raise JournalUnbalanced)"

subsection \<open>The ledger tables\<close>

record ledger_tx =
  x_id :: string
  x_type :: ledger_entry_type
  x_created :: usec
  x_order :: "string option"
  x_fill :: "string option"
  x_event :: "string option"
  x_meta :: meta
  x_entries :: "ledger_entry list"

type_synonym ledger_db = "ledger_tx list"

definition matches :: "string option \<Rightarrow> string option \<Rightarrow> bool" where
  "matches arg column \<longleftrightarrow> \<not> truthy_str arg \<or> column = arg"

definition find_transaction :: "ledger_db \<Rightarrow> string option \<Rightarrow> string option \<Rightarrow> ledger_tx option" where
  "find_transaction db fid eid =
     (if \<not> truthy_str fid \<and> \<not> truthy_str eid then None
      else List.find (\<lambda>x. matches fid (x_fill x) \<and> matches eid (x_event x)) db)"

definition tx_to_domain :: "ledger_tx \<Rightarrow> ledger_transaction" where
  "tx_to_domain x =
     \<lparr> lt_id = x_id x, lt_type = x_type x, lt_created = x_created x, lt_meta = x_meta x,
       lt_entries = sort_key le_seq (x_entries x) \<rparr>"

record record_args =
  ra_tx :: "string option"
  ra_order :: "string option"
  ra_fill :: "string option"
  ra_event :: "string option"
  ra_meta :: meta
  ra_created :: "usec option"

definition no_record_args :: record_args where
  "no_record_args = \<lparr> ra_tx = None, ra_order = None, ra_fill = None, ra_event = None, ra_meta = [], ra_created = None \<rparr>"

definition entry_of :: "ledger_entry_type \<Rightarrow> string \<Rightarrow> usec \<Rightarrow> record_args \<Rightarrow> string \<Rightarrow> int \<Rightarrow> posting \<Rightarrow> ledger_entry" where
  "entry_of ty tid ts a eid seq p =
     \<lparr> le_id = eid, le_tx = tid, le_seq = seq, le_type = ty, le_account = lp_account p,
       le_dir = lp_dir p, le_amount = lp_amount p, le_ccy = lp_ccy p, le_created = ts,
       le_order = ra_order a, le_fill = ra_fill a, le_event = ra_event a, le_meta = [] \<rparr>"

fun number_entries :: "(string \<Rightarrow> int \<Rightarrow> posting \<Rightarrow> ledger_entry) \<Rightarrow> (nat \<Rightarrow> string) \<Rightarrow> nat \<Rightarrow> posting list \<Rightarrow> ledger_entry list" where
  "number_entries mk ids k [] = []"
| "number_entries mk ids k (p # ps) = mk (ids k) (int k) p # number_entries mk ids (Suc k) ps"

definition all_entry_ids :: "ledger_db \<Rightarrow> string set" where
  "all_entry_ids db = (\<Union>x \<in> set db. le_id ` set (x_entries x))"

text \<open>
  \<open>record\<close>: \<open>new\<close> is the transaction id that is generated when none is given, \<open>ids\<close> generates the
  entry ids. The result carries the entries under the id \<open>pending\<close>, as the code returns them.
\<close>

definition ledger_record ::
  "ledger_db \<Rightarrow> string \<Rightarrow> (nat \<Rightarrow> string) \<Rightarrow> usec \<Rightarrow> ledger_entry_type \<Rightarrow> posting list \<Rightarrow> record_args
     \<Rightarrow> ledger_db \<times> ledger_transaction res" where
  "ledger_record db new ids now ty ps a =
     (case find_transaction db (ra_fill a) (ra_event a) of
        Some x \<Rightarrow> (db, ret (tx_to_domain x))
      | None \<Rightarrow>
          if ps = [] then (db, raise JournalUnbalanced)
          else if \<not> journal_balanced ps then (db, raise JournalUnbalanced)
          else
            (let tid = (case ra_tx a of Some t \<Rightarrow> (if t \<noteq> [] then t else new) | None \<Rightarrow> new);
                 ts = (case ra_created a of Some t \<Rightarrow> t | None \<Rightarrow> now);
                 es = number_entries (entry_of ty tid ts a) ids 1 ps;
                 x = \<lparr> x_id = tid, x_type = ty, x_created = ts, x_order = ra_order a, x_fill = ra_fill a,
                       x_event = ra_event a, x_meta = ra_meta a, x_entries = es \<rparr>
             in if tid \<in> x_id ` set db \<or> \<not> distinct (map le_id es) \<or> le_id ` set es \<inter> all_entry_ids db \<noteq> {}
                then (db, raise IntegrityError)
                else (db @ [x], ret \<lparr> lt_id = tid, lt_type = ty, lt_created = ts, lt_meta = ra_meta a,
                        lt_entries = number_entries (entry_of ty tid ts a) (\<lambda>_. ''pending'') 1 ps \<rparr>)))"

definition list_transactions :: "ledger_db \<Rightarrow> ledger_tx list" where
  "list_transactions db = sort_key (\<lambda>x. (x_created x, x_id x)) db"

definition list_entries_recent :: "ledger_db \<Rightarrow> nat \<Rightarrow> ledger_entry list" where
  "list_entries_recent db n = take n (rev (concat (map x_entries db)))"

subsection \<open>When a trade journal balances\<close>

lemma side_total_simps [simp]:
  "side_total d [] = 0"
  "dsum [] = 0"
  by (simp_all add: side_total_def)

lemma dsum_1: "dsum [a] = dround a"
  by (simp add: dsum_def)

lemma dsum_2: "dsum [a, b] = dadd (dround a) b"
  by (simp add: dsum_def)

lemma dsum_3: "dsum [a, b, c] = dadd (dadd (dround a) b) c"
  by (simp add: dsum_def)

text \<open>A buy is balanced by construction: both sides compute the same rounded sum.\<close>

lemma build_buy_balanced:
  "\<exists>ps md. build_trade_entries BUY symbol ccy price qty fee c = ret (ps, md) \<and> journal_balanced ps"
  by (simp add: build_trade_entries_def journal_balanced_def side_total_def dsum_1 dsum_2 Let_def)

text \<open>
  Exact amounts: kept to \<open>k\<close> decimals and bounded, so that sums of a few of them do not round.
\<close>

definition exact_amount :: "nat \<Rightarrow> dec \<Rightarrow> bool" where
  "exact_amount k x \<longleftrightarrow> places k x \<and> \<bar>x\<bar> \<le> 10 ^ 27 / 10 ^ k"

lemma exact_amountD: "exact_amount k x \<Longrightarrow> places k x" "exact_amount k x \<Longrightarrow> \<bar>x\<bar> \<le> 10 ^ 27 / 10 ^ k"
  by (simp_all add: exact_amount_def)

lemma places_sum_list: "\<forall>x \<in> set xs. places k x \<Longrightarrow> places k (sum_list xs)"
  by (induction xs) (auto intro: places_add)

lemma abs_sum_list_le: "\<bar>sum_list xs\<bar> \<le> sum_list (map abs xs)" for xs :: "rat list"
  by (induction xs) auto

lemma dsum_exact:
  "\<forall>x \<in> set xs. places k x \<Longrightarrow> sum_list (map abs xs) \<le> 10 ^ 28 / 10 ^ k \<Longrightarrow> dsum xs = sum_list xs"
proof (induction xs rule: rev_induct)
  case (snoc x xs)
  have "\<bar>x\<bar> \<ge> 0" by simp
  with snoc.prems(2) have s: "sum_list (map abs xs) \<le> 10 ^ 28 / 10 ^ k" by simp
  then have "dsum (xs @ [x]) = dadd (sum_list xs) x" using snoc by (simp add: dsum_snoc)
  also have "\<dots> = sum_list xs + x"
    unfolding dadd_def
  proof (rule dround_places)
    show "places k (sum_list xs + x)" using snoc.prems(1) by (simp add: places_add places_sum_list)
    show "\<bar>sum_list xs + x\<bar> \<le> 10 ^ 28 / 10 ^ k"
      using abs_sum_list_le [of "xs @ [x]"] snoc.prems(2) by simp
  qed
  finally show ?case by simp
qed simp

lemma ten_exact: "10 * (10 ^ 27 / 10 ^ k) = (10 ^ 28 / 10 ^ k :: rat)"
  by simp

lemma exact_few:
  assumes "list_all (exact_amount k) xs" and "length xs \<le> 10"
  shows "dsum xs = sum_list xs"
proof (rule dsum_exact)
  show "\<forall>x \<in> set xs. places k x" using assms by (auto simp: list_all_iff exact_amount_def)
  have "sum_list (map abs xs) \<le> of_nat (length xs) * (10 ^ 27 / 10 ^ k)"
    using assms(1)
  proof (induction xs)
    case (Cons x xs)
    then show ?case using exact_amountD(2) [of k x] by (simp add: distrib_right del: times_divide_eq_right)
  qed simp
  also have "\<dots> \<le> 10 * (10 ^ 27 / 10 ^ k)" using assms(2) by (intro mult_right_mono) simp_all
  finally show "sum_list (map abs xs) \<le> 10 ^ 28 / 10 ^ k" unfolding ten_exact .
qed

lemma exact_dround: "exact_amount k x \<Longrightarrow> dround x = x"
  using exact_few [of k "[x]"] by (simp add: dsum_1)

lemma exact_dadd: "exact_amount k x \<Longrightarrow> exact_amount k y \<Longrightarrow> dadd x y = x + y"
  using exact_few [of k "[x, y]"] by (simp add: dsum_2 exact_dround)

lemma exact_amount_uminus: "exact_amount k (- x) = exact_amount k x"
  by (auto simp: exact_amount_def places_def)

lemma exact_dneg: "exact_amount k x \<Longrightarrow> dneg x = - x"
  unfolding dneg_def by (rule exact_dround [of k]) (simp add: exact_amount_uminus)

lemma exact_dsub: "exact_amount k x \<Longrightarrow> exact_amount k y \<Longrightarrow> dsub x y = x - y"
  using exact_dadd [of k x "- y"] by (simp add: dsub_def dadd_def exact_amount_uminus)

text \<open>Rounding never turns a positive amount into zero.\<close>

lemma dround_pos:
  assumes "0 < x"
  shows "0 < dround x"
proof -
  define y :: rat where "y = 10 powi (mag_exp 10 x)"
  have "y \<le> x" using mag_exp_bounds(1) [of 10 x] assms by (simp add: y_def)
  moreover have "dround y = y" by (rule dround_exact [of _ 1 "mag_exp 10 x"]) (simp_all add: y_def)
  ultimately have "y \<le> dround x" using dec.fixed_le_rnd by blast
  moreover have "0 < y" by (simp add: y_def)
  ultimately show ?thesis by linarith
qed

lemma dround_eq_0_iff [simp]: "dround x = 0 \<longleftrightarrow> x = 0"
  using dround_pos [of x] dround_pos [of "- x"] by (cases "0::rat" x rule: linorder_cases) (auto simp: dec.rnd_uminus)

text \<open>A sell is balanced when its amounts are exact.\<close>

lemma build_sell_balanced:
  assumes "exact_amount k (dmul price qty)" "exact_amount k c" "exact_amount k (dmul price qty - c)" "exact_amount k fee"
  shows "\<exists>ps md. build_trade_entries SELL symbol ccy price qty fee (Some c) = ret (ps, md) \<and> journal_balanced ps"
proof -
  define g where "g = dmul price qty"
  have r: "dsub g c = g - c" "dneg (g - c) = c - g"
    using assms exact_dsub exact_dneg unfolding g_def by fastforce+
  have d: "dround g = g" "dround c = c"
    "dsum [c, g - c, fee] = c + (g - c) + fee" "dsum [g, fee] = g + fee"
    "dsum [g, c - g, fee] = g + (c - g) + fee" "dsum [c, fee] = c + fee"
    using assms exact_few [of k] exact_dround exact_amount_uminus [of k "g - c"] by (simp_all add: g_def)
  show ?thesis
    unfolding build_trade_entries_def Let_def g_def [symmetric]
    by (auto simp: journal_balanced_def side_total_def r d not_less)
qed

subsection \<open>What is stored\<close>

definition tx_postings :: "ledger_tx \<Rightarrow> posting list" where
  "tx_postings x = map (\<lambda>e. post (le_account e) (le_dir e) (le_amount e) (le_ccy e)) (x_entries x)"

definition tx_ok :: "ledger_tx \<Rightarrow> bool" where
  "tx_ok x \<longleftrightarrow> x_entries x \<noteq> [] \<and> journal_balanced (tx_postings x)
     \<and> map le_seq (x_entries x) = map int [1 ..< Suc (length (x_entries x))]"

definition ledger_ok :: "ledger_db \<Rightarrow> bool" where
  "ledger_ok db \<longleftrightarrow> distinct (map x_id db) \<and> list_all tx_ok db"

lemma number_entries_length [simp]: "length (number_entries mk ids k ps) = length ps"
  by (induction ps arbitrary: k) simp_all

lemma number_entries_postings:
  "map (\<lambda>e. post (le_account e) (le_dir e) (le_amount e) (le_ccy e))
     (number_entries (entry_of ty tid ts a) ids k ps) = ps"
  by (induction ps arbitrary: k) (simp_all add: entry_of_def)

lemma number_entries_seq:
  "map le_seq (number_entries (entry_of ty tid ts a) ids k ps) = map int [k ..< k + length ps]"
proof (induction ps arbitrary: k)
  case (Cons p ps)
  then show ?case by (simp add: entry_of_def upt_conv_Cons del: upt_Suc)
qed simp

lemma number_entries_Nil [simp]: "number_entries mk ids k ps = [] \<longleftrightarrow> ps = []"
  by (cases ps) simp_all

lemma ledger_record_cases:
  assumes "ledger_record db new ids now ty ps a = (db', res)"
  obtains (unchanged) "db' = db"
  | (stored) x where "db' = db @ [x]" "tx_ok x" "x_id x \<notin> x_id ` set db" "x_fill x = ra_fill a"
      "x_event x = ra_event a" "x_meta x = ra_meta a" "x_type x = ty" "tx_postings x = ps"
      "find_transaction db (ra_fill a) (ra_event a) = None" "\<exists>t. res = ret t"
proof (cases "find_transaction db (ra_fill a) (ra_event a) = None \<and> ps \<noteq> [] \<and> journal_balanced ps")
  case True
  define tid where "tid = (case ra_tx a of Some t \<Rightarrow> (if t \<noteq> [] then t else new) | None \<Rightarrow> new)"
  define ts where "ts = (case ra_created a of Some t \<Rightarrow> t | None \<Rightarrow> now)"
  define es where "es = number_entries (entry_of ty tid ts a) ids 1 ps"
  define x where "x = \<lparr> x_id = tid, x_type = ty, x_created = ts, x_order = ra_order a, x_fill = ra_fill a,
                       x_event = ra_event a, x_meta = ra_meta a, x_entries = es \<rparr>"
  have ok: "tx_ok x" "tx_postings x = ps"
    using True number_entries_postings [of ty tid ts a ids 1 ps] number_entries_seq [of ty tid ts a ids 1 ps]
    by (auto simp: tx_ok_def tx_postings_def x_def es_def simp del: upt_Suc)
  show ?thesis
  proof (cases "tid \<in> x_id ` set db \<or> \<not> distinct (map le_id es) \<or> le_id ` set es \<inter> all_entry_ids db \<noteq> {}")
    case True
    with \<open>_ \<and> _ \<and> _\<close> assms unchanged show ?thesis
      by (simp add: ledger_record_def Let_def tid_def es_def ts_def)
  next
    case False
    with \<open>_ \<and> _ \<and> _\<close> assms have "db' = db @ [x]" "\<exists>t. res = ret t"
      by (auto simp: ledger_record_def Let_def tid_def es_def ts_def x_def)
    moreover have "x_id x \<notin> x_id ` set db" using False by (simp add: x_def)
    ultimately show ?thesis using True by (intro stored [of x]) (simp_all add: ok, simp_all add: x_def)
  qed
next
  case False
  then show ?thesis using assms unchanged
    by (auto simp: ledger_record_def split: option.splits if_splits)
qed

lemma ledger_record_ok: "ledger_record db new ids now ty ps a = (db', res) \<Longrightarrow> ledger_ok db \<Longrightarrow> ledger_ok db'"
  by (erule ledger_record_cases) (auto simp: ledger_ok_def)

inductive ledger_reach :: "ledger_db \<Rightarrow> bool" where
  empty: "ledger_reach []"
| recorded: "ledger_reach db \<Longrightarrow> ledger_record db new ids now ty ps a = (db', res) \<Longrightarrow> ledger_reach db'"

lemma ledger_reach_ok: "ledger_reach db \<Longrightarrow> ledger_ok db"
proof (induction rule: ledger_reach.induct)
  case empty
  then show ?case by (simp add: ledger_ok_def)
qed (blast intro: ledger_record_ok)

text \<open>C11: every transaction in a reachable ledger is a non-empty balanced journal with its
  entries numbered from one, no id occurs twice, and recording only ever appends.\<close>

theorem ledger_append_only_balanced:
  assumes "ledger_reach db" and "ledger_record db new ids now ty ps a = (db', res)"
  shows "distinct (map x_id db') \<and> list_all (\<lambda>x. x_entries x \<noteq> [] \<and> journal_balanced (tx_postings x)
      \<and> map le_seq (x_entries x) = map int [1 ..< Suc (length (x_entries x))]) db'
    \<and> take (length db) db' = db"
proof -
  have "ledger_ok db'" using ledger_reach_ok ledger_reach.recorded [OF assms] by blast
  moreover have "take (length db) db' = db" using assms(2) by (cases rule: ledger_record_cases) simp_all
  moreover have "tx_ok = (\<lambda>x. x_entries x \<noteq> [] \<and> journal_balanced (tx_postings x)
      \<and> map le_seq (x_entries x) = map int [1 ..< Suc (length (x_entries x))])"
    by (auto simp: fun_eq_iff tx_ok_def)
  ultimately show ?thesis by (simp add: ledger_ok_def)
qed

definition ex_deposit :: "string \<Rightarrow> dec \<Rightarrow> posting list" where
  "ex_deposit c x = [post ''CASH'' DEBIT x c, post ''EQUITY'' CREDIT x c]"

definition ex_ids_from :: "string \<Rightarrow> nat \<Rightarrow> string" where
  "ex_ids_from s n = s @ replicate n CHR ''i''"

theorem ledger_append_only_balanced_witness:
  "\<exists>db' res. ledger_record [] ''t1'' (ex_ids_from ''a'') 1 DEPOSIT (ex_deposit ''USDT'' 100) no_record_args = (db', res)
     \<and> length db' = 1 \<and> distinct (map x_id db')"
proof -
  have l: "length (fst (ledger_record [] ''t1'' (ex_ids_from ''a'') 1 DEPOSIT (ex_deposit ''USDT'' 100) no_record_args)) = 1"
    by code_simp
  obtain db' res where r: "ledger_record [] ''t1'' (ex_ids_from ''a'') 1 DEPOSIT (ex_deposit ''USDT'' 100) no_record_args = (db', res)"
    by (cases "ledger_record [] ''t1'' (ex_ids_from ''a'') 1 DEPOSIT (ex_deposit ''USDT'' 100) no_record_args")
  from ledger_append_only_balanced [OF ledger_reach.empty r] l r show ?thesis by auto
qed

subsection \<open>The idempotency key\<close>

lemma find_transaction_stored:
  assumes "find_transaction db f e = None" and "truthy_str f \<or> truthy_str e"
    and "x_fill x = f" "x_event x = e"
  shows "find_transaction (db @ [x]) f e = Some x"
proof -
  have "List.find P (db @ [x]) = Some x" if "List.find P db = None" "P x" for P
    using that by (induction db) (auto split: if_splits)
  then show ?thesis using assms by (auto simp: find_transaction_def matches_def)
qed

text \<open>Recording again with the same fill id and the same event id writes nothing and
  returns the stored transaction, whatever its other arguments.\<close>

theorem ledger_record_idempotent:
  assumes "ledger_record db new ids now ty ps a = (db', ret t)"
    and "truthy_str (ra_fill a) \<or> truthy_str (ra_event a)"
    and "ra_fill a' = ra_fill a" "ra_event a' = ra_event a"
  shows "\<exists>x. find_transaction db' (ra_fill a) (ra_event a) = Some x
    \<and> ledger_record db' new' ids' now' ty' ps' a' = (db', ret (tx_to_domain x))"
proof -
  have "\<exists>x. find_transaction db' (ra_fill a) (ra_event a) = Some x"
    using assms(1)
  proof (cases rule: ledger_record_cases)
    case unchanged
    then show ?thesis using assms(1) by (auto simp: ledger_record_def Let_def split: option.splits if_splits)
  next
    case (stored x)
    then show ?thesis using find_transaction_stored [OF stored(9) assms(2) stored(4,5)] by simp
  qed
  then show ?thesis using assms(3,4) by (auto simp: ledger_record_def)
qed

theorem ledger_record_idempotent_witness:
  "let a = no_record_args\<lparr>ra_fill := Some ''f1''\<rparr>;
       db = fst (ledger_record [] ''t1'' (ex_ids_from ''a'') 1 DEPOSIT (ex_deposit ''USDT'' 100) a)
   in fst (ledger_record db ''t2'' (ex_ids_from ''b'') 2 DEPOSIT (ex_deposit ''USDT'' 5) a) = db \<and> length db = 1"
proof -
  let ?a = "no_record_args\<lparr>ra_fill := Some ''f1''\<rparr>"
  let ?r = "ledger_record [] ''t1'' (ex_ids_from ''a'') 1 DEPOSIT (ex_deposit ''USDT'' 100) ?a"
  have l: "length (fst ?r) = 1" "(case snd ?r of Inl _ \<Rightarrow> False | Inr _ \<Rightarrow> True)" by code_simp+
  then obtain db t where r: "?r = (db, ret t)" by (cases ?r) (auto split: sum.splits)
  have "truthy_str (ra_fill ?a) \<or> truthy_str (ra_event ?a)" by (simp add: truthy_str_def)
  from ledger_record_idempotent [OF r this refl refl, of "''t2''" "ex_ids_from ''b''" 2 DEPOSIT "ex_deposit ''USDT'' 5"]
  show ?thesis using r l by auto
qed

text \<open>The lookup requires the fill id and the event id to match together, so a retry of a
  fill under a new event id is not recognised: the fill is recorded a second time.\<close>

theorem fill_recorded_twice:
  assumes "ledger_ok db" and "journal_balanced ps" "ps \<noteq> []"
    and "truthy_str (ra_event a)" "ra_event a \<notin> x_event ` set db"
    and "truthy_str (ra_fill a)" "ra_fill a \<in> x_fill ` set db"
    and "ra_tx a = None" "new \<notin> x_id ` set db"
    and "distinct (map ids [1 ..< Suc (length ps)])" "ids ` {1 ..< Suc (length ps)} \<inter> all_entry_ids db = {}"
  shows "\<exists>x t. ledger_record db new ids now ty ps a = (db @ [x], ret t) \<and> x_fill x = ra_fill a
    \<and> tx_postings x = ps"
proof -
  have "\<forall>x \<in> set db. x_event x \<noteq> ra_event a" using assms(5) by (metis imageI)
  then have f: "find_transaction db (ra_fill a) (ra_event a) = None"
    using assms(4) by (auto simp: find_transaction_def matches_def find_None_iff)
  have ids: "map le_id (number_entries (entry_of ty tid ts a) ids k qs) = map ids [k ..< k + length qs]" for tid ts k qs
  proof (induction qs arbitrary: k)
    case (Cons q qs)
    then show ?case by (simp add: entry_of_def upt_conv_Cons del: upt_Suc)
  qed simp
  have i1: "map le_id (number_entries (entry_of ty tid ts a) ids 1 ps) = map ids [1 ..< Suc (length ps)]" for tid ts
    using ids [of tid ts 1 ps] by simp
  have "le_id ` set (number_entries (entry_of ty tid ts a) ids 1 ps) = ids ` {1 ..< Suc (length ps)}" for tid ts
    by (simp only: list.set_map [symmetric] i1) (simp del: upt_Suc)
  then have "\<exists>x t. ledger_record db new ids now ty ps a = (db @ [x], ret t)"
    using assms(2,3,8-11) f i1 by (simp add: ledger_record_def Let_def del: upt_Suc)
  then obtain x t where r: "ledger_record db new ids now ty ps a = (db @ [x], ret t)" by blast
  then have "x_fill x = ra_fill a \<and> tx_postings x = ps"
    by (cases rule: ledger_record_cases) simp_all
  with r show ?thesis by blast
qed

theorem fill_recorded_twice_witness:
  "let db = fst (ledger_record [] ''t1'' (ex_ids_from ''a'') 1 TRADE (ex_deposit ''USDT'' 100)
                   (no_record_args\<lparr>ra_fill := Some ''f1'', ra_event := Some ''e1''\<rparr>))
   in map x_fill db = [Some ''f1''] \<and>
      (\<exists>x t. ledger_record db ''t2'' (ex_ids_from ''b'') 2 TRADE (ex_deposit ''USDT'' 100)
               (no_record_args\<lparr>ra_fill := Some ''f1'', ra_event := Some ''e2''\<rparr>) = (db @ [x], ret t)
             \<and> x_fill x = Some ''f1'')"
proof -
  let ?a = "no_record_args\<lparr>ra_fill := Some ''f1'', ra_event := Some ''e1''\<rparr>"
  let ?b = "no_record_args\<lparr>ra_fill := Some ''f1'', ra_event := Some ''e2''\<rparr>"
  let ?ps = "ex_deposit ''USDT'' 100"
  define db where "db = fst (ledger_record [] ''t1'' (ex_ids_from ''a'') 1 TRADE ?ps ?a)"
  have ids: "map le_id (concat (map x_entries db)) = [''ai'', ''aii'']" "map x_fill db = [Some ''f1'']"
    "map x_event db = [Some ''e1'']" "map x_id db = [''t1'']" "journal_balanced ?ps"
    "map (ex_ids_from ''b'') [1 ..< Suc (length ?ps)] = [''bi'', ''bii'']"
    unfolding db_def by code_simp+
  obtain r where r: "ledger_record [] ''t1'' (ex_ids_from ''a'') 1 TRADE ?ps ?a = (db, r)"
    unfolding db_def by (metis prod.collapse)
  have ok: "ledger_ok db"
    by (rule ledger_reach_ok [OF ledger_reach.recorded [OF ledger_reach.empty r]])
  have sets: "x_event ` set db = {Some ''e1''}" "x_fill ` set db = {Some ''f1''}" "x_id ` set db = {''t1''}"
    using ids(2-4) by (simp_all flip: list.set_map)
  have "all_entry_ids db = set (map le_id (concat (map x_entries db)))"
    by (auto simp: all_entry_ids_def)
  then have e: "all_entry_ids db = {''ai'', ''aii''}" by (simp only: ids list.set)
  have b: "ex_ids_from ''b'' ` {1 ..< Suc (length ?ps)} = {''bi'', ''bii''}"
    using arg_cong [OF ids(6), of set] by (simp only: list.set_map set_upt list.set)
  have d: "distinct (map (ex_ids_from ''b'') [1 ..< Suc (length ?ps)])"
    "ex_ids_from ''b'' ` {1 ..< Suc (length ?ps)} \<inter> all_entry_ids db = {}"
    unfolding ids(6) b e by simp_all
  have a: "ra_event ?b = Some ''e2''" "ra_fill ?b = Some ''f1''" "ra_tx ?b = None"
    by (simp_all add: no_record_args_def)
  have "\<exists>x t. ledger_record db ''t2'' (ex_ids_from ''b'') 2 TRADE ?ps ?b = (db @ [x], ret t)
      \<and> x_fill x = ra_fill ?b \<and> tx_postings x = ?ps"
  proof (rule fill_recorded_twice [OF ok ids(5) _ _ _ _ _ a(3) _ d])
    show "?ps \<noteq> []" by (simp add: ex_deposit_def)
  qed (simp_all only: a sets, simp_all add: truthy_str_def)
  then show ?thesis using ids(2) unfolding db_def by (auto simp: Let_def)
qed

end
