(* ===== verification/Projections.thy ===== *)
theory Projections
  imports Ledger
begin

text \<open>
  \<open>ledger/projections.py\<close> and \<open>portfolio/service.py\<close>: balances, positions and totals rebuilt by
  replaying the ledger, the scope that leaves the futures entries out, the persisted
  projection tables and the read model on top of them.
\<close>

subsection \<open>Snapshots\<close>

record balance_row =
  br_total :: dec
  br_available :: dec
  br_frozen :: dec

record position_view =
  pv_symbol :: string
  pv_base :: string
  pv_quote :: string
  pv_qty :: dec
  pv_avg :: "dec option"
  pv_cost :: dec
  pv_realized :: dec

record snapshot =
  sn_account :: string
  sn_balances :: "(string, balance_row) dict"
  sn_positions :: "(string, position_view) dict"
  sn_realized :: dec
  sn_fees :: dec
  sn_deposits :: dec
  sn_withdrawals :: dec
  sn_equity :: dec
  sn_version :: int

definition empty_snapshot :: "string \<Rightarrow> snapshot" where
  "empty_snapshot acc = \<lparr> sn_account = acc, sn_balances = [], sn_positions = [], sn_realized = 0, sn_fees = 0,
     sn_deposits = 0, sn_withdrawals = 0, sn_equity = 0, sn_version = 0 \<rparr>"

definition sn_balance :: "snapshot \<Rightarrow> string \<Rightarrow> dec" where
  "sn_balance s ccy = (case map_of (sn_balances s) ccy of Some r \<Rightarrow> br_total r | None \<Rightarrow> 0)"

definition as_plain :: "snapshot \<Rightarrow> meta" where
  "as_plain s =
     [(''account_id'', JStr (sn_account s)),
      (''balances'', JObj (map (\<lambda>(k, r). (k, JObj [(''total'', JDec (br_total r)),
         (''available'', JDec (br_available r)), (''frozen'', JDec (br_frozen r))])) (sn_balances s))),
      (''positions'', JObj (map (\<lambda>(k, p). (k, JObj [(''quantity'', JDec (pv_qty p)),
         (''avg_entry_price'', case pv_avg p of Some a \<Rightarrow> JDec a | None \<Rightarrow> JNull),
         (''cost_basis'', JDec (pv_cost p)), (''realized_pnl'', JDec (pv_realized p))])) (sn_positions s))),
      (''realized_pnl'', JDec (sn_realized s)), (''total_fees'', JDec (sn_fees s)),
      (''equity'', JDec (sn_equity s))]"

subsection \<open>The projection builder\<close>

definition refresh_equity :: "snapshot \<Rightarrow> snapshot" where
  "refresh_equity s = s \<lparr> sn_equity :=
     dadd (dsum (map br_total (dict_values (sn_balances s)))) (dsum (map pv_cost (dict_values (sn_positions s)))) \<rparr>"

definition set_balance :: "string \<Rightarrow> dec \<Rightarrow> snapshot \<Rightarrow> snapshot" where
  "set_balance ccy t s = refresh_equity (s \<lparr> sn_balances :=
     AList.update ccy \<lparr> br_total = t, br_available = t, br_frozen = 0 \<rparr> (sn_balances s) \<rparr>)"

fun set_balances :: "(string, dec) dict \<Rightarrow> snapshot \<Rightarrow> snapshot" where
  "set_balances [] s = s"
| "set_balances ((c, x) # bs) s = set_balances bs (set_balance c x s)"

definition builder_init :: "(string, dec) dict \<Rightarrow> string \<Rightarrow> snapshot" where
  "builder_init initial acc = set_balances initial (empty_snapshot acc)"

fun json_D :: "json \<Rightarrow> dec res" where
  "json_D (JDec d) = ret d"
| "json_D (JRaw d) = ret d"
| "json_D (JInt n) = D (PyInt n)"
| "json_D (JBool b) = D (PyBool b)"
| "json_D (JStr s) = D (PyStr s)"
| "json_D _ = D PyOther"

definition meta_item :: "meta \<Rightarrow> string \<Rightarrow> json res" where
  "meta_item m k = (case map_of m k of Some v \<Rightarrow> ret v | None \<Rightarrow> raise KeyErrorC)"

definition movement_amount :: "meta \<Rightarrow> dec res" where
  "movement_amount m =
     json_D (case map_of m ''amount'' of Some v \<Rightarrow> v
       | None \<Rightarrow> (case map_of m ''quantity'' of Some v \<Rightarrow> v | None \<Rightarrow> JStr ''0''))"

fun json_text :: "json \<Rightarrow> string" where
  "json_text (JStr s) = s"
| "json_text _ = []"

definition parse_side :: "json \<Rightarrow> order_side res" where
  "parse_side v = (if v = JStr ''BUY'' then ret BUY else if v = JStr ''SELL'' then ret SELL else raise ValueError)"

function drop_usdt :: "string \<Rightarrow> string" where
  "drop_usdt s =
     (case s of [] \<Rightarrow> []
      | c # t \<Rightarrow> if take 4 s = ''USDT'' then drop_usdt (drop 4 s) else c # drop_usdt t)"
  by pat_completeness auto
termination by (relation "measure length") auto

declare drop_usdt.simps [simp del]

definition cash_account :: "string \<Rightarrow> bool" where
  "cash_account a \<longleftrightarrow> a = ''CASH'' \<or> a = ''MARGIN'' \<or> take 7 a = ''MARGIN:''"

definition apply_entry :: "ledger_entry \<Rightarrow> snapshot \<Rightarrow> snapshot" where
  "apply_entry e s0 =
     (let s = (if cash_account (le_account e)
               then set_balance (le_ccy e)
                      (if le_dir e = DEBIT then dadd (sn_balance s0 (le_ccy e)) (le_amount e)
                       else dsub (sn_balance s0 (le_ccy e)) (le_amount e)) s0
               else s0)
      in if le_account e = ''FEE_EXPENSE'' \<and> le_dir e = DEBIT
         then s \<lparr> sn_fees := dadd (sn_fees s) (le_amount e) \<rparr> else s)"

fun apply_entries :: "ledger_entry list \<Rightarrow> snapshot \<Rightarrow> snapshot" where
  "apply_entries [] s = s"
| "apply_entries (e # es) s = apply_entries es (apply_entry e s)"

definition pv_buy :: "dec \<Rightarrow> dec \<Rightarrow> position_view \<Rightarrow> position_view" where
  "pv_buy price qty p =
     (let gross = dmul price qty; nq = dadd (pv_qty p) qty; nc = dadd (pv_cost p) gross
      in p \<lparr> pv_qty := nq, pv_cost := nc, pv_avg := (if 0 < nq then Some (ddiv nc nq) else None) \<rparr>)"

text \<open>\<open>Some (p', pnl)\<close> with the realized gain, or an oversell.\<close>

definition pv_sell :: "dec \<Rightarrow> dec \<Rightarrow> position_view \<Rightarrow> (position_view \<times> dec) res" where
  "pv_sell price qty p =
     (if pv_qty p < qty then raise ValueError
      else
        (let gross = dmul price qty; avg = dec_or (pv_avg p) 0; release = dmul avg qty;
             q = dsub (pv_qty p) qty; c = max (dsub (pv_cost p) release) 0; pnl = dsub gross release;
             p1 = p \<lparr> pv_qty := q, pv_cost := c, pv_realized := dadd (pv_realized p) pnl \<rparr>
         in ret (if q = 0 then p1 \<lparr> pv_avg := None, pv_cost := 0 \<rparr>
                 else p1 \<lparr> pv_avg := (if 0 < q then Some (ddiv c q) else None) \<rparr>, pnl)))"

definition new_position :: "string \<Rightarrow> meta \<Rightarrow> position_view" where
  "new_position symbol m =
     \<lparr> pv_symbol = symbol,
       pv_base = (case map_of m ''base_asset'' of Some v \<Rightarrow> json_text v | None \<Rightarrow> drop_usdt symbol),
       pv_quote = (case map_of m ''quote_currency'' of Some v \<Rightarrow> json_text v | None \<Rightarrow> ''USDT''),
       pv_qty = 0, pv_avg = None, pv_cost = 0, pv_realized = 0 \<rparr>"

definition apply_trade :: "meta \<Rightarrow> snapshot \<Rightarrow> snapshot res" where
  "apply_trade m s =
     rbind (meta_item m ''symbol'') (\<lambda>jsym.
     rbind (rbind (meta_item m ''side'') parse_side) (\<lambda>side.
     rbind (rbind (meta_item m ''quantity'') json_D) (\<lambda>qty.
     rbind (rbind (meta_item m ''price'') json_D) (\<lambda>price.
       let symbol = json_text jsym;
           p = (case map_of (sn_positions s) symbol of Some p \<Rightarrow> p | None \<Rightarrow> new_position symbol m);
           put = (\<lambda>p'. s \<lparr> sn_positions := AList.update symbol p' (sn_positions s) \<rparr>)
       in (case side of
             BUY \<Rightarrow> ret (refresh_equity (put (pv_buy price qty p)))
           | SELL \<Rightarrow> rbind (pv_sell price qty p) (\<lambda>(p', pnl).
               ret (refresh_equity ((put p') \<lparr> sn_realized := dadd (sn_realized s) pnl \<rparr>))))))))"

definition apply_transaction :: "ledger_tx \<Rightarrow> snapshot \<Rightarrow> snapshot res" where
  "apply_transaction x s =
     (let m = x_meta x; s1 = apply_entries (sort_key le_seq (x_entries x)) s
      in rbind
           (case x_type x of
              DEPOSIT \<Rightarrow> rbind (movement_amount m) (\<lambda>a. ret (s1 \<lparr> sn_deposits := dadd (sn_deposits s1) a \<rparr>))
            | WITHDRAWAL \<Rightarrow> rbind (movement_amount m) (\<lambda>a. ret (s1 \<lparr> sn_withdrawals := dadd (sn_withdrawals s1) a \<rparr>))
            | TRADE \<Rightarrow> apply_trade m s1
            | _ \<Rightarrow> ret s1)
           (\<lambda>s2. ret (refresh_equity s2)))"

definition FUTURES_EXCLUDED_ENTRY_TYPES :: "ledger_entry_type list" where
  "FUTURES_EXCLUDED_ENTRY_TYPES =
     [FUTURES_MARGIN_POST, FUTURES_MARGIN_RELEASE, FUTURES_REALIZED_PNL, FUTURES_TRADING_FEE,
      FUNDING_PAYMENT, FUNDING_RECEIPT]"

definition replay_step :: "ledger_entry_type list \<Rightarrow> ledger_tx \<Rightarrow> snapshot \<Rightarrow> snapshot res" where
  "replay_step excluded x s = (if x_type x \<in> set excluded then ret s else apply_transaction x s)"

definition replay_projections ::
  "ledger_db \<Rightarrow> (string, dec) dict \<Rightarrow> string \<Rightarrow> ledger_entry_type list \<Rightarrow> snapshot res" where
  "replay_projections db initial acc excluded =
     rfold (replay_step excluded)
       (list_transactions db) (builder_init initial acc)"

subsection \<open>Persisted projections and the read model\<close>

record account_row =
  ar_account :: string
  ar_ccy :: string
  ar_total :: dec
  ar_available :: dec
  ar_frozen :: dec
  ar_equity :: dec
  ar_version :: int
  ar_updated :: usec

record position_row =
  pr_account :: string
  pr_view :: position_view
  pr_updated :: usec

record projection_db =
  pj_accounts :: "account_row list"
  pj_positions :: "position_row list"

definition rebuild_projections ::
  "projection_db \<Rightarrow> ledger_db \<Rightarrow> (string, dec) dict \<Rightarrow> string \<Rightarrow> usec \<Rightarrow> projection_db \<times> snapshot res" where
  "rebuild_projections pj db initial acc now =
     (case replay_projections db initial acc [] of
        Inl e \<Rightarrow> (pj, Inl e)
      | Inr s \<Rightarrow>
          (\<lparr> pj_accounts = filter (\<lambda>r. ar_account r \<noteq> acc) (pj_accounts pj) @
               map (\<lambda>(c, r). \<lparr> ar_account = acc, ar_ccy = c, ar_total = br_total r, ar_available = br_available r,
                      ar_frozen = br_frozen r, ar_equity = sn_equity s, ar_version = sn_version s + 1,
                      ar_updated = now \<rparr>) (sn_balances s),
             pj_positions = filter (\<lambda>r. pr_account r \<noteq> acc) (pj_positions pj) @
               map (\<lambda>p. \<lparr> pr_account = acc, pr_view = p, pr_updated = now \<rparr>) (dict_values (sn_positions s)) \<rparr>,
           ret s))"

definition portfolio_refresh ::
  "projection_db \<Rightarrow> ledger_db \<Rightarrow> (string, dec) dict \<Rightarrow> usec \<Rightarrow> projection_db \<times> unit res" where
  "portfolio_refresh pj db initial now =
     (case rebuild_projections pj db initial ''default'' now of
        (pj', Inl e) \<Rightarrow> (pj', Inl e) | (pj', Inr _) \<Rightarrow> (pj', ret ()))"

definition get_account :: "ledger_db \<Rightarrow> trading_mode \<Rightarrow> usec \<Rightarrow> account res" where
  "get_account db mode now =
     rbind (replay_projections db [] ''default'' []) (\<lambda>s.
       ret \<lparr> a_id = sn_account s, a_mode = mode,
             a_balances = map (\<lambda>(c, r). (c, \<lparr> b_ccy = c, b_total = br_total r, b_available = br_available r,
                                             b_frozen = br_frozen r \<rparr>)) (sn_balances s),
             a_equity = sn_equity s, a_margin_used = 0, a_updated = Some now \<rparr>)"

definition position_of_row :: "position_row \<Rightarrow> position" where
  "position_of_row r = (let p = pr_view r in
     \<lparr> p_symbol = pv_symbol p, p_base = pv_base p, p_quote = pv_quote p, p_qty = pv_qty p, p_avg = pv_avg p,
       p_cost = pv_cost p, p_realized = pv_realized p, p_updated = Some (pr_updated r) \<rparr>)"

definition get_positions :: "projection_db \<Rightarrow> (string, position) dict" where
  "get_positions pj = foldl (\<lambda>d r. AList.update (pv_symbol (pr_view r)) (position_of_row r) d) [] (pj_positions pj)"

definition get_position :: "projection_db \<Rightarrow> string \<Rightarrow> position option" where
  "get_position pj symbol =
     map_option position_of_row (List.find (\<lambda>r. pv_symbol (pr_view r) = symbol) (pj_positions pj))"

definition get_balance :: "projection_db \<Rightarrow> string \<Rightarrow> dec" where
  "get_balance pj ccy =
     (case List.find (\<lambda>r. ar_ccy r = ccy \<and> ar_account r = ''default'') (pj_accounts pj) of
        Some r \<Rightarrow> ar_total r | None \<Rightarrow> 0)"

subsection \<open>Positions\<close>

definition pv_ok :: "position_view \<Rightarrow> bool" where
  "pv_ok p \<longleftrightarrow> 0 \<le> pv_qty p \<and> 0 \<le> pv_cost p \<and>
     (if pv_qty p = 0 then pv_cost p = 0 \<and> pv_avg p = None
      else (case pv_avg p of None \<Rightarrow> False | Some a \<Rightarrow> 0 \<le> a))"

lemma dadd_eq_0: "0 \<le> a \<Longrightarrow> 0 \<le> b \<Longrightarrow> dadd a b = 0 \<longleftrightarrow> a = 0 \<and> b = 0"
  by (auto simp: dadd_def)

lemma pv_ok_buy:
  assumes "pv_ok p" "0 \<le> price" "0 \<le> qty"
  shows "pv_ok (pv_buy price qty p)"
proof -
  have n: "0 \<le> pv_qty p" "0 \<le> pv_cost p" using assms(1) by (auto simp: pv_ok_def)
  have q: "0 \<le> dadd (pv_qty p) qty" "0 \<le> dadd (pv_cost p) (dmul price qty)"
    using n assms by (simp_all add: dadd_nonneg dmul_nonneg)
  show ?thesis
  proof (cases "dadd (pv_qty p) qty = 0")
    case True
    then have "pv_qty p = 0" "qty = 0" using dadd_eq_0 [OF n(1) assms(3)] by auto
    then have "pv_cost p = 0" using assms(1) by (auto simp: pv_ok_def)
    with True \<open>qty = 0\<close> show ?thesis by (simp add: pv_ok_def pv_buy_def Let_def)
  next
    case False
    with q show ?thesis by (simp add: pv_ok_def pv_buy_def Let_def ddiv_nonneg)
  qed
qed

lemma pv_ok_sell:
  assumes "pv_ok p" "pv_sell price qty p = ret (p', pnl)"
  shows "pv_ok p'"
proof -
  have q: "qty \<le> pv_qty p" using assms(2) by (auto simp: pv_sell_def split: if_splits)
  then have "0 \<le> dsub (pv_qty p) qty" by (simp add: dsub_def dec.rnd_nonneg)
  then show ?thesis using assms(2) q
    by (auto simp: pv_sell_def Let_def pv_ok_def ddiv_nonneg split: if_splits)
qed

lemma pv_ok_new [simp]: "pv_ok (new_position symbol m)"
  by (simp add: pv_ok_def new_position_def)

definition positions_ok :: "snapshot \<Rightarrow> bool" where
  "positions_ok s \<longleftrightarrow> list_all pv_ok (dict_values (sn_positions s))"

text \<open>Trades whose quantity and price, where they can be read, are not negative.\<close>

definition trade_nonneg :: "ledger_tx \<Rightarrow> bool" where
  "trade_nonneg x \<longleftrightarrow>
     (case rbind (meta_item (x_meta x) ''quantity'') json_D of Inr q \<Rightarrow> 0 \<le> q | Inl _ \<Rightarrow> True) \<and>
     (case rbind (meta_item (x_meta x) ''price'') json_D of Inr q \<Rightarrow> 0 \<le> q | Inl _ \<Rightarrow> True)"

definition trade_tx_nonneg :: "ledger_tx \<Rightarrow> bool" where
  "trade_tx_nonneg x \<longleftrightarrow> x_type x \<noteq> TRADE \<or> trade_nonneg x"

lemma sn_positions_simps [simp]:
  "sn_positions (refresh_equity s) = sn_positions s" "sn_positions (set_balance c x s) = sn_positions s"
  "sn_positions (apply_entry e s) = sn_positions s"
  by (simp_all add: refresh_equity_def set_balance_def apply_entry_def Let_def)

lemma sn_positions_fold [simp]: "sn_positions (apply_entries es s) = sn_positions s"
  by (induction es arbitrary: s) simp_all

lemma positions_ok_update:
  assumes "positions_ok s" "pv_ok p" "sn_positions s' = AList.update k p (sn_positions s)"
  shows "positions_ok s'"
  using assms dict_values_update [of k p "sn_positions s"] by (auto simp: positions_ok_def list_all_iff)

lemma positions_ok_trade:
  assumes "positions_ok s" "trade_nonneg x" "apply_trade (x_meta x) s = ret s'"
  shows "positions_ok s'"
proof -
  define m where "m = x_meta x"
  obtain jsym side qty price where i: "meta_item m ''symbol'' = ret jsym"
    "rbind (meta_item m ''side'') parse_side = ret side"
    "rbind (meta_item m ''quantity'') json_D = ret qty" "rbind (meta_item m ''price'') json_D = ret price"
    using assms(3) unfolding apply_trade_def m_def [symmetric] by (auto simp: rbind_eq_Inr)
  have n: "0 \<le> qty" "0 \<le> price" using assms(2) i(3,4) by (simp_all add: trade_nonneg_def m_def [symmetric])
  define p where "p = (case map_of (sn_positions s) (json_text jsym) of Some p \<Rightarrow> p
    | None \<Rightarrow> new_position (json_text jsym) m)"
  have p: "pv_ok p"
    using assms(1) unfolding p_def positions_ok_def list_all_iff
    by (auto split: option.splits dest: dict_values_map_of)
  show ?thesis
  proof (cases side)
    case BUY
    then have "s' = refresh_equity (s\<lparr>sn_positions := AList.update (json_text jsym) (pv_buy price qty p) (sn_positions s)\<rparr>)"
      using assms(3) i unfolding apply_trade_def m_def [symmetric] by (simp add: p_def Let_def)
    then show ?thesis using positions_ok_update [OF assms(1) pv_ok_buy [OF p n(2,1)]] by simp
  next
    case SELL
    then obtain p' pnl where s: "pv_sell price qty p = ret (p', pnl)"
      and "s' = refresh_equity (s\<lparr>sn_positions := AList.update (json_text jsym) p' (sn_positions s),
                 sn_realized := dadd (sn_realized s) pnl\<rparr>)"
      using assms(3) i unfolding apply_trade_def m_def [symmetric]
      by (auto simp: p_def Let_def rbind_eq_Inr)
    then show ?thesis using positions_ok_update [OF assms(1) pv_ok_sell [OF p s]] by simp
  qed
qed

lemma positions_ok_transaction:
  assumes "positions_ok s" "x_type x = TRADE \<Longrightarrow> trade_nonneg x" "apply_transaction x s = ret s'"
  shows "positions_ok s'"
proof -
  define s1 where "s1 = apply_entries (sort_key le_seq (x_entries x)) s"
  have ok: "positions_ok s1" using assms(1) by (simp add: s1_def positions_ok_def)
  show ?thesis
  proof (cases "x_type x = TRADE")
    case True
    then obtain s2 where "apply_trade (x_meta x) s1 = ret s2" "s' = refresh_equity s2"
      using assms(3) by (auto simp: apply_transaction_def Let_def s1_def [symmetric] rbind_eq_Inr)
    then show ?thesis using positions_ok_trade [OF ok assms(2) [OF True]] by (simp add: positions_ok_def)
  next
    case False
    then have "sn_positions s' = sn_positions s1"
      using assms(3) by (cases "x_type x") (auto simp: apply_transaction_def Let_def s1_def [symmetric] rbind_eq_Inr)
    then show ?thesis using ok by (simp add: positions_ok_def)
  qed
qed

lemma builder_init_positions [simp]: "sn_positions (builder_init initial acc) = []"
proof -
  have "sn_positions (set_balances initial s) = sn_positions s" for s
    by (induction initial s rule: set_balances.induct) simp_all
  then show ?thesis by (simp add: builder_init_def empty_snapshot_def)
qed

lemma set_list_transactions [simp]: "set (list_transactions db) = set db"
  by (simp add: list_transactions_def)

text \<open>C37: replaying a ledger whose trades have no negative amounts either fails or gives
  positions that are never short, have no negative cost, and have neither cost nor average
  price when they are flat.\<close>

theorem replayed_positions_ok:
  assumes "list_all trade_tx_nonneg db"
    and "replay_projections db initial acc excluded = ret s"
  shows "list_all (\<lambda>p. 0 \<le> pv_qty p \<and> 0 \<le> pv_cost p
     \<and> (if pv_qty p = 0 then pv_cost p = 0 \<and> pv_avg p = None
        else (case pv_avg p of None \<Rightarrow> False | Some a \<Rightarrow> 0 \<le> a))) (dict_values (sn_positions s))"
proof -
  have "positions_ok s"
    using assms(2) unfolding replay_projections_def
  proof (rule rfold_inv [rotated 1])
    show "positions_ok (builder_init initial acc)" by (simp add: positions_ok_def dict_values_def)
    fix x t t' assume "x \<in> set (list_transactions db)" "positions_ok t"
      "replay_step excluded x t = ret t'"
    then show "positions_ok t'"
      using assms(1) positions_ok_transaction by (auto simp: replay_step_def list_all_iff trade_tx_nonneg_def split: if_splits)
  qed
  then show ?thesis by (simp add: positions_ok_def list_all_iff pv_ok_def)
qed

subsection \<open>Replay is deterministic\<close>

lemma filter_eq_single: "distinct xs \<Longrightarrow> k \<in> set xs \<Longrightarrow> filter (\<lambda>x. k = x) xs = [k]"
  by (induction xs) (auto simp: filter_empty_conv)

text \<open>The replay depends on which transactions are stored, not on the order in which they
  were written.\<close>

theorem replay_order_irrelevant:
  assumes "distinct (map x_id db)" and "mset db' = mset db"
  shows "replay_projections db' initial acc excluded = replay_projections db initial acc excluded"
proof -
  have inj: "inj_on (\<lambda>x. (x_created x, x_id x)) (set db)"
    using assms(1) by (auto simp: distinct_map inj_on_def)
  have "list_transactions db' = list_transactions db"
    unfolding list_transactions_def
  proof (rule properties_for_sort_key)
    show "mset (sort_key (\<lambda>x. (x_created x, x_id x)) db) = mset db'" using assms(2) by simp
    show "sorted (map (\<lambda>x. (x_created x, x_id x)) (sort_key (\<lambda>x. (x_created x, x_id x)) db))" by simp
    have set: "set db' = set db" using assms(2) by (metis set_mset_mset)
    have d: "distinct db" "distinct db'"
      using assms by (auto simp: distinct_map dest: mset_eq_imp_distinct_iff)
    fix k assume "k \<in> set (sort_key (\<lambda>x. (x_created x, x_id x)) db)"
    then have k: "k \<in> set db" by simp
    have one: "filter (\<lambda>x. (x_created k, x_id k) = (x_created x, x_id x)) xs = [k]"
      if "set xs = set db" "distinct xs" for xs
    proof -
      have "filter (\<lambda>x. (x_created k, x_id k) = (x_created x, x_id x)) xs = filter (\<lambda>x. k = x) xs"
        using that k inj by (intro filter_cong) (auto simp: inj_on_def)
      also have "\<dots> = [k]" using that k by (intro filter_eq_single) simp_all
      finally show ?thesis .
    qed
    show "filter (\<lambda>x. (x_created k, x_id k) = (x_created x, x_id x))
             (sort_key (\<lambda>x. (x_created x, x_id x)) db)
         = filter (\<lambda>x. (x_created k, x_id k) = (x_created x, x_id x)) db'"
      using one [of "sort_key (\<lambda>x. (x_created x, x_id x)) db"] one [of db'] set d by simp
  qed
  then show ?thesis by (simp add: replay_projections_def)
qed

definition ex_trade_tx :: "string \<Rightarrow> usec \<Rightarrow> order_side \<Rightarrow> dec \<Rightarrow> dec \<Rightarrow> dec \<Rightarrow> dec option \<Rightarrow> ledger_tx" where
  "ex_trade_tx tid t side price qty fee cost =
     (case build_trade_entries side ''BTCUSDT'' ''USDT'' price qty fee cost of
        Inr (ps, m) \<Rightarrow> \<lparr> x_id = tid, x_type = TRADE, x_created = t, x_order = None, x_fill = None, x_event = None,
           x_meta = m, x_entries = number_entries (entry_of TRADE tid t no_record_args) (ex_ids_from tid) 1 ps \<rparr>
      | Inl _ \<Rightarrow> \<lparr> x_id = tid, x_type = TRANSFER, x_created = t, x_order = None, x_fill = None, x_event = None,
           x_meta = [], x_entries = [] \<rparr>)"

definition ex_deposit_tx :: "string \<Rightarrow> usec \<Rightarrow> dec \<Rightarrow> ledger_tx" where
  "ex_deposit_tx tid t x =
     \<lparr> x_id = tid, x_type = DEPOSIT, x_created = t, x_order = None, x_fill = None, x_event = None,
       x_meta = [(''amount'', JDec x)],
       x_entries = number_entries (entry_of DEPOSIT tid t no_record_args) (ex_ids_from tid) 1 (ex_deposit ''USDT'' x) \<rparr>"

definition ex_ledger :: ledger_db where
  "ex_ledger = [ex_trade_tx ''b'' 2 BUY 100 2 (1 / 5) None, ex_deposit_tx ''a'' 1 1000,
                ex_trade_tx ''c'' 3 SELL 110 1 (1 / 10) (Some 100)]"

theorem replayed_positions_ok_witness:
  "\<exists>s. replay_projections ex_ledger [] ''default'' [] = ret s \<and> map pv_qty (dict_values (sn_positions s)) = [1]
     \<and> list_all (\<lambda>p. 0 \<le> pv_qty p \<and> 0 \<le> pv_cost p
         \<and> (if pv_qty p = 0 then pv_cost p = 0 \<and> pv_avg p = None
            else (case pv_avg p of None \<Rightarrow> False | Some a \<Rightarrow> 0 \<le> a))) (dict_values (sn_positions s))"
proof -
  have h: "list_all trade_tx_nonneg ex_ledger" by code_simp
  have "(case replay_projections ex_ledger [] ''default'' [] of
     Inr s \<Rightarrow> map pv_qty (dict_values (sn_positions s)) = [1] | Inl _ \<Rightarrow> False)" by code_simp
  from case_InrD [OF this] obtain s where r: "replay_projections ex_ledger [] ''default'' [] = ret s"
    and q: "map pv_qty (dict_values (sn_positions s)) = [1]" by metis
  show ?thesis by (intro exI [of _ s] conjI r q replayed_positions_ok [OF h r])
qed

theorem replay_order_irrelevant_witness:
  "replay_projections (rev ex_ledger) [] ''default'' [] = replay_projections ex_ledger [] ''default'' []"
proof (rule replay_order_irrelevant)
  have "map x_id ex_ledger = [''b'', ''a'', ''c'']" by code_simp
  then show "distinct (map x_id ex_ledger)" by simp
qed simp

subsection \<open>Balances are the net of the cash entries\<close>

definition cash_flow :: "string \<Rightarrow> ledger_entry \<Rightarrow> rat" where
  "cash_flow ccy e =
     (if cash_account (le_account e) \<and> le_ccy e = ccy
      then (if le_dir e = DEBIT then le_amount e else - le_amount e) else 0)"

definition ledger_flow :: "string \<Rightarrow> ledger_db \<Rightarrow> rat" where
  "ledger_flow ccy db = sum_list (map (cash_flow ccy) (concat (map x_entries db)))"

definition ledger_volume :: "ledger_db \<Rightarrow> rat" where
  "ledger_volume db = sum_list (map (\<lambda>e. \<bar>le_amount e\<bar>) (concat (map x_entries db)))"

lemma sn_balances_refresh [simp]: "sn_balances (refresh_equity s) = sn_balances s"
  by (simp add: refresh_equity_def)

lemma sn_balance_simps [simp]:
  "sn_balance (refresh_equity s) c = sn_balance s c"
  "sn_balance (set_balance c' x s) c = (if c' = c then x else sn_balance s c)"
  by (simp_all add: sn_balance_def refresh_equity_def set_balance_def)

lemma sn_balance_apply_entry:
  "sn_balance (apply_entry e s) c =
     (if cash_account (le_account e) \<and> le_ccy e = c
      then (if le_dir e = DEBIT then dadd (sn_balance s c) (le_amount e) else dsub (sn_balance s c) (le_amount e))
      else sn_balance s c)"
  unfolding apply_entry_def Let_def by (auto simp: sn_balance_def set_balance_def refresh_equity_def)

lemma apply_entry_exact:
  assumes "places k (sn_balance s c)" "places k (le_amount e)"
    and "\<bar>sn_balance s c\<bar> + \<bar>le_amount e\<bar> \<le> 10 ^ 28 / 10 ^ k"
  shows "sn_balance (apply_entry e s) c = sn_balance s c + cash_flow c e \<and> places k (sn_balance (apply_entry e s) c)
    \<and> \<bar>sn_balance (apply_entry e s) c\<bar> \<le> \<bar>sn_balance s c\<bar> + \<bar>le_amount e\<bar>"
proof -
  have "\<bar>sn_balance s c + le_amount e\<bar> \<le> 10 ^ 28 / 10 ^ k" "\<bar>sn_balance s c - le_amount e\<bar> \<le> 10 ^ 28 / 10 ^ k"
    using assms(3) by linarith+
  then have "dadd (sn_balance s c) (le_amount e) = sn_balance s c + le_amount e"
    "dsub (sn_balance s c) (le_amount e) = sn_balance s c - le_amount e"
    unfolding dadd_def dsub_def
    using dround_places [OF places_add [OF assms(1,2)]] dround_places [OF places_diff [OF assms(1,2)]] by blast+
  then show ?thesis
    using assms(1,2) abs_triangle_ineq [of "sn_balance s c" "le_amount e"]
      abs_triangle_ineq4 [of "sn_balance s c" "le_amount e"]
    by (simp add: sn_balance_apply_entry cash_flow_def places_add places_diff)
qed

lemma apply_entries_exact:
  assumes "places k (sn_balance s c)" "\<forall>e \<in> set es. places k (le_amount e)"
    and "\<bar>sn_balance s c\<bar> + sum_list (map (\<lambda>e. \<bar>le_amount e\<bar>) es) \<le> 10 ^ 28 / 10 ^ k"
  shows "sn_balance (apply_entries es s) c = sn_balance s c + sum_list (map (cash_flow c) es)
    \<and> places k (sn_balance (apply_entries es s) c)
    \<and> \<bar>sn_balance (apply_entries es s) c\<bar> \<le> \<bar>sn_balance s c\<bar> + sum_list (map (\<lambda>e. \<bar>le_amount e\<bar>) es)"
  using assms
proof (induction es arbitrary: s)
  case (Cons e es)
  have nn: "0 \<le> sum_list (map (\<lambda>e. \<bar>le_amount e\<bar>) es)" by (rule sum_list_nonneg) auto
  then have b: "\<bar>sn_balance s c\<bar> + \<bar>le_amount e\<bar> \<le> 10 ^ 28 / 10 ^ k" using Cons.prems(3) by simp
  have pe: "places k (le_amount e)" using Cons.prems(2) by simp
  note e = apply_entry_exact [OF Cons.prems(1) pe b]
  let ?b = "sn_balance (apply_entry e s) c"
  have "\<bar>?b\<bar> + sum_list (map (\<lambda>e. \<bar>le_amount e\<bar>) es) \<le> 10 ^ 28 / 10 ^ k"
    using e [THEN conjunct2, THEN conjunct2] Cons.prems(3) by simp
  moreover have "places k ?b" using e by blast
  moreover have "\<forall>e \<in> set es. places k (le_amount e)" using Cons.prems(2) by simp
  ultimately have ih: "sn_balance (apply_entries es (apply_entry e s)) c = ?b + sum_list (map (cash_flow c) es)"
    "places k (sn_balance (apply_entries es (apply_entry e s)) c)"
    "\<bar>sn_balance (apply_entries es (apply_entry e s)) c\<bar> \<le> \<bar>?b\<bar> + sum_list (map (\<lambda>e. \<bar>le_amount e\<bar>) es)"
    using Cons.IH by blast+
  have e1: "?b = sn_balance s c + cash_flow c e" and e2: "\<bar>?b\<bar> \<le> \<bar>sn_balance s c\<bar> + \<bar>le_amount e\<bar>"
    using e by blast+
  show ?case
    unfolding apply_entries.simps list.map sum_list.Cons
    using ih(1) e1 ih(2) ih(3) e2 by (intro conjI) (linarith, assumption, linarith)
qed simp

lemma sn_balance_cong: "sn_balances s' = sn_balances s \<Longrightarrow> sn_balance s' c = sn_balance s c"
  by (simp add: sn_balance_def)

lemma apply_trade_balances: "apply_trade m s = ret s' \<Longrightarrow> sn_balances s' = sn_balances s"
  unfolding apply_trade_def
  by (auto simp: rbind_eq_Inr Let_def split: order_side.splits) (metis order_side.exhaust)

lemma apply_transaction_balance:
  assumes "apply_transaction x s = ret s'"
  shows "sn_balance s' c = sn_balance (apply_entries (sort_key le_seq (x_entries x)) s) c"
  using assms
  by (cases "x_type x")
    (auto simp: apply_transaction_def Let_def rbind_eq_Inr sn_balance_def dest: apply_trade_balances)

lemma sum_list_sort_key: "sum_list (map f (sort_key g xs)) = (sum_list (map f xs) :: rat)"
  by (metis mset_map mset_sort sum_mset_sum_list)

lemma replay_exact:
  assumes "rfold (replay_step []) xs s = ret s'"
    and "places k (sn_balance s c)" "\<forall>x \<in> set xs. \<forall>e \<in> set (x_entries x). places k (le_amount e)"
    and "\<bar>sn_balance s c\<bar> + ledger_volume xs \<le> 10 ^ 28 / 10 ^ k"
  shows "sn_balance s' c = sn_balance s c + ledger_flow c xs"
  using assms
proof (induction xs arbitrary: s)
  case Nil
  then show ?case by (simp add: ledger_flow_def)
next
  case (Cons x xs)
  let ?es = "sort_key le_seq (x_entries x)"
  obtain t where r: "replay_step [] x s = ret t" and t2: "rfold (replay_step []) xs t = ret s'"
    using Cons.prems(1) by (auto simp: rbind_eq_Inr)
  have t: "apply_transaction x s = ret t" using r by (simp add: replay_step_def)
  have v: "ledger_volume (x # xs) = sum_list (map (\<lambda>e. \<bar>le_amount e\<bar>) ?es) + ledger_volume xs"
    "ledger_flow c (x # xs) = sum_list (map (cash_flow c) ?es) + ledger_flow c xs"
    by (simp_all add: ledger_volume_def ledger_flow_def sum_list_sort_key)
  have "0 \<le> ledger_volume xs" unfolding ledger_volume_def by (rule sum_list_nonneg) auto
  then have b: "\<bar>sn_balance s c\<bar> + sum_list (map (\<lambda>e. \<bar>le_amount e\<bar>) ?es) \<le> 10 ^ 28 / 10 ^ k"
    using Cons.prems(4) v(1) by linarith
  have p: "\<forall>e \<in> set ?es. places k (le_amount e)" using Cons.prems(3) by simp
  note e = apply_entries_exact [OF Cons.prems(2) p b, folded apply_transaction_balance [OF t]]
  have "\<bar>sn_balance t c\<bar> + ledger_volume xs \<le> 10 ^ 28 / 10 ^ k"
    using e Cons.prems(4) v(1) by linarith
  moreover have "places k (sn_balance t c)" using e by blast
  moreover have "\<forall>x \<in> set xs. \<forall>e \<in> set (x_entries x). places k (le_amount e)" using Cons.prems(3) by simp
  ultimately have "sn_balance s' c = sn_balance t c + ledger_flow c xs" using Cons.IH [OF t2] by blast
  with e v(2) show ?case by linarith
qed

lemma sn_balance_empty [simp]: "sn_balance (builder_init [] acc) c = 0"
  by (simp add: builder_init_def empty_snapshot_def sn_balance_def)

lemma concat_sum: "sum_list (map f (concat xss)) = sum_list (map (\<lambda>xs. sum_list (map f xs)) xss)"
  by (induction xss) simp_all

text \<open>As long as no sum exceeds the 28 digits, a replay that succeeds gives every currency
  the exact net of its cash and margin entries in the ledger.\<close>

theorem replayed_balance_is_net_flow:
  assumes "replay_projections db [] acc [] = ret s"
    and "list_all (\<lambda>x. list_all (\<lambda>e. places k (le_amount e)) (x_entries x)) db"
    and "ledger_volume db \<le> 10 ^ 28 / 10 ^ k"
  shows "sn_balance s ccy = ledger_flow ccy db"
proof -
  have perm: "sum_list (map f (concat (map x_entries (list_transactions db)))) = (sum_list (map f (concat (map x_entries db))) :: rat)" for f
    using sum_list_sort_key [of "\<lambda>x. sum_list (map f (x_entries x))" "\<lambda>x. (x_created x, x_id x)" db]
    by (simp add: list_transactions_def concat_sum comp_def)
  have "sn_balance s ccy = sn_balance (builder_init [] acc) ccy + ledger_flow ccy (list_transactions db)"
    by (rule replay_exact [where k = k])
      (use assms in \<open>simp_all add: replay_projections_def list_all_iff ledger_volume_def perm\<close>)
  then show ?thesis by (simp add: ledger_flow_def perm)
qed

theorem replayed_balance_is_net_flow_witness:
  "\<exists>s. replay_projections ex_ledger [] ''default'' [] = ret s \<and> sn_balance s ''USDT'' = ledger_flow ''USDT'' ex_ledger
     \<and> ledger_flow ''USDT'' ex_ledger = 9097 / 10"
proof -
  have h: "list_all (\<lambda>x. list_all (\<lambda>e. places 1 (le_amount e)) (x_entries x)) ex_ledger"
  proof -
    have "concat (map (\<lambda>x. map le_amount (x_entries x)) ex_ledger) =
      [200, 1 / 5, 2002 / 10, 1000, 1000, 110, 100, 10, 1 / 10, 1 / 10]" by code_simp
    then have "\<forall>a \<in> set (concat (map (\<lambda>x. map le_amount (x_entries x)) ex_ledger)). places 1 a"
      by (simp only: list.set) (simp add: places_def)
    then show ?thesis by (auto simp: list_all_iff)
  qed
  have "(case replay_projections ex_ledger [] ''default'' [] of Inr s \<Rightarrow> True | Inl _ \<Rightarrow> False)" by code_simp
  from case_InrD [OF this] obtain s where r: "replay_projections ex_ledger [] ''default'' [] = ret s" by blast
  have "ledger_volume ex_ledger \<le> 10 ^ 28 / 10 ^ 1" by code_simp
  from replayed_balance_is_net_flow [OF r h this] r show ?thesis
    by (intro exI [of _ s] conjI) (assumption | code_simp)+
qed

subsection \<open>Initial balances\<close>

text \<open>Refreshing the projections with the initial balances when the deposit that brought them
  in is already in the ledger counts them twice: the stored total is the double of what the
  replay without them, which the account view uses, shows.\<close>

theorem refresh_double_counts_deposit:
  "(case portfolio_refresh \<lparr> pj_accounts = [], pj_positions = [] \<rparr> [ex_deposit_tx ''a'' 1 10000] [(''USDT'', 10000)] 5 of
      (pj, _) \<Rightarrow> get_balance pj ''USDT'' = 20000)
   \<and> (case get_account [ex_deposit_tx ''a'' 1 10000] PAPER 5 of
        Inr a \<Rightarrow> map (\<lambda>(c, b). b_total b) (a_balances a) = [10000] | Inl _ \<Rightarrow> False)"
  by code_simp

end
