(* ===== verification/Perpetual.thy ===== *)
theory Perpetual
  imports Ledger
begin

text \<open>
  \<open>perpetual/domain.py\<close>, \<open>margin.py\<close>, \<open>funding.py\<close> and \<open>liquidation.py\<close>: contracts and margin
  positions of perpetual futures and the calculators for margins, funding payments and
  liquidation, with the rounding of every decimal operation. The optional tier provider is code
  outside the repository and a parameter.
\<close>

subsection \<open>Data\<close>

datatype margin_mode = ISOLATED | CROSS

record perpetual_contract =
  pc_symbol :: string
  pc_type :: market_type
  pc_base :: string
  pc_quote :: string
  pc_settlement :: string
  pc_size :: dec
  pc_tick :: dec
  pc_step :: dec
  pc_margin_asset :: string
  pc_max_leverage :: dec
  pc_maker_fee :: dec
  pc_taker_fee :: dec
  pc_funding_hours :: dec

record margin_position =
  mp_symbol :: string
  mp_side :: position_side
  mp_qty :: dec
  mp_entry :: dec
  mp_leverage :: dec
  mp_mode :: margin_mode
  mp_initial :: dec
  mp_maintenance :: dec
  mp_mark :: dec
  mp_liquidation :: "dec option"
  mp_unrealized :: dec
  mp_realized :: dec
  mp_funding_paid :: dec
  mp_funding_received :: dec
  mp_ts :: usec

definition new_margin_position :: "string \<Rightarrow> position_side \<Rightarrow> dec \<Rightarrow> dec \<Rightarrow> dec \<Rightarrow> dec \<Rightarrow> usec \<Rightarrow> margin_position" where
  "new_margin_position sy side qty entry lev margin now =
     \<lparr> mp_symbol = sy, mp_side = side, mp_qty = qty, mp_entry = entry, mp_leverage = lev, mp_mode = ISOLATED,
       mp_initial = margin, mp_maintenance = 0, mp_mark = 0, mp_liquidation = None, mp_unrealized = 0,
       mp_realized = 0, mp_funding_paid = 0, mp_funding_received = 0, mp_ts = now \<rparr>"

definition is_flat :: "margin_position \<Rightarrow> bool" where
  "is_flat p \<longleftrightarrow> mp_side p = FLAT \<or> mp_qty p = 0"

definition mp_notional :: "margin_position \<Rightarrow> dec" where
  "mp_notional p = dmul (dabs (mp_qty p)) (mp_entry p)"

subsection \<open>Margins\<close>

record margin_state =
  mg_balance :: dec
  mg_positions :: "margin_position list"

definition open_positions :: "margin_state \<Rightarrow> margin_position list" where
  "open_positions s = filter (\<lambda>p. \<not> is_flat p) (mg_positions s)"

definition position_notional :: "margin_state \<Rightarrow> dec" where
  "position_notional s = dsum (map mp_notional (open_positions s))"

definition total_initial_margin :: "margin_state \<Rightarrow> dec" where
  "total_initial_margin s = dsum (map mp_initial (open_positions s))"

definition total_maintenance_margin :: "margin_state \<Rightarrow> dec" where
  "total_maintenance_margin s = dsum (map mp_maintenance (open_positions s))"

definition total_unrealized_pnl :: "margin_state \<Rightarrow> dec" where
  "total_unrealized_pnl s = dsum (map mp_unrealized (open_positions s))"

definition effective_leverage :: "dec \<Rightarrow> dec \<Rightarrow> dec" where
  "effective_leverage leverage max_leverage = min (if leverage \<le> 0 then 1 else leverage) max_leverage"

definition contract_notional :: "perpetual_contract \<Rightarrow> dec \<Rightarrow> dec \<Rightarrow> dec" where
  "contract_notional c qty price = dmul (dmul (dabs qty) price) (pc_size c)"

definition initial_margin ::
  "(string \<Rightarrow> dec \<Rightarrow> dec) option \<Rightarrow> perpetual_contract \<Rightarrow> dec \<Rightarrow> dec \<Rightarrow> dec \<Rightarrow> dec res" where
  "initial_margin tier c qty price leverage =
     (let lev = effective_leverage leverage (pc_max_leverage c);
          notional = contract_notional c qty price
      in case tier of
           Some f \<Rightarrow> ret (dmul notional (f (pc_symbol c) notional))
         | None \<Rightarrow> if lev = 0 then raise (if notional = 0 then InvalidOperation else ZeroDivisionError)
                   else ret (ddiv notional lev))"

definition default_maintenance_rate :: "dec \<Rightarrow> dec" where
  "default_maintenance_rate notional =
     (if 1000000 \<le> notional then 5 / 1000 else if 100000 \<le> notional then 25 / 10000 else 1 / 1000)"

definition maintenance_margin :: "perpetual_contract \<Rightarrow> dec \<Rightarrow> dec \<Rightarrow> string option \<Rightarrow> dec res" where
  "maintenance_margin c qty price rate =
     (let notional = contract_notional c qty price
      in rbind (case rate of Some r \<Rightarrow> (if r \<noteq> [] then D (PyStr r) else ret (default_maintenance_rate notional))
                | None \<Rightarrow> ret (default_maintenance_rate notional))
           (\<lambda>m. ret (dmul notional m)))"

definition available_margin :: "margin_state \<Rightarrow> dec \<Rightarrow> dec" where
  "available_margin s balance = dsub balance (total_initial_margin s)"

definition margin_ratio :: "margin_state \<Rightarrow> dec \<Rightarrow> dec \<times> bool" where
  "margin_ratio s balance =
     (let m = total_maintenance_margin s
      in if m \<le> 0 then (999, True)
         else (let r = ddiv (dadd balance (total_unrealized_pnl s)) m in (r, 1 \<le> r)))"

definition position_equity :: "margin_position \<Rightarrow> dec" where
  "position_equity p = dadd (mp_initial p) (mp_unrealized p)"

definition liquidation_distance :: "margin_position \<Rightarrow> perpetual_contract \<Rightarrow> dec" where
  "liquidation_distance p c =
     (if is_flat p \<or> mp_qty p = 0 then 0
      else (let per_qty = dmul (dabs (mp_qty p)) (pc_size c)
            in if per_qty \<le> 0 then 0 else ddiv (dsub (mp_initial p) (mp_maintenance p)) per_qty))"

subsection \<open>Funding\<close>

record funding_payment =
  fp_symbol :: string
  fp_side :: position_side
  fp_amount :: dec
  fp_rate :: dec
  fp_notional :: dec
  fp_ts :: usec

definition funding_of :: "margin_position \<Rightarrow> dec \<Rightarrow> dec \<Rightarrow> dec \<Rightarrow> usec \<Rightarrow> funding_payment" where
  "funding_of p rate mark cs now =
     (if is_flat p then
        \<lparr> fp_symbol = mp_symbol p, fp_side = FLAT, fp_amount = 0, fp_rate = rate, fp_notional = 0, fp_ts = now \<rparr>
      else
        (let notional = dmul (dmul (dabs (mp_qty p)) mark) cs;
             raw = dmul notional rate;
             amount = (if mp_side p = LONG then dneg raw else raw)
         in \<lparr> fp_symbol = mp_symbol p, fp_side = mp_side p, fp_amount = amount, fp_rate = rate,
              fp_notional = notional, fp_ts = now \<rparr>))"

definition apply_funding_to :: "margin_position \<Rightarrow> funding_payment \<Rightarrow> margin_position" where
  "apply_funding_to p f =
     (let p1 = (if 0 < fp_amount f then p\<lparr> mp_funding_received := dadd (mp_funding_received p) (fp_amount f) \<rparr>
                else p\<lparr> mp_funding_paid := dadd (mp_funding_paid p) (dneg (fp_amount f)) \<rparr>)
      in p1\<lparr> mp_realized := dadd (mp_realized p1) (fp_amount f) \<rparr>)"

subsection \<open>Liquidation\<close>

record liquidation_price =
  lq_value :: dec
  lq_side :: position_side
  lq_mode :: margin_mode
  lq_distance :: dec

record liquidation_result =
  lr_symbol :: string
  lr_side :: position_side
  lr_liquidated :: bool
  lr_price :: dec
  lr_bankruptcy :: dec
  lr_remaining :: dec
  lr_fee :: dec

definition liquidation_price_of :: "margin_position \<Rightarrow> perpetual_contract \<Rightarrow> liquidation_price" where
  "liquidation_price_of p c =
     (let none = \<lparr> lq_value = 0, lq_side = mp_side p, lq_mode = mp_mode p, lq_distance = 0 \<rparr>;
          qty = dmul (dabs (mp_qty p)) (pc_size c);
          price = mp_entry p;
          room = ddiv (dsub (mp_initial p) (mp_maintenance p)) qty;
          liq = (if mp_side p = LONG then dsub price room else dadd price room)
      in if is_flat p \<or> mp_qty p = 0 then none
         else if qty \<le> 0 then none
         else \<lparr> lq_value = liq, lq_side = mp_side p, lq_mode = mp_mode p,
                lq_distance = (if 0 < price then ddiv (dsub liq price) price else 0) \<rparr>)"

definition evaluate_liquidation ::
  "dec \<Rightarrow> margin_position \<Rightarrow> perpetual_contract \<Rightarrow> dec \<Rightarrow> liquidation_result res" where
  "evaluate_liquidation fee_rate p c mark =
     (if is_flat p then
        ret \<lparr> lr_symbol = mp_symbol p, lr_side = mp_side p, lr_liquidated = False, lr_price = 0,
              lr_bankruptcy = 0, lr_remaining = 0, lr_fee = 0 \<rparr>
      else
        (let liq = liquidation_price_of p c;
             liquidated = (mp_side p = LONG \<and> mark \<le> lq_value liq) \<or> (mp_side p = SHORT \<and> lq_value liq \<le> mark);
             fee = dmul (dmul (dmul (dabs (mp_qty p)) mark) (pc_size c)) fee_rate;
             qty = dmul (dabs (mp_qty p)) (pc_size c)
         in if qty = 0 then raise (if mp_initial p = 0 then InvalidOperation else ZeroDivisionError)
            else
              (let room = ddiv (mp_initial p) qty;
                   bankruptcy = (if mp_side p = LONG then dsub (mp_entry p) room else dadd (mp_entry p) room)
               in ret \<lparr> lr_symbol = mp_symbol p, lr_side = mp_side p, lr_liquidated = liquidated,
                        lr_price = lq_value liq, lr_bankruptcy = bankruptcy,
                        lr_remaining = max (dsub (dadd (mp_initial p) (mp_unrealized p)) fee) 0, lr_fee = fee \<rparr>)))"

subsection \<open>Margins and prices\<close>

lemma dmul_mono: "x \<le> y \<Longrightarrow> 0 \<le> a \<Longrightarrow> dmul a x \<le> dmul a y"
  unfolding dmul_def by (rule dec.rnd_mono) (simp add: mult_left_mono)

lemma ddiv_mono: "x \<le> y \<Longrightarrow> 0 < q \<Longrightarrow> ddiv x q \<le> ddiv y q"
  unfolding ddiv_def by (rule dec.rnd_mono) (simp add: divide_right_mono)

lemma dsub_antimono: "x \<le> y \<Longrightarrow> dsub a y \<le> dsub a x"
  unfolding dsub_def by (rule dec.rnd_mono) simp

lemma dadd_mono: "x \<le> y \<Longrightarrow> dadd a x \<le> dadd a y"
  unfolding dadd_def by (rule dec.rnd_mono) simp

lemma default_rate_bounds: "0 \<le> default_maintenance_rate n" "default_maintenance_rate n \<le> 1 / 200"
  by (simp_all add: default_maintenance_rate_def)

lemma effective_leverage_bounds:
  "0 < m \<Longrightarrow> 0 < effective_leverage l m" "effective_leverage l m \<le> m"
  by (auto simp: effective_leverage_def)

text \<open>The initial margin of a position always covers its maintenance margin, whatever leverage is
  asked for, for contracts whose maximum leverage is at most 200.\<close>

theorem initial_margin_covers_maintenance:
  assumes "0 < pc_max_leverage c" "pc_max_leverage c \<le> 200" "0 \<le> price" "0 \<le> pc_size c"
  shows "\<exists>i m. initial_margin None c qty price lev = ret i \<and> maintenance_margin c qty price None = ret m \<and>
    0 \<le> m \<and> m \<le> i"
proof -
  define n where "n = contract_notional c qty price"
  define l where "l = effective_leverage lev (pc_max_leverage c)"
  have n: "0 \<le> n" using assms by (simp add: n_def contract_notional_def dmul_nonneg)
  have l: "0 < l" "l \<le> 200"
    using effective_leverage_bounds(1) [of "pc_max_leverage c" lev]
      effective_leverage_bounds(2) [of lev "pc_max_leverage c"] assms by (auto simp: l_def)
  have "default_maintenance_rate n * l \<le> 1 / 200 * 200"
    using default_rate_bounds [of n] l by (intro mult_mono) simp_all
  then have "default_maintenance_rate n \<le> 1 / l" using l by (simp add: pos_le_divide_eq)
  then have "n * default_maintenance_rate n \<le> n * (1 / l)" using n by (rule mult_left_mono)
  then have "dmul n (default_maintenance_rate n) \<le> ddiv n l"
    unfolding dmul_def ddiv_def by (intro dec.rnd_mono) simp
  moreover have "0 \<le> dmul n (default_maintenance_rate n)" using n default_rate_bounds by (simp add: dmul_nonneg)
  ultimately show ?thesis using l
    by (simp add: initial_margin_def maintenance_margin_def Let_def n_def [symmetric] l_def [symmetric])
qed

definition ex_contract :: perpetual_contract where
  "ex_contract = \<lparr> pc_symbol = ''BTC'', pc_type = PERPETUAL, pc_base = ''BTC'', pc_quote = ''USDT'',
     pc_settlement = ''USDT'', pc_size = 1, pc_tick = 1 / 100, pc_step = 1 / 1000, pc_margin_asset = ''USDT'',
     pc_max_leverage = 6, pc_maker_fee = 2 / 10000, pc_taker_fee = 5 / 10000, pc_funding_hours = 8 \<rparr>"

theorem initial_margin_covers_maintenance_witness:
  "\<exists>i m. initial_margin None ex_contract 2 100 50 = ret i \<and> maintenance_margin ex_contract 2 100 None = ret m \<and>
    0 \<le> m \<and> m \<le> i"
  by (rule initial_margin_covers_maintenance) (simp_all add: ex_contract_def)

text \<open>A position is liquidated no later than it is bankrupt: with a maintenance margin that is not
  negative, the liquidation price of a long is at or above its bankruptcy price and that of a
  short at or below it.\<close>

theorem liquidated_before_bankruptcy:
  assumes "evaluate_liquidation fee_rate p c mark = ret r" "\<not> is_flat p" "0 < pc_size c"
    and "0 \<le> mp_maintenance p" "dround (mp_initial p) = mp_initial p"
  shows "lr_price r = lq_value (liquidation_price_of p c) \<and>
    (if mp_side p = LONG then lr_bankruptcy r \<le> lr_price r else lr_price r \<le> lr_bankruptcy r)"
proof -
  define q where "q = dmul (dabs (mp_qty p)) (pc_size c)"
  have "0 < \<bar>mp_qty p\<bar>" using assms(2) by (simp add: is_flat_def)
  then have "0 < dabs (mp_qty p)" by (metis abs_idempotent dabs_def dabs_nonneg dround_eq_0_iff less_le)
  then have q: "0 < q" using assms(3) by (metis dmul_def dmul_nonneg dround_eq_0_iff less_le mult_pos_pos q_def)
  have "dsub (mp_initial p) (mp_maintenance p) \<le> mp_initial p"
    using assms(4,5) unfolding dsub_def by (intro dec.rnd_le_fixed) simp_all
  then have "ddiv (dsub (mp_initial p) (mp_maintenance p)) q \<le> ddiv (mp_initial p) q" using q by (rule ddiv_mono)
  then have "dsub (mp_entry p) (ddiv (mp_initial p) q) \<le> dsub (mp_entry p) (ddiv (dsub (mp_initial p) (mp_maintenance p)) q)"
    "dadd (mp_entry p) (ddiv (dsub (mp_initial p) (mp_maintenance p)) q) \<le> dadd (mp_entry p) (ddiv (mp_initial p) q)"
    by (rule dsub_antimono, rule dadd_mono)
  then show ?thesis
    using assms(1,2) q by (auto simp: evaluate_liquidation_def liquidation_price_of_def Let_def q_def [symmetric] is_flat_def)
qed

definition ex_long :: margin_position where
  "ex_long = (new_margin_position ''BTC'' LONG 2 100 5 40 0)\<lparr> mp_maintenance := 1 \<rparr>"

theorem liquidated_before_bankruptcy_witness:
  "\<exists>r. evaluate_liquidation (5 / 10000) ex_long ex_contract 80 = ret r \<and> lr_bankruptcy r \<le> lr_price r"
proof -
  have "(case evaluate_liquidation (5 / 10000) ex_long ex_contract 80 of Inr r \<Rightarrow> True | Inl _ \<Rightarrow> False)" by code_simp
  then obtain r where r: "evaluate_liquidation (5 / 10000) ex_long ex_contract 80 = ret r" using case_InrD by blast
  have p: "\<not> is_flat ex_long" "0 < pc_size ex_contract" "0 \<le> mp_maintenance ex_long"
    "dround (mp_initial ex_long) = mp_initial ex_long" by code_simp+
  have "mp_side ex_long = LONG" by code_simp
  then show ?thesis using liquidated_before_bankruptcy [OF r p] r by auto
qed

text \<open>Funding is a transfer between the two sides: for the same quantity, mark price and rate the
  amount of a short is exactly the negated amount of a long; a positive rate makes the long pay.\<close>

theorem funding_zero_sum:
  assumes "mp_side p = LONG" "mp_side p' = SHORT" "\<bar>mp_qty p\<bar> = \<bar>mp_qty p'\<bar>" "mp_qty p \<noteq> 0"
  shows "fp_amount (funding_of p rate mark cs now) = - fp_amount (funding_of p' rate mark cs now') \<and>
    (0 \<le> rate \<and> 0 \<le> mark \<and> 0 \<le> cs \<longrightarrow> fp_amount (funding_of p rate mark cs now) \<le> 0)"
proof -
  define n where "n = dmul (dmul (dabs (mp_qty p)) mark) cs"
  have n: "dmul (dmul (dabs (mp_qty p')) mark) cs = n" using assms(3) by (simp add: n_def dabs_def)
  have q: "mp_qty p' \<noteq> 0" using assms by auto
  have a: "fp_amount (funding_of p rate mark cs now) = - dmul n rate" "fp_amount (funding_of p' rate mark cs now') = dmul n rate"
    using assms q n by (simp_all add: funding_of_def is_flat_def Let_def n_def [symmetric] dneg_def dec.rnd_uminus)
  then show ?thesis by (auto simp: n_def intro!: dmul_nonneg)
qed

theorem funding_zero_sum_witness:
  "fp_amount (funding_of ex_long (1 / 10000) 100 1 0) =
     - fp_amount (funding_of (ex_long\<lparr> mp_side := SHORT, mp_qty := - 2 \<rparr>) (1 / 10000) 100 1 0)"
proof -
  have "mp_side ex_long = LONG" "mp_side (ex_long\<lparr> mp_side := SHORT, mp_qty := - 2 \<rparr>) = SHORT"
    "\<bar>mp_qty ex_long\<bar> = \<bar>mp_qty (ex_long\<lparr> mp_side := SHORT, mp_qty := - 2 \<rparr>)\<bar>" "mp_qty ex_long \<noteq> 0"
    by (simp_all add: ex_long_def new_margin_position_def)
  from funding_zero_sum [OF this, of "1 / 10000" 100 1 0 0] show ?thesis by blast
qed

end
