(* ===== verification/Futures_Ledger.thy ===== *)
theory Futures_Ledger
  imports Projections Perpetual
begin

text \<open>
  \<open>perpetual/ledger.py\<close> and \<open>perpetual/engine.py\<close>: the journals of perpetual futures, the
  projection that replays them, and the paper engine on top. The lemmas show that every journal
  balances by construction, that replaying what the engine records always succeeds with
  well-formed positions, and what is missing in a liquidation.
\<close>

subsection \<open>Journals\<close>

fun pside_text :: "position_side \<Rightarrow> string" where
  "pside_text LONG = ''LONG''"
| "pside_text SHORT = ''SHORT''"
| "pside_text FLAT = ''FLAT''"

definition parse_pside :: "json \<Rightarrow> position_side res" where
  "parse_pside v = (if v = JStr ''LONG'' then ret LONG else if v = JStr ''SHORT'' then ret SHORT
     else if v = JStr ''FLAT'' then ret FLAT else raise ValueError)"

abbreviation args_for :: "string option \<Rightarrow> meta \<Rightarrow> record_args" where
  "args_for oid m \<equiv> no_record_args\<lparr> ra_order := oid, ra_meta := m \<rparr>"

definition margin_post ::
  "ledger_db \<Rightarrow> string \<Rightarrow> (nat \<Rightarrow> string) \<Rightarrow> usec \<Rightarrow> perpetual_contract \<Rightarrow> dec \<Rightarrow> string option
     \<Rightarrow> ledger_db \<times> ledger_transaction res" where
  "margin_post db new ids now c amount oid =
     (let sy = pc_symbol c; a = pc_margin_asset c
      in ledger_record db new ids now FUTURES_MARGIN_POST
           [post (''MARGIN:'' @ sy) DEBIT amount a, post ''CASH'' CREDIT amount a]
           (args_for oid [(''symbol'', JStr sy), (''amount'', JDec amount)]))"

definition margin_release_entry ::
  "ledger_db \<Rightarrow> string \<Rightarrow> (nat \<Rightarrow> string) \<Rightarrow> usec \<Rightarrow> perpetual_contract \<Rightarrow> dec \<Rightarrow> string option
     \<Rightarrow> ledger_db \<times> ledger_transaction res" where
  "margin_release_entry db new ids now c amount oid =
     (let sy = pc_symbol c; a = pc_margin_asset c
      in ledger_record db new ids now FUTURES_MARGIN_RELEASE
           [post ''CASH'' DEBIT amount a, post (''MARGIN:'' @ sy) CREDIT amount a]
           (args_for oid [(''symbol'', JStr sy), (''amount'', JDec amount)]))"

definition open_postings :: "perpetual_contract \<Rightarrow> dec \<Rightarrow> dec \<Rightarrow> dec \<Rightarrow> posting list" where
  "open_postings c notional fee margin =
     (let sy = pc_symbol c; a = pc_margin_asset c in
      [post (''FUTURES_POSITION_ASSET:'' @ sy) DEBIT notional a,
       post (''FUTURES_POSITION_LIABILITY:'' @ sy) CREDIT notional a,
       post ''FUTURES_TRADING_FEE'' DEBIT fee a, post ''CASH'' CREDIT fee a,
       post (''MARGIN:'' @ sy) DEBIT margin a, post ''CASH'' CREDIT margin a])"

definition open_meta :: "string \<Rightarrow> position_side \<Rightarrow> dec \<Rightarrow> dec \<Rightarrow> dec \<Rightarrow> dec \<Rightarrow> dec \<Rightarrow> meta" where
  "open_meta sy side qty entry lev margin fee =
     [(''symbol'', JStr sy), (''side'', JStr (pside_text side)), (''quantity'', JDec qty),
      (''entry_price'', JDec entry), (''leverage'', JDec lev), (''initial_margin'', JDec margin),
      (''fee'', JDec fee), (''action'', JStr ''OPEN'')]"

definition record_open ::
  "ledger_db \<Rightarrow> string \<Rightarrow> (nat \<Rightarrow> string) \<Rightarrow> usec \<Rightarrow> perpetual_contract \<Rightarrow> position_side \<Rightarrow> dec \<Rightarrow> dec \<Rightarrow> dec \<Rightarrow> dec
     \<Rightarrow> dec \<Rightarrow> string option \<Rightarrow> ledger_db \<times> ledger_transaction res" where
  "record_open db new ids now c side qty entry lev margin fee oid =
     ledger_record db new ids now (if 0 < fee then FUTURES_TRADING_FEE else FUTURES_MARGIN_POST)
       (open_postings c (contract_notional c qty entry) fee margin)
       (args_for oid (open_meta (pc_symbol c) side qty entry lev margin fee))"

definition close_postings :: "perpetual_contract \<Rightarrow> dec \<Rightarrow> dec \<Rightarrow> dec \<Rightarrow> dec \<Rightarrow> posting list" where
  "close_postings c notional pnl fee release =
     (let sy = pc_symbol c; a = pc_margin_asset c in
      [post (''FUTURES_POSITION_LIABILITY:'' @ sy) DEBIT notional a,
       post (''FUTURES_POSITION_ASSET:'' @ sy) CREDIT notional a] @
      (if 0 < pnl then [post ''CASH'' DEBIT pnl a, post ''FUTURES_REALIZED_PNL'' CREDIT pnl a]
       else if pnl < 0 then [post ''FUTURES_REALIZED_PNL'' DEBIT (dneg pnl) a, post ''CASH'' CREDIT (dneg pnl) a]
       else []) @
      (if 0 < fee then [post ''FUTURES_TRADING_FEE'' DEBIT fee a, post ''CASH'' CREDIT fee a] else []) @
      (if 0 < release then [post ''CASH'' DEBIT release a, post (''MARGIN:'' @ sy) CREDIT release a] else []))"

definition close_meta :: "string \<Rightarrow> position_side \<Rightarrow> dec \<Rightarrow> dec \<Rightarrow> dec \<Rightarrow> dec \<Rightarrow> dec \<Rightarrow> dec \<Rightarrow> meta" where
  "close_meta sy side qty entry exit pnl fee release =
     [(''symbol'', JStr sy), (''side'', JStr (pside_text side)), (''quantity'', JDec qty),
      (''entry_price'', JDec entry), (''exit_price'', JDec exit), (''realized_pnl'', JDec pnl),
      (''fee'', JDec fee), (''margin_release'', JDec release), (''action'', JStr ''CLOSE'')]"

definition record_close ::
  "ledger_db \<Rightarrow> string \<Rightarrow> (nat \<Rightarrow> string) \<Rightarrow> usec \<Rightarrow> perpetual_contract \<Rightarrow> position_side \<Rightarrow> dec \<Rightarrow> dec \<Rightarrow> dec \<Rightarrow> dec
     \<Rightarrow> dec \<Rightarrow> dec \<Rightarrow> string option \<Rightarrow> ledger_db \<times> ledger_transaction res" where
  "record_close db new ids now c side qty entry exit pnl fee release oid =
     ledger_record db new ids now FUTURES_REALIZED_PNL
       (close_postings c (contract_notional c qty entry) pnl fee release)
       (args_for oid (close_meta (pc_symbol c) side qty entry exit pnl fee release))"

definition funding_postings :: "perpetual_contract \<Rightarrow> dec \<Rightarrow> posting list" where
  "funding_postings c amount =
     (let a = pc_margin_asset c in
      if 0 < amount then [post ''CASH'' DEBIT amount a, post ''FUNDING_RECEIPT'' CREDIT amount a]
      else [post ''FUNDING_PAYMENT'' DEBIT (dneg amount) a, post ''CASH'' CREDIT (dneg amount) a])"

definition record_funding ::
  "ledger_db \<Rightarrow> string \<Rightarrow> (nat \<Rightarrow> string) \<Rightarrow> usec \<Rightarrow> perpetual_contract \<Rightarrow> position_side \<Rightarrow> dec \<Rightarrow> dec \<Rightarrow> dec
     \<Rightarrow> string option \<Rightarrow> ledger_db \<times> unit res" where
  "record_funding db new ids now c side amount rate notional oid =
     (if amount = 0 then (db, ret ())
      else case ledger_record db new ids now (if 0 < amount then FUNDING_RECEIPT else FUNDING_PAYMENT)
             (funding_postings c amount)
             (args_for oid [(''symbol'', JStr (pc_symbol c)), (''side'', JStr (pside_text side)),
                (''rate'', JDec rate), (''notional'', JDec notional)]) of
        (db', Inl e) \<Rightarrow> (db', Inl e) | (db', Inr _) \<Rightarrow> (db', ret ()))"

subsection \<open>The projection\<close>

record futures_snapshot =
  fj_positions :: "(string, margin_position) dict"
  fj_margin :: dec
  fj_realized :: dec
  fj_paid :: dec
  fj_received :: dec
  fj_fees :: dec

definition empty_futures :: futures_snapshot where
  "empty_futures = \<lparr> fj_positions = [], fj_margin = 0, fj_realized = 0, fj_paid = 0, fj_received = 0, fj_fees = 0 \<rparr>"

definition signed_qty :: "position_side \<Rightarrow> dec \<Rightarrow> dec" where
  "signed_qty side q = (if side = LONG then q else dneg q)"

definition put_position :: "string \<Rightarrow> margin_position \<Rightarrow> futures_snapshot \<Rightarrow> futures_snapshot" where
  "put_position sy p s = s\<lparr> fj_positions := AList.update sy p (fj_positions s) \<rparr>"

text \<open>What an opening does to a position that is not flat.\<close>

definition open_onto :: "position_side \<Rightarrow> dec \<Rightarrow> dec \<Rightarrow> dec \<Rightarrow> margin_position \<Rightarrow> margin_position res" where
  "open_onto side qty entry margin p =
     (let old_abs = dabs (mp_qty p) in
      if mp_side p = side then
        (let new_abs = dadd old_abs qty in
         rbind (div_res (dadd (dmul (mp_entry p) old_abs) (dmul entry qty)) new_abs) (\<lambda>avg.
           ret (p\<lparr> mp_entry := avg, mp_qty := signed_qty side new_abs, mp_initial := dadd (mp_initial p) margin \<rparr>)))
      else if old_abs \<le> qty then
        (let remaining = dsub qty old_abs in
         ret (if remaining = 0 then p\<lparr> mp_side := FLAT, mp_qty := 0, mp_entry := 0, mp_initial := 0 \<rparr>
              else p\<lparr> mp_side := side, mp_qty := signed_qty side remaining, mp_entry := entry, mp_initial := margin \<rparr>))
      else
        rbind (div_res (dmul (mp_initial p) (dsub old_abs qty)) old_abs) (\<lambda>m.
          ret (p\<lparr> mp_qty := signed_qty (mp_side p) (dsub old_abs qty), mp_initial := max m 0 \<rparr>)))"

definition apply_open :: "usec \<Rightarrow> string \<Rightarrow> meta \<Rightarrow> futures_snapshot \<Rightarrow> futures_snapshot res" where
  "apply_open now sy m s =
     rbind (rbind (meta_item m ''side'') parse_pside) (\<lambda>side.
     rbind (rbind (meta_item m ''quantity'') json_D) (\<lambda>qty.
     rbind (rbind (meta_item m ''entry_price'') json_D) (\<lambda>entry.
     rbind (rbind (meta_item m ''initial_margin'') json_D) (\<lambda>margin.
     rbind (rbind (meta_item m ''leverage'') json_D) (\<lambda>lev.
     rbind (case map_of (fj_positions s) sy of
              None \<Rightarrow> ret (new_margin_position sy side (signed_qty side qty) entry lev margin now)
            | Some p \<Rightarrow>
                if is_flat p then ret (new_margin_position sy side (signed_qty side qty) entry lev margin now)
                else open_onto side qty entry margin p)
       (\<lambda>p. let s1 = put_position sy p s in ret (s1\<lparr> fj_margin := dadd (fj_margin s1) margin \<rparr>)))))))"

definition apply_close :: "string \<Rightarrow> meta \<Rightarrow> futures_snapshot \<Rightarrow> futures_snapshot res" where
  "apply_close sy m s =
     (case map_of (fj_positions s) sy of
        None \<Rightarrow> ret s
      | Some p \<Rightarrow>
          rbind (rbind (meta_item m ''quantity'') json_D) (\<lambda>qty.
          rbind (rbind (meta_item m ''realized_pnl'') json_D) (\<lambda>pnl.
          rbind (rbind (meta_item m ''margin_release'') json_D) (\<lambda>release.
            let s1 = s\<lparr> fj_realized := dadd (fj_realized s) pnl,
                        fj_margin := max (dsub (fj_margin s) release) 0 \<rparr>;
                remaining = dsub (dabs (mp_qty p)) qty
            in ret (if remaining \<le> 0 then s1\<lparr> fj_positions := AList.delete sy (fj_positions s1) \<rparr>
                    else put_position sy (p\<lparr> mp_qty := signed_qty (mp_side p) remaining,
                           mp_initial := max (dsub (mp_initial p) release) 0 \<rparr>) s1)))))"

definition futures_fee :: "ledger_entry \<Rightarrow> bool" where
  "futures_fee e \<longleftrightarrow> (le_account e = ''FUTURES_TRADING_FEE'' \<or> le_account e = ''LIQUIDATION_FEE'') \<and> le_dir e = DEBIT"

fun add_fees :: "ledger_entry list \<Rightarrow> futures_snapshot \<Rightarrow> futures_snapshot" where
  "add_fees [] s = s"
| "add_fees (e # es) s = add_fees es (if futures_fee e then s\<lparr> fj_fees := dadd (fj_fees s) (le_amount e) \<rparr> else s)"

fun add_funding :: "ledger_entry list \<Rightarrow> futures_snapshot \<Rightarrow> futures_snapshot" where
  "add_funding [] s = s"
| "add_funding (e # es) s = add_funding es
     (if le_account e = ''FUNDING_PAYMENT'' \<and> le_dir e = DEBIT then s\<lparr> fj_paid := dadd (fj_paid s) (le_amount e) \<rparr>
      else if le_account e = ''FUNDING_RECEIPT'' \<and> le_dir e = CREDIT
           then s\<lparr> fj_received := dadd (fj_received s) (le_amount e) \<rparr>
      else s)"

definition apply_futures_tx :: "usec \<Rightarrow> ledger_tx \<Rightarrow> futures_snapshot \<Rightarrow> futures_snapshot res" where
  "apply_futures_tx now x s =
     (let m = x_meta x in
      case meta_str m ''symbol'' of
        None \<Rightarrow> ret s
      | Some sy \<Rightarrow>
          if sy = [] then ret s
          else (let s1 = add_fees (x_entries x) s in
                if map_of m ''action'' = Some (JStr ''OPEN'') then apply_open now sy m s1
                else if map_of m ''action'' = Some (JStr ''CLOSE'') then apply_close sy m s1
                else if x_type x \<in> set [FUNDING_PAYMENT, FUNDING_RECEIPT] then ret (add_funding (x_entries x) s1)
                else ret s1))"

definition rebuild_futures :: "usec \<Rightarrow> ledger_db \<Rightarrow> futures_snapshot res" where
  "rebuild_futures now db = rfold (apply_futures_tx now) (list_transactions db) empty_futures"

subsection \<open>The paper engine\<close>

record perp_account =
  pa_positions :: "(string, margin_position) dict"
  pa_cash :: dec
  pa_margin :: dec
  pa_realized :: dec
  pa_paid :: dec
  pa_received :: dec
  pa_fees :: dec

record perp_engine =
  pe_contract :: perpetual_contract
  pe_contracts :: "(string, perpetual_contract) dict"
  pe_ledger :: ledger_db
  pe_fee_rate :: dec
  pe_cache :: "perp_account option"

fun register_contracts :: "perpetual_contract list \<Rightarrow> (string, perpetual_contract) dict \<Rightarrow> (string, perpetual_contract) dict" where
  "register_contracts [] d = d"
| "register_contracts (c # cs) d = register_contracts cs (AList.update (pc_symbol c) c d)"

definition perp_engine_init :: "ledger_db \<Rightarrow> perpetual_contract \<Rightarrow> perpetual_contract list \<Rightarrow> perp_engine" where
  "perp_engine_init db c cs = \<lparr> pe_contract = c, pe_contracts = register_contracts cs [(pc_symbol c, c)],
     pe_ledger = db, pe_fee_rate = 5 / 10000, pe_cache = None \<rparr>"

definition perp_contract :: "perp_engine \<Rightarrow> string option \<Rightarrow> perpetual_contract" where
  "perp_contract e symbol =
     (if truthy_str symbol
      then (case map_of (pe_contracts e) (the symbol) of Some c \<Rightarrow> c | None \<Rightarrow> pe_contract e)
      else pe_contract e)"

definition load_state :: "usec \<Rightarrow> perp_engine \<Rightarrow> perp_engine \<times> perp_account res" where
  "load_state now e =
     (case rebuild_futures now (pe_ledger e) of
        Inl x \<Rightarrow> (e, Inl x)
      | Inr s \<Rightarrow>
          (let a = \<lparr> pa_positions = fj_positions s, pa_cash = 0, pa_margin = fj_margin s, pa_realized = fj_realized s,
                     pa_paid = fj_paid s, pa_received = fj_received s, pa_fees = fj_fees s \<rparr>
           in (e\<lparr> pe_cache := Some a \<rparr>, ret a)))"

definition put_cached :: "string \<Rightarrow> margin_position \<Rightarrow> perp_account \<Rightarrow> perp_engine \<Rightarrow> perp_engine" where
  "put_cached sy p a e = e\<lparr> pe_cache := Some (a\<lparr> pa_positions := AList.update sy p (pa_positions a) \<rparr>) \<rparr>"

definition open_position ::
  "string \<Rightarrow> (nat \<Rightarrow> string) \<Rightarrow> usec \<Rightarrow> position_side \<Rightarrow> dec \<Rightarrow> dec \<Rightarrow> dec \<Rightarrow> string option \<Rightarrow> string option
     \<Rightarrow> perp_engine \<Rightarrow> perp_engine \<times> margin_position res" where
  "open_position new ids now side quantity price leverage oid symbol e =
     (if side = FLAT then (e, raise ValueError)
      else
        (let c = perp_contract e symbol; qty = dabs quantity;
             lev = effective_leverage leverage (pc_max_leverage c);
             fee = dmul (dmul (dmul qty price) (pc_size c)) (pc_taker_fee c)
         in case initial_margin None c qty price lev of
              Inl x \<Rightarrow> (e, Inl x)
            | Inr im \<Rightarrow>
                (case maintenance_margin c qty price None of
                   Inl x \<Rightarrow> (e, Inl x)
                 | Inr mm \<Rightarrow>
                     (case record_open (pe_ledger e) new ids now c side qty price lev im fee oid of
                        (db, Inl x) \<Rightarrow> (e\<lparr> pe_ledger := db \<rparr>, Inl x)
                      | (db, Inr _) \<Rightarrow>
                          (case load_state now (e\<lparr> pe_ledger := db \<rparr>) of
                             (e1, Inl x) \<Rightarrow> (e1, Inl x)
                           | (e1, Inr a) \<Rightarrow>
                               (case map_of (pa_positions a) (pc_symbol c) of
                                  None \<Rightarrow> (e1, raise KeyErrorC)
                                | Some p \<Rightarrow>
                                    (let p1 = p\<lparr> mp_maintenance := mm \<rparr>;
                                         p2 = p1\<lparr> mp_liquidation := Some (lq_value (liquidation_price_of p1 c)) \<rparr>
                                     in (put_cached (pc_symbol c) p2 a e1, ret p2))))))))"

definition close_position ::
  "string \<Rightarrow> (nat \<Rightarrow> string) \<Rightarrow> usec \<Rightarrow> position_side \<Rightarrow> dec \<Rightarrow> dec \<Rightarrow> string option \<Rightarrow> string option
     \<Rightarrow> perp_engine \<Rightarrow> perp_engine \<times> margin_position option res" where
  "close_position new ids now side quantity exit oid symbol e0 =
     (let c = perp_contract e0 symbol; sy = pc_symbol c
      in case load_state now e0 of
           (e, Inl x) \<Rightarrow> (e, Inl x)
         | (e, Inr a) \<Rightarrow>
             (case map_of (pa_positions a) sy of
                None \<Rightarrow> (e, ret None)
              | Some p \<Rightarrow>
                  if mp_side p \<noteq> side then (e, ret None)
                  else
                    (let qty = min (dabs quantity) (dabs (mp_qty p));
                         entry = mp_entry p;
                         realized = dmul (dmul (if mp_side p = LONG then dsub exit entry else dsub entry exit) qty) (pc_size c);
                         release = (if mp_qty p \<noteq> 0 then ddiv (dmul (mp_initial p) qty) (dabs (mp_qty p)) else 0);
                         fee = dmul (dmul (dmul qty exit) (pc_size c)) (pc_taker_fee c)
                     in case record_close (pe_ledger e) new ids now c side qty entry exit realized fee release oid of
                          (db, Inl x) \<Rightarrow> (e\<lparr> pe_ledger := db \<rparr>, Inl x)
                        | (db, Inr _) \<Rightarrow>
                            (case load_state now (e\<lparr> pe_ledger := db \<rparr>) of
                               (e1, Inl x) \<Rightarrow> (e1, Inl x)
                             | (e1, Inr a1) \<Rightarrow> (e1, ret (map_of (pa_positions a1) sy))))))"

definition apply_funding ::
  "string \<Rightarrow> (nat \<Rightarrow> string) \<Rightarrow> usec \<Rightarrow> dec \<Rightarrow> dec \<Rightarrow> string option \<Rightarrow> perp_engine \<Rightarrow> perp_engine \<times> dec res" where
  "apply_funding new ids now rate mark symbol e0 =
     (let c = perp_contract e0 symbol
      in case load_state now e0 of
           (e, Inl x) \<Rightarrow> (e, Inl x)
         | (e, Inr a) \<Rightarrow>
             (case map_of (pa_positions a) (pc_symbol c) of
                None \<Rightarrow> (e, ret 0)
              | Some p \<Rightarrow>
                  if is_flat p then (e, ret 0)
                  else
                    (let f = funding_of p rate mark (pc_size c) now
                     in if fp_amount f = 0 then (e, ret (fp_amount f))
                        else case record_funding (pe_ledger e) new ids now c (mp_side p) (fp_amount f) (fp_rate f)
                                    (fp_notional f) None of
                          (db, Inl x) \<Rightarrow> (e\<lparr> pe_ledger := db \<rparr>, Inl x)
                        | (db, Inr _) \<Rightarrow>
                            (case load_state now (e\<lparr> pe_ledger := db \<rparr>) of
                               (e1, Inl x) \<Rightarrow> (e1, Inl x) | (e1, Inr _) \<Rightarrow> (e1, ret (fp_amount f))))))"

definition mark_to_market ::
  "usec \<Rightarrow> dec \<Rightarrow> string option \<Rightarrow> perp_engine \<Rightarrow> perp_engine \<times> margin_position option res" where
  "mark_to_market now mark symbol e0 =
     (let c = perp_contract e0 symbol
      in case load_state now e0 of
           (e, Inl x) \<Rightarrow> (e, Inl x)
         | (e, Inr a) \<Rightarrow>
             (case map_of (pa_positions a) (pc_symbol c) of
                None \<Rightarrow> (e, ret None)
              | Some p \<Rightarrow>
                  (let u = (case mp_side p of
                              LONG \<Rightarrow> dmul (dmul (dsub mark (mp_entry p)) (dabs (mp_qty p))) (pc_size c)
                            | SHORT \<Rightarrow> dmul (dmul (dsub (mp_entry p) mark) (dabs (mp_qty p))) (pc_size c)
                            | FLAT \<Rightarrow> 0);
                       p1 = p\<lparr> mp_unrealized := u, mp_mark := mark \<rparr>
                   in (put_cached (pc_symbol c) p1 a e, ret (Some p1)))))"

text \<open>\<open>pos\<close> is an object of the state loaded first; \<open>mark_to_market\<close> loads a new state and writes
  to the objects of that one.\<close>

definition liquidate ::
  "string \<Rightarrow> (nat \<Rightarrow> string) \<Rightarrow> usec \<Rightarrow> dec \<Rightarrow> string option \<Rightarrow> perp_engine \<Rightarrow> perp_engine \<times> bool res" where
  "liquidate new ids now mark symbol e0 =
     (let c = perp_contract e0 symbol
      in case load_state now e0 of
           (e, Inl x) \<Rightarrow> (e, Inl x)
         | (e, Inr a) \<Rightarrow>
             (case map_of (pa_positions a) (pc_symbol c) of
                None \<Rightarrow> (e, ret False)
              | Some p \<Rightarrow>
                  (case mark_to_market now mark (Some (pc_symbol c)) e of
                     (e1, Inl x) \<Rightarrow> (e1, Inl x)
                   | (e1, Inr _) \<Rightarrow>
                       (case evaluate_liquidation (pe_fee_rate e1) p c mark of
                          Inl x \<Rightarrow> (e1, Inl x)
                        | Inr r \<Rightarrow>
                            if \<not> lr_liquidated r then (e1, ret False)
                            else case record_close (pe_ledger e1) new ids now c (mp_side p) (dabs (mp_qty p)) (mp_entry p)
                                        mark (mp_unrealized p) (lr_fee r) (mp_initial p) None of
                              (db, Inl x) \<Rightarrow> (e1\<lparr> pe_ledger := db \<rparr>, Inl x)
                            | (db, Inr _) \<Rightarrow>
                                (case load_state now (e1\<lparr> pe_ledger := db \<rparr>) of
                                   (e2, Inl x) \<Rightarrow> (e2, Inl x) | (e2, Inr _) \<Rightarrow> (e2, ret True))))))"

subsection \<open>Journals balance by construction\<close>

text \<open>Both sides list the same amounts in the same order, so no rounding can tell them apart.\<close>

theorem futures_journals_balance:
  "journal_balanced (open_postings c notional fee margin) \<and> journal_balanced (close_postings c notional pnl fee release) \<and>
   journal_balanced (funding_postings c amount)"
  by (simp add: journal_balanced_def side_total_def open_postings_def close_postings_def funding_postings_def Let_def)

subsection \<open>Replayed positions\<close>

definition pos_ok :: "margin_position \<Rightarrow> bool" where
  "pos_ok p \<longleftrightarrow> (case mp_side p of LONG \<Rightarrow> 0 \<le> mp_qty p | SHORT \<Rightarrow> mp_qty p \<le> 0 | FLAT \<Rightarrow> mp_qty p = 0) \<and>
     0 \<le> mp_initial p \<and> mp_unrealized p = 0 \<and> mp_maintenance p = 0"

definition futures_ok :: "futures_snapshot \<Rightarrow> bool" where
  "futures_ok s \<longleftrightarrow> dict_ok (fj_positions s) \<and> (\<forall>p \<in> set (dict_values (fj_positions s)). pos_ok p) \<and> 0 \<le> fj_margin s"

definition tx_good :: "ledger_tx \<Rightarrow> bool" where
  "tx_good x \<longleftrightarrow>
     (\<exists>sy side q en lv mg fee. x_meta x = open_meta sy side q en lv mg fee \<and> side \<noteq> FLAT \<and> 0 \<le> q \<and> 0 \<le> mg) \<or>
     (\<exists>sy side q en ex pnl fee rel. x_meta x = close_meta sy side q en ex pnl fee rel \<and> 0 \<le> q) \<or>
     map_of (x_meta x) ''action'' = None"

lemma rfold_total:
  assumes "\<And>x s. x \<in> set xs \<Longrightarrow> P s \<Longrightarrow> \<exists>s'. f x s = ret s' \<and> P s'" "P s"
  shows "\<exists>s'. rfold f xs s = ret s' \<and> P s'"
  using assms
proof (induction xs arbitrary: s)
  case (Cons x xs)
  then obtain t where "f x s = ret t" "P t" by force
  then show ?case using Cons by simp
qed simp

lemma pside_roundtrip [simp]: "parse_pside (JStr (pside_text side)) = ret side"
  by (cases side) (simp_all add: parse_pside_def)

lemma open_meta_items [simp]:
  "meta_item (open_meta sy side q en lv mg fee) ''side'' = ret (JStr (pside_text side))"
  "meta_item (open_meta sy side q en lv mg fee) ''quantity'' = ret (JDec q)"
  "meta_item (open_meta sy side q en lv mg fee) ''entry_price'' = ret (JDec en)"
  "meta_item (open_meta sy side q en lv mg fee) ''initial_margin'' = ret (JDec mg)"
  "meta_item (open_meta sy side q en lv mg fee) ''leverage'' = ret (JDec lv)"
  "meta_str (open_meta sy side q en lv mg fee) ''symbol'' = Some sy"
  "map_of (open_meta sy side q en lv mg fee) ''action'' = Some (JStr ''OPEN'')"
  by (simp_all add: open_meta_def meta_item_def meta_str_def)

lemma close_meta_items [simp]:
  "meta_item (close_meta sy side q en ex pnl fee rel) ''quantity'' = ret (JDec q)"
  "meta_item (close_meta sy side q en ex pnl fee rel) ''realized_pnl'' = ret (JDec pnl)"
  "meta_item (close_meta sy side q en ex pnl fee rel) ''margin_release'' = ret (JDec rel)"
  "meta_str (close_meta sy side q en ex pnl fee rel) ''symbol'' = Some sy"
  "map_of (close_meta sy side q en ex pnl fee rel) ''action'' = Some (JStr ''CLOSE'')"
  by (simp_all add: close_meta_def meta_item_def meta_str_def)

lemma signed_qty_sign: "0 \<le> q \<Longrightarrow> case side of LONG \<Rightarrow> 0 \<le> signed_qty side q | SHORT \<Rightarrow> signed_qty side q \<le> 0 | FLAT \<Rightarrow> True"
  by (cases side) (simp_all add: signed_qty_def dneg_def dec.rnd_nonpos)

lemma signed_qty_signs:
  "0 \<le> q \<Longrightarrow> 0 \<le> signed_qty LONG q" "0 \<le> q \<Longrightarrow> signed_qty SHORT q \<le> 0"
  by (simp_all add: signed_qty_def dneg_def dec.rnd_nonpos)

lemma new_margin_position_ok: "side \<noteq> FLAT \<Longrightarrow> 0 \<le> q \<Longrightarrow> 0 \<le> mg \<Longrightarrow>
   pos_ok (new_margin_position sy side (signed_qty side q) en lv mg now)"
  by (cases side) (auto simp: pos_ok_def new_margin_position_def signed_qty_signs)

lemma open_onto_ok:
  assumes "pos_ok p" "\<not> is_flat p" "side \<noteq> FLAT" "0 \<le> q" "0 \<le> mg"
  shows "\<exists>p'. open_onto side q en mg p = ret p' \<and> pos_ok p'"
proof -
  have "0 < \<bar>mp_qty p\<bar>" using assms(2) by (simp add: is_flat_def)
  then have o: "0 < dabs (mp_qty p)" unfolding dabs_def by (rule dround_pos)
  have n: "dadd (dabs (mp_qty p)) q \<noteq> 0" using o assms(4) dround_pos [of "dabs (mp_qty p) + q"] by (auto simp: dadd_def)
  have m: "0 \<le> dadd (mp_initial p) mg" using assms by (simp add: pos_ok_def dadd_nonneg)
  have a: "0 \<le> dadd (dabs (mp_qty p)) q" using assms(4) by (simp add: dadd_nonneg)
  have s: "0 \<le> dsub x y" if "y \<le> x" for x y using that by (simp add: dsub_def dec.rnd_nonneg)
  show ?thesis
    using assms o n m a s signed_qty_signs
    by (cases side; cases "mp_side p")
      (auto simp: open_onto_def pos_ok_def div_res_def Let_def is_flat_def)
qed

lemma futures_ok_put:
  assumes "futures_ok s" "pos_ok p"
  shows "futures_ok (put_position sy p s)"
  using assms dict_values_update [of sy p "fj_positions s"] by (auto simp: futures_ok_def put_position_def)

lemma apply_open_ok:
  assumes "futures_ok s" "side \<noteq> FLAT" "0 \<le> q" "0 \<le> mg"
  shows "\<exists>s'. apply_open now sy (open_meta sy' side q en lv mg fee) s = ret s' \<and> futures_ok s'"
proof -
  have "\<exists>p'. (case map_of (fj_positions s) sy of
              None \<Rightarrow> ret (new_margin_position sy side (signed_qty side q) en lv mg now)
            | Some p \<Rightarrow>
                if is_flat p then ret (new_margin_position sy side (signed_qty side q) en lv mg now)
                else open_onto side q en mg p) = ret p' \<and> pos_ok p'"
    using assms new_margin_position_ok open_onto_ok dict_values_map_of [of "fj_positions s" sy]
    by (auto simp: futures_ok_def split: option.split)
  then obtain p' where p': "(case map_of (fj_positions s) sy of
              None \<Rightarrow> ret (new_margin_position sy side (signed_qty side q) en lv mg now)
            | Some p \<Rightarrow>
                if is_flat p then ret (new_margin_position sy side (signed_qty side q) en lv mg now)
                else open_onto side q en mg p) = ret p'" "pos_ok p'" by blast
  have "futures_ok ((put_position sy p' s)\<lparr> fj_margin := dadd (fj_margin (put_position sy p' s)) mg \<rparr>)"
    using futures_ok_put [OF assms(1) p'(2), of sy] assms(4) by (simp add: futures_ok_def dadd_nonneg)
  then show ?thesis using p'(1) by (simp add: apply_open_def Let_def)
qed

lemma apply_close_ok:
  assumes "futures_ok s" "0 \<le> q"
  shows "\<exists>s'. apply_close sy (close_meta sy' side q en ex pnl fee rel) s = ret s' \<and> futures_ok s'"
proof (cases "map_of (fj_positions s) sy")
  case (Some p)
  define s1 where "s1 = s\<lparr> fj_realized := dadd (fj_realized s) pnl, fj_margin := max (dsub (fj_margin s) rel) 0 \<rparr>"
  have s1: "futures_ok s1" using assms(1) by (simp add: s1_def futures_ok_def)
  have p: "pos_ok p" using assms(1) Some dict_values_map_of [of "fj_positions s" sy] by (auto simp: futures_ok_def)
  define r where "r = dsub (dabs (mp_qty p)) q"
  have del: "futures_ok (s1\<lparr> fj_positions := AList.delete sy (fj_positions s1) \<rparr>)"
    using s1 set_dict_delete [of sy "fj_positions s1"] by (auto simp: futures_ok_def dict_values_def)
  have keep: "futures_ok (put_position sy (p\<lparr> mp_qty := signed_qty (mp_side p) r,
                           mp_initial := max (dsub (mp_initial p) rel) 0 \<rparr>) s1)" if "0 < r"
  proof (rule futures_ok_put [OF s1])
    have "mp_side p \<noteq> FLAT" using that assms(2) p by (auto simp: r_def pos_ok_def dsub_def dabs_def dec.rnd_uminus dest: dec.rnd_pos_imp)
    then show "pos_ok (p\<lparr> mp_qty := signed_qty (mp_side p) r, mp_initial := max (dsub (mp_initial p) rel) 0 \<rparr>)"
      using p that signed_qty_signs [of r] by (cases "mp_side p") (auto simp: pos_ok_def)
  qed
  show ?thesis using Some del keep by (auto simp: apply_close_def Let_def s1_def [symmetric] r_def [symmetric])
qed (use assms in \<open>simp add: apply_close_def\<close>)

lemma add_fees_fields [simp]:
  "fj_positions (add_fees es s) = fj_positions s" "fj_margin (add_fees es s) = fj_margin s"
  by (induction es arbitrary: s) simp_all

lemma add_funding_fields [simp]:
  "fj_positions (add_funding es s) = fj_positions s" "fj_margin (add_funding es s) = fj_margin s"
  by (induction es arbitrary: s) simp_all

lemma apply_futures_tx_ok:
  assumes "tx_good x" "futures_ok s"
  shows "\<exists>s'. apply_futures_tx now x s = ret s' \<and> futures_ok s'"
proof -
  have f: "futures_ok (add_fees (x_entries x) s)" "futures_ok (add_funding (x_entries x) (add_fees (x_entries x) s))"
    using assms(2) by (simp_all add: futures_ok_def)
  show ?thesis
    using assms(1) unfolding tx_good_def
  proof (elim disjE exE conjE)
    fix sy side q en lv mg fee
    assume "x_meta x = open_meta sy side q en lv mg fee" "side \<noteq> FLAT" "0 \<le> q" "0 \<le> mg"
    then show ?thesis using assms(2) apply_open_ok [OF f(1)] by (simp add: apply_futures_tx_def Let_def)
  next
    fix sy side q en ex pnl fee rel
    assume "x_meta x = close_meta sy side q en ex pnl fee rel" "0 \<le> q"
    then show ?thesis using assms(2) apply_close_ok [OF f(1)] by (simp add: apply_futures_tx_def Let_def)
  qed (use assms(2) f in \<open>auto simp: apply_futures_tx_def Let_def split: option.split\<close>)
qed

lemma rebuild_futures_ok:
  assumes "list_all tx_good db"
  shows "\<exists>s. rebuild_futures now db = ret s \<and> futures_ok s"
  unfolding rebuild_futures_def
proof (rule rfold_total)
  show "futures_ok empty_futures" by (simp add: futures_ok_def empty_futures_def dict_values_def)
qed (use assms apply_futures_tx_ok in \<open>auto simp: list_transactions_def list_all_iff\<close>)

subsection \<open>What the engine records\<close>

definition contract_ok :: "perpetual_contract \<Rightarrow> bool" where
  "contract_ok c \<longleftrightarrow> 0 \<le> pc_size c \<and> 0 < pc_max_leverage c"

definition engine_ok :: "perp_engine \<Rightarrow> bool" where
  "engine_ok e \<longleftrightarrow> list_all tx_good (pe_ledger e) \<and> contract_ok (pe_contract e) \<and>
     list_all contract_ok (dict_values (pe_contracts e))"

lemma ledger_record_good:
  assumes "ledger_record db new ids now ty ps a = (db', r)" "list_all tx_good db"
    and "\<And>x. x_meta x = ra_meta a \<Longrightarrow> tx_good x"
  shows "list_all tx_good db'"
  using assms(1) by (cases rule: ledger_record_cases) (use assms(2,3) in simp_all)

lemma tx_good_open: "x_meta x = open_meta sy side q en lv mg fee \<Longrightarrow> side \<noteq> FLAT \<Longrightarrow> 0 \<le> q \<Longrightarrow> 0 \<le> mg \<Longrightarrow> tx_good x"
  unfolding tx_good_def by blast

lemma tx_good_close: "x_meta x = close_meta sy side q en ex pnl fee rel \<Longrightarrow> 0 \<le> q \<Longrightarrow> tx_good x"
  unfolding tx_good_def by blast

lemma record_open_good:
  assumes "record_open db new ids now c side q en lv mg fee oid = (db', r)" "list_all tx_good db" "side \<noteq> FLAT" "0 \<le> q" "0 \<le> mg"
  shows "list_all tx_good db'"
  using assms(1) unfolding record_open_def
  by (rule ledger_record_good [OF _ assms(2)]) (simp add: tx_good_open [OF _ assms(3-5)])

lemma record_close_good:
  assumes "record_close db new ids now c side q en ex pnl fee rel oid = (db', r)" "list_all tx_good db" "0 \<le> q"
  shows "list_all tx_good db'"
  using assms(1) unfolding record_close_def
  by (rule ledger_record_good [OF _ assms(2)]) (simp add: tx_good_close [OF _ assms(3)])

lemma record_funding_good:
  assumes "record_funding db new ids now c side amount rate n oid = (db', r)" "list_all tx_good db"
  shows "list_all tx_good db'"
proof (cases "amount = 0")
  case False
  let ?r = "ledger_record db new ids now (if 0 < amount then FUNDING_RECEIPT else FUNDING_PAYMENT)
      (funding_postings c amount) (args_for oid [(''symbol'', JStr (pc_symbol c)), (''side'', JStr (pside_text side)),
                (''rate'', JDec rate), (''notional'', JDec n)])"
  obtain db1 r1 where r1: "?r = (db1, r1)" by force
  then have "db' = db1" using assms(1) False by (auto simp: record_funding_def split: sum.splits)
  moreover have "list_all tx_good db1" using r1 by (rule ledger_record_good [OF _ assms(2)]) (simp add: tx_good_def)
  ultimately show ?thesis by simp
qed (use assms in \<open>simp add: record_funding_def\<close>)

lemma load_state_keeps:
  "load_state now e = (e', r) \<Longrightarrow> pe_ledger e' = pe_ledger e \<and> pe_contract e' = pe_contract e \<and> pe_contracts e' = pe_contracts e"
  by (auto simp: load_state_def Let_def split: sum.splits)

lemma put_cached_keeps [simp]:
  "pe_ledger (put_cached sy p a e) = pe_ledger e" "pe_contract (put_cached sy p a e) = pe_contract e"
  "pe_contracts (put_cached sy p a e) = pe_contracts e"
  by (simp_all add: put_cached_def)

lemma engine_ok_load: "load_state now e = (e', r) \<Longrightarrow> engine_ok e \<Longrightarrow> engine_ok e'"
  using load_state_keeps by (simp add: engine_ok_def)

lemma engine_ok_put [simp]: "engine_ok (put_cached sy p a e) = engine_ok e"
  by (simp add: engine_ok_def)

lemma engine_ok_ledger: "engine_ok e \<Longrightarrow> list_all tx_good db \<Longrightarrow> engine_ok (e\<lparr> pe_ledger := db \<rparr>)"
  by (simp add: engine_ok_def)

lemma perp_contract_ok: "engine_ok e \<Longrightarrow> contract_ok (perp_contract e symbol)"
  by (auto simp: engine_ok_def perp_contract_def list_all_iff dest: dict_values_map_of split: option.split)

lemma initial_margin_nonneg:
  assumes "initial_margin None c q price lev = ret m" "contract_ok c" "0 \<le> price"
  shows "0 \<le> m"
proof -
  have "0 < effective_leverage lev (pc_max_leverage c)"
    using assms(2) effective_leverage_bounds(1) by (simp add: contract_ok_def)
  moreover have "0 \<le> contract_notional c q price" using assms by (simp add: contract_notional_def contract_ok_def dmul_nonneg)
  ultimately show ?thesis using assms(1)
    by (auto simp: initial_margin_def Let_def intro!: ddiv_nonneg)
qed

lemma open_position_ok:
  assumes "open_position new ids now side quantity price lev oid symbol e = (e', r)" "engine_ok e" "0 \<le> price"
  shows "engine_ok e'"
proof (cases "side = FLAT")
  case False
  define c where "c = perp_contract e symbol"
  define lv where "lv = effective_leverage lev (pc_max_leverage c)"
  define fee where "fee = dmul (dmul (dmul (dabs quantity) price) (pc_size c)) (pc_taker_fee c)"
  have c: "contract_ok c" using assms(2) perp_contract_ok by (simp add: c_def)
  show ?thesis
  proof (cases "initial_margin None c (dabs quantity) price lv")
    case (Inl x)
    then show ?thesis using assms(1,2) False by (simp add: open_position_def Let_def c_def lv_def)
  next
    case (Inr im)
    obtain mm where mm: "maintenance_margin c (dabs quantity) price None = ret mm" by (simp add: maintenance_margin_def Let_def)
    obtain db r1 where r1: "record_open (pe_ledger e) new ids now c side (dabs quantity) price lv im fee oid = (db, r1)" by force
    have db: "engine_ok (e\<lparr> pe_ledger := db \<rparr>)"
      using record_open_good [OF r1] assms(2) False initial_margin_nonneg [OF Inr c assms(3)]
      by (intro engine_ok_ledger) (simp_all add: engine_ok_def)
    obtain e1 r2 where l: "load_state now (e\<lparr> pe_ledger := db \<rparr>) = (e1, r2)" by force
    have "engine_ok e1" using engine_ok_load [OF l db] .
    moreover have "e' = e\<lparr> pe_ledger := db \<rparr> \<or> e' = e1 \<or> (\<exists>p a. e' = put_cached (pc_symbol c) p a e1)"
      using assms(1) False Inr mm r1 l
      by (auto simp: open_position_def Let_def c_def [symmetric] lv_def [symmetric] fee_def [symmetric]
          split: sum.splits option.splits)
    ultimately show ?thesis using db by auto
  qed
qed (use assms in \<open>simp add: open_position_def\<close>)

text \<open>The other operations load the state first and record at most one journal.\<close>

lemma close_then_load_ok:
  assumes "engine_ok e" "0 \<le> q"
    and "(case record_close (pe_ledger e) new ids now c side q en ex pnl fee rel oid of
            (db, Inl x) \<Rightarrow> (e\<lparr> pe_ledger := db \<rparr>, Inl x)
          | (db, Inr _) \<Rightarrow> (case load_state now (e\<lparr> pe_ledger := db \<rparr>) of
                (e1, Inl x) \<Rightarrow> (e1, Inl x) | (e1, Inr a1) \<Rightarrow> (e1, ret (g a1)))) = (e', r)"
  shows "engine_ok e'"
proof -
  obtain db r1 where r1: "record_close (pe_ledger e) new ids now c side q en ex pnl fee rel oid = (db, r1)" by force
  obtain e1 r2 where l: "load_state now (e\<lparr> pe_ledger := db \<rparr>) = (e1, r2)" by force
  have db: "engine_ok (e\<lparr> pe_ledger := db \<rparr>)"
    using record_close_good [OF r1] assms(1,2) by (intro engine_ok_ledger) (simp_all add: engine_ok_def)
  have "engine_ok e1" using engine_ok_load [OF l db] .
  then show ?thesis using assms(3) r1 l db by (auto split: sum.splits)
qed

lemma close_position_ok:
  assumes "close_position new ids now side quantity ex oid symbol e = (e', r)" "engine_ok e"
  shows "engine_ok e'"
proof -
  obtain e1 r1 where l: "load_state now e = (e1, r1)" by force
  have e1: "engine_ok e1" using engine_ok_load [OF l assms(2)] .
  show ?thesis
    using assms(1) l e1
    by (auto simp: close_position_def Let_def split: sum.splits option.splits if_splits)
      (erule close_then_load_ok [OF e1, rotated], simp)+
qed

lemma mark_to_market_ok:
  assumes "mark_to_market now mark symbol e = (e', r)" "engine_ok e"
  shows "engine_ok e'"
proof -
  obtain e1 r1 where l: "load_state now e = (e1, r1)" by force
  have e1: "engine_ok e1" using engine_ok_load [OF l assms(2)] .
  show ?thesis
    using assms(1) l e1 by (auto simp: mark_to_market_def Let_def split: sum.splits option.splits)
qed

lemma apply_funding_ok:
  assumes "apply_funding new ids now rate mark symbol e = (e', r)" "engine_ok e"
  shows "engine_ok e'"
proof -
  obtain e1 r1 where l: "load_state now e = (e1, r1)" by force
  have e1: "engine_ok e1" using engine_ok_load [OF l assms(2)] .
  have rec: "engine_ok (e1\<lparr> pe_ledger := db \<rparr>)"
    if "record_funding (pe_ledger e1) new ids now c sd am rt n oid = (db, r2)" for c sd am rt n oid db r2
    using record_funding_good [OF that] e1 by (intro engine_ok_ledger) (simp_all add: engine_ok_def)
  show ?thesis
    using assms(1) l e1 rec engine_ok_load
    by (auto simp: apply_funding_def Let_def split: sum.splits option.splits if_splits prod.splits)
qed

lemma liquidate_ok:
  assumes "liquidate new ids now mark symbol e = (e', r)" "engine_ok e"
  shows "engine_ok e'"
proof -
  obtain e1 r1 where l: "load_state now e = (e1, r1)" by force
  have e1: "engine_ok e1" using engine_ok_load [OF l assms(2)] .
  obtain e2 r2 where m: "mark_to_market now mark (Some (pc_symbol (perp_contract e symbol))) e1 = (e2, r2)" by force
  have e2: "engine_ok e2" using mark_to_market_ok [OF m e1] .
  show ?thesis
    using assms(1) l e1 m e2
    by (auto simp: liquidate_def Let_def split: sum.splits option.splits if_splits)
      (erule close_then_load_ok [OF e2, rotated, where g = "\<lambda>_. True"], simp)+
qed

inductive perp_reach :: "perp_engine \<Rightarrow> bool" where
  init: "list_all contract_ok (c # cs) \<Longrightarrow> perp_reach (perp_engine_init [] c cs)"
| opened: "perp_reach e \<Longrightarrow> 0 \<le> price \<Longrightarrow>
    open_position new ids now side quantity price lev oid symbol e = (e', r) \<Longrightarrow> perp_reach e'"
| closed: "perp_reach e \<Longrightarrow> close_position new ids now side quantity ex oid symbol e = (e', r') \<Longrightarrow> perp_reach e'"
| funded: "perp_reach e \<Longrightarrow> apply_funding new ids now rate mark symbol e = (e', d) \<Longrightarrow> perp_reach e'"
| marked: "perp_reach e \<Longrightarrow> mark_to_market now mark symbol e = (e', r') \<Longrightarrow> perp_reach e'"
| liquidated: "perp_reach e \<Longrightarrow> liquidate new ids now mark symbol e = (e', b) \<Longrightarrow> perp_reach e'"
| elsewhere: "perp_reach e \<Longrightarrow> ledger_record (pe_ledger e) new ids now ty ps a = (db, t) \<Longrightarrow>
    map_of (ra_meta a) ''action'' = None \<Longrightarrow> perp_reach (e\<lparr> pe_ledger := db \<rparr>)"

lemma register_contracts_ok:
  assumes "list_all contract_ok cs" "list_all contract_ok (dict_values d)"
  shows "list_all contract_ok (dict_values (register_contracts cs d))"
  using assms
proof (induction cs d rule: register_contracts.induct)
  case (2 c cs d)
  have "list_all contract_ok (dict_values (AList.update (pc_symbol c) c d))"
    using 2(2,3) dict_values_update [of "pc_symbol c" c d] by (auto simp: list_all_iff)
  then show ?case using 2 by simp
qed simp

lemma tx_good_other: "map_of (x_meta x) ''action'' = None \<Longrightarrow> tx_good x"
  by (simp add: tx_good_def)

lemma perp_reach_ok: "perp_reach e \<Longrightarrow> engine_ok e"
proof (induction rule: perp_reach.induct)
  case (init c cs)
  then show ?case using register_contracts_ok [of cs "[(pc_symbol c, c)]"]
    by (simp add: engine_ok_def perp_engine_init_def dict_values_def)
next
  case (elsewhere e new ids now ty ps a db t)
  then have "list_all tx_good db"
    by (intro ledger_record_good [of "pe_ledger e" new ids now ty ps a db t]) (simp_all add: engine_ok_def tx_good_other)
  then show ?case using elsewhere by (simp add: engine_ok_ledger)
qed (blast intro: open_position_ok close_position_ok apply_funding_ok mark_to_market_ok liquidate_ok)+

text \<open>C22: whatever the engine does, in any order and with other services recording in the same ledger,
  replaying the ledger succeeds; in the result no symbol occurs twice, the sign of every quantity
  agrees with its side, and no initial margin and no margin balance is negative.\<close>

theorem futures_projection_wellformed:
  assumes "perp_reach e"
  shows "\<exists>s. rebuild_futures now (pe_ledger e) = ret s \<and> dict_ok (fj_positions s) \<and> 0 \<le> fj_margin s \<and>
    list_all (\<lambda>p. 0 \<le> mp_initial p \<and>
      (case mp_side p of LONG \<Rightarrow> 0 \<le> mp_qty p | SHORT \<Rightarrow> mp_qty p \<le> 0 | FLAT \<Rightarrow> mp_qty p = 0))
      (dict_values (fj_positions s))"
proof -
  obtain s where "rebuild_futures now (pe_ledger e) = ret s" "futures_ok s"
    using rebuild_futures_ok perp_reach_ok [OF assms] unfolding engine_ok_def by blast
  then show ?thesis by (auto simp: futures_ok_def pos_ok_def list_all_iff)
qed

definition ex_perp :: perp_engine where
  "ex_perp = perp_engine_init [] ex_contract []"

definition ex_perp_open :: "perp_engine \<times> margin_position res" where
  "ex_perp_open = open_position ''t1'' (ex_ids_from ''a'') 1 LONG 2 100 5 None None ex_perp"

theorem futures_projection_wellformed_witness:
  "\<exists>e s. fst ex_perp_open = e \<and> length (pe_ledger e) = 1 \<and> rebuild_futures 2 (pe_ledger e) = ret s \<and> 0 \<le> fj_margin s"
proof -
  have "perp_reach ex_perp" unfolding ex_perp_def
    by (rule perp_reach.init) (simp add: contract_ok_def ex_contract_def)
  moreover have "(0 :: dec) \<le> 100" by simp
  moreover have "open_position ''t1'' (ex_ids_from ''a'') 1 LONG 2 100 5 None None ex_perp = (fst ex_perp_open, snd ex_perp_open)"
    by (simp add: ex_perp_open_def)
  ultimately have "perp_reach (fst ex_perp_open)" by (rule perp_reach.opened)
  note r = futures_projection_wellformed [OF this, of 2]
  have "length (pe_ledger (fst ex_perp_open)) = 1" by code_simp
  then show ?thesis using r by blast
qed

subsection \<open>What a liquidation books\<close>

definition pos_fresh :: "margin_position \<Rightarrow> bool" where
  "pos_fresh p \<longleftrightarrow> mp_unrealized p = 0 \<and> mp_maintenance p = 0"

definition snap_fresh :: "futures_snapshot \<Rightarrow> bool" where
  "snap_fresh s \<longleftrightarrow> list_all pos_fresh (dict_values (fj_positions s))"

lemma snap_fresh_put: "snap_fresh s \<Longrightarrow> pos_fresh p \<Longrightarrow> snap_fresh (put_position sy p s)"
  using dict_values_update [of sy p "fj_positions s"] by (auto simp: snap_fresh_def put_position_def list_all_iff)

lemma snap_fresh_get: "snap_fresh s \<Longrightarrow> map_of (fj_positions s) sy = Some p \<Longrightarrow> pos_fresh p"
  using dict_values_map_of by (fastforce simp: snap_fresh_def list_all_iff)

lemma snap_fresh_margin: "snap_fresh (s\<lparr> fj_margin := m \<rparr>) = snap_fresh s"
  by (simp add: snap_fresh_def)

lemma open_onto_fresh: "open_onto side q en mg p = ret p' \<Longrightarrow> pos_fresh p \<Longrightarrow> pos_fresh p'"
  by (auto simp: open_onto_def pos_fresh_def Let_def rbind_eq_Inr split: if_splits)

lemma new_position_fresh: "pos_fresh (new_margin_position sy side q en lv mg now)"
  by (simp add: pos_fresh_def new_margin_position_def)

lemma apply_open_fresh:
  assumes "apply_open now sy m s = ret s'" "snap_fresh s"
  shows "snap_fresh s'"
proof -
  note n = snap_fresh_put [OF assms(2) new_position_fresh]
  show ?thesis
  proof (cases "map_of (fj_positions s) sy")
    case None
    then show ?thesis using assms(1) n by (auto simp: apply_open_def Let_def rbind_eq_Inr snap_fresh_margin)
  next
    case (Some p)
    show ?thesis
    proof (cases "is_flat p")
      case True
      then show ?thesis using assms(1) n Some by (auto simp: apply_open_def Let_def rbind_eq_Inr snap_fresh_margin)
    next
      case False
      have o: "snap_fresh (put_position sy p' s)" if "open_onto side q en mg p = ret p'" for side q en mg p'
        using snap_fresh_put [OF assms(2)] open_onto_fresh [OF that] snap_fresh_get [OF assms(2) Some] by blast
      show ?thesis using assms(1) Some False by (auto simp: apply_open_def Let_def rbind_eq_Inr snap_fresh_margin dest!: o)
    qed
  qed
qed

lemma apply_close_fresh:
  assumes "apply_close sy m s = ret s'" "snap_fresh s"
  shows "snap_fresh s'"
proof (cases "map_of (fj_positions s) sy")
  case (Some p)
  have p: "pos_fresh p" using snap_fresh_get assms(2) Some by blast
  have d: "set (dict_values (AList.delete sy (fj_positions s))) \<subseteq> set (dict_values (fj_positions s))"
    using set_dict_delete [of sy "fj_positions s"] by (auto simp: dict_values_def)
  have k: "snap_fresh (put_position sy (p\<lparr> mp_qty := q, mp_initial := i \<rparr>) (s\<lparr> fj_realized := a, fj_margin := b \<rparr>))" for q i a b
    using assms(2) p by (intro snap_fresh_put) (simp_all add: snap_fresh_def pos_fresh_def)
  show ?thesis using assms Some d k
    by (auto simp: apply_close_def Let_def rbind_eq_Inr snap_fresh_def list_all_iff split: if_splits)
qed (use assms in \<open>simp add: apply_close_def\<close>)

lemma apply_futures_tx_fresh: "apply_futures_tx now x s = ret s' \<Longrightarrow> snap_fresh s \<Longrightarrow> snap_fresh s'"
  using apply_open_fresh [of now _ "x_meta x" "add_fees (x_entries x) s" s']
    apply_close_fresh [of _ "x_meta x" "add_fees (x_entries x) s" s']
  by (auto simp: apply_futures_tx_def Let_def snap_fresh_def split: option.splits if_splits)

lemma rebuild_fresh: "rebuild_futures now db = ret s \<Longrightarrow> snap_fresh s"
  unfolding rebuild_futures_def
proof (erule rfold_inv [rotated])
  show "snap_fresh empty_futures" by (simp add: snap_fresh_def empty_futures_def dict_values_def)
qed (rule apply_futures_tx_fresh)

lemma load_state_fresh:
  "load_state now e = (e', ret a) \<Longrightarrow> map_of (pa_positions a) sy = Some p \<Longrightarrow> mp_unrealized p = 0 \<and> mp_maintenance p = 0"
  using rebuild_fresh snap_fresh_get
  by (fastforce simp: load_state_def Let_def pos_fresh_def split: sum.splits)

lemma record_close_stored:
  assumes "record_close db new ids now c side q en ex pnl fee rel oid = (db', ret t)"
  shows "\<exists>x. db' = db @ [x] \<and> x_meta x = close_meta (pc_symbol c) side q en ex pnl fee rel"
  using assms unfolding record_close_def
proof (cases rule: ledger_record_cases)
  case unchanged
  then show ?thesis using assms
    by (auto simp: record_close_def ledger_record_def find_transaction_def truthy_str_def no_record_args_def Let_def
        split: if_splits)
qed (simp add: no_record_args_def)

text \<open>A liquidation books no loss: the position it reads was loaded before the mark price was
  written to a newer copy, so the journal of every liquidation says that the realized result is 0,
  and the liquidation price was computed with a maintenance margin of 0.\<close>

theorem liquidation_books_no_loss:
  assumes "liquidate new ids now mark symbol e = (e', ret True)"
  shows "\<exists>x (p :: margin_position). pe_ledger e' = pe_ledger e @ [x] \<and> meta_dec (x_meta x) ''realized_pnl'' = Some 0 \<and>
    x_meta x = close_meta (pc_symbol (perp_contract e symbol)) (mp_side p) (dabs (mp_qty p)) (mp_entry p) mark 0
      (dmul (dmul (dmul (dabs (mp_qty p)) mark) (pc_size (perp_contract e symbol))) (pe_fee_rate e)) (mp_initial p) \<and>
    mp_maintenance p = 0"
proof -
  define c where "c = perp_contract e symbol"
  obtain e1 r1 where l: "load_state now e = (e1, r1)" by force
  obtain a where a: "r1 = ret a" using assms l by (cases r1) (auto simp: liquidate_def Let_def)
  obtain p where p: "map_of (pa_positions a) (pc_symbol c) = Some p"
    using assms l a by (cases "map_of (pa_positions a) (pc_symbol c)") (auto simp: liquidate_def Let_def c_def)
  obtain e2 r2 where m: "mark_to_market now mark (Some (pc_symbol c)) e1 = (e2, r2)" by force
  obtain b where b: "r2 = ret b" using assms l a p m by (cases r2) (auto simp: liquidate_def Let_def c_def)
  obtain r where r: "evaluate_liquidation (pe_fee_rate e2) p c mark = ret r" "lr_liquidated r"
    using assms l a p m b
    by (cases "evaluate_liquidation (pe_fee_rate e2) p c mark") (auto simp: liquidate_def Let_def c_def split: if_splits)
  obtain db r3 where d: "record_close (pe_ledger e2) new ids now c (mp_side p) (dabs (mp_qty p)) (mp_entry p)
      mark (mp_unrealized p) (lr_fee r) (mp_initial p) None = (db, r3)" by force
  obtain t where t: "r3 = ret t" using assms l a p m b r d by (cases r3) (auto simp: liquidate_def Let_def c_def)
  obtain e3 r4 where l3: "load_state now (e2\<lparr> pe_ledger := db \<rparr>) = (e3, r4)" by force
  have e': "pe_ledger e' = db"
    using assms l a p m b r d t l3 load_state_keeps [OF l3] by (auto simp: liquidate_def Let_def c_def split: sum.splits)
  have f: "pe_fee_rate e2 = pe_fee_rate e" "pe_ledger e2 = pe_ledger e"
    using l m by (auto simp: load_state_def mark_to_market_def Let_def put_cached_def split: sum.splits option.splits)
  have z: "mp_unrealized p = 0 \<and> mp_maintenance p = 0" using load_state_fresh [OF l [unfolded a] p] .
  have fee: "lr_fee r = dmul (dmul (dmul (dabs (mp_qty p)) mark) (pc_size c)) (pe_fee_rate e)"
    using r by (auto simp: evaluate_liquidation_def Let_def f split: if_splits)
  obtain x where "db = pe_ledger e @ [x]" "x_meta x = close_meta (pc_symbol c) (mp_side p) (dabs (mp_qty p)) (mp_entry p) mark 0
      (dmul (dmul (dmul (dabs (mp_qty p)) mark) (pc_size c)) (pe_fee_rate e)) (mp_initial p)"
    using record_close_stored [OF d [unfolded t]] z fee f by auto
  moreover have "meta_dec (close_meta sy sd q en ex 0 fee rel) ''realized_pnl'' = Some 0" for sy sd q en ex fee rel
    by (simp add: close_meta_def meta_dec_def)
  ultimately show ?thesis using e' z unfolding c_def by (intro exI [of _ x] exI [of _ p] conjI) simp_all
qed

theorem liquidation_books_no_loss_witness:
  "\<exists>e' x. liquidate ''t2'' (ex_ids_from ''b'') 2 75 None (fst ex_perp_open) = (e', ret True) \<and>
     pe_ledger e' = pe_ledger (fst ex_perp_open) @ [x] \<and> meta_dec (x_meta x) ''realized_pnl'' = Some 0"
proof -
  let ?l = "liquidate ''t2'' (ex_ids_from ''b'') 2 75 None (fst ex_perp_open)"
  have "(case snd ?l of Inr b \<Rightarrow> b | Inl _ \<Rightarrow> False)" by code_simp
  then have "snd ?l = ret True" by (auto split: sum.splits)
  then have l: "?l = (fst ?l, ret True)" by (metis prod.collapse)
  from liquidation_books_no_loss [OF l] obtain x where "pe_ledger (fst ?l) = pe_ledger (fst ex_perp_open) @ [x]"
    "meta_dec (x_meta x) ''realized_pnl'' = Some 0" by blast
  with l show ?thesis by blast
qed

subsection \<open>Netting\<close>

definition ex_netted :: "futures_snapshot res" where
  "ex_netted = rbind (apply_open 1 ''BTC'' (open_meta ''BTC'' LONG 1 100 1 100 0) empty_futures)
     (\<lambda>s. apply_open 2 ''BTC'' (open_meta ''BTC'' SHORT 1 100 1 100 0) s)"

text \<open>Opening the other side against a position nets the position, but the margin balance still
  grows by the full margin of the second order: a flat account keeps a margin balance of 200.\<close>

theorem netting_keeps_margin_balance:
  "\<exists>s p. ex_netted = ret s \<and> fj_margin s = 200 \<and> map_of (fj_positions s) ''BTC'' = Some p \<and>
     mp_side p = FLAT \<and> mp_qty p = 0 \<and> mp_initial p = 0"
proof -
  have "(case ex_netted of Inr s \<Rightarrow> fj_margin s = 200 \<and> (case map_of (fj_positions s) ''BTC'' of
      Some p \<Rightarrow> mp_side p = FLAT \<and> mp_qty p = 0 \<and> mp_initial p = 0 | None \<Rightarrow> False) | Inl _ \<Rightarrow> False)"
    by code_simp
  then obtain s where s: "ex_netted = ret s" "fj_margin s = 200" "(case map_of (fj_positions s) ''BTC'' of
      Some p \<Rightarrow> mp_side p = FLAT \<and> mp_qty p = 0 \<and> mp_initial p = 0 | None \<Rightarrow> False)"
    using case_InrD by blast
  then obtain p where "map_of (fj_positions s) ''BTC'' = Some p" by (auto split: option.splits)
  with s show ?thesis by (intro exI [of _ s] exI [of _ p]) simp
qed

end
