(* ===== verification/Order_Book.thy ===== *)
theory Order_Book
  imports Domain
begin

text \<open>
  \<open>market_data/orderbook.py\<close> and \<open>market_data/service.py\<close>: the order book with its sequence
  check, and the service that ingests snapshots and deltas, buffers deltas while it resyncs and
  keeps the health of every symbol. The book is keyed by the canonical text of the price; the
  abstraction \<open>qty_at\<close> reads it as a function of the price, and the refinement lemmas show that
  the text keys implement that function.
\<close>

subsection \<open>The book\<close>

record book_level =
  bl_price :: dec
  bl_qty :: dec

type_synonym levels = "(string, book_level) dict"

record order_book =
  ob_symbol :: string
  ob_seq :: "int option"
  ob_bids :: levels
  ob_asks :: levels
  ob_status :: market_data_status
  ob_updated :: "usec option"
  ob_exchange :: string

definition new_book :: "string \<Rightarrow> string \<Rightarrow> order_book" where
  "new_book sy ex = \<lparr> ob_symbol = sy, ob_seq = None, ob_bids = [], ob_asks = [], ob_status = HEALTHY,
     ob_updated = None, ob_exchange = ex \<rparr>"

text \<open>One level update; the levels changed so far survive an exception.\<close>

definition upsert_one :: "dec \<times> dec \<Rightarrow> levels \<Rightarrow> levels res" where
  "upsert_one u ls =
     (if snd u < 0 then raise ValueError
      else rbind (format_decimal (fst u)) (\<lambda>key.
        ret (if snd u = 0 then AList.delete key ls
             else AList.update key \<lparr> bl_price = fst u, bl_qty = snd u \<rparr> ls)))"

fun upsert :: "(dec \<times> dec) list \<Rightarrow> levels \<Rightarrow> levels \<times> unit res" where
  "upsert [] ls = (ls, ret ())"
| "upsert (u # us) ls =
     (case upsert_one u ls of Inl e \<Rightarrow> (ls, Inl e) | Inr ls' \<Rightarrow> upsert us ls')"

definition upsert_both ::
  "(dec \<times> dec) list \<Rightarrow> (dec \<times> dec) list \<Rightarrow> order_book \<Rightarrow> order_book \<times> unit res" where
  "upsert_both bids asks b =
     (case upsert bids (ob_bids b) of
        (lb, Inl e) \<Rightarrow> (b\<lparr> ob_bids := lb \<rparr>, Inl e)
      | (lb, Inr _) \<Rightarrow>
          (case upsert asks (ob_asks b) of (la, r) \<Rightarrow> (b\<lparr> ob_bids := lb, ob_asks := la \<rparr>, r)))"

definition apply_snapshot ::
  "int \<Rightarrow> (dec \<times> dec) list \<Rightarrow> (dec \<times> dec) list \<Rightarrow> usec \<Rightarrow> order_book \<Rightarrow> order_book \<times> unit res" where
  "apply_snapshot seq bids asks now b =
     (case upsert_both bids asks (b\<lparr> ob_seq := Some seq, ob_bids := [], ob_asks := [] \<rparr>) of
        (b', Inl e) \<Rightarrow> (b', Inl e)
      | (b', Inr _) \<Rightarrow> (b'\<lparr> ob_status := HEALTHY, ob_updated := Some now \<rparr>, ret ()))"

definition apply_delta ::
  "int \<Rightarrow> (dec \<times> dec) list \<Rightarrow> (dec \<times> dec) list \<Rightarrow> usec \<Rightarrow> order_book \<Rightarrow> order_book \<times> unit res" where
  "apply_delta seq bids asks now b =
     (if (case ob_seq b of Some s \<Rightarrow> seq \<noteq> s + 1 | None \<Rightarrow> False) then (b, raise SequenceGap)
      else (case upsert_both bids asks b of
              (b', Inl e) \<Rightarrow> (b', Inl e)
            | (b', Inr _) \<Rightarrow> (b'\<lparr> ob_seq := Some seq, ob_updated := Some now \<rparr>, ret ())))"

definition invalidate :: "usec \<Rightarrow> order_book \<Rightarrow> order_book" where
  "invalidate now b =
     b\<lparr> ob_status := UNHEALTHY, ob_seq := None, ob_bids := [], ob_asks := [], ob_updated := Some now \<rparr>"

definition ensure_fresh :: "fl \<Rightarrow> usec \<Rightarrow> order_book \<Rightarrow> unit res" where
  "ensure_fresh max_age now b =
     (if ob_status b \<noteq> HEALTHY then raise StaleMarketData
      else case ob_updated b of
             None \<Rightarrow> raise StaleMarketData
           | Some t \<Rightarrow> if max_age < total_seconds (now - t) then raise StaleMarketData else ret ())"

definition neg_price :: "book_level \<Rightarrow> dec" where "neg_price l = - bl_price l"

text \<open>\<open>sorted\<close> is stable, also in reverse.\<close>

definition sorted_levels :: "bool \<Rightarrow> levels \<Rightarrow> book_level list" where
  "sorted_levels rv ls = sort_key (if rv then neg_price else bl_price) (dict_values ls)"

definition best_bid :: "order_book \<Rightarrow> book_level option" where
  "best_bid b = (case sorted_levels True (ob_bids b) of [] \<Rightarrow> None | l # _ \<Rightarrow> Some l)"

definition best_ask :: "order_book \<Rightarrow> book_level option" where
  "best_ask b = (case sorted_levels False (ob_asks b) of [] \<Rightarrow> None | l # _ \<Rightarrow> Some l)"

definition mid_price :: "order_book \<Rightarrow> dec option" where
  "mid_price b =
     (case (best_bid b, best_ask b) of
        (Some l, Some a) \<Rightarrow> Some (ddiv (dadd (bl_price l) (bl_price a)) 2) | _ \<Rightarrow> None)"

subsection \<open>The service\<close>

text \<open>
  The snapshot provider is not part of the repository. While its answer is awaited other tasks
  run, so it is a parameter that maps the state of the service and the symbol to the state after
  those tasks and its answer: an exception, a dictionary or a book.
\<close>

record md_state =
  md_books :: "(string, order_book) dict"
  md_statuses :: "(string, market_data_status) dict"
  md_errors :: "(string, nat) dict"
  md_buffers :: "(string, (int \<times> (dec \<times> dec) list \<times> (dec \<times> dec) list) list) dict"

datatype provided = ProvidedDict int "(dec \<times> dec) list" "(dec \<times> dec) list" | ProvidedBook order_book

type_synonym provider = "md_state \<Rightarrow> string \<Rightarrow> md_state \<times> provided res"

definition md_init :: md_state where
  "md_init = \<lparr> md_books = [], md_statuses = [], md_errors = [], md_buffers = [] \<rparr>"

definition ensure_symbol :: "string \<Rightarrow> string \<Rightarrow> md_state \<Rightarrow> md_state" where
  "ensure_symbol sy ex m =
     (case map_of (md_books m) sy of
        Some _ \<Rightarrow> m
      | None \<Rightarrow> m\<lparr> md_books := AList.update sy (new_book sy ex) (md_books m),
                  md_statuses := AList.update sy UNHEALTHY (md_statuses m),
                  md_buffers := AList.update sy [] (md_buffers m) \<rparr>)"

definition book_of :: "md_state \<Rightarrow> string \<Rightarrow> order_book" where
  "book_of m sy = (case map_of (md_books m) sy of Some b \<Rightarrow> b | None \<Rightarrow> new_book sy ''UNKNOWN'')"

definition put_book :: "string \<Rightarrow> order_book \<Rightarrow> md_state \<Rightarrow> md_state" where
  "put_book sy b m = m\<lparr> md_books := AList.update sy b (md_books m) \<rparr>"

definition set_status :: "string \<Rightarrow> market_data_status \<Rightarrow> md_state \<Rightarrow> md_state" where
  "set_status sy st m =
     (let m1 = m\<lparr> md_statuses := AList.update sy st (md_statuses m) \<rparr>
      in case map_of (md_books m) sy of
           Some b \<Rightarrow> put_book sy (b\<lparr> ob_status := st \<rparr>) m1 | None \<Rightarrow> m1)"

definition add_error :: "string \<Rightarrow> md_state \<Rightarrow> md_state" where
  "add_error sy m = m\<lparr> md_errors :=
     AList.update sy (Suc (case map_of (md_errors m) sy of Some n \<Rightarrow> n | None \<Rightarrow> 0)) (md_errors m) \<rparr>"

definition buffer_of :: "md_state \<Rightarrow> string \<Rightarrow> (int \<times> (dec \<times> dec) list \<times> (dec \<times> dec) list) list" where
  "buffer_of m sy = (case map_of (md_buffers m) sy of Some q \<Rightarrow> q | None \<Rightarrow> [])"

definition set_buffer :: "string \<Rightarrow> (int \<times> (dec \<times> dec) list \<times> (dec \<times> dec) list) list \<Rightarrow> md_state \<Rightarrow> md_state" where
  "set_buffer sy q m = m\<lparr> md_buffers := AList.update sy q (md_buffers m) \<rparr>"

text \<open>Replaying the buffer: every delta is taken off before it is applied.\<close>

fun replay_buffer ::
  "string \<Rightarrow> usec \<Rightarrow> (int \<times> (dec \<times> dec) list \<times> (dec \<times> dec) list) list \<Rightarrow> md_state \<Rightarrow> md_state \<times> unit res" where
  "replay_buffer sy now [] m = (m, ret ())"
| "replay_buffer sy now ((seq, bids, asks) # q) m =
     (let m1 = set_buffer sy q m
      in case apply_delta seq bids asks now (book_of m1 sy) of
           (b, Inr _) \<Rightarrow> replay_buffer sy now q (put_book sy b m1)
         | (b, Inl e) \<Rightarrow>
             if catches [SequenceGap] e
             then (set_status sy UNHEALTHY (put_book sy (invalidate now b) m1), Inl e)
             else (put_book sy b m1, Inl e))"

definition ingest_snapshot ::
  "string \<Rightarrow> int \<Rightarrow> (dec \<times> dec) list \<Rightarrow> (dec \<times> dec) list \<Rightarrow> usec \<Rightarrow> md_state \<Rightarrow> md_state \<times> unit res" where
  "ingest_snapshot sy seq bids asks now m0 =
     (let m = ensure_symbol sy ''UNKNOWN'' m0
      in case apply_snapshot seq bids asks now (book_of m sy) of
           (b, Inl e) \<Rightarrow> (put_book sy b m, Inl e)
         | (b, Inr _) \<Rightarrow>
             (let m2 = set_status sy HEALTHY (put_book sy b m)
              in replay_buffer sy now (buffer_of m2 sy) m2))"

definition resync :: "provider option \<Rightarrow> string \<Rightarrow> usec \<Rightarrow> md_state \<Rightarrow> md_state \<times> unit res" where
  "resync pr sy now m0 =
     (let m = set_status sy RESYNCING (ensure_symbol sy ''UNKNOWN'' m0)
      in case pr of
           None \<Rightarrow> (set_status sy UNHEALTHY m, raise MarketDataUnhealthy)
         | Some p \<Rightarrow>
             (case p m sy of
                (m1, Inl e) \<Rightarrow> (add_error sy (set_status sy UNHEALTHY m1), raise MarketDataUnhealthy)
              | (m1, Inr (ProvidedBook s)) \<Rightarrow>
                  (set_status sy HEALTHY
                     (put_book sy ((book_of m1 sy)\<lparr> ob_bids := ob_bids s, ob_asks := ob_asks s,
                        ob_seq := ob_seq s, ob_updated := Some now \<rparr>) m1), ret ())
              | (m1, Inr (ProvidedDict seq bids asks)) \<Rightarrow>
                  (case ingest_snapshot sy seq bids asks now m1 of
                     (m2, Inl e) \<Rightarrow> (m2, Inl e)
                   | (m2, Inr _) \<Rightarrow> (set_status sy HEALTHY m2, ret ()))))"

definition handle_gap :: "provider option \<Rightarrow> string \<Rightarrow> usec \<Rightarrow> md_state \<Rightarrow> md_state \<times> unit res" where
  "handle_gap pr sy now m0 =
     (let m1 = add_error sy m0;
          m2 = set_status sy RESYNCING (put_book sy (invalidate now (book_of m1 sy)) m1)
      in case resync pr sy now m2 of
           (m3, Inl e) \<Rightarrow> (m3, Inl e)
         | (m3, Inr _) \<Rightarrow>
             if ob_status (book_of m3 sy) \<noteq> HEALTHY then (m3, raise MarketDataUnhealthy) else (m3, ret ()))"

definition delta_step ::
  "provider option \<Rightarrow> string \<Rightarrow> int \<Rightarrow> (dec \<times> dec) list \<Rightarrow> (dec \<times> dec) list \<Rightarrow> usec \<Rightarrow> md_state
     \<Rightarrow> md_state \<times> unit res" where
  "delta_step pr sy seq bids asks now m =
     (case apply_delta seq bids asks now (book_of m sy) of
        (b, Inr _) \<Rightarrow> (let m1 = put_book sy b m in (set_status sy (ob_status b) m1, ret ()))
      | (b, Inl e) \<Rightarrow>
          if catches [SequenceGap] e then
            (case handle_gap pr sy now (put_book sy b m) of
               (m1, Inl e') \<Rightarrow> (m1, Inl e')
             | (m1, Inr _) \<Rightarrow> (set_status sy (ob_status (book_of m1 sy)) m1, ret ()))
          else (put_book sy b m, Inl e))"

definition ingest_delta ::
  "provider option \<Rightarrow> string \<Rightarrow> int \<Rightarrow> (dec \<times> dec) list \<Rightarrow> (dec \<times> dec) list \<Rightarrow> usec \<Rightarrow> md_state
     \<Rightarrow> md_state \<times> unit res" where
  "ingest_delta pr sy seq bids asks now m0 =
     (let m = ensure_symbol sy ''UNKNOWN'' m0; b = book_of m sy
      in if ob_status b = RESYNCING
         then (set_buffer sy (buffer_of m sy @ [(seq, bids, asks)]) m, ret ())
         else if ob_seq b = None then
           (case resync pr sy now m of
              (m1, Inl e) \<Rightarrow> (m1, Inl e)
            | (m1, Inr _) \<Rightarrow>
                if (case ob_seq (book_of m1 sy) of None \<Rightarrow> True | Some s \<Rightarrow> seq \<noteq> s + 1)
                then (set_status sy UNHEALTHY (put_book sy (invalidate now (book_of m1 sy)) m1),
                      raise SequenceGap)
                else delta_step pr sy seq bids asks now m1)
         else delta_step pr sy seq bids asks now m)"

definition is_healthy :: "md_state \<Rightarrow> string \<Rightarrow> bool" where
  "is_healthy m sy \<longleftrightarrow> map_of (md_statuses m) sy = Some HEALTHY \<and>
     (case map_of (md_books m) sy of Some b \<Rightarrow> ob_status b = HEALTHY | None \<Rightarrow> False)"

definition is_fresh :: "md_state \<Rightarrow> string \<Rightarrow> fl \<Rightarrow> usec \<Rightarrow> bool" where
  "is_fresh m sy max_age now =
     (case map_of (md_books m) sy of
        None \<Rightarrow> False
      | Some b \<Rightarrow> is_healthy m sy \<and>
          (case ob_updated b of None \<Rightarrow> False | Some t \<Rightarrow> total_seconds (now - t) \<le> max_age))"

subsection \<open>Text keys stand for prices\<close>

lemma format_decimal_reads_back:
  assumes "places m x" "format_decimal x = ret s"
  shows "D (PyStr s) = ret x"
proof (cases "x = 0")
  case True
  have "D (PyStr ''0'') = ret 0" by code_simp
  then show ?thesis using True assms(2) by (simp add: format_decimal_def del: D.simps)
next
  case False
  then have "s = plain_text x" using assms(2) by (auto simp: format_decimal_def rbind_eq_Inr)
  then show ?thesis using D_plain_text [OF assms(1)] by simp
qed

lemma format_decimal_inj:
  assumes "places m x" "places n y" "format_decimal x = ret s" "format_decimal y = ret s"
  shows "x = y"
  using format_decimal_reads_back [OF assms(1,3)] format_decimal_reads_back [OF assms(2,4)] by simp

text \<open>A price that can be a key: finitely many decimals, within the range of the quantum.\<close>

definition price_ok :: "dec \<Rightarrow> bool" where
  "price_ok p \<longleftrightarrow> (\<exists>m. places m p) \<and> (\<exists>s. format_decimal p = ret s)"

lemma price_okI:
  assumes "places m p" "\<bar>p\<bar> < 10 ^ 20 - 1"
  shows "price_ok p"
proof -
  obtain q where "quantize half_even (-8) p = ret q" using quantize_8_ok [OF assms(2)] by blast
  then have "\<exists>s. format_decimal p = ret s" by (simp add: format_decimal_def)
  then show ?thesis using assms(1) by (auto simp: price_ok_def)
qed

definition levels_ok :: "levels \<Rightarrow> bool" where
  "levels_ok ls \<longleftrightarrow> dict_ok ls \<and>
     (\<forall>(k, l) \<in> set ls. format_decimal (bl_price l) = ret k \<and> price_ok (bl_price l) \<and> 0 < bl_qty l)"

text \<open>The book side as a map from prices to quantities, and what an update list means for it.\<close>

definition book_map :: "levels \<Rightarrow> dec \<Rightarrow> dec option" where
  "book_map ls = map_of (map (\<lambda>(k, l). (bl_price l, bl_qty l)) ls)"

fun level_spec :: "(dec \<times> dec) list \<Rightarrow> (dec \<Rightarrow> dec option) \<Rightarrow> dec \<Rightarrow> dec option" where
  "level_spec [] f = f"
| "level_spec ((p, q) # us) f = level_spec us (if q = 0 then f(p := None) else f(p \<mapsto> q))"

lemma book_map_update:
  "\<forall>(k, l) \<in> set ls. k = key \<longleftrightarrow> bl_price l = p \<Longrightarrow>
   book_map (AList.update key \<lparr>bl_price = p, bl_qty = q\<rparr> ls) = (book_map ls)(p \<mapsto> q)"
  by (induction ls) (auto simp: book_map_def fun_eq_iff)

lemma book_map_delete:
  "\<forall>(k, l) \<in> set ls. k = key \<longleftrightarrow> bl_price l = p \<Longrightarrow>
   book_map (AList.delete key ls) = (book_map ls)(p := None)"
  by (induction ls) (auto simp: book_map_def fun_eq_iff AList.delete_eq)

lemma upsert_one_ok:
  assumes ls: "levels_ok ls" and p: "price_ok p" and q: "0 \<le> q"
  shows "\<exists>ls'. upsert_one (p, q) ls = ret ls' \<and> levels_ok ls' \<and>
           book_map ls' = (if q = 0 then (book_map ls)(p := None) else (book_map ls)(p \<mapsto> q))"
proof -
  obtain m key where m: "places m p" and key: "format_decimal p = ret key" using p by (auto simp: price_ok_def)
  have k: "\<forall>(k, l) \<in> set ls. k = key \<longleftrightarrow> bl_price l = p"
  proof safe
    fix l assume "(key, l) \<in> set ls"
    then have f: "format_decimal (bl_price l) = ret key" "price_ok (bl_price l)" using ls by (auto simp: levels_ok_def)
    then obtain n where "places n (bl_price l)" by (auto simp: price_ok_def)
    from format_decimal_inj [OF this m f(1) key] show "bl_price l = p" .
  next
    fix k l assume "(k, l) \<in> set ls" "p = bl_price l"
    then show "k = key" using ls key by (auto simp: levels_ok_def)
  qed
  show ?thesis
  proof (cases "q = 0")
    case True
    have "levels_ok (AList.delete key ls)"
      using ls set_dict_delete [of key ls] by (auto simp: levels_ok_def)
    then show ?thesis using True key book_map_delete [OF k] by (simp add: upsert_one_def)
  next
    case False
    have "levels_ok (AList.update key \<lparr>bl_price = p, bl_qty = q\<rparr> ls)"
      using ls set_dict_update [of key "\<lparr>bl_price = p, bl_qty = q\<rparr>" ls] key p q False
      by (fastforce simp: levels_ok_def)
    then show ?thesis using False q key book_map_update [OF k] by (simp add: upsert_one_def)
  qed
qed

definition updates_ok :: "(dec \<times> dec) list \<Rightarrow> bool" where
  "updates_ok us \<longleftrightarrow> (\<forall>(p, q) \<in> set us. price_ok p \<and> 0 \<le> q)"

lemma upsert_ok:
  "levels_ok ls \<Longrightarrow> updates_ok us \<Longrightarrow>
     \<exists>ls'. upsert us ls = (ls', ret ()) \<and> levels_ok ls' \<and> book_map ls' = level_spec us (book_map ls)"
proof (induction us arbitrary: ls)
  case (Cons u us)
  obtain p q where u: "u = (p, q)" by force
  then have "price_ok p" "0 \<le> q" "updates_ok us" using Cons.prems(2) by (auto simp: updates_ok_def)
  from upsert_one_ok [OF Cons.prems(1) this(1,2)] obtain l1 where
    l1: "upsert_one (p, q) ls = ret l1" "levels_ok l1"
    "book_map l1 = (if q = 0 then (book_map ls)(p := None) else (book_map ls)(p \<mapsto> q))" by blast
  from Cons.IH [OF l1(2) \<open>updates_ok us\<close>] show ?case by (simp add: u l1(1,3))
qed simp

lemma levels_ok_Nil [simp]: "levels_ok []"
  by (simp add: levels_ok_def)

lemma upsert_both_ok:
  assumes "levels_ok (ob_bids b)" "levels_ok (ob_asks b)" "updates_ok bids" "updates_ok asks"
  shows "\<exists>lb la. upsert_both bids asks b = (b\<lparr> ob_bids := lb, ob_asks := la \<rparr>, ret ())
    \<and> levels_ok lb \<and> levels_ok la \<and> book_map lb = level_spec bids (book_map (ob_bids b))
    \<and> book_map la = level_spec asks (book_map (ob_asks b))"
proof -
  obtain lb where lb: "upsert bids (ob_bids b) = (lb, ret ())" "levels_ok lb"
    "book_map lb = level_spec bids (book_map (ob_bids b))" using upsert_ok [OF assms(1,3)] by blast
  obtain la where la: "upsert asks (ob_asks b) = (la, ret ())" "levels_ok la"
    "book_map la = level_spec asks (book_map (ob_asks b))" using upsert_ok [OF assms(2,4)] by blast
  from lb la show ?thesis by (intro exI [of _ lb] exI [of _ la]) (simp add: upsert_both_def)
qed

text \<open>C35: a delta with the next sequence number implements, on the text-keyed dictionaries, the
  update of the two maps from prices to quantities in which a zero removes the price.\<close>

theorem delta_refines_maps:
  assumes "levels_ok (ob_bids b)" "levels_ok (ob_asks b)" "updates_ok bids" "updates_ok asks"
    and "ob_seq b = Some s"
  shows "\<exists>b'. apply_delta (s + 1) bids asks now b = (b', ret ()) \<and> ob_seq b' = Some (s + 1)
    \<and> book_map (ob_bids b') = level_spec bids (book_map (ob_bids b))
    \<and> book_map (ob_asks b') = level_spec asks (book_map (ob_asks b))
    \<and> levels_ok (ob_bids b') \<and> levels_ok (ob_asks b') \<and> ob_status b' = ob_status b"
proof -
  obtain lb la where u: "upsert_both bids asks b = (b\<lparr> ob_bids := lb, ob_asks := la \<rparr>, ret ())"
    "levels_ok lb" "levels_ok la" "book_map lb = level_spec bids (book_map (ob_bids b))"
    "book_map la = level_spec asks (book_map (ob_asks b))"
    using upsert_both_ok [OF assms(1-4)] by blast
  then show ?thesis using assms(5) by (simp add: apply_delta_def)
qed

lemma places_simple: "places 2 (of_int n / 100)"
  by (simp add: places_def)

theorem delta_refines_maps_witness:
  "\<exists>b'. apply_delta (4 + 1) [(100, 2), (101, 0)] [(102, 3)] 9
          ((new_book ''BTCUSDT'' ''SIM'')\<lparr> ob_seq := Some 4 \<rparr>) = (b', ret ())
     \<and> book_map (ob_bids b') = level_spec [(100, 2), (101, 0)] (book_map [])"
proof -
  let ?b = "(new_book ''BTCUSDT'' ''SIM'')\<lparr> ob_seq := Some 4 \<rparr>"
  have p: "price_ok 100" "price_ok 101" "price_ok 102"
    by (rule price_okI [of 0]; simp add: places_def)+
  have "levels_ok (ob_bids ?b)" "levels_ok (ob_asks ?b)" "ob_seq ?b = Some 4" "ob_bids ?b = []"
    by (simp_all add: new_book_def)
  moreover have "updates_ok [(100, 2), (101, 0)]" "updates_ok [(102, 3)]"
    using p by (simp_all add: updates_ok_def)
  ultimately show ?thesis
    using delta_refines_maps [of ?b "[(100, 2), (101, 0)]" "[(102, 3)]" 4 9] by metis
qed

subsection \<open>The best levels\<close>

lemma sort_key_hd:
  assumes "sort_key f xs = x # ys"
  shows "x \<in> set xs \<and> (\<forall>y \<in> set xs. f x \<le> f y)"
proof -
  have s: "set (sort_key f xs) = set xs" "sorted (map f (sort_key f xs))" by simp_all
  then have "set xs = set (x # ys)" by (simp add: assms)
  then show ?thesis using s(2) assms by auto
qed

text \<open>The best bid is a level of the book with the highest price, the best ask one with the lowest.\<close>

lemma best_bid_max:
  "best_bid b = Some l \<Longrightarrow> l \<in> set (dict_values (ob_bids b)) \<and> (\<forall>y \<in> set (dict_values (ob_bids b)). bl_price y \<le> bl_price l)"
  by (auto simp: best_bid_def sorted_levels_def neg_price_def split: list.splits dest!: sort_key_hd)

lemma best_ask_min:
  "best_ask b = Some l \<Longrightarrow> l \<in> set (dict_values (ob_asks b)) \<and> (\<forall>y \<in> set (dict_values (ob_asks b)). bl_price l \<le> bl_price y)"
  by (auto simp: best_ask_def sorted_levels_def split: list.splits dest!: sort_key_hd)

lemma best_bid_None: "best_bid b = None \<longleftrightarrow> ob_bids b = []"
  by (auto simp: best_bid_def sorted_levels_def dict_values_def split: list.splits dest: arg_cong [of _ _ length])

subsection \<open>Health\<close>

lemma is_healthy_set_status:
  "st \<noteq> HEALTHY \<Longrightarrow> \<not> is_healthy (set_status sy st m) sy"
  by (auto simp: is_healthy_def set_status_def put_book_def Let_def split: option.splits)

lemma is_healthy_add_error [simp]: "is_healthy (add_error sy' m) sy = is_healthy m sy"
  by (simp add: is_healthy_def add_error_def)

definition gap_or_unhealthy :: "exn \<Rightarrow> bool" where
  "gap_or_unhealthy e \<longleftrightarrow> exn_cls e = SequenceGap \<or> exn_cls e = MarketDataUnhealthy"

lemma catches_gap [simp]: "catches [SequenceGap] e \<longleftrightarrow> is_a (exn_cls e) SequenceGap"
  by (simp add: catches_def)

lemma is_a_gap: "is_a c SequenceGap \<longleftrightarrow> c = SequenceGap"
  by (cases c) (subst is_a.simps; simp; (subst is_a.simps; simp; (subst is_a.simps; simp; (subst is_a.simps; simp)?)?)?)+

lemma format_decimal_error: "format_decimal p = Inl e \<Longrightarrow> exn_cls e = InvalidOperation"
  by (auto simp: format_decimal_def rbind_eq_Inl quantize_def Let_def split: if_splits)

lemma upsert_error: "upsert us ls = (ls', Inl e) \<Longrightarrow> \<not> gap_or_unhealthy e"
proof (induction us arbitrary: ls)
  case (Cons u us)
  show ?case
  proof (cases "upsert_one u ls")
    case (Inl e')
    then have "e' = e" using Cons.prems by simp
    moreover have "exn_cls e' = ValueError \<or> exn_cls e' = InvalidOperation"
      using Inl format_decimal_error by (auto simp: upsert_one_def rbind_eq_Inl split: if_splits)
    ultimately show ?thesis by (auto simp: gap_or_unhealthy_def)
  next
    case (Inr l)
    then show ?thesis using Cons by simp
  qed
qed simp

lemma upsert_both_error: "upsert_both bids asks b = (b', Inl e) \<Longrightarrow> \<not> gap_or_unhealthy e"
  using upsert_error by (fastforce simp: upsert_both_def split: prod.splits sum.splits)

lemma apply_snapshot_error: "apply_snapshot seq bids asks now b = (b', Inl e) \<Longrightarrow> \<not> gap_or_unhealthy e"
  using upsert_both_error by (fastforce simp: apply_snapshot_def split: prod.splits sum.splits)

lemma apply_delta_error:
  "apply_delta seq bids asks now b = (b', Inl e) \<Longrightarrow> gap_or_unhealthy e \<Longrightarrow> exn_cls e = SequenceGap"
  using upsert_both_error [of bids asks b]
  by (fastforce simp: apply_delta_def split: prod.splits sum.splits if_splits)

lemma replay_buffer_error:
  "replay_buffer sy now q m = (m', Inl e) \<Longrightarrow> gap_or_unhealthy e \<Longrightarrow> \<not> is_healthy m' sy"
proof (induction sy now q m rule: replay_buffer.induct)
  case (2 sy now seq bids asks q m)
  obtain b r where a: "apply_delta seq bids asks now (book_of (set_buffer sy q m) sy) = (b, r)" by force
  show ?case
  proof (cases r)
    case (Inr u)
    then show ?thesis using 2 a by simp
  next
    case (Inl e')
    show ?thesis
    proof (cases "exn_cls e' = SequenceGap")
      case True
      then show ?thesis using 2(2) a Inl by (auto simp: is_a_gap is_healthy_set_status)
    next
      case False
      then have "e' = e" using 2(2) a Inl by (simp add: is_a_gap)
      then show ?thesis using apply_delta_error [of seq bids asks now _ b e] a Inl 2(3) False by metis
    qed
  qed
qed simp

lemma ingest_snapshot_error:
  assumes "ingest_snapshot sy seq bids asks now m = (m', Inl e)" "gap_or_unhealthy e"
  shows "\<not> is_healthy m' sy"
proof -
  obtain b r where a: "apply_snapshot seq bids asks now (book_of (ensure_symbol sy ''UNKNOWN'' m) sy) = (b, r)" by force
  show ?thesis
  proof (cases r)
    case (Inl e')
    then show ?thesis using assms a apply_snapshot_error by (auto simp: ingest_snapshot_def Let_def)
  next
    case (Inr u)
    then show ?thesis using assms a replay_buffer_error by (auto simp: ingest_snapshot_def Let_def)
  qed
qed

lemma resync_error:
  assumes "resync pr sy now m = (m', Inl e)" "gap_or_unhealthy e"
  shows "\<not> is_healthy m' sy"
  using assms ingest_snapshot_error is_healthy_set_status
  by (auto simp: resync_def Let_def split: option.splits prod.splits sum.splits provided.splits)

lemma not_healthy_book: "ob_status (book_of m sy) \<noteq> HEALTHY \<Longrightarrow> \<not> is_healthy m sy"
  by (auto simp: is_healthy_def book_of_def split: option.splits)

lemma handle_gap_error:
  assumes "handle_gap pr sy now m = (m', Inl e)" "gap_or_unhealthy e"
  shows "\<not> is_healthy m' sy"
proof -
  define m2 where "m2 = set_status sy RESYNCING
    (put_book sy (invalidate now (book_of (add_error sy m) sy)) (add_error sy m))"
  obtain m3 r where r: "resync pr sy now m2 = (m3, r)" by force
  show ?thesis
  proof (cases r)
    case (Inl e')
    then show ?thesis using assms r resync_error
      by (simp add: handle_gap_def m2_def [symmetric] Let_def)
  next
    case (Inr u)
    then have "m' = m3" "ob_status (book_of m3 sy) \<noteq> HEALTHY"
      using assms(1) r by (simp_all add: handle_gap_def m2_def [symmetric] Let_def split: if_splits)
    then show ?thesis using not_healthy_book by simp
  qed
qed

lemma delta_step_error:
  assumes "delta_step pr sy seq bids asks now m = (m', Inl e)" "gap_or_unhealthy e"
  shows "\<not> is_healthy m' sy"
proof -
  obtain b r where a: "apply_delta seq bids asks now (book_of m sy) = (b, r)" by force
  show ?thesis
  proof (cases r)
    case (Inr u)
    then show ?thesis using assms(1) a by (simp add: delta_step_def Let_def)
  next
    case (Inl e')
    show ?thesis
    proof (cases "exn_cls e' = SequenceGap")
      case True
      then show ?thesis using assms a Inl handle_gap_error
        by (auto simp: delta_step_def is_a_gap Let_def split: prod.splits sum.splits)
    next
      case False
      then have "e' = e" using assms(1) a Inl by (simp add: delta_step_def is_a_gap)
      then show ?thesis using apply_delta_error a Inl assms(2) False by metis
    qed
  qed
qed

text \<open>A delta that is refused for a gap or an unhealthy feed leaves the symbol unhealthy,
  whatever the snapshot provider answers and whatever other tasks did while it was awaited.\<close>

theorem refused_delta_unhealthy:
  assumes "ingest_delta pr sy seq bids asks now m = (m', Inl e)"
    and "exn_cls e = SequenceGap \<or> exn_cls e = MarketDataUnhealthy"
  shows "\<not> is_healthy m' sy \<and> \<not> is_fresh m' sy max_age now'"
proof -
  have g: "gap_or_unhealthy e" using assms(2) by (simp add: gap_or_unhealthy_def)
  have "\<not> is_healthy m' sy"
    using assms(1) g resync_error delta_step_error is_healthy_set_status
    by (auto simp: ingest_delta_def Let_def split: prod.splits sum.splits if_splits)
  then show ?thesis by (simp add: is_fresh_def split: option.split)
qed

definition ex_md :: md_state where
  "ex_md = fst (ingest_snapshot ''BTCUSDT'' 10 [(100, 1)] [(101, 1)] 1 md_init)"

theorem refused_delta_unhealthy_witness:
  "\<exists>m' e. ingest_delta None ''BTCUSDT'' 12 [] [] 2 ex_md = (m', Inl e) \<and> is_healthy ex_md ''BTCUSDT''
     \<and> \<not> is_healthy m' ''BTCUSDT'' \<and> \<not> is_fresh m' ''BTCUSDT'' 5 3"
proof -
  have h: "is_healthy ex_md ''BTCUSDT''" by code_simp
  have "(case ingest_delta None ''BTCUSDT'' 12 [] [] 2 ex_md of (_, Inl e) \<Rightarrow> exn_cls e = MarketDataUnhealthy | _ \<Rightarrow> False)"
    by code_simp
  then obtain m' e where r: "ingest_delta None ''BTCUSDT'' 12 [] [] 2 ex_md = (m', Inl e)" "exn_cls e = MarketDataUnhealthy"
    by (cases "ingest_delta None ''BTCUSDT'' 12 [] [] 2 ex_md") (auto split: sum.splits)
  show ?thesis using refused_delta_unhealthy [OF r(1), of 5 3] r h by blast
qed

subsection \<open>Deltas buffered during a resync\<close>

text \<open>A delta that was buffered while the snapshot was fetched and that the snapshot already
  contains makes the snapshot fail: the book is emptied and the symbol is unhealthy.\<close>

theorem buffered_delta_in_snapshot_fails:
  assumes "apply_snapshot s bids asks now (book_of m sy) = (b, ret ())" "map_of (md_books m) sy = Some c"
    and "buffer_of m sy = (seq, bids', asks') # q" "seq \<le> s"
  shows "\<exists>m' e. ingest_snapshot sy s bids asks now m = (m', Inl e) \<and> exn_cls e = SequenceGap
    \<and> \<not> is_healthy m' sy \<and> ob_seq (book_of m' sy) = None \<and> buffer_of m' sy = q"
proof -
  have en: "ensure_symbol sy ''UNKNOWN'' m = m" using assms(2) by (simp add: ensure_symbol_def)
  define m2 where "m2 = set_status sy HEALTHY (put_book sy b m)"
  have b2: "map_of (md_books m2) sy = Some (b\<lparr> ob_status := HEALTHY \<rparr>)" "buffer_of m2 sy = (seq, bids', asks') # q"
    using assms(3) by (simp_all add: m2_def set_status_def put_book_def Let_def buffer_of_def)
  have "ob_seq b = Some s"
    using assms(1) by (auto simp: apply_snapshot_def upsert_both_def split: prod.splits sum.splits)
  define m3 where "m3 = set_buffer sy q m2"
  have b3: "book_of m3 sy = b\<lparr> ob_status := HEALTHY \<rparr>" "buffer_of m3 sy = q"
    using b2 by (simp_all add: m3_def set_buffer_def book_of_def buffer_of_def)
  have "apply_delta seq bids' asks' now (book_of m3 sy) = (book_of m3 sy, raise SequenceGap)"
    using assms(4) \<open>ob_seq b = Some s\<close> by (simp add: apply_delta_def b3)
  then have "ingest_snapshot sy s bids asks now m =
      (set_status sy UNHEALTHY (put_book sy (invalidate now (book_of m3 sy)) m3), raise SequenceGap)"
    using assms(1) en b2(2) by (simp add: ingest_snapshot_def m2_def [symmetric] m3_def [symmetric] is_a_gap)
  then show ?thesis using b3(2)
    by (simp add: is_healthy_set_status)
      (simp add: set_status_def put_book_def book_of_def invalidate_def buffer_of_def Let_def)
qed

theorem buffered_delta_in_snapshot_fails_witness:
  "\<exists>m' e. ingest_snapshot ''BTCUSDT'' 12 [(100, 1)] [(101, 1)] 3 (set_buffer ''BTCUSDT'' [(11, [], [])] ex_md) = (m', Inl e)
     \<and> exn_cls e = SequenceGap \<and> \<not> is_healthy m' ''BTCUSDT''"
proof -
  let ?m = "set_buffer ''BTCUSDT'' [(11, [], [])] ex_md"
  have "(case apply_snapshot 12 [(100, 1)] [(101, 1)] 3 (book_of ?m ''BTCUSDT'') of (_, Inr _) \<Rightarrow> True | _ \<Rightarrow> False)"
    by code_simp
  then obtain b where b: "apply_snapshot 12 [(100, 1)] [(101, 1)] 3 (book_of ?m ''BTCUSDT'') = (b, ret ())"
    by (cases "apply_snapshot 12 [(100, 1)] [(101, 1)] 3 (book_of ?m ''BTCUSDT'')") (auto split: sum.splits)
  have "(case map_of (md_books ?m) ''BTCUSDT'' of Some _ \<Rightarrow> True | None \<Rightarrow> False)" by code_simp
  then obtain c where c: "map_of (md_books ?m) ''BTCUSDT'' = Some c" by (auto split: option.splits)
  have q: "buffer_of ?m ''BTCUSDT'' = (11, [], []) # []" by (simp add: buffer_of_def set_buffer_def)
  show ?thesis using buffered_delta_in_snapshot_fails [OF b c q] by auto
qed

end
