(* ===== verification/Market_Gate.thy ===== *)
theory Market_Gate
  imports Domain
begin

text \<open>
  \<open>market_data/state.py\<close> and \<open>new_risk_gate.py\<close>: the market state with the health of each source,
  and the gate that keeps new risk out when the data is missing or stale. The gate's result is a
  value or an exception, since the code reads an attribute that the class does not have.
\<close>

subsection \<open>The market state\<close>

datatype data_health = DH_HEALTHY | DH_DEGRADED | DH_STALE | DH_UNAVAILABLE | DH_INVALID

fun health_value :: "data_health \<Rightarrow> string" where
  "health_value DH_HEALTHY = ''HEALTHY''"
| "health_value DH_DEGRADED = ''DEGRADED''"
| "health_value DH_STALE = ''STALE''"
| "health_value DH_UNAVAILABLE = ''UNAVAILABLE''"
| "health_value DH_INVALID = ''INVALID''"

record source_status =
  ss_source :: string
  ss_status :: data_health
  ss_age :: fl
  ss_updated :: "usec option"
  ss_error :: "string option"
  ss_data_source :: string

record market_state =
  mk_symbol :: string
  mk_timestamp :: usec
  mk_price :: dec
  mk_mark :: dec
  mk_index :: dec
  mk_bid :: dec
  mk_ask :: dec
  mk_bid_size :: "dec option"
  mk_ask_size :: "dec option"
  mk_last_size :: "dec option"
  mk_spread :: dec
  mk_depth :: dec
  mk_imbalance :: dec
  mk_trade_volume :: dec
  mk_volume :: dec
  mk_volume_24h :: "dec option"
  mk_volume_ccy_24h :: "dec option"
  mk_open_24h :: "dec option"
  mk_high_24h :: "dec option"
  mk_low_24h :: "dec option"
  mk_change_24h :: "dec option"
  mk_change_pct_24h :: "dec option"
  mk_open_utc0 :: "dec option"
  mk_open_utc8 :: "dec option"
  mk_funding_rate :: "dec option"
  mk_next_funding :: "usec option"
  mk_oi :: "dec option"
  mk_oi_ccy :: "dec option"
  mk_oi_usd :: "dec option"
  mk_oi_change :: "dec option"
  mk_basis :: "dec option"
  mk_volatility :: "dec option"
  mk_source :: string
  mk_exchange :: string
  mk_exchange_ts :: "usec option"
  mk_received_ts :: usec
  mk_freshness :: data_health
  mk_health :: data_health
  mk_version :: int
  mk_sources :: "(string, source_status) dict"
  mk_generation :: int
  mk_new_risk_allowed :: bool
  mk_block_reason :: string

definition new_market_state :: "string \<Rightarrow> usec \<Rightarrow> market_state" where
  "new_market_state sy now = \<lparr> mk_symbol = sy, mk_timestamp = now, mk_price = 0, mk_mark = 0,
     mk_index = 0, mk_bid = 0, mk_ask = 0, mk_bid_size = None, mk_ask_size = None,
     mk_last_size = None, mk_spread = 0, mk_depth = 0, mk_imbalance = 0, mk_trade_volume = 0,
     mk_volume = 0, mk_volume_24h = None, mk_volume_ccy_24h = None, mk_open_24h = None,
     mk_high_24h = None, mk_low_24h = None, mk_change_24h = None, mk_change_pct_24h = None,
     mk_open_utc0 = None, mk_open_utc8 = None, mk_funding_rate = None, mk_next_funding = None,
     mk_oi = None, mk_oi_ccy = None, mk_oi_usd = None, mk_oi_change = None, mk_basis = None,
     mk_volatility = None, mk_source = ''BINANCE_USDM_PUBLIC'', mk_exchange = ''BINANCE'',
     mk_exchange_ts = None, mk_received_ts = now, mk_freshness = DH_UNAVAILABLE,
     mk_health = DH_UNAVAILABLE, mk_version = 0, mk_sources = [], mk_generation = 0,
     mk_new_risk_allowed = False, mk_block_reason = ''MARKET_STATE_NO_GENERATION'' \<rparr>"

definition source_unavailable :: "source_status \<Rightarrow> source_status" where
  "source_unavailable s = s\<lparr> ss_status := DH_UNAVAILABLE, ss_updated := None \<rparr>"

definition mk_invalidate :: "string \<Rightarrow> market_state \<Rightarrow> market_state" where
  "mk_invalidate reason m = m\<lparr> mk_generation := mk_generation m + 1, mk_health := DH_UNAVAILABLE,
     mk_freshness := DH_UNAVAILABLE, mk_new_risk_allowed := False, mk_block_reason := reason,
     mk_sources := map (\<lambda>(k, s). (k, source_unavailable s)) (mk_sources m) \<rparr>"

definition overall_health :: "market_state \<Rightarrow> data_health" where
  "overall_health m =
     (let st = map ss_status (dict_values (mk_sources m))
      in if st = [] then DH_UNAVAILABLE
         else if list_all ((=) DH_HEALTHY) st then DH_HEALTHY
         else if list_ex ((=) DH_STALE) st then DH_STALE
         else DH_DEGRADED)"

definition mark_healthy_from_sources :: "market_state \<Rightarrow> market_state" where
  "mark_healthy_from_sources m =
     (let h = overall_health m;
          m1 = m\<lparr> mk_health := h, mk_freshness := h, mk_new_risk_allowed := (h = DH_HEALTHY) \<rparr>
      in if h = DH_HEALTHY then m1 else m1\<lparr> mk_block_reason := health_value h \<rparr>)"

definition compute_basis :: "market_state \<Rightarrow> market_state" where
  "compute_basis m =
     m\<lparr> mk_basis := (if mk_index m \<noteq> 0 \<and> 0 < mk_index m
                     then Some (ddiv (dsub (mk_mark m) (mk_index m)) (mk_index m)) else None),
        mk_version := mk_version m + 1 \<rparr>"

definition compute_24h_change :: "market_state \<Rightarrow> market_state" where
  "compute_24h_change m =
     (let m1 = (case mk_open_24h m of
        Some op \<Rightarrow>
          if 0 < op then
            (let ch = dsub (mk_price m) op
             in m\<lparr> mk_change_24h := Some ch, mk_change_pct_24h := Some (ddiv ch op) \<rparr>)
          else m\<lparr> mk_change_24h := None, mk_change_pct_24h := None \<rparr>
      | None \<Rightarrow> m\<lparr> mk_change_24h := None, mk_change_pct_24h := None \<rparr>)
      in m1\<lparr> mk_version := mk_version m1 + 1 \<rparr>)"

subsection \<open>The gate\<close>

definition age_at :: "usec \<Rightarrow> usec option \<Rightarrow> fl" where
  "age_at now t = (case t of None \<Rightarrow> 999 | Some t' \<Rightarrow> total_seconds (now - t'))"

text \<open>Without an \<open>orderbook\<close> source the code reads \<open>market_state.updated_at\<close>, which no
  \<open>MarketState\<close> has.\<close>

definition book_age :: "usec \<Rightarrow> market_state \<Rightarrow> fl res" where
  "book_age now m =
     (case map_of (mk_sources m) ''orderbook'' of
        Some s \<Rightarrow> ret (age_at now (ss_updated s)) | None \<Rightarrow> raise AttributeErrorC)"

definition mark_stale :: "usec \<Rightarrow> fl \<Rightarrow> market_state \<Rightarrow> bool" where
  "mark_stale now mx m =
     (case map_of (mk_sources m) ''mark_price'' of
        Some s \<Rightarrow> mx < age_at now (ss_updated s) | None \<Rightarrow> False)"

definition can_add_risk :: "usec \<Rightarrow> fl \<Rightarrow> fl \<Rightarrow> market_state option \<Rightarrow> (bool \<times> string) res" where
  "can_add_risk now book_max mark_max ms =
     (case ms of
        None \<Rightarrow> ret (False, ''MARKET_STATE_MISSING'')
      | Some m \<Rightarrow>
          if mk_generation m < 1 then ret (False, ''MARKET_STATE_NO_GENERATION'')
          else if mk_health m \<in> set [DH_UNAVAILABLE, DH_STALE] then ret (False, ''MARKET_DATA_UNAVAILABLE'')
          else if mk_bid m \<le> 0 \<or> mk_ask m \<le> 0 then ret (False, ''ORDERBOOK_UNAVAILABLE'')
          else if mk_ask m < mk_bid m then ret (False, ''ORDERBOOK_INVALID'')
          else rbind (book_age now m) (\<lambda>a.
            if book_max < a then ret (False, ''ORDERBOOK_STALE'')
            else if mark_stale now mark_max m then ret (False, ''MARK_PRICE_STALE'')
            else if mk_mark m \<le> 0 then ret (False, ''MARK_PRICE_UNAVAILABLE'')
            else ret (True, ''MARKET_DATA_HEALTHY'')))"

definition classify_order_action :: "order_side \<Rightarrow> dec \<Rightarrow> string" where
  "classify_order_action side pos =
     (if side = BUY then (if 0 \<le> pos then ''INCREASE_LONG'' else ''REDUCE_SHORT'')
      else (if pos \<le> 0 then ''INCREASE_SHORT'' else ''REDUCE_LONG''))"

definition new_risk_blocked_for_action ::
  "usec \<Rightarrow> market_state option \<Rightarrow> order_side \<Rightarrow> dec \<Rightarrow> (bool \<times> string) res" where
  "new_risk_blocked_for_action now ms side pos =
     (if classify_order_action side pos \<in> set [''REDUCE_LONG'', ''REDUCE_SHORT'']
      then ret (False, ''RISK_REDUCING_ALLOWED'')
      else rbind (can_add_risk now 5 10 ms) (\<lambda>(allowed, reason). ret (\<not> allowed, reason)))"

subsection \<open>What an open gate says about the data\<close>

lemma can_add_risk_True:
  assumes "can_add_risk now bm mm ms = ret (True, r)"
  shows "\<exists>m s. ms = Some m \<and> map_of (mk_sources m) ''orderbook'' = Some s \<and>
    age_at now (ss_updated s) \<le> bm \<and> 0 < mk_bid m \<and> mk_bid m \<le> mk_ask m \<and> 0 < mk_mark m \<and>
    \<not> mark_stale now mm m \<and> mk_health m \<noteq> DH_UNAVAILABLE \<and> mk_health m \<noteq> DH_STALE \<and> 1 \<le> mk_generation m"
  using assms
  by (auto simp: can_add_risk_def book_age_def not_less not_le split: option.splits if_splits)

lemma age_at_fresh:
  "age_at now t \<le> 5 \<Longrightarrow> \<exists>u. t = Some u \<and> total_seconds (now - u) \<le> 5"
  by (cases t) (auto simp: age_at_def)

lemma increasing_action:
  "(if side = BUY then 0 \<le> pos else pos \<le> 0) \<longleftrightarrow>
   classify_order_action side pos \<notin> set [''REDUCE_LONG'', ''REDUCE_SHORT'']"
  by (auto simp: classify_order_action_def)

text \<open>C36: when the gate lets an order pass that adds to the position (or opens one), the order book
  was updated at most five seconds ago, its quotes are positive and not crossed, the mark price is
  positive and not stale, and the state is neither stale nor unavailable.\<close>

theorem open_gate_means_fresh_data:
  assumes "new_risk_blocked_for_action now ms side pos = ret (False, r)"
    and "if side = BUY then 0 \<le> pos else pos \<le> 0"
  shows "\<exists>m s t. ms = Some m \<and> map_of (mk_sources m) ''orderbook'' = Some s \<and> ss_updated s = Some t \<and>
    total_seconds (now - t) \<le> 5 \<and> 0 < mk_bid m \<and> mk_bid m \<le> mk_ask m \<and> 0 < mk_mark m \<and>
    \<not> mark_stale now 10 m \<and> mk_health m \<notin> {DH_UNAVAILABLE, DH_STALE} \<and> 1 \<le> mk_generation m"
proof -
  have "\<exists>r. can_add_risk now 5 10 ms = ret (True, r)"
    using assms increasing_action
    by (auto simp: new_risk_blocked_for_action_def rbind_eq_Inr split: if_splits prod.splits)
  then obtain r m s where m: "ms = Some m" "map_of (mk_sources m) ''orderbook'' = Some s"
    "age_at now (ss_updated s) \<le> 5" "0 < mk_bid m" "mk_bid m \<le> mk_ask m" "0 < mk_mark m"
    "\<not> mark_stale now 10 m" "mk_health m \<noteq> DH_UNAVAILABLE" "mk_health m \<noteq> DH_STALE" "1 \<le> mk_generation m"
    using can_add_risk_True by blast
  obtain t where "ss_updated s = Some t" "total_seconds (now - t) \<le> 5" using age_at_fresh m(3) by blast
  then show ?thesis using m by auto
qed

definition ex_source :: "data_health \<Rightarrow> source_status" where
  "ex_source h = \<lparr> ss_source = ''OKX'', ss_status = h, ss_age = -1, ss_updated = Some 0,
     ss_error = None, ss_data_source = ''OKX'' \<rparr>"

definition ex_market :: "data_health \<Rightarrow> market_state" where
  "ex_market h = mark_healthy_from_sources ((new_market_state ''BTC'' 0)\<lparr> mk_bid := 99, mk_ask := 100,
     mk_mark := 100, mk_generation := 1, mk_sources := [(''orderbook'', ex_source h)] \<rparr>)"

lemma total_seconds_0 [simp]: "total_seconds 0 = 0"
  by code_simp

theorem open_gate_means_fresh_data_witness:
  "new_risk_blocked_for_action 0 (Some (ex_market DH_HEALTHY)) BUY 1 = ret (False, ''MARKET_DATA_HEALTHY'') \<and>
   (\<exists>m s t. ex_market DH_HEALTHY = m \<and> map_of (mk_sources m) ''orderbook'' = Some s \<and> ss_updated s = Some t \<and>
    total_seconds (0 - t) \<le> 5 \<and> 0 < mk_bid m)"
proof -
  have h: "new_risk_blocked_for_action 0 (Some (ex_market DH_HEALTHY)) BUY 1 = ret (False, ''MARKET_DATA_HEALTHY'')"
    by code_simp
  show ?thesis using open_gate_means_fresh_data [OF h] h by simp blast
qed

text \<open>Invalidation closes the gate for new risk until the health is computed again.\<close>

lemma invalidated_gate_closed:
  assumes "classify_order_action side pos \<notin> set [''REDUCE_LONG'', ''REDUCE_SHORT'']"
  shows "\<exists>r. new_risk_blocked_for_action now (Some (mk_invalidate reason m)) side pos = ret (True, r)"
  using assms by (simp add: new_risk_blocked_for_action_def can_add_risk_def mk_invalidate_def)

lemma map_fst_map_snd: "map fst (map (\<lambda>(k, s). (k, f s)) xs) = map fst xs"
  by (induction xs) auto

lemma overall_health_invalidated:
  "overall_health (mk_invalidate reason m) \<noteq> DH_HEALTHY"
  by (cases "mk_sources m")
    (auto simp: overall_health_def mk_invalidate_def dict_values_def source_unavailable_def Let_def)

text \<open>After an invalidation the health computed from the same sources is never healthy and every
  source is without a timestamp, so the gate refuses every order that adds to the position, until a
  source reports again; it refuses with an exception when there is no order book source.\<close>

theorem invalidated_state_blocks_new_risk:
  assumes "if side = BUY then 0 \<le> pos else pos \<le> 0"
  shows "new_risk_blocked_for_action now (Some (mark_healthy_from_sources (mk_invalidate reason m))) side pos
      \<noteq> ret (False, r) \<and>
    \<not> mk_new_risk_allowed (mark_healthy_from_sources (mk_invalidate reason m))"
proof -
  have s: "ss_updated x = None" if "map_of (mk_sources (mark_healthy_from_sources (mk_invalidate reason m))) k = Some x" for k x
    using that by (auto simp: mark_healthy_from_sources_def mk_invalidate_def source_unavailable_def Let_def
        map_of_map split: if_splits)
  have h: "\<not> mk_new_risk_allowed (mark_healthy_from_sources (mk_invalidate reason m))"
    using overall_health_invalidated [of reason m] by (simp add: mark_healthy_from_sources_def Let_def)
  have n: "can_add_risk now 5 10 (Some (mark_healthy_from_sources (mk_invalidate reason m))) \<noteq> ret (True, r')" for r'
    using can_add_risk_True [of now 5 10 "Some (mark_healthy_from_sources (mk_invalidate reason m))" r'] s
    by (fastforce simp: age_at_def)
  show ?thesis
    using assms increasing_action [of side pos] h n [of r]
    by (auto simp: new_risk_blocked_for_action_def rbind_eq_Inr split: prod.splits)
qed

theorem invalidated_state_blocks_new_risk_witness:
  "new_risk_blocked_for_action 0 (Some (mark_healthy_from_sources (mk_invalidate ''PROVIDER_FAILURE'' (ex_market DH_HEALTHY)))) SELL (-1)
      \<noteq> ret (False, ''MARKET_DATA_HEALTHY'')"
  using invalidated_state_blocks_new_risk [of SELL "-1" 0 "''PROVIDER_FAILURE''" "ex_market DH_HEALTHY"] by simp

subsection \<open>Where the gate is open or fails\<close>

text \<open>Sources that all report invalid or unavailable data make the state only degraded, and the
  gate is open for new risk, although the state itself says that no new risk is allowed.\<close>

theorem invalid_data_opens_gate:
  "overall_health (ex_market DH_INVALID) = DH_DEGRADED \<and> overall_health (ex_market DH_UNAVAILABLE) = DH_DEGRADED \<and>
   \<not> mk_new_risk_allowed (ex_market DH_INVALID) \<and>
   new_risk_blocked_for_action 0 (Some (ex_market DH_INVALID)) BUY 0 = ret (False, ''MARKET_DATA_HEALTHY'') \<and>
   new_risk_blocked_for_action 0 (Some (ex_market DH_UNAVAILABLE)) BUY 0 = ret (False, ''MARKET_DATA_HEALTHY'')"
  by (intro conjI; code_simp)

text \<open>With quotes and a generation but without a source called \<open>orderbook\<close> the gate raises
  \<open>AttributeError\<close>.\<close>

theorem gate_without_book_source_raises:
  assumes "1 \<le> mk_generation m" "mk_health m \<notin> {DH_UNAVAILABLE, DH_STALE}"
    and "0 < mk_bid m" "mk_bid m \<le> mk_ask m" "map_of (mk_sources m) ''orderbook'' = None"
  shows "can_add_risk now book_max mark_max (Some m) = raise AttributeErrorC"
  using assms by (auto simp: can_add_risk_def book_age_def)

theorem gate_without_book_source_raises_witness:
  "can_add_risk 0 5 10 (Some ((ex_market DH_HEALTHY)\<lparr> mk_sources := [(''mark_price'', ex_source DH_HEALTHY)] \<rparr>)) = raise AttributeErrorC"
proof (rule gate_without_book_source_raises)
  let ?m = "(ex_market DH_HEALTHY)\<lparr> mk_sources := [(''mark_price'', ex_source DH_HEALTHY)] \<rparr>"
  show "1 \<le> mk_generation ?m" by code_simp
  show "mk_health ?m \<notin> {DH_UNAVAILABLE, DH_STALE}" by code_simp
  show "0 < mk_bid ?m" "mk_bid ?m \<le> mk_ask ?m" by code_simp+
  show "map_of (mk_sources ?m) ''orderbook'' = None" by code_simp
qed

text \<open>An order that is larger than the opposite position passes as a reduction, on no data at
  all, although it leaves a position on the other side.\<close>

theorem reversal_passes_gate:
  "new_risk_blocked_for_action now None BUY (-1) = ret (False, ''RISK_REDUCING_ALLOWED'') \<and>
   new_risk_blocked_for_action now None SELL 1 = ret (False, ''RISK_REDUCING_ALLOWED'')"
  by (simp add: new_risk_blocked_for_action_def classify_order_action_def)

end
