(* ===== verification/Risk_Engine.thy ===== *)
theory Risk_Engine
  imports Ledger
begin

text \<open>
  \<open>risk/engine.py\<close> and \<open>risk/kill_switch.py\<close>: the system-level pre-trade limits. \<open>risk_check\<close>
  follows \<open>RiskEngine.check\<close> statement by statement, with the dictionary \<open>checks\<close> it fills;
  \<open>risk_rules\<close> lists the same limits with their conditions, which the proofs read off.
\<close>

subsection \<open>The kill switch\<close>

record kill_switch =
  ks_enabled :: bool
  ks_reason :: "string option"
  ks_engaged_at :: "usec option"

definition kill_switch_init :: "bool \<Rightarrow> kill_switch" where
  "kill_switch_init en = \<lparr> ks_enabled = en, ks_reason = None, ks_engaged_at = None \<rparr>"

definition ks_engage :: "string \<Rightarrow> usec \<Rightarrow> kill_switch \<Rightarrow> kill_switch" where
  "ks_engage reason now k = k\<lparr> ks_enabled := True, ks_reason := Some reason, ks_engaged_at := Some now \<rparr>"

definition ks_disengage :: "string option \<Rightarrow> kill_switch \<Rightarrow> kill_switch" where
  "ks_disengage reason k = k\<lparr> ks_enabled := False, ks_reason := reason \<rparr>"

subsection \<open>No reversal\<close>

definition check_no_reversal :: "market_type \<Rightarrow> order_side \<Rightarrow> dec \<Rightarrow> bool \<Rightarrow> dec \<Rightarrow> bool \<times> string" where
  "check_no_reversal mt side qty reduce_only signed =
     (if qty \<le> 0 then (False, ''INVALID_QUANTITY'')
      else if reduce_only then
        (if signed = 0 then (False, ''REDUCE_ONLY_WITHOUT_POSITION'')
         else if side = SELL then
           (if signed \<le> 0 then (False, ''REDUCE_ONLY_SELL_AGAINST_SHORT_OR_FLAT'')
            else if signed < qty then (False, ''REDUCE_ONLY_WOULD_REVERSE'')
            else (True, ''NO_REVERSAL_PASS''))
         else
           (if 0 \<le> signed then (False, ''REDUCE_ONLY_BUY_AGAINST_LONG_OR_FLAT'')
            else if dneg signed < qty then (False, ''REDUCE_ONLY_WOULD_REVERSE'')
            else (True, ''NO_REVERSAL_PASS'')))
      else if mt = SPOT \<and> side = SELL \<and> signed < qty then (False, ''SPOT_OVERSHORT'')
      else (True, ''NO_REVERSAL_PASS''))"

subsection \<open>The engine\<close>

record risk_config =
  rc_order_notional :: dec
  rc_position_notional :: dec
  rc_account_exposure :: dec
  rc_open_orders :: int
  rc_daily_loss :: dec
  rc_drawdown :: dec
  rc_leverage :: dec
  rc_symbol_exposure :: dec
  rc_exchange_exposure :: dec
  rc_failures :: int

definition default_risk_config :: risk_config where
  "default_risk_config = \<lparr> rc_order_notional = 1000000, rc_position_notional = 1000000,
     rc_account_exposure = 5000000, rc_open_orders = 20, rc_daily_loss = 100000, rc_drawdown = 200000,
     rc_leverage = 5, rc_symbol_exposure = 1000000, rc_exchange_exposure = 5000000, rc_failures = 10 \<rparr>"

text \<open>The method accepts both kinds of intent and reads them through \<open>getattr\<close> with a default, or
  directly; only a signal has a \<open>limit_price\<close>.\<close>

datatype risk_input = FromSignal signal_intent | FromOrder order_intent

fun ri_client :: "risk_input \<Rightarrow> string" where
  "ri_client (FromSignal s) = (if s_id s \<noteq> [] then s_id s else ''unknown'')"
| "ri_client (FromOrder i) = (if oi_client i \<noteq> [] then oi_client i else ''unknown'')"

fun ri_symbol :: "risk_input \<Rightarrow> string" where
  "ri_symbol (FromSignal s) = s_symbol s" | "ri_symbol (FromOrder i) = oi_symbol i"

fun ri_side :: "risk_input \<Rightarrow> order_side" where
  "ri_side (FromSignal s) = s_side s" | "ri_side (FromOrder i) = oi_side i"

fun ri_qty :: "risk_input \<Rightarrow> dec" where
  "ri_qty (FromSignal s) = s_qty s" | "ri_qty (FromOrder i) = oi_qty i"

fun ri_limit :: "risk_input \<Rightarrow> dec option res" where
  "ri_limit (FromSignal s) = ret (s_limit s)" | "ri_limit (FromOrder i) = raise AttributeErrorC"

fun ri_market :: "risk_input \<Rightarrow> market_type" where
  "ri_market (FromSignal s) = s_market s" | "ri_market (FromOrder i) = oi_market i"

fun truthy_json :: "json \<Rightarrow> bool" where
  "truthy_json JNull = False"
| "truthy_json (JBool b) = b"
| "truthy_json (JInt n) = (n \<noteq> 0)"
| "truthy_json (JStr s) = (s \<noteq> [])"
| "truthy_json (JDec d) = True"
| "truthy_json (JRaw d) = (d \<noteq> 0)"
| "truthy_json (JList l) = (l \<noteq> [])"
| "truthy_json (JObj l) = (l \<noteq> [])"

definition meta_truthy :: "meta \<Rightarrow> string \<Rightarrow> bool" where
  "meta_truthy m k = (case map_of m k of Some j \<Rightarrow> truthy_json j | None \<Rightarrow> False)"

fun ri_reduce_only :: "risk_input \<Rightarrow> bool" where
  "ri_reduce_only (FromSignal s) = (s_reduce_only s \<or> meta_truthy (s_meta s) ''reduce_only'')"
| "ri_reduce_only (FromOrder i) = (oi_reduce_only i \<or> meta_truthy (oi_meta i) ''reduce_only'')"

fun ri_quote_qty :: "risk_input \<Rightarrow> dec option" where
  "ri_quote_qty (FromSignal s) = None" | "ri_quote_qty (FromOrder i) = oi_quote_qty i"

text \<open>The keyword arguments of \<open>check\<close>.\<close>

record risk_ctx =
  rx_account :: account
  rx_positions :: "(string, position) dict"
  rx_market_price :: dec
  rx_open_orders :: int
  rx_daily_pnl :: dec
  rx_drawdown :: dec
  rx_failures :: int
  rx_run :: "string option"
  rx_order :: "string option"
  rx_signed :: "dec option"

definition rx_signed_qty :: "risk_ctx \<Rightarrow> string \<Rightarrow> dec" where
  "rx_signed_qty x sy =
     (case rx_signed x of Some q \<Rightarrow> q
      | None \<Rightarrow> (case map_of (rx_positions x) sy of Some p \<Rightarrow> p_qty p | None \<Rightarrow> 0))"

definition rx_symbol_notional :: "risk_ctx \<Rightarrow> string \<Rightarrow> dec" where
  "rx_symbol_notional x sy =
     dabs (case map_of (rx_positions x) sy of Some p \<Rightarrow> p_cost p | None \<Rightarrow> 0)"

definition rx_notional :: "risk_ctx \<Rightarrow> dec" where
  "rx_notional x = dsum (map p_cost (dict_values (rx_positions x)))"

definition projected_signed :: "order_side \<Rightarrow> dec \<Rightarrow> dec \<Rightarrow> dec" where
  "projected_signed side qty signed = dadd signed (if side = BUY then qty else dneg qty)"

definition risk_out ::
  "string \<Rightarrow> usec \<Rightarrow> risk_ctx \<Rightarrow> risk_input \<Rightarrow> execution_decision \<Rightarrow> string \<Rightarrow> meta \<Rightarrow> risk_decision res" where
  "risk_out rid now x i d reason checks = ret \<lparr> rd_id = rid, rd_order = rx_order x, rd_client = ri_client i,
     rd_symbol = ri_symbol i, rd_side = ri_side i, rd_decision = d, rd_reason = Some reason,
     rd_checks = checks, rd_time = now, rd_run = rx_run x \<rparr>"

definition risk_fail ::
  "string \<Rightarrow> usec \<Rightarrow> risk_ctx \<Rightarrow> risk_input \<Rightarrow> string \<Rightarrow> meta \<Rightarrow> risk_decision res" where
  "risk_fail rid now x i reason checks =
     risk_out rid now x i REJECT reason (AList.update reason (JBool False) checks)"

definition passed :: "string \<Rightarrow> meta \<Rightarrow> meta" where
  "passed k checks = AList.update k (JBool True) checks"

definition not_widened :: "meta \<Rightarrow> meta" where
  "not_widened ch =
     AList.update ''max_leverage'' (JStr ''REDUCE_ONLY'')
       (AList.update ''max_position_notional'' (JStr ''REDUCE_ONLY'')
         (AList.update ''max_exchange_exposure'' (JStr ''REDUCE_ONLY'')
           (AList.update ''max_account_exposure'' (JStr ''REDUCE_ONLY'')
             (AList.update ''max_symbol_exposure'' (JStr ''REDUCE_ONLY'') ch))))"

definition risk_exposure ::
  "risk_config \<Rightarrow> string \<Rightarrow> usec \<Rightarrow> risk_ctx \<Rightarrow> risk_input \<Rightarrow> dec \<Rightarrow> meta \<Rightarrow> risk_decision res" where
  "risk_exposure cfg rid now x i notional ch5 =
     (let cash = a_equity (rx_account x);
          existing = rx_notional x;
          current = rx_symbol_notional x (ri_symbol i);
          signed = rx_signed_qty x (ri_symbol i);
          projected = projected_signed (ri_side i) (ri_qty i) signed;
          ch6 = AList.update ''projected_signed_quantity'' (JDec projected) ch5;
          exposure = dadd existing notional;
          pass = (\<lambda>ch. risk_out rid now x i APPROVE ''RISK_PASS'' (AList.update ''notional'' (JDec notional) ch))
      in if dabs signed < dabs projected then
           (if rc_symbol_exposure cfg < dadd current notional then risk_fail rid now x i ''MAX_SYMBOL_EXPOSURE'' ch6
            else let ch7 = passed ''max_symbol_exposure'' ch6
            in if rc_account_exposure cfg < exposure then risk_fail rid now x i ''MAX_ACCOUNT_EXPOSURE'' ch7
            else let ch8 = passed ''max_account_exposure'' ch7
            in if rc_exchange_exposure cfg < existing then risk_fail rid now x i ''MAX_EXCHANGE_EXPOSURE'' ch8
            else let ch9 = passed ''max_exchange_exposure'' ch8
            in if rc_position_notional cfg < exposure then risk_fail rid now x i ''MAX_POSITION_NOTIONAL'' ch9
            else let ch10 = passed ''max_position_notional'' ch9
            in if 0 < cash \<and> rc_leverage cfg < ddiv exposure cash then risk_fail rid now x i ''MAX_LEVERAGE'' ch10
            else pass (passed ''max_leverage'' ch10))
         else pass (not_widened ch6))"

definition risk_check ::
  "risk_config \<Rightarrow> kill_switch \<Rightarrow> string \<Rightarrow> usec \<Rightarrow> risk_ctx \<Rightarrow> risk_input \<Rightarrow> risk_decision res" where
  "risk_check cfg ks rid now x i =
     (if ks_enabled ks then risk_fail rid now x i ''GLOBAL_KILL_SWITCH'' []
      else rbind (ri_limit i) (\<lambda>limit.
        let qty = ri_qty i; price = dec_or limit (rx_market_price x)
        in if qty \<le> 0 then risk_fail rid now x i ''INVALID_QUANTITY'' []
           else if price \<le> 0 then risk_fail rid now x i ''INVALID_PRICE'' []
           else case check_no_reversal (ri_market i) (ri_side i) qty (ri_reduce_only i)
                       (rx_signed_qty x (ri_symbol i)) of
             (False, reason) \<Rightarrow> risk_fail rid now x i reason []
           | (True, _) \<Rightarrow>
               let notional = (case ri_quote_qty i of Some q \<Rightarrow> q | None \<Rightarrow> dmul price qty)
               in if rc_order_notional cfg < notional then risk_fail rid now x i ''MAX_ORDER_NOTIONAL'' []
               else let ch1 = passed ''max_order_notional'' []
               in if rc_open_orders cfg \<le> rx_open_orders x then risk_fail rid now x i ''MAX_OPEN_ORDERS'' ch1
               else let ch2 = passed ''max_open_orders'' ch1
               in if rc_failures cfg \<le> rx_failures x then risk_fail rid now x i ''MAX_CONSECUTIVE_FAILURES'' ch2
               else let ch3 = passed ''max_consecutive_failures'' ch2
               in if rx_daily_pnl x < dneg (dabs (rc_daily_loss cfg)) then risk_fail rid now x i ''MAX_DAILY_LOSS'' ch3
               else let ch4 = passed ''max_daily_loss'' ch3
               in if rx_drawdown x < dneg (dabs (rc_drawdown cfg)) then risk_fail rid now x i ''MAX_DRAWDOWN'' ch4
               else risk_exposure cfg rid now x i notional (passed ''max_drawdown'' ch4)))"

subsection \<open>The table of limits\<close>

text \<open>The limits in the order of their precedence, each with the condition that violates it.\<close>

definition signal_notional :: "risk_ctx \<Rightarrow> signal_intent \<Rightarrow> dec" where
  "signal_notional x s = dmul (dec_or (s_limit s) (rx_market_price x)) (s_qty s)"

definition widens :: "risk_ctx \<Rightarrow> signal_intent \<Rightarrow> bool" where
  "widens x s \<longleftrightarrow> (let q = rx_signed_qty x (s_symbol s) in dabs q < dabs (projected_signed (s_side s) (s_qty s) q))"

definition reversal_of :: "risk_ctx \<Rightarrow> signal_intent \<Rightarrow> bool \<times> string" where
  "reversal_of x s = check_no_reversal (s_market s) (s_side s) (s_qty s) (ri_reduce_only (FromSignal s))
     (rx_signed_qty x (s_symbol s))"

definition risk_rules :: "risk_config \<Rightarrow> kill_switch \<Rightarrow> risk_ctx \<Rightarrow> signal_intent \<Rightarrow> (string \<times> bool) list" where
  "risk_rules cfg ks x s =
     (let n = signal_notional x s; total_exposure = dadd (rx_notional x) n; eq = a_equity (rx_account x) in
      [(''GLOBAL_KILL_SWITCH'', ks_enabled ks),
       (''INVALID_QUANTITY'', s_qty s \<le> 0),
       (''INVALID_PRICE'', dec_or (s_limit s) (rx_market_price x) \<le> 0),
       (snd (reversal_of x s), \<not> fst (reversal_of x s)),
       (''MAX_ORDER_NOTIONAL'', rc_order_notional cfg < n),
       (''MAX_OPEN_ORDERS'', rc_open_orders cfg \<le> rx_open_orders x),
       (''MAX_CONSECUTIVE_FAILURES'', rc_failures cfg \<le> rx_failures x),
       (''MAX_DAILY_LOSS'', rx_daily_pnl x < dneg (dabs (rc_daily_loss cfg))),
       (''MAX_DRAWDOWN'', rx_drawdown x < dneg (dabs (rc_drawdown cfg))),
       (''MAX_SYMBOL_EXPOSURE'', widens x s \<and> rc_symbol_exposure cfg < dadd (rx_symbol_notional x (s_symbol s)) n),
       (''MAX_ACCOUNT_EXPOSURE'', widens x s \<and> rc_account_exposure cfg < total_exposure),
       (''MAX_EXCHANGE_EXPOSURE'', widens x s \<and> rc_exchange_exposure cfg < rx_notional x),
       (''MAX_POSITION_NOTIONAL'', widens x s \<and> rc_position_notional cfg < total_exposure),
       (''MAX_LEVERAGE'', widens x s \<and> 0 < eq \<and> rc_leverage cfg < ddiv total_exposure eq)])"

fun first_violated :: "(string \<times> bool) list \<Rightarrow> string option" where
  "first_violated [] = None"
| "first_violated ((name, v) # rs) = (if v then Some name else first_violated rs)"

lemma first_violated_None: "first_violated rs = None \<longleftrightarrow> list_all (\<lambda>(_, v). \<not> v) rs"
  by (induction rs rule: first_violated.induct) auto

lemma risk_out_sel [simp]:
  "risk_out rid now x i d r ch = ret y \<Longrightarrow> rd_decision y = d"
  "risk_out rid now x i d r ch = ret y \<Longrightarrow> rd_reason y = Some r"
  by (auto simp: risk_out_def)

definition decides :: "execution_decision \<Rightarrow> string \<Rightarrow> risk_decision res \<Rightarrow> bool" where
  "decides d r y \<longleftrightarrow> (\<exists>z. y = ret z \<and> rd_decision z = d \<and> rd_reason z = Some r)"

lemma decides_out [simp]: "decides d r (risk_out rid now x i d' r' ch) \<longleftrightarrow> d = d' \<and> r = r'"
  by (auto simp: decides_def risk_out_def)

lemma decides_fail [simp]: "decides d r (risk_fail rid now x i r' ch) \<longleftrightarrow> d = REJECT \<and> r = r'"
  by (auto simp: risk_fail_def)

lemma decidesI: "decides d r y \<Longrightarrow> \<exists>z. y = ret z \<and> rd_decision z = d \<and> rd_reason z = Some r"
  by (simp add: decides_def)

lemma risk_exposure_rules:
  "(case first_violated (drop 9 (risk_rules cfg ks x s)) of
      None \<Rightarrow> decides APPROVE ''RISK_PASS'' (risk_exposure cfg rid now x (FromSignal s) (signal_notional x s) ch)
    | Some r \<Rightarrow> decides REJECT r (risk_exposure cfg rid now x (FromSignal s) (signal_notional x s) ch))"
  by (simp add: risk_rules_def risk_exposure_def Let_def widens_def)

lemma first_violated_append:
  "first_violated (xs @ ys) = (case first_violated xs of None \<Rightarrow> first_violated ys | Some r \<Rightarrow> Some r)"
  by (induction xs rule: first_violated.induct) auto

lemma risk_check_rules:
  "(case first_violated (risk_rules cfg ks x s) of
      None \<Rightarrow> decides APPROVE ''RISK_PASS'' (risk_check cfg ks rid now x (FromSignal s))
    | Some r \<Rightarrow> decides REJECT r (risk_check cfg ks rid now x (FromSignal s)))"
proof -
  have t: "first_violated (risk_rules cfg ks x s) = (case first_violated (take 9 (risk_rules cfg ks x s)) of
      None \<Rightarrow> first_violated (drop 9 (risk_rules cfg ks x s)) | Some r \<Rightarrow> Some r)"
    using first_violated_append [of "take 9 (risk_rules cfg ks x s)" "drop 9 (risk_rules cfg ks x s)"] by simp
  obtain ok why where rv: "reversal_of x s = (ok, why)" by force
  show ?thesis
  proof (cases "first_violated (take 9 (risk_rules cfg ks x s))")
    case None
    define n where "n = signal_notional x s"
    have c: "\<not> ks_enabled ks" "\<not> s_qty s \<le> 0" "\<not> dec_or (s_limit s) (rx_market_price x) \<le> 0" "ok"
      "\<not> rc_order_notional cfg < n" "\<not> rc_open_orders cfg \<le> rx_open_orders x"
      "\<not> rc_failures cfg \<le> rx_failures x" "\<not> rx_daily_pnl x < dneg (dabs (rc_daily_loss cfg))"
      "\<not> rx_drawdown x < dneg (dabs (rc_drawdown cfg))"
      using None rv by (simp_all add: risk_rules_def Let_def n_def split: if_splits)
    obtain ch where "risk_check cfg ks rid now x (FromSignal s) = risk_exposure cfg rid now x (FromSignal s) n ch"
      using c rv by (simp add: risk_check_def reversal_of_def n_def signal_notional_def Let_def)
    then show ?thesis
      using t None risk_exposure_rules [where cfg = cfg and ks = ks and x = x and s = s and rid = rid
          and now = now and ch = ch]
      by (simp add: n_def split: option.splits)
  next
    case (Some r)
    have "decides REJECT r (risk_check cfg ks rid now x (FromSignal s))"
      using Some rv
      by (simp add: risk_check_def risk_rules_def reversal_of_def signal_notional_def Let_def
          split: if_splits bool.splits)
    then show ?thesis using t Some by simp
  qed
qed


lemma risk_decision_of_rules:
  "\<exists>y. risk_check cfg ks rid now x (FromSignal s) = ret y \<and>
     (rd_decision y, rd_reason y) =
       (case first_violated (risk_rules cfg ks x s) of
          None \<Rightarrow> (APPROVE, Some ''RISK_PASS'') | Some r \<Rightarrow> (REJECT, Some r))"
  using risk_check_rules [where cfg = cfg and ks = ks and x = x and s = s and rid = rid and now = now]
  by (auto simp: decides_def split: option.splits)

lemma approved_no_violation:
  assumes "risk_check cfg ks rid now x (FromSignal s) = ret y" "rd_decision y = APPROVE"
  shows "list_all (\<lambda>(_, v). \<not> v) (risk_rules cfg ks x s)"
proof (cases "first_violated (risk_rules cfg ks x s)")
  case None
  then show ?thesis by (simp add: first_violated_None)
next
  case (Some r)
  then show ?thesis
    using risk_check_rules [where cfg = cfg and ks = ks and x = x and s = s and rid = rid and now = now] assms
    by (auto simp: decides_def)
qed

subsection \<open>What an approval guarantees\<close>

lemma no_reversal_reduce:
  assumes "check_no_reversal mt side qty True p = (True, r)" "dround p = p"
  shows "0 < qty" "p \<noteq> 0" "side = (if 0 < p then SELL else BUY)" "qty \<le> \<bar>p\<bar>"
  using assms by (auto simp: check_no_reversal_def dneg_def dec.rnd_uminus order_side.exhaust split: if_splits)
    (cases side; simp)+

lemma no_reversal_spot:
  assumes "check_no_reversal SPOT side qty ro p = (True, r)" "dround p = p" "0 \<le> p"
  shows "side = SELL \<Longrightarrow> qty \<le> p"
  using assms by (auto simp: check_no_reversal_def split: if_splits)

lemma approved_iff_no_violation:
  "(\<exists>y. risk_check cfg ks rid now x (FromSignal s) = ret y \<and> rd_decision y = APPROVE) \<longleftrightarrow>
     list_all (\<lambda>(_, v). \<not> v) (risk_rules cfg ks x s)"
proof
  assume "list_all (\<lambda>(_, v). \<not> v) (risk_rules cfg ks x s)"
  then have "first_violated (risk_rules cfg ks x s) = None" by (simp add: first_violated_None)
  then show "\<exists>y. risk_check cfg ks rid now x (FromSignal s) = ret y \<and> rd_decision y = APPROVE"
    using risk_decision_of_rules [where cfg = cfg and ks = ks and x = x and s = s and rid = rid and now = now] by auto
qed (auto dest: approved_no_violation)

text \<open>Which quantities a position takes is an interval that starts at zero.\<close>

lemma no_reversal_smaller:
  assumes "fst (check_no_reversal mt side qty ro p)" "0 < q" "q \<le> qty"
  shows "fst (check_no_reversal mt side q ro p)"
  using assms by (auto simp: check_no_reversal_def split: if_splits)

text \<open>An order that widens the position still widens it when it is larger.\<close>

lemma dabs_dadd_le:
  assumes "a \<le> b" "b \<le> 0"
  shows "dabs (dround b) \<le> dabs a"
proof -
  have "dround b \<le> 0" using assms(2) by (rule dec.rnd_nonpos)
  moreover have "- dround b = dround (- b)" by (simp add: dec.rnd_uminus)
  moreover have "dround (- b) \<le> dround (- a)" using assms(1) by (intro dec.rnd_mono) simp
  ultimately show ?thesis using assms by (simp add: dabs_def)
qed

lemma widens_up:
  assumes "dabs p < dabs (dround (p + d))" "0 < d" "d \<le> e"
  shows "dabs p < dabs (dround (p + e))"
proof -
  have pos: "0 < p + d"
  proof (rule ccontr)
    assume "\<not> 0 < p + d"
    then have "dabs (dround (p + d)) \<le> dabs p" using assms(2) by (intro dabs_dadd_le) simp_all
    then show False using assms(1) by simp
  qed
  have le: "dround (p + d) \<le> dround (p + e)" using assms(3) by (intro dec.rnd_mono) simp
  moreover have "0 \<le> dround (p + d)" using pos by (intro dec.rnd_nonneg) simp
  ultimately have "dabs (dround (p + d)) \<le> dabs (dround (p + e))" by (simp add: dabs_def)
  then show ?thesis using assms(1) by simp
qed

lemma widens_down:
  assumes "dabs p < dabs (dround (p - d))" "0 < d" "d \<le> e"
  shows "dabs p < dabs (dround (p - e))"
proof -
  have m: "dabs (dround (p - z)) = dabs (dround (- p + z))" for z
    using dec.rnd_uminus [of "p - z"] by (simp add: dabs_def)
  have "dabs (- p) = dabs p" by (simp add: dabs_def)
  then show ?thesis using widens_up [of "- p" d e] assms unfolding m by simp
qed

lemma widens_mono:
  assumes "widens x (s\<lparr> s_qty := q \<rparr>)" "0 < dround q" "q \<le> s_qty s"
  shows "widens x s"
proof -
  have "dround q \<le> dround (s_qty s)" using assms(3) by (rule dec.rnd_mono)
  have qs: "0 < q" using assms(2) dec.rnd_nonpos [of q] by (meson not_le)
  show ?thesis
  proof (cases "s_side s")
    case BUY
    then show ?thesis using assms(1,3) qs widens_up [of "rx_signed_qty x (s_symbol s)" q "s_qty s"]
      by (simp add: widens_def projected_signed_def dadd_def Let_def)
  next
    case SELL
    then show ?thesis using assms(1,2) \<open>dround q \<le> dround (s_qty s)\<close>
        widens_down [of "rx_signed_qty x (s_symbol s)" "dround q" "dround (s_qty s)"]
      by (simp add: widens_def projected_signed_def dadd_def dneg_def dec.rnd_uminus Let_def)
  qed
qed

text \<open>C15: the limits bound a signal from above only. When a signal is approved, so is the same signal with
  any smaller positive quantity, in the same situation and under the same or wider limits: splitting an
  order or raising a limit never makes the engine refuse what it would have approved.\<close>

theorem smaller_signal_stays_approved:
  assumes "risk_check cfg ks rid now x (FromSignal s) = ret y" "rd_decision y = APPROVE"
    and "0 < q" "q \<le> s_qty s" "0 < dround q"
    and "rc_order_notional cfg \<le> rc_order_notional cfg'" "rc_position_notional cfg \<le> rc_position_notional cfg'"
      "rc_account_exposure cfg \<le> rc_account_exposure cfg'" "rc_open_orders cfg \<le> rc_open_orders cfg'"
      "\<bar>rc_daily_loss cfg\<bar> \<le> \<bar>rc_daily_loss cfg'\<bar>" "\<bar>rc_drawdown cfg\<bar> \<le> \<bar>rc_drawdown cfg'\<bar>"
      "rc_leverage cfg \<le> rc_leverage cfg'" "rc_symbol_exposure cfg \<le> rc_symbol_exposure cfg'"
      "rc_exchange_exposure cfg \<le> rc_exchange_exposure cfg'" "rc_failures cfg \<le> rc_failures cfg'"
  shows "\<exists>y'. risk_check cfg' ks rid' now' x (FromSignal (s\<lparr> s_qty := q \<rparr>)) = ret y' \<and> rd_decision y' = APPROVE"
  unfolding approved_iff_no_violation
proof -
  define t where "t = s\<lparr> s_qty := q \<rparr>"
  define price where "price = dec_or (s_limit s) (rx_market_price x)"
  have sel: "s_symbol t = s_symbol s" "s_limit t = s_limit s" "s_side t = s_side s" "s_market t = s_market s"
    "s_qty t = q" "ri_reduce_only (FromSignal t) = ri_reduce_only (FromSignal s)" by (simp_all add: t_def)
  note v = approved_no_violation [OF assms(1,2)]
  have p: "0 < price" using v by (simp add: risk_rules_def Let_def price_def)
  have n: "signal_notional x t \<le> signal_notional x s"
    using p assms(4) by (simp add: signal_notional_def sel price_def dmul_def dec.rnd_mono)
  have total: "dadd a (signal_notional x t) \<le> dadd a (signal_notional x s)" for a
    using n by (simp add: dadd_def dec.rnd_mono)
  have lev: "ddiv (dadd a (signal_notional x t)) c \<le> ddiv (dadd a (signal_notional x s)) c" if "0 < c" for a c
    using total [of a] that by (simp add: ddiv_def dec.rnd_mono divide_right_mono)
  have loss: "dneg (dabs b) \<le> dneg (dabs a)" if "\<bar>a\<bar> \<le> \<bar>b\<bar>" for a b
    using that by (simp add: dneg_def dabs_def dec.rnd_uminus dec.rnd_mono)
  have rev: "fst (reversal_of x t)"
    using v no_reversal_smaller [OF _ assms(3,4)] by (simp add: risk_rules_def reversal_of_def t_def Let_def)
  have w: "widens x t \<Longrightarrow> widens x s" using widens_mono assms(4,5) by (simp add: t_def)
  show "list_all (\<lambda>(_, v). \<not> v) (risk_rules cfg' ks x t)"
    using v assms(3) n total loss [OF assms(10)] loss [OF assms(11)] rev w lev [of "a_equity (rx_account x)" "rx_notional x"] assms(6-9,12-15) p
    by (auto simp: risk_rules_def Let_def sel not_less not_le price_def intro: order_trans dest: order_trans less_le_trans le_less_trans)
qed

text \<open>C16: an approved spot signal never sells more than is held; an approved signal that is reduce-only
  is on the other side of the position and not larger than it, so that the projected position keeps its
  sign and is not larger; and the kill switch is off. The positions are decimals of at most 28 digits.\<close>

theorem approved_never_reverses:
  assumes "risk_check cfg ks rid now x (FromSignal s) = ret y" "rd_decision y = APPROVE"
    and "p = rx_signed_qty x (s_symbol s)" "dround p = p" "dround (s_qty s) = s_qty s"
    and "p' = projected_signed (s_side s) (s_qty s) p"
  shows "\<not> ks_enabled ks \<and> 0 < s_qty s \<and>
    (s_market s = SPOT \<and> 0 \<le> p \<longrightarrow> 0 \<le> p') \<and>
    (ri_reduce_only (FromSignal s) \<longrightarrow> p \<noteq> 0 \<and> \<bar>p'\<bar> \<le> \<bar>p\<bar> \<and> (0 < p \<longrightarrow> 0 \<le> p') \<and> (p < 0 \<longrightarrow> p' \<le> 0))"
proof -
  obtain ok why where rv: "reversal_of x s = (ok, why)" by force
  have v: "\<not> ks_enabled ks" "0 < s_qty s" ok
    using approved_no_violation [OF assms(1,2)] rv by (simp_all add: risk_rules_def Let_def)
  have cn: "check_no_reversal (s_market s) (s_side s) (s_qty s) (ri_reduce_only (FromSignal s)) p = (True, why)"
    using rv v(3) assms(3) by (simp add: reversal_of_def)
  have proj: "p' = dround (if s_side s = BUY then p + s_qty s else p - s_qty s)"
    using assms(5,6) by (simp add: projected_signed_def dadd_def dneg_def dec.rnd_uminus)
  have spot: "0 \<le> p'" if "s_market s = SPOT" "0 \<le> p"
    using no_reversal_spot [of "s_side s" "s_qty s" _ p] that cn assms(4) v(2) unfolding proj
    by (cases "s_side s") (auto intro!: dec.rnd_nonneg)
  have red: "p \<noteq> 0 \<and> \<bar>p'\<bar> \<le> \<bar>p\<bar> \<and> (0 < p \<longrightarrow> 0 \<le> p') \<and> (p < 0 \<longrightarrow> p' \<le> 0)"
    if r: "ri_reduce_only (FromSignal s)"
  proof -
    note q = no_reversal_reduce [OF cn [unfolded r [THEN iffD2 [OF eq_True]]] assms(4)]
    show ?thesis
    proof (cases "0 < p")
      case True
      have a: "0 \<le> p'" using True q unfolding proj by (auto intro!: dec.rnd_nonneg)
      have "p' \<le> p" using True q assms(4) unfolding proj by (auto intro!: dec.rnd_le_fixed)
      then show ?thesis using a True by auto
    next
      case False
      then have "p < 0" using q(2) by simp
      have a: "p' \<le> 0" using False q unfolding proj by (auto intro!: dec.rnd_nonpos)
      have "p \<le> p'" using False q assms(4) unfolding proj by (auto intro!: dec.fixed_le_rnd)
      then show ?thesis using a \<open>p < 0\<close> by auto
    qed
  qed
  show ?thesis using v spot red by blast
qed

definition ex_account :: "dec \<Rightarrow> account" where
  "ex_account eq = \<lparr> a_id = ''acct'', a_mode = PAPER, a_balances = [], a_equity = eq, a_margin_used = 0, a_updated = None \<rparr>"

definition ex_position :: "dec \<Rightarrow> dec \<Rightarrow> position" where
  "ex_position q c = \<lparr> p_symbol = ''BTCUSDT'', p_base = ''BTC'', p_quote = ''USDT'', p_qty = q, p_avg = None,
     p_cost = c, p_realized = 0, p_updated = None \<rparr>"

definition ex_risk_ctx :: "dec \<Rightarrow> dec \<Rightarrow> dec \<Rightarrow> risk_ctx" where
  "ex_risk_ctx eq q c = \<lparr> rx_account = ex_account eq, rx_positions = [(''BTCUSDT'', ex_position q c)],
     rx_market_price = 100, rx_open_orders = 0, rx_daily_pnl = 0, rx_drawdown = 0, rx_failures = 0,
     rx_run = None, rx_order = None, rx_signed = None \<rparr>"

definition ex_signal :: "order_side \<Rightarrow> dec \<Rightarrow> signal_intent" where
  "ex_signal sd q = \<lparr> s_id = ''sig'', s_strategy = ''st'', s_symbol = ''BTCUSDT'', s_side = sd, s_qty = q,
     s_limit = None, s_type = MARKET, s_tif = GTC, s_expires = None, s_reason = ''r'', s_run = None,
     s_market = SPOT, s_pside = FLAT, s_reduce_only = False, s_meta = [] \<rparr>"

lemma ex_approved: "\<exists>y. risk_check default_risk_config (kill_switch_init False) ''risk_1'' 0 (ex_risk_ctx 1000 2 200)
   (FromSignal (ex_signal SELL 1)) = ret y \<and> rd_decision y = APPROVE"
proof -
  have "(case risk_check default_risk_config (kill_switch_init False) ''risk_1'' 0 (ex_risk_ctx 1000 2 200)
     (FromSignal (ex_signal SELL 1)) of Inr y \<Rightarrow> rd_decision y = APPROVE | Inl _ \<Rightarrow> False)"
    by code_simp
  then show ?thesis by (rule case_InrD)
qed

theorem approved_never_reverses_witness:
  "0 \<le> projected_signed SELL 1 (rx_signed_qty (ex_risk_ctx 1000 2 200) ''BTCUSDT'')"
proof -
  let ?x = "ex_risk_ctx 1000 2 200" and ?s = "ex_signal SELL 1"
  obtain y where y: "risk_check default_risk_config (kill_switch_init False) ''risk_1'' 0 ?x (FromSignal ?s) = ret y"
    "rd_decision y = APPROVE" using ex_approved by blast
  have q: "rx_signed_qty ?x (s_symbol ?s) = 2" by code_simp
  have d: "dround (rx_signed_qty ?x (s_symbol ?s)) = rx_signed_qty ?x (s_symbol ?s)" unfolding q by code_simp
  have e: "dround (s_qty ?s) = s_qty ?s" by code_simp
  have "s_market ?s = SPOT \<and> 0 \<le> rx_signed_qty ?x (s_symbol ?s)" by code_simp
  then show ?thesis using approved_never_reverses [OF y refl d e refl] by (simp add: ex_signal_def)
qed

theorem smaller_signal_stays_approved_witness:
  "\<exists>y'. risk_check default_risk_config (kill_switch_init False) ''risk_2'' 5 (ex_risk_ctx 1000 2 200)
     (FromSignal ((ex_signal SELL 1)\<lparr> s_qty := 1 / 2 \<rparr>)) = ret y' \<and> rd_decision y' = APPROVE"
proof -
  obtain y where y: "risk_check default_risk_config (kill_switch_init False) ''risk_1'' 0 (ex_risk_ctx 1000 2 200)
     (FromSignal (ex_signal SELL 1)) = ret y" "rd_decision y = APPROVE" using ex_approved by blast
  have d: "0 < dround (1 / 2)" by code_simp
  show ?thesis by (rule smaller_signal_stays_approved [OF y _ _ d]) (simp_all add: ex_signal_def)
qed

text \<open>Exposure limits never block an order that does not make the position larger: its decision
  is the same under any limits of exposure and leverage, and its reason is never one of them.\<close>

theorem derisking_ignores_exposure:
  assumes "\<not> widens x s"
    and "cfg' = cfg\<lparr> rc_symbol_exposure := a, rc_account_exposure := b, rc_exchange_exposure := c,
           rc_position_notional := d, rc_leverage := e \<rparr>"
  shows "\<exists>y y'. risk_check cfg ks rid now x (FromSignal s) = ret y \<and> risk_check cfg' ks rid now x (FromSignal s) = ret y' \<and>
    rd_decision y = rd_decision y' \<and> rd_reason y = rd_reason y' \<and>
    rd_reason y \<notin> Some ` {''MAX_SYMBOL_EXPOSURE'', ''MAX_ACCOUNT_EXPOSURE'', ''MAX_EXCHANGE_EXPOSURE'',
      ''MAX_POSITION_NOTIONAL'', ''MAX_LEVERAGE''}"
proof -
  obtain y where y: "risk_check cfg ks rid now x (FromSignal s) = ret y"
    "(rd_decision y, rd_reason y) = (case first_violated (risk_rules cfg ks x s) of
          None \<Rightarrow> (APPROVE, Some ''RISK_PASS'') | Some r \<Rightarrow> (REJECT, Some r))"
    using risk_decision_of_rules by blast
  obtain y' where y': "risk_check cfg' ks rid now x (FromSignal s) = ret y'"
    "(rd_decision y', rd_reason y') = (case first_violated (risk_rules cfg' ks x s) of
          None \<Rightarrow> (APPROVE, Some ''RISK_PASS'') | Some r \<Rightarrow> (REJECT, Some r))"
    using risk_decision_of_rules by blast
  obtain ok why where rv: "reversal_of x s = (ok, why)" by force
  have why: "why \<in> {''INVALID_QUANTITY'', ''REDUCE_ONLY_WITHOUT_POSITION'', ''REDUCE_ONLY_SELL_AGAINST_SHORT_OR_FLAT'',
     ''REDUCE_ONLY_WOULD_REVERSE'', ''REDUCE_ONLY_BUY_AGAINST_LONG_OR_FLAT'', ''SPOT_OVERSHORT'', ''NO_REVERSAL_PASS''}"
    using rv by (auto simp: reversal_of_def check_no_reversal_def split: if_splits)
  have same: "first_violated (risk_rules cfg' ks x s) = first_violated (risk_rules cfg ks x s)"
    using assms by (simp add: risk_rules_def Let_def)
  have "rd_reason y \<notin> Some ` {''MAX_SYMBOL_EXPOSURE'', ''MAX_ACCOUNT_EXPOSURE'', ''MAX_EXCHANGE_EXPOSURE'',
      ''MAX_POSITION_NOTIONAL'', ''MAX_LEVERAGE''}"
    using y(2) assms(1) rv why by (auto simp: risk_rules_def Let_def split: if_splits)
  moreover have "(rd_decision y, rd_reason y) = (rd_decision y', rd_reason y')"
    unfolding y(2) y'(2) same ..
  ultimately show ?thesis using y(1) y'(1) by blast
qed

theorem derisking_ignores_exposure_witness:
  "\<exists>y'. risk_check (default_risk_config\<lparr> rc_symbol_exposure := 0, rc_account_exposure := 0,
       rc_exchange_exposure := 0, rc_position_notional := 0, rc_leverage := 0 \<rparr>)
     (kill_switch_init False) ''risk_1'' 0 (ex_risk_ctx 1000 2 200) (FromSignal (ex_signal SELL 1)) = ret y'
   \<and> rd_decision y' = APPROVE"
proof -
  have w: "\<not> widens (ex_risk_ctx 1000 2 200) (ex_signal SELL 1)" by code_simp
  obtain y where y: "risk_check default_risk_config (kill_switch_init False) ''risk_1'' 0 (ex_risk_ctx 1000 2 200)
     (FromSignal (ex_signal SELL 1)) = ret y" "rd_decision y = APPROVE" using ex_approved by blast
  show ?thesis using derisking_ignores_exposure [OF w refl, of default_risk_config "kill_switch_init False" "''risk_1''" 0 0 0 0 0 0] y
    by force
qed

subsection \<open>Gaps in the limits\<close>

text \<open>The leverage limit is only applied to positive equity: an account with no or negative equity
  is allowed to buy with the default limits. And the limit of the exposure per exchange is compared
  with the exposure before the order: it approves an order that goes beyond it.\<close>

theorem limits_with_gaps:
  "(\<exists>y. risk_check default_risk_config (kill_switch_init False) ''risk_1'' 0 (ex_risk_ctx (- 50) 2 200)
       (FromSignal (ex_signal BUY 1)) = ret y \<and> rd_decision y = APPROVE) \<and>
   (\<exists>y. risk_check (default_risk_config\<lparr> rc_exchange_exposure := 250 \<rparr>) (kill_switch_init False) ''risk_1'' 0
       (ex_risk_ctx 1000 2 200) (FromSignal (ex_signal BUY 1)) = ret y \<and> rd_decision y = APPROVE) \<and>
   250 < dadd (rx_notional (ex_risk_ctx 1000 2 200)) (signal_notional (ex_risk_ctx 1000 2 200) (ex_signal BUY 1))"
  by (intro conjI, rule case_InrD, code_simp, rule case_InrD, code_simp, code_simp)

text \<open>Although the method accepts an \<open>OrderIntent\<close>, it raises \<open>AttributeError\<close> for every one unless
  the kill switch is engaged.\<close>

theorem order_intent_raises:
  assumes "\<not> ks_enabled ks"
  shows "risk_check cfg ks rid now x (FromOrder i) = raise AttributeErrorC"
  using assms by (simp add: risk_check_def)

theorem order_intent_raises_witness:
  "\<forall>i. risk_check default_risk_config (kill_switch_init False) ''risk_1'' 0 (ex_risk_ctx 1000 2 200) (FromOrder i) = raise AttributeErrorC"
  by (intro allI, rule order_intent_raises) (simp add: kill_switch_init_def)

end
