(* ===== verification/Execution_Authority.thy ===== *)
theory Execution_Authority
  imports Risk_Engine
begin

text \<open>
  \<open>execution/rate_limiter.py\<close>, \<open>execution/authority.py\<close> and \<open>execution/cross_exchange_guard.py\<close>:
  the token bucket, the last gate before an order leaves the core, and the price guard between two
  exchanges. The monotonic clock of the bucket and the wall clock are arguments.
\<close>

subsection \<open>The token bucket\<close>

record rate_limiter =
  rl_capacity :: int
  rl_refill :: fl
  rl_tokens :: fl
  rl_updated :: fl

definition rl_init :: "int \<Rightarrow> fl \<Rightarrow> fl \<Rightarrow> rate_limiter" where
  "rl_init cap refill now = \<lparr> rl_capacity = cap, rl_refill = refill, rl_tokens = fround (of_int cap), rl_updated = now \<rparr>"

definition rl_allow :: "int \<Rightarrow> fl \<Rightarrow> rate_limiter \<Rightarrow> rate_limiter \<times> bool" where
  "rl_allow cost now l =
     (let tk = min (fround (of_int (rl_capacity l)))
                   (fadd (rl_tokens l) (fmul (fsub now (rl_updated l)) (rl_refill l)));
          l1 = l\<lparr> rl_tokens := tk, rl_updated := now \<rparr>
      in if of_int cost \<le> tk then (l1\<lparr> rl_tokens := fsub tk (of_int cost) \<rparr>, True) else (l1, False))"

subsection \<open>The final gate\<close>

record auth_ctx =
  ax_now :: "usec option"
  ax_mode :: trading_mode
  ax_live_enabled :: bool
  ax_lease_held :: bool
  ax_lease_token :: "string option"
  ax_kill_switch :: "kill_switch option"
  ax_order_status :: order_status
  ax_expires :: "usec option"
  ax_data_fresh :: bool
  ax_book_fresh :: bool
  ax_book_healthy :: bool
  ax_tradeable :: bool
  ax_connected :: bool
  ax_balance_fresh :: bool
  ax_risk :: "risk_decision option"
  ax_instrument :: "instrument option"
  ax_duplicate :: bool
  ax_halted :: bool
  ax_limiter :: "rate_limiter option"
  ax_min_notional_ok :: bool
  ax_signed :: dec
  ax_notes :: "string list"

text \<open>The checks of the instrument, step 12 of the source: the reason of a refusal, or none.\<close>

definition instrument_gate :: "order_intent \<Rightarrow> auth_ctx \<Rightarrow> string option res" where
  "instrument_gate i c =
     (case ax_instrument c of
        None \<Rightarrow> ret (Some ''INSTRUMENT_MISSING'')
      | Some ins \<Rightarrow>
          (let price = dec_or (oi_price i) 0; qty = oi_qty i in
           rbind (if 0 < price then rbind (round_tick price (i_tick ins) half_up) (\<lambda>r. ret (r \<noteq> price)) else ret False)
             (\<lambda>bad_price.
           if bad_price then ret (Some ''PRICE_PRECISION_INVALID'')
           else rbind (floor_to_step qty (i_step ins)) (\<lambda>fl.
             if fl \<noteq> qty then ret (Some ''QUANTITY_PRECISION_INVALID'')
             else if qty < i_min_qty ins then ret (Some ''MIN_QUANTITY_NOT_MET'')
             else let notional = (if 0 < price then dmul price qty else 0)
             in if 0 < notional \<and> notional < i_min_notional ins then ret (Some ''MIN_NOTIONAL_NOT_MET'')
             else if \<not> ax_min_notional_ok c then ret (Some ''MIN_NOTIONAL_NOT_MET'')
             else ret None))))"

definition authorize ::
  "usec \<Rightarrow> fl \<Rightarrow> order_intent \<Rightarrow> auth_ctx \<Rightarrow> auth_ctx \<times> (execution_decision \<times> string list) res" where
  "authorize wall clk i c =
     (let now = (case ax_now c of Some t \<Rightarrow> t | None \<Rightarrow> wall);
          hold = (\<lambda>reason. (c, ret (HOLD, [reason])));
          reject = (\<lambda>reason. (c, ret (REJECT, [reason]))) in
      if \<not> ax_lease_held c then reject ''EXECUTION_LEASE_NOT_HELD''
      else if ax_mode c = LIVE \<and> \<not> ax_live_enabled c then reject ''LIVE_TRADING_DISABLED''
      else if ax_mode c \<notin> set [PAPER, SHADOW, LIVE] then reject ''INVALID_TRADING_MODE''
      else if (case ax_kill_switch c of Some k \<Rightarrow> ks_enabled k | None \<Rightarrow> False) then reject ''GLOBAL_KILL_SWITCH''
      else if ax_halted c then hold ''RECONCILIATION_HALT''
      else if (case oi_expires i of Some t \<Rightarrow> t \<le> now | None \<Rightarrow> False) then reject ''ORDER_EXPIRED''
      else if \<not> ax_data_fresh c then hold ''MARKET_DATA_STALE''
      else if \<not> ax_book_fresh c then hold ''ORDERBOOK_STALE''
      else if \<not> ax_book_healthy c then hold ''ORDERBOOK_UNHEALTHY''
      else if \<not> ax_tradeable c then reject ''SYMBOL_NOT_TRADEABLE''
      else if \<not> ax_connected c then hold ''EXCHANGE_NOT_CONNECTED''
      else if \<not> ax_balance_fresh c then hold ''BALANCE_STALE''
      else if ax_order_status c \<notin> set [CREATED, VALIDATED, UNKNOWN] then reject ''ORDER_STATE_INVALID''
      else if ax_duplicate c then hold ''DUPLICATE_CLIENT_ORDER_ID''
      else if (case ax_risk c of Some r \<Rightarrow> rd_decision r \<noteq> APPROVE | None \<Rightarrow> True) then reject ''RISK_NOT_VALID''
      else case check_no_reversal (oi_market i) (oi_side i) (oi_qty i)
                  (oi_reduce_only i \<or> meta_truthy (oi_meta i) ''reduce_only'') (ax_signed c) of
        (False, reason) \<Rightarrow> reject reason
      | (True, _) \<Rightarrow>
          (case instrument_gate i c of
             Inl e \<Rightarrow> (c, Inl e)
           | Inr (Some reason) \<Rightarrow> reject reason
           | Inr None \<Rightarrow>
               (case ax_limiter c of
                  None \<Rightarrow> (c, ret (APPROVE, [''AUTHORITY_PASS'']))
                | Some l \<Rightarrow>
                    (case rl_allow 1 clk l of
                       (l', ok) \<Rightarrow>
                         (c\<lparr> ax_limiter := Some l' \<rparr>,
                          ret (if ok then (APPROVE, [''AUTHORITY_PASS'']) else (HOLD, [''RATE_LIMIT_BUDGET_EXHAUSTED''])))))))"

subsection \<open>The cross-exchange guard\<close>

record execution_quote =
  eq_provider :: string
  eq_symbol :: string
  eq_mid :: dec
  eq_mark :: dec
  eq_bid :: dec
  eq_ask :: dec
  eq_time :: usec

record cross_decision =
  cx_decision :: execution_decision
  cx_mid_bps :: dec
  cx_mark_bps :: dec
  cx_slippage_bps :: dec
  cx_age_ms :: fl
  cx_reasons :: "string list"

record cross_guard =
  cg_warn :: dec
  cg_reduce :: dec
  cg_reject :: dec
  cg_max_age :: fl

definition guard_init :: "string \<Rightarrow> string \<Rightarrow> string \<Rightarrow> fl \<Rightarrow> cross_guard res" where
  "guard_init warn reduce reject max_age =
     rbind (D (PyStr warn)) (\<lambda>w. rbind (D (PyStr reduce)) (\<lambda>r. rbind (D (PyStr reject)) (\<lambda>j.
       ret \<lparr> cg_warn = w, cg_reduce = r, cg_reject = j, cg_max_age = max_age \<rparr>)))"

definition quote_age :: "usec \<Rightarrow> execution_quote \<Rightarrow> fl" where
  "quote_age now q = max 0 (total_seconds (now - eq_time q))"

definition quote_mid :: "execution_quote \<Rightarrow> dec" where
  "quote_mid q = ddiv (dadd (eq_bid q) (eq_ask q)) 2"

definition spread_bps :: "execution_quote \<Rightarrow> dec" where
  "spread_bps q =
     (let mid = quote_mid q
      in if 0 < mid then dmul (ddiv (dabs (dsub (eq_ask q) (eq_bid q))) mid) 10000 else 999)"

definition evaluate_same_exchange ::
  "usec \<Rightarrow> cross_guard \<Rightarrow> execution_quote \<Rightarrow> fl option \<Rightarrow> string \<Rightarrow> string \<Rightarrow> cross_decision res" where
  "evaluate_same_exchange now g q max_age_arg max_spread max_slippage =
     (let age = quote_age now q;
          max_age = (case max_age_arg of Some a \<Rightarrow> (if a \<noteq> 0 then a else cg_max_age g) | None \<Rightarrow> cg_max_age g);
          spread = spread_bps q;
          slippage = ddiv spread 2;
          (d1, r1) = (if max_age < age then (REJECT, [''EXECUTION_QUOTE_STALE'']) else (APPROVE, []))
      in rbind (D (PyStr max_spread)) (\<lambda>ms.
         let (d2, r2) = (if ms < spread then (REJECT, r1 @ [''SPREAD_TOO_WIDE'']) else (d1, r1))
         in rbind (D (PyStr max_slippage)) (\<lambda>sl.
            let (d3, r3) = (if sl < slippage \<and> d2 = APPROVE then (HOLD, r2 @ [''EXCESS_SLIPPAGE'']) else (d2, r2))
            in ret \<lparr> cx_decision = d3, cx_mid_bps = 0, cx_mark_bps = 0, cx_slippage_bps = slippage,
                     cx_age_ms = fmul age 1000,
                     cx_reasons = (if r3 \<noteq> [] then r3 else [''SAME_EXCHANGE_PASS'']) \<rparr>)))"

definition bps :: "dec \<Rightarrow> dec \<Rightarrow> dec" where
  "bps a b = (if b = 0 then 999 else dmul (ddiv (dsub a b) b) 10000)"

definition evaluate_quotes :: "usec \<Rightarrow> cross_guard \<Rightarrow> execution_quote \<Rightarrow> execution_quote \<Rightarrow> cross_decision" where
  "evaluate_quotes now g signal execution =
     (let signal_age = quote_age now signal;
          execution_age = quote_age now execution;
          signal_mid = quote_mid signal;
          exec_mid = quote_mid execution;
          mid_dev = bps exec_mid signal_mid;
          mark_dev = bps (eq_mark execution) (eq_mark signal);
          slippage = bps (dabs (dsub exec_mid signal_mid)) signal_mid;
          stale = (if cg_max_age g < signal_age then [''SIGNAL_DATA_STALE''] else []) @
                  (if cg_max_age g < execution_age then [''EXECUTION_QUOTE_STALE''] else []);
          (d, reasons) =
            (if stale \<noteq> [] then (REJECT, stale)
             else if cg_reject g \<le> dabs mid_dev \<or> cg_reject g \<le> dabs mark_dev then (REJECT, [''CROSS_EXCHANGE_GAP_REJECT''])
             else if cg_reduce g \<le> dabs mid_dev \<or> cg_reduce g \<le> dabs mark_dev then (HOLD, [''CROSS_EXCHANGE_GAP_REDUCE''])
             else if cg_warn g \<le> dabs mid_dev \<or> cg_warn g \<le> dabs mark_dev then (APPROVE, [''CROSS_EXCHANGE_GAP_WARN''])
             else (APPROVE, []))
      in \<lparr> cx_decision = d, cx_mid_bps = mid_dev, cx_mark_bps = mark_dev, cx_slippage_bps = slippage,
           cx_age_ms = fmul (max signal_age execution_age) 1000, cx_reasons = reasons \<rparr>)"

subsection \<open>What the final gate lets through\<close>

text \<open>The chain of checks before the position and the instrument are looked at.\<close>

definition entry_gates :: "usec \<Rightarrow> order_intent \<Rightarrow> auth_ctx \<Rightarrow> (bool \<times> execution_decision \<times> string) list" where
  "entry_gates wall i c =
     [(\<not> ax_lease_held c, REJECT, ''EXECUTION_LEASE_NOT_HELD''),
      (ax_mode c = LIVE \<and> \<not> ax_live_enabled c, REJECT, ''LIVE_TRADING_DISABLED''),
      (ax_mode c \<notin> set [PAPER, SHADOW, LIVE], REJECT, ''INVALID_TRADING_MODE''),
      ((case ax_kill_switch c of Some k \<Rightarrow> ks_enabled k | None \<Rightarrow> False), REJECT, ''GLOBAL_KILL_SWITCH''),
      (ax_halted c, HOLD, ''RECONCILIATION_HALT''),
      ((case oi_expires i of Some t \<Rightarrow> t \<le> (case ax_now c of Some n \<Rightarrow> n | None \<Rightarrow> wall) | None \<Rightarrow> False),
         REJECT, ''ORDER_EXPIRED''),
      (\<not> ax_data_fresh c, HOLD, ''MARKET_DATA_STALE''),
      (\<not> ax_book_fresh c, HOLD, ''ORDERBOOK_STALE''),
      (\<not> ax_book_healthy c, HOLD, ''ORDERBOOK_UNHEALTHY''),
      (\<not> ax_tradeable c, REJECT, ''SYMBOL_NOT_TRADEABLE''),
      (\<not> ax_connected c, HOLD, ''EXCHANGE_NOT_CONNECTED''),
      (\<not> ax_balance_fresh c, HOLD, ''BALANCE_STALE''),
      (ax_order_status c \<notin> set [CREATED, VALIDATED, UNKNOWN], REJECT, ''ORDER_STATE_INVALID''),
      (ax_duplicate c, HOLD, ''DUPLICATE_CLIENT_ORDER_ID''),
      ((case ax_risk c of Some r \<Rightarrow> rd_decision r \<noteq> APPROVE | None \<Rightarrow> True), REJECT, ''RISK_NOT_VALID'')]"

fun run_gates :: "'c \<Rightarrow> (bool \<times> execution_decision \<times> string) list \<Rightarrow> 'c \<times> (execution_decision \<times> string list) res
    \<Rightarrow> 'c \<times> (execution_decision \<times> string list) res" where
  "run_gates c [] k = k"
| "run_gates c ((b, d, r) # gs) k = (if b then (c, ret (d, [r])) else run_gates c gs k)"

lemma run_gates_pass: "list_all (\<lambda>(b, _). \<not> b) gs \<Longrightarrow> run_gates c gs k = k"
  by (induction c gs k rule: run_gates.induct) auto

lemma run_gates_refuse:
  "\<not> list_all (\<lambda>(b, _). \<not> b) gs \<Longrightarrow> list_all (\<lambda>(_, d, _). d \<noteq> APPROVE) gs \<Longrightarrow>
   \<exists>d r. run_gates c gs k = (c, ret (d, [r])) \<and> d \<noteq> APPROVE"
  by (induction c gs k rule: run_gates.induct) auto

definition own_reversal :: "order_intent \<Rightarrow> auth_ctx \<Rightarrow> bool \<times> string" where
  "own_reversal i c = check_no_reversal (oi_market i) (oi_side i) (oi_qty i)
     (oi_reduce_only i \<or> meta_truthy (oi_meta i) ''reduce_only'') (ax_signed c)"

definition limiter_step :: "fl \<Rightarrow> auth_ctx \<Rightarrow> auth_ctx \<times> (execution_decision \<times> string list) res" where
  "limiter_step clk c =
     (case ax_limiter c of
        None \<Rightarrow> (c, ret (APPROVE, [''AUTHORITY_PASS'']))
      | Some l \<Rightarrow>
          (case rl_allow 1 clk l of
             (l', ok) \<Rightarrow>
               (c\<lparr> ax_limiter := Some l' \<rparr>,
                ret (if ok then (APPROVE, [''AUTHORITY_PASS'']) else (HOLD, [''RATE_LIMIT_BUDGET_EXHAUSTED''])))))"

definition late_gates :: "fl \<Rightarrow> order_intent \<Rightarrow> auth_ctx \<Rightarrow> auth_ctx \<times> (execution_decision \<times> string list) res" where
  "late_gates clk i c =
     (case own_reversal i c of
        (False, reason) \<Rightarrow> (c, ret (REJECT, [reason]))
      | (True, _) \<Rightarrow>
          (case instrument_gate i c of
             Inl e \<Rightarrow> (c, Inl e)
           | Inr (Some reason) \<Rightarrow> (c, ret (REJECT, [reason]))
           | Inr None \<Rightarrow> limiter_step clk c))"

lemma authorize_gates: "authorize wall clk i c = run_gates c (entry_gates wall i c) (late_gates clk i c)"
  unfolding authorize_def entry_gates_def late_gates_def own_reversal_def limiter_step_def Let_def run_gates.simps ..

definition authority_gates :: "usec \<Rightarrow> order_intent \<Rightarrow> auth_ctx \<Rightarrow> bool" where
  "authority_gates wall i c \<longleftrightarrow> list_all (\<lambda>(b, _). \<not> b) (entry_gates wall i c) \<and> fst (own_reversal i c) \<and>
     instrument_gate i c = ret None"

lemma authorize_passes:
  "authority_gates wall i c \<Longrightarrow> authorize wall clk i c = limiter_step clk c"
  by (auto simp: authority_gates_def authorize_gates run_gates_pass late_gates_def split: prod.split bool.split)

lemma late_gates_refuse:
  assumes "\<not> (fst (own_reversal i c) \<and> instrument_gate i c = ret None)"
  shows "fst (late_gates clk i c) = c \<and> \<not> (\<exists>ns. snd (late_gates clk i c) = ret (APPROVE, ns))"
  using assms by (auto simp: late_gates_def split: prod.splits bool.splits sum.splits option.splits)

lemma authorize_refuses:
  assumes "\<not> authority_gates wall i c"
  shows "fst (authorize wall clk i c) = c \<and> \<not> (\<exists>ns. snd (authorize wall clk i c) = ret (APPROVE, ns))"
proof (cases "list_all (\<lambda>(b, _). \<not> b) (entry_gates wall i c)")
  case True
  then show ?thesis using assms late_gates_refuse by (simp add: authorize_gates run_gates_pass authority_gates_def)
next
  case False
  moreover have "list_all (\<lambda>(_, d, _). d \<noteq> APPROVE) (entry_gates wall i c)" by (simp add: entry_gates_def)
  ultimately obtain d r where "authorize wall clk i c = (c, ret (d, [r]))" "d \<noteq> APPROVE"
    using run_gates_refuse unfolding authorize_gates by metis
  then show ?thesis by simp
qed

lemma instrument_gate_iff:
  "instrument_gate i c = ret None \<longleftrightarrow>
     (\<exists>ins. ax_instrument c = Some ins \<and> floor_to_step (oi_qty i) (i_step ins) = ret (oi_qty i) \<and>
       i_min_qty ins \<le> oi_qty i \<and> ax_min_notional_ok c \<and>
       (0 < dec_or (oi_price i) 0 \<longrightarrow>
          round_tick (dec_or (oi_price i) 0) (i_tick ins) half_up = ret (dec_or (oi_price i) 0) \<and>
          (0 < dmul (dec_or (oi_price i) 0) (oi_qty i) \<longrightarrow> i_min_notional ins \<le> dmul (dec_or (oi_price i) 0) (oi_qty i))))"
  by (auto simp: instrument_gate_def Let_def rbind_eq_Inr not_less split: option.splits if_splits)

lemma own_reversal_iff:
  assumes "dround (ax_signed c) = ax_signed c"
  shows "fst (own_reversal i c) \<longleftrightarrow> 0 < oi_qty i \<and>
    (if oi_reduce_only i \<or> meta_truthy (oi_meta i) ''reduce_only''
     then ax_signed c \<noteq> 0 \<and> oi_side i = (if 0 < ax_signed c then SELL else BUY) \<and> oi_qty i \<le> \<bar>ax_signed c\<bar>
     else oi_market i = SPOT \<and> oi_side i = SELL \<longrightarrow> oi_qty i \<le> ax_signed c)"
  using assms
  by (cases "oi_side i") (auto simp: own_reversal_def check_no_reversal_def not_le not_less dneg_def dec.rnd_uminus)

lemma limiter_approves:
  "(\<exists>c' ns. limiter_step clk c = (c', ret (APPROVE, ns))) \<longleftrightarrow>
     (case ax_limiter c of None \<Rightarrow> True
      | Some l \<Rightarrow> 1 \<le> fround (of_int (rl_capacity l)) \<and>
          1 \<le> fadd (rl_tokens l) (fmul (fsub clk (rl_updated l)) (rl_refill l)))"
  by (auto simp: limiter_step_def rl_allow_def Let_def split: option.split)

text \<open>C14: the final gate approves an order exactly when every condition holds: the lease is held, the mode is one
  of the three and live trading is enabled in live mode, the kill switch is off, nothing is halted, the order has
  not expired, data, book and balance are fresh and the book healthy, the symbol can be traded, the exchange is
  connected, the order is in a state from which it can be sent and not a duplicate, risk approved it; the quantity is
  positive and does not reverse the position that the context reports, whether the order is reduce-only itself or by
  its metadata, nor oversell a spot position; the quantity is a multiple of the step and not below the minimum, a
  price is a multiple of the tick, the notional is not below the minimum; and the rate bucket, refilled for the time
  since its last use, has a token.\<close>

theorem approval_needs_every_gate:
  assumes "dround (ax_signed c) = ax_signed c"
  shows "(\<exists>c' ns. authorize wall clk i c = (c', ret (APPROVE, ns))) \<longleftrightarrow>
    ax_lease_held c \<and> (ax_mode c = LIVE \<longrightarrow> ax_live_enabled c) \<and> ax_mode c \<in> {PAPER, SHADOW, LIVE} \<and>
    (\<forall>k. ax_kill_switch c = Some k \<longrightarrow> \<not> ks_enabled k) \<and> \<not> ax_halted c \<and>
    (\<forall>t. oi_expires i = Some t \<longrightarrow> (case ax_now c of Some n \<Rightarrow> n | None \<Rightarrow> wall) < t) \<and>
    ax_data_fresh c \<and> ax_book_fresh c \<and> ax_book_healthy c \<and> ax_tradeable c \<and> ax_connected c \<and>
    ax_balance_fresh c \<and> ax_order_status c \<in> {CREATED, VALIDATED, UNKNOWN} \<and> \<not> ax_duplicate c \<and>
    (\<exists>r. ax_risk c = Some r \<and> rd_decision r = APPROVE) \<and>
    0 < oi_qty i \<and>
    (if oi_reduce_only i \<or> meta_truthy (oi_meta i) ''reduce_only''
     then ax_signed c \<noteq> 0 \<and> oi_side i = (if 0 < ax_signed c then SELL else BUY) \<and> oi_qty i \<le> \<bar>ax_signed c\<bar>
     else oi_market i = SPOT \<and> oi_side i = SELL \<longrightarrow> oi_qty i \<le> ax_signed c) \<and>
    (\<exists>ins. ax_instrument c = Some ins \<and> floor_to_step (oi_qty i) (i_step ins) = ret (oi_qty i) \<and>
       i_min_qty ins \<le> oi_qty i \<and> ax_min_notional_ok c \<and>
       (0 < dec_or (oi_price i) 0 \<longrightarrow>
          round_tick (dec_or (oi_price i) 0) (i_tick ins) half_up = ret (dec_or (oi_price i) 0) \<and>
          (0 < dmul (dec_or (oi_price i) 0) (oi_qty i) \<longrightarrow> i_min_notional ins \<le> dmul (dec_or (oi_price i) 0) (oi_qty i)))) \<and>
    (case ax_limiter c of None \<Rightarrow> True
     | Some l \<Rightarrow> 1 \<le> fround (of_int (rl_capacity l)) \<and>
         1 \<le> fadd (rl_tokens l) (fmul (fsub clk (rl_updated l)) (rl_refill l)))"
proof -
  have "(\<exists>c' ns. authorize wall clk i c = (c', ret (APPROVE, ns))) \<longleftrightarrow>
      authority_gates wall i c \<and> (\<exists>c' ns. limiter_step clk c = (c', ret (APPROVE, ns)))"
  proof (cases "authority_gates wall i c")
    case True
    then show ?thesis using authorize_passes by metis
  next
    case False
    then show ?thesis using authorize_refuses [of wall i c clk] by (metis snd_conv)
  qed
  moreover have "list_all (\<lambda>(b, _). \<not> b) (entry_gates wall i c) \<longleftrightarrow>
    ax_lease_held c \<and> (ax_mode c = LIVE \<longrightarrow> ax_live_enabled c) \<and> ax_mode c \<in> {PAPER, SHADOW, LIVE} \<and>
    (\<forall>k. ax_kill_switch c = Some k \<longrightarrow> \<not> ks_enabled k) \<and> \<not> ax_halted c \<and>
    (\<forall>t. oi_expires i = Some t \<longrightarrow> (case ax_now c of Some n \<Rightarrow> n | None \<Rightarrow> wall) < t) \<and>
    ax_data_fresh c \<and> ax_book_fresh c \<and> ax_book_healthy c \<and> ax_tradeable c \<and> ax_connected c \<and>
    ax_balance_fresh c \<and> ax_order_status c \<in> {CREATED, VALIDATED, UNKNOWN} \<and> \<not> ax_duplicate c \<and>
    (\<exists>r. ax_risk c = Some r \<and> rd_decision r = APPROVE)"
    by (auto simp: entry_gates_def not_le split: option.splits)
  ultimately show ?thesis
    unfolding authority_gates_def own_reversal_iff [OF assms] instrument_gate_iff limiter_approves by (simp only: conj_assoc)
qed

text \<open>A refused order costs no rate budget unless the refusal is the budget itself: whenever a gate
  before the bucket refuses or an exception is raised, the context with the bucket is unchanged.\<close>

theorem refusals_keep_rate_budget:
  assumes "authorize wall clk i c = (c', r)" "\<not> (\<exists>ns. r = ret (APPROVE, ns))"
  shows "c' = c \<or> (r = ret (HOLD, [''RATE_LIMIT_BUDGET_EXHAUSTED'']) \<and>
    (\<exists>l. ax_limiter c = Some l \<and> \<not> snd (rl_allow 1 clk l) \<and> c' = c\<lparr> ax_limiter := Some (fst (rl_allow 1 clk l)) \<rparr>))"
proof (cases "authority_gates wall i c")
  case True
  then show ?thesis using assms authorize_passes [OF True, of clk]
    by (auto simp: limiter_step_def split: option.splits prod.splits if_splits)
next
  case False
  then show ?thesis using assms authorize_refuses [OF False, of clk] by simp
qed

subsection \<open>The bucket is bounded\<close>

definition rl_ok :: "rate_limiter \<Rightarrow> bool" where
  "rl_ok l \<longleftrightarrow> 0 \<le> rl_refill l \<and> 0 \<le> rl_capacity l \<and> 0 \<le> rl_tokens l \<and>
     rl_tokens l \<le> fround (of_int (rl_capacity l)) \<and> fround (rl_tokens l) = rl_tokens l"

lemma fround_le_iff0: "fround x = x \<Longrightarrow> y \<le> x \<Longrightarrow> fround y \<le> x"
  using flt.rnd_le_fixed by blast

lemma rl_allow_ok:
  assumes "rl_ok l" "rl_updated l \<le> now" "0 \<le> cost"
  shows "rl_ok (fst (rl_allow cost now l))"
proof -
  define tk where "tk = min (fround (of_int (rl_capacity l)))
                   (fadd (rl_tokens l) (fmul (fsub now (rl_updated l)) (rl_refill l)))"
  have f: "0 \<le> fround (of_int (rl_capacity l))" using assms(1) by (simp add: rl_ok_def flt.rnd_nonneg)
  have "0 \<le> fmul (fsub now (rl_updated l)) (rl_refill l)"
    using assms by (simp add: fmul_def fsub_def rl_ok_def flt.rnd_nonneg)
  then have tk: "0 \<le> tk" "tk \<le> fround (of_int (rl_capacity l))" "fround tk = tk"
    using assms(1) f by (auto simp: tk_def fadd_def rl_ok_def min_def intro!: flt.rnd_nonneg)
  have d: "0 \<le> fsub tk (of_int cost)" if "of_int cost \<le> tk"
    using that by (simp add: fsub_def flt.rnd_nonneg)
  have "fsub tk (of_int cost) \<le> tk"
    using tk assms(3) unfolding fsub_def by (intro fround_le_iff0) auto
  then have u: "fsub tk (of_int cost) \<le> fround (of_int (rl_capacity l))" using tk(2) by linarith
  have "fround (fsub tk (of_int cost)) = fsub tk (of_int cost)" by (simp add: fsub_def)
  then show ?thesis using assms tk d u
    by (auto simp: rl_allow_def tk_def [symmetric] rl_ok_def Let_def)
qed

lemma fround_of_int: "\<bar>c\<bar> \<le> 2 ^ 53 \<Longrightarrow> fround (of_int c) = of_int c"
  unfolding fround_def by (rule fl_round_exact, simp, simp, unfold has_digits_def, intro exI [of _ c] exI [of _ 0]) simp

lemma fround_dec_exact:
  assumes "fround t = t" "1 \<le> t" "t \<le> 2 ^ 53"
  shows "fround (t - 1) = t - 1"
proof -
  have "has_digits 2 53 t" using assms(1) has_digits_fl_round [of 2 53 t] by (simp add: fround_def)
  then obtain c e where ce: "t = of_int c * 2 powi e" "\<bar>c\<bar> \<le> 2 ^ 53" by (auto simp: has_digits_def)
  have "has_digits 2 53 (t - 1)"
  proof (cases "0 \<le> e")
    case True
    define z where "z = c * 2 ^ nat e"
    have z: "t = of_int z" using True ce(1) by (simp add: z_def power_int_def)
    then have "1 \<le> z" "of_int z \<le> (of_int (2 ^ 53) :: rat)" using assms by simp_all
    then have "1 \<le> z" "z \<le> 2 ^ 53" by (simp_all only: of_int_le_iff)
    then show ?thesis unfolding has_digits_def z by (intro exI [of _ "z - 1"] exI [of _ 0]) auto
  next
    case False
    define k where "k = (2 :: int) ^ nat (- e)"
    have k: "of_int k * (2 :: rat) powi e = 1"
      using False by (simp add: k_def power_int_def divide_simps flip: power_inverse)
    have p: "(0 :: rat) < 2 powi e" by simp
    have "of_int k * (2 :: rat) powi e \<le> of_int c * 2 powi e" using assms(2) k ce(1) by simp
    then have "of_int k \<le> (of_int c :: rat)" using p mult_le_cancel_right_pos by blast
    then have "k \<le> c" "0 \<le> k" by (simp_all add: k_def)
    then have b: "\<bar>c - k\<bar> \<le> 2 ^ 53" using ce(2) by linarith
    have "t - 1 = of_int (c - k) * 2 powi e" using k ce(1) by (simp add: left_diff_distrib)
    then show ?thesis using b unfolding has_digits_def by (intro exI [of _ "c - k"] exI [of _ e]) simp
  qed
  then show ?thesis using fl_round_exact [of 2 53 "t - 1"] by (simp add: fround_def)
qed

text \<open>Asking \<open>k\<close> times at one instant, and the number of grants.\<close>

fun rl_burst :: "fl \<Rightarrow> nat \<Rightarrow> rate_limiter \<Rightarrow> rate_limiter \<times> nat" where
  "rl_burst now 0 l = (l, 0)"
| "rl_burst now (Suc k) l =
     (let (l1, ok) = rl_allow 1 now l; (l2, n) = rl_burst now k l1 in (l2, (if ok then 1 else 0) + n))"

lemma rl_allow_now:
  assumes "rl_ok l" "rl_updated l = now" "rl_capacity l \<le> 2 ^ 53"
  shows "rl_allow 1 now l = (if 1 \<le> rl_tokens l then (l\<lparr> rl_tokens := rl_tokens l - 1 \<rparr>, True) else (l, False))"
proof -
  have "rl_tokens l \<le> fround (of_int (rl_capacity l))" using assms(1) by (simp add: rl_ok_def)
  also have "\<dots> \<le> fround (of_int (2 ^ 53))" using assms(3) by (intro flt.rnd_mono) (simp only: of_int_le_iff)
  also have "fround (of_int (2 ^ 53)) = of_int (2 ^ 53)" by (rule fround_of_int) simp
  also have "\<dots> = 2 ^ 53" by simp
  finally have t: "rl_tokens l \<le> 2 ^ 53" .
  have "min (fround (of_int (rl_capacity l))) (fadd (rl_tokens l) (fmul (fsub now (rl_updated l)) (rl_refill l))) = rl_tokens l"
    using assms by (simp add: fadd_def fsub_def fmul_def rl_ok_def min_def)
  then show ?thesis
    using fround_dec_exact [OF _ _ t] assms by (auto simp: rl_allow_def Let_def fsub_def rl_ok_def)
qed

lemma rl_burst_now:
  assumes "rl_ok l" "rl_updated l = now" "rl_capacity l \<le> 2 ^ 53"
  shows "snd (rl_burst now k l) = min k (nat \<lfloor>rl_tokens l\<rfloor>)"
  using assms
proof (induction k arbitrary: l)
  case (Suc k)
  have ok: "rl_ok (fst (rl_allow 1 now l))" using rl_allow_ok Suc.prems by simp
  show ?case
  proof (cases "1 \<le> rl_tokens l")
    case True
    then have a: "rl_allow 1 now l = (l\<lparr> rl_tokens := rl_tokens l - 1 \<rparr>, True)" using rl_allow_now Suc.prems by simp
    have "snd (rl_burst now k (l\<lparr> rl_tokens := rl_tokens l - 1 \<rparr>)) = min k (nat \<lfloor>rl_tokens l - 1\<rfloor>)"
      using Suc.IH [of "l\<lparr> rl_tokens := rl_tokens l - 1 \<rparr>"] ok a Suc.prems by simp
    moreover have "\<lfloor>rl_tokens l - 1\<rfloor> = \<lfloor>rl_tokens l\<rfloor> - 1" "1 \<le> \<lfloor>rl_tokens l\<rfloor>" using True by simp_all
    then have "nat \<lfloor>rl_tokens l\<rfloor> = Suc (nat \<lfloor>rl_tokens l - 1\<rfloor>)" by linarith
    ultimately have "Suc (snd (rl_burst now k (l\<lparr> rl_tokens := rl_tokens l - 1 \<rparr>))) = min (Suc k) (nat \<lfloor>rl_tokens l\<rfloor>)" by simp
    then show ?thesis by (simp add: a case_prod_beta Let_def)
  next
    case False
    then have a: "rl_allow 1 now l = (l, False)" using rl_allow_now Suc.prems by simp
    have "nat \<lfloor>rl_tokens l\<rfloor> = 0" using False by (simp add: floor_less_iff)
    then show ?thesis using Suc.IH [OF Suc.prems] by (simp add: a case_prod_beta Let_def)
  qed
qed simp

text \<open>The bucket keeps between zero and its capacity; asked any number of times at one instant it
  grants at most its capacity, and exactly the whole tokens it holds when it was already up to date.\<close>

theorem token_bucket_bounded:
  assumes "rl_ok l" "rl_updated l \<le> now" "rl_capacity l \<le> 2 ^ 53"
  shows "rl_ok (fst (rl_allow 1 now l)) \<and>
    snd (rl_burst now k (fst (rl_allow 1 now l))) = min k (nat \<lfloor>rl_tokens (fst (rl_allow 1 now l))\<rfloor>) \<and>
    int (snd (rl_burst now k l)) \<le> max 0 (rl_capacity l)"
proof -
  have ok: "rl_ok (fst (rl_allow 1 now l))" using rl_allow_ok assms by simp
  have u: "rl_updated (fst (rl_allow 1 now l)) = now" "rl_capacity (fst (rl_allow 1 now l)) = rl_capacity l"
    by (simp_all add: rl_allow_def Let_def)
  note b = rl_burst_now [OF ok u(1), unfolded u(2), OF assms(3)]
  have fc: "fround (of_int (rl_capacity l)) = of_int (rl_capacity l)"
    using assms(1,3) by (intro fround_of_int) (simp add: rl_ok_def)
  have "int (snd (rl_burst now k l)) \<le> rl_capacity l"
  proof (cases k)
    case 0
    then show ?thesis using assms(1) by (simp add: rl_ok_def)
  next
    case (Suc j)
    define tk where "tk = min (fround (of_int (rl_capacity l)))
                   (fadd (rl_tokens l) (fmul (fsub now (rl_updated l)) (rl_refill l)))"
    have tk: "tk \<le> of_int (rl_capacity l)" by (simp add: tk_def fc)
    have al: "rl_allow 1 now l = (if 1 \<le> tk then (l\<lparr> rl_tokens := fsub tk 1, rl_updated := now \<rparr>, True)
        else (l\<lparr> rl_tokens := tk, rl_updated := now \<rparr>, False))"
      by (simp add: rl_allow_def Let_def tk_def)
    have fl: "int (nat \<lfloor>rl_tokens (fst (rl_allow 1 now l))\<rfloor>) + (if 1 \<le> tk then 1 else 0) \<le> rl_capacity l"
    proof (cases "1 \<le> tk")
      case True
      have c1: "1 \<le> rl_capacity l" using True tk by (metis of_int_1_le_iff order_trans)
      have "fround (of_int (rl_capacity l - 1)) = of_int (rl_capacity l - 1)"
        using c1 assms(3) by (intro fround_of_int) simp
      then have "fsub tk 1 \<le> of_int (rl_capacity l - 1)"
        using tk unfolding fsub_def by (intro flt.rnd_le_fixed) simp_all
      then have "\<lfloor>fsub tk 1\<rfloor> \<le> rl_capacity l - 1" by linarith
      then show ?thesis using True al c1 by simp
    next
      case False
      then have "\<lfloor>tk\<rfloor> < 1" by (simp add: floor_less_iff)
      then show ?thesis using False al assms(1) by (simp add: rl_ok_def)
    qed
    have "snd (rl_burst now k l) = (if 1 \<le> tk then 1 else 0) + snd (rl_burst now j (fst (rl_allow 1 now l)))"
      using al Suc by (simp add: case_prod_beta Let_def)
    also have "\<dots> \<le> (if 1 \<le> tk then 1 else 0) + nat \<lfloor>rl_tokens (fst (rl_allow 1 now l))\<rfloor>"
      using rl_burst_now [OF ok u(1), of j] u(2) assms(3) by simp
    finally have "int (snd (rl_burst now k l)) \<le>
        int ((if 1 \<le> tk then 1 else 0) + nat \<lfloor>rl_tokens (fst (rl_allow 1 now l))\<rfloor>)"
      by (simp only: of_nat_le_iff)
    then have "int (snd (rl_burst now k l)) \<le>
        (if 1 \<le> tk then 1 else 0) + int (nat \<lfloor>rl_tokens (fst (rl_allow 1 now l))\<rfloor>)"
      by (simp only: of_nat_add if_distrib [of int] of_nat_1 of_nat_0)
    then show ?thesis using fl by linarith
  qed
  then show ?thesis using ok b by simp
qed

theorem token_bucket_bounded_witness:
  "rl_ok (fst (rl_allow 1 7 (rl_init 5 2 3))) \<and> int (snd (rl_burst 7 100 (rl_init 5 2 3))) \<le> 5"
proof -
  have "rl_ok (rl_init 5 2 3)" by code_simp
  from token_bucket_bounded [OF this, of 7 100] show ?thesis by (simp add: rl_init_def)
qed

subsection \<open>The quote guard\<close>

text \<open>On one exchange the guard with its default limits never answers \<open>HOLD\<close>: the slippage is half
  the spread, so the limit of 25 basis points on it cannot be passed without passing the limit of 50
  on the spread; and it approves only a quote that is fresh and whose spread is at most 50.\<close>

theorem same_exchange_never_holds:
  assumes "evaluate_same_exchange now g q max_age ''50'' ''25'' = ret d"
  shows "cx_decision d \<noteq> HOLD \<and> ''EXCESS_SLIPPAGE'' \<notin> set (cx_reasons d) \<and>
    (cx_decision d = APPROVE \<longleftrightarrow> spread_bps q \<le> 50 \<and>
       quote_age now q \<le> (case max_age of Some a \<Rightarrow> (if a \<noteq> 0 then a else cg_max_age g) | None \<Rightarrow> cg_max_age g))"
proof -
  have lim: "D (PyStr ''50'') = ret 50" "D (PyStr ''25'') = ret 25" by code_simp+
  have "ddiv (spread_bps q) 2 \<le> 25" if "spread_bps q \<le> 50"
  proof -
    have "dround (spread_bps q / 2) \<le> dround 25" using that by (intro dec.rnd_mono) simp
    also have "dround 25 = 25" by code_simp
    finally show ?thesis by (simp add: ddiv_def)
  qed
  then show ?thesis
    using assms lim by (auto simp: evaluate_same_exchange_def Let_def split: if_splits)
qed

definition ex_quote :: "dec \<Rightarrow> dec \<Rightarrow> execution_quote" where
  "ex_quote b a = \<lparr> eq_provider = ''OKX'', eq_symbol = ''BTC'', eq_mid = b, eq_mark = b, eq_bid = b, eq_ask = a, eq_time = 0 \<rparr>"

definition ex_guard :: cross_guard where
  "ex_guard = \<lparr> cg_warn = 10, cg_reduce = 20, cg_reject = 35, cg_max_age = 5 \<rparr>"

theorem same_exchange_never_holds_witness:
  "\<exists>d. evaluate_same_exchange 0 ex_guard (ex_quote 1000 1004) None ''50'' ''25'' = ret d \<and> cx_decision d = APPROVE"
proof -
  have "(case evaluate_same_exchange 0 ex_guard (ex_quote 1000 1004) None ''50'' ''25'' of Inr d \<Rightarrow> True | Inl _ \<Rightarrow> False)"
    by code_simp
  then obtain d where d: "evaluate_same_exchange 0 ex_guard (ex_quote 1000 1004) None ''50'' ''25'' = ret d"
    using case_InrD by blast
  have s: "spread_bps (ex_quote 1000 1004) \<le> 50" by code_simp
  have a: "quote_age 0 (ex_quote 1000 1004) \<le> (case None of Some a \<Rightarrow> (if a \<noteq> 0 then a else cg_max_age ex_guard) | None \<Rightarrow> cg_max_age ex_guard)"
    by code_simp
  show ?thesis using same_exchange_never_holds [OF d] d s a by metis
qed

text \<open>Between two exchanges the guard approves exactly when both quotes are fresh and both
  deviations are below the reduce limit.\<close>

theorem cross_exchange_approval:
  assumes "cg_reduce g \<le> cg_reject g"
  shows "cx_decision (evaluate_quotes now g s e) = APPROVE \<longleftrightarrow>
    quote_age now s \<le> cg_max_age g \<and> quote_age now e \<le> cg_max_age g \<and>
    dabs (bps (quote_mid e) (quote_mid s)) < cg_reduce g \<and> dabs (bps (eq_mark e) (eq_mark s)) < cg_reduce g"
  using assms by (auto simp: evaluate_quotes_def Let_def not_le split: if_splits)

theorem cross_exchange_approval_witness:
  "cx_decision (evaluate_quotes 0 ex_guard (ex_quote 1000 1001) (ex_quote 1001 1002)) = APPROVE"
proof -
  have r: "cg_reduce ex_guard \<le> cg_reject ex_guard" by (simp add: ex_guard_def)
  have "quote_age 0 (ex_quote 1000 1001) \<le> cg_max_age ex_guard" "quote_age 0 (ex_quote 1001 1002) \<le> cg_max_age ex_guard"
    by code_simp+
  moreover have "dabs (bps (quote_mid (ex_quote 1001 1002)) (quote_mid (ex_quote 1000 1001))) < cg_reduce ex_guard"
    "dabs (bps (eq_mark (ex_quote 1001 1002)) (eq_mark (ex_quote 1000 1001))) < cg_reduce ex_guard"
    by code_simp+
  ultimately show ?thesis using cross_exchange_approval [OF r] by blast
qed

subsection \<open>An order that passes\<close>

definition ex_buy_intent :: order_intent where
  "ex_buy_intent = \<lparr> oi_client = ''c1'', oi_symbol = ''BTCUSDT'', oi_side = BUY, oi_type = LIMIT, oi_tif = GTC,
     oi_price = Some 100, oi_qty = 1, oi_quote_qty = None, oi_strategy = ''s'', oi_run = None, oi_expires = None,
     oi_market = SPOT, oi_pside = FLAT, oi_reduce_only = False, oi_meta = [] \<rparr>"

definition ex_instrument :: instrument where
  "ex_instrument = \<lparr> i_symbol = ''BTCUSDT'', i_base = ''BTC'', i_quote = ''USDT'', i_status = ''TRADING'',
     i_tick = 1 / 100, i_step = 1 / 1000, i_min_qty = 1 / 1000, i_min_notional = 10, i_price_precision = 2,
     i_qty_precision = 3, i_exchange = ''SIM'' \<rparr>"

definition ex_risk_ok :: risk_decision where
  "ex_risk_ok = \<lparr> rd_id = ''r'', rd_order = None, rd_client = ''c1'', rd_symbol = ''BTCUSDT'', rd_side = BUY,
     rd_decision = APPROVE, rd_reason = None, rd_checks = [], rd_time = 0, rd_run = None \<rparr>"

definition ex_auth :: "int \<Rightarrow> auth_ctx" where
  "ex_auth cap = \<lparr> ax_now = Some 0, ax_mode = PAPER, ax_live_enabled = False, ax_lease_held = True, ax_lease_token = None,
     ax_kill_switch = Some (kill_switch_init False), ax_order_status = CREATED, ax_expires = None, ax_data_fresh = True,
     ax_book_fresh = True, ax_book_healthy = True, ax_tradeable = True, ax_connected = True, ax_balance_fresh = True,
     ax_risk = Some ex_risk_ok, ax_instrument = Some ex_instrument, ax_duplicate = False, ax_halted = False,
     ax_limiter = Some (rl_init cap 1 0), ax_min_notional_ok = True, ax_signed = 0, ax_notes = [] \<rparr>"

theorem approval_needs_every_gate_witness:
  "\<exists>c' ns. authorize 0 0 ex_buy_intent (ex_auth 3) = (c', ret (APPROVE, ns))"
proof -
  have s: "dround (ax_signed (ex_auth 3)) = ax_signed (ex_auth 3)" by (simp add: ex_auth_def)
  have f: "floor_to_step 1 (1 / 1000) = ret 1" "round_tick 100 (1 / 100) half_up = ret 100" "dec_or (Some 100) 0 = (100 :: dec)" "10 \<le> dmul 100 1"
    "1 \<le> fround (of_int 3)" "1 \<le> fadd (fround (of_int 3)) (fmul (fsub 0 0) 1)" "\<not> meta_truthy [] ''reduce_only''"
    by code_simp+
  show ?thesis unfolding approval_needs_every_gate [OF s]
    using f by (simp add: ex_auth_def ex_buy_intent_def ex_instrument_def ex_risk_ok_def kill_switch_init_def rl_init_def)
qed

theorem refusals_keep_rate_budget_witness:
  "fst (authorize 0 0 ex_buy_intent ((ex_auth 3)\<lparr> ax_halted := True \<rparr>)) = (ex_auth 3)\<lparr> ax_halted := True \<rparr>"
proof -
  let ?c = "(ex_auth 3)\<lparr> ax_halted := True \<rparr>"
  have "(case snd (authorize 0 0 ex_buy_intent ?c) of Inr d \<Rightarrow> d = (HOLD, [''RECONCILIATION_HALT'']) | Inl _ \<Rightarrow> False)" by code_simp
  then have d: "snd (authorize 0 0 ex_buy_intent ?c) = ret (HOLD, [''RECONCILIATION_HALT''])" using case_InrD by blast
  then have r: "authorize 0 0 ex_buy_intent ?c = (fst (authorize 0 0 ex_buy_intent ?c), ret (HOLD, [''RECONCILIATION_HALT'']))"
    by (simp add: prod_eq_iff)
  show ?thesis using refusals_keep_rate_budget [OF r] by simp
qed

end
