(* ===== verification/Lease.thy ===== *)
theory Lease
  imports Domain
begin

text \<open>
  \<open>runtime/lease.py\<close> and \<open>runtime/supervisor.py\<close>: the database-backed execution lease with its fence
  generation, and the supervisor whose loops run under it. An operation reads one committed state
  of the table and writes another, later one, because other instances commit in between.
\<close>

subsection \<open>The lease table\<close>

record lease_row =
  lw_id :: int
  lw_owner :: string
  lw_token :: string
  lw_expires :: fl
  lw_acquired :: fl
  lw_renewed :: "fl option"
  lw_version :: int
  lw_fence :: int

type_synonym lease_db = "(string, lease_row) dict"

record lease =
  ls_key :: string
  ls_owner :: string
  ls_token :: string
  ls_expires :: fl
  ls_fence :: int

datatype attempt = Done "lease option" | Retry | Failed exn

definition token_taken :: "lease_db \<Rightarrow> string \<Rightarrow> bool" where
  "token_taken db t \<longleftrightarrow> list_ex (\<lambda>row. lw_token row = t) (dict_values db)"

text \<open>
  One pass of \<open>acquire\<close>: \<open>r\<close> is the state that the query reads, \<open>w\<close> the state that the write meets.
  The lease of a renewal is built without a fence generation, which is then the default 1. The row
  of a renewal is written by its primary key; when it is gone the session raises. A unique
  constraint that fails makes the method call itself.
\<close>

definition acquire_attempt ::
  "lease_db \<Rightarrow> lease_db \<Rightarrow> fl \<Rightarrow> string \<Rightarrow> int \<Rightarrow> string \<Rightarrow> string \<Rightarrow> fl \<Rightarrow> lease_db \<times> attempt" where
  "acquire_attempt r w now token nid key owner ttl =
     (let ex = fadd now ttl in
      case map_of r key of
        Some row \<Rightarrow>
          if now < lw_expires row then
            (if lw_owner row = owner \<and> lw_token row \<noteq> [] then
               (case map_of w key of
                  Some row' \<Rightarrow>
                    if lw_id row' = lw_id row then
                      (AList.update key (row'\<lparr> lw_expires := ex, lw_renewed := Some now,
                         lw_version := lw_version row + 1 \<rparr>) w,
                       Done (Some \<lparr> ls_key = key, ls_owner = owner, ls_token = lw_token row, ls_expires = ex, ls_fence = 1 \<rparr>))
                    else (w, Failed (Exn ExceptionC []))
                | None \<Rightarrow> (w, Failed (Exn ExceptionC [])))
             else (w, Done None))
          else
            (case map_of w key of
               Some row' \<Rightarrow>
                 if lw_expires row' \<le> now then
                   (if token_taken w token then (w, Failed (Exn IntegrityError []))
                    else
                      (AList.update key (row'\<lparr> lw_owner := owner, lw_token := token, lw_expires := ex, lw_acquired := now,
                         lw_renewed := None, lw_version := lw_version row' + 1, lw_fence := lw_fence row' + 1 \<rparr>) w,
                       Done (Some \<lparr> ls_key = key, ls_owner = owner, ls_token = token, ls_expires = ex,
                         ls_fence = lw_fence row' + 1 \<rparr>)))
                 else (w, Done None)
             | None \<Rightarrow> (w, Done None))
      | None \<Rightarrow>
          if map_of w key \<noteq> None \<or> token_taken w token then (w, Retry)
          else
            (AList.update key \<lparr> lw_id = nid, lw_owner = owner, lw_token = token, lw_expires = ex, lw_acquired = now,
               lw_renewed = None, lw_version = 1, lw_fence = 1 \<rparr> w,
             Done (Some \<lparr> ls_key = key, ls_owner = owner, ls_token = token, ls_expires = ex, ls_fence = 1 \<rparr>)))"

text \<open>\<open>acquire\<close> with its recursion. \<open>others k\<close> gives the state that the \<open>k\<close>-th pass reads and the
  one it writes to; clock, token and row id are those of the pass.\<close>

fun acquire_loop ::
  "nat \<Rightarrow> nat \<Rightarrow> (nat \<Rightarrow> lease_db \<Rightarrow> lease_db \<times> lease_db) \<Rightarrow> (nat \<Rightarrow> fl \<times> string \<times> int) \<Rightarrow> string \<Rightarrow> string \<Rightarrow> fl
     \<Rightarrow> lease_db \<Rightarrow> lease_db \<times> attempt option" where
  "acquire_loop 0 k others env key owner ttl db = (db, None)"
| "acquire_loop (Suc fuel) k others env key owner ttl db =
     (let (r, w) = others k db; (now, token, nid) = env k
      in case acquire_attempt r w now token nid key owner ttl of
           (w', Retry) \<Rightarrow> acquire_loop fuel (Suc k) others env key owner ttl w'
         | (w', a) \<Rightarrow> (w', Some a))"

definition acquire :: "fl \<Rightarrow> string \<Rightarrow> int \<Rightarrow> string \<Rightarrow> string \<Rightarrow> fl \<Rightarrow> lease_db \<Rightarrow> lease_db \<times> attempt" where
  "acquire now token nid key owner ttl db = acquire_attempt db db now token nid key owner ttl"

definition renew :: "fl \<Rightarrow> string \<Rightarrow> string \<Rightarrow> fl \<Rightarrow> lease_db \<Rightarrow> lease_db \<times> bool" where
  "renew now key token ttl db =
     (case map_of db key of
        Some row \<Rightarrow>
          if lw_token row = token \<and> now < lw_expires row
          then (AList.update key (row\<lparr> lw_expires := fadd now ttl, lw_renewed := Some now, lw_version := lw_version row + 1 \<rparr>) db, True)
          else (db, False)
      | None \<Rightarrow> (db, False))"

definition release :: "string \<Rightarrow> string \<Rightarrow> lease_db \<Rightarrow> lease_db \<times> bool" where
  "release key token db =
     (case map_of db key of
        Some row \<Rightarrow> if lw_token row = token then (AList.delete key db, True) else (db, False)
      | None \<Rightarrow> (db, False))"

definition is_held :: "fl \<Rightarrow> string \<Rightarrow> string option \<Rightarrow> lease_db \<Rightarrow> bool" where
  "is_held now key token db =
     (case token of None \<Rightarrow> False
      | Some t \<Rightarrow> (case map_of db key of Some row \<Rightarrow> lw_token row = t \<and> now < lw_expires row | None \<Rightarrow> False))"

definition is_current :: "fl \<Rightarrow> string \<Rightarrow> string \<Rightarrow> int \<Rightarrow> lease_db \<Rightarrow> bool" where
  "is_current now key token fence db =
     (case map_of db key of
        Some row \<Rightarrow> lw_token row = token \<and> now < lw_expires row \<and> lw_fence row = fence | None \<Rightarrow> False)"

subsection \<open>The supervisor\<close>

record runtime_status =
  rs_state :: runtime_state
  rs_run :: "string option"
  rs_instance :: string
  rs_lease_valid :: bool
  rs_fence :: int
  rs_database :: bool
  rs_market_ws :: bool
  rs_user_ws :: bool
  rs_scanner_beat :: int
  rs_market_beat :: int
  rs_recon_beat :: int
  rs_renewals :: int
  rs_restarts :: int
  rs_kill_switch :: bool
  rs_open_orders :: int
  rs_git :: string

definition initial_status :: runtime_status where
  "initial_status = \<lparr> rs_state = STOPPED, rs_run = None, rs_instance = ''crypto-trading-primary'', rs_lease_valid = False,
     rs_fence = 0, rs_database = False, rs_market_ws = False, rs_user_ws = False, rs_scanner_beat = 0, rs_market_beat = 0,
     rs_recon_beat = 0, rs_renewals = 0, rs_restarts = 0, rs_kill_switch = False, rs_open_orders = 0, rs_git = ''unknown'' \<rparr>"

record supervisor =
  sv_key :: string
  sv_owner :: string
  sv_status :: runtime_status
  sv_stopping :: bool
  sv_lease :: "lease option"

definition sv_init :: "string \<Rightarrow> string \<Rightarrow> supervisor" where
  "sv_init key owner = \<lparr> sv_key = key, sv_owner = owner, sv_status = initial_status, sv_stopping = False, sv_lease = None \<rparr>"

definition sv_set :: "(runtime_status \<Rightarrow> runtime_status) \<Rightarrow> supervisor \<Rightarrow> supervisor" where
  "sv_set f s = s\<lparr> sv_status := f (sv_status s) \<rparr>"

text \<open>\<open>start\<close> up to the creation of the loops: the result says whether the loops are started.\<close>

definition sv_start ::
  "fl \<Rightarrow> string \<Rightarrow> int \<Rightarrow> string option \<Rightarrow> string \<Rightarrow> int \<Rightarrow> supervisor \<times> lease_db \<Rightarrow> (supervisor \<times> lease_db) \<times> bool res" where
  "sv_start now token nid run new_run restarts sd =
     (let s = fst sd in
      if rs_state (sv_status s) = RUNNING then (sd, ret False)
      else
        (let s1 = sv_set (\<lambda>st. st\<lparr> rs_run := Some (if truthy_str run then the run else new_run), rs_restarts := restarts \<rparr>) s
         in case acquire now token nid (sv_key s) (sv_owner s) 30 (snd sd) of
              (db, Done (Some l)) \<Rightarrow>
                ((sv_set (\<lambda>st. st\<lparr> rs_fence := ls_fence l, rs_state := RUNNING \<rparr>)
                    (s1\<lparr> sv_lease := Some l, sv_stopping := False \<rparr>), db), ret True)
            | (db, Done None) \<Rightarrow>
                ((sv_set (\<lambda>st. st\<lparr> rs_state := HALTED \<rparr>) (s1\<lparr> sv_lease := None \<rparr>), db), raise RuntimeErrorC)
            | (db, Failed e) \<Rightarrow> ((s1, db), Inl e)
            | (db, Retry) \<Rightarrow> ((s1, db), raise IntegrityError)))"

text \<open>The bodies of the loops; the flag of \<open>execution_tick\<close> says whether the execution callback runs.\<close>

definition market_data_tick :: "supervisor \<Rightarrow> supervisor" where
  "market_data_tick = sv_set (\<lambda>st. st\<lparr> rs_market_ws := True, rs_market_beat := rs_market_beat st + 1 \<rparr>)"

definition scanner_tick :: "supervisor \<Rightarrow> supervisor" where
  "scanner_tick = sv_set (\<lambda>st. st\<lparr> rs_scanner_beat := rs_scanner_beat st + 1 \<rparr>)"

definition user_data_tick :: "supervisor \<Rightarrow> supervisor" where
  "user_data_tick = sv_set (\<lambda>st. st\<lparr> rs_user_ws := True \<rparr>)"

definition reconciliation_tick :: "supervisor \<Rightarrow> supervisor" where
  "reconciliation_tick = sv_set (\<lambda>st. st\<lparr> rs_recon_beat := rs_recon_beat st + 1 \<rparr>)"

definition heartbeat_tick :: "supervisor \<Rightarrow> supervisor" where
  "heartbeat_tick = sv_set (\<lambda>st. st\<lparr> rs_database := True \<rparr>)"

definition execution_tick :: "fl \<Rightarrow> supervisor \<Rightarrow> lease_db \<Rightarrow> supervisor \<times> bool" where
  "execution_tick now s db =
     (if (case sv_lease s of Some l \<Rightarrow> is_current now (sv_key s) (ls_token l) (ls_fence l) db | None \<Rightarrow> False)
      then (sv_set (\<lambda>st. st\<lparr> rs_lease_valid := True \<rparr>) s, True)
      else (sv_set (\<lambda>st. st\<lparr> rs_lease_valid := False \<rparr>) s, False))"

definition lease_renew_tick :: "fl \<Rightarrow> supervisor \<Rightarrow> lease_db \<Rightarrow> supervisor \<times> lease_db" where
  "lease_renew_tick now s db =
     (case sv_lease s of
        None \<Rightarrow> (s, db)
      | Some l \<Rightarrow>
          (case renew now (sv_key s) (ls_token l) 30 db of
             (db', True) \<Rightarrow> (sv_set (\<lambda>st. st\<lparr> rs_renewals := rs_renewals st + 1 \<rparr>) s, db')
           | (db', False) \<Rightarrow> (sv_set (\<lambda>st. st\<lparr> rs_state := HALTED \<rparr>) s, db')))"

definition sv_stop :: "supervisor \<Rightarrow> lease_db \<Rightarrow> supervisor \<times> lease_db" where
  "sv_stop s db =
     (let db' = (case sv_lease s of Some l \<Rightarrow> fst (release (sv_key s) (ls_token l) db) | None \<Rightarrow> db)
      in (sv_set (\<lambda>st. st\<lparr> rs_state := STOPPED \<rparr>) (s\<lparr> sv_stopping := True \<rparr>), db'))"

text \<open>
  \<open>_supervised\<close>: a coroutine runs once; awaiting it again raises \<open>RuntimeError\<close>. The task that
  replaces a crashed one awaits the same coroutine. \<open>supervise n\<close> follows \<open>n\<close> tasks and lists how
  each of them ended; \<open>stop k\<close> says whether the supervisor is stopping when task \<open>k\<close> ends.
\<close>

datatype outcome = Finished | Cancelled | Crashed exn

datatype coroutine = Unstarted outcome | Exhausted

fun await_coroutine :: "coroutine \<Rightarrow> outcome" where
  "await_coroutine (Unstarted r) = r"
| "await_coroutine Exhausted = Crashed (Exn RuntimeErrorC [])"

fun supervise :: "nat \<Rightarrow> (nat \<Rightarrow> bool) \<Rightarrow> nat \<Rightarrow> coroutine \<Rightarrow> outcome list" where
  "supervise 0 stop k c = []"
| "supervise (Suc n) stop k c =
     (case await_coroutine c of
        Crashed e \<Rightarrow> Crashed e # (if stop k then [] else supervise n stop (Suc k) Exhausted)
      | r \<Rightarrow> [r])"

subsection \<open>One holder at a time\<close>

lemma map_of_list_ex_token: "map_of db k = Some row \<Longrightarrow> lw_token row = t \<Longrightarrow> token_taken db t"
  by (auto simp: token_taken_def list_ex_iff dest: dict_values_map_of)

text \<open>C32: while a lease is active no acquisition takes it over, whoever asks and however old the state is
  that the caller has read: owner, token and fence generation stay, and the only lease that an
  acquisition can return and that is held afterwards is the same one.\<close>

theorem active_lease_not_taken:
  assumes "map_of w key = Some row" "now < lw_expires row"
    and "acquire_attempt r w now token nid key owner ttl = (w', a)"
  shows "\<exists>row'. map_of w' key = Some row' \<and> lw_owner row' = lw_owner row \<and> lw_token row' = lw_token row \<and>
      lw_fence row' = lw_fence row \<and>
    (\<forall>l. a = Done (Some l) \<and> is_held now key (Some (ls_token l)) w' \<longrightarrow> ls_token l = lw_token row)"
  using assms
  by (auto simp: acquire_attempt_def Let_def is_held_def split: option.splits if_splits)

definition ex_lease_row :: "int \<Rightarrow> fl \<Rightarrow> lease_row" where
  "ex_lease_row fence ex = \<lparr> lw_id = 1, lw_owner = ''a'', lw_token = ''t1'', lw_expires = ex, lw_acquired = 0,
     lw_renewed = None, lw_version = 1, lw_fence = fence \<rparr>"

theorem active_lease_not_taken_witness:
  "\<exists>w' a row'. acquire_attempt [(''k'', ex_lease_row 1 4)] [(''k'', ex_lease_row 1 30)] 5 ''t2'' 2 ''k'' ''b'' 30 = (w', a) \<and>
     map_of w' ''k'' = Some row' \<and> lw_token row' = ''t1''"
proof -
  have w: "map_of [(''k'', ex_lease_row 1 30)] ''k'' = Some (ex_lease_row 1 30)" "5 < lw_expires (ex_lease_row 1 30)"
    by (simp_all add: ex_lease_row_def)
  obtain w' a where a: "acquire_attempt [(''k'', ex_lease_row 1 4)] [(''k'', ex_lease_row 1 30)] 5 ''t2'' 2 ''k'' ''b'' 30 = (w', a)"
    by force
  show ?thesis using active_lease_not_taken [OF w a] a by (auto simp: ex_lease_row_def)
qed

text \<open>Any operation of any instance, on any state it may have read. \<open>gone\<close> is a token that is not
  generated again.\<close>

inductive lease_step :: "string \<Rightarrow> lease_db \<Rightarrow> lease_db \<Rightarrow> bool" for gone where
  acquired: "token \<noteq> gone \<Longrightarrow> acquire_attempt r w now token nid key owner ttl = (w', a) \<Longrightarrow> lease_step gone w w'"
| renewed: "renew now key token ttl w = (w', b) \<Longrightarrow> lease_step gone w w'"
| released: "release key token w = (w', b) \<Longrightarrow> lease_step gone w w'"

inductive lease_steps :: "string \<Rightarrow> lease_db \<Rightarrow> lease_db \<Rightarrow> bool" for gone where
  none: "lease_steps gone w w"
| more: "lease_steps gone w w' \<Longrightarrow> lease_step gone w' w'' \<Longrightarrow> lease_steps gone w w''"

definition token_absent :: "string \<Rightarrow> lease_db \<Rightarrow> bool" where
  "token_absent t db \<longleftrightarrow> (\<forall>k row. map_of db k = Some row \<longrightarrow> lw_token row \<noteq> t)"

lemma token_absent_update: "token_absent t db \<Longrightarrow> lw_token row \<noteq> t \<Longrightarrow> token_absent t (AList.update k row db)"
  by (simp add: token_absent_def)

lemma token_absent_delete: "token_absent t db \<Longrightarrow> token_absent t (AList.delete k db)"
  by (simp add: token_absent_def)

lemma token_absentD: "token_absent t db \<Longrightarrow> map_of db k = Some row \<Longrightarrow> lw_token row \<noteq> t"
  by (simp add: token_absent_def)

lemma lease_step_absent: "lease_step gone w w' \<Longrightarrow> token_absent gone w \<Longrightarrow> token_absent gone w'"
proof (induction rule: lease_step.induct)
  case (acquired token r w now nid key owner ttl w' a)
  then show ?case
    by (auto simp: acquire_attempt_def Let_def split: option.splits if_splits
        intro!: token_absent_update dest: token_absentD)
next
  case (renewed now key token ttl w w' b)
  then show ?case
    by (auto simp: renew_def split: option.splits if_splits intro!: token_absent_update dest: token_absentD)
next
  case (released key token w w' b)
  then show ?case by (auto simp: release_def split: option.splits if_splits intro: token_absent_delete)
qed

text \<open>A lease that was lost is never held again: once its token is in no row, no sequence of
  acquisitions, renewals and releases by any instances on any stale reads brings it back, so that
  every later check of the old holder fails.\<close>

theorem lost_lease_stays_lost:
  assumes "lease_steps t w w'" "token_absent t w"
  shows "\<not> is_held now key (Some t) w' \<and> \<not> is_current now key t fence w' \<and> fst (renew now key t ttl w') = w'"
proof -
  have "token_absent t w'" using assms by (induction rule: lease_steps.induct) (auto intro: lease_step_absent)
  then show ?thesis by (auto simp: token_absent_def is_held_def is_current_def renew_def split: option.split)
qed

theorem lost_lease_stays_lost_witness:
  "\<exists>w'. lease_steps ''t1'' [(''k'', (ex_lease_row 2 30)\<lparr> lw_token := ''t2'' \<rparr>)] w' \<and> \<not> is_held 5 ''k'' (Some ''t1'') w'"
proof -
  let ?w = "[(''k'', (ex_lease_row 2 30)\<lparr> lw_token := ''t2'' \<rparr>)]"
  obtain w' b where r: "renew 5 ''k'' ''t2'' 30 ?w = (w', b)" by force
  have s: "lease_steps ''t1'' ?w w'" by (rule lease_steps.more [OF lease_steps.none lease_step.renewed [OF r]])
  have "token_absent ''t1'' ?w" by (simp add: token_absent_def)
  from lost_lease_stays_lost [OF s this] s show ?thesis by blast
qed

subsection \<open>The recursion of \<open>acquire\<close> ends\<close>

text \<open>\<open>acquire\<close> returns after at most two passes when no other instance deletes a lease row in the
  meantime and the generated tokens are not in use: the second pass reads the row whose insertion
  made the first one fail.\<close>

theorem acquire_terminates:
  assumes "others k db = (r, w)" "\<not> token_taken w (fst (snd (env k)))"
    and "others (Suc k) w = (r', w')" "map_of w key \<noteq> None \<Longrightarrow> map_of r' key \<noteq> None"
  shows "\<exists>db' a. acquire_loop 2 k others env key owner ttl db = (db', Some a) \<and> a \<noteq> Retry"
proof -
  obtain now token nid where e: "env k = (now, token, nid)" by (metis prod_cases3)
  obtain w1 a where a: "acquire_attempt r w now token nid key owner ttl = (w1, a)" by force
  show ?thesis
  proof (cases "a = Retry")
    case False
    then show ?thesis using assms(1) e a by (cases a) (simp_all add: numeral_2_eq_2)
  next
    case True
    then have w: "w1 = w" "map_of w key \<noteq> None"
      using a assms(2) e by (auto simp: acquire_attempt_def Let_def split: option.splits if_splits)
    obtain n2 t2 i2 where e2: "env (Suc k) = (n2, t2, i2)" by (metis prod_cases3)
    obtain w3 a3 where a3: "acquire_attempt r' w' n2 t2 i2 key owner ttl = (w3, a3)" by force
    have "a3 \<noteq> Retry"
      using a3 assms(4) w(2) by (auto simp: acquire_attempt_def Let_def split: option.splits if_splits)
    then show ?thesis using assms(1,3) e a True w(1) e2 a3 by (cases a3) (simp_all add: numeral_2_eq_2)
  qed
qed

text \<open>Another instance inserts the row between the query and the insertion of the first pass.\<close>

definition ex_others :: "nat \<Rightarrow> lease_db \<Rightarrow> lease_db \<times> lease_db" where
  "ex_others i db = (db, if i = 0 then AList.update ''k'' (ex_lease_row 1 30) db else db)"

theorem acquire_terminates_witness:
  "\<exists>db' a. acquire_loop 2 0 ex_others (\<lambda>_. (1, ''t2'', 1)) ''k'' ''b'' 30 [] = (db', Some a) \<and> a \<noteq> Retry"
proof (rule acquire_terminates)
  show "ex_others 0 [] = ([], [(''k'', ex_lease_row 1 30)])" by (simp add: ex_others_def)
  show "\<not> token_taken [(''k'', ex_lease_row 1 30)] (fst (snd (1, ''t2'', 1)))"
    by (simp add: token_taken_def dict_values_def ex_lease_row_def)
  show "ex_others (Suc 0) [(''k'', ex_lease_row 1 30)] = ([(''k'', ex_lease_row 1 30)], [(''k'', ex_lease_row 1 30)])"
    by (simp add: ex_others_def)
qed simp

subsection \<open>What a renewed lease and a crashed loop lose\<close>

text \<open>What happens to a running supervisor and to the lease table: the ticks of its own loops at any times and in any
  order, and any operation of the other instances, none of which generates its token again.\<close>

inductive supervised :: "string \<Rightarrow> supervisor \<times> lease_db \<Rightarrow> supervisor \<times> lease_db \<Rightarrow> bool" for gone x where
  started: "supervised gone x x"
| renewing: "supervised gone x (s, db) \<Longrightarrow> supervised gone x (lease_renew_tick now s db)"
| executing: "supervised gone x (s, db) \<Longrightarrow> supervised gone x (fst (execution_tick now s db), db)"
| beating: "supervised gone x (s, db) \<Longrightarrow> tick \<in> {market_data_tick, scanner_tick, user_data_tick, reconciliation_tick, heartbeat_tick}
    \<Longrightarrow> supervised gone x (tick s, db)"
| elsewhere: "supervised gone x (s, db) \<Longrightarrow> lease_step gone db db' \<Longrightarrow> supervised gone x (s, db')"

text \<open>The row that carries a token is of a later generation than the first.\<close>

definition taken_over :: "string \<Rightarrow> string \<Rightarrow> lease_db \<Rightarrow> bool" where
  "taken_over key t db \<longleftrightarrow> (\<forall>row. map_of db key = Some row \<and> lw_token row = t \<longrightarrow> lw_fence row \<noteq> 1)"

lemma renew_taken_over: "taken_over key t db \<Longrightarrow> taken_over key t (fst (renew now k token ttl db))"
  by (auto simp: taken_over_def renew_def split: option.split)

lemma lease_step_taken_over: "lease_step t w w' \<Longrightarrow> taken_over key t w \<Longrightarrow> taken_over key t w'"
proof (induction rule: lease_step.induct)
  case (acquired token r w now nid k owner ttl w' a)
  then show ?case
    by (auto simp: acquire_attempt_def taken_over_def  Let_def split: option.splits if_splits)
next
  case (renewed now k token ttl w w' b)
  then show ?case using renew_taken_over by (metis fst_conv)
next
  case (released k token w w' b)
  then show ?case by (auto simp: release_def taken_over_def AList.delete_conv' split: option.splits if_splits)
qed

lemma renew_tick_table:
  "snd (lease_renew_tick now s db) = (case sv_lease s of None \<Rightarrow> db | Some l \<Rightarrow> fst (renew now (sv_key s) (ls_token l) 30 db))"
  by (simp add: lease_renew_tick_def split: option.split prod.split bool.split)

lemma supervised_keeps:
  assumes "supervised t (s, db) x" "taken_over (sv_key s) t db"
  shows "sv_key (fst x) = sv_key s \<and> sv_lease (fst x) = sv_lease s \<and> taken_over (sv_key s) t (snd x)"
  using assms
proof (induction rule: supervised.induct)
  case (renewing s1 db1 now)
  have "taken_over (sv_key s) t (snd (lease_renew_tick now s1 db1))"
    using renewing by (simp add: renew_tick_table renew_taken_over split: option.split)
  then show ?case using renewing by (auto simp: lease_renew_tick_def sv_set_def split: option.split prod.split bool.split)
qed (auto simp: execution_tick_def sv_set_def market_data_tick_def scanner_tick_def user_data_tick_def reconciliation_tick_def
  heartbeat_tick_def lease_step_taken_over)

text \<open>C34: an instance that is started while its own lease is active gets the lease with the default fence
  generation. If the row was ever taken over its generation is not 1, and then the supervisor reports
  \<open>RUNNING\<close> and never runs its execution callback: after any ticks of its loops and any operations of other
  instances every execution tick refuses, while every renewal tick that meets the lease held renews it and
  leaves the reported state as it is.\<close>

theorem restarted_instance_never_executes:
  assumes "map_of db (sv_key s) = Some row" "now < lw_expires row" "lw_owner row = sv_owner s" "lw_token row \<noteq> []"
    and "lw_fence row \<noteq> 1" "rs_state (sv_status s) \<noteq> RUNNING"
    and "sv_start now token nid run new_run n (s, db) = ((s', db'), r)"
    and "supervised (lw_token row) (s', db') (s'', db'')"
  shows "r = ret True \<and> rs_state (sv_status s') = RUNNING \<and>
    is_held now (sv_key s) (Some (lw_token row)) db' = (now < fadd now 30) \<and>
    \<not> snd (execution_tick later s'' db'') \<and>
    (is_held later (sv_key s) (Some (lw_token row)) db'' \<longrightarrow>
       (\<exists>db3 row3. lease_renew_tick later s'' db'' = (sv_set (\<lambda>st. st\<lparr> rs_renewals := rs_renewals st + 1 \<rparr>) s'', db3) \<and>
          map_of db3 (sv_key s) = Some row3 \<and> lw_token row3 = lw_token row \<and> lw_expires row3 = fadd later 30))"
proof -
  have a: "acquire now token nid (sv_key s) (sv_owner s) 30 db =
    (AList.update (sv_key s) (row\<lparr> lw_expires := fadd now 30, lw_renewed := Some now, lw_version := lw_version row + 1 \<rparr>) db,
     Done (Some \<lparr> ls_key = sv_key s, ls_owner = sv_owner s, ls_token = lw_token row, ls_expires = fadd now 30, ls_fence = 1 \<rparr>))"
    using assms(1-4) by (simp add: acquire_def acquire_attempt_def Let_def)
  have start: "r = ret True" "rs_state (sv_status s') = RUNNING" "sv_key s' = sv_key s"
    "is_held now (sv_key s) (Some (lw_token row)) db' = (now < fadd now 30)" "taken_over (sv_key s) (lw_token row) db'"
    "\<exists>l. sv_lease s' = Some l \<and> ls_token l = lw_token row \<and> ls_fence l = 1"
    using assms(5-7) a by (auto simp: sv_start_def Let_def sv_set_def is_held_def taken_over_def )
  then obtain l where l: "sv_lease s'' = Some l" "ls_token l = lw_token row" "ls_fence l = 1" "sv_key s'' = sv_key s"
      and t: "taken_over (sv_key s) (lw_token row) db''"
    using supervised_keeps [OF assms(8)] by auto
  then have "\<not> snd (execution_tick later s'' db'')"
    by (auto simp: execution_tick_def is_current_def taken_over_def split: option.splits)
  then show ?thesis using start l by (auto simp: lease_renew_tick_def renew_def is_held_def split: option.splits)
qed

theorem restarted_instance_never_executes_witness:
  "\<exists>s' db'. sv_start 5 ''t9'' 9 None ''run_1'' 0 (sv_init ''k'' ''a'', [(''k'', ex_lease_row 2 30)]) = ((s', db'), ret True) \<and>
     rs_state (sv_status s') = RUNNING \<and> \<not> snd (execution_tick 9 (fst (lease_renew_tick 8 s' db')) (snd (lease_renew_tick 8 s' db')))"
proof -
  let ?db = "[(''k'', ex_lease_row 2 30)]" and ?s = "sv_init ''k'' ''a''"
  have r: "map_of ?db (sv_key ?s) = Some (ex_lease_row 2 30)" "5 < lw_expires (ex_lease_row 2 30)"
    "lw_owner (ex_lease_row 2 30) = sv_owner ?s" "lw_token (ex_lease_row 2 30) \<noteq> []" "lw_fence (ex_lease_row 2 30) \<noteq> 1"
    "rs_state (sv_status ?s) \<noteq> RUNNING"
    by (simp_all add: ex_lease_row_def sv_init_def initial_status_def)
  obtain s' db' b where st: "sv_start 5 ''t9'' 9 None ''run_1'' 0 (?s, ?db) = ((s', db'), b)" by (metis prod.collapse)
  have "supervised (lw_token (ex_lease_row 2 30)) (s', db') (fst (lease_renew_tick 8 s' db'), snd (lease_renew_tick 8 s' db'))"
    using supervised.renewing [OF supervised.started] by simp
  from restarted_instance_never_executes [OF r st this, of 9] st show ?thesis by blast
qed

lemma supervise_exhausted:
  "\<forall>j < n. \<not> stop (k + j) \<Longrightarrow> supervise n stop k Exhausted = replicate n (Crashed (Exn RuntimeErrorC []))"
proof (induction n arbitrary: k)
  case (Suc n)
  have "\<forall>j < n. \<not> stop (Suc k + j)" using Suc.prems by (metis Suc_less_eq add_Suc_shift)
  moreover have "\<not> stop k" using Suc.prems by (metis add_0_right zero_less_Suc)
  ultimately show ?case using Suc.IH by simp
qed simp

text \<open>A loop that crashed is never running again: the replacing task awaits the finished coroutine,
  so until the supervisor stops every restart crashes at once with \<open>RuntimeError\<close> and starts the next.\<close>

theorem crashed_loop_never_runs_again:
  assumes "\<forall>j. \<not> stop j"
  shows "supervise (Suc n) stop 0 (Unstarted (Crashed e)) = Crashed e # replicate n (Crashed (Exn RuntimeErrorC []))"
  using assms supervise_exhausted [of n stop 1] by simp

theorem crashed_loop_never_runs_again_witness:
  "supervise 4 (\<lambda>_. False) 0 (Unstarted (Crashed (Exn ConnectionError []))) =
     Crashed (Exn ConnectionError []) # replicate 3 (Crashed (Exn RuntimeErrorC []))"
  using crashed_loop_never_runs_again [of "\<lambda>_. False" 3 "Exn ConnectionError []"] by simp

end
