(* ===== verification/Audit_Trail.thy ===== *)
theory Audit_Trail
  imports Domain
begin

text \<open>
  \<open>observability/audit.py\<close>: the audit trail, a table that is only appended to. Identifiers come from
  \<open>gen prefix n\<close>, where \<open>n\<close> counts the calls of \<open>new_id\<close>; a row takes two of them.
\<close>

type_synonym id_gen = "string \<Rightarrow> nat \<Rightarrow> string"

record audit_event =
  au_id :: string
  au_event :: string
  au_run :: "string option"
  au_action :: string
  au_actor :: string
  au_target :: string
  au_order :: "string option"
  au_client :: "string option"
  au_exchange :: "string option"
  au_before :: meta
  au_after :: meta
  au_time :: usec

text \<open>The keyword arguments of \<open>log\<close> that the program sets.\<close>

record audit_args =
  aa_target :: string
  aa_run :: "string option"
  aa_order :: "string option"
  aa_client :: "string option"
  aa_exchange :: "string option"
  aa_before :: meta
  aa_after :: meta

definition no_audit_args :: audit_args where
  "no_audit_args = \<lparr> aa_target = [], aa_run = None, aa_order = None, aa_client = None, aa_exchange = None,
     aa_before = [], aa_after = [] \<rparr>"

definition audit_row :: "id_gen \<Rightarrow> nat \<Rightarrow> usec \<Rightarrow> string \<Rightarrow> audit_args \<Rightarrow> audit_event" where
  "audit_row gen n now action a =
     \<lparr> au_id = gen ''audit'' n, au_event = gen ''evt'' (n + 1), au_run = aa_run a, au_action = action, au_actor = ''engine'',
       au_target = aa_target a, au_order = aa_order a, au_client = aa_client a, au_exchange = aa_exchange a,
       au_before = aa_before a, au_after = aa_after a, au_time = now \<rparr>"

definition audit_recent :: "nat \<Rightarrow> audit_event list \<Rightarrow> audit_event list" where
  "audit_recent limit rows = take limit (rev rows)"

fun status_text :: "order_status \<Rightarrow> string" where
  "status_text CREATED = ''CREATED''"
| "status_text VALIDATED = ''VALIDATED''"
| "status_text SUBMITTING = ''SUBMITTING''"
| "status_text SUBMITTED = ''SUBMITTED''"
| "status_text ACKNOWLEDGED = ''ACKNOWLEDGED''"
| "status_text OPEN = ''OPEN''"
| "status_text PARTIALLY_FILLED = ''PARTIALLY_FILLED''"
| "status_text FILLED = ''FILLED''"
| "status_text CANCEL_PENDING = ''CANCEL_PENDING''"
| "status_text CANCELLED = ''CANCELLED''"
| "status_text REJECTED = ''REJECTED''"
| "status_text EXPIRED = ''EXPIRED''"
| "status_text UNKNOWN = ''UNKNOWN''"

end
