(* ===== verification/Simulator.thy ===== *)
theory Simulator
  imports Order_Book Projections Audit_Trail "HOL-Library.List_Lexorder" "HOL-Library.Char_ord"
begin

text \<open>
  \<open>simulator/exchange.py\<close>: the simulated exchange that paper trading and the tests run against, with
  its order books, its matching loop, its balances and positions and its fault injection. Handlers
  cannot change the exchange and their exceptions are swallowed, so an event that is emitted is an
  event appended to the log. Identifiers come from \<open>gen prefix n\<close>, where \<open>n\<close> counts the calls of
  \<open>new_id\<close>; every operation reads the clock once.
\<close>

subsection \<open>The state\<close>

record sim =
  sm_balances :: "(string, dec) dict"
  sm_positions :: "(string, position) dict"
  sm_orders :: "(string, order) dict"
  sm_books :: "(string, order_book) dict"
  sm_seq :: "(string, int) dict"
  sm_fee :: dec
  sm_connected :: bool
  sm_handlers :: "string list"
  sm_sub_counter :: int
  sm_next :: int
  sm_namespace :: string
  sm_log :: "exchange_event list"
  sm_fail :: "exn option"
  sm_timeout_created :: bool
  sm_fill_before_ack :: bool
  sm_duplicate_fill :: bool
  sm_cancel_race :: bool
  sm_reject_next :: "string option"
  sm_rate_limit :: bool
  sm_gap_next :: bool
  sm_disconnected :: bool
  sm_default :: instrument
  sm_instruments :: "(string, instrument) dict"
  sm_ids :: nat

definition default_instrument :: instrument where
  "default_instrument = \<lparr> i_symbol = ''BTCUSDT'', i_base = ''BTC'', i_quote = ''USDT'', i_status = ''TRADING'',
     i_tick = 1 / 100, i_step = 1 / 100000, i_min_qty = 1 / 100000, i_min_notional = 5, i_price_precision = 2,
     i_qty_precision = 5, i_exchange = ''SIMULATED'' \<rparr>"

definition by_symbol :: "instrument list \<Rightarrow> (string, instrument) dict" where
  "by_symbol is = foldl (\<lambda>d i. AList.update (i_symbol i) i d) [] is"

definition sim_init :: "(string, dec) dict \<Rightarrow> instrument list \<Rightarrow> dec \<Rightarrow> string \<Rightarrow> sim" where
  "sim_init initial is fee ns =
     \<lparr> sm_balances = (if initial = [] then [(''USDT'', 100000)] else initial), sm_positions = [], sm_orders = [],
       sm_books = [], sm_seq = [], sm_fee = fee, sm_connected = False, sm_handlers = [], sm_sub_counter = 0,
       sm_next = 1000, sm_namespace = ns, sm_log = [], sm_fail = None, sm_timeout_created = False,
       sm_fill_before_ack = False, sm_duplicate_fill = False, sm_cancel_race = False, sm_reject_next = None,
       sm_rate_limit = False, sm_gap_next = False, sm_disconnected = False, sm_default = default_instrument,
       sm_instruments = by_symbol (if is = [] then [default_instrument] else is), sm_ids = 0 \<rparr>"

definition sim_connect :: "sim \<Rightarrow> sim" where
  "sim_connect s = s\<lparr> sm_connected := True, sm_disconnected := False \<rparr>"

definition sim_disconnect :: "sim \<Rightarrow> sim" where
  "sim_disconnect s = s\<lparr> sm_connected := False, sm_disconnected := True \<rparr>"

definition ensure_connected :: "sim \<Rightarrow> unit res" where
  "ensure_connected s = (if \<not> sm_connected s \<or> sm_disconnected s then raise ConnectionError else ret ())"

definition sim_emit :: "exchange_event \<Rightarrow> sim \<Rightarrow> sim" where
  "sim_emit ev s = s\<lparr> sm_log := sm_log s @ [ev] \<rparr>"

fun emit_all :: "exchange_event list \<Rightarrow> sim \<Rightarrow> sim" where
  "emit_all [] s = s"
| "emit_all (ev # evs) s = emit_all evs (sim_emit ev s)"

definition sim_subscribe :: "sim \<Rightarrow> sim \<times> string" where
  "sim_subscribe s =
     (let n = sm_sub_counter s + 1; h = ''sim_sub_'' @ int_digits n
      in (s\<lparr> sm_sub_counter := n, sm_handlers := sm_handlers s @ [h] \<rparr>, h))"

definition get_exchange_info :: "sim \<Rightarrow> string option \<Rightarrow> instrument list" where
  "get_exchange_info s sy =
     map snd (filter (\<lambda>(k, _). case sy of None \<Rightarrow> True | Some x \<Rightarrow> k = x) (sm_instruments s))"

subsection \<open>Market data\<close>

definition next_seq :: "sim \<Rightarrow> string \<Rightarrow> int" where
  "next_seq s sy = (case map_of (sm_seq s) sy of Some n \<Rightarrow> n | None \<Rightarrow> 0) + 1"

definition seed_levels :: "(dec \<Rightarrow> dec \<Rightarrow> dec) \<Rightarrow> dec \<Rightarrow> dec \<Rightarrow> nat \<Rightarrow> (dec \<times> dec) list" where
  "seed_levels step mid spread depth = map (\<lambda>i. (step mid (dmul spread (of_int (int i + 1))), 1)) [0..<depth]"

definition seed_book_with :: "dec \<Rightarrow> dec \<Rightarrow> nat \<Rightarrow> usec \<Rightarrow> string \<Rightarrow> sim \<Rightarrow> sim \<times> order_book res" where
  "seed_book_with mid spread depth now sy s =
     (let s1 = s\<lparr> sm_seq := AList.update sy (next_seq s sy) (sm_seq s) \<rparr>
      in case apply_snapshot (next_seq s sy) (seed_levels dsub mid spread depth) (seed_levels dadd mid spread depth)
                now (new_book sy ''SIMULATED'') of
           (_, Inl e) \<Rightarrow> (s1, Inl e)
         | (b, Inr _) \<Rightarrow> (s1\<lparr> sm_books := AList.update sy b (sm_books s1) \<rparr>, ret b))"

definition seed_book :: "usec \<Rightarrow> string \<Rightarrow> sim \<Rightarrow> sim \<times> order_book res" where
  "seed_book = seed_book_with 100 (1 / 20) 5"

definition book_for :: "usec \<Rightarrow> string \<Rightarrow> sim \<Rightarrow> sim \<times> order_book res" where
  "book_for now sy s = (case map_of (sm_books s) sy of Some b \<Rightarrow> (s, ret b) | None \<Rightarrow> seed_book now sy s)"

definition get_orderbook :: "usec \<Rightarrow> string \<Rightarrow> sim \<Rightarrow> sim \<times> order_book res" where
  "get_orderbook now sy s = (case ensure_connected s of Inl e \<Rightarrow> (s, Inl e) | Inr _ \<Rightarrow> book_for now sy s)"

definition level_json :: "dec \<times> dec \<Rightarrow> json res" where
  "level_json l = rbind (dec_json (fst l)) (\<lambda>p. rbind (dec_json (snd l)) (\<lambda>q. ret (JList [p, q])))"

definition emit_market_delta ::
  "id_gen \<Rightarrow> usec \<Rightarrow> string \<Rightarrow> (dec \<times> dec) list \<Rightarrow> (dec \<times> dec) list \<Rightarrow> sim \<Rightarrow> sim \<times> unit res" where
  "emit_market_delta gen now sy bids asks s0 =
     (case get_orderbook now sy s0 of
        (s, Inl e) \<Rightarrow> (s, Inl e)
      | (s, Inr _) \<Rightarrow>
          (let s1 = s\<lparr> sm_gap_next := False \<rparr>
           in case map_of (sm_seq s) sy of
                None \<Rightarrow> (s1, raise KeyErrorC)
              | Some n \<Rightarrow>
                  (let n' = n + (if sm_gap_next s then 2 else 1);
                       s2 = s1\<lparr> sm_seq := AList.update sy n' (sm_seq s1), sm_ids := Suc (sm_ids s1) \<rparr>
                   in case rbind (map_res level_json bids) (\<lambda>b. rbind (map_res level_json asks) (\<lambda>a. ret (b, a))) of
                        Inl e \<Rightarrow> (s2, Inl e)
                      | Inr (b, a) \<Rightarrow>
                          (sim_emit \<lparr> ee_id = gen ''exevt'' (sm_ids s1), ee_type = EX_MARKET_DELTA, ee_symbol = Some sy,
                             ee_time = now, ee_payload = [(''sequence'', JInt n'), (''bids'', JList b), (''asks'', JList a)] \<rparr> s2,
                           ret ()))))"

definition ticker_side :: "book_level option \<Rightarrow> (book_level \<Rightarrow> dec) \<Rightarrow> json res" where
  "ticker_side l f = (case l of Some x \<Rightarrow> dec_json (f x) | None \<Rightarrow> ret (JDec 0))"

definition get_ticker :: "usec \<Rightarrow> string \<Rightarrow> sim \<Rightarrow> sim \<times> meta res" where
  "get_ticker now sy s0 =
     (case get_orderbook now sy s0 of
        (s, Inl e) \<Rightarrow> (s, Inl e)
      | (s, Inr b) \<Rightarrow>
          (s, rbind (ticker_side (best_bid b) bl_price) (\<lambda>bp. rbind (ticker_side (best_ask b) bl_price) (\<lambda>ap.
              rbind (ticker_side (best_bid b) bl_qty) (\<lambda>bq. rbind (ticker_side (best_ask b) bl_qty) (\<lambda>aq.
                ret [(''symbol'', JStr sy), (''bid'', bp), (''ask'', ap), (''bid_quantity'', bq), (''ask_quantity'', aq)]))))))"

subsection \<open>Orders and their events\<close>

definition local_order_for :: "sim \<Rightarrow> order \<Rightarrow> order" where
  "local_order_for s raw =
     raw\<lparr> o_exchange := Some (''sim_'' @ sm_namespace s @ int_digits (sm_next s)), o_filled := 0, o_avg := None,
          o_status := ACKNOWLEDGED, o_updated := o_created raw, o_reason := None, o_last_event := None \<rparr>"

definition sim_key :: "order \<Rightarrow> string" where
  "sim_key o1 = (case o_exchange o1 of Some k \<Rightarrow> k | None \<Rightarrow> [])"

definition put_sim_order :: "order \<Rightarrow> sim \<Rightarrow> sim" where
  "put_sim_order o1 s = s\<lparr> sm_orders := AList.update (sim_key o1) o1 (sm_orders s) \<rparr>"

definition event_payload :: "order \<Rightarrow> meta \<Rightarrow> meta res" where
  "event_payload o1 extra =
     rbind (case o_price o1 of Some p \<Rightarrow> dec_json p | None \<Rightarrow> ret (JDec 0)) (\<lambda>p.
     rbind (dec_json (o_qty o1)) (\<lambda>q. rbind (dec_json (o_filled o1)) (\<lambda>fq.
       ret (merge_meta
         [(''exchange_order_id'', opt_json (o_exchange o1)), (''client_order_id'', JStr (o_client o1)),
          (''order_id'', JStr (o_id o1)), (''symbol'', JStr (o_symbol o1)), (''side'', JStr (side_text (o_side o1))),
          (''price'', p), (''quantity'', q), (''filled_quantity'', fq)] extra))))"

definition sim_order_event ::
  "id_gen \<Rightarrow> usec \<Rightarrow> exchange_event_type \<Rightarrow> order \<Rightarrow> meta \<Rightarrow> sim \<Rightarrow> sim \<times> exchange_event res" where
  "sim_order_event gen now ty o1 extra s =
     (s\<lparr> sm_ids := Suc (sm_ids s) \<rparr>,
      rbind (event_payload o1 extra) (\<lambda>p.
        ret \<lparr> ee_id = gen ''exevt'' (sm_ids s), ee_type = ty, ee_symbol = Some (o_symbol o1), ee_time = now, ee_payload = p \<rparr>))"

subsection \<open>Matching\<close>

definition instrument_for :: "sim \<Rightarrow> string \<Rightarrow> instrument" where
  "instrument_for s sy = (case map_of (sm_instruments s) sy of Some i \<Rightarrow> i | None \<Rightarrow> sm_default s)"

definition sim_balance :: "sim \<Rightarrow> string \<Rightarrow> dec" where
  "sim_balance s c = (case map_of (sm_balances s) c of Some b \<Rightarrow> b | None \<Rightarrow> 0)"

definition set_sim_balance :: "string \<Rightarrow> dec \<Rightarrow> sim \<Rightarrow> sim" where
  "set_sim_balance c x s = s\<lparr> sm_balances := AList.update c x (sm_balances s) \<rparr>"

definition sim_position_after :: "fill \<Rightarrow> position \<Rightarrow> position" where
  "sim_position_after f p =
     (let gross = dmul (f_price f) (f_qty f) in
      (case f_side f of
         BUY \<Rightarrow>
           (let q = dadd (p_qty p) (f_qty f); c = dadd (p_cost p) gross
            in p\<lparr> p_qty := q, p_cost := c, p_avg := (if q \<noteq> 0 then Some (ddiv c q) else None) \<rparr>)
       | SELL \<Rightarrow>
           (let release = dmul (dec_or (p_avg p) 0) (f_qty f); q = dsub (p_qty p) (f_qty f);
                p1 = p\<lparr> p_qty := q, p_cost := max (dsub (p_cost p) release) 0,
                        p_realized := dadd (p_realized p) (dsub gross release) \<rparr>
            in if q = 0 then p1\<lparr> p_avg := None, p_cost := 0 \<rparr> else p1))\<lparr> p_updated := Some (f_time f) \<rparr>)"

definition apply_fill_to_balances :: "fill \<Rightarrow> instrument \<Rightarrow> sim \<Rightarrow> sim" where
  "apply_fill_to_balances f i s0 =
     (let gross = dmul (f_price f) (f_qty f);
          s1 = set_sim_balance (i_base i)
                 (if f_side f = BUY then dadd (sim_balance s0 (i_base i)) (f_qty f)
                  else dsub (sim_balance s0 (i_base i)) (f_qty f)) s0;
          s2 = set_sim_balance (i_quote i)
                 (dsub (if f_side f = BUY then dsub (sim_balance s1 (i_quote i)) gross
                        else dadd (sim_balance s1 (i_quote i)) gross) (f_fee f)) s1;
          p = (case map_of (sm_positions s2) (f_symbol f) of Some p \<Rightarrow> p
               | None \<Rightarrow> \<lparr> p_symbol = f_symbol f, p_base = i_base i, p_quote = i_quote i, p_qty = 0, p_avg = None,
                          p_cost = 0, p_realized = 0, p_updated = None \<rparr>)
      in s2\<lparr> sm_positions := AList.update (f_symbol f) (sim_position_after f p) (sm_positions s2) \<rparr>)"

text \<open>The level that the order trades with next, if its limit allows it.\<close>

definition beyond_limit :: "order_side \<Rightarrow> dec option \<Rightarrow> dec \<Rightarrow> bool" where
  "beyond_limit side limit price =
     (case limit of None \<Rightarrow> False | Some p \<Rightarrow> (case side of BUY \<Rightarrow> p < price | SELL \<Rightarrow> price < p))"

definition order_limit :: "order \<Rightarrow> dec option" where
  "order_limit o1 = (if o_type o1 = LIMIT then o_price o1 else None)"

definition next_level :: "order \<Rightarrow> order_book \<Rightarrow> book_level option" where
  "next_level o1 b =
     (case (if o_side o1 = BUY then best_ask b else best_bid b) of
        None \<Rightarrow> None
      | Some l \<Rightarrow> if beyond_limit (o_side o1) (order_limit o1) (bl_price l) then None else Some l)"

definition consume_levels :: "string \<Rightarrow> dec \<Rightarrow> book_level \<Rightarrow> levels \<Rightarrow> levels res" where
  "consume_levels key qty l ls =
     (if qty = bl_qty l then ret (AList.delete key ls)
      else case map_of ls key of
             None \<Rightarrow> raise KeyErrorC
           | Some l' \<Rightarrow> ret (AList.update key (l'\<lparr> bl_qty := dsub (bl_qty l) qty \<rparr>) ls))"

definition sim_book :: "sim \<Rightarrow> string \<Rightarrow> order_book" where
  "sim_book s sy = (case map_of (sm_books s) sy of Some b \<Rightarrow> b | None \<Rightarrow> new_book sy ''SIMULATED'')"

definition book_side :: "order_side \<Rightarrow> order_book \<Rightarrow> levels" where
  "book_side side b = (if side = BUY then ob_asks b else ob_bids b)"

definition set_book_side :: "order_side \<Rightarrow> levels \<Rightarrow> order_book \<Rightarrow> order_book" where
  "set_book_side side ls b = (if side = BUY then b\<lparr> ob_asks := ls \<rparr> else b\<lparr> ob_bids := ls \<rparr>)"

definition put_sim_book :: "string \<Rightarrow> order_book \<Rightarrow> sim \<Rightarrow> sim" where
  "put_sim_book sy b s = s\<lparr> sm_books := AList.update sy b (sm_books s) \<rparr>"

definition sim_fill :: "id_gen \<Rightarrow> usec \<Rightarrow> order \<Rightarrow> dec \<Rightarrow> dec \<Rightarrow> dec \<Rightarrow> string option \<Rightarrow> sim \<Rightarrow> fill" where
  "sim_fill gen now o1 price qty fee ccy s =
     \<lparr> f_id = gen ''fill'' (sm_ids s), f_trade = Some (gen ''trade'' (Suc (sm_ids s))), f_order = o_id o1,
       f_client = Some (o_client o1), f_exchange = o_exchange o1, f_symbol = o_symbol o1, f_side = o_side o1,
       f_price = price, f_qty = qty, f_fee = fee, f_fee_ccy = ccy, f_time = now, f_payload = [] \<rparr>"

definition filled_by :: "dec \<Rightarrow> order \<Rightarrow> order" where
  "filled_by qty o1 =
     (let f = dadd (o_filled o1) qty
      in o1\<lparr> o_filled := f, o_status := (if f = o_qty o1 then FILLED else PARTIALLY_FILLED) \<rparr>)"

definition fill_payload :: "fill \<Rightarrow> meta res" where
  "fill_payload f =
     rbind (dec_json (f_price f)) (\<lambda>p. rbind (dec_json (f_qty f)) (\<lambda>q. rbind (dec_json (f_fee f)) (\<lambda>fee.
       ret [(''fill_id'', JStr (f_id f)), (''trade_id'', opt_json (f_trade f)), (''fill_price'', p),
            (''fill_quantity'', q), (''fee'', fee), (''fee_currency'', opt_json (f_fee_ccy f))])))"

text \<open>
  One pass of the loop of \<open>_match_order\<close>. What was changed before an exception stays changed: the
  order before its average price is computed, the balances before the book is.
\<close>

definition match_level ::
  "id_gen \<Rightarrow> usec \<Rightarrow> instrument \<Rightarrow> book_level \<Rightarrow> dec \<Rightarrow> order \<Rightarrow> sim \<Rightarrow> sim \<times> (order \<times> dec \<times> exchange_event) res" where
  "match_level gen now i l rem o0 s =
     (let qty = min rem (bl_qty l); price = bl_price l; gross = dmul price qty in
      case quantize half_even (-8) (dmul gross (sm_fee s)) of
        Inl e \<Rightarrow> (s, Inl e)
      | Inr fee \<Rightarrow>
          (let f = sim_fill gen now o0 price qty fee (Some (i_quote i)) s;
               o1 = filled_by qty o0;
               s1 = put_sim_order o1 (s\<lparr> sm_ids := sm_ids s + 2 \<rparr>)
           in case div_res (dadd (dmul (dec_or (o_avg o1) 0) (dsub (o_filled o1) qty)) (dmul price qty)) (o_filled o1) of
                Inl e \<Rightarrow> (s1, Inl e)
              | Inr avg \<Rightarrow>
                  (let o2 = o1\<lparr> o_avg := Some avg \<rparr>;
                       s2 = apply_fill_to_balances f i (put_sim_order o2 s1);
                       b = sim_book s2 (o_symbol o2)
                   in case rbind (format_decimal price) (\<lambda>key. consume_levels key qty l (book_side (o_side o2) b)) of
                        Inl e \<Rightarrow> (s2, Inl e)
                      | Inr ls \<Rightarrow>
                          (let s3 = put_sim_book (o_symbol o2) (set_book_side (o_side o2) ls b) s2
                           in case fill_payload f of
                                Inl e \<Rightarrow> (s3, Inl e)
                              | Inr extra \<Rightarrow>
                                  (case sim_order_event gen now
                                          (if o_status o2 = FILLED then EX_ORDER_FILLED else EX_ORDER_PARTIALLY_FILLED) o2 extra s3 of
                                     (s4, Inl e) \<Rightarrow> (s4, Inl e)
                                   | (s4, Inr ev) \<Rightarrow> (s4, ret (o2, dsub rem qty, ev)))))))"

text \<open>The loop. It ends only if the book is well-formed, so \<open>None\<close> stands for not returning.\<close>

partial_function (option) match_loop ::
  "id_gen \<Rightarrow> usec \<Rightarrow> instrument \<Rightarrow> dec \<Rightarrow> order \<Rightarrow> exchange_event list \<Rightarrow> sim \<Rightarrow> (sim \<times> exchange_event list res) option" where
  "match_loop gen now i rem o1 evs s =
     (if rem \<le> 0 then Some (s, ret evs)
      else case next_level o1 (sim_book s (o_symbol o1)) of
             None \<Rightarrow> Some (s, ret evs)
           | Some l \<Rightarrow>
               (case match_level gen now i l rem o1 s of
                  (s1, Inl e) \<Rightarrow> Some (s1, Inl e)
                | (s1, Inr (o2, rem1, ev)) \<Rightarrow> match_loop gen now i rem1 o2 (evs @ [ev]) s1))"

definition match_order :: "id_gen \<Rightarrow> usec \<Rightarrow> order \<Rightarrow> sim \<Rightarrow> (sim \<times> exchange_event list res) option" where
  "match_order gen now o1 s =
     (case book_for now (o_symbol o1) s of
        (s1, Inl e) \<Rightarrow> Some (s1, Inl e)
      | (s1, Inr _) \<Rightarrow> match_loop gen now (instrument_for s1 (o_symbol o1)) (o_qty o1) o1 [] s1)"

definition stored_order :: "sim \<Rightarrow> order \<Rightarrow> order" where
  "stored_order s o1 = (case map_of (sm_orders s) (sim_key o1) of Some o2 \<Rightarrow> o2 | None \<Rightarrow> o1)"

definition match_and_emit :: "id_gen \<Rightarrow> usec \<Rightarrow> order \<Rightarrow> sim \<Rightarrow> (sim \<times> order res) option" where
  "match_and_emit gen now local s =
     (case sim_order_event gen now EX_ORDER_ACK local [(''status'', JStr ''ACK'')] s of
        (s1, Inl e) \<Rightarrow> Some (s1, Inl e)
      | (s1, Inr ack) \<Rightarrow>
          (case match_order gen now local s1 of
             None \<Rightarrow> None
           | Some (s2, Inl e) \<Rightarrow> Some (s2, Inl e)
           | Some (s2, Inr fills) \<Rightarrow>
               (let o1 = stored_order s2 local in
                if sm_fill_before_ack s2 then
                  Some (emit_all (fills @ [ack] @ (if sm_duplicate_fill s2 then take 1 fills else [])) s2, ret o1)
                else
                  (case sim_order_event gen now EX_ORDER_OPENED o1 [(''status'', JStr ''OPEN'')] (sim_emit ack s2) of
                     (s3, Inl e) \<Rightarrow> Some (s3, Inl e)
                   | (s3, Inr opened) \<Rightarrow>
                       Some (emit_all (opened # (if sm_duplicate_fill s3 then concat (map (\<lambda>ev. [ev, ev]) fills) else fills)) s3,
                             ret o1)))))"

definition submit_order :: "id_gen \<Rightarrow> usec \<Rightarrow> order \<Rightarrow> sim \<Rightarrow> (sim \<times> order res) option" where
  "submit_order gen now raw s =
     (case ensure_connected s of
        Inl e \<Rightarrow> Some (s, Inl e)
      | Inr _ \<Rightarrow>
          if sm_rate_limit s then Some (s\<lparr> sm_rate_limit := False \<rparr>, Inl (Exn RateLimited ''simulated rate limit''))
          else if truthy_str (sm_reject_next s) then
            Some (s\<lparr> sm_reject_next := None \<rparr>, Inl (Exn OrderRejected (''simulated rejection: '' @ the (sm_reject_next s))))
          else case sm_fail s of
                 Some e \<Rightarrow> Some (s\<lparr> sm_fail := None \<rparr>, Inl e)
               | None \<Rightarrow>
                   (let local = local_order_for s raw;
                        s1 = put_sim_order local (s\<lparr> sm_next := sm_next s + 1 \<rparr>)
                    in if sm_timeout_created s1 then
                         Some (s1\<lparr> sm_timeout_created := False \<rparr>,
                               Inl (Exn UnknownExecutionState (''submit timeout after order reached exchange: '' @ sim_key local)))
                       else match_and_emit gen now local s1))"

subsection \<open>Cancellation, queries and hydration\<close>

definition race_price :: "string \<Rightarrow> order \<Rightarrow> sim \<Rightarrow> dec res" where
  "race_price sy o1 s =
     (if dec_or (o_price o1) 0 \<noteq> 0 then ret (dec_or (o_price o1) 0)
      else case map_of (sm_books s) sy of
             None \<Rightarrow> raise KeyErrorC
           | Some b \<Rightarrow> ret (dec_or (mid_price b) 100))"

definition sim_cancel_order :: "id_gen \<Rightarrow> usec \<Rightarrow> string \<Rightarrow> string \<Rightarrow> sim \<Rightarrow> sim \<times> order res" where
  "sim_cancel_order gen now sy eid s =
     (case ensure_connected s of
        Inl e \<Rightarrow> (s, Inl e)
      | Inr _ \<Rightarrow>
          (case map_of (sm_orders s) eid of
             None \<Rightarrow> (s, raise OrderNotFound)
           | Some o1 \<Rightarrow>
               if o_status o1 = FILLED then (s, ret o1)
               else if sm_cancel_race s \<and> 0 < remaining_quantity o1 then
                 (case race_price sy o1 s of
                    Inl e \<Rightarrow> (s, Inl e)
                  | Inr price \<Rightarrow>
                      (let f = sim_fill gen now o1 price (remaining_quantity o1) 0 None s;
                           o2 = o1\<lparr> o_filled := o_qty o1, o_status := FILLED \<rparr>;
                           s1 = (s\<lparr> sm_ids := sm_ids s + 2 \<rparr>)\<lparr> sm_orders := AList.update eid o2 (sm_orders s) \<rparr>
                       in case rbind (dec_json (f_price f)) (\<lambda>p. rbind (dec_json (f_qty f)) (\<lambda>q.
                                 ret [(''fill_id'', JStr (f_id f)), (''fill_price'', p), (''fill_quantity'', q), (''fee'', JDec 0)])) of
                            Inl e \<Rightarrow> (s1, Inl e)
                          | Inr extra \<Rightarrow>
                              (case sim_order_event gen now EX_ORDER_FILLED o2 extra s1 of
                                 (s2, Inl e) \<Rightarrow> (s2, Inl e)
                               | (s2, Inr ev) \<Rightarrow> (sim_emit ev s2, ret o2))))
               else
                 (let o2 = o1\<lparr> o_status := CANCELLED \<rparr>; s1 = s\<lparr> sm_orders := AList.update eid o2 (sm_orders s) \<rparr>
                  in case sim_order_event gen now EX_ORDER_CANCELLED o2 [(''status'', JStr ''CANCELED'')] s1 of
                       (s2, Inl e) \<Rightarrow> (s2, Inl e)
                     | (s2, Inr ev) \<Rightarrow> (sim_emit ev s2, ret o2))))"

definition sim_get_order :: "sim \<Rightarrow> string \<Rightarrow> order res" where
  "sim_get_order s k =
     rbind (ensure_connected s) (\<lambda>_.
       case map_of (sm_orders s) k of
         Some o1 \<Rightarrow> ret o1
       | None \<Rightarrow> (case List.find (\<lambda>o1. o_client o1 = k) (dict_values (sm_orders s)) of
                    Some o1 \<Rightarrow> ret o1 | None \<Rightarrow> raise OrderNotFound))"

definition sim_get_balances :: "sim \<Rightarrow> balance list res" where
  "sim_get_balances s =
     rbind (ensure_connected s) (\<lambda>_.
       ret (map (\<lambda>(c, x). \<lparr> b_ccy = c, b_total = x, b_available = x, b_frozen = 0 \<rparr>) (sort_key fst (sm_balances s))))"

definition sim_get_positions :: "sim \<Rightarrow> position list res" where
  "sim_get_positions s = rbind (ensure_connected s) (\<lambda>_. ret (dict_values (sm_positions s)))"

definition position_of_view :: "string \<Rightarrow> position_view \<Rightarrow> position" where
  "position_of_view sy v = \<lparr> p_symbol = sy, p_base = pv_base v, p_quote = pv_quote v, p_qty = pv_qty v, p_avg = pv_avg v,
     p_cost = pv_cost v, p_realized = pv_realized v, p_updated = None \<rparr>"

definition hydrate_from_ledger :: "ledger_db \<Rightarrow> sim \<Rightarrow> sim \<times> unit res" where
  "hydrate_from_ledger db s =
     (case replay_projections db [] ''default'' FUTURES_EXCLUDED_ENTRY_TYPES of
        Inl e \<Rightarrow> (s, Inl e)
      | Inr sn \<Rightarrow>
          (s\<lparr> sm_balances := (if sn_balances sn = [] then sm_balances s
                              else map (\<lambda>(c, r). (c, br_total r)) (sn_balances sn)),
             sm_positions := map (\<lambda>(sy, v). (sy, position_of_view sy v))
                               (filter (\<lambda>(_, v). pv_qty v \<noteq> 0) (sn_positions sn)) \<rparr>, ret ()))"

definition upper_char :: "char \<Rightarrow> char" where
  "upper_char c = (let n = of_char c :: nat in if 97 \<le> n \<and> n \<le> 122 then char_of (n - 32) else c)"

definition normalize_symbol :: "string \<Rightarrow> string" where
  "normalize_symbol raw = map upper_char raw"

text \<open>Fields that the fill's type checks: a text is required, or a text or nothing.\<close>

definition text_field :: "json \<Rightarrow> string res" where
  "text_field v = (case v of JStr t \<Rightarrow> ret t | _ \<Rightarrow> raise ValueError)"

definition opt_text_field :: "json option \<Rightarrow> string option res" where
  "opt_text_field v =
     (case v of None \<Rightarrow> ret None | Some JNull \<Rightarrow> ret None | Some (JStr t) \<Rightarrow> ret (Some t) | Some _ \<Rightarrow> raise ValueError)"

definition normalize_fill :: "usec \<Rightarrow> meta \<Rightarrow> fill res" where
  "normalize_fill now raw =
     rbind (meta_item raw ''fill_id'') (\<lambda>jid. rbind (meta_item raw ''symbol'') (\<lambda>jsym.
     rbind (rbind (meta_item raw ''side'') parse_side) (\<lambda>side.
     rbind (rbind (meta_item raw ''fill_price'') json_D) (\<lambda>price.
     rbind (rbind (meta_item raw ''fill_quantity'') json_D) (\<lambda>qty.
     rbind (json_D (case map_of raw ''fee'' of Some v \<Rightarrow> v | None \<Rightarrow> JStr ''0'')) (\<lambda>fee.
     rbind (text_field jid) (\<lambda>fid. rbind (opt_text_field (map_of raw ''trade_id'')) (\<lambda>tid.
     rbind (text_field (case map_of raw ''order_id'' of Some v \<Rightarrow> v | None \<Rightarrow> JStr [])) (\<lambda>oid.
     rbind (opt_text_field (map_of raw ''client_order_id'')) (\<lambda>cid.
     rbind (opt_text_field (map_of raw ''exchange_order_id'')) (\<lambda>eid. rbind (text_field jsym) (\<lambda>sy1.
     rbind (opt_text_field (map_of raw ''fee_currency'')) (\<lambda>ccy.
       ret \<lparr> f_id = fid, f_trade = tid, f_order = oid, f_client = cid, f_exchange = eid, f_symbol = sy1, f_side = side,
             f_price = price, f_qty = qty, f_fee = fee, f_fee_ccy = ccy, f_time = now, f_payload = [] \<rparr>)))))))))))))"

definition emit_order_rejected :: "id_gen \<Rightarrow> usec \<Rightarrow> string \<Rightarrow> string \<Rightarrow> sim \<Rightarrow> sim \<times> unit res" where
  "emit_order_rejected gen now eid reason s =
     (case map_of (sm_orders s) eid of
        None \<Rightarrow> (s, ret ())
      | Some o1 \<Rightarrow>
          (let o2 = o1\<lparr> o_status := REJECTED \<rparr>; s1 = s\<lparr> sm_orders := AList.update eid o2 (sm_orders s) \<rparr>
           in case sim_order_event gen now EX_ORDER_REJECTED o2 [(''status'', JStr ''REJECTED''), (''reason'', JStr reason)] s1 of
                (s2, Inl e) \<Rightarrow> (s2, Inl e)
              | (s2, Inr ev) \<Rightarrow> (sim_emit ev s2, ret ())))"

subsection \<open>What a pass of the loop changes\<close>

lemma sim_frame [simp]:
  "sm_books (put_sim_order o1 s) = sm_books s" "sm_books (sim_emit ev s) = sm_books s"
  "sm_books (set_sim_balance c x s) = sm_books s" "sm_books (apply_fill_to_balances f i s) = sm_books s"
  "sm_orders (sim_emit ev s) = sm_orders s" "sm_orders (put_sim_book sy b s) = sm_orders s"
  "sm_orders (set_sim_balance c x s) = sm_orders s" "sm_orders (apply_fill_to_balances f i s) = sm_orders s"
  "sm_fee (put_sim_order o1 s) = sm_fee s" "sm_fee (apply_fill_to_balances f i s) = sm_fee s"
  by (simp_all add: put_sim_order_def sim_emit_def set_sim_balance_def apply_fill_to_balances_def put_sim_book_def Let_def)

lemma sim_updates [simp]:
  "sm_books (put_sim_book sy b s) = AList.update sy b (sm_books s)"
  "sm_orders (put_sim_order o1 s) = AList.update (sim_key o1) o1 (sm_orders s)"
  "sim_key (o1\<lparr> o_avg := a \<rparr>) = sim_key o1"
  "f_price (sim_fill gen now o1 price q fee ccy s) = price" "f_qty (sim_fill gen now o1 price q fee ccy s) = q"
  by (simp_all add: put_sim_order_def put_sim_book_def sim_key_def sim_fill_def)

lemma sim_frame_event: "sim_order_event gen now ty o1 extra s = (s', r) \<Longrightarrow> s' = s\<lparr> sm_ids := Suc (sm_ids s) \<rparr>"
  by (auto simp: sim_order_event_def)

lemma sim_book_frame [simp]:
  "sim_book (put_sim_order o1 s) sy = sim_book s sy" "sim_book (apply_fill_to_balances f i s) sy = sim_book s sy"
  "sim_book (sm_ids_update g s) sy = sim_book s sy" "sim_book (sim_emit ev s) sy = sim_book s sy"
  by (simp_all add: sim_book_def)

lemma sim_book_cong: "sm_books s = sm_books t \<Longrightarrow> sim_book s sy = sim_book t sy"
  by (simp add: sim_book_def)

lemma sim_book_put: "sim_book (put_sim_book sy b s) sx = (if sx = sy then b else sim_book s sx)"
  by (simp add: sim_book_def put_sim_book_def)

lemma book_side_set [simp]: "book_side side (set_book_side side ls b) = ls"
  by (simp add: book_side_def set_book_side_def)

lemma filled_by_keeps [simp]:
  "o_side (filled_by q o1) = o_side o1" "o_symbol (filled_by q o1) = o_symbol o1" "o_qty (filled_by q o1) = o_qty o1"
  "o_type (filled_by q o1) = o_type o1" "o_price (filled_by q o1) = o_price o1" "sim_key (filled_by q o1) = sim_key o1"
  "o_filled (filled_by q o1) = dadd (o_filled o1) q" "o_exchange (filled_by q o1) = o_exchange o1"
  "o_status (filled_by q o1) = (if dadd (o_filled o1) q = o_qty o1 then FILLED else PARTIALLY_FILLED)"
  by (simp_all add: filled_by_def Let_def sim_key_def)

lemma fill_event_payload:
  assumes "fill_payload f = ret extra" "event_payload o1 extra = ret m"
  shows "meta_dec m ''fill_price'' = Some (f_price f) \<and> meta_dec m ''fill_quantity'' = Some (f_qty f)"
  using assms by (auto simp: fill_payload_def event_payload_def rbind_eq_Inr dec_json_def meta_dec_def)

lemma match_level_passes:
  assumes "match_level gen now i l rem o0 s = (s', Inr (o2, rem', ev))"
  shows "\<exists>avg key ls.
    format_decimal (bl_price l) = ret key \<and>
    consume_levels key (min rem (bl_qty l)) l (book_side (o_side o0) (sim_book s (o_symbol o0))) = ret ls \<and>
    o2 = (filled_by (min rem (bl_qty l)) o0)\<lparr> o_avg := Some avg \<rparr> \<and> rem' = dsub rem (min rem (bl_qty l)) \<and>
    sm_books s' = AList.update (o_symbol o0) (set_book_side (o_side o0) ls (sim_book s (o_symbol o0))) (sm_books s) \<and>
    sm_orders s' = AList.update (sim_key o0) o2 (AList.update (sim_key o0) (filled_by (min rem (bl_qty l)) o0) (sm_orders s)) \<and>
    meta_dec (ee_payload ev) ''fill_price'' = Some (bl_price l) \<and>
    meta_dec (ee_payload ev) ''fill_quantity'' = Some (min rem (bl_qty l))"
  using assms
  by (auto simp: match_level_def Let_def sim_order_event_def rbind_eq_Inr
      split: sum.splits prod.splits dest: fill_event_payload)

end
