(* ===== verification/Matching.thy ===== *)
theory Matching
  imports Simulator
begin

text \<open>
  What the simulated exchange does with an order: matching ends in every state it can reach, and what
  it executes is the greedy walk over the sorted levels of the book that \<open>walk_levels\<close> states.
\<close>

subsection \<open>Consuming a level\<close>

lemma level_key:
  assumes "levels_ok ls" "l \<in> set (dict_values ls)" "format_decimal (bl_price l) = ret key"
  shows "map_of ls key = Some l"
proof -
  obtain k where k: "(k, l) \<in> set ls" using assms(2) by (auto simp: dict_values_def)
  then have "k = key" using assms by (auto simp: levels_ok_def)
  with k show ?thesis using assms(1) by (auto simp: levels_ok_def dict_ok_map_of_iff)
qed

lemma same_price_same_key:
  assumes "levels_ok ls" "(k, l) \<in> set ls" "(k', l') \<in> set ls"
  shows "bl_price l = bl_price l' \<longleftrightarrow> k = k'"
proof
  assume "bl_price l = bl_price l'"
  moreover have "format_decimal (bl_price l) = ret k" "format_decimal (bl_price l') = ret k'"
    using assms by (auto simp: levels_ok_def)
  ultimately show "k = k'" by simp
next
  assume "k = k'"
  then have "l = l'" using assms by (auto simp: levels_ok_def dict_ok_map_of_iff)
  then show "bl_price l = bl_price l'" by simp
qed

lemma delete_key_values:
  assumes "levels_ok ls" "map_of ls key = Some l"
  shows "dict_values (AList.delete key ls) = filter (\<lambda>x. bl_price x \<noteq> bl_price l) (dict_values ls)"
proof -
  have m: "(key, l) \<in> set ls" using assms(2) by (rule map_of_SomeD)
  have "filter (\<lambda>x. fst x \<noteq> key) ls = filter (\<lambda>x. bl_price (snd x) \<noteq> bl_price l) ls"
    by (rule filter_cong) (use same_price_same_key [OF assms(1) _ m] in auto)
  moreover have "AList.delete key ls = filter (\<lambda>x. fst x \<noteq> key) ls" unfolding AList.delete_eq by (rule filter_cong) auto
  ultimately show ?thesis by (simp add: dict_values_def filter_map o_def)
qed

lemma consume_levels_ok:
  assumes "levels_ok ls" "l \<in> set (dict_values ls)" "format_decimal (bl_price l) = ret key"
    and "0 < qty" "qty \<le> bl_qty l" "consume_levels key qty l ls = ret ls'"
  shows "levels_ok ls'"
proof (cases "qty = bl_qty l")
  case True
  then have "ls' = AList.delete key ls" using assms(6) by (simp add: consume_levels_def)
  then show ?thesis using assms(1) set_dict_delete [of key ls] by (auto simp: levels_ok_def)
next
  case False
  have m: "map_of ls key = Some l" using level_key [OF assms(1-3)] .
  then have ls': "ls' = AList.update key (l\<lparr> bl_qty := dsub (bl_qty l) qty \<rparr>) ls"
    using assms(6) False by (simp add: consume_levels_def)
  have "0 < dsub (bl_qty l) qty" using False assms(5) by (simp add: dsub_def dround_pos)
  then show ?thesis
    using assms(1,3) map_of_SomeD [OF m] set_dict_update [of key "l\<lparr> bl_qty := dsub (bl_qty l) qty \<rparr>" ls]
    by (fastforce simp: levels_ok_def ls')
qed

lemma consume_whole_level:
  assumes "levels_ok ls" "l \<in> set (dict_values ls)" "format_decimal (bl_price l) = ret key"
    and "consume_levels key (bl_qty l) l ls = ret ls'"
  shows "length ls' < length ls" "dict_values ls' = filter (\<lambda>x. bl_price x \<noteq> bl_price l) (dict_values ls)"
proof -
  have m: "map_of ls key = Some l" using level_key [OF assms(1-3)] .
  have d: "ls' = AList.delete key ls" using assms(4) by (simp add: consume_levels_def)
  then show "dict_values ls' = filter (\<lambda>x. bl_price x \<noteq> bl_price l) (dict_values ls)"
    using delete_key_values [OF assms(1) m] by simp
  then have "length ls' = length (filter (\<lambda>x. bl_price x \<noteq> bl_price l) (dict_values ls))"
    by (metis dict_values_def length_map)
  also have "\<dots> < length (dict_values ls)" by (rule length_filter_less [OF assms(2)]) simp
  finally show "length ls' < length ls" by (simp add: dict_values_def)
qed

text \<open>The levels in the order in which they trade: \<open>sorted\<close> with the best price first.\<close>

definition trade_levels :: "order_side \<Rightarrow> levels \<Rightarrow> book_level list" where
  "trade_levels side ls = sorted_levels (side = SELL) ls"

lemma next_level_hd:
  "next_level o1 b = (case trade_levels (o_side o1) (book_side (o_side o1) b) of
     [] \<Rightarrow> None
   | l # _ \<Rightarrow> if beyond_limit (o_side o1) (order_limit o1) (bl_price l) then None else Some l)"
  by (cases "o_side o1") (auto simp: next_level_def trade_levels_def book_side_def best_ask_def best_bid_def split: list.splits)

lemma next_level_Some:
  assumes "next_level o1 b = Some l"
  shows "l \<in> set (dict_values (book_side (o_side o1) b))" "\<not> beyond_limit (o_side o1) (order_limit o1) (bl_price l)"
proof -
  have "l \<in> set (trade_levels (o_side o1) (book_side (o_side o1) b))" "\<not> beyond_limit (o_side o1) (order_limit o1) (bl_price l)"
    using assms by (auto simp: next_level_hd split: list.splits if_splits)
  then show "l \<in> set (dict_values (book_side (o_side o1) b))" "\<not> beyond_limit (o_side o1) (order_limit o1) (bl_price l)"
    by (simp_all add: trade_levels_def sorted_levels_def)
qed

lemma levels_ok_pos: "levels_ok ls \<Longrightarrow> l \<in> set (dict_values ls) \<Longrightarrow> 0 < bl_qty l"
  by (auto simp: levels_ok_def dict_values_def)

text \<open>After the best level is used up, the next one is the best.\<close>

lemma distinct_prices: "levels_ok ls \<Longrightarrow> distinct (map bl_price (dict_values ls))"
proof -
  assume ok: "levels_ok ls"
  have "inj_on (\<lambda>x. bl_price (snd x)) (set ls)"
  proof (rule inj_onI)
    fix x y assume xy: "x \<in> set ls" "y \<in> set ls" "bl_price (snd x) = bl_price (snd y)"
    have "fst x = fst y" using same_price_same_key [OF ok, of "fst x" "snd x" "fst y" "snd y"] xy by simp
    then show "x = y" using ok xy(1,2) by (metis dict_ok_map_of_iff levels_ok_def option.inject prod.collapse)
  qed
  moreover have "distinct ls" using ok by (auto simp: levels_ok_def dict_ok_def distinct_map)
  ultimately show ?thesis by (simp add: dict_values_def distinct_map o_def)
qed

lemma sort_key_filter_hd:
  assumes "sort_key f xs = x # ys" "distinct (map g xs)"
  shows "sort_key f (filter (\<lambda>z. g z \<noteq> g x) xs) = ys"
proof -
  have "mset (map g (sort_key f xs)) = mset (map g xs)" by simp
  then have "distinct (map g (x # ys))" using assms by (metis mset_eq_imp_distinct_iff)
  then have "filter (\<lambda>z. g z \<noteq> g x) ys = ys" by (auto simp: filter_id_conv) (metis image_eqI)
  then show ?thesis by (simp add: filter_sort [symmetric] assms(1))
qed

lemma trade_levels_next:
  assumes "levels_ok ls" "trade_levels side ls = l # rest" "dict_values ls' = filter (\<lambda>x. bl_price x \<noteq> bl_price l) (dict_values ls)"
  shows "trade_levels side ls' = rest"
proof -
  define h where "h = (if side = SELL then neg_price else bl_price)"
  have "sort_key h (dict_values ls) = l # rest" using assms(2) by (simp add: trade_levels_def sorted_levels_def h_def)
  from sort_key_filter_hd [OF this distinct_prices [OF assms(1)]] show ?thesis
    by (simp add: trade_levels_def sorted_levels_def h_def assms(3))
qed

subsection \<open>The loop returns\<close>

lemma min_eq_cases: "min a b = b \<or> (min a b = a \<and> a < b)" for a b :: rat
  by (auto simp: min_def)

lemma match_loop_done: "rem \<le> 0 \<Longrightarrow> match_loop gen now i rem o1 evs s = Some (s, ret evs)"
  by (subst match_loop.simps) simp

lemma match_loop_returns:
  "levels_ok (book_side (o_side o1) (sim_book s (o_symbol o1))) \<Longrightarrow> \<exists>r. match_loop gen now i rem o1 evs s = Some r"
proof (induction "length (book_side (o_side o1) (sim_book s (o_symbol o1)))" arbitrary: o1 s rem evs rule: less_induct)
  case less
  show ?case
  proof (cases "rem \<le> 0 \<or> next_level o1 (sim_book s (o_symbol o1)) = None")
    case True
    then show ?thesis by (subst match_loop.simps) auto
  next
    case False
    then obtain l where l: "0 < rem" "next_level o1 (sim_book s (o_symbol o1)) = Some l" by auto
    show ?thesis
    proof (cases "match_level gen now i l rem o1 s")
      case (Pair s1 r)
      show ?thesis
      proof (cases r)
        case (Inl e)
        then show ?thesis using l Pair by (subst match_loop.simps) simp
      next
        case (Inr t)
        obtain o2 rem1 ev where t: "t = (o2, rem1, ev)" by (metis prod_cases3)
        have step: "match_loop gen now i rem o1 evs s = match_loop gen now i rem1 o2 (evs @ [ev]) s1"
          using l Pair Inr t by (subst match_loop.simps) simp
        from match_level_passes [OF Pair [unfolded Inr t]] obtain avg key ls where
          p: "format_decimal (bl_price l) = ret key"
            "consume_levels key (min rem (bl_qty l)) l (book_side (o_side o1) (sim_book s (o_symbol o1))) = ret ls"
            "o2 = (filled_by (min rem (bl_qty l)) o1)\<lparr> o_avg := Some avg \<rparr>" "rem1 = dsub rem (min rem (bl_qty l))"
            "sm_books s1 = AList.update (o_symbol o1) (set_book_side (o_side o1) ls (sim_book s (o_symbol o1))) (sm_books s)"
          by blast
        have b: "book_side (o_side o2) (sim_book s1 (o_symbol o2)) = ls" using p(3,5) by (simp add: sim_book_def)
        have m: "l \<in> set (dict_values (book_side (o_side o1) (sim_book s (o_symbol o1))))"
          using next_level_Some [OF l(2)] by simp
        from min_eq_cases [of rem "bl_qty l"] show ?thesis
        proof
          assume q: "min rem (bl_qty l) = bl_qty l"
          have "levels_ok ls"
            using consume_levels_ok [OF less.prems m p(1) _ _ p(2)] l(1) levels_ok_pos [OF less.prems m] by simp
          moreover have "length ls < length (book_side (o_side o1) (sim_book s (o_symbol o1)))"
            using consume_whole_level(1) [OF less.prems m p(1)] p(2) q by simp
          ultimately show ?thesis using less.hyps [of o2 s1] step b by simp
        next
          assume "min rem (bl_qty l) = rem \<and> rem < bl_qty l"
          then show ?thesis using step p(4) by (simp add: match_loop_done)
        qed
      qed
    qed
  qed
qed

subsection \<open>What the loop reports\<close>

text \<open>The specification: an order walks the levels from the best price on, takes what it can of each
  level, and stops at its limit.\<close>

fun walk_levels :: "order_side \<Rightarrow> dec option \<Rightarrow> dec \<Rightarrow> book_level list \<Rightarrow> (dec \<times> dec) list" where
  "walk_levels side limit rem [] = []"
| "walk_levels side limit rem (l # ls) =
     (if rem \<le> 0 \<or> beyond_limit side limit (bl_price l) then []
      else (bl_price l, min rem (bl_qty l)) # walk_levels side limit (rem - min rem (bl_qty l)) ls)"

definition total_qty :: "(dec \<times> dec) list \<Rightarrow> rat" where
  "total_qty fs = sum_list (map snd fs)"

lemma total_qty_simps [simp]: "total_qty [] = 0" "total_qty (f # fs) = snd f + total_qty fs"
  by (simp_all add: total_qty_def)

lemma walk_levels_done: "rem \<le> 0 \<Longrightarrow> walk_levels side limit rem ls = []"
  by (cases ls) simp_all

lemma walk_levels_total: "0 \<le> rem \<Longrightarrow> total_qty (walk_levels side limit rem ls) \<le> rem"
proof (induction ls arbitrary: rem)
  case (Cons l ls)
  have "0 \<le> rem - min rem (bl_qty l)" by simp
  from Cons.IH [OF this] Cons.prems show ?case by simp
qed simp

lemma walk_levels_nonneg: "\<forall>l \<in> set ls. 0 < bl_qty l \<Longrightarrow> (p, q) \<in> set (walk_levels side limit rem ls) \<Longrightarrow> 0 < q"
  by (induction ls arbitrary: rem) (auto split: if_splits)

lemma walk_levels_limit: "(p, q) \<in> set (walk_levels side limit rem ls) \<Longrightarrow> \<not> beyond_limit side limit p"
  by (induction ls arbitrary: rem) (auto split: if_splits)

definition reported_fill :: "exchange_event \<Rightarrow> dec option \<times> dec option" where
  "reported_fill ev = (meta_dec (ee_payload ev) ''fill_price'', meta_dec (ee_payload ev) ''fill_quantity'')"

definition walk_reports :: "(dec \<times> dec) list \<Rightarrow> (dec option \<times> dec option) list" where
  "walk_reports fs = map (\<lambda>(p, q). (Some p, Some q)) fs"

definition status_after :: "order \<Rightarrow> order_status" where
  "status_after o1 = (if o_filled o1 = 0 then ACKNOWLEDGED else if o_filled o1 = o_qty o1 then FILLED else PARTIALLY_FILLED)"

text \<open>An order whose quantities are exact and add up to what is left.\<close>

definition order_exact :: "nat \<Rightarrow> dec \<Rightarrow> order \<Rightarrow> bool" where
  "order_exact k rem o1 \<longleftrightarrow> exact_amount k rem \<and> exact_amount k (o_filled o1) \<and> exact_amount k (o_qty o1) \<and>
     0 \<le> rem \<and> 0 \<le> o_filled o1 \<and> o_filled o1 + rem = o_qty o1"

lemma exact_between:
  assumes "exact_amount k x" "exact_amount k y" "0 \<le> y" "y \<le> x"
  shows "exact_amount k (x - y)" "dsub x y = x - y"
  using assms exact_dsub [OF assms(1,2)] by (auto simp: exact_amount_def places_diff)

lemma order_exact_step:
  assumes "order_exact k rem o1" "exact_amount k (bl_qty l)" "0 < bl_qty l"
  shows "order_exact k (rem - min rem (bl_qty l)) (filled_by (min rem (bl_qty l)) o1)"
    "dsub rem (min rem (bl_qty l)) = rem - min rem (bl_qty l)"
    "dadd (o_filled o1) (min rem (bl_qty l)) = o_filled o1 + min rem (bl_qty l)"
proof -
  define q where "q = min rem (bl_qty l)"
  have r: "exact_amount k rem" "exact_amount k (o_filled o1)" "exact_amount k (o_qty o1)" "0 \<le> rem" "0 \<le> o_filled o1"
    "o_filled o1 + rem = o_qty o1"
    using assms(1) by (simp_all add: order_exact_def)
  have q: "exact_amount k q" "0 \<le> q" "q \<le> rem" using assms r by (auto simp: q_def min_def)
  show d: "dsub rem (min rem (bl_qty l)) = rem - min rem (bl_qty l)" using exact_between(2) [OF r(1) q(1,2,3)] by (simp add: q_def)
  show a: "dadd (o_filled o1) (min rem (bl_qty l)) = o_filled o1 + min rem (bl_qty l)"
    using exact_dadd [OF r(2) q(1)] by (simp add: q_def)
  have f: "o_filled o1 + q = o_qty o1 - (rem - q)" "0 \<le> rem - q" "rem - q \<le> o_qty o1" using r q by simp_all
  have "exact_amount k (o_filled o1 + q)"
    unfolding f(1) by (rule exact_between(1) [OF r(3) exact_between(1) [OF r(1) q(1,2,3)] f(2,3)])
  then show "order_exact k (rem - min rem (bl_qty l)) (filled_by (min rem (bl_qty l)) o1)"
    using exact_between(1) [OF r(1) q(1,2,3)] r q a by (simp add: order_exact_def q_def [symmetric])
qed

lemma match_level_frame:
  assumes "match_level gen now i l rem o0 s = (s', r)"
  shows "sm_log s' = sm_log s" "sm_fill_before_ack s' = sm_fill_before_ack s" "sm_duplicate_fill s' = sm_duplicate_fill s"
  using assms
  by (auto simp: match_level_def Let_def sim_order_event_def put_sim_order_def put_sim_book_def apply_fill_to_balances_def
      set_sim_balance_def split: sum.splits)

lemma match_loop_walk:
  "match_loop gen now i rem o1 evs s = Some (s', ret evs') \<Longrightarrow>
   levels_ok (book_side (o_side o1) (sim_book s (o_symbol o1))) \<Longrightarrow>
   \<forall>l \<in> set (dict_values (book_side (o_side o1) (sim_book s (o_symbol o1)))). exact_amount k (bl_qty l) \<Longrightarrow>
   order_exact k rem o1 \<Longrightarrow> map_of (sm_orders s) (sim_key o1) = Some o1 \<Longrightarrow> o_status o1 = status_after o1 \<Longrightarrow>
   fs = walk_levels (o_side o1) (order_limit o1) rem (trade_levels (o_side o1) (book_side (o_side o1) (sim_book s (o_symbol o1)))) \<Longrightarrow>
   \<exists>new o'. evs' = evs @ new \<and> map reported_fill new = walk_reports fs \<and>
     map_of (sm_orders s') (sim_key o1) = Some o' \<and> o_filled o' = o_filled o1 + total_qty fs \<and> o_qty o' = o_qty o1 \<and>
     o_status o' = status_after o' \<and> sim_key o' = sim_key o1 \<and>
     sm_log s' = sm_log s \<and> sm_fill_before_ack s' = sm_fill_before_ack s \<and> sm_duplicate_fill s' = sm_duplicate_fill s"
proof (induction "length (book_side (o_side o1) (sim_book s (o_symbol o1)))" arbitrary: o1 s rem evs fs rule: less_induct)
  case less
  let ?ls = "book_side (o_side o1) (sim_book s (o_symbol o1))"
  let ?tl = "trade_levels (o_side o1) ?ls"
  show ?case
  proof (cases "rem \<le> 0 \<or> next_level o1 (sim_book s (o_symbol o1)) = None")
    case True
    then have "match_loop gen now i rem o1 evs s = Some (s, ret evs)" by (subst match_loop.simps) auto
    moreover have "fs = []"
      using True by (auto simp: less.prems(7) next_level_hd walk_levels_done split: list.splits if_splits)
    ultimately show ?thesis using less.prems by (simp add: walk_reports_def)
  next
    case False
    then obtain l where l: "0 < rem" "next_level o1 (sim_book s (o_symbol o1)) = Some l" by auto
    obtain s1 o2 rem1 ev where ml: "match_level gen now i l rem o1 s = (s1, Inr (o2, rem1, ev))"
      and rest: "match_loop gen now i rem1 o2 (evs @ [ev]) s1 = Some (s', ret evs')"
      using less.prems(1) l by (subst (asm) match_loop.simps) (auto split: prod.splits sum.splits)
    from match_level_passes [OF ml] obtain avg key ls where
      p: "format_decimal (bl_price l) = ret key"
        "consume_levels key (min rem (bl_qty l)) l ?ls = ret ls"
        "o2 = (filled_by (min rem (bl_qty l)) o1)\<lparr> o_avg := Some avg \<rparr>" "rem1 = dsub rem (min rem (bl_qty l))"
        "sm_books s1 = AList.update (o_symbol o1) (set_book_side (o_side o1) ls (sim_book s (o_symbol o1))) (sm_books s)"
        "sm_orders s1 = AList.update (sim_key o1) o2 (AList.update (sim_key o1) (filled_by (min rem (bl_qty l)) o1) (sm_orders s))"
        "reported_fill ev = (Some (bl_price l), Some (min rem (bl_qty l)))"
      by (auto simp: reported_fill_def)
    have m: "l \<in> set (dict_values ?ls)" "\<not> beyond_limit (o_side o1) (order_limit o1) (bl_price l)"
      using next_level_Some [OF l(2)] by simp_all
    obtain tl where tl: "?tl = l # tl" using l(2) by (auto simp: next_level_hd split: list.splits if_splits)
    have pos: "0 < bl_qty l" using levels_ok_pos [OF less.prems(2) m(1)] .
    have ex: "exact_amount k (bl_qty l)" using less.prems(3) m(1) by simp
    note st = order_exact_step [OF less.prems(4) ex pos]
    have b: "book_side (o_side o2) (sim_book s1 (o_symbol o2)) = ls" using p(3,5) by (simp add: sim_book_def)
    have o2: "order_exact k rem1 o2" "o_side o2 = o_side o1" "order_limit o2 = order_limit o1" "sim_key o2 = sim_key o1"
      "o_qty o2 = o_qty o1" "o_filled o2 = o_filled o1 + min rem (bl_qty l)" "rem1 = rem - min rem (bl_qty l)"
      using st p(3,4) by (simp_all add: order_exact_def order_limit_def)
    have f0: "0 \<le> o_filled o1" using less.prems(4) by (simp add: order_exact_def)
    have stat: "o_status o2 = status_after o2"
      using p(3) st(3) f0 l(1) pos by (auto simp: status_after_def min_def split: if_splits)
    have stored: "map_of (sm_orders s1) (sim_key o2) = Some o2" using p(6) o2(4) by simp
    have fs: "fs = (bl_price l, min rem (bl_qty l)) # walk_levels (o_side o1) (order_limit o1) rem1 tl"
      using less.prems(7) tl l(1) m(2) o2(7) by simp
    show ?thesis
    proof (cases "min rem (bl_qty l) = bl_qty l")
      case True
      have ok: "levels_ok ls" using consume_levels_ok [OF less.prems(2) m(1) p(1) _ _ p(2)] l(1) pos by simp
      have c: "length ls < length ?ls" "dict_values ls = filter (\<lambda>x. bl_price x \<noteq> bl_price l) (dict_values ?ls)"
        using consume_whole_level [OF less.prems(2) m(1) p(1)] p(2) True by simp_all
      have "trade_levels (o_side o1) ls = tl" using trade_levels_next [OF less.prems(2) tl c(2)] .
      moreover have "\<forall>x \<in> set (dict_values ls). exact_amount k (bl_qty x)" using c(2) less.prems(3) by simp
      ultimately have "\<exists>new o'. evs' = (evs @ [ev]) @ new \<and> map reported_fill new = walk_reports (walk_levels (o_side o1) (order_limit o1) rem1 tl) \<and>
        map_of (sm_orders s') (sim_key o2) = Some o' \<and>
        o_filled o' = o_filled o2 + total_qty (walk_levels (o_side o1) (order_limit o1) rem1 tl) \<and> o_qty o' = o_qty o2 \<and>
        o_status o' = status_after o' \<and> sim_key o' = sim_key o2 \<and>
        sm_log s' = sm_log s1 \<and> sm_fill_before_ack s' = sm_fill_before_ack s1 \<and> sm_duplicate_fill s' = sm_duplicate_fill s1"
        using less.hyps [OF _ rest] b c(1) ok o2 stored stat by simp
      then show ?thesis using fs p(7) o2 match_level_frame [OF ml] by (fastforce simp: walk_reports_def)
    next
      case False
      then have "rem1 = 0" using o2(7) by (simp add: min_def split: if_splits)
      then have "s' = s1" "evs' = evs @ [ev]" "walk_levels (o_side o1) (order_limit o1) rem1 tl = []"
        using rest by (simp_all add: match_loop_done walk_levels_done)
      then show ?thesis using fs p(7) o2 stored stat match_level_frame [OF ml] by (fastforce simp: walk_reports_def)
    qed
  qed
qed

subsection \<open>Books stay well-formed\<close>

definition books_ok :: "sim \<Rightarrow> bool" where
  "books_ok s \<longleftrightarrow> (\<forall>sy b. map_of (sm_books s) sy = Some b \<longrightarrow> levels_ok (ob_bids b) \<and> levels_ok (ob_asks b))"

lemma books_ok_side: "books_ok s \<Longrightarrow> levels_ok (book_side side (sim_book s sy))"
  by (auto simp: books_ok_def sim_book_def book_side_def new_book_def split: option.split)

lemma books_ok_put:
  "books_ok s \<Longrightarrow> levels_ok (ob_bids b) \<Longrightarrow> levels_ok (ob_asks b) \<Longrightarrow> sm_books s' = AList.update sy b (sm_books s) \<Longrightarrow> books_ok s'"
  by (simp add: books_ok_def)

lemma books_ok_set_side:
  assumes "books_ok s" "levels_ok ls" "sm_books s' = AList.update sy (set_book_side side ls (sim_book s sy)) (sm_books s)"
  shows "books_ok s'"
  using books_ok_side [OF assms(1), of BUY sy] books_ok_side [OF assms(1), of SELL sy] assms(2)
  by (intro books_ok_put [OF assms(1) _ _ assms(3)]) (simp_all add: set_book_side_def book_side_def)

lemma books_ok_same: "books_ok s \<Longrightarrow> sm_books s' = sm_books s \<Longrightarrow> books_ok s'"
  by (simp add: books_ok_def)

lemma match_level_books:
  assumes "match_level gen now i l rem o0 s = (s', r)"
  shows "sm_books s' = sm_books s \<or> (\<exists>key ls. format_decimal (bl_price l) = ret key \<and>
    consume_levels key (min rem (bl_qty l)) l (book_side (o_side o0) (sim_book s (o_symbol o0))) = ret ls \<and>
    sm_books s' = AList.update (o_symbol o0) (set_book_side (o_side o0) ls (sim_book s (o_symbol o0))) (sm_books s))"
  using assms
  by (auto simp: match_level_def Let_def sim_order_event_def rbind_eq_Inr split: sum.splits)

lemma match_level_books_ok:
  assumes "match_level gen now i l rem o0 s = (s', r)" "books_ok s"
    and "next_level o0 (sim_book s (o_symbol o0)) = Some l" "0 < rem"
  shows "books_ok s'"
  using match_level_books [OF assms(1)]
proof
  assume "sm_books s' = sm_books s"
  then show ?thesis by (rule books_ok_same [OF assms(2)])
next
  have side: "levels_ok (book_side (o_side o0) (sim_book s (o_symbol o0)))" using books_ok_side [OF assms(2)] .
  have m: "l \<in> set (dict_values (book_side (o_side o0) (sim_book s (o_symbol o0))))" using next_level_Some [OF assms(3)] by simp
  assume "\<exists>key ls. format_decimal (bl_price l) = ret key \<and>
    consume_levels key (min rem (bl_qty l)) l (book_side (o_side o0) (sim_book s (o_symbol o0))) = ret ls \<and>
    sm_books s' = AList.update (o_symbol o0) (set_book_side (o_side o0) ls (sim_book s (o_symbol o0))) (sm_books s)"
  then obtain key ls where k: "format_decimal (bl_price l) = ret key"
    "consume_levels key (min rem (bl_qty l)) l (book_side (o_side o0) (sim_book s (o_symbol o0))) = ret ls"
    "sm_books s' = AList.update (o_symbol o0) (set_book_side (o_side o0) ls (sim_book s (o_symbol o0))) (sm_books s)" by blast
  have "levels_ok ls"
    using consume_levels_ok [OF side m k(1) _ _ k(2)] assms(4) levels_ok_pos [OF side m] by simp
  then show ?thesis using books_ok_set_side [OF assms(2)] k(3) by blast
qed

lemma match_loop_books_ok:
  assumes "match_loop gen now i rem o1 evs s = Some y" "books_ok s"
  shows "books_ok (fst y)"
proof -
  have "books_ok s \<longrightarrow> books_ok (fst y)"
  proof (rule match_loop.raw_induct [OF _ assms(1), where P = "\<lambda>gen now i rem o1 evs s y. books_ok s \<longrightarrow> books_ok (fst y)"])
    fix loop gen now i rem o1 evs s y
    assume IH: "\<And>now i rem o1 evs s b y. loop now i rem o1 evs s b = Some y \<Longrightarrow> books_ok b \<longrightarrow> books_ok (fst y)"
      and r: "(if rem \<le> 0 then Some (s, ret evs)
        else case next_level o1 (sim_book s (o_symbol o1)) of
             None \<Rightarrow> Some (s, ret evs)
           | Some l \<Rightarrow> (case match_level gen now i l rem o1 s of
               (s1, Inl e) \<Rightarrow> Some (s1, Inl e)
             | (s1, Inr (o2, rem1, ev)) \<Rightarrow> loop gen now i rem1 o2 (evs @ [ev]) s1)) = Some y"
    show "books_ok s \<longrightarrow> books_ok (fst y)"
    proof
      assume ok: "books_ok s"
      show "books_ok (fst y)"
      proof (cases "rem \<le> 0 \<or> next_level o1 (sim_book s (o_symbol o1)) = None")
        case True
        then have "y = (s, ret evs)" using r by (auto split: if_splits)
        then show ?thesis using ok by simp
      next
        case False
        then obtain l where l: "0 < rem" "next_level o1 (sim_book s (o_symbol o1)) = Some l" by auto
        obtain s1 q where m: "match_level gen now i l rem o1 s = (s1, q)" by force
        have ok1: "books_ok s1" using match_level_books_ok [OF m ok l(2,1)] .
        show ?thesis
        proof (cases q)
          case (Inl e)
          then show ?thesis using r l m ok1 by auto
        next
          case (Inr t)
          then show ?thesis using r l m ok1 IH by (cases t) auto
        qed
      qed
    qed
  qed
  with assms(2) show ?thesis by simp
qed

lemma seed_levels_ok:
  assumes "\<And>n. n < 5 \<Longrightarrow> price_ok (step 100 (dmul (1 / 20) (rat_of_nat n + 1)))"
  shows "updates_ok (seed_levels step 100 (1 / 20) 5)"
  using assms by (auto simp: updates_ok_def seed_levels_def)

lemma hundredth_small:
  assumes "\<bar>m\<bar> < 100000"
  shows "price_ok (of_int m / 100)" "dround (of_int m / 100) = of_int m / 100"
proof -
  have b: "\<bar>of_int m :: rat\<bar> < 100000" using assms by linarith
  show "price_ok (of_int m / 100)"
  proof (rule price_okI [OF places_simple])
    show "\<bar>of_int m / 100 :: rat\<bar> < 10 ^ 20 - 1" using b by (simp add: abs_divide)
  qed
  show "dround (of_int m / 100) = of_int m / 100"
  proof (rule dround_places [OF places_simple])
    show "\<bar>of_int m / 100 :: rat\<bar> \<le> 10 ^ 28 / 10 ^ 2" using b by (simp add: abs_divide)
  qed
qed

lemma seed_prices_ok:
  assumes "n < 5"
  shows "price_ok (dsub 100 (dmul (1 / 20) (rat_of_nat n + 1)))" "price_ok (dadd 100 (dmul (1 / 20) (rat_of_nat n + 1)))"
proof -
  define m where "m = 5 * int n + 5"
  have m: "\<bar>m\<bar> < 100000" "\<bar>10000 - m\<bar> < 100000" "\<bar>10000 + m\<bar> < 100000" using assms by (simp_all add: m_def)
  have "1 / 20 * (rat_of_nat n + 1) = of_int m / 100" by (simp add: m_def field_simps)
  then have s: "dmul (1 / 20) (rat_of_nat n + 1) = of_int m / 100" unfolding dmul_def by (simp only: hundredth_small(2) [OF m(1)])
  have d: "100 - of_int m / 100 = (of_int (10000 - m) / 100 :: rat)" "100 + of_int m / 100 = (of_int (10000 + m) / 100 :: rat)"
    by (simp_all add: diff_divide_distrib add_divide_distrib)
  show "price_ok (dsub 100 (dmul (1 / 20) (rat_of_nat n + 1)))"
    unfolding s dsub_def d hundredth_small(2) [OF m(2)] by (rule hundredth_small(1) [OF m(2)])
  show "price_ok (dadd 100 (dmul (1 / 20) (rat_of_nat n + 1)))"
    unfolding s dadd_def d hundredth_small(2) [OF m(3)] by (rule hundredth_small(1) [OF m(3)])
qed

lemma apply_snapshot_ok:
  assumes "apply_snapshot seq bids asks now b = (b', ret ())" "updates_ok bids" "updates_ok asks"
  shows "levels_ok (ob_bids b')" "levels_ok (ob_asks b')"
  using assms upsert_both_ok [of "b\<lparr> ob_seq := Some seq, ob_bids := [], ob_asks := [] \<rparr>" bids asks]
  by (auto simp: apply_snapshot_def)

lemma seed_book_ok:
  assumes "seed_book now sy s = (s', r)" "books_ok s"
  shows "books_ok s'"
proof -
  have u: "updates_ok (seed_levels dsub 100 (1 / 20) 5)" "updates_ok (seed_levels dadd 100 (1 / 20) 5)"
    using seed_levels_ok seed_prices_ok by blast+
  obtain b q where b: "apply_snapshot (next_seq s sy) (seed_levels dsub 100 (1 / 20) 5) (seed_levels dadd 100 (1 / 20) 5)
      now (new_book sy ''SIMULATED'') = (b, q)" by force
  show ?thesis
  proof (cases q)
    case (Inl e)
    then show ?thesis using assms b by (auto simp: seed_book_def seed_book_with_def books_ok_def)
  next
    case (Inr v)
    then have "levels_ok (ob_bids b)" "levels_ok (ob_asks b)" using apply_snapshot_ok [OF _ u] b by auto
    moreover have "sm_books s' = AList.update sy b (sm_books s)" using assms b Inr by (auto simp: seed_book_def seed_book_with_def)
    ultimately show ?thesis by (rule books_ok_put [OF assms(2)])
  qed
qed

lemma book_for_ok: "book_for now sy s = (s', r) \<Longrightarrow> books_ok s \<Longrightarrow> books_ok s'"
  by (auto simp: book_for_def split: option.splits dest: seed_book_ok)

lemma match_order_books_ok:
  assumes "match_order gen now o1 s = Some y" "books_ok s"
  shows "books_ok (fst y)"
proof -
  obtain s1 r where b: "book_for now (o_symbol o1) s = (s1, r)" by force
  have ok: "books_ok s1" using book_for_ok [OF b assms(2)] .
  show ?thesis
  proof (cases r)
    case (Inl e)
    then show ?thesis using assms(1) b ok by (auto simp: match_order_def)
  next
    case (Inr v)
    then show ?thesis using assms(1) b match_loop_books_ok [OF _ ok] by (simp add: match_order_def)
  qed
qed

lemma match_order_returns: "books_ok s \<Longrightarrow> \<exists>y. match_order gen now o1 s = Some y"
proof -
  assume ok: "books_ok s"
  obtain s1 r where b: "book_for now (o_symbol o1) s = (s1, r)" by force
  from match_loop_returns [OF books_ok_side [OF book_for_ok [OF b ok]]] show ?thesis
    by (cases r) (simp_all add: match_order_def b)
qed

lemma emit_all_books [simp]: "sm_books (emit_all evs s) = sm_books s"
  by (induction evs arbitrary: s) simp_all

lemma match_and_emit_returns:
  assumes "books_ok s"
  shows "\<exists>s' r. match_and_emit gen now o1 s = Some (s', r) \<and> books_ok s'"
proof -
  obtain s1 r1 where e1: "sim_order_event gen now EX_ORDER_ACK o1 [(''status'', JStr ''ACK'')] s = (s1, r1)" by force
  have ok1: "books_ok s1" using sim_frame_event [OF e1] assms by (simp add: books_ok_def)
  obtain s2 r2 where m: "match_order gen now o1 s1 = Some (s2, r2)" using match_order_returns [OF ok1] by fastforce
  have ok2: "books_ok s2" using match_order_books_ok [OF m ok1] by simp
  show ?thesis
  proof (cases r1)
    case (Inl e)
    then show ?thesis using e1 ok1 by (simp add: match_and_emit_def)
  next
    case r1: (Inr ack)
    show ?thesis
    proof (cases r2)
      case (Inl e)
      then show ?thesis using e1 r1 m ok2 by (simp add: match_and_emit_def)
    next
      case (Inr fills)
      then show ?thesis using e1 r1 m ok2
        by (auto simp: match_and_emit_def Let_def sim_order_event_def books_ok_def split: sum.split)
    qed
  qed
qed

lemma submit_order_returns:
  assumes "books_ok s"
  shows "\<exists>s' r. submit_order gen now raw s = Some (s', r) \<and> books_ok s'"
proof -
  have "books_ok (put_sim_order (local_order_for s raw) (s\<lparr> sm_next := sm_next s + 1 \<rparr>))"
    using assms by (simp add: books_ok_def)
  from match_and_emit_returns [OF this] show ?thesis
    using assms by (auto simp: submit_order_def Let_def books_ok_def split: sum.split option.split)
qed

subsection \<open>Submitting\<close>

text \<open>
  The states of the exchange: any sequence of its operations, of books taken from a market feed, and
  of changes that leave the books alone, which are connections, subscriptions and fault injection.
\<close>

inductive sim_reach :: "sim \<Rightarrow> bool" where
  started: "sim_reach (sim_init initial is fee ns)"
| submitted: "sim_reach s \<Longrightarrow> submit_order gen now raw s = Some (s', r) \<Longrightarrow> sim_reach s'"
| cancelled: "sim_reach s \<Longrightarrow> sim_cancel_order gen now sy eid s = (s', r2) \<Longrightarrow> sim_reach s'"
| rejected: "sim_reach s \<Longrightarrow> emit_order_rejected gen now eid reason s = (s', r3) \<Longrightarrow> sim_reach s'"
| asked: "sim_reach s \<Longrightarrow> get_orderbook now sy s = (s', r4) \<Longrightarrow> sim_reach s'"
| moved: "sim_reach s \<Longrightarrow> emit_market_delta gen now sy bids asks s = (s', r5) \<Longrightarrow> sim_reach s'"
| hydrated: "sim_reach s \<Longrightarrow> hydrate_from_ledger db s = (s', r6) \<Longrightarrow> sim_reach s'"
| market: "sim_reach s \<Longrightarrow> updates_ok bids \<Longrightarrow> updates_ok asks \<Longrightarrow> apply_snapshot n bids asks now (new_book sy ex) = (b, ret ())
    \<Longrightarrow> sim_reach (put_sim_book sy b s)"
| configured: "sim_reach s \<Longrightarrow> sm_books s' = sm_books s \<Longrightarrow> sim_reach s'"

lemma get_orderbook_ok: "get_orderbook now sy s = (s', r) \<Longrightarrow> books_ok s \<Longrightarrow> books_ok s'"
  by (auto simp: get_orderbook_def split: sum.splits dest: book_for_ok)

lemma sim_reach_books: "sim_reach s \<Longrightarrow> books_ok s"
proof (induction rule: sim_reach.induct)
  case (started initial "is" fee ns)
  then show ?case by (simp add: books_ok_def sim_init_def)
next
  case (submitted s gen now raw s' r)
  then show ?case using submit_order_returns [OF submitted(3), of gen now raw] by simp
next
  case (cancelled s gen now sy eid s' r2)
  have "sm_books s' = sm_books s"
    using cancelled(2)
    by (auto simp: sim_cancel_order_def sim_order_event_def Let_def split: sum.splits option.splits if_splits)
  then show ?case by (rule books_ok_same [OF cancelled(3)])
next
  case (rejected s gen now eid reason s' r3)
  have "sm_books s' = sm_books s"
    using rejected(2) by (auto simp: emit_order_rejected_def sim_order_event_def Let_def split: sum.splits option.splits)
  then show ?case by (rule books_ok_same [OF rejected(3)])
next
  case (asked s now sy s' r4)
  then show ?case using get_orderbook_ok by blast
next
  case (moved s gen now sy bids asks s' r5)
  obtain s1 r where g: "get_orderbook now sy s = (s1, r)" by force
  have "sm_books s' = sm_books s1"
    using moved(2) g by (auto simp: emit_market_delta_def Let_def split: sum.splits option.splits)
  then show ?case by (rule books_ok_same [OF get_orderbook_ok [OF g moved(3)]])
next
  case (hydrated s db s' r6)
  have "sm_books s' = sm_books s" using hydrated(2) by (auto simp: hydrate_from_ledger_def split: sum.splits)
  then show ?case by (rule books_ok_same [OF hydrated(3)])
next
  case (market s bids asks n now sy ex b)
  then show ?case using apply_snapshot_ok [OF market(4,2,3)] by (simp add: books_ok_def)
next
  case (configured s s')
  then show ?case by (simp add: books_ok_def)
qed

text \<open>C13: \<open>submit_order\<close> returns in every state that the exchange can reach, whatever the order: the
  matching loop uses up a level or the order in each pass.\<close>

theorem submission_returns:
  assumes "sim_reach s"
  shows "\<exists>s' r. submit_order gen now raw s = Some (s', r) \<and> sim_reach s'"
  using submit_order_returns [OF sim_reach_books [OF assms], of gen now raw] sim_reach.submitted [OF assms] by blast

definition ex_gen :: id_gen where
  "ex_gen prefix n = prefix @ int_digits (int n)"

definition ex_sim_order :: "order_side \<Rightarrow> dec option \<Rightarrow> dec \<Rightarrow> order" where
  "ex_sim_order side price qty = \<lparr> o_id = ''ord_1'', o_client = ''c1'', o_exchange = None, o_symbol = ''BTCUSDT'', o_side = side,
     o_type = (if price = None then MARKET else LIMIT), o_tif = GTC, o_price = price, o_qty = qty, o_filled = 0, o_avg = None,
     o_status = SUBMITTED, o_mode = PAPER, o_strategy = ''s'', o_run = None, o_created = 0, o_updated = 0, o_expires = None,
     o_reason = None, o_last_event = None, o_market = SPOT, o_pside = FLAT, o_reduce_only = False \<rparr>"

definition ex_levels :: levels where
  "ex_levels = [(''101'', \<lparr> bl_price = 101, bl_qty = 2 \<rparr>), (''100.05'', \<lparr> bl_price = 2001 / 20, bl_qty = 1 \<rparr>)]"

definition ex_sim :: sim where
  "ex_sim = sim_connect (put_sim_book ''BTCUSDT'' ((new_book ''BTCUSDT'' ''OKX'')\<lparr> ob_asks := ex_levels \<rparr>) (sim_init [] [] (1 / 1000) ''r1_''))"

lemma ex_levels_ok: "levels_ok ex_levels" "\<forall>l \<in> set (dict_values ex_levels). exact_amount 0 (bl_qty l)"
proof -
  have f: "format_decimal 101 = ret ''101''" "format_decimal (2001 / 20) = ret ''100.05''" by code_simp+
  have "price_ok 101" "price_ok (2001 / 20)" using hundredth_small(1) [of 10100] hundredth_small(1) [of 10005] by simp_all
  with f show "levels_ok ex_levels" by (simp add: levels_ok_def ex_levels_def dict_ok_def)
  show "\<forall>l \<in> set (dict_values ex_levels). exact_amount 0 (bl_qty l)"
    by (simp add: ex_levels_def dict_values_def exact_amount_def places_def)
qed

theorem submission_returns_witness:
  "\<exists>s' r. submit_order ex_gen 7 (ex_sim_order BUY None 2) (sim_connect (sim_init [] [] (1 / 1000) ''r1_'')) = Some (s', r) \<and> sim_reach s'"
proof -
  have "sim_reach (sim_connect (sim_init [] [] (1 / 1000) ''r1_''))"
    by (rule sim_reach.configured [OF sim_reach.started]) (simp add: sim_connect_def)
  from submission_returns [OF this] show ?thesis .
qed

lemma submission_walk:
  assumes "books_ok s" "map_of (sm_books s) (o_symbol raw) = Some b"
    and "\<not> sm_fill_before_ack s" "\<not> sm_duplicate_fill s"
    and "exact_amount k (o_qty raw)" "0 \<le> o_qty raw"
    and "\<forall>l \<in> set (dict_values (book_side (o_side raw) b)). exact_amount k (bl_qty l)"
    and "submit_order gen now raw s = Some (s', ret o')"
    and "fs = walk_levels (o_side raw) (order_limit raw) (o_qty raw) (trade_levels (o_side raw) (book_side (o_side raw) b))"
  shows "\<exists>ack opened fills. sm_log s' = sm_log s @ ack # opened # fills \<and> ee_type ack = EX_ORDER_ACK \<and>
      ee_type opened = EX_ORDER_OPENED \<and> map reported_fill fills = walk_reports fs \<and>
    o_filled o' = total_qty fs \<and> o_filled o' \<le> o_qty raw \<and>
    o_status o' = (if o_filled o' = 0 then ACKNOWLEDGED else if o_filled o' = o_qty raw then FILLED else PARTIALLY_FILLED)"
proof -
  define local where "local = local_order_for s raw"
  define s1 where "s1 = put_sim_order local (s\<lparr> sm_next := sm_next s + 1 \<rparr>)"
  have loc: "o_symbol local = o_symbol raw" "o_side local = o_side raw" "order_limit local = order_limit raw" "o_qty local = o_qty raw"
    "o_filled local = 0" "o_status local = status_after local"
    by (simp_all add: local_def local_order_for_def order_limit_def status_after_def)
  have me: "match_and_emit gen now local s1 = Some (s', ret o')"
    using assms(8) by (simp add: submit_order_def s1_def local_def Let_def split: sum.splits if_splits option.splits)
  obtain s2 ack where ack: "sim_order_event gen now EX_ORDER_ACK local [(''status'', JStr ''ACK'')] s1 = (s2, ret ack)"
    using me by (auto simp: match_and_emit_def split: prod.splits sum.splits)
  have s2: "sm_log s2 = sm_log s" "sm_books s2 = sm_books s" "\<not> sm_fill_before_ack s2" "\<not> sm_duplicate_fill s2"
    "map_of (sm_orders s2) (sim_key local) = Some local"
    using sim_frame_event [OF ack] assms(3,4) by (simp_all add: s1_def put_sim_order_def)
  obtain s3 fills where mo: "match_order gen now local s2 = Some (s3, ret fills)"
    using me ack by (auto simp: match_and_emit_def split: option.splits prod.splits sum.splits)
  have bk: "sim_book s2 (o_symbol local) = b" "map_of (sm_books s2) (o_symbol local) = Some b"
    using assms(2) by (simp_all add: sim_book_def s2(2) loc(1))
  have ml: "match_loop gen now (instrument_for s2 (o_symbol local)) (o_qty local) local [] s2 = Some (s3, ret fills)"
    using mo bk(2) by (simp add: match_order_def book_for_def)
  have "levels_ok (book_side (o_side local) b)"
    using books_ok_side [OF assms(1), of "o_side local" "o_symbol raw"] assms(2) by (simp add: sim_book_def)
  moreover have "order_exact k (o_qty local) local"
    using assms(5,6) loc by (simp add: order_exact_def) (simp add: exact_amount_def places_0)
  ultimately obtain o3 where w: "map reported_fill fills = walk_reports fs"
      "map_of (sm_orders s3) (sim_key local) = Some o3" "o_filled o3 = total_qty fs" "o_qty o3 = o_qty raw"
      "o_status o3 = status_after o3" "sm_log s3 = sm_log s2" "sm_fill_before_ack s3 = sm_fill_before_ack s2"
      "sm_duplicate_fill s3 = sm_duplicate_fill s2"
    using match_loop_walk [OF ml, of k fs] bk(1) loc s2(5) assms(7,9) by auto
  have st: "stored_order s3 local = o3" using w(2) by (simp add: stored_order_def)
  obtain s4 opened where op: "sim_order_event gen now EX_ORDER_OPENED o3 [(''status'', JStr ''OPEN'')] (sim_emit ack s3) = (s4, ret opened)"
      "s' = emit_all (opened # fills) s4" "o' = o3"
    using me ack mo s2 w(7,8) sim_frame_event
    by (fastforce simp: match_and_emit_def Let_def st sim_emit_def split: prod.splits sum.splits if_splits)
  have em: "sm_log (emit_all evs t) = sm_log t @ evs" for evs t
    by (induction evs arbitrary: t) (simp_all add: sim_emit_def)
  have "sm_log s' = sm_log s @ ack # opened # fills"
    using op(1,2) sim_frame_event [OF op(1)] w(6) s2(1) em by (simp add: sim_emit_def)
  moreover have "ee_type ack = EX_ORDER_ACK" "ee_type opened = EX_ORDER_OPENED"
    using ack op(1) by (auto simp: sim_order_event_def rbind_eq_Inr)
  moreover have "total_qty fs \<le> o_qty raw" using walk_levels_total [OF assms(6)] by (simp add: assms(9))
  ultimately show ?thesis using w op(3) by (auto simp: status_after_def)
qed

text \<open>C12: what a submission executes is the walk of the specification over the levels of the book from
  the best price on: the log gets the acknowledgement, the opening and then one fill event per step
  of the walk with its price and quantity; the order has the total of the walk, which is at most its
  quantity, and its status says whether that is nothing, a part or all.\<close>

theorem submission_walks_book:
  assumes "books_ok s" "map_of (sm_books s) (o_symbol raw) = Some b"
    and "\<not> sm_fill_before_ack s" "\<not> sm_duplicate_fill s"
    and "exact_amount k (o_qty raw)" "0 \<le> o_qty raw"
    and "\<forall>l \<in> set (dict_values (book_side (o_side raw) b)). exact_amount k (bl_qty l)"
    and "submit_order gen now raw s = Some (s', ret o')"
    and "fs = walk_levels (o_side raw) (order_limit raw) (o_qty raw) (trade_levels (o_side raw) (book_side (o_side raw) b))"
  shows "\<exists>ack opened fills. sm_log s' = sm_log s @ ack # opened # fills \<and> ee_type ack = EX_ORDER_ACK \<and>
      ee_type opened = EX_ORDER_OPENED \<and> map reported_fill fills = walk_reports fs \<and>
    o_filled o' = total_qty fs \<and> o_filled o' \<le> o_qty raw \<and>
    o_status o' = (if o_filled o' = 0 then ACKNOWLEDGED else if o_filled o' = o_qty raw then FILLED else PARTIALLY_FILLED)"
  using assms by (rule submission_walk)

declare match_loop.simps [code]

theorem submission_walks_book_witness:
  "\<exists>s' o' ack opened fills. submit_order ex_gen 7 (ex_sim_order BUY (Some 102) 2) ex_sim = Some (s', ret o') \<and>
     sm_log s' = ack # opened # fills \<and> map reported_fill fills = [(Some (2001 / 20), Some 1), (Some 101, Some 1)] \<and>
     o_status o' = FILLED"
proof -
  let ?raw = "ex_sim_order BUY (Some 102) 2"
  have b: "map_of (sm_books ex_sim) (o_symbol ?raw) = Some ((new_book ''BTCUSDT'' ''OKX'')\<lparr> ob_asks := ex_levels \<rparr>)"
    by (simp add: ex_sim_def ex_sim_order_def sim_connect_def)
  have ok: "books_ok ex_sim" using ex_levels_ok by (simp add: books_ok_def ex_sim_def sim_connect_def sim_init_def new_book_def)
  have "case submit_order ex_gen 7 ?raw ex_sim of Some (s', Inr o') \<Rightarrow> o_filled o' = 2 | _ \<Rightarrow> False" by code_simp
  then obtain s' o' where r: "submit_order ex_gen 7 ?raw ex_sim = Some (s', ret o')" "o_filled o' = 2"
    by (auto split: option.splits prod.splits sum.splits)
  have fs: "[(2001 / 20, 1), (101, 1)] = walk_levels (o_side ?raw) (order_limit ?raw) (o_qty ?raw)
      (trade_levels (o_side ?raw) (book_side (o_side ?raw) ((new_book ''BTCUSDT'' ''OKX'')\<lparr> ob_asks := ex_levels \<rparr>)))" by code_simp
  have "\<not> sm_fill_before_ack ex_sim" "\<not> sm_duplicate_fill ex_sim" "exact_amount 0 (o_qty ?raw)" "0 \<le> o_qty ?raw" "sm_log ex_sim = []" "o_qty ?raw = 2"
    "\<forall>l \<in> set (dict_values (book_side (o_side ?raw) ((new_book ''BTCUSDT'' ''OKX'')\<lparr> ob_asks := ex_levels \<rparr>))). exact_amount 0 (bl_qty l)"
    using ex_levels_ok(2)
    by (simp_all add: ex_sim_def sim_connect_def put_sim_book_def sim_init_def ex_sim_order_def exact_amount_def places_def book_side_def)
  with submission_walks_book [OF ok b _ _ _ _ _ r(1) fs, of 0] r show ?thesis by (auto simp: walk_reports_def)
qed

end
