(* ===== verification/Paper_Market.thy ===== *)
theory Paper_Market
  imports Matching Market_Gate
begin

text \<open>
  \<open>exchange/symbol_mapper.py\<close> and \<open>simulator/real_market_paper.py\<close>: the names of symbols at the
  venues, and paper trading against real prices. The public feed is not part of this program's
  state: \<open>feed\<close> gives its answer for a canonical symbol, \<open>fetch\<close> that of the order book endpoint.
\<close>

subsection \<open>Symbols\<close>

definition DEFAULT_TRADING_SYMBOLS :: "string list" where
  "DEFAULT_TRADING_SYMBOLS =
     [''BTCUSDT'', ''ETHUSDT'', ''SOLUSDT'', ''XRPUSDT'', ''BNBUSDT'', ''DOGEUSDT'', ''ADAUSDT'', ''AVAXUSDT'',
      ''LINKUSDT'', ''SUIUSDT'', ''LTCUSDT'', ''BCHUSDT'', ''DOTUSDT'', ''NEARUSDT'', ''APTUSDT'', ''ARBUSDT'',
      ''OPUSDT'', ''TONUSDT'', ''TRXUSDT'', ''UNIUSDT'', ''HYPEUSDT'', ''ZECUSDT'', ''ENAUSDT'', ''WLDUSDT'',
      ''ONDOUSDT'', ''FILUSDT'', ''TAOUSDT'', ''AAVEUSDT'', ''XLMUSDT'', ''HBARUSDT'']"

record symbol_mapping =
  sy_canonical :: string
  sy_binance :: string
  sy_okx :: string

definition removesuffix :: "string \<Rightarrow> string \<Rightarrow> string" where
  "removesuffix suf t = (if drop (length t - length suf) t = suf then take (length t - length suf) t else t)"

definition mapping_of :: "string \<Rightarrow> symbol_mapping" where
  "mapping_of sy = \<lparr> sy_canonical = sy, sy_binance = sy, sy_okx = removesuffix ''USDT'' sy @ ''-USDT-SWAP'' \<rparr>"

definition MAPPINGS :: "(string, symbol_mapping) dict" where
  "MAPPINGS = map (\<lambda>sy. (sy, mapping_of sy)) DEFAULT_TRADING_SYMBOLS"

definition to_binance :: "string \<Rightarrow> string res" where
  "to_binance c = (case map_of MAPPINGS (normalize_symbol c) of None \<Rightarrow> raise ValueError | Some m \<Rightarrow> ret (sy_binance m))"

definition to_okx :: "string \<Rightarrow> string res" where
  "to_okx c = (case map_of MAPPINGS (normalize_symbol c) of None \<Rightarrow> raise ValueError | Some m \<Rightarrow> ret (sy_okx m))"

definition to_canonical :: "string \<Rightarrow> string res" where
  "to_canonical raw =
     (let n = normalize_symbol raw in
      if map_of MAPPINGS n \<noteq> None then ret n
      else case List.find (\<lambda>m. n = sy_binance m \<or> n = sy_okx m) (dict_values MAPPINGS) of
             Some m \<Rightarrow> ret (sy_canonical m) | None \<Rightarrow> raise ValueError)"

subsection \<open>Real prices, simulated execution\<close>

type_synonym feed = "string \<Rightarrow> market_state res"

definition rm_get_orderbook ::
  "(string \<Rightarrow> (int \<times> (dec \<times> dec) list \<times> (dec \<times> dec) list) res) \<Rightarrow> usec \<Rightarrow> string \<Rightarrow> order_book res" where
  "rm_get_orderbook fetch now sy =
     (case rbind (to_canonical sy) (\<lambda>c. rbind (to_okx c) (\<lambda>p. rbind (fetch p) (\<lambda>(ts, bids, asks).
             case apply_snapshot ts bids asks now (new_book c ''OKX'') of (b, Inl e) \<Rightarrow> Inl e | (b, Inr _) \<Rightarrow> ret b))) of
        Inr b \<Rightarrow> ret b | Inl _ \<Rightarrow> raise MarketDataUnhealthy)"

definition real_book :: "usec \<Rightarrow> string \<Rightarrow> market_state \<Rightarrow> order_book \<times> unit res" where
  "real_book now c st = apply_snapshot \<lfloor>total_seconds now\<rfloor> [(mk_bid st, 1)] [(mk_ask st, 1)] now (new_book c ''OKX'')"

definition refresh_market_state :: "feed \<Rightarrow> usec \<Rightarrow> string \<Rightarrow> sim \<Rightarrow> sim \<times> market_state res" where
  "refresh_market_state feed now sy s =
     (case to_canonical sy of
        Inl e \<Rightarrow> (s, Inl e)
      | Inr c \<Rightarrow>
          (case feed c of
             Inl e \<Rightarrow> (s, Inl e)
           | Inr st \<Rightarrow>
               if 0 < mk_bid st \<and> 0 < mk_ask st then
                 (case real_book now c st of
                    (b, Inl e) \<Rightarrow> (s, Inl e)
                  | (b, Inr _) \<Rightarrow>
                      ((put_sim_book c b s)\<lparr> sm_seq := AList.update c (case ob_seq b of Some n \<Rightarrow> n | None \<Rightarrow> 0) (sm_seq s) \<rparr>,
                       ret st))
               else (s, ret st)))"

definition rm_submit_order :: "feed \<Rightarrow> id_gen \<Rightarrow> usec \<Rightarrow> order \<Rightarrow> sim \<Rightarrow> (sim \<times> order res) option" where
  "rm_submit_order feed gen now raw s =
     (case to_canonical (o_symbol raw) of
        Inl e \<Rightarrow> Some (s, Inl (Exn ExchangeError (''REAL_REFERENCE_PRICE_UNAVAILABLE for '' @ o_symbol raw)))
      | Inr c \<Rightarrow>
          (case refresh_market_state feed now c s of
             (s1, Inl e) \<Rightarrow> Some (s1, Inl (Exn ExchangeError (''REAL_REFERENCE_PRICE_UNAVAILABLE for '' @ o_symbol raw)))
           | (s1, Inr st) \<Rightarrow>
               if mk_bid st \<le> 0 \<or> mk_ask st \<le> 0
               then Some (s1, Inl (Exn ExchangeError (''REAL_REFERENCE_PRICE_UNAVAILABLE for '' @ o_symbol raw)))
               else submit_order gen now raw s1))"

subsection \<open>The price of a paper fill\<close>

lemma mapping_known: "map_of MAPPINGS c \<noteq> None \<longleftrightarrow> c \<in> set DEFAULT_TRADING_SYMBOLS"
  by (simp add: MAPPINGS_def map_of_eq_None_iff image_image)

lemma mapping_values: "m \<in> set (dict_values MAPPINGS) \<Longrightarrow> sy_canonical m \<in> set DEFAULT_TRADING_SYMBOLS"
  by (auto simp: MAPPINGS_def dict_values_def mapping_of_def)

lemma canonical_known:
  assumes "to_canonical raw = ret c"
  shows "c \<in> set DEFAULT_TRADING_SYMBOLS"
proof (cases "map_of MAPPINGS (normalize_symbol raw) = None")
  case True
  then obtain m where "List.find (\<lambda>m. normalize_symbol raw = sy_binance m \<or> normalize_symbol raw = sy_okx m) (dict_values MAPPINGS) = Some m"
      "c = sy_canonical m"
    using assms by (auto simp: to_canonical_def Let_def split: option.splits)
  then have "m \<in> set (dict_values MAPPINGS)" by (auto simp: find_Some_iff)
  then show ?thesis using mapping_values \<open>c = sy_canonical m\<close> by simp
next
  case False
  then show ?thesis using assms mapping_known by (auto simp: to_canonical_def Let_def)
qed

lemma canonical_again: "c \<in> set DEFAULT_TRADING_SYMBOLS \<Longrightarrow> to_canonical c = ret c"
proof -
  have "list_all (\<lambda>sy. to_canonical sy = ret sy) DEFAULT_TRADING_SYMBOLS" by code_simp
  then show "c \<in> set DEFAULT_TRADING_SYMBOLS \<Longrightarrow> to_canonical c = ret c" by (simp add: list_all_iff)
qed

definition real_price :: "order_side \<Rightarrow> market_state \<Rightarrow> dec" where
  "real_price side st = (if side = BUY then mk_ask st else mk_bid st)"

text \<open>The book that is made from the real prices has one level per side.\<close>

lemma real_book_levels:
  assumes "real_book now c st = (b, ret ())"
  shows "\<exists>kb ka. format_decimal (mk_bid st) = ret kb \<and> format_decimal (mk_ask st) = ret ka \<and>
    ob_bids b = [(kb, \<lparr> bl_price = mk_bid st, bl_qty = 1 \<rparr>)] \<and> ob_asks b = [(ka, \<lparr> bl_price = mk_ask st, bl_qty = 1 \<rparr>)]"
  using assms
  by (cases "format_decimal (mk_bid st)"; cases "format_decimal (mk_ask st)")
    (auto simp: real_book_def apply_snapshot_def upsert_both_def upsert_one_def new_book_def)

lemma real_book_ok:
  assumes "real_book now c st = (b, ret ())" "places m (mk_bid st)" "places n (mk_ask st)"
  shows "levels_ok (ob_bids b)" "levels_ok (ob_asks b)"
  using real_book_levels [OF assms(1)] assms(2,3) by (auto simp: levels_ok_def price_ok_def dict_ok_def)

lemma trade_levels_single: "trade_levels side [(k, l)] = [l]"
  by (simp add: trade_levels_def sorted_levels_def dict_values_def)

lemma priced_submission:
  assumes "books_ok s" "o_symbol raw \<in> set DEFAULT_TRADING_SYMBOLS" "\<not> sm_fill_before_ack s" "\<not> sm_duplicate_fill s"
    and "exact_amount k (o_qty raw)" "exact_amount k 1" "0 < o_qty raw"
    and "feed (o_symbol raw) = ret st" "places m (mk_bid st)" "places n (mk_ask st)"
    and "rm_submit_order feed gen now raw s = Some (s', r)"
  shows "if mk_bid st \<le> 0 \<or> mk_ask st \<le> 0 then s' = s \<and> (\<exists>msg. r = Inl (Exn ExchangeError msg))
    else (\<forall>o'. r = ret o' \<longrightarrow> (\<exists>ack opened fills. sm_log s' = sm_log s @ ack # opened # fills \<and>
      map reported_fill fills =
        (if beyond_limit (o_side raw) (order_limit raw) (real_price (o_side raw) st) then []
         else [(Some (real_price (o_side raw) st), Some (min (o_qty raw) 1))])))"
proof (cases "mk_bid st \<le> 0 \<or> mk_ask st \<le> 0")
  case True
  then have "refresh_market_state feed now (o_symbol raw) s = (s, ret st)"
    using assms(2,8) by (auto simp: refresh_market_state_def canonical_again)
  then show ?thesis using True assms(2,11) by (auto simp: rm_submit_order_def canonical_again)
next
  case False
  show ?thesis
  proof (cases "real_book now (o_symbol raw) st")
    case (Pair b q)
    show ?thesis
    proof (cases q)
      case (Inl e)
      then have "refresh_market_state feed now (o_symbol raw) s = (s, Inl e)"
        using assms(2,8) Pair False by (simp add: refresh_market_state_def canonical_again)
      then show ?thesis using False assms(2,11) by (auto simp: rm_submit_order_def canonical_again)
    next
      case (Inr u)
      define s1 where "s1 = (put_sim_book (o_symbol raw) b s)
        \<lparr> sm_seq := AList.update (o_symbol raw) (case ob_seq b of Some n \<Rightarrow> n | None \<Rightarrow> 0) (sm_seq s) \<rparr>"
      have "refresh_market_state feed now (o_symbol raw) s = (s1, ret st)"
        using assms(2,8) Pair Inr False by (simp add: refresh_market_state_def canonical_again s1_def)
      then have sub: "submit_order gen now raw s1 = Some (s', r)"
        using False assms(2,11) by (simp add: rm_submit_order_def canonical_again)
      have rb: "real_book now (o_symbol raw) st = (b, ret ())" using Pair Inr by simp
      obtain kb ka where lv: "ob_bids b = [(kb, \<lparr> bl_price = mk_bid st, bl_qty = 1 \<rparr>)]" "ob_asks b = [(ka, \<lparr> bl_price = mk_ask st, bl_qty = 1 \<rparr>)]"
        using real_book_levels [OF rb] by blast
      obtain key where side: "book_side (o_side raw) b = [(key, \<lparr> bl_price = real_price (o_side raw) st, bl_qty = 1 \<rparr>)]"
        by (cases "o_side raw") (auto simp: book_side_def real_price_def lv)
      have s1: "books_ok s1" "map_of (sm_books s1) (o_symbol raw) = Some b" "\<not> sm_fill_before_ack s1" "\<not> sm_duplicate_fill s1"
          "sm_log s1 = sm_log s"
        using assms(1,3,4) real_book_ok [OF rb assms(9,10)] by (simp_all add: s1_def books_ok_def put_sim_book_def)
      have ex: "\<forall>l \<in> set (dict_values (book_side (o_side raw) b)). exact_amount k (bl_qty l)"
        using assms(6) by (simp add: side dict_values_def)
      have walk: "walk_levels (o_side raw) (order_limit raw) (o_qty raw) (trade_levels (o_side raw) (book_side (o_side raw) b)) =
          (if beyond_limit (o_side raw) (order_limit raw) (real_price (o_side raw) st) then []
           else [(real_price (o_side raw) st, min (o_qty raw) 1)])"
        using assms(7) by (simp add: side trade_levels_single)
      have "\<exists>ack opened fills. sm_log s' = sm_log s @ ack # opened # fills \<and>
          map reported_fill fills = (if beyond_limit (o_side raw) (order_limit raw) (real_price (o_side raw) st) then []
            else [(Some (real_price (o_side raw) st), Some (min (o_qty raw) 1))])" if o': "r = ret o'" for o'
        using submission_walk [OF s1(1-4) assms(5) _ ex sub [unfolded o'] walk [symmetric]] assms(7) s1(5)
        by (fastforce simp: walk_reports_def)
      then show ?thesis using False by simp
    qed
  qed
qed

text \<open>C39: with a symbol in its canonical form, whatever the book was before and whatever the feed answers: when the
  feed fails, or its prices are not positive, nothing is executed, the exchange is unchanged and the submission raises
  \<open>ExchangeError\<close>; otherwise an order that is accepted is executed at the real price of this refresh only, within its
  limit and for at most the one unit that the refreshed book offers. No price is ever made up.\<close>

theorem paper_fills_at_real_price:
  assumes "books_ok s" "o_symbol raw \<in> set DEFAULT_TRADING_SYMBOLS" "\<not> sm_fill_before_ack s" "\<not> sm_duplicate_fill s"
    and "exact_amount k (o_qty raw)" "exact_amount k 1" "0 < o_qty raw"
    and "\<And>st. feed (o_symbol raw) = ret st \<Longrightarrow> places m (mk_bid st) \<and> places n (mk_ask st)"
    and "rm_submit_order feed gen now raw s = Some (s', r)"
  shows "case feed (o_symbol raw) of
      Inl e \<Rightarrow> s' = s \<and> (\<exists>msg. r = Inl (Exn ExchangeError msg))
    | Inr st \<Rightarrow>
        if mk_bid st \<le> 0 \<or> mk_ask st \<le> 0 then s' = s \<and> (\<exists>msg. r = Inl (Exn ExchangeError msg))
        else (\<forall>o'. r = ret o' \<longrightarrow> (\<exists>ack opened fills. sm_log s' = sm_log s @ ack # opened # fills \<and>
          map reported_fill fills =
            (if beyond_limit (o_side raw) (order_limit raw) (if o_side raw = BUY then mk_ask st else mk_bid st) then []
             else [(Some (if o_side raw = BUY then mk_ask st else mk_bid st), Some (min (o_qty raw) 1))])))"
proof (cases "feed (o_symbol raw)")
  case (Inl e)
  then have "refresh_market_state feed now (o_symbol raw) s = (s, Inl e)"
    using assms(2) by (simp add: refresh_market_state_def canonical_again)
  then show ?thesis using Inl assms(2,9) by (auto simp: rm_submit_order_def canonical_again)
next
  case (Inr st)
  then have "places m (mk_bid st)" "places n (mk_ask st)" using assms(8) by simp_all
  then show ?thesis
    using priced_submission [OF assms(1-7) Inr _ _ assms(9)] Inr unfolding real_price_def by simp
qed

definition ex_market :: market_state where
  "ex_market = (new_market_state ''BTCUSDT'' 0)\<lparr> mk_bid := 64999, mk_ask := 65000 \<rparr>"

theorem paper_fills_at_real_price_witness:
  "(\<exists>s' o' ack opened fills. rm_submit_order (\<lambda>_. ret ex_market) ex_gen 7 (ex_sim_order BUY None 1) ex_sim = Some (s', ret o') \<and>
     sm_log s' = ack # opened # fills \<and> map reported_fill fills = [(Some 65000, Some 1)]) \<and>
   (\<exists>msg. rm_submit_order (\<lambda>_. raise ConnectionError) ex_gen 7 (ex_sim_order BUY None 1) ex_sim = Some (ex_sim, Inl (Exn ExchangeError msg)))"
proof
  let ?raw = "ex_sim_order BUY None 1"
  have ok: "books_ok ex_sim" using ex_levels_ok by (simp add: books_ok_def ex_sim_def sim_connect_def sim_init_def new_book_def)
  have c: "o_symbol ?raw \<in> set DEFAULT_TRADING_SYMBOLS" "\<not> sm_fill_before_ack ex_sim" "\<not> sm_duplicate_fill ex_sim"
      "exact_amount 0 (o_qty ?raw)" "exact_amount 0 1" "0 < o_qty ?raw"
    by (simp_all add: ex_sim_def sim_connect_def put_sim_book_def sim_init_def ex_sim_order_def exact_amount_def places_def DEFAULT_TRADING_SYMBOLS_def)
  have m: "sm_log ex_sim = []" "mk_bid ex_market = 64999" "mk_ask ex_market = 65000" "o_qty ?raw = 1" "o_side ?raw = BUY" "order_limit ?raw = None"
      "places 0 64999" "places 0 65000"
    by (simp_all add: ex_sim_def sim_connect_def put_sim_book_def sim_init_def ex_sim_order_def places_def ex_market_def
        new_market_state_def order_limit_def)
  have "case rm_submit_order (\<lambda>_. ret ex_market) ex_gen 7 ?raw ex_sim of Some (s', Inr o') \<Rightarrow> True | _ \<Rightarrow> False" by code_simp
  then obtain s' o' where r: "rm_submit_order (\<lambda>_. ret ex_market) ex_gen 7 ?raw ex_sim = Some (s', ret o')"
    by (auto split: option.splits prod.splits sum.splits)
  have p: "places 0 (mk_bid st) \<and> places 0 (mk_ask st)" if "ret ex_market = (ret st :: market_state res)" for st
    using that m by simp
  show "\<exists>s' o' ack opened fills. rm_submit_order (\<lambda>_. ret ex_market) ex_gen 7 ?raw ex_sim = Some (s', ret o') \<and>
     sm_log s' = ack # opened # fills \<and> map reported_fill fills = [(Some 65000, Some 1)]"
    using paper_fills_at_real_price [OF ok c p r] r m by (simp add: beyond_limit_def)
  have "case rm_submit_order (\<lambda>_. raise ConnectionError) ex_gen 7 ?raw ex_sim of Some _ \<Rightarrow> True | _ \<Rightarrow> False" by code_simp
  then obtain t q where f: "rm_submit_order (\<lambda>_. raise ConnectionError) ex_gen 7 ?raw ex_sim = Some (t, q)"
    by (auto split: option.splits)
  show "\<exists>msg. rm_submit_order (\<lambda>_. raise ConnectionError) ex_gen 7 ?raw ex_sim = Some (ex_sim, Inl (Exn ExchangeError msg))"
    using paper_fills_at_real_price [OF ok c _ f, of 0 0] f by auto
qed

text \<open>
  The refreshed book is stored under the canonical name, and matching looks for the name that the
  order has. An order whose symbol is an accepted alias is executed on the made-up book around 100:
  with a real ask of 65000 a market buy for \<open>btcusdt\<close> is filled at 100.05.
\<close>

lemma alias_filled_at_made_up_price:
  "case rm_submit_order (\<lambda>_. ret ex_market) ex_gen 7 ((ex_sim_order BUY None 1)\<lparr> o_symbol := ''btcusdt'' \<rparr>) ex_sim of
     Some (s', Inr o') \<Rightarrow> o_status o' = FILLED \<and> o_avg o' = Some (2001 / 20) | _ \<Rightarrow> False"
  by code_simp

end
