(* ===== verification/Reconciliation.thy ===== *)
theory Reconciliation
  imports Matching
begin

text \<open>
  \<open>reconciliation/service.py\<close>: the replayed ledger compared with the balances and positions that an
  exchange reports. The answers of the exchange are arguments, \<open>arrange\<close> is the unspecified order in
  which Python iterates over a set. A balance is kept as its decimal, where the code keeps \<open>str\<close> of
  it and reads it back with \<open>D\<close>.
\<close>

subsection \<open>The comparison\<close>

definition RECON_EXCLUDED :: "ledger_entry_type list" where
  "RECON_EXCLUDED = [FUTURES_MARGIN_POST, FUTURES_MARGIN_RELEASE, FUTURES_REALIZED_PNL, FUTURES_TRADING_FEE,
     FUNDING_PAYMENT, FUNDING_RECEIPT]"

record recon_report =
  rc_run :: string
  rc_ok :: bool
  rc_halt :: bool
  rc_alerts :: "string list"
  rc_local :: "(string, dec) dict"
  rc_exchange :: "(string, dec) dict"
  rc_diff :: meta

record recon_row =
  rr_run :: string
  rr_compared :: usec
  rr_status :: string
  rr_local :: "(string, dec) dict"
  rr_exchange :: "(string, dec) dict"
  rr_diff :: meta
  rr_alerts :: "string list"

fun keyed :: "('a \<Rightarrow> string) \<Rightarrow> ('a \<Rightarrow> 'b) \<Rightarrow> 'a list \<Rightarrow> (string, 'b) dict \<Rightarrow> (string, 'b) dict" where
  "keyed k f [] d = d"
| "keyed k f (x # xs) d = keyed k f xs (AList.update (k x) (f x) d)"

definition dict_dec :: "(string, dec) dict \<Rightarrow> string \<Rightarrow> dec" where
  "dict_dec d c = (case map_of d c of Some x \<Rightarrow> x | None \<Rightarrow> 0)"

definition covered_currencies :: "(string, position_view) dict \<Rightarrow> (string, position) dict \<Rightarrow> string list" where
  "covered_currencies local exch =
     concat (map (\<lambda>(sy, lp). case map_of exch sy of
       Some ep \<Rightarrow> if pv_qty lp = p_qty ep then [pv_base lp, p_base ep] else [] | None \<Rightarrow> []) local)"

definition balance_alert :: "(string, dec) dict \<Rightarrow> (string, dec) dict \<Rightarrow> string list \<Rightarrow> string \<Rightarrow> string list res" where
  "balance_alert local exch covered c =
     (if c \<in> set covered then ret []
      else if dict_dec local c \<noteq> dict_dec exch c then
        rbind (format_decimal (dict_dec local c)) (\<lambda>a. rbind (format_decimal (dict_dec exch c)) (\<lambda>b.
          ret [''BALANCE_MISMATCH '' @ c @ '': local='' @ a @ '' exchange='' @ b]))
      else ret [])"

definition exchange_qty :: "(string, position) dict \<Rightarrow> string \<Rightarrow> dec" where
  "exchange_qty exch sy = (case map_of exch sy of Some p \<Rightarrow> p_qty p | None \<Rightarrow> 0)"

definition qty_diff :: "dec \<Rightarrow> dec \<Rightarrow> json" where
  "qty_diff l x = JObj [(''local_quantity'', JDec l), (''exchange_quantity'', JDec x)]"

definition position_alert :: "(string, position) dict \<Rightarrow> string \<times> position_view \<Rightarrow> meta \<times> string list \<Rightarrow> (meta \<times> string list) res" where
  "position_alert exch x acc =
     (let sy = fst x; l = pv_qty (snd x); q = exchange_qty exch sy in
      if l \<noteq> q then
        rbind (format_decimal l) (\<lambda>a. rbind (format_decimal q) (\<lambda>b.
          ret (AList.update sy (qty_diff l q) (fst acc),
               snd acc @ [''POSITION_MISMATCH '' @ sy @ '': local='' @ a @ '' exchange='' @ b])))
      else ret acc)"

definition extra_alert :: "(string, position) dict \<Rightarrow> string \<Rightarrow> meta \<times> string list \<Rightarrow> (meta \<times> string list) res" where
  "extra_alert exch sy acc =
     rbind (format_decimal (exchange_qty exch sy)) (\<lambda>q.
       ret (AList.update sy (qty_diff 0 (exchange_qty exch sy)) (fst acc),
            snd acc @ [''POSITION_ONLY_ON_EXCHANGE '' @ sy @ '': '' @ q]))"

definition starts_with :: "string \<Rightarrow> string \<Rightarrow> bool" where
  "starts_with p t \<longleftrightarrow> take (length p) t = p"

definition halting :: "string \<Rightarrow> bool" where
  "halting a \<longleftrightarrow> starts_with ''BALANCE_MISMATCH'' a \<or> starts_with ''POSITION_MISMATCH'' a"

definition compare ::
  "(string list \<Rightarrow> string list) \<Rightarrow> string \<Rightarrow> snapshot \<Rightarrow> balance list \<Rightarrow> position list \<Rightarrow> recon_report res" where
  "compare arrange run sn balances positions =
     (let exch_bal = keyed b_ccy b_total balances [];
          local_bal = map (\<lambda>(c, r). (c, br_total r)) (sn_balances sn);
          exch_pos = keyed p_symbol id positions [];
          local_pos = sn_positions sn;
          covered = covered_currencies local_pos exch_pos;
          currencies = sort (remdups (map fst local_bal @ map fst exch_bal));
          extra = arrange (filter (\<lambda>sy. map_of local_pos sy = None) (map fst exch_pos))
      in rbind (map_res (balance_alert local_bal exch_bal covered) currencies) (\<lambda>bal.
         rbind (rfold (position_alert exch_pos) local_pos ([], concat bal)) (\<lambda>acc.
         rbind (rfold (extra_alert exch_pos) extra acc) (\<lambda>(diff, alerts).
           ret \<lparr> rc_run = run, rc_ok = (alerts = []), rc_halt = list_ex halting alerts, rc_alerts = alerts,
                 rc_local = local_bal, rc_exchange = exch_bal, rc_diff = diff \<rparr>))))"

definition reconcile ::
  "(string list \<Rightarrow> string list) \<Rightarrow> string \<Rightarrow> usec \<Rightarrow> ledger_db \<Rightarrow> balance list res \<Rightarrow> position list res \<Rightarrow> recon_row list
     \<Rightarrow> recon_row list \<times> recon_report res" where
  "reconcile arrange run now db balances positions rows =
     (case rbind (replay_projections db [] ''default'' RECON_EXCLUDED) (\<lambda>sn. rbind balances (\<lambda>bs. rbind positions (\<lambda>ps.
             compare arrange run sn bs ps))) of
        Inl e \<Rightarrow> (rows, Inl e)
      | Inr rep \<Rightarrow>
          (rows @ [\<lparr> rr_run = run, rr_compared = now, rr_status = (if rc_ok rep then ''OK'' else ''ALERT''),
             rr_local = rc_local rep, rr_exchange = rc_exchange rep, rr_diff = rc_diff rep, rr_alerts = rc_alerts rep \<rparr>],
           ret rep))"

subsection \<open>What halts\<close>

lemma keyed_append: "keyed k f (xs @ ys) d = keyed k f ys (keyed k f xs d)"
  by (induction xs arbitrary: d) simp_all

lemma halting_simps [simp]:
  "halting (''BALANCE_MISMATCH '' @ t)" "halting (''POSITION_MISMATCH '' @ t)" "\<not> halting (''POSITION_ONLY_ON_EXCHANGE '' @ t)"
  by (simp_all add: halting_def starts_with_def)

lemma balance_alerts:
  "map_res (balance_alert local exch covered) cs = ret bal \<Longrightarrow>
   (concat bal = [] \<longleftrightarrow> (\<forall>c \<in> set cs. c \<in> set covered \<or> dict_dec local c = dict_dec exch c)) \<and>
   (list_ex halting (concat bal) \<longleftrightarrow> (\<exists>c \<in> set cs. c \<notin> set covered \<and> dict_dec local c \<noteq> dict_dec exch c))"
proof (induction cs arbitrary: bal)
  case (Cons c cs)
  then obtain y ys where y: "balance_alert local exch covered c = ret y" "map_res (balance_alert local exch covered) cs = ret ys"
    "bal = y # ys" by (auto simp: rbind_eq_Inr)
  have "(y = [] \<longleftrightarrow> c \<in> set covered \<or> dict_dec local c = dict_dec exch c) \<and>
      (list_ex halting y \<longleftrightarrow> c \<notin> set covered \<and> dict_dec local c \<noteq> dict_dec exch c)"
    using y(1) halting_simps(1) by (auto simp: balance_alert_def rbind_eq_Inr split: if_splits)
  then show ?case using Cons.IH [OF y(2)] y(3) by auto
qed simp

lemma position_alerts:
  "rfold (position_alert exch) ps acc = ret acc' \<Longrightarrow>
   (snd acc' = [] \<longleftrightarrow> snd acc = [] \<and> (\<forall>x \<in> set ps. pv_qty (snd x) = exchange_qty exch (fst x))) \<and>
   (list_ex halting (snd acc') \<longleftrightarrow> list_ex halting (snd acc) \<or> (\<exists>x \<in> set ps. pv_qty (snd x) \<noteq> exchange_qty exch (fst x)))"
proof (induction ps arbitrary: acc)
  case (Cons x ps)
  then obtain a1 where a1: "position_alert exch x acc = ret a1" "rfold (position_alert exch) ps a1 = ret acc'"
    by (auto simp: rbind_eq_Inr)
  have "(snd a1 = [] \<longleftrightarrow> snd acc = [] \<and> pv_qty (snd x) = exchange_qty exch (fst x)) \<and>
      (list_ex halting (snd a1) \<longleftrightarrow> list_ex halting (snd acc) \<or> pv_qty (snd x) \<noteq> exchange_qty exch (fst x))"
    using a1(1) halting_simps(2) by (auto simp: position_alert_def Let_def rbind_eq_Inr split: if_splits)
  then show ?case using Cons.IH [OF a1(2)] by auto
qed simp

lemma extra_alerts:
  "rfold (extra_alert exch) xs acc = ret acc' \<Longrightarrow>
   (snd acc' = [] \<longleftrightarrow> snd acc = [] \<and> xs = []) \<and> (list_ex halting (snd acc') \<longleftrightarrow> list_ex halting (snd acc))"
proof (induction xs arbitrary: acc)
  case (Cons x xs)
  then obtain a1 where a1: "extra_alert exch x acc = ret a1" "rfold (extra_alert exch) xs a1 = ret acc'"
    by (auto simp: rbind_eq_Inr)
  have "snd a1 \<noteq> []" "list_ex halting (snd a1) \<longleftrightarrow> list_ex halting (snd acc)"
    using a1(1) halting_simps(3) by (auto simp: extra_alert_def rbind_eq_Inr)
  then show ?case using Cons.IH [OF a1(2)] by auto
qed simp

text \<open>The comparison in terms of balances and quantities.\<close>

definition exch_balance :: "balance list \<Rightarrow> string \<Rightarrow> dec" where
  "exch_balance bs c = dict_dec (keyed b_ccy b_total bs []) c"

definition covered :: "snapshot \<Rightarrow> position list \<Rightarrow> string \<Rightarrow> bool" where
  "covered sn ps c \<longleftrightarrow> c \<in> set (covered_currencies (sn_positions sn) (keyed p_symbol id ps []))"

definition balance_drift :: "snapshot \<Rightarrow> balance list \<Rightarrow> position list \<Rightarrow> bool" where
  "balance_drift sn bs ps \<longleftrightarrow> (\<exists>c. \<not> covered sn ps c \<and> sn_balance sn c \<noteq> exch_balance bs c)"

definition position_drift :: "snapshot \<Rightarrow> position list \<Rightarrow> bool" where
  "position_drift sn ps \<longleftrightarrow> (\<exists>(sy, v) \<in> set (sn_positions sn). pv_qty v \<noteq> exchange_qty (keyed p_symbol id ps []) sy)"

definition foreign_position :: "snapshot \<Rightarrow> position list \<Rightarrow> bool" where
  "foreign_position sn ps \<longleftrightarrow> (\<exists>p \<in> set ps. map_of (sn_positions sn) (p_symbol p) = None)"

lemma dict_dec_local: "dict_dec (map (\<lambda>(c, r). (c, br_total r)) bs) c = (case map_of bs c of Some r \<Rightarrow> br_total r | None \<Rightarrow> 0)"
  by (induction bs) (auto simp: dict_dec_def)

lemma dict_dec_absent: "c \<notin> set (map fst d) \<Longrightarrow> dict_dec d c = 0"
  by (simp add: dict_dec_def) (metis map_of_eq_None_iff option.simps(4))

lemma keyed_keys: "set (map fst (keyed k f xs d)) = set (map k xs) \<union> set (map fst d)"
proof (induction xs arbitrary: d)
  case (Cons x xs)
  have "set (map fst (AList.update (k x) (f x) d)) = insert (k x) (set (map fst d))" by (simp add: dom_update [symmetric] dom_map_of_conv_image_fst [symmetric])
  with Cons show ?case by auto
qed simp

lemma compare_verdict:
  assumes "compare arrange run sn bs ps = ret rep" "\<And>xs. set (arrange xs) = set xs"
  shows "rc_halt rep \<longleftrightarrow> balance_drift sn bs ps \<or> position_drift sn ps"
    and "rc_ok rep \<longleftrightarrow> \<not> balance_drift sn bs ps \<and> \<not> position_drift sn ps \<and> \<not> foreign_position sn ps"
proof -
  define eb where "eb = keyed b_ccy b_total bs []"
  define lb where "lb = map (\<lambda>(c, r). (c, br_total r)) (sn_balances sn)"
  define ep where "ep = keyed p_symbol id ps []"
  define cs where "cs = sort (remdups (map fst lb @ map fst eb))"
  define extra where "extra = arrange (filter (\<lambda>sy. map_of (sn_positions sn) sy = None) (map fst ep))"
  obtain bal acc acc' where r:
    "map_res (balance_alert lb eb (covered_currencies (sn_positions sn) ep)) cs = ret bal"
    "rfold (position_alert ep) (sn_positions sn) ([], concat bal) = ret acc"
    "rfold (extra_alert ep) extra acc = ret acc'"
    "rc_ok rep = (snd acc' = [])" "rc_halt rep = list_ex halting (snd acc')"
    using assms(1)
    by (auto simp: compare_def Let_def rbind_eq_Inr eb_def [symmetric] lb_def [symmetric] ep_def [symmetric]
        cs_def [symmetric] extra_def [symmetric])
  have drift: "balance_drift sn bs ps \<longleftrightarrow>
      (\<exists>c \<in> set cs. c \<notin> set (covered_currencies (sn_positions sn) ep) \<and> dict_dec lb c \<noteq> dict_dec eb c)"
  proof -
    have "dict_dec lb c = dict_dec eb c" if "c \<notin> set cs" for c
      using that dict_dec_absent [of c lb] dict_dec_absent [of c eb] by (simp add: cs_def)
    moreover have "sn_balance sn c = dict_dec lb c" for c by (simp add: sn_balance_def lb_def dict_dec_local)
    ultimately show ?thesis by (auto simp: balance_drift_def covered_def exch_balance_def eb_def [symmetric] ep_def [symmetric])
  qed
  have pd: "position_drift sn ps \<longleftrightarrow> (\<exists>x \<in> set (sn_positions sn). pv_qty (snd x) \<noteq> exchange_qty ep (fst x))"
    by (simp add: position_drift_def ep_def case_prod_unfold)
  have "set (map fst ep) = p_symbol ` set ps" using keyed_keys [of p_symbol id ps "[]"] by (simp add: ep_def)
  moreover have "extra = [] \<longleftrightarrow> set extra = {}" by simp
  ultimately have ex: "extra = [] \<longleftrightarrow> \<not> foreign_position sn ps"
    by (auto simp: extra_def assms(2) foreign_position_def)
  show "rc_halt rep \<longleftrightarrow> balance_drift sn bs ps \<or> position_drift sn ps"
    using r(4,5) extra_alerts [OF r(3)] position_alerts [OF r(2)] balance_alerts [OF r(1)] drift pd by auto
  show "rc_ok rep \<longleftrightarrow> \<not> balance_drift sn bs ps \<and> \<not> position_drift sn ps \<and> \<not> foreign_position sn ps"
    using r(4,5) extra_alerts [OF r(3)] position_alerts [OF r(2)] balance_alerts [OF r(1)] drift pd ex by auto
qed

text \<open>C19: reconciliation halts trading exactly if a balance of a currency that no agreeing position
  covers differs from the replayed ledger, or a replayed position has another quantity at the exchange.
  It is in order exactly if, besides, the exchange has no position that the ledger lacks; such a
  position is reported and never halts.\<close>

theorem reconciliation_verdict:
  assumes "\<And>xs. set (arrange xs) = set xs"
    and "reconcile arrange run now db balances positions rows = (rows', ret rep)"
  shows "\<exists>sn bs ps. replay_projections db [] ''default'' RECON_EXCLUDED = ret sn \<and> balances = ret bs \<and> positions = ret ps \<and>
    (rc_halt rep \<longleftrightarrow> balance_drift sn bs ps \<or> position_drift sn ps) \<and>
    (rc_ok rep \<longleftrightarrow> \<not> rc_halt rep \<and> \<not> foreign_position sn ps) \<and>
    (\<exists>row. rows' = rows @ [row] \<and> rr_status row = (if rc_ok rep then ''OK'' else ''ALERT''))"
proof -
  obtain sn bs ps where r: "replay_projections db [] ''default'' RECON_EXCLUDED = ret sn" "balances = ret bs" "positions = ret ps"
      "compare arrange run sn bs ps = ret rep"
    using assms(2) by (auto simp: reconcile_def rbind_eq_Inr split: sum.splits)
  then show ?thesis using assms(2) compare_verdict [OF r(4) assms(1)] by (auto simp: reconcile_def)
qed

theorem reconciliation_verdict_witness:
  "\<exists>rows' rep. reconcile (\<lambda>xs. xs) ''r1'' 0 [] (ret [\<lparr> b_ccy = ''USDT'', b_total = 5, b_available = 5, b_frozen = 0 \<rparr>]) (ret []) [] = (rows', ret rep) \<and>
     rc_halt rep \<and> \<not> rc_ok rep"
proof -
  let ?b = "[\<lparr> b_ccy = ''USDT'', b_total = 5, b_available = 5, b_frozen = 0 \<rparr>]"
  have "case snd (reconcile (\<lambda>xs. xs) ''r1'' 0 [] (ret ?b) (ret []) []) of Inr _ \<Rightarrow> True | Inl _ \<Rightarrow> False" by code_simp
  then obtain rows' rep where r: "reconcile (\<lambda>xs. xs) ''r1'' 0 [] (ret ?b) (ret []) [] = (rows', ret rep)"
    by (metis case_InrD prod.collapse)
  have e: "replay_projections [] [] ''default'' RECON_EXCLUDED = ret (empty_snapshot ''default'')"
    by (simp add: replay_projections_def list_transactions_def builder_init_def)
  have "balance_drift (empty_snapshot ''default'') ?b []"
    by (auto simp: balance_drift_def covered_def covered_currencies_def empty_snapshot_def sn_balance_def exch_balance_def dict_dec_def
        intro!: exI [of _ "''USDT''"])
  then show ?thesis using reconciliation_verdict [OF _ r] r e by auto
qed

subsection \<open>After hydration\<close>

definition keys_ok :: "snapshot \<Rightarrow> bool" where
  "keys_ok sn \<longleftrightarrow> dict_ok (sn_balances sn) \<and> dict_ok (sn_positions sn)"

lemma keys_ok_refresh [simp]: "keys_ok (refresh_equity sn) = keys_ok sn"
  by (simp add: keys_ok_def refresh_equity_def)

lemma keys_ok_set_balance: "keys_ok sn \<Longrightarrow> keys_ok (set_balance c x sn)"
  by (simp add: keys_ok_def set_balance_def refresh_equity_def)

lemma keys_ok_entries: "keys_ok sn \<Longrightarrow> keys_ok (apply_entries es sn)"
proof (induction es arbitrary: sn)
  case (Cons e es)
  have "keys_ok (apply_entry e sn)"
    using Cons.prems keys_ok_set_balance by (simp add: apply_entry_def Let_def) (auto simp: keys_ok_def set_balance_def refresh_equity_def)
  then show ?case using Cons.IH by simp
qed simp

lemma keys_ok_trade: "apply_trade m sn = ret sn' \<Longrightarrow> keys_ok sn \<Longrightarrow> keys_ok sn'"
  by (auto simp: apply_trade_def Let_def rbind_eq_Inr keys_ok_def refresh_equity_def split: order_side.splits prod.splits)
    (metis order_side.exhaust)+

lemma keys_ok_transaction:
  assumes "apply_transaction x sn = ret sn'" "keys_ok sn"
  shows "keys_ok sn'"
proof -
  have k: "keys_ok (apply_entries (sort_key le_seq (x_entries x)) sn)" using keys_ok_entries [OF assms(2)] .
  show ?thesis
    using assms(1) k keys_ok_trade
    by (auto simp: apply_transaction_def Let_def rbind_eq_Inr keys_ok_def refresh_equity_def
        split: ledger_entry_type.splits)
qed

lemma replay_keys_ok: "replay_projections db [] acc ex = ret sn \<Longrightarrow> keys_ok sn"
  unfolding replay_projections_def
  by (erule rfold_inv [rotated]) (auto simp: replay_step_def builder_init_def empty_snapshot_def keys_ok_def
      intro: keys_ok_transaction split: if_splits dest: keys_ok_transaction [unfolded keys_ok_def])

lemma map_of_keyed: "distinct (map k xs) \<Longrightarrow> map_of (keyed k f xs d) c = (case map_of (map (\<lambda>x. (k x, f x)) xs) c of
    Some y \<Rightarrow> Some y | None \<Rightarrow> map_of d c)"
proof (induction xs arbitrary: d)
  case (Cons x xs)
  then have "map_of (map (\<lambda>x. (k x, f x)) xs) (k x) = None" by (simp add: map_of_eq_None_iff image_image)
  with Cons show ?case by (auto split: option.splits)
qed simp

lemma no_format_needed:
  "(\<And>c. c \<in> set cs \<Longrightarrow> dict_dec l c = dict_dec e c) \<Longrightarrow> map_res (balance_alert l e cov) cs = ret (replicate (length cs) [])"
  by (induction cs) (simp_all add: balance_alert_def)

lemma no_position_format_needed:
  "(\<And>x. x \<in> set ps \<Longrightarrow> pv_qty (snd x) = exchange_qty ep (fst x)) \<Longrightarrow> rfold (position_alert ep) ps acc = ret acc"
  by (induction ps) (simp_all add: position_alert_def)

lemma compare_agreeing:
  assumes "\<And>c. sn_balance sn c = exch_balance bs c" "\<not> position_drift sn ps" "\<not> foreign_position sn ps" "\<And>xs. set (arrange xs) = set xs"
  shows "\<exists>rep. compare arrange run sn bs ps = ret rep \<and> rc_ok rep \<and> \<not> rc_halt rep"
proof -
  have l: "dict_dec (map (\<lambda>(c, r). (c, br_total r)) (sn_balances sn)) c = dict_dec (keyed b_ccy b_total bs []) c" for c
    using assms(1) [of c] by (simp add: sn_balance_def dict_dec_local exch_balance_def)
  have p: "pv_qty (snd x) = exchange_qty (keyed p_symbol id ps []) (fst x)" if "x \<in> set (sn_positions sn)" for x
    using assms(2) that by (auto simp: position_drift_def)
  have "set (map fst (keyed p_symbol id ps [])) = p_symbol ` set ps" using keyed_keys [of p_symbol id ps "[]"] by simp
  then have "set (arrange (filter (\<lambda>sy. map_of (sn_positions sn) sy = None) (map fst (keyed p_symbol id ps [])))) = {}"
    using assms(3) by (auto simp: assms(4) foreign_position_def)
  then have e: "arrange (filter (\<lambda>sy. map_of (sn_positions sn) sy = None) (map fst (keyed p_symbol id ps []))) = []" by simp
  have "concat (replicate n []) = []" for n by (induction n) simp_all
  then show ?thesis
    using e by (simp add: compare_def Let_def no_format_needed [OF l] no_position_format_needed [OF p] del: map_of_eq_None_iff)
qed

lemma exch_balance_hydrated:
  assumes "dict_ok d"
  shows "exch_balance (map (\<lambda>(c, x). \<lparr> b_ccy = c, b_total = x, b_available = x, b_frozen = 0 \<rparr>) (sort_key fst d)) c = dict_dec d c"
proof -
  let ?bs = "map (\<lambda>(c, x). \<lparr> b_ccy = c, b_total = x, b_available = x, b_frozen = 0 \<rparr>) (sort_key fst d)"
  have "mset (map fst (sort_key fst d)) = mset (map fst d)" by simp
  then have dis: "distinct (map fst (sort_key fst d))" using assms by (metis dict_ok_def mset_eq_imp_distinct_iff)
  have b: "map b_ccy ?bs = map fst (sort_key fst d)" "map (\<lambda>x. (b_ccy x, b_total x)) ?bs = sort_key fst d"
    by (simp_all add: case_prod_unfold o_def)
  have "map_of (keyed b_ccy b_total ?bs []) c = map_of (sort_key fst d) c"
    using map_of_keyed [of b_ccy ?bs b_total "[]" c] dis unfolding b by (simp split: option.splits)
  moreover have "map_of (sort_key fst d) = map_of d"
    using assms dis by (intro map_of_inject_set [THEN iffD2]) (simp_all add: dict_ok_def)
  ultimately show ?thesis by (simp add: exch_balance_def dict_dec_def)
qed

lemma exchange_qty_hydrated:
  "distinct (map fst d) \<Longrightarrow>
   (case map_of (map (\<lambda>p. (p_symbol p, p)) (map (\<lambda>(sy, v). position_of_view sy v) (filter (\<lambda>(_, v). pv_qty v \<noteq> 0) d))) c of
      Some p \<Rightarrow> p_qty p | None \<Rightarrow> 0) = (case map_of d c of Some v \<Rightarrow> pv_qty v | None \<Rightarrow> 0)"
proof (induction d)
  case (Cons x d)
  obtain k v where x: "x = (k, v)" by force
  have "map_of d k = None" using Cons.prems by (simp add: x map_of_eq_None_iff)
  then show ?case using Cons by (auto simp: x position_of_view_def)
qed simp

text \<open>An exchange that has just been hydrated from a ledger with balances agrees with it: the
  reconciliation that follows is in order and does not halt, whatever the ledger holds.\<close>

theorem hydrated_exchange_reconciles:
  assumes "hydrate_from_ledger db s = (s', ret ())" "sm_connected s" "\<not> sm_disconnected s"
    and "replay_projections db [] ''default'' RECON_EXCLUDED = ret sn" "sn_balances sn \<noteq> []"
    and "\<And>xs. set (arrange xs) = set xs"
  shows "\<exists>rows' rep. reconcile arrange run now db (sim_get_balances s') (sim_get_positions s') rows = (rows', ret rep) \<and>
    rc_ok rep \<and> \<not> rc_halt rep"
proof -
  have x: "FUTURES_EXCLUDED_ENTRY_TYPES = RECON_EXCLUDED" by (simp add: FUTURES_EXCLUDED_ENTRY_TYPES_def RECON_EXCLUDED_def)
  have k: "dict_ok (sn_balances sn)" "dict_ok (sn_positions sn)"
    using replay_keys_ok [OF assms(4)] by (simp_all add: keys_ok_def)
  define d where "d = map (\<lambda>(c, r). (c, br_total r)) (sn_balances sn)"
  define ps where "ps = map (\<lambda>(sy, v). position_of_view sy v) (filter (\<lambda>(_, v). pv_qty v \<noteq> 0) (sn_positions sn))"
  define bs where "bs = map (\<lambda>(c, x). \<lparr> b_ccy = c, b_total = x, b_available = x, b_frozen = 0 \<rparr>) (sort_key fst d)"
  have s': "s' = s\<lparr> sm_balances := d, sm_positions := map (\<lambda>(sy, v). (sy, position_of_view sy v)) (filter (\<lambda>(_, v). pv_qty v \<noteq> 0) (sn_positions sn)) \<rparr>"
    using assms(1,4,5) by (simp add: hydrate_from_ledger_def x d_def)
  have q: "sim_get_balances s' = ret bs" "sim_get_positions s' = ret ps"
    using assms(2,3) by (simp_all add: s' sim_get_balances_def sim_get_positions_def ensure_connected_def bs_def ps_def
        dict_values_def case_prod_unfold)
  have "map fst d = map fst (sn_balances sn)" by (simp add: d_def case_prod_unfold o_def)
  then have "dict_ok d" using k(1) by (simp add: dict_ok_def)
  then have bal: "sn_balance sn c = exch_balance bs c" for c
    by (simp add: bs_def exch_balance_hydrated d_def sn_balance_def dict_dec_local)
  have sy: "map p_symbol ps = map fst (filter (\<lambda>(_, v). pv_qty v \<noteq> 0) (sn_positions sn))"
    by (simp add: ps_def position_of_view_def case_prod_unfold o_def)
  have dis: "distinct (map p_symbol ps)" using k(2) unfolding sy by (auto simp: dict_ok_def distinct_map intro: inj_on_subset)
  have key: "map_of (keyed p_symbol id ps []) c = map_of (map (\<lambda>p. (p_symbol p, p)) ps) c" for c
    using map_of_keyed [OF dis, of id "[]" c] by (simp split: option.split)
  have pq: "exchange_qty (keyed p_symbol id ps []) c = (case map_of (sn_positions sn) c of Some v \<Rightarrow> pv_qty v | None \<Rightarrow> 0)" for c
    unfolding exchange_qty_def key unfolding ps_def by (rule exchange_qty_hydrated) (use k(2) in \<open>simp add: dict_ok_def\<close>)
  have "\<not> position_drift sn ps"
    using k(2) by (auto simp: position_drift_def pq dict_ok_def)
  moreover have "\<not> foreign_position sn ps"
    by (auto simp: foreign_position_def ps_def position_of_view_def map_of_eq_None_iff intro: rev_image_eqI)
  ultimately obtain rep where rep: "compare arrange run sn bs ps = ret rep" "rc_ok rep" "\<not> rc_halt rep"
    using compare_agreeing [OF bal _ _ assms(6)] by blast
  then show ?thesis by (simp add: reconcile_def assms(4) q)
qed

theorem hydrated_exchange_reconciles_witness:
  "\<exists>s' rows' rep. hydrate_from_ledger ex_ledger ex_sim = (s', ret ()) \<and>
     reconcile (\<lambda>xs. xs) ''r1'' 0 ex_ledger (sim_get_balances s') (sim_get_positions s') [] = (rows', ret rep) \<and> rc_ok rep"
proof -
  have "case replay_projections ex_ledger [] ''default'' RECON_EXCLUDED of Inr sn \<Rightarrow> sn_balances sn \<noteq> [] | Inl _ \<Rightarrow> False" by code_simp
  then obtain sn where sn: "replay_projections ex_ledger [] ''default'' RECON_EXCLUDED = ret sn" "sn_balances sn \<noteq> []"
    by (auto dest: case_InrD)
  have x: "FUTURES_EXCLUDED_ENTRY_TYPES = RECON_EXCLUDED" by (simp add: FUTURES_EXCLUDED_ENTRY_TYPES_def RECON_EXCLUDED_def)
  obtain s' where h: "hydrate_from_ledger ex_ledger ex_sim = (s', ret ())" using sn by (simp add: hydrate_from_ledger_def x)
  have c: "sm_connected ex_sim" "\<not> sm_disconnected ex_sim" by (simp_all add: ex_sim_def sim_connect_def)
  from hydrated_exchange_reconciles [OF h c sn, of "\<lambda>xs. xs" "''r1''" 0 "[]"] h show ?thesis by auto
qed

end
