(* ===== verification/Recovery.thy ===== *)
theory Recovery
  imports Order_Manager Matching Audit_Trail
begin

text \<open>
  \<open>runtime/recovery.py\<close>: after a restart, every open order is compared with what the exchange says
  of it. The exchange is the argument \<open>query\<close>, which may answer differently to every order it is
  asked about; \<open>cb\<close> settles a fill that is applied, as for \<open>apply_fill_settling\<close>. The quantity
  in the identifier of a recovery fill is printed without trailing zeros.
\<close>

definition event_type_for_exchange_status :: "order_status \<Rightarrow> order_event_type" where
  "event_type_for_exchange_status st =
     (case st of
        ACKNOWLEDGED \<Rightarrow> ORDER_ACKNOWLEDGED | OPEN \<Rightarrow> ORDER_OPENED | PARTIALLY_FILLED \<Rightarrow> ORDER_PARTIALLY_FILLED
      | FILLED \<Rightarrow> ORDER_FILLED | CANCELLED \<Rightarrow> ORDER_CANCELLED | CANCEL_PENDING \<Rightarrow> ORDER_CANCEL_PENDING
      | REJECTED \<Rightarrow> ORDER_REJECTED | EXPIRED \<Rightarrow> ORDER_EXPIRED | UNKNOWN \<Rightarrow> ORDER_UNKNOWN | _ \<Rightarrow> ORDER_UNKNOWN)"

datatype recovery_action =
    MissingOrderId string | NotOnExchange string | RecoveryFill string dec | RecoveryPartialFill string dec
  | StatusChange string order_status order_status

record 'w recovery =
  rv_db :: om_db
  rv_world :: 'w
  rv_actions :: "recovery_action list"

record 'w recovery_env =
  re_gen :: id_gen
  re_now :: usec
  re_run :: "string option"
  re_audit :: bool
  re_settle :: "om_db \<Rightarrow> fill \<Rightarrow> 'w \<Rightarrow> 'w \<times> unit res"
  re_ids :: "'w \<Rightarrow> nat"
  re_advance :: "nat \<Rightarrow> 'w \<Rightarrow> 'w"
  re_log :: "audit_event \<Rightarrow> 'w \<Rightarrow> 'w"

definition fresh_ids :: "id_gen \<Rightarrow> nat \<Rightarrow> fill_ids" where
  "fresh_ids gen n = \<lparr> fi_last = gen ''evt'' n, fi_event = gen ''evt'' (n + 1), fi_trade = gen ''trade'' (n + 2) \<rparr>"

definition add_action :: "recovery_action \<Rightarrow> 'w recovery \<Rightarrow> 'w recovery" where
  "add_action a s = s\<lparr> rv_actions := rv_actions s @ [a] \<rparr>"

text \<open>One operation of the order manager, with the next two identifiers: the event's and one that the
  operation makes itself. An exception leaves what was committed.\<close>

definition take_ids :: "'w recovery_env \<Rightarrow> nat \<Rightarrow> 'w recovery \<Rightarrow> 'w recovery" where
  "take_ids env n s = s\<lparr> rv_world := re_advance env n (rv_world s) \<rparr>"

definition next_id :: "'w recovery_env \<Rightarrow> 'w recovery \<Rightarrow> nat" where
  "next_id env s = re_ids env (rv_world s)"

definition with_om :: "'w recovery_env \<Rightarrow> (string \<Rightarrow> string \<Rightarrow> om_db \<Rightarrow> om_db \<times> 'r res) \<Rightarrow> 'w recovery \<Rightarrow> 'w recovery \<times> 'r res" where
  "with_om env f s =
     (case f (re_gen env ''evt'' (next_id env s)) (re_gen env ''evt'' (next_id env s + 1)) (rv_db s) of
        (db, r) \<Rightarrow> ((take_ids env 2 s)\<lparr> rv_db := db \<rparr>, r))"

definition reject_during_recovery :: "'w recovery_env \<Rightarrow> order \<Rightarrow> string \<Rightarrow> recovery_action \<Rightarrow> 'w recovery \<Rightarrow> 'w recovery \<times> unit res" where
  "reject_during_recovery env local reason act s =
     (case with_om env (\<lambda>eid new db. om_reject db new (re_now env) (o_id local) reason (Some eid)) s of
        (s1, Inl e) \<Rightarrow> (s1, Inl e) | (s1, Inr _) \<Rightarrow> (add_action act s1, ret ()))"

definition exchange_id_text :: "order \<Rightarrow> string" where
  "exchange_id_text x = (case o_exchange x of Some t \<Rightarrow> t | None \<Rightarrow> ''None'')"

definition recovery_fill :: "'w recovery_env \<Rightarrow> nat \<Rightarrow> string \<Rightarrow> order \<Rightarrow> order \<Rightarrow> fill" where
  "recovery_fill env n fid local x =
     \<lparr> f_id = fid, f_trade = Some (re_gen env ''trade'' n), f_order = o_id local, f_client = Some (o_client local),
       f_exchange = o_exchange x, f_symbol = o_symbol local, f_side = o_side local,
       f_price = dec_or (o_avg x) (dec_or (o_price x) 0), f_qty = dsub (o_filled x) (o_filled local), f_fee = 0,
       f_fee_ccy = None, f_time = re_now env, f_payload = [(''recovery'', JBool True)] \<rparr>"

definition full_fill_id :: "order \<Rightarrow> string" where
  "full_fill_id x = ''recovery_'' @ exchange_id_text x @ ''_'' @ map (\<lambda>c. if c = CHR ''.'' then CHR ''_'' else c) (plain_text (o_filled x))"

definition partial_fill_id :: "order \<Rightarrow> string" where
  "partial_fill_id x = ''recovery_'' @ exchange_id_text x @ ''_partial''"

definition apply_recovery_fill ::
  "'w recovery_env \<Rightarrow> fill \<Rightarrow> recovery_action \<Rightarrow> 'w recovery \<Rightarrow> 'w recovery \<times> unit res" where
  "apply_recovery_fill env f act s =
     (let ids = fresh_ids (re_gen env) (next_id env s + 1); committed = fst (apply_fill (rv_db s) ids f)
      in case apply_fill_settling (re_settle env committed) (rv_db s, rv_world (take_ids env 4 s)) ids f of
        ((db, w), r) \<Rightarrow>
          (let s1 = s\<lparr> rv_db := db, rv_world := w \<rparr>
           in case r of Inl e \<Rightarrow> (s1, Inl e) | Inr _ \<Rightarrow> (add_action act s1, ret ())))"

definition recover_full_fill :: "'w recovery_env \<Rightarrow> order \<Rightarrow> order \<Rightarrow> 'w recovery \<Rightarrow> 'w recovery \<times> unit res" where
  "recover_full_fill env local x s =
     (if o_status x = FILLED \<and> o_filled local < o_filled x then
        (let f = recovery_fill env (next_id env s) (full_fill_id x) local x
         in apply_recovery_fill env f (RecoveryFill (o_client local) (f_qty f)) s)
      else (s, ret ()))"

definition recover_status :: "'w recovery_env \<Rightarrow> order \<Rightarrow> order \<Rightarrow> 'w recovery \<Rightarrow> 'w recovery \<times> unit res" where
  "recover_status env local x s =
     (let st = o_status x; oid = o_id local; now = re_now env;
          step = (if st \<in> set [OPEN, ACKNOWLEDGED] then
                    with_om env (\<lambda>eid new db. om_transition db new now oid (event_type_for_exchange_status st)
                                    (no_args\<lparr> ea_event_id := Some eid, ea_exchange := o_exchange x \<rparr>)) s
                  else if st = CANCELLED then with_om env (\<lambda>eid new db. om_cancel_confirm db new now oid (Some eid)) s
                  else if st = REJECTED then
                    with_om env (\<lambda>eid new db. om_reject db new now oid
                                    (case or_str (o_reason x) None of Some t \<Rightarrow> t | None \<Rightarrow> ''rejected on exchange'') (Some eid)) s
                  else if st = EXPIRED then with_om env (\<lambda>eid new db. om_expire db new now oid) s
                  else (s, ret local))
      in case step of
           (s1, Inl e) \<Rightarrow> (s1, Inl e)
         | (s1, Inr _) \<Rightarrow> (add_action (StatusChange (o_client local) (o_status local) st) s1, ret ()))"

definition recover_rest :: "'w recovery_env \<Rightarrow> order \<Rightarrow> order \<Rightarrow> 'w recovery \<Rightarrow> 'w recovery \<times> unit res" where
  "recover_rest env local x s =
     (if o_status x = PARTIALLY_FILLED \<and> o_filled local < o_filled x then
        (let f = recovery_fill env (next_id env s) (partial_fill_id x) local x
         in apply_recovery_fill env f (RecoveryPartialFill (o_client local) (f_qty f)) s)
      else if o_status x \<noteq> o_status local then recover_status env local x s
      else (s, ret ()))"

definition log_recovery :: "'w recovery_env \<Rightarrow> order \<Rightarrow> order \<Rightarrow> 'w recovery \<Rightarrow> 'w recovery" where
  "log_recovery env local x s =
     (if re_audit env then
        (let row = audit_row (re_gen env) (next_id env s) (re_now env) ''RECOVERY_RECONCILE''
           \<lparr> aa_target = o_client local, aa_run = re_run env, aa_order = Some (o_id local), aa_client = Some (o_client local),
             aa_exchange = o_exchange local, aa_before = [(''status'', JStr (status_text (o_status local)))],
             aa_after = [(''status'', JStr (status_text (o_status x)))] \<rparr>
         in s\<lparr> rv_world := re_log env row (re_advance env 2 (rv_world s)) \<rparr>)
      else s)"

definition recover_one ::
  "'w recovery_env \<Rightarrow> (string \<Rightarrow> string \<Rightarrow> order res) \<Rightarrow> order \<Rightarrow> 'w recovery \<Rightarrow> 'w recovery \<times> unit res" where
  "recover_one env query local s =
     (case or_str (o_exchange local) (Some (o_client local)) of
        None \<Rightarrow> (s, ret ())
      | Some key \<Rightarrow>
          if key = [] then
            reject_during_recovery env local ''no exchange/client order id during recovery; no blind resubmit''
              (MissingOrderId (o_client local)) s
          else
            (case query (o_symbol local) key of
               Inl e \<Rightarrow>
                 if catches [OrderNotFound] e then
                   reject_during_recovery env local ''order not found on exchange during recovery; no blind resubmit''
                     (NotOnExchange (o_client local)) s
                 else (s, Inl e)
             | Inr x \<Rightarrow>
                 (case recover_full_fill env local x s of
                    (s1, Inl e) \<Rightarrow> (s1, Inl e)
                  | (s1, Inr _) \<Rightarrow>
                      (case recover_rest env local x s1 of
                         (s2, Inl e) \<Rightarrow> (s2, Inl e)
                       | (s2, Inr _) \<Rightarrow> (log_recovery env local x s2, ret ())))))"

fun recover_all ::
  "'w recovery_env \<Rightarrow> (nat \<Rightarrow> string \<Rightarrow> string \<Rightarrow> order res) \<Rightarrow> nat \<Rightarrow> order list \<Rightarrow> 'w recovery \<Rightarrow> 'w recovery \<times> unit res" where
  "recover_all env query n [] s = (s, ret ())"
| "recover_all env query n (local # rest) s =
     (case recover_one env (query n) local s of
        (s1, Inl e) \<Rightarrow> (s1, Inl e)
      | (s1, Inr _) \<Rightarrow> recover_all env query (Suc n) rest s1)"

definition recover ::
  "'w recovery_env \<Rightarrow> (nat \<Rightarrow> string \<Rightarrow> string \<Rightarrow> order res) \<Rightarrow> 'w recovery \<Rightarrow> 'w recovery \<times> recovery_action list res" where
  "recover env query s =
     (case recover_all env query 0 (list_open (rv_db s)) (s\<lparr> rv_actions := [] \<rparr>) of
        (s1, Inl e) \<Rightarrow> (s1, Inl e) | (s1, Inr _) \<Rightarrow> (s1, ret (rv_actions s1)))"

subsection \<open>What a recovery can do to the tables\<close>

text \<open>Transitions and fills of the orders with the ids \<open>ids\<close>.\<close>

inductive recovery_moves :: "string set \<Rightarrow> om_db \<Rightarrow> om_db \<Rightarrow> bool" for ids db where
  stay: "recovery_moves ids db db"
| event: "recovery_moves ids db db1 \<Longrightarrow> oid \<in> ids \<Longrightarrow> recovery_moves ids db (fst (om_transition db1 new now oid ety a))"
| filled: "recovery_moves ids db db1 \<Longrightarrow> 0 \<le> f_qty f \<Longrightarrow> f_order f \<in> ids \<Longrightarrow> recovery_moves ids db (fst (apply_fill db1 is f))"

lemma with_om_apply:
  assumes "with_om env f s = (s', r)"
  shows "rv_db s' = fst (f (re_gen env ''evt'' (next_id env s)) (re_gen env ''evt'' (next_id env s + 1)) (rv_db s))"
    "rv_world s' = re_advance env 2 (rv_world s)"
  using assms by (auto simp: with_om_def take_ids_def split: prod.splits)

lemma take_ids_simps [simp]: "rv_db (take_ids env n s) = rv_db s" "rv_world (take_ids env n s) = re_advance env n (rv_world s)"
  by (simp_all add: take_ids_def)

lemma add_action_simps [simp]: "rv_db (add_action a s) = rv_db s" "rv_world (add_action a s) = rv_world s"
  by (simp_all add: add_action_def)

lemma settling_db: "fst (fst (apply_fill_settling cb (db, w) is f)) = fst (apply_fill db is f)"
  by (auto simp: apply_fill_settling_def split: prod.splits sum.splits bool.splits)

lemma recovery_fill_fields [simp]:
  "f_order (recovery_fill env n fid local x) = o_id local" "f_qty (recovery_fill env n fid local x) = dsub (o_filled x) (o_filled local)"
  "f_id (recovery_fill env n fid local x) = fid" "f_exchange (recovery_fill env n fid local x) = o_exchange x"
  "f_trade (recovery_fill env n fid local x) = Some (re_gen env ''trade'' n)"
  by (simp_all add: recovery_fill_def)

lemma dsub_nonneg: "b < a \<Longrightarrow> 0 \<le> dsub a b"
  using dround_pos [of "a - b"] by (simp add: dsub_def)

text \<open>One fill of a recovery as the order manager runs it.\<close>

lemma apply_recovery_fill_settles:
  assumes "apply_recovery_fill env f act s = (s', r)"
  obtains ids q where "ids = fresh_ids (re_gen env) (next_id env s + 1)"
    "apply_fill_settling (re_settle env (fst (apply_fill (rv_db s) ids f))) (rv_db s, re_advance env 4 (rv_world s)) ids f =
       ((rv_db s', rv_world s'), q)"
proof -
  define ids where "ids = fresh_ids (re_gen env) (next_id env s + 1)"
  define cb where "cb = re_settle env (fst (apply_fill (rv_db s) ids f))"
  obtain db w q where a: "apply_fill_settling cb (rv_db s, rv_world (take_ids env 4 s)) ids f = ((db, w), q)" by (metis prod.collapse)
  have "(s', r) = (let s1 = s\<lparr> rv_db := db, rv_world := w \<rparr> in case q of Inl e \<Rightarrow> (s1, Inl e) | Inr _ \<Rightarrow> (add_action act s1, ret ()))"
    using assms a unfolding apply_recovery_fill_def ids_def [symmetric] by (simp add: Let_def cb_def [symmetric])
  then have "rv_db s' = db" "rv_world s' = w" by (cases q; simp)+
  with a that [OF ids_def] show ?thesis by (simp add: cb_def)
qed

lemma settled_fill_db:
  assumes "apply_recovery_fill env f act s = (s', r)"
  shows "rv_db s' = fst (apply_fill (rv_db s) (fresh_ids (re_gen env) (next_id env s + 1)) f)"
proof -
  from assms obtain ids q where "ids = fresh_ids (re_gen env) (next_id env s + 1)"
    "apply_fill_settling (re_settle env (fst (apply_fill (rv_db s) ids f))) (rv_db s, re_advance env 4 (rv_world s)) ids f =
       ((rv_db s', rv_world s'), q)"
    by (rule apply_recovery_fill_settles)
  then show ?thesis using settling_db by (metis fst_conv)
qed

text \<open>What every step of a recovery keeps, the whole recovery keeps; \<open>ids\<close> are the orders it may touch.\<close>

locale recovery_steps =
  fixes env :: "'w recovery_env" and ids :: "string set" and P :: "om_db \<Rightarrow> 'w \<Rightarrow> bool"
  assumes event: "P db w \<Longrightarrow> oid \<in> ids \<Longrightarrow> P (fst (om_transition db new now oid ety a)) w"
    and advance: "P db w \<Longrightarrow> P db (re_advance env n w)"
    and logged: "P db w \<Longrightarrow> P db (re_log env row w)"
    and filled: "P db w \<Longrightarrow> 0 \<le> f_qty f \<Longrightarrow> f_order f \<in> ids \<Longrightarrow>
      apply_fill_settling (re_settle env (fst (apply_fill db is f))) (db, w) is f = ((db', w'), r) \<Longrightarrow> P db' w'"
begin

definition keeps :: "'w recovery \<Rightarrow> bool" where
  "keeps s \<longleftrightarrow> P (rv_db s) (rv_world s)"

lemma keeps_simps [simp]: "keeps (add_action a s) = keeps s" "keeps (s\<lparr> rv_actions := acts \<rparr>) = keeps s"
  by (simp_all add: keeps_def)

lemma om_ops:
  assumes "P db w" "oid \<in> ids"
  shows "P (fst (om_reject db new now oid t e)) w" "P (fst (om_cancel_confirm db new now oid e)) w" "P (fst (om_expire db new now oid)) w"
  using event [OF assms] by (simp_all add: om_reject_def om_cancel_confirm_def om_expire_def)

lemma with_om_keeps:
  assumes "with_om env f s = (s', r)" "keeps s" "\<And>new eid db. P db (rv_world s) \<Longrightarrow> P (fst (f new eid db)) (rv_world s)"
  shows "keeps s'"
  using with_om_apply [OF assms(1)] advance [OF assms(3)] assms(2) by (simp add: keeps_def)

lemma reject_keeps:
  assumes "reject_during_recovery env local reason act s = (s', r)" "keeps s" "o_id local \<in> ids"
  shows "keeps s'"
  using assms(1) om_ops(1) [OF _ assms(3)]
  by (auto simp: reject_during_recovery_def split: prod.splits sum.splits dest!: with_om_keeps [OF _ assms(2)])

lemma fill_keeps:
  assumes "apply_recovery_fill env f act s = (s', r)" "keeps s" "0 \<le> f_qty f" "f_order f \<in> ids"
  shows "keeps s'"
  using assms(1)
proof (rule apply_recovery_fill_settles)
  fix js q
  assume "apply_fill_settling (re_settle env (fst (apply_fill (rv_db s) js f))) (rv_db s, re_advance env 4 (rv_world s)) js f =
    ((rv_db s', rv_world s'), q)"
  then show ?thesis using filled [OF advance assms(3,4)] assms(2) by (simp add: keeps_def)
qed

lemma full_fill_keeps:
  "recover_full_fill env local x s = (s', r) \<Longrightarrow> keeps s \<Longrightarrow> o_id local \<in> ids \<Longrightarrow> keeps s'"
  using fill_keeps dsub_nonneg by (auto simp: recover_full_fill_def Let_def split: if_splits)

lemma status_keeps:
  assumes "recover_status env local x s = (s', r)" "keeps s" "o_id local \<in> ids"
  shows "keeps s'"
  using assms(1) om_ops [OF _ assms(3)] event [OF _ assms(3)] assms(2)
  by (auto simp: recover_status_def Let_def split: if_splits prod.splits sum.splits dest!: with_om_keeps [OF _ assms(2)])

lemma rest_keeps:
  "recover_rest env local x s = (s', r) \<Longrightarrow> keeps s \<Longrightarrow> o_id local \<in> ids \<Longrightarrow> keeps s'"
  using fill_keeps dsub_nonneg status_keeps by (auto simp: recover_rest_def Let_def split: if_splits)

lemma log_keeps: "keeps s \<Longrightarrow> keeps (log_recovery env local x s)"
  using logged advance by (simp add: log_recovery_def Let_def keeps_def)

lemma one_keeps:
  assumes "recover_one env query local s = (s', r)" "keeps s" "o_id local \<in> ids"
  shows "keeps s'"
proof (cases "or_str (o_exchange local) (Some (o_client local))")
  case None
  then show ?thesis using assms(1,2) by (simp add: recover_one_def)
next
  case (Some key)
  show ?thesis
  proof (cases "key = [] \<or> (\<exists>e. query (o_symbol local) key = Inl e)")
    case True
    then show ?thesis using assms Some reject_keeps [OF _ assms(2,3)]
      by (auto simp: recover_one_def split: if_splits)
  next
    case False
    then obtain x where x: "key \<noteq> []" "query (o_symbol local) key = Inr x" by (cases "query (o_symbol local) key") auto
    obtain s1 r1 where f: "recover_full_fill env local x s = (s1, r1)" by force
    have m1: "keeps s1" using full_fill_keeps [OF f assms(2,3)] .
    obtain s2 r2 where q: "recover_rest env local x s1 = (s2, r2)" by force
    have "keeps s2" using rest_keeps [OF q m1 assms(3)] .
    then show ?thesis using assms(1) Some x f q m1 log_keeps
      by (cases r1; cases r2) (auto simp: recover_one_def)
  qed
qed

lemma all_keeps:
  "recover_all env query n locals s = (s', r) \<Longrightarrow> keeps s \<Longrightarrow> o_id ` set locals \<subseteq> ids \<Longrightarrow> keeps s'"
proof (induction locals arbitrary: n s)
  case (Cons l ls)
  obtain s1 r1 where o: "recover_one env (query n) l s = (s1, r1)" by force
  have "keeps s1" using one_keeps [OF o Cons.prems(2)] Cons.prems(3) by simp
  then show ?case using Cons.IH Cons.prems o by (cases r1) auto
qed simp

lemma recover_keeps:
  assumes "recover env query s = (s', r)" "P (rv_db s) (rv_world s)" "o_id ` set (list_open (rv_db s)) \<subseteq> ids"
  shows "P (rv_db s') (rv_world s')"
proof -
  obtain s1 r1 where a: "recover_all env query 0 (list_open (rv_db s)) (s\<lparr> rv_actions := [] \<rparr>) = (s1, r1)" by force
  have "s' = s1" using assms(1) a by (cases r1) (auto simp: recover_def)
  then show ?thesis using all_keeps [OF a] assms(2,3) by (simp add: keeps_def)
qed

end

interpretation moved: recovery_steps env ids "\<lambda>db1 _. recovery_moves ids db db1" for env ids db
proof
  fix db1 w js f db' w' r
  assume "recovery_moves ids db db1" "0 \<le> f_qty f" "f_order f \<in> ids"
    and "apply_fill_settling (re_settle env (fst (apply_fill db1 js f))) (db1, w) js f = ((db', w'), r)"
  then show "recovery_moves ids db db'"
    using recovery_moves.filled settling_db by (metis fst_conv)
qed (auto intro: recovery_moves.event)

lemma recover_moves:
  "recover env query s = (s', r) \<Longrightarrow> recovery_moves (o_id ` set (list_open (rv_db s))) (rv_db s) (rv_db s')"
  by (rule moved.recover_keeps) (auto intro: recovery_moves.stay)

subsection \<open>No order is created\<close>

text \<open>What was ordered; fills and events do not touch it.\<close>

definition order_terms :: "order \<Rightarrow> string \<times> string \<times> string \<times> order_side \<times> order_type \<times> dec option \<times> dec" where
  "order_terms r = (o_id r, o_client r, o_symbol r, o_side r, o_type r, o_price r, o_qty r)"

lemma terms_put: "(\<And>r. order_terms (g r) = order_terms r) \<Longrightarrow> map order_terms (db_orders (put_order oid g db)) = map order_terms (db_orders db)"
  by simp

lemma transition_terms: "map order_terms (db_orders (fst (om_transition db new now oid ety a))) = map order_terms (db_orders db)"
proof -
  have "map order_terms (db_orders (fst (record_event db new now ord ety st a))) = map order_terms (db_orders db)" for ord st
    by (auto simp: record_event_def Let_def event_update_def order_terms_def split: option.split)
  then show ?thesis
    by (auto simp: om_transition_def split: option.split sum.split prod.split) (metis fst_conv)+
qed

lemma fill_terms: "map order_terms (db_orders (fst (apply_fill db is f))) = map order_terms (db_orders db)"
proof -
  obtain db' res where a: "apply_fill_at db db is f = (db', res)" by force
  then show ?thesis
    by (cases rule: apply_fill_cases) (use a in \<open>simp_all add: apply_fill_def order_terms_def write_back_def\<close>)
qed

lemma moves_keep:
  "recovery_moves ids db db' \<Longrightarrow> map order_terms (db_orders db') = map order_terms (db_orders db) \<and> (om_reach db \<longrightarrow> om_reach db')"
  by (induction rule: recovery_moves.induct) (auto simp: transition_terms fill_terms intro: om_reach.intros)

text \<open>C17: a recovery, whatever the exchange answers and wherever it fails, creates no order and changes
  the terms of none, and the tables it leaves are again a state of the order manager.\<close>

theorem recovery_never_creates_orders:
  assumes "om_reach (rv_db s)" "recover env query s = (s', r)"
  shows "map order_terms (db_orders (rv_db s')) = map order_terms (db_orders (rv_db s)) \<and> om_reach (rv_db s')"
  using moves_keep [OF recover_moves [OF assms(2)]] assms(1) by simp

text \<open>An order that crashed between \<open>SUBMITTING\<close> and \<open>SUBMITTED\<close> is not resolved: it is not among the
  open orders, and a recovery leaves it as it is, although the exchange may have it.\<close>

theorem submitting_order_not_recovered:
  assumes "distinct (map o_id (db_orders (rv_db s)))" "r \<in> set (db_orders (rv_db s))"
    and "o_status r = SUBMITTING" "o_exchange r = None" "recover env query s = (s', res)"
  shows "r \<in> set (db_orders (rv_db s'))"
proof -
  have "r \<in> set (db_orders db')"
    if "recovery_moves ids (rv_db s) db'" "o_id r \<notin> ids" for ids db'
    using that
  proof (induction rule: recovery_moves.induct)
    case (event db1 oid new now ety a)
    have "r \<in> set (db_orders (fst (record_event db1 new now ord ety st a)))" if "o_id ord = oid" for ord st
      using event that by (auto simp: record_event_def Let_def image_iff split: option.split intro!: exI [of _ r] bexI [of _ r])
    moreover have "get_order db1 oid = Some ord \<Longrightarrow> o_id ord = oid" for ord using get_order_id by blast
    ultimately show ?case using event
      by (auto simp: om_transition_def split: option.split sum.split prod.split) (metis fst_conv)+
  next
    case (filled db1 f "is")
    obtain db2 res where a: "apply_fill_at db1 db1 is f = (db2, res)" by force
    then show ?case
    proof (cases rule: apply_fill_cases)
      case unchanged
      then show ?thesis using filled a by (simp add: apply_fill_def)
    next
      case (applied ord t ord')
      have "map fst (map order_terms (db_orders db1)) = map fst (map order_terms (db_orders (rv_db s)))"
        using moves_keep [OF filled(1)] by simp
      then have dis: "distinct (map o_id (db_orders db1))" using assms(1) by (simp add: order_terms_def o_def)
      have r1: "r \<in> set (db_orders db1)" using filled by simp
      have "o_id ord \<noteq> o_id r"
      proof
        assume e: "o_id ord = o_id r"
        have "ord \<in> set (db_orders db1)" using fill_target_mem [OF applied(2)] .
        then have "ord = r" using e r1 dis by (metis distinct_map inj_on_eq_iff)
        then show False using applied(2) assms(4) filled(3,5) get_order_id
          by (auto simp: fill_target_def truthy_str_def split: option.splits if_splits dest!: get_by_exchange_id)
      qed
      then show ?thesis using a applied(7) r1 by (auto simp: apply_fill_def image_iff intro!: bexI [of _ r])
    qed
  qed (use assms(2) in simp)
  moreover have "o_id r \<notin> o_id ` set (list_open (rv_db s))"
  proof
    assume "o_id r \<in> o_id ` set (list_open (rv_db s))"
    then obtain q where q: "q \<in> set (db_orders (rv_db s))" "o_id q = o_id r" "o_status q \<noteq> SUBMITTING"
      by (auto simp: list_open_def)
    then have "q = r" using assms(1,2) by (metis distinct_map inj_on_eq_iff)
    then show False using q(3) assms(3) by simp
  qed
  ultimately show ?thesis using recover_moves [OF assms(5)] by blast
qed

subsection \<open>What the exchange filled\<close>

lemma stored_in_list: "distinct (map o_id (db_orders db)) \<Longrightarrow> r \<in> set (db_orders db) \<Longrightarrow> get_order db (o_id r) = Some r"
  by (simp add: get_order_def find_Some_iff_distinct)

definition fresh_for :: "id_gen \<Rightarrow> nat \<Rightarrow> om_db \<Rightarrow> bool" where
  "fresh_for gen n db \<longleftrightarrow> gen ''evt'' (n + 2) \<notin> oe_id ` set (db_events db) \<and>
     Some (gen ''trade'' n) \<notin> f_trade ` set (db_fills db) \<and> gen ''trade'' n \<noteq> []"

lemma open_can_fill:
  "st \<in> {SUBMITTED, ACKNOWLEDGED, OPEN, PARTIALLY_FILLED, CANCEL_PENDING, UNKNOWN} \<Longrightarrow>
   osm_transition st ORDER_FILLED = ret \<lparr> tr_new_status = FILLED, tr_changed = True, tr_noop = False \<rparr>"
  by (auto simp: osm_transition_def TRANSITIONS_def)

lemma list_open_status:
  "r \<in> set (list_open db) \<Longrightarrow> r \<in> set (db_orders db) \<and>
     o_status r \<in> {SUBMITTED, ACKNOWLEDGED, OPEN, PARTIALLY_FILLED, CANCEL_PENDING, UNKNOWN}"
  by (auto simp: list_open_def)

text \<open>An open order that the exchange has filled is filled afterwards, for the whole quantity, by one
  new fill of what was missing, whichever of the open statuses it had.\<close>

theorem recovery_applies_exchange_fill:
  assumes "om_reach (rv_db s)" "local \<in> set (list_open (rv_db s))"
    and "o_exchange local = Some xid" "xid \<noteq> []" "query (o_symbol local) xid = ret x"
    and "o_exchange x = Some xid" "o_status x = FILLED" "o_filled x = o_qty local" "o_filled local < o_filled x"
    and "exact_amount k (o_qty local)" "exact_amount k (o_filled local)"
    and "fresh_for (re_gen env) (next_id env s) (rv_db s)" "get_fill (rv_db s) (full_fill_id x) = None"
    and "recover_one env query local s = (s', r)"
  shows "\<exists>ord f. get_order (rv_db s') (o_id local) = Some ord \<and> o_status ord = FILLED \<and> o_filled ord = o_qty local \<and>
    db_fills (rv_db s') = db_fills (rv_db s) @ [f] \<and> f_order f = o_id local \<and> f_qty f = o_qty local - o_filled local"
proof -
  have ok: "om_ok (rv_db s)" by (rule om_reach_ok [OF assms(1)])
  have mem: "local \<in> set (db_orders (rv_db s))"
    and st: "o_status local \<in> {SUBMITTED, ACKNOWLEDGED, OPEN, PARTIALLY_FILLED, CANCEL_PENDING, UNKNOWN}"
    using list_open_status [OF assms(2)] by simp_all
  have get: "get_order (rv_db s) (o_id local) = Some local" using stored_in_list [OF om_okD(1) [OF ok] mem] .
  define f where "f = recovery_fill env (next_id env s) (full_fill_id x) local x"
  define fi where "fi = fresh_ids (re_gen env) (next_id env s + 1)"
  have f: "f_id f = full_fill_id x" "f_order f = o_id local" "f_exchange f = Some xid" "f_trade f = Some (re_gen env ''trade'' (next_id env s))"
    by (simp_all add: f_def assms(6))
  have nn: "0 \<le> o_filled local" using om_okD(7) [OF ok mem] .
  have q: "f_qty f = o_qty local - o_filled local"
    using exact_between(2) [OF assms(10,11) nn] assms(8,9) by (simp add: f_def)
  have add: "dadd (o_filled local) (f_qty f) = o_qty local"
    unfolding q using exact_dround [OF assms(10)] by (simp add: dadd_def)
  have target: "fill_target (rv_db s) f = Some local"
  proof -
    have "get_by_exchange (rv_db s) xid = Some local"
    proof (cases "get_by_exchange (rv_db s) xid")
      case None
      then show ?thesis using mem assms(3) by (auto simp: get_by_exchange_def find_None_iff)
    next
      case (Some t)
      then have "o_exchange t = Some xid" "t \<in> set (db_orders (rv_db s))" using get_by_exchange_id by blast+
      then have "o_id t = o_id local"
        using om_okD(3) [OF ok, unfolded exchange_ids_ok_def, rule_format, of t local] mem assms(3) by simp
      then have "t = local" by (rule om_ok_unique [OF ok \<open>t \<in> set (db_orders (rv_db s))\<close> mem])
      then show ?thesis using Some by simp
    qed
    then show ?thesis using f(3) assms(4) by (simp add: fill_target_def truthy_str_def)
  qed
  have ty: "fill_event_type local f = ORDER_FILLED" by (simp add: fill_event_type_def add)
  define ord' where "ord' = fill_order fi f FILLED local"
  have noc: "\<not> fill_conflict (rv_db s) fi f local ord'"
    using assms(12,13) f f(3) assms(3,4)
    by (simp add: fill_conflict_def get_fill_None ord'_def fill_row_def or_new_def fi_def fresh_ids_def fresh_for_def)
  have app: "apply_fill (rv_db s) fi f =
      ((put_order (o_id local) (write_back local ord') (rv_db s))
         \<lparr> db_events := db_events (rv_db s) @ [fill_event_row fi f ord' ORDER_FILLED],
           db_fills := db_fills (rv_db s) @ [fill_row fi f ord'] \<rparr>, ret ((ord', f), True))"
    using assms(13) f(1) target add noc ty open_can_fill [OF st]
    by (simp add: apply_fill_def apply_fill_at_def Let_def ord'_def [symmetric])
  define db1 where "db1 = fst (apply_fill (rv_db s) fi f)"
  have one: "rv_db s' = db1"
  proof -
    obtain s1 r1 where full: "recover_full_fill env local x s = (s1, r1)" by force
    have "apply_recovery_fill env f (RecoveryFill (o_client local) (f_qty f)) s = (s1, r1)"
      using full assms(7,9) by (simp add: recover_full_fill_def Let_def f_def)
    then have d1: "rv_db s1 = db1" using settled_fill_db by (simp add: db1_def fi_def)
    obtain s2 r2 where rest: "recover_rest env local x s1 = (s2, r2)" by force
    have "rv_db s2 = rv_db s1" using rest assms(7)
      by (auto simp: recover_rest_def recover_status_def Let_def split: if_splits)
    then show ?thesis
      using assms(3-5,14) full rest d1
      by (cases r1; cases r2) (auto simp: recover_one_def or_str_def log_recovery_def Let_def)
  qed
  have "get_order db1 (o_id local) = Some ord'"
    using get get_order_put [of "write_back local ord'" "o_id local" "rv_db s" "o_id local"]
    by (simp add: db1_def app ord'_def)
  moreover have "db_fills db1 = db_fills (rv_db s) @ [fill_row fi f ord']" by (simp add: db1_def app)
  ultimately show ?thesis using one add q by (auto simp: ord'_def)
qed

text \<open>An order that the exchange cancelled on its own, which the local order did not ask for, stops
  the recovery: \<open>InvalidStateTransition\<close> is raised, and neither this order nor any later one is
  reconciled, in every recovery as long as it is the first.\<close>

theorem unrequested_cancel_stops_recovery:
  assumes "distinct (map o_id (db_orders (rv_db s)))" "list_open (rv_db s) = local # rest"
    and "o_status local \<in> {SUBMITTED, ACKNOWLEDGED, OPEN, PARTIALLY_FILLED}"
    and "or_str (o_exchange local) (Some (o_client local)) = Some key" "key \<noteq> []"
    and "query 0 (o_symbol local) key = ret x" "o_status x = CANCELLED"
  shows "snd (recover env query s) = raise InvalidStateTransition \<and> rv_db (fst (recover env query s)) = rv_db s"
proof -
  have "local \<in> set (db_orders (rv_db s))" using list_open_status [of local "rv_db s"] assms(2) by simp
  then have get: "get_order (rv_db s) (o_id local) = Some local" using stored_in_list [OF assms(1)] by simp
  have t: "osm_transition (o_status local) ORDER_CANCELLED = raise InvalidStateTransition"
    using assms(3) by (auto simp: osm_transition_def TRANSITIONS_def NOOP_EVENTS_def)
  have ne: "CANCELLED \<noteq> o_status local" using assms(3) by auto
  show ?thesis
    by (simp add: recover_def assms(2,4,5,6,7) recover_one_def recover_full_fill_def recover_rest_def recover_status_def Let_def
        with_om_def om_cancel_confirm_def om_transition_def get t ne)
qed

subsection \<open>Examples\<close>

definition ex_env :: "nat recovery_env" where
  "ex_env = \<lparr> re_gen = ex_gen, re_now = 9, re_run = None, re_audit = True, re_settle = \<lambda>db f w. (w, ret ()),
     re_ids = \<lambda>n. n, re_advance = (+), re_log = \<lambda>_ w. w \<rparr>"

definition ex_db_acked :: om_db where
  "ex_db_acked = fst (om_ack ex_db_submitted ''e5'' 5 ''o1'' ''x1'' None)"

definition ex_db_submitting :: om_db where
  "ex_db_submitting = fst (om_submitting (fst (om_validate ex_db_created ''e2'' 2 ''o1'')) ''e3'' 3 ''o1'')"

definition ex_recovery :: "om_db \<Rightarrow> nat recovery" where
  "ex_recovery db = \<lparr> rv_db = db, rv_world = 0, rv_actions = [] \<rparr>"

definition ex_reply :: "order_status \<Rightarrow> dec \<Rightarrow> order" where
  "ex_reply st q = (ex_sim_order BUY (Some 100) 2)\<lparr> o_exchange := Some ''x1'', o_status := st, o_filled := q, o_avg := Some 100 \<rparr>"

lemma ex_db_acked_reach: "om_reach ex_db_acked"
  unfolding ex_db_acked_def om_ack_def by (intro om_reach.transition ex_db_submitted_reach)

definition ex_local :: order where
  "ex_local = hd (list_open ex_db_acked)"

lemma ex_acked_order:
  "list_open ex_db_acked = [ex_local]" "o_exchange ex_local = Some ''x1''" "o_symbol ex_local = ''BTCUSDT''"
  "o_qty ex_local = 2" "o_filled ex_local = 0" "o_status ex_local = ACKNOWLEDGED"
  by code_simp+

theorem recovery_never_creates_orders_witness:
  "\<exists>s' r. recover ex_env (\<lambda>_ _ _. ret (ex_reply FILLED 2)) (ex_recovery ex_db_acked) = (s', r) \<and> om_reach (rv_db s')"
proof -
  obtain s' r where r: "recover ex_env (\<lambda>_ _ _. ret (ex_reply FILLED 2)) (ex_recovery ex_db_acked) = (s', r)" by (metis prod.collapse)
  have "om_reach (rv_db (ex_recovery ex_db_acked))" by (simp add: ex_recovery_def ex_db_acked_reach)
  from recovery_never_creates_orders [OF this r] r show ?thesis by blast
qed

theorem submitting_order_not_recovered_witness:
  "\<exists>r s' res. db_orders ex_db_submitting = [r] \<and>
     recover ex_env (\<lambda>_ _ _. ret (ex_reply FILLED 2)) (ex_recovery ex_db_submitting) = (s', res) \<and> r \<in> set (db_orders (rv_db s'))"
proof -
  define r where "r = hd (db_orders ex_db_submitting)"
  have r: "db_orders ex_db_submitting = [r]" "o_status r = SUBMITTING" "o_exchange r = None"
    unfolding r_def by code_simp+
  obtain s' res where e: "recover ex_env (\<lambda>_ _ _. ret (ex_reply FILLED 2)) (ex_recovery ex_db_submitting) = (s', res)" by (metis prod.collapse)
  have "distinct (map o_id (db_orders (rv_db (ex_recovery ex_db_submitting))))" "r \<in> set (db_orders (rv_db (ex_recovery ex_db_submitting)))"
    by (simp_all add: ex_recovery_def r(1))
  from submitting_order_not_recovered [OF this r(2,3) e] r(1) e show ?thesis by blast
qed

theorem recovery_applies_exchange_fill_witness:
  "\<exists>s' r ord. recover_one ex_env (\<lambda>_ _. ret (ex_reply FILLED 2)) (ex_local) (ex_recovery ex_db_acked) = (s', r) \<and>
     get_order (rv_db s') (o_id (ex_local)) = Some ord \<and> o_status ord = FILLED \<and> o_filled ord = 2"
proof -
  let ?l = "ex_local" and ?s = "ex_recovery ex_db_acked" and ?x = "ex_reply FILLED 2"
  obtain s' r where r: "recover_one ex_env (\<lambda>_ _. ret ?x) ?l ?s = (s', r)" by (metis prod.collapse)
  have a: "om_reach (rv_db ?s)" "?l \<in> set (list_open (rv_db ?s))"
    using ex_db_acked_reach by (simp_all add: ex_recovery_def ex_acked_order)
  have x: "o_exchange ?x = Some ''x1''" "o_status ?x = FILLED" "o_filled ?x = o_qty ?l" "o_filled ?l < o_filled ?x"
    "exact_amount 0 (o_qty ?l)" "exact_amount 0 (o_filled ?l)"
    by (simp_all add: ex_reply_def ex_acked_order exact_amount_def places_def)
  have f: "fresh_for (re_gen ex_env) (next_id ex_env ?s) (rv_db ?s)" by code_simp
  have g: "get_fill (rv_db ?s) (full_fill_id ?x) = None" by code_simp
  from recovery_applies_exchange_fill [OF a ex_acked_order(2) _ _ x(1-6) f g r] r ex_acked_order(4) show ?thesis by auto
qed

theorem unrequested_cancel_stops_recovery_witness:
  "snd (recover ex_env (\<lambda>_ _ _. ret (ex_reply CANCELLED 0)) (ex_recovery ex_db_acked)) = raise InvalidStateTransition"
proof -
  let ?l = "ex_local" and ?s = "ex_recovery ex_db_acked"
  have d: "distinct (map o_id (db_orders (rv_db ?s)))" using om_okD(1) [OF om_reach_ok [OF ex_db_acked_reach]] by (simp add: ex_recovery_def)
  have l: "list_open (rv_db ?s) = ?l # []" by (simp add: ex_recovery_def ex_acked_order)
  have st: "o_status ?l \<in> {SUBMITTED, ACKNOWLEDGED, OPEN, PARTIALLY_FILLED}" by (simp add: ex_acked_order)
  have k: "or_str (o_exchange ?l) (Some (o_client ?l)) = Some ''x1''" by (simp add: ex_acked_order or_str_def)
  have c: "o_status (ex_reply CANCELLED 0) = CANCELLED" by (simp add: ex_reply_def)
  show ?thesis using unrequested_cancel_stops_recovery [OF d l st k _ _ c] by simp
qed

end
