(* ===== verification/Effects.thy ===== *)
theory Effects
  imports Prelude
begin

text \<open>
  State and exceptions together: what an asynchronous method does between two states of the engine,
  with an exception as the result when it raises one. A relation between states that is reflexive and
  transitive holds across a whole method as soon as it holds across each of its steps.
\<close>

type_synonym ('s, 'a) eff = "'s \<Rightarrow> 's \<times> 'a res"

definition eff_ret :: "'a \<Rightarrow> ('s, 'a) eff" where
  "eff_ret x s = (s, ret x)"

definition eff_raise :: "exn \<Rightarrow> ('s, 'a) eff" where
  "eff_raise e s = (s, Inl e)"

definition eff_lift :: "'a res \<Rightarrow> ('s, 'a) eff" where
  "eff_lift r s = (s, r)"

definition eff_get :: "('s \<Rightarrow> 'a) \<Rightarrow> ('s, 'a) eff" where
  "eff_get f s = (s, ret (f s))"

definition eff_mod :: "('s \<Rightarrow> 's) \<Rightarrow> ('s, unit) eff" where
  "eff_mod upd s = (upd s, ret ())"

definition eff_bind :: "('s, 'a) eff \<Rightarrow> ('a \<Rightarrow> ('s, 'b) eff) \<Rightarrow> ('s, 'b) eff" where
  "eff_bind m f s = (case m s of (t, Inl e) \<Rightarrow> (t, Inl e) | (t, Inr x) \<Rightarrow> f x t)"

abbreviation eff_then :: "('s, 'a) eff \<Rightarrow> ('s, 'b) eff \<Rightarrow> ('s, 'b) eff" where
  "eff_then m k \<equiv> eff_bind m (\<lambda>_. k)"

text \<open>A \<open>try\<close> block with its handlers; a handler that does not match raises the exception again.\<close>

definition eff_try :: "('s, 'a) eff \<Rightarrow> (exn \<Rightarrow> ('s, 'a) eff) \<Rightarrow> ('s, 'a) eff" where
  "eff_try m h s = (case m s of (t, Inl e) \<Rightarrow> h e t | (t, Inr x) \<Rightarrow> (t, Inr x))"

fun eff_each :: "('x \<Rightarrow> ('s, unit) eff) \<Rightarrow> 'x list \<Rightarrow> ('s, unit) eff" where
  "eff_each f [] = eff_ret ()"
| "eff_each f (x # xs) = eff_bind (f x) (\<lambda>_. eff_each f xs)"

text \<open>An operation of a part of the state.\<close>

definition eff_zoom :: "('s \<Rightarrow> 't) \<Rightarrow> ('t \<Rightarrow> 's \<Rightarrow> 's) \<Rightarrow> ('t, 'a) eff \<Rightarrow> ('s, 'a) eff" where
  "eff_zoom part put m s = (case m (part s) of (t, r) \<Rightarrow> (put t s, r))"

lemma eff_simps [simp]:
  "eff_ret x s = (s, ret x)" "eff_raise e s = (s, Inl e)" "eff_lift r s = (s, r)" "eff_get f s = (s, ret (f s))"
  "eff_mod upd s = (upd s, ret ())"
  by (simp_all add: eff_ret_def eff_raise_def eff_lift_def eff_get_def eff_mod_def)

lemma eff_bind_simps [simp]:
  "m s = (t, Inr x) \<Longrightarrow> eff_bind m f s = f x t" "m s = (t, Inl e) \<Longrightarrow> eff_bind m f s = (t, Inl e)"
  by (simp_all add: eff_bind_def)

lemma eff_bind_eff [simp]:
  "eff_bind (eff_get g) f s = f (g s) s" "eff_bind (eff_ret x) f2 s = f2 x s" "eff_bind (eff_mod upd) k s = k () (upd s)"
  "eff_bind (eff_raise e) k2 s = (s, Inl e)"
  by simp_all

lemma eff_bind_cases:
  assumes "eff_bind m f s = (u, r)"
  obtains (raised) e where "m s = (u, Inl e)" "r = Inl e" | (returned) t x where "m s = (t, Inr x)" "f x t = (u, r)"
  using assms by (cases "m s"; cases "snd (m s)") (auto simp: eff_bind_def)

lemma eff_bind_assoc: "eff_bind (eff_bind m f) g = eff_bind m (\<lambda>x. eff_bind (f x) g)"
proof
  fix s
  obtain t r where "m s = (t, r)" by force
  then show "eff_bind (eff_bind m f) g s = eff_bind m (\<lambda>x. eff_bind (f x) g) s" by (cases r) (simp_all add: eff_bind_def)
qed

lemma eff_zoom_apply: "m (part s) = (t, r) \<Longrightarrow> eff_zoom part put m s = (put t s, r)"
  by (simp add: eff_zoom_def)

subsection \<open>Relations that every step keeps\<close>

definition moves :: "('s \<Rightarrow> 's \<Rightarrow> bool) \<Rightarrow> ('s, 'a) eff \<Rightarrow> bool" where
  "moves R m \<longleftrightarrow> (\<forall>s. R s (fst (m s)))"

lemma movesD: "moves R m \<Longrightarrow> m s = (t, r) \<Longrightarrow> R s t"
  by (metis fst_conv moves_def)

locale step_relation =
  fixes R :: "'s \<Rightarrow> 's \<Rightarrow> bool"
  assumes refl: "R s s" and trans: "R s t \<Longrightarrow> R t u \<Longrightarrow> R s u"
begin

lemma pure: "moves R (eff_ret x)" "moves R (eff_raise e)" "moves R (eff_lift r)" "moves R (eff_get f)"
  by (simp_all add: moves_def refl)

lemma upd: "(\<And>s. R s (f s)) \<Longrightarrow> moves R (eff_mod f)"
  by (simp add: moves_def)

lemma bind: "moves R m \<Longrightarrow> (\<And>x. moves R (f x)) \<Longrightarrow> moves R (eff_bind m f)"
  unfolding moves_def eff_bind_def by (auto split: prod.split sum.split) (metis fst_conv trans)+

lemma handle: "moves R m \<Longrightarrow> (\<And>e. moves R (h e)) \<Longrightarrow> moves R (eff_try m h)"
  unfolding moves_def eff_try_def by (auto split: prod.split sum.split) (metis fst_conv trans)+

lemma each: "(\<And>x. moves R (f x)) \<Longrightarrow> moves R (eff_each f xs)"
  by (induction xs) (auto intro: pure bind)

lemma zoom: "(\<And>s. R s (put (fst (m (part s))) s)) \<Longrightarrow> moves R (eff_zoom part put m)"
  by (auto simp: moves_def eff_zoom_def split: prod.split) (metis fst_conv)

lemma cond: "(b \<Longrightarrow> moves R m) \<Longrightarrow> (\<not> b \<Longrightarrow> moves R k) \<Longrightarrow> moves R (if b then m else k)"
  by simp

lemma opt: "(v = None \<Longrightarrow> moves R m) \<Longrightarrow> (\<And>x. v = Some x \<Longrightarrow> moves R (k x)) \<Longrightarrow> moves R (case v of None \<Rightarrow> m | Some x \<Rightarrow> k x)"
  by (cases v) simp_all

lemmas rules = pure bind handle each cond opt

end

end
