(* ===== verification/Runtime.thy ===== *)
theory Runtime
  imports Domain Effects
begin

text \<open>
  The small services of the runtime: \<open>runtime/state_machine.py\<close>, \<open>health.py\<close>, \<open>event_bus.py\<close> and
  \<open>execution_symbols.py\<close>.
\<close>

subsection \<open>The runtime state machine\<close>

fun runtime_targets :: "runtime_state \<Rightarrow> runtime_state list" where
  "runtime_targets STOPPED = [STARTING, RECOVERING]"
| "runtime_targets STARTING = [RUNNING, RECOVERING, STOPPED]"
| "runtime_targets RECOVERING = [RUNNING, STOPPED]"
| "runtime_targets RUNNING = [HALTED, STOPPING]"
| "runtime_targets HALTED = [RUNNING, STOPPING]"
| "runtime_targets STOPPING = [STOPPED]"

definition runtime_transition :: "runtime_state \<Rightarrow> (runtime_state, unit) eff" where
  "runtime_transition new st = (if new \<in> set (runtime_targets st) then (new, ret ()) else (st, raise InvalidStateTransition))"

subsection \<open>Component health\<close>

record health_row =
  hr_ok :: bool
  hr_detail :: string
  hr_checked :: usec

type_synonym health = "(string, health_row) dict"

definition health_set :: "string \<Rightarrow> bool \<Rightarrow> string \<Rightarrow> usec \<Rightarrow> health \<Rightarrow> health" where
  "health_set name ok detail now h = AList.update name \<lparr> hr_ok = ok, hr_detail = detail, hr_checked = now \<rparr> h"

definition health_overall :: "health \<Rightarrow> health_status" where
  "health_overall h =
     (let values = map hr_ok (dict_values h)
      in if values = [] then H_UNHEALTHY else if list_all id values then H_OK else H_UNHEALTHY)"

definition health_snapshot :: "health \<Rightarrow> health_status \<times> health" where
  "health_snapshot h = (health_overall h, h)"

lemma health_overall_ok: "health_overall h = H_OK \<longleftrightarrow> h \<noteq> [] \<and> (\<forall>(_, row) \<in> set h. hr_ok row)"
  by (auto simp: health_overall_def Let_def dict_values_def list_all_iff)

subsection \<open>The event bus\<close>

text \<open>A handler is known by its name; what it does is the argument \<open>run\<close> of \<open>publish\<close>, on a state that
  holds the bus, so that a handler may subscribe or unsubscribe. The lists are copied before they are
  iterated, the second one after the handlers of the first have run.\<close>

type_synonym bus = "(string, string list) dict"

definition handlers_of :: "bus \<Rightarrow> string \<Rightarrow> string list" where
  "handlers_of b et = (case map_of b et of Some hs \<Rightarrow> hs | None \<Rightarrow> [])"

definition bus_subscribe :: "string \<Rightarrow> string \<Rightarrow> bus \<Rightarrow> bus" where
  "bus_subscribe et h b = AList.update et (handlers_of b et @ [h]) b"

definition bus_unsubscribe :: "string \<Rightarrow> bus \<Rightarrow> bus" where
  "bus_unsubscribe h b = map (\<lambda>(et, hs). (et, remove1 h hs)) b"

definition bus_publish :: "('s \<Rightarrow> bus) \<Rightarrow> (string \<Rightarrow> 'e \<Rightarrow> ('s, unit) eff) \<Rightarrow> string \<Rightarrow> 'e \<Rightarrow> ('s, unit) eff" where
  "bus_publish part run et ev =
     eff_bind (eff_get (\<lambda>s. handlers_of (part s) et)) (\<lambda>hs.
     eff_then (eff_each (\<lambda>h. run h ev) hs)
     (eff_bind (eff_get (\<lambda>s. handlers_of (part s) ''*'')) (eff_each (\<lambda>h. run h ev))))"

definition subscriber_count :: "bus \<Rightarrow> string \<Rightarrow> nat" where
  "subscriber_count b et = length (handlers_of b et)"

subsection \<open>Execution symbols\<close>

definition PAPER_PERPETUAL_REFERENCE_SYMBOLS :: "string list" where
  "PAPER_PERPETUAL_REFERENCE_SYMBOLS =
     [''BTCUSDT'', ''HYPEUSDT'', ''ZECUSDT'', ''ENAUSDT'', ''WLDUSDT'', ''ONDOUSDT'', ''FILUSDT'', ''TAOUSDT'', ''AAVEUSDT'',
      ''XLMUSDT'', ''HBARUSDT'']"

definition perp_to_reference :: "(string, string) dict" where
  "perp_to_reference = map (\<lambda>r. (r @ ''_PERP'', r)) PAPER_PERPETUAL_REFERENCE_SYMBOLS"

definition reference_symbol_for :: "string \<Rightarrow> string" where
  "reference_symbol_for sy = (case map_of perp_to_reference sy of Some r \<Rightarrow> r | None \<Rightarrow> sy)"

definition execution_symbol_for :: "string \<Rightarrow> string" where
  "execution_symbol_for r = (if r \<in> set PAPER_PERPETUAL_REFERENCE_SYMBOLS then r @ ''_PERP'' else r)"

definition is_paper_perpetual_symbol :: "string \<Rightarrow> bool" where
  "is_paper_perpetual_symbol sy \<longleftrightarrow> map_of perp_to_reference sy \<noteq> None"

lemma perp_to_reference_keys: "map_of perp_to_reference sy = Some r \<longleftrightarrow> r \<in> set PAPER_PERPETUAL_REFERENCE_SYMBOLS \<and> sy = r @ ''_PERP''"
proof -
  have "map_of (map (\<lambda>r. (r @ ''_PERP'', r)) rs) sy = Some r \<longleftrightarrow> r \<in> set rs \<and> sy = r @ ''_PERP''" for rs
    by (induction rs) auto
  then show ?thesis by (simp add: perp_to_reference_def)
qed

text \<open>The reference market of the contract that a market executes on is that market again, and a
  symbol is a paper contract exactly when it is the execution symbol of one of the listed markets.\<close>

theorem execution_symbol_roundtrip:
  "(is_paper_perpetual_symbol r \<or> reference_symbol_for (execution_symbol_for r) = r) \<and>
   is_paper_perpetual_symbol sy = (\<exists>r \<in> set PAPER_PERPETUAL_REFERENCE_SYMBOLS. sy = execution_symbol_for r)"
proof -
  have "r \<in> set PAPER_PERPETUAL_REFERENCE_SYMBOLS \<Longrightarrow> map_of perp_to_reference (r @ ''_PERP'') = Some r" for r
    using perp_to_reference_keys [of "r @ ''_PERP''" r] by simp
  then show ?thesis
    using perp_to_reference_keys [of sy]
    by (auto simp: is_paper_perpetual_symbol_def reference_symbol_for_def execution_symbol_for_def split: option.split)
qed

end
