(* ===== verification/Engine_State.thy ===== *)
theory Engine_State
  imports Runtime Recovery Reconciliation Lease Execution_Authority Futures_Ledger Paper_Market
begin

text \<open>
  The state of \<open>runtime/engine.py\<close>: the tables of the database, the services the engine holds and its
  own attributes, and the actions its methods are made of. The exchange is an argument with a state of
  its own; the events that it delivers to \<open>_enqueue_event\<close> while an order is submitted are part of its
  answer. Clock readings and identifiers come from two counted streams.
\<close>

subsection \<open>Settings, adapter and state\<close>

record settings =
  st_mode :: trading_mode
  st_live :: bool
  st_lease_ttl :: fl
  st_data_age :: fl
  st_book_age :: fl
  st_leverage :: dec

definition effective_mode :: "settings \<Rightarrow> trading_mode" where
  "effective_mode c = (if st_mode c = LIVE \<and> \<not> st_live c then PAPER else st_mode c)"

record 'x adapter =
  ad_connect :: "'x \<Rightarrow> 'x \<times> unit res"
  ad_disconnect :: "'x \<Rightarrow> 'x \<times> unit res"
  ad_connected :: "'x \<Rightarrow> bool"
  ad_subscribe :: "'x \<Rightarrow> 'x \<times> unit res"
  ad_info :: "'x \<Rightarrow> 'x \<times> instrument list res"
  ad_balances :: "'x \<Rightarrow> 'x \<times> balance list res"
  ad_positions :: "'x \<Rightarrow> 'x \<times> position list res"
  ad_book :: "string \<Rightarrow> usec \<Rightarrow> 'x \<Rightarrow> 'x \<times> (int \<times> (dec \<times> dec) list \<times> (dec \<times> dec) list) res"
  ad_submit :: "order \<Rightarrow> usec \<Rightarrow> 'x \<Rightarrow> 'x \<times> exchange_event list \<times> order res"
  ad_order :: "string \<Rightarrow> string \<Rightarrow> 'x \<Rightarrow> order res"
  ad_hydrate :: "(ledger_db \<Rightarrow> 'x \<Rightarrow> 'x \<times> unit res) option"
  ad_market_state :: "(string \<Rightarrow> 'x \<Rightarrow> 'x \<times> market_state res) option"
  ad_real :: bool

record 'x engine_env =
  ev_gen :: id_gen
  ev_clock :: "nat \<Rightarrow> usec"
  ev_settings :: settings
  ev_risk :: risk_config
  ev_adapter :: "'x adapter"
  ev_provider :: "provider option"
  ev_arrange :: "string list \<Rightarrow> string list"
  ev_dump :: "signal_intent \<Rightarrow> json"
  ev_lease_key :: string
  ev_require_lease :: bool

record engine_run =
  er_run :: string
  er_state :: runtime_state
  er_started :: usec
  er_ended :: "usec option"

text \<open>The background tasks; one that raises ends, and its exception waits for \<open>stop\<close>.\<close>

datatype loop_task = EventLoop | TickLoop | LeaseLoop | ReconciliationLoop

record 'x engine =
  en_db :: om_db
  en_ledger :: ledger_db
  en_proj :: projection_db
  en_leases :: lease_db
  en_audit :: "audit_event list"
  en_risks :: "risk_decision list"
  en_recons :: "recon_row list"
  en_runs :: "engine_run list"
  en_adapter :: 'x
  en_perp :: "perp_engine option"
  en_md :: md_state
  en_ks :: kill_switch
  en_health :: health
  en_state :: runtime_state
  en_run :: "string option"
  en_lease :: "lease option"
  en_halted :: bool
  en_queue :: "exchange_event list"
  en_running :: bool
  en_dead :: "(loop_task \<times> exn) list"
  en_initial :: "(string, dec) dict"
  en_instruments :: "(string, instrument) dict"
  en_failures :: int
  en_quarantined :: "string list"
  en_settling :: bool
  en_ids :: nat
  en_reads :: nat

type_synonym ('x, 'a) act = "('x engine, 'a) eff"

subsection \<open>Actions\<close>

definition en_now :: "'x engine_env \<Rightarrow> ('x, usec) act" where
  "en_now env s = (s\<lparr> en_reads := Suc (en_reads s) \<rparr>, ret (ev_clock env (en_reads s)))"

definition en_fresh :: "'x engine_env \<Rightarrow> string \<Rightarrow> ('x, string) act" where
  "en_fresh env prefix s = (s\<lparr> en_ids := Suc (en_ids s) \<rparr>, ret (ev_gen env prefix (en_ids s)))"

text \<open>A block of identifiers, more than any journal of the program has entries.\<close>

definition en_block :: "('x, nat) act" where
  "en_block s = (s\<lparr> en_ids := en_ids s + 16 \<rparr>, ret (en_ids s))"

definition set_health :: "'x engine_env \<Rightarrow> string \<Rightarrow> bool \<Rightarrow> string \<Rightarrow> ('x, unit) act" where
  "set_health env name ok detail =
     eff_bind (en_now env) (\<lambda>t. eff_mod (\<lambda>s. s\<lparr> en_health := health_set name ok detail t (en_health s) \<rparr>))"

definition audit_log :: "'x engine_env \<Rightarrow> string \<Rightarrow> audit_args \<Rightarrow> ('x, unit) act" where
  "audit_log env action a =
     eff_bind (en_now env) (\<lambda>t. eff_mod (\<lambda>s. s\<lparr> en_audit := en_audit s @ [audit_row (ev_gen env) (en_ids s) t action a],
       en_ids := en_ids s + 2 \<rparr>))"

text \<open>An operation of the order manager, with a new identifier for its event and the time.\<close>

definition on_orders :: "'x engine_env \<Rightarrow> (string \<Rightarrow> usec \<Rightarrow> om_db \<Rightarrow> om_db \<times> 'r res) \<Rightarrow> ('x, 'r) act" where
  "on_orders env f =
     eff_bind (en_fresh env ''evt'') (\<lambda>new. eff_bind (en_now env) (\<lambda>t.
       eff_zoom en_db (\<lambda>d s. s\<lparr> en_db := d \<rparr>) (f new t)))"

definition ledger_ids :: "'x engine_env \<Rightarrow> nat \<Rightarrow> nat \<Rightarrow> string" where
  "ledger_ids env n k = ev_gen env ''led'' (n + k)"

definition record_ledger :: "'x engine_env \<Rightarrow> ledger_entry_type \<Rightarrow> posting list \<Rightarrow> record_args \<Rightarrow> ('x, ledger_transaction) act" where
  "record_ledger env ty ps a =
     eff_bind en_block (\<lambda>n. eff_bind (en_now env) (\<lambda>t.
       eff_zoom en_ledger (\<lambda>d s. s\<lparr> en_ledger := d \<rparr>)
         (\<lambda>db. ledger_record db (ev_gen env ''txn'' n) (ledger_ids env n) t ty ps a)))"

definition refresh_portfolio :: "'x engine_env \<Rightarrow> ('x, unit) act" where
  "refresh_portfolio env =
     eff_bind (en_now env) (\<lambda>t s. (case portfolio_refresh (en_proj s) (en_ledger s) (en_initial s) t of
       (pj, r) \<Rightarrow> (s\<lparr> en_proj := pj \<rparr>, r)))"

definition on_adapter :: "('x \<Rightarrow> 'x \<times> 'r res) \<Rightarrow> ('x, 'r) act" where
  "on_adapter f = eff_zoom en_adapter (\<lambda>x s. s\<lparr> en_adapter := x \<rparr>) f"

definition on_market :: "'x engine_env \<Rightarrow> (usec \<Rightarrow> md_state \<Rightarrow> md_state \<times> 'r res) \<Rightarrow> ('x, 'r) act" where
  "on_market env f = eff_bind (en_now env) (\<lambda>t. eff_zoom en_md (\<lambda>m s. s\<lparr> en_md := m \<rparr>) (f t))"

text \<open>The perpetual engine records in the same ledger.\<close>

definition on_perp ::
  "'x engine_env \<Rightarrow> (string \<Rightarrow> (nat \<Rightarrow> string) \<Rightarrow> usec \<Rightarrow> perp_engine \<Rightarrow> perp_engine \<times> 'r res) \<Rightarrow> perp_engine \<Rightarrow> ('x, 'r) act" where
  "on_perp env f e =
     eff_bind en_block (\<lambda>n. eff_bind (en_now env) (\<lambda>t s.
       (case f (ev_gen env ''txn'' n) (ledger_ids env n) t (e\<lparr> pe_ledger := en_ledger s \<rparr>) of
          (e', r) \<Rightarrow> (s\<lparr> en_perp := Some e', en_ledger := pe_ledger e' \<rparr>, r))))"

definition on_leases :: "'x engine_env \<Rightarrow> (fl \<Rightarrow> lease_db \<Rightarrow> lease_db \<times> 'r) \<Rightarrow> ('x, 'r) act" where
  "on_leases env f =
     eff_bind (en_now env) (\<lambda>t s. (case f (total_seconds t) (en_leases s) of (db, r) \<Rightarrow> (s\<lparr> en_leases := db \<rparr>, ret r)))"

definition enter_state :: "runtime_state \<Rightarrow> ('x, unit) act" where
  "enter_state st = eff_zoom en_state (\<lambda>x s. s\<lparr> en_state := x \<rparr>) (runtime_transition st)"

definition persist_run :: "'x engine_env \<Rightarrow> runtime_state \<Rightarrow> ('x, unit) act" where
  "persist_run env st =
     eff_bind (en_now env) (\<lambda>t. eff_mod (\<lambda>s.
       let rid = (case en_run s of Some r \<Rightarrow> r | None \<Rightarrow> []) in
       s\<lparr> en_runs :=
            (if rid \<in> er_run ` set (en_runs s)
             then map (\<lambda>row. if er_run row = rid
                             then row\<lparr> er_state := st, er_ended := (if st = STOPPED then Some t else er_ended row) \<rparr> else row) (en_runs s)
             else en_runs s @ [\<lparr> er_run = rid, er_state = st, er_started = t, er_ended = None \<rparr>]) \<rparr>))"

text \<open>The classes as \<open>type(exc).__name__\<close> names them; \<open>KeyErrorC\<close> and the like are Python's own.\<close>

fun class_name :: "exn_class \<Rightarrow> string" where
  "class_name ExceptionC = ''Exception''"
| "class_name CryptoTraderError = ''CryptoTraderError''"
| "class_name ExchangeError = ''ExchangeError''"
| "class_name ExchangeUnavailable = ''ExchangeUnavailable''"
| "class_name RateLimited = ''RateLimited''"
| "class_name AuthenticationError = ''AuthenticationError''"
| "class_name InvalidOrder = ''InvalidOrder''"
| "class_name InsufficientBalance = ''InsufficientBalance''"
| "class_name OrderNotFound = ''OrderNotFound''"
| "class_name OrderRejected = ''OrderRejected''"
| "class_name StaleMarketData = ''StaleMarketData''"
| "class_name SequenceGap = ''SequenceGap''"
| "class_name TemporaryNetworkError = ''TemporaryNetworkError''"
| "class_name UnknownExecutionState = ''UnknownExecutionState''"
| "class_name IdempotencyConflict = ''IdempotencyConflict''"
| "class_name InvalidStateTransition = ''InvalidStateTransition''"
| "class_name JournalUnbalanced = ''JournalUnbalanced''"
| "class_name LeaseNotHeld = ''LeaseNotHeld''"
| "class_name KillSwitchEngaged = ''KillSwitchEngaged''"
| "class_name MarketDataUnhealthy = ''MarketDataUnhealthy''"
| "class_name ValueError = ''ValueError''"
| "class_name DecimalError = ''DecimalError''"
| "class_name InvalidOperation = ''InvalidOperation''"
| "class_name ZeroDivisionError = ''ZeroDivisionError''"
| "class_name KeyErrorC = ''KeyError''"
| "class_name IndexErrorC = ''IndexError''"
| "class_name ConnectionError = ''ConnectionError''"
| "class_name RuntimeErrorC = ''RuntimeError''"
| "class_name IntegrityError = ''IntegrityError''"
| "class_name AttributeErrorC = ''AttributeError''"
| "class_name TypeErrorC = ''TypeError''"
| "class_name TimeoutErrorC = ''TimeoutError''"

definition log_args :: "'x engine \<Rightarrow> string \<Rightarrow> audit_args" where
  "log_args s target = no_audit_args\<lparr> aa_target := target, aa_run := en_run s \<rparr>"

end
