(* ===== verification/Engine.thy ===== *)
theory Engine
  imports Engine_State
begin

text \<open>
  \<open>runtime/engine.py\<close>: the path from a signal to an order, from an exchange event to the order tables,
  and from a fill to the ledger. A method runs here without the other tasks between its steps. Trade
  memory and trade episodes, which record for learning and never raise into this path, are left out.
  Decimals that the audit trail keeps as texts are kept as decimals.
\<close>

definition void :: "('s, 'a) eff \<Rightarrow> ('s, unit) eff" where
  "void m = eff_bind m (\<lambda>_. eff_ret ())"

definition log_for :: "'x engine_env \<Rightarrow> string \<Rightarrow> string \<Rightarrow> (audit_args \<Rightarrow> audit_args) \<Rightarrow> ('x, unit) act" where
  "log_for env action target f = eff_bind (eff_get (\<lambda>s. log_args s target)) (\<lambda>a. audit_log env action (f a))"

subsection \<open>Settlement\<close>

definition cost_released_of :: "order \<Rightarrow> fill \<Rightarrow> position option \<Rightarrow> dec option" where
  "cost_released_of ord f p =
     (case o_side ord of
        BUY \<Rightarrow> None
      | SELL \<Rightarrow> Some (dmul (case p of Some q \<Rightarrow> dec_or (p_avg q) (f_price f) | None \<Rightarrow> f_price f) (f_qty f)))"

definition settle_order :: "'x engine_env \<Rightarrow> fill \<Rightarrow> order \<Rightarrow> ('x, unit) act" where
  "settle_order env f ord =
     eff_bind (eff_get (\<lambda>s. get_position (en_proj s) (f_symbol f))) (\<lambda>p.
     eff_bind (eff_lift (build_trade_entries (o_side ord) (o_symbol ord)
         (case or_str (f_fee_ccy f) (Some ''USDT'') of Some c \<Rightarrow> c | None \<Rightarrow> [])
         (f_price f) (f_qty f) (f_fee f) (cost_released_of ord f p))) (\<lambda>(ps, m).
     eff_bind (en_fresh env ''evt'') (\<lambda>eid.
     eff_then (record_ledger env TRADE ps (no_record_args\<lparr> ra_order := Some (o_id ord), ra_fill := Some (f_id f), ra_event := Some eid,
         ra_meta := AList.update ''base_asset'' (JStr (drop_usdt (o_symbol ord))) m \<rparr>))
     (eff_then (refresh_portfolio env)
     (log_for env ''FILL_SETTLED'' (f_id f) (\<lambda>a. a\<lparr> aa_order := Some (o_id ord), aa_client := Some (o_client ord),
         aa_exchange := o_exchange ord, aa_before := [(''fill_quantity'', JDec (f_qty f)), (''fill_price'', JDec (f_price f))],
         aa_after := [(''transaction_id'', JStr (f_id f))] \<rparr>))))))"

definition settle_fill :: "'x engine_env \<Rightarrow> fill \<Rightarrow> ('x, unit) act" where
  "settle_fill env f =
     (if map_of (f_payload f) ''market_type'' = Some (JStr ''PERPETUAL'') then eff_ret ()
      else eff_bind (eff_get (\<lambda>s. (get_order (en_db s) (f_order f), f_id f \<in> set (en_quarantined s)))) (\<lambda>(r, quarantined).
        case r of None \<Rightarrow> eff_ret () | Some ord \<Rightarrow> if quarantined then eff_ret () else settle_order env f ord))"

text \<open>The callback of the order manager, which \<open>start\<close> installs; \<open>db\<close> is what was committed before it.\<close>

definition settle_callback :: "'x engine_env \<Rightarrow> om_db \<Rightarrow> fill \<Rightarrow> ('x, unit) act" where
  "settle_callback env db f s = (if en_settling s then settle_fill env f (s\<lparr> en_db := db \<rparr>) else (s, ret ()))"

definition apply_engine_fill :: "'x engine_env \<Rightarrow> fill \<Rightarrow> ('x, (order \<times> fill) \<times> bool) act" where
  "apply_engine_fill env f =
     eff_bind (en_fresh env ''evt'') (\<lambda>last. eff_bind (en_fresh env ''evt'') (\<lambda>eid. eff_bind (en_fresh env ''trd'') (\<lambda>trade s.
       let ids = \<lparr> fi_last = last, fi_event = eid, fi_trade = trade \<rparr>
       in (case apply_fill_settling (settle_callback env (fst (apply_fill (en_db s) ids f))) (en_db s, s) ids f of
             ((db, w), r) \<Rightarrow> (w\<lparr> en_db := db \<rparr>, r)))))"

subsection \<open>Exchange events\<close>

text \<open>\<open>str\<close> of a value of a payload; the exchanges of the program write texts there.\<close>

fun str_json :: "json \<Rightarrow> string" where
  "str_json (JStr t) = t"
| "str_json (JInt n) = (if n < 0 then ''-'' @ int_digits (- n) else int_digits n)"
| "str_json (JDec d) = plain_text d"
| "str_json (JRaw d) = plain_text d"
| "str_json (JBool b) = (if b then ''True'' else ''False'')"
| "str_json JNull = ''None''"
| "str_json _ = []"

fun or_json :: "json option \<Rightarrow> json \<Rightarrow> json" where
  "or_json (Some j) d = (if truthy_json j then j else d)"
| "or_json None d = d"

definition fill_from_payload :: "'x engine_env \<Rightarrow> order \<Rightarrow> meta \<Rightarrow> ('x, fill) act" where
  "fill_from_payload env ord m =
     eff_bind (if meta_truthy m ''fill_id'' then eff_ret (str_json (the (map_of m ''fill_id''))) else en_fresh env ''fill'') (\<lambda>fid.
     eff_bind (eff_lift (json_D (or_json (map_of m ''fill_price'') (if dec_or (o_price ord) 0 \<noteq> 0 then JRaw (the (o_price ord)) else JStr ''0'')))) (\<lambda>price.
     eff_bind (eff_lift (json_D (or_json (map_of m ''fill_quantity'') (JStr ''0'')))) (\<lambda>qty.
     eff_bind (eff_lift (json_D (or_json (map_of m ''fee'') (JStr ''0'')))) (\<lambda>fee.
     eff_bind (en_now env) (\<lambda>t.
     eff_bind (eff_lift (opt_text_field (map_of m ''trade_id''))) (\<lambda>trade.
     eff_bind (if meta_truthy m ''exchange_order_id'' then eff_lift (opt_text_field (map_of m ''exchange_order_id'')) else eff_ret (o_exchange ord)) (\<lambda>xid.
     eff_bind (eff_lift (opt_text_field (map_of m ''fee_currency''))) (\<lambda>ccy.
       eff_ret \<lparr> f_id = fid, f_trade = trade, f_order = o_id ord, f_client = Some (o_client ord), f_exchange = xid,
         f_symbol = o_symbol ord, f_side = o_side ord, f_price = price, f_qty = qty, f_fee = fee, f_fee_ccy = ccy,
         f_time = t, f_payload = [] \<rparr>))))))))"

text \<open>A level that cannot be read is passed on with a negative quantity: the book refuses it at the place
  where the conversion fails in the code.\<close>

definition level_of_json :: "json \<Rightarrow> dec \<times> dec" where
  "level_of_json j =
     (case (case j of JList [p, q] \<Rightarrow> Some (p, q) | JStr [a, b] \<Rightarrow> Some (JStr [a], JStr [b]) | _ \<Rightarrow> None) of
        Some (p, q) \<Rightarrow> (case (json_D p, json_D q) of (Inr a, Inr b) \<Rightarrow> (a, b) | _ \<Rightarrow> (0, -1))
      | None \<Rightarrow> (0, -1))"

definition levels_of_json :: "json option \<Rightarrow> (dec \<times> dec) list" where
  "levels_of_json v =
     (case v of
        None \<Rightarrow> [] | Some (JList js) \<Rightarrow> map level_of_json js | Some (JStr []) \<Rightarrow> [] | Some (JObj []) \<Rightarrow> []
      | Some _ \<Rightarrow> [(0, -1)])"

fun json_int :: "json \<Rightarrow> int res" where
  "json_int (JInt n) = ret n"
| "json_int (JBool b) = ret (if b then 1 else 0)"
| "json_int (JStr t) =
     (case parse_sign (strip t) of (sg, ds) \<Rightarrow>
        if ds \<noteq> [] \<and> list_all is_digit ds then ret (sg * digits_val ds) else raise ValueError)"
| "json_int (JRaw d) = ret (if 0 \<le> d then \<lfloor>d\<rfloor> else \<lceil>d\<rceil>)"
| "json_int (JDec d) = (if d = of_int \<lfloor>d\<rfloor> then ret \<lfloor>d\<rfloor> else raise ValueError)"
| "json_int _ = raise TypeErrorC"

definition process_market_event :: "'x engine_env \<Rightarrow> exchange_event \<Rightarrow> ('x, unit) act" where
  "process_market_event env ev =
     (let m = ee_payload ev;
          symbol = (if truthy_str (ee_symbol ev) then ee_symbol ev else map_option str_json (map_of m ''symbol''));
          bids = levels_of_json (map_of m ''bids''); asks = levels_of_json (map_of m ''asks'')
      in if \<not> truthy_str symbol then eff_ret ()
         else let sy = the symbol in
           eff_try
             (eff_bind (eff_lift (rbind (meta_item m ''sequence'') json_int)) (\<lambda>seq.
              eff_then (on_market env (\<lambda>t. if ee_type ev = EX_MARKET_SNAPSHOT then ingest_snapshot sy seq bids asks t
                                           else ingest_delta (ev_provider env) sy seq bids asks t))
                (set_health env ''market_data'' True [])))
             (\<lambda>e. if catches [MarketDataUnhealthy] e then
                    eff_then (set_health env ''market_data'' False (sy @ '' unhealthy''))
                      (log_for env ''MARKET_DATA_UNHEALTHY'' sy id)
                  else eff_raise e))"

definition handle_order_event :: "'x engine_env \<Rightarrow> exchange_event \<Rightarrow> string \<Rightarrow> order \<Rightarrow> ('x, unit) act" where
  "handle_order_event env ev xid local =
     (let oid = o_id local; eid = Some (ee_id ev); m = ee_payload ev;
          reason = (case map_of m ''reason'' of Some j \<Rightarrow> j | None \<Rightarrow> JStr ''exchange rejection'')
      in case ee_type ev of
           EX_ORDER_ACK \<Rightarrow> void (on_orders env (\<lambda>new t db. om_ack db new t oid xid eid))
         | EX_ORDER_OPENED \<Rightarrow> void (on_orders env (\<lambda>new t db. om_opened db new t oid eid))
         | EX_ORDER_PARTIALLY_FILLED \<Rightarrow> eff_bind (fill_from_payload env local m) (\<lambda>f. void (apply_engine_fill env f))
         | EX_ORDER_FILLED \<Rightarrow> eff_bind (fill_from_payload env local m) (\<lambda>f. void (apply_engine_fill env f))
         | EX_ORDER_CANCELLED \<Rightarrow> void (on_orders env (\<lambda>new t db. om_cancel_confirm db new t oid eid))
         | EX_ORDER_REJECTED \<Rightarrow>
             void (on_orders env (\<lambda>new t db. om_transition db new t oid ORDER_REJECTED
               (no_args\<lparr> ea_event_id := eid, ea_reason := (case reason of JStr r \<Rightarrow> Some r | _ \<Rightarrow> None), ea_payload := [(''reason'', reason)] \<rparr>)))
         | EX_BALANCE_UPDATE \<Rightarrow> refresh_portfolio env
         | _ \<Rightarrow> eff_ret ())"

definition process_exchange_event :: "'x engine_env \<Rightarrow> exchange_event \<Rightarrow> ('x, unit) act" where
  "process_exchange_event env ev =
     (if ee_type ev \<in> set [EX_MARKET_DELTA, EX_MARKET_SNAPSHOT] then process_market_event env ev
      else if \<not> meta_truthy (ee_payload ev) ''exchange_order_id'' then eff_ret ()
      else (let xid = str_json (the (map_of (ee_payload ev) ''exchange_order_id''))
            in eff_bind (eff_get (\<lambda>s. get_by_exchange (en_db s) xid)) (\<lambda>local.
                 case local of None \<Rightarrow> eff_ret () | Some r \<Rightarrow> handle_order_event env ev xid r)))"

subsection \<open>The background tasks\<close>

text \<open>One turn of a loop: an exception that leaves it ends its task, and an ended task does nothing more.\<close>

definition loop_turn :: "loop_task \<Rightarrow> ('x, 'a) act \<Rightarrow> ('x, unit) act" where
  "loop_turn l m s =
     (if map_of (en_dead s) l \<noteq> None then (s, ret ())
      else (case m s of
              (t, Inl e) \<Rightarrow> (t\<lparr> en_dead := (l, e) # en_dead t \<rparr>, Inl e)
            | (t, Inr _) \<Rightarrow> (t, ret ())))"

lemma loop_moves:
  assumes "step_relation R" "\<And>t d. R t (t\<lparr> en_dead := d \<rparr>)" "moves R m"
  shows "moves R (loop_turn l m)"
proof -
  have "R s (fst (loop_turn l m s))" for s
  proof -
    obtain t r where m: "m s = (t, r)" by force
    then have "R s t" by (rule movesD [OF assms(3)])
    then have "R s (t\<lparr> en_dead := d \<rparr>)" for d using assms(1,2) by (metis step_relation.trans)
    then show ?thesis using m \<open>R s t\<close> step_relation.refl [OF assms(1)] by (cases r) (simp_all add: loop_turn_def)
  qed
  then show ?thesis by (simp add: moves_def)
qed

text \<open>The clause around an event logs \<open>type(event.event_type).name\<close>; the class of an enumeration has no such
  attribute, so the clause raises \<open>AttributeError\<close> itself.\<close>

definition handle_queued :: "'x engine_env \<Rightarrow> ('x, unit) act" where
  "handle_queued env s =
     (case en_queue s of
        [] \<Rightarrow> (s, ret ())
      | ev # q \<Rightarrow> eff_try (process_exchange_event env ev)
           (\<lambda>e. eff_then (set_health env ''event_processing'' False ''unhandled event error'') (eff_raise (Exn AttributeErrorC [])))
           (s\<lparr> en_queue := q \<rparr>))"

text \<open>One turn of \<open>_event_loop\<close>; with an empty queue it waits.\<close>

definition event_turn :: "'x engine_env \<Rightarrow> ('x, unit) act" where
  "event_turn env = loop_turn EventLoop (handle_queued env)"

end
