(* ===== verification/Engine_Signals.thy ===== *)
theory Engine_Signals
  imports Engine
begin

text \<open>
  \<open>runtime/engine.py\<close>: \<open>process_signal\<close> and what it calls. The stages are those of the method, in its
  order: the idempotency lookup, the refresh of the book, the reference price, the risk engine, the
  execution authority, and then either the perpetual paper engine or the order lifecycle.
\<close>

definition client_order_id :: "signal_intent \<Rightarrow> string" where
  "client_order_id sg = take 60 (s_strategy sg @ ''_'' @ s_id sg)"

definition reduce_only_of :: "signal_intent \<Rightarrow> bool" where
  "reduce_only_of sg \<longleftrightarrow> s_reduce_only sg \<or> meta_truthy (s_meta sg) ''reduce_only''"

definition reference_of :: "signal_intent \<Rightarrow> string" where
  "reference_of sg = (if s_market sg = PERPETUAL then reference_symbol_for (s_symbol sg) else s_symbol sg)"

definition refresh_orderbook :: "'x engine_env \<Rightarrow> string \<Rightarrow> ('x, unit) act" where
  "refresh_orderbook env sy =
     eff_try
       (eff_bind (en_now env) (\<lambda>t. eff_bind (on_adapter (ad_book (ev_adapter env) sy t)) (\<lambda>(seq, bids, asks).
          on_market env (\<lambda>t. ingest_snapshot sy seq bids asks t))))
       (\<lambda>e. set_health env ''market_data_refresh'' False (sy @ '': '' @ class_name (exn_cls e)))"

definition market_price_of :: "md_state \<Rightarrow> string \<Rightarrow> dec" where
  "market_price_of m sy =
     (case map_of (md_books m) sy of Some b \<Rightarrow> (case mid_price b of Some p \<Rightarrow> p | None \<Rightarrow> 0) | None \<Rightarrow> 0)"

definition current_signed_quantity :: "'x engine_env \<Rightarrow> signal_intent \<Rightarrow> (string, position) dict \<Rightarrow> ('x, dec) act" where
  "current_signed_quantity env sg positions =
     (if s_market sg = PERPETUAL then
        eff_bind (eff_get en_perp) (\<lambda>pe.
          case pe of
            None \<Rightarrow> eff_ret 0
          | Some e \<Rightarrow> eff_bind (on_perp env (\<lambda>_ _ t. load_state t) e) (\<lambda>a.
              eff_ret (case map_of (pa_positions a) (s_symbol sg) of Some p \<Rightarrow> if is_flat p then 0 else mp_qty p | None \<Rightarrow> 0)))
      else eff_ret (case map_of positions (s_symbol sg) of Some p \<Rightarrow> p_qty p | None \<Rightarrow> 0))"

definition persist_risk :: "risk_decision \<Rightarrow> ('x, unit) act" where
  "persist_risk d = eff_mod (\<lambda>s. s\<lparr> en_risks := en_risks s @ [d] \<rparr>)"

text \<open>A rejected decision: stored, audited and returned.\<close>

definition reason_json :: "risk_decision \<Rightarrow> json" where
  "reason_json d = opt_json (rd_reason d)"

definition risk_rejected :: "'x engine_env \<Rightarrow> signal_intent \<Rightarrow> risk_decision \<Rightarrow> ('x, risk_decision option) act" where
  "risk_rejected env sg d =
     eff_then (log_for env ''RISK_REJECT'' (client_order_id sg) (\<lambda>a. a\<lparr> aa_client := Some (client_order_id sg),
        aa_before := [(''signal'', ev_dump env sg)], aa_after := [(''reason'', reason_json d)] \<rparr>))
     (eff_then (set_health env ''risk'' True []) (eff_ret (Some d)))"

definition no_reference_price :: "'x engine_env \<Rightarrow> signal_intent \<Rightarrow> ('x, risk_decision option) act" where
  "no_reference_price env sg =
     eff_bind (en_fresh env ''risk'') (\<lambda>rid. eff_bind (en_now env) (\<lambda>t. eff_bind (eff_get en_run) (\<lambda>run.
       let d = \<lparr> rd_id = rid, rd_order = None, rd_client = client_order_id sg, rd_symbol = s_symbol sg, rd_side = s_side sg,
                 rd_decision = REJECT, rd_reason = Some ''PERPETUAL_REFERENCE_PRICE_UNAVAILABLE'',
                 rd_checks = [(''reference_market_symbol'', JStr (reference_of sg))], rd_time = t, rd_run = run \<rparr>
       in eff_then (persist_risk d) (risk_rejected env sg d))))"

definition instrument_of_signal :: "'x engine \<Rightarrow> signal_intent \<Rightarrow> instrument option" where
  "instrument_of_signal s sg =
     (case map_of (en_instruments s) (s_symbol sg) of
        Some i \<Rightarrow> Some i
      | None \<Rightarrow>
          (case (if s_market sg = PERPETUAL then en_perp s else None) of
             None \<Rightarrow> None
           | Some e \<Rightarrow> map_option (\<lambda>c. \<lparr> i_symbol = s_symbol sg, i_base = pc_base c, i_quote = pc_quote c,
                 i_status = ''TRADING'', i_tick = pc_tick c, i_step = pc_step c, i_min_qty = 1 / 10 ^ 8, i_min_notional = 1 / 10 ^ 8,
                 i_price_precision = 8, i_qty_precision = 8, i_exchange = ''PAPER_PERPETUAL'' \<rparr>)
               (map_of (pe_contracts e) (s_symbol sg))))"

definition intent_of_signal :: "signal_intent \<Rightarrow> string option \<Rightarrow> order_intent" where
  "intent_of_signal sg run =
     \<lparr> oi_client = client_order_id sg, oi_symbol = s_symbol sg, oi_side = s_side sg, oi_type = s_type sg, oi_tif = s_tif sg,
       oi_price = s_limit sg, oi_qty = s_qty sg, oi_quote_qty = None, oi_strategy = s_strategy sg, oi_run = run,
       oi_expires = s_expires sg, oi_market = s_market sg, oi_pside = s_pside sg, oi_reduce_only = reduce_only_of sg,
       oi_meta = merge_meta (s_meta sg) [(''signal_id'', JStr (s_id sg))] \<rparr>"

definition lease_held_now :: "'x engine_env \<Rightarrow> ('x, bool) act" where
  "lease_held_now env =
     eff_bind (eff_get en_lease) (\<lambda>l.
       case (if ev_require_lease env then l else None) of
         None \<Rightarrow> eff_ret False
       | Some x \<Rightarrow> on_leases env (\<lambda>now db. (db, is_held now (ev_lease_key env) (Some (ls_token x)) db)))"

text \<open>The context of the authority: the book is judged at three readings of the clock.\<close>

definition authorization_context ::
  "'x engine_env \<Rightarrow> signal_intent \<Rightarrow> instrument option \<Rightarrow> bool \<Rightarrow> dec \<Rightarrow> risk_decision \<Rightarrow> usec \<Rightarrow> usec \<Rightarrow> usec \<Rightarrow> 'x engine
     \<Rightarrow> auth_ctx" where
  "authorization_context env sg ins held signed risk now t1 t2 s =
     (let c = ev_settings env; ref = reference_of sg in
      \<lparr> ax_now = Some now, ax_mode = effective_mode c, ax_live_enabled = st_live c,
        ax_lease_held = (held \<or> \<not> ev_require_lease env), ax_lease_token = None, ax_kill_switch = Some (en_ks s),
        ax_order_status = CREATED, ax_expires = s_expires sg, ax_data_fresh = is_fresh (en_md s) ref (st_data_age c) t1,
        ax_book_fresh = is_fresh (en_md s) ref (st_book_age c) t2, ax_book_healthy = is_healthy (en_md s) ref,
        ax_tradeable = (case ins of Some i \<Rightarrow> i_status i = ''TRADING'' | None \<Rightarrow> False),
        ax_connected = ad_connected (ev_adapter env) (en_adapter s), ax_balance_fresh = True, ax_risk = Some risk,
        ax_instrument = ins, ax_duplicate = False, ax_halted = en_halted s, ax_limiter = None, ax_min_notional_ok = True,
        ax_signed = signed, ax_notes = [] \<rparr>)"

fun decision_text :: "execution_decision \<Rightarrow> string" where
  "decision_text APPROVE = ''APPROVE''"
| "decision_text HOLD = ''HOLD''"
| "decision_text REJECT = ''REJECT''"

text \<open>A list of texts as Python prints it.\<close>

fun joined :: "string \<Rightarrow> string list \<Rightarrow> string" where
  "joined sep [] = []"
| "joined sep [t] = t"
| "joined sep (t # ts) = t @ sep @ joined sep ts"

definition quote :: string where
  "quote = [CHR 0x27]"

definition notes_text :: "string list \<Rightarrow> string" where
  "notes_text ns = ''['' @ joined '', '' (map (\<lambda>n. quote @ n @ quote) ns) @ '']''"

definition authority_refused ::
  "'x engine_env \<Rightarrow> signal_intent \<Rightarrow> risk_decision \<Rightarrow> execution_decision \<Rightarrow> string list \<Rightarrow> ('x, risk_decision option) act" where
  "authority_refused env sg risk d notes =
     eff_then (log_for env (''AUTHORITY_'' @ decision_text d) (client_order_id sg) (\<lambda>a. a\<lparr> aa_client := Some (client_order_id sg),
        aa_after := [(''notes'', JList (map JStr notes))] \<rparr>))
     (eff_ret (Some (risk\<lparr> rd_decision := d, rd_reason := Some (''AUTHORITY_'' @ decision_text d @ '': '' @ notes_text notes),
        rd_checks := AList.update ''authority_notes'' (JList (map JStr notes)) (rd_checks risk) \<rparr>)))"

subsection \<open>The order lifecycle\<close>

definition open_lifecycle :: "'x engine_env \<Rightarrow> order_intent \<Rightarrow> ('x, order) act" where
  "open_lifecycle env i =
     eff_bind (en_fresh env ''ord'') (\<lambda>oid.
     eff_bind (on_orders env (\<lambda>new t db. create_from_intent db oid new t i (effective_mode (ev_settings env)))) (\<lambda>ord.
     eff_then (on_orders env (\<lambda>new t db. om_validate db new t (o_id ord)))
     (eff_then (on_orders env (\<lambda>new t db. om_submitting db new t (o_id ord)))
     (eff_bind (on_orders env (\<lambda>new t db. om_submitted db new t (o_id ord))) (\<lambda>_. eff_ret ord)))))"

definition submit_to_exchange :: "'x engine_env \<Rightarrow> order \<Rightarrow> ('x, order) act" where
  "submit_to_exchange env ord =
     eff_bind (en_now env) (\<lambda>t s. (case ad_submit (ev_adapter env) ord t (en_adapter s) of
       (x, evs, r) \<Rightarrow> (s\<lparr> en_adapter := x, en_queue := en_queue s @ evs \<rparr>, r)))"

definition recovery_env_of :: "'x engine_env \<Rightarrow> string option \<Rightarrow> usec \<Rightarrow> 'x engine recovery_env" where
  "recovery_env_of env run t =
     \<lparr> re_gen = ev_gen env, re_now = t, re_run = run, re_audit = True, re_settle = settle_callback env, re_ids = en_ids,
       re_advance = (\<lambda>n w. w\<lparr> en_ids := en_ids w + n \<rparr>), re_log = (\<lambda>row w. w\<lparr> en_audit := en_audit w @ [row] \<rparr>) \<rparr>"

definition run_recovery :: "'x engine_env \<Rightarrow> ('x, unit) act" where
  "run_recovery env =
     eff_bind (en_now env) (\<lambda>t s.
       (case recover (recovery_env_of env (en_run s) t) (\<lambda>_ sy k. ad_order (ev_adapter env) sy k (en_adapter s))
               \<lparr> rv_db = en_db s, rv_world = s, rv_actions = [] \<rparr> of
          (q, r) \<Rightarrow> ((rv_world q)\<lparr> en_db := rv_db q \<rparr>, rbind r (\<lambda>_. ret ()))))"

definition log_order :: "'x engine_env \<Rightarrow> string \<Rightarrow> order \<Rightarrow> (audit_args \<Rightarrow> audit_args) \<Rightarrow> ('x, unit) act" where
  "log_order env action ord f =
     log_for env action (o_client ord) (\<lambda>a. f (a\<lparr> aa_client := Some (o_client ord), aa_order := Some (o_id ord) \<rparr>))"

text \<open>The \<open>except\<close> clauses around the submission, in their order.\<close>

definition submit_failed :: "'x engine_env \<Rightarrow> order \<Rightarrow> exn \<Rightarrow> ('x, unit) act" where
  "submit_failed env ord e =
     (let oid = o_id ord in
      if catches [UnknownExecutionState] e then
        eff_then (on_orders env (\<lambda>new t db. om_mark_unknown db new t oid (exn_msg e)))
        (eff_then (log_order env ''SUBMIT_TIMEOUT_UNKNOWN'' ord (\<lambda>a. a\<lparr> aa_after := [(''error'', JStr (exn_msg e))] \<rparr>))
           (run_recovery env))
      else if catches [TemporaryNetworkError, RateLimited, ExchangeError] e then
        eff_then (on_orders env (\<lambda>new t db. om_mark_unknown db new t oid (exn_msg e)))
          (log_order env ''SUBMIT_TRANSIENT_FAILURE'' ord (\<lambda>a. a\<lparr> aa_after := [(''error'', JStr (class_name (exn_cls e)))] \<rparr>))
      else if catches [OrderRejected] e then
        eff_bind (en_fresh env ''evt'') (\<lambda>eid.
          eff_then (on_orders env (\<lambda>new t db. om_reject db new t oid (exn_msg e) (Some eid)))
            (log_order env ''ORDER_REJECTED'' ord (\<lambda>a. a\<lparr> aa_after := [(''reason'', JStr (exn_msg e))] \<rparr>)))
      else eff_raise e)"

definition after_submit :: "'x engine_env \<Rightarrow> order \<Rightarrow> order \<Rightarrow> ('x, unit) act" where
  "after_submit env ord x =
     (let oid = o_id ord in
      eff_bind (en_fresh env ''evt'') (\<lambda>eid.
      eff_then (on_orders env (\<lambda>new t db. om_transition db new t oid ORDER_ACKNOWLEDGED
                  (no_args\<lparr> ea_event_id := Some eid, ea_exchange := o_exchange x \<rparr>)))
      (eff_then
        (if o_status x = OPEN then
           eff_bind (en_fresh env ''evt'') (\<lambda>e2. void (on_orders env (\<lambda>new t db. om_opened db new t oid (Some e2))))
         else if o_status x = CANCELLED then
           eff_bind (en_fresh env ''evt'') (\<lambda>e2. void (on_orders env (\<lambda>new t db. om_cancel_confirm db new t oid (Some e2))))
         else if o_status x = REJECTED then
           eff_bind (en_fresh env ''evt'') (\<lambda>e2. void (on_orders env (\<lambda>new t db. om_reject db new t oid
             (case or_str (o_reason x) (Some ''rejected on exchange'') of Some r \<Rightarrow> r | None \<Rightarrow> []) (Some e2))))
         else eff_ret ())
      (eff_then (log_order env ''ORDER_SUBMITTED'' ord (\<lambda>a. a\<lparr> aa_exchange := o_exchange x,
           aa_before := [(''status'', JStr (status_text SUBMITTED))], aa_after := [(''status'', JStr (status_text (o_status x)))] \<rparr>))
        (set_health env ''submission'' True [])))))"

text \<open>The exchange is asked once; what it raises is handled, what the handlers or the later steps raise is not.\<close>

definition place_order :: "'x engine_env \<Rightarrow> order_intent \<Rightarrow> ('x, unit) act" where
  "place_order env i =
     eff_bind (open_lifecycle env i) (\<lambda>ord.
     eff_bind (eff_try (eff_bind (submit_to_exchange env ord) (\<lambda>x. eff_ret (Some x)))
                (\<lambda>e. eff_then (submit_failed env ord e) (eff_ret None)))
       (\<lambda>r. case r of None \<Rightarrow> eff_ret () | Some x \<Rightarrow> after_submit env ord x))"

subsection \<open>The perpetual paper engine\<close>

definition meta_or :: "meta \<Rightarrow> string \<Rightarrow> json \<Rightarrow> json" where
  "meta_or m k d = (case map_of m k of Some j \<Rightarrow> j | None \<Rightarrow> d)"

definition side_to_trade :: "order_intent \<Rightarrow> position_side \<Rightarrow> position_side" where
  "side_to_trade i side = (if side = FLAT then (if oi_side i = BUY then LONG else SHORT) else side)"

definition perp_fee :: "perp_engine \<Rightarrow> order_intent \<Rightarrow> dec \<Rightarrow> dec" where
  "perp_fee e i price =
     (let c = (case map_of (pe_contracts e) (oi_symbol i) of Some c \<Rightarrow> c | None \<Rightarrow> pe_contract e)
      in dmul (dmul (dmul (oi_qty i) price) (pc_size c)) (pc_taker_fee c))"

definition perp_fill :: "string \<Rightarrow> string \<Rightarrow> usec \<Rightarrow> order \<Rightarrow> order_intent \<Rightarrow> position_side \<Rightarrow> dec \<Rightarrow> dec \<Rightarrow> fill" where
  "perp_fill fid trade t ord i side price fee =
     \<lparr> f_id = fid, f_trade = Some trade, f_order = o_id ord, f_client = Some (oi_client i),
       f_exchange = Some (''paper_perp_'' @ o_id ord), f_symbol = oi_symbol i, f_side = oi_side i, f_price = price,
       f_qty = oi_qty i, f_fee = fee, f_fee_ccy = Some ''USDT'', f_time = t,
       f_payload = [(''market_type'', JStr ''PERPETUAL''), (''position_side'', JStr (pside_text side)),
         (''decision_id'', meta_or (oi_meta i) ''decision_id'' (JStr [])), (''signal_id'', meta_or (oi_meta i) ''signal_id'' (JStr [])),
         (''reference_market_symbol'', meta_or (oi_meta i) ''reference_market_symbol'' (JStr (reference_symbol_for (oi_symbol i)))),
         (''exit_reason'', meta_or (oi_meta i) ''exit_reason'' (JStr [])), (''paper_execution'', JBool True)] \<rparr>"

definition trade_perpetual :: "'x engine_env \<Rightarrow> order_intent \<Rightarrow> position_side \<Rightarrow> dec \<Rightarrow> order \<Rightarrow> perp_engine \<Rightarrow> ('x, unit) act" where
  "trade_perpetual env i side price ord e =
     (if oi_reduce_only i then
        void (on_perp env (\<lambda>new ids t. close_position new ids t side (oi_qty i) price (Some (o_id ord)) (Some (oi_symbol i))) e)
      else
        void (on_perp env (\<lambda>new ids t. open_position new ids t side (oi_qty i) price (st_leverage (ev_settings env))
                (Some (o_id ord)) (Some (oi_symbol i))) e))"

definition execute_perpetual_order :: "'x engine_env \<Rightarrow> order_intent \<Rightarrow> dec \<Rightarrow> position_side \<Rightarrow> ('x, unit) act" where
  "execute_perpetual_order env i price pside =
     eff_bind (eff_get en_perp) (\<lambda>pe.
       case pe of
         None \<Rightarrow> log_for env ''PERPETUAL_ENGINE_MISSING'' (oi_client i) (\<lambda>a. a\<lparr> aa_client := Some (oi_client i) \<rparr>)
       | Some e \<Rightarrow>
           (let side = side_to_trade i pside in
            if price \<le> 0 then
              log_for env ''PERPETUAL_REFERENCE_PRICE_UNAVAILABLE'' (oi_client i) (\<lambda>a. a\<lparr> aa_client := Some (oi_client i),
                aa_after := [(''price'', JDec price)] \<rparr>)
            else
              eff_bind (open_lifecycle env i) (\<lambda>ord.
              eff_then (trade_perpetual env i side price ord e)
              (eff_bind (en_fresh env ''fill'') (\<lambda>fid. eff_bind (en_fresh env ''trd'') (\<lambda>trade. eff_bind (en_now env) (\<lambda>t.
               let f = perp_fill fid trade t ord i side price (perp_fee e i price) in
               eff_then (apply_engine_fill env f)
               (eff_then (log_order env ''PERPETUAL_ORDER_FILLED'' ord (\<lambda>a. a\<lparr> aa_after :=
                  [(''side'', JStr (pside_text side)), (''quantity'', JDec (oi_qty i)), (''reduce_only'', JBool (oi_reduce_only i)),
                   (''fill_id'', JStr fid), (''price'', JDec price), (''fee'', JDec (f_fee f))] \<rparr>))
                 (set_health env ''submission'' True [])))))))))"

subsection \<open>The whole method\<close>

text \<open>What the risk engine and the authority have let pass.\<close>

definition route_order :: "'x engine_env \<Rightarrow> signal_intent \<Rightarrow> dec \<Rightarrow> order_intent \<Rightarrow> ('x, unit) act" where
  "route_order env sg price i =
     (if s_market sg = PERPETUAL then execute_perpetual_order env i price (s_pside sg) else place_order env i)"

definition authorize_signal ::
  "'x engine_env \<Rightarrow> signal_intent \<Rightarrow> dec \<Rightarrow> dec \<Rightarrow> risk_decision \<Rightarrow> ('x, risk_decision option) act" where
  "authorize_signal env sg price signed risk =
     eff_bind (eff_get (\<lambda>s. instrument_of_signal s sg)) (\<lambda>ins.
     eff_bind (lease_held_now env) (\<lambda>held.
     eff_bind (en_now env) (\<lambda>now. eff_bind (en_now env) (\<lambda>t1. eff_bind (en_now env) (\<lambda>t2.
     eff_bind (eff_get (\<lambda>s. (intent_of_signal sg (en_run s), authorization_context env sg ins held signed risk now t1 t2 s))) (\<lambda>(i, c).
     eff_bind (eff_lift (snd (authorize now 0 i c))) (\<lambda>(d, notes).
       if d \<noteq> APPROVE then authority_refused env sg risk d notes
       else eff_then (route_order env sg price i) (eff_ret (Some risk)))))))))"

definition risk_context ::
  "account \<Rightarrow> (string, position) dict \<Rightarrow> dec \<Rightarrow> int \<Rightarrow> dec \<Rightarrow> 'x engine \<Rightarrow> risk_ctx" where
  "risk_context acc positions price open_orders signed s =
     \<lparr> rx_account = acc, rx_positions = positions, rx_market_price = price, rx_open_orders = open_orders, rx_daily_pnl = 0,
       rx_drawdown = 0, rx_failures = en_failures s, rx_run = en_run s, rx_order = None, rx_signed = Some signed \<rparr>"

definition consider_signal ::
  "'x engine_env \<Rightarrow> signal_intent \<Rightarrow> account \<Rightarrow> (string, position) dict \<Rightarrow> dec \<Rightarrow> int \<Rightarrow> ('x, risk_decision option) act" where
  "consider_signal env sg acc positions price open_orders =
     eff_bind (current_signed_quantity env sg positions) (\<lambda>signed.
     eff_bind (en_fresh env ''risk'') (\<lambda>rid. eff_bind (en_now env) (\<lambda>t.
     eff_bind (eff_get (\<lambda>s. risk_check (ev_risk env) (en_ks s) rid t (risk_context acc positions price open_orders signed s) (FromSignal sg)))
       (\<lambda>r. eff_bind (eff_lift r) (\<lambda>risk.
     eff_then (persist_risk risk)
     (if rd_decision risk \<noteq> APPROVE then risk_rejected env sg risk else authorize_signal env sg price signed risk))))))"

definition process_signal :: "'x engine_env \<Rightarrow> signal_intent \<Rightarrow> ('x, risk_decision option) act" where
  "process_signal env sg =
     eff_bind (eff_get (\<lambda>s. get_by_client (en_db s) (client_order_id sg))) (\<lambda>existing.
       case existing of
         Some ord \<Rightarrow>
           eff_then (log_for env ''SIGNAL_IDEMPOTENT_RETRY'' (client_order_id sg) (\<lambda>a. a\<lparr> aa_client := Some (client_order_id sg),
             aa_order := Some (o_id ord) \<rparr>)) (eff_ret None)
       | None \<Rightarrow>
           eff_bind (en_now env) (\<lambda>t.
           eff_bind (eff_get (\<lambda>s. get_account (en_ledger s) (effective_mode (ev_settings env)) t)) (\<lambda>ra.
           eff_bind (eff_lift ra) (\<lambda>acc.
           eff_bind (eff_get (\<lambda>s. get_positions (en_proj s))) (\<lambda>positions.
           eff_then (if ad_real (ev_adapter env) then refresh_orderbook env (reference_of sg) else eff_ret ())
           (eff_bind (eff_get (\<lambda>s. (market_price_of (en_md s) (reference_of sg), count_open (en_db s)))) (\<lambda>(price, open_orders).
             if s_market sg = PERPETUAL \<and> price \<le> 0 then no_reference_price env sg
             else consider_signal env sg acc positions price open_orders)))))))"

end
