(* ===== verification/Engine_Loops.thy ===== *)
theory Engine_Loops
  imports Engine_Signals
begin

text \<open>
  \<open>runtime/engine.py\<close>: the turns of the loops, \<open>start\<close> and \<open>stop\<close>. A strategy is what it answers to the
  context of this turn; the AI position bridge is an action that is given.
\<close>

subsection \<open>A tick\<close>

record strategy_context =
  sx_symbol :: string
  sx_book :: order_book
  sx_account :: account
  sx_positions :: "(string, position) dict"
  sx_time :: usec
  sx_run :: "string option"
  sx_mark :: "dec option"
  sx_index :: "dec option"
  sx_funding :: "dec option"
  sx_oi :: "dec option"
  sx_basis :: "dec option"

record strategy =
  sg_name :: string
  sg_symbol :: "string option"
  sg_decide :: "strategy_context \<Rightarrow> signal_intent list res"

definition context_symbol :: "strategy list \<Rightarrow> string" where
  "context_symbol sts = (case sts of [] \<Rightarrow> ''BTCUSDT'' | st # _ \<Rightarrow> (case sg_symbol st of Some sy \<Rightarrow> sy | None \<Rightarrow> ''BTCUSDT''))"

definition invalidate_cached :: "'x engine_env \<Rightarrow> string \<Rightarrow> ('x, unit) act" where
  "invalidate_cached env sy =
     eff_then (on_market env (\<lambda>t m. (put_book sy (invalidate t (book_of m sy)) m, ret ())))
       (set_health env ''market_data'' False (sy @ '' invalidated''))"

text \<open>The book as it is fetched now; without one there is no context, and a cached book is invalidated.\<close>

definition fetch_book :: "'x engine_env \<Rightarrow> string \<Rightarrow> ('x, order_book option) act" where
  "fetch_book env sy =
     eff_bind (eff_get (\<lambda>s. map_of (md_books (en_md s)) sy)) (\<lambda>cached.
       eff_try
         (eff_bind (en_now env) (\<lambda>t. eff_bind (on_adapter (ad_book (ev_adapter env) sy t)) (\<lambda>(seq, bids, asks).
          eff_then (on_market env (\<lambda>t. ingest_snapshot sy seq bids asks t))
          (eff_bind (eff_get (\<lambda>s. book_of (en_md s) sy)) (\<lambda>b.
          eff_then (set_health env ''market_data'' True []) (eff_ret (Some b)))))))
         (\<lambda>e. eff_then (if cached = None then eff_ret () else invalidate_cached env sy) (eff_ret None)))"

definition fetch_market_state :: "'x engine_env \<Rightarrow> string \<Rightarrow> ('x, market_state option) act" where
  "fetch_market_state env sy =
     (case ad_market_state (ev_adapter env) of
        None \<Rightarrow> eff_ret None
      | Some f \<Rightarrow> eff_try (eff_bind (on_adapter (f sy)) (\<lambda>m. eff_ret (Some m))) (\<lambda>e. eff_ret None))"

definition strategy_context_for :: "'x engine_env \<Rightarrow> strategy list \<Rightarrow> ('x, strategy_context option) act" where
  "strategy_context_for env sts =
     (let sy = context_symbol sts in
      eff_bind (fetch_book env sy) (\<lambda>fetched.
        case fetched of
          None \<Rightarrow> eff_ret None
        | Some b \<Rightarrow>
            eff_bind (en_now env) (\<lambda>t.
            eff_bind (eff_get (\<lambda>s. get_account (en_ledger s) (effective_mode (ev_settings env)) t)) (\<lambda>ra.
            eff_bind (eff_lift ra) (\<lambda>acc.
            eff_bind (eff_get (\<lambda>s. (get_positions (en_proj s), en_run s))) (\<lambda>(ps, run).
            eff_bind (fetch_market_state env sy) (\<lambda>m.
            eff_bind (en_now env) (\<lambda>now.
              eff_ret (Some \<lparr> sx_symbol = sy, sx_book = b, sx_account = acc, sx_positions = ps, sx_time = now, sx_run = run,
                sx_mark = map_option mk_mark m, sx_index = map_option mk_index m, sx_funding = Option.bind m mk_funding_rate,
                sx_oi = Option.bind m mk_oi, sx_basis = Option.bind m mk_basis \<rparr>)))))))))"

definition active_symbols :: "(string, position) dict \<Rightarrow> string list" where
  "active_symbols ps = map fst (filter (\<lambda>(_, p). p_qty p \<noteq> 0) ps)"

fun run_signals :: "'x engine_env \<Rightarrow> string list \<Rightarrow> signal_intent list \<Rightarrow> ('x, risk_decision list) act" where
  "run_signals env active [] = eff_ret []"
| "run_signals env active (sg # sgs) =
     (if s_symbol sg \<in> set active \<and> s_strategy sg \<noteq> ''ai_brain'' then run_signals env active sgs
      else eff_bind (process_signal env sg) (\<lambda>d. eff_bind (run_signals env active sgs) (\<lambda>ds.
        eff_ret (case d of Some x \<Rightarrow> x # ds | None \<Rightarrow> ds))))"

definition run_strategy :: "'x engine_env \<Rightarrow> strategy list \<Rightarrow> string list \<Rightarrow> strategy \<Rightarrow> ('x, risk_decision list) act" where
  "run_strategy env sts active st =
     eff_bind (strategy_context_for env sts) (\<lambda>c.
       case c of
         None \<Rightarrow> eff_ret []
       | Some ctx \<Rightarrow>
           (case sg_decide st ctx of
              Inl e \<Rightarrow> eff_then (eff_mod (\<lambda>s. s\<lparr> en_failures := en_failures s + 1 \<rparr>))
                 (eff_then (set_health env (''strategy:'' @ sg_name st) False []) (eff_ret []))
            | Inr sgs \<Rightarrow> eff_then (eff_mod (\<lambda>s. s\<lparr> en_failures := 0 \<rparr>))
                 (eff_then (set_health env (''strategy:'' @ sg_name st) True [])
                 (eff_then (case sgs of [] \<Rightarrow> eff_ret () | sg # _ \<Rightarrow> refresh_orderbook env (reference_symbol_for (s_symbol sg)))
                   (run_signals env active sgs)))))"

fun run_strategies :: "'x engine_env \<Rightarrow> strategy list \<Rightarrow> string list \<Rightarrow> strategy list \<Rightarrow> ('x, risk_decision list) act" where
  "run_strategies env sts active [] = eff_ret []"
| "run_strategies env sts active (st # rest) =
     eff_bind (run_strategy env sts active st) (\<lambda>ds. eff_bind (run_strategies env sts active rest) (\<lambda>es. eff_ret (ds @ es)))"

definition tick_strategies :: "'x engine_env \<Rightarrow> strategy list \<Rightarrow> ('x, risk_decision list) act" where
  "tick_strategies env sts =
     eff_bind (eff_get (\<lambda>s. active_symbols (get_positions (en_proj s)))) (\<lambda>active. run_strategies env sts active sts)"

definition tick :: "'x engine_env \<Rightarrow> strategy list \<Rightarrow> ('x, unit) act option \<Rightarrow> ('x, risk_decision list) act" where
  "tick env sts bridge =
     eff_bind (tick_strategies env sts) (\<lambda>ds.
     eff_then (case bridge of None \<Rightarrow> eff_ret () | Some b \<Rightarrow> b)
     (eff_then (set_health env ''engine_loop'' True []) (eff_ret ds)))"

subsection \<open>The other loops\<close>

definition lease_turn :: "'x engine_env \<Rightarrow> ('x, unit) act" where
  "lease_turn env =
     eff_bind (eff_get en_lease) (\<lambda>l.
       case l of
         None \<Rightarrow> eff_ret ()
       | Some x \<Rightarrow>
           eff_bind (on_leases env (\<lambda>now. renew now (ev_lease_key env) (ls_token x) (st_lease_ttl (ev_settings env)))) (\<lambda>ok.
           eff_then (set_health env ''execution_lease'' ok [])
             (if ok then eff_ret ()
              else eff_bind (en_now env) (\<lambda>t. eff_mod (\<lambda>s. s\<lparr> en_ks := ks_engage ''execution lease lost'' t (en_ks s) \<rparr>)))))"

text \<open>The service replays the ledger first; when that fails the exchange is not asked.\<close>

definition reconcile_now :: "'x engine_env \<Rightarrow> ('x, recon_report) act" where
  "reconcile_now env =
     eff_bind (en_fresh env ''recon'') (\<lambda>rid. eff_bind (en_now env) (\<lambda>t.
     eff_bind (eff_get (\<lambda>s. replay_projections (en_ledger s) [] ''default'' RECON_EXCLUDED)) (\<lambda>sn.
     eff_bind (case sn of Inl e \<Rightarrow> eff_ret (Inl e) | Inr _ \<Rightarrow> on_adapter (\<lambda>x. (case ad_balances (ev_adapter env) x of (y, r) \<Rightarrow> (y, ret r)))) (\<lambda>bs.
     eff_bind (case bs of Inl e \<Rightarrow> eff_ret (Inl e) | Inr _ \<Rightarrow> on_adapter (\<lambda>x. (case ad_positions (ev_adapter env) x of (y, r) \<Rightarrow> (y, ret r)))) (\<lambda>ps s.
       (case reconcile (ev_arrange env) rid t (en_ledger s) bs ps (en_recons s) of
          (rows, r) \<Rightarrow> (s\<lparr> en_recons := rows \<rparr>, r)))))))"

definition reconciliation_turn :: "'x engine_env \<Rightarrow> ('x, unit) act" where
  "reconciliation_turn env =
     eff_bind (reconcile_now env) (\<lambda>rep.
     eff_then (eff_mod (\<lambda>s. s\<lparr> en_halted := rc_halt rep \<rparr>))
       (set_health env ''reconciliation'' (\<not> rc_halt rep) (joined ''; '' (take 3 (rc_alerts rep)))))"

subsection \<open>Starting\<close>

text \<open>What \<open>set.update\<close> adds: the elements of a list, the characters of a text, the keys of a mapping.\<close>

definition update_texts :: "json \<Rightarrow> string list" where
  "update_texts j =
     (case j of
        JList js \<Rightarrow> concat (map (\<lambda>x. case x of JStr t \<Rightarrow> [t] | _ \<Rightarrow> []) js)
      | JStr t \<Rightarrow> map (\<lambda>c. [c]) t
      | JObj kvs \<Rightarrow> map fst kvs
      | _ \<Rightarrow> [])"

definition quarantined_fill_ids :: "audit_event list \<Rightarrow> string list" where
  "quarantined_fill_ids rows =
     concat (map (\<lambda>row. case map_of (au_after row) ''tainted_fill_ids'' of Some j \<Rightarrow> update_texts j | None \<Rightarrow> [])
       (filter (\<lambda>row. au_action row = ''EVIDENCE_QUARANTINE'') rows))"

definition deposit_postings :: "balance \<Rightarrow> posting list" where
  "deposit_postings b = [post ''CASH'' DEBIT (b_total b) (b_ccy b), post ''EQUITY'' CREDIT (b_total b) (b_ccy b)]"

definition record_deposit :: "'x engine_env \<Rightarrow> balance \<Rightarrow> ('x, unit) act" where
  "record_deposit env b = void (record_ledger env DEPOSIT (deposit_postings b)
     (no_record_args\<lparr> ra_meta := [(''amount'', JDec (b_total b)), (''currency'', JStr (b_ccy b))] \<rparr>))"

definition set_initial :: "(string, dec) dict \<Rightarrow> ('x, unit) act" where
  "set_initial d = eff_mod (\<lambda>s. s\<lparr> en_initial := d \<rparr>)"

definition seed_initial_balances :: "'x engine_env \<Rightarrow> ('x, unit) act" where
  "seed_initial_balances env =
     eff_bind (eff_get (\<lambda>s. replay_projections (en_ledger s) [] ''default'' [])) (\<lambda>r.
     eff_bind (eff_lift r) (\<lambda>sn.
       if sn_balances sn \<noteq> [] then set_initial (map (\<lambda>(c, row). (c, br_total row)) (sn_balances sn))
       else eff_then (set_initial [])
         (if effective_mode (ev_settings env) \<noteq> PAPER then eff_ret ()
          else eff_bind (on_adapter (ad_balances (ev_adapter env))) (\<lambda>bs.
            eff_then (set_initial (keyed b_ccy b_total bs []))
            (eff_then (eff_each (record_deposit env) bs) (refresh_portfolio env))))))"

definition load_instruments :: "'x engine_env \<Rightarrow> ('x, unit) act" where
  "load_instruments env =
     eff_try
       (eff_bind (on_adapter (ad_info (ev_adapter env))) (\<lambda>is. eff_mod (\<lambda>s. s\<lparr> en_instruments := by_symbol is \<rparr>)))
       (\<lambda>e. eff_mod (\<lambda>s. s\<lparr> en_instruments := [] \<rparr>))"

definition acquire_lease :: "'x engine_env \<Rightarrow> string \<Rightarrow> ('x, unit) act" where
  "acquire_lease env run =
     eff_bind (en_fresh env ''lease'') (\<lambda>token. eff_bind en_block (\<lambda>nid.
     eff_bind (on_leases env (\<lambda>now. acquire now token (int nid) (ev_lease_key env) (''engine_'' @ run) (st_lease_ttl (ev_settings env))))
       (\<lambda>a. case a of
              Failed e \<Rightarrow> eff_raise e
            | Retry \<Rightarrow> eff_raise (Exn IntegrityError [])
            | Done l \<Rightarrow> eff_then (eff_mod (\<lambda>s. s\<lparr> en_lease := l \<rparr>))
                (if l \<noteq> None then eff_ret ()
                 else eff_then (persist_run env STOPPED) (eff_then (enter_state STOPPED)
                        (eff_raise (Exn LeaseNotHeld ''another engine instance holds the execution lease'')))))))"

text \<open>\<open>start\<close> once it is known that the engine does not run, in the order of the method.\<close>

definition recover_and_run :: "'x engine_env \<Rightarrow> ('x, unit) act" where
  "recover_and_run env =
     eff_then (enter_state RECOVERING) (eff_then (persist_run env RECOVERING)
     (eff_then (seed_initial_balances env)
     (eff_then (case ad_hydrate (ev_adapter env) of None \<Rightarrow> eff_ret ()
                | Some h \<Rightarrow> eff_bind (eff_get en_ledger) (\<lambda>db. on_adapter (h db)))
     (eff_then (load_instruments env)
     (eff_then (eff_mod (\<lambda>s. s\<lparr> en_settling := True \<rparr>))
     (eff_then (run_recovery env) (eff_then (set_health env ''recovery'' True [])
     (eff_then (enter_state RUNNING) (eff_then (persist_run env RUNNING)
     (eff_then (eff_each (\<lambda>_. on_adapter (ad_subscribe (ev_adapter env))) [1 :: nat, 2, 3])
        (eff_mod (\<lambda>s. s\<lparr> en_running := True, en_dead := [] \<rparr>))))))))))))"

definition start_engine :: "'x engine_env \<Rightarrow> string option \<Rightarrow> ('x, string option) act" where
  "start_engine env rid =
     eff_then (eff_mod (\<lambda>s. s\<lparr> en_quarantined := quarantined_fill_ids (en_audit s) \<rparr>))
     (eff_bind (eff_get (\<lambda>s. (en_running s, en_run s))) (\<lambda>(running, run).
       if running then eff_ret run
       else
         eff_bind (if truthy_str rid then eff_ret (the rid) else en_fresh env ''run'') (\<lambda>r.
         eff_then (eff_mod (\<lambda>s. s\<lparr> en_run := Some r \<rparr>))
         (eff_then (enter_state STARTING) (eff_then (persist_run env STARTING)
         (eff_then (on_adapter (ad_connect (ev_adapter env))) (eff_then (set_health env ''adapter_connection'' True [])
         (eff_then (if ev_require_lease env then acquire_lease env r else eff_ret ())
         (eff_then (eff_bind (eff_get en_lease) (\<lambda>l. set_health env ''execution_lease'' (l \<noteq> None \<or> \<not> ev_require_lease env) []))
         (eff_then (recover_and_run env)
         (eff_then (log_for env ''ENGINE_STARTED'' r id) (eff_ret (Some r)))))))))))))"

text \<open>The tasks in the order in which \<open>stop\<close> awaits them: what the first ended one has raised is raised again,
  before the lease is released.\<close>

definition await_tasks :: "('x, unit) act" where
  "await_tasks =
     eff_bind (eff_get en_dead) (\<lambda>dead.
       case List.map_filter (map_of dead) [EventLoop, TickLoop, LeaseLoop, ReconciliationLoop] of
         [] \<Rightarrow> eff_ret ()
       | e # _ \<Rightarrow> eff_raise e)"

definition stop_engine :: "'x engine_env \<Rightarrow> ('x, unit) act" where
  "stop_engine env =
     eff_bind (eff_get (\<lambda>s. (en_running s, en_run s))) (\<lambda>(running, run).
       if \<not> running then eff_ret ()
       else
         eff_then (eff_mod (\<lambda>s. s\<lparr> en_running := False \<rparr>))
         (eff_then await_tasks
         (eff_then (eff_bind (eff_get en_lease) (\<lambda>l. case l of
              None \<Rightarrow> eff_ret ()
            | Some x \<Rightarrow> eff_then (void (on_leases env (\<lambda>_. release (ev_lease_key env) (ls_token x)))) (eff_mod (\<lambda>s. s\<lparr> en_lease := None \<rparr>))))
         (eff_then (on_adapter (ad_disconnect (ev_adapter env)))
         (eff_then (enter_state STOPPING) (eff_then (enter_state STOPPED)
         (eff_then (persist_run env STOPPED)
           (log_for env ''ENGINE_STOPPED'' (case run of Some r \<Rightarrow> r | None \<Rightarrow> []) id))))))))"

text \<open>What the tasks do on each turn; the strategies are given for the turn.\<close>

fun loop_action :: "'x engine_env \<Rightarrow> strategy list \<Rightarrow> loop_task \<Rightarrow> ('x, unit) act" where
  "loop_action env sts EventLoop = handle_queued env"
| "loop_action env sts TickLoop = void (tick env sts None)"
| "loop_action env sts LeaseLoop = lease_turn env"
| "loop_action env sts ReconciliationLoop = reconciliation_turn env"

text \<open>A new engine on the tables of the database.\<close>

definition engine_init :: "'x \<Rightarrow> om_db \<Rightarrow> ledger_db \<Rightarrow> projection_db \<Rightarrow> lease_db \<Rightarrow> perp_engine option \<Rightarrow> md_state \<Rightarrow> kill_switch \<Rightarrow> 'x engine" where
  "engine_init x db ledger pj leases pe md ks =
     \<lparr> en_db = db, en_ledger = ledger, en_proj = pj, en_leases = leases, en_audit = [], en_risks = [], en_recons = [],
       en_runs = [], en_adapter = x, en_perp = pe, en_md = md, en_ks = ks, en_health = [], en_state = STOPPED, en_run = None,
       en_lease = None, en_halted = False, en_queue = [], en_running = False, en_dead = [], en_initial = [], en_instruments = [],
       en_failures = 0, en_quarantined = [], en_settling = False, en_ids = 0, en_reads = 0 \<rparr>"

definition runtime_snapshot :: "'x engine_env \<Rightarrow> 'x engine \<Rightarrow> string option \<times> runtime_state \<times> trading_mode \<times> bool \<times> bool \<times> (health_status \<times> health) \<times> kill_switch" where
  "runtime_snapshot env s =
     (en_run s, en_state s, effective_mode (ev_settings env), en_lease s \<noteq> None, en_halted s, health_snapshot (en_health s), en_ks s)"

end
