(* ===== verification/Engine_Example.thy ===== *)
theory Engine_Example
  imports Engine_Loops
begin

text \<open>
  A small engine for the concrete checks: one instrument, one book, and an exchange that acknowledges
  every order, fills it at once and counts its submissions.
\<close>

definition ex_event :: "exchange_event_type \<Rightarrow> string \<Rightarrow> dec \<Rightarrow> exchange_event" where
  "ex_event ty xid q = \<lparr> ee_id = ''ev_'' @ xid, ee_type = ty, ee_symbol = None, ee_time = 0,
     ee_payload = [(''exchange_order_id'', JStr xid), (''fill_id'', JStr (''fill_'' @ xid)), (''fill_price'', JRaw 101),
       (''fill_quantity'', JRaw q)] \<rparr>"

definition ex_adapter :: "nat adapter" where
  "ex_adapter =
     \<lparr> ad_connect = (\<lambda>x. (x, ret ())), ad_disconnect = (\<lambda>x. (x, ret ())), ad_connected = (\<lambda>_. True), ad_subscribe = (\<lambda>x. (x, ret ())),
       ad_info = (\<lambda>x. (x, ret [ex_instrument])), ad_balances = (\<lambda>x. (x, ret [])), ad_positions = (\<lambda>x. (x, ret [])),
       ad_book = (\<lambda>_ _ x. (x, ret (1, [(99, 5)], [(101, 5)]))),
       ad_submit = (\<lambda>ord _ x. let xid = ''x'' @ replicate (Suc x) CHR ''1'' in
          (Suc x, [ex_event EX_ORDER_FILLED xid \<bar>o_qty ord\<bar>], ret (ord\<lparr> o_exchange := Some xid, o_status := ACKNOWLEDGED \<rparr>))),
       ad_order = (\<lambda>_ _ _. raise OrderNotFound), ad_hydrate = None, ad_market_state = None, ad_real = True \<rparr>"

definition ex_engine_env :: "nat engine_env" where
  "ex_engine_env = \<lparr> ev_gen = ex_gen, ev_clock = int,
     ev_settings = \<lparr> st_mode = PAPER, st_live = False, st_lease_ttl = 10, st_data_age = 5, st_book_age = 2, st_leverage = 1 \<rparr>,
     ev_risk = default_risk_config, ev_adapter = ex_adapter, ev_provider = None, ev_arrange = (\<lambda>xs. xs),
     ev_dump = (\<lambda>_. JNull), ev_lease_key = ''k'', ev_require_lease = False \<rparr>"

text \<open>After \<open>start\<close>, with some quarantined fills.\<close>

definition ex_engine :: "string list \<Rightarrow> nat engine" where
  "ex_engine quarantined =
     (engine_init 0 \<lparr> db_orders = [], db_events = [], db_fills = [] \<rparr> [] \<lparr> pj_accounts = [], pj_positions = [] \<rparr> [] None
        md_init (kill_switch_init False))
       \<lparr> en_instruments := [(''BTCUSDT'', ex_instrument)], en_settling := True, en_quarantined := quarantined \<rparr>"

text \<open>A signal is processed, and then the fill that the exchange has reported.\<close>

definition ex_bought :: "string list \<Rightarrow> nat engine" where
  "ex_bought q = fst (process_signal ex_engine_env (ex_signal BUY 1) (ex_engine q))"

definition ex_filled :: "string list \<Rightarrow> nat engine" where
  "ex_filled q = fst (event_turn ex_engine_env (ex_bought q))"

definition ex_tables :: "nat engine \<Rightarrow> order_status list \<times> string list \<times> string list" where
  "ex_tables s = (map o_status (db_orders (en_db s)), map f_id (db_fills (en_db s)), List.map_filter x_fill (en_ledger s))"

lemma ex_bought_tables: "ex_tables (ex_bought []) = ([ACKNOWLEDGED], [], [])"
  by code_simp

lemma ex_filled_tables: "ex_tables (ex_filled []) = ([FILLED], [''fill_x1''], [''fill_x1''])"
  by code_simp

lemma ex_quarantined_tables: "ex_tables (ex_filled [''fill_x1'']) = ([FILLED], [''fill_x1''], [])"
  by code_simp

end
