(* ===== verification/Engine_Invariant.thy ===== *)
theory Engine_Invariant
  imports Engine_Example
begin

text \<open>
  What the engine keeps of its tables, whatever signals, events and answers of the exchange arrive:
  first the steps that leave orders, ledger and queue alone, then the invariant of all steps.
\<close>

subsection \<open>Steps that leave the tables alone\<close>

definition same_tables :: "'x engine \<Rightarrow> 'x engine \<Rightarrow> bool" where
  "same_tables s t \<longleftrightarrow> en_db t = en_db s \<and> en_ledger t = en_ledger s \<and> en_queue t = en_queue s"

interpretation quiet: step_relation same_tables
  by unfold_locales (auto simp: same_tables_def)

named_theorems quiet_steps

lemma quiet_basic [quiet_steps]:
  "moves same_tables (en_now env)" "moves same_tables (en_fresh env p)" "moves same_tables en_block"
  "moves same_tables (on_adapter f)" "moves same_tables (enter_state st)" "moves same_tables (persist_risk d)"
  "moves same_tables (set_initial b)"
  by (auto simp: moves_def same_tables_def en_now_def en_fresh_def en_block_def on_adapter_def eff_zoom_def enter_state_def
      persist_risk_def set_initial_def split: prod.split)

lemma quiet_bound [quiet_steps]:
  "moves same_tables (on_market env m)" "moves same_tables (on_leases env g)" "moves same_tables (refresh_portfolio env)"
  "moves same_tables (set_health env name ok d)" "moves same_tables (audit_log env action a)" "moves same_tables (persist_run env st)"
  unfolding on_market_def on_leases_def refresh_portfolio_def set_health_def audit_log_def persist_run_def
  by (rule quiet.bind; (rule quiet_steps)?; auto simp: moves_def same_tables_def eff_zoom_def Let_def split: prod.split)+

lemma quiet_log [quiet_steps]: "moves same_tables (log_for env action target f)" "moves same_tables (log_order env action ord f)"
  unfolding log_for_def log_order_def by (intro quiet.rules quiet_steps)+

lemma quiet_load [quiet_steps]: "moves same_tables (on_perp env (\<lambda>_ _ t. load_state t) e)"
proof -
  have "pe_ledger (fst (load_state t e)) = pe_ledger e" for t e
    by (auto simp: load_state_def Let_def split: sum.split)
  then show ?thesis unfolding on_perp_def
    by (intro quiet.bind quiet_steps) (auto simp: moves_def same_tables_def split: prod.split, metis fst_conv perp_engine.select_convs(3) perp_engine.surjective perp_engine.update_convs(3))
qed

lemma quiet_book [quiet_steps]: "moves same_tables (refresh_orderbook env sy)"
  unfolding refresh_orderbook_def by (auto intro!: quiet.rules quiet_steps split: prod.split)

lemma quiet_signed [quiet_steps]: "moves same_tables (current_signed_quantity env sg ps)"
  unfolding current_signed_quantity_def by (auto intro!: quiet.rules quiet_steps split: option.split)

lemma quiet_held [quiet_steps]: "moves same_tables (lease_held_now env)"
  unfolding lease_held_now_def by (auto intro!: quiet.rules quiet_steps split: option.split)

lemma quiet_refusals [quiet_steps]:
  "moves same_tables (risk_rejected env sg d)" "moves same_tables (authority_refused env sg d dec notes)"
  unfolding risk_rejected_def authority_refused_def by (intro quiet.rules quiet_steps)+

lemma quiet_no_price [quiet_steps]: "moves same_tables (no_reference_price env sg)"
  unfolding no_reference_price_def Let_def by (intro quiet.rules quiet_steps)

lemma quiet_market_event [quiet_steps]: "moves same_tables (process_market_event env ev)"
  unfolding process_market_event_def Let_def by (auto intro!: quiet.rules quiet_steps)

lemma quiet_context [quiet_steps]: "moves same_tables (strategy_context_for env sts)"
  unfolding strategy_context_for_def fetch_book_def invalidate_cached_def fetch_market_state_def Let_def
  by (auto intro!: quiet.rules quiet_steps split: option.split prod.split)

lemma quiet_lease_turn [quiet_steps]: "moves same_tables (lease_turn env)"
  unfolding lease_turn_def by (auto intro!: quiet.rules quiet_steps quiet.upd split: option.split simp: same_tables_def)

lemma quiet_reconciliation [quiet_steps]: "moves same_tables (reconciliation_turn env)"
proof -
  have "moves same_tables (reconcile_now env)"
    unfolding reconcile_now_def
    by (auto intro!: quiet.rules quiet_steps split: sum.split) (auto simp: moves_def same_tables_def split: prod.split)
  then show ?thesis unfolding reconciliation_turn_def
    by (auto intro!: quiet.rules quiet_steps quiet.upd simp: same_tables_def)
qed

lemma quiet_acquire [quiet_steps]: "moves same_tables (acquire_lease env run)"
  unfolding acquire_lease_def by (auto intro!: quiet.rules quiet_steps quiet.upd simp: same_tables_def split: attempt.split)

lemma quiet_instruments [quiet_steps]: "moves same_tables (load_instruments env)"
  unfolding load_instruments_def by (auto intro!: quiet.rules quiet_steps quiet.upd simp: same_tables_def)

lemma quiet_stop [quiet_steps]: "moves same_tables (stop_engine env)"
  unfolding stop_engine_def await_tasks_def void_def
  by (auto intro!: quiet.rules quiet_steps quiet.upd simp: same_tables_def split: option.split list.split)

subsection \<open>The invariant of the tables\<close>

text \<open>The fills that the ledger has settled: each at most once, and none that the order tables do not hold.\<close>

definition settled_fills :: "ledger_db \<Rightarrow> string list" where
  "settled_fills db = concat (map (\<lambda>x. case x_fill x of Some f \<Rightarrow> [f] | None \<Rightarrow> []) db)"

definition settled_ok :: "om_db \<Rightarrow> ledger_db \<Rightarrow> bool" where
  "settled_ok db ledger \<longleftrightarrow> distinct (settled_fills ledger) \<and> set (settled_fills ledger) \<subseteq> f_id ` set (db_fills db)"

text \<open>An event that does not report a negative quantity, which the engine would book.\<close>

definition reported_quantity :: "meta \<Rightarrow> dec res" where
  "reported_quantity m = json_D (or_json (map_of m ''fill_quantity'') (JStr ''0''))"

definition reported_ok :: "exchange_event \<Rightarrow> bool" where
  "reported_ok ev \<longleftrightarrow> (case reported_quantity (ee_payload ev) of Inr q \<Rightarrow> 0 \<le> q | Inl _ \<Rightarrow> True)"

definition tables_ok :: "'x engine \<Rightarrow> bool" where
  "tables_ok s \<longleftrightarrow> om_reach (en_db s) \<and> ledger_reach (en_ledger s) \<and> settled_ok (en_db s) (en_ledger s) \<and>
     list_all reported_ok (en_queue s)"

text \<open>Fills that are recorded, but that the ledger has not settled.\<close>

definition unsettled :: "'x engine \<Rightarrow> string set" where
  "unsettled s = f_id ` set (db_fills (en_db s)) - set (settled_fills (en_ledger s))"

definition tables_kept :: "'x engine \<Rightarrow> 'x engine \<Rightarrow> bool" where
  "tables_kept s t \<longleftrightarrow> (tables_ok s \<longrightarrow> tables_ok t \<and> unsettled s \<subseteq> unsettled t)"

interpretation tables: step_relation tables_kept
  by unfold_locales (auto simp: tables_kept_def)

named_theorems table_steps

lemma kept_quiet: "moves same_tables m \<Longrightarrow> moves tables_kept m"
  by (auto simp: moves_def tables_kept_def tables_ok_def same_tables_def unsettled_def)

lemmas kept_steps = quiet_steps [THEN kept_quiet]

lemma settled_fills_snoc [simp]:
  "settled_fills (db @ [x]) = settled_fills db @ (case x_fill x of Some f \<Rightarrow> [f] | None \<Rightarrow> [])"
  by (simp add: settled_fills_def)

lemma record_settles:
  assumes "ledger_record db new ids now ty ps a = (db', r)"
  shows "settled_fills db' = settled_fills db \<or>
    settled_fills db' = settled_fills db @ (case ra_fill a of Some f \<Rightarrow> [f] | None \<Rightarrow> [])"
  using assms by (cases rule: ledger_record_cases) auto

text \<open>The ledger after at most one transaction that settles no fill.\<close>

definition booked :: "ledger_db \<Rightarrow> ledger_db \<Rightarrow> bool" where
  "booked db db' \<longleftrightarrow> settled_fills db' = settled_fills db \<and> (ledger_reach db \<longrightarrow> ledger_reach db')"

lemma booked_refl [simp]: "booked db db"
  by (simp add: booked_def)

lemma booked_record: "ra_fill a = None \<Longrightarrow> booked db (fst (ledger_record db new ids now ty ps a))"
proof -
  assume n: "ra_fill a = None"
  obtain db' r where l: "ledger_record db new ids now ty ps a = (db', r)" by force
  have "settled_fills db' = settled_fills db" using record_settles [OF l] n by simp
  then show ?thesis using l ledger_reach.recorded by (auto simp: booked_def)
qed

lemma booked_tables: "booked (en_ledger s) l \<Longrightarrow> tables_kept s (s\<lparr> en_ledger := l \<rparr>)"
  by (auto simp: tables_kept_def tables_ok_def settled_ok_def booked_def unsettled_def)

lemma kept_record [table_steps]: "ra_fill a = None \<Longrightarrow> moves tables_kept (record_ledger env ty ps a)"
  unfolding record_ledger_def
  by (intro tables.bind kept_steps tables.zoom) (auto intro: booked_tables booked_record)

lemma load_ledger: "load_state t e = (e', r) \<Longrightarrow> pe_ledger e' = pe_ledger e"
  by (auto simp: load_state_def Let_def split: sum.splits)

lemma booked_journals:
  "record_open db new ids now c side q en lv im fee oid = (db', r) \<Longrightarrow> booked db db'"
  "record_close db new ids now c side q en ex pnl fee rel oid = (db', r) \<Longrightarrow> booked db db'"
  unfolding record_open_def record_close_def
  by (metis booked_record fst_conv no_record_args_def record_args.select_convs(3) record_args.update_convs(2) record_args.update_convs(5))+

lemma booked_open:
  assumes "open_position new ids now side qty price lev oid sy e = (e', r)"
  shows "booked (pe_ledger e) (pe_ledger e')"
  using assms
  by (auto simp: open_position_def Let_def put_cached_def split: if_splits sum.splits prod.splits option.splits
      dest!: load_ledger dest: booked_journals)

lemma booked_close:
  assumes "close_position new ids now side qty price oid sy e = (e', r)"
  shows "booked (pe_ledger e) (pe_ledger e')"
proof -
  obtain e1 r1 where l: "load_state now e = (e1, r1)" by force
  have l1: "pe_ledger e1 = pe_ledger e" using load_ledger [OF l] .
  show ?thesis using assms l l1
    by (cases r1) (auto simp: close_position_def Let_def split: if_splits sum.splits prod.splits option.splits
        dest!: load_ledger dest: booked_journals)
qed

lemma kept_perp:
  fixes env :: "'x engine_env"
  assumes "\<And>new ids t e e' r. f new ids t e = (e', r) \<Longrightarrow> booked (pe_ledger e) (pe_ledger e')"
  shows "moves tables_kept (on_perp env f e)"
proof -
  have "tables_kept s (fst (case f n i t (e\<lparr> pe_ledger := en_ledger s \<rparr>) of (e', r) \<Rightarrow> (s\<lparr> en_perp := Some e', en_ledger := pe_ledger e' \<rparr>, r)))"
    for s :: "'x engine" and n i t
  proof -
    obtain e' r where f: "f n i t (e\<lparr> pe_ledger := en_ledger s \<rparr>) = (e', r)" by force
    from assms [OF f] show ?thesis unfolding f by (auto simp: tables_kept_def tables_ok_def settled_ok_def booked_def unsettled_def)
  qed
  then show ?thesis unfolding on_perp_def by (intro tables.bind kept_steps) (simp add: moves_def)
qed

lemma kept_trade [table_steps]: "moves tables_kept (trade_perpetual env i side price ord e)"
  unfolding trade_perpetual_def void_def by (auto intro!: tables.rules kept_perp dest: booked_open booked_close)

subsection \<open>Orders\<close>

lemma record_event_fills [simp]: "db_fills (fst (record_event db new now ord ety st a)) = db_fills db"
  by (auto simp: record_event_def Let_def split: option.split)

lemma transition_fills [simp]: "db_fills (fst (om_transition db new now oid ety a)) = db_fills db"
  by (auto simp: om_transition_def split: option.split sum.split prod.split) (metis fst_conv record_event_fills)+

lemma create_fills [simp]: "db_fills (fst (create_from_intent db oid new t i m)) = db_fills db"
  by (auto simp: create_from_intent_def create_from_intent_at_def Let_def split: option.split)

lemma kept_orders:
  assumes "\<And>new t db. om_reach db \<Longrightarrow> om_reach (fst (f new t db))" "\<And>new t db. db_fills (fst (f new t db)) = db_fills db"
  shows "moves tables_kept (on_orders env f)"
  unfolding on_orders_def
  by (intro tables.bind kept_steps tables.zoom) (auto simp: tables_kept_def tables_ok_def settled_ok_def unsettled_def assms)

lemma kept_transitions [table_steps]:
  "moves tables_kept (on_orders env (\<lambda>new t db. om_transition db new t oid ety a))"
  "moves tables_kept (on_orders env (\<lambda>new t db. om_validate db new t oid))"
  "moves tables_kept (on_orders env (\<lambda>new t db. om_submitting db new t oid))"
  "moves tables_kept (on_orders env (\<lambda>new t db. om_submitted db new t oid))"
  "moves tables_kept (on_orders env (\<lambda>new t db. om_ack db new t oid xid eid))"
  "moves tables_kept (on_orders env (\<lambda>new t db. om_opened db new t oid eid))"
  "moves tables_kept (on_orders env (\<lambda>new t db. om_cancel_confirm db new t oid eid))"
  "moves tables_kept (on_orders env (\<lambda>new t db. om_reject db new t oid r eid))"
  "moves tables_kept (on_orders env (\<lambda>new t db. om_mark_unknown db new t oid r))"
  by (rule kept_orders; simp add: om_validate_def om_submitting_def om_submitted_def om_ack_def om_opened_def om_cancel_confirm_def
      om_reject_def om_mark_unknown_def om_reach.transition)+

lemma kept_lifecycle: "0 \<le> oi_qty i \<Longrightarrow> moves tables_kept (open_lifecycle env i)"
  unfolding open_lifecycle_def
  by (intro tables.rules kept_steps table_steps kept_orders) (simp_all add: om_reach.create)

subsection \<open>Settling a fill\<close>

text \<open>The callback changes neither orders nor queue, and adds at most this fill to the settled ones.\<close>

definition settles :: "string \<Rightarrow> 'x engine \<Rightarrow> 'x engine \<Rightarrow> bool" where
  "settles fid s t \<longleftrightarrow> en_db t = en_db s \<and> en_queue t = en_queue s \<and>
     (settled_fills (en_ledger t) = settled_fills (en_ledger s) \<or> settled_fills (en_ledger t) = settled_fills (en_ledger s) @ [fid]) \<and>
     (ledger_reach (en_ledger s) \<longrightarrow> ledger_reach (en_ledger t))"

lemma settles_quiet: "settles fid s t \<Longrightarrow> same_tables t u \<Longrightarrow> settles fid s u"
  "same_tables s t \<Longrightarrow> settles fid t u \<Longrightarrow> settles fid s u" "same_tables s t \<Longrightarrow> settles fid s t"
  by (auto simp: settles_def same_tables_def)

lemma record_ledger_settles:
  assumes "ra_fill a = Some fid"
  shows "settles fid s (fst (record_ledger env ty ps a s))"
proof -
  obtain db' r where l: "ledger_record (en_ledger s) (ev_gen env ''txn'' (en_ids s)) (ledger_ids env (en_ids s)) (ev_clock env (en_reads s)) ty ps a
     = (db', r)" by force
  have "ledger_reach (en_ledger s) \<longrightarrow> ledger_reach db'" using ledger_reach.recorded l by blast
  then show ?thesis using record_settles [OF l] assms l
    by (auto simp: settles_def record_ledger_def en_block_def en_now_def eff_bind_def eff_zoom_def split: prod.split)
qed

text \<open>Quiet steps, the journal, and quiet steps again.\<close>

lemma settles_sandwich:
  assumes "moves same_tables m" "\<And>x s. settles fid s (fst (f x s))"
  shows "settles fid s (fst (eff_bind m f s))"
proof -
  obtain t r where m: "m s = (t, r)" by force
  have q: "same_tables s t" using movesD [OF assms(1) m] .
  show ?thesis using m settles_quiet(2) [OF q assms(2)] settles_quiet(3) [OF q] by (cases r) (auto simp: eff_bind_def)
qed

lemma settles_after:
  assumes "settles fid s (fst (m s))" "\<And>x. moves same_tables (f x)"
  shows "settles fid s (fst (eff_bind m f s))"
proof -
  obtain t r where m: "m s = (t, r)" by force
  then have t: "settles fid s t" using assms(1) by simp
  have "same_tables t (fst (f x t))" for x using assms(2) by (simp add: moves_def)
  then show ?thesis using m t settles_quiet(1) [OF t] by (cases r) (auto simp: eff_bind_def)
qed

lemma settle_order_settles: "settles (f_id f) s (fst (settle_order env f ord s))"
  unfolding settle_order_def
  by (intro settles_sandwich quiet.pure quiet_steps, clarsimp split: prod.split, intro settles_sandwich quiet_steps settles_after
      record_ledger_settles quiet.bind) simp_all

lemma settle_fill_settles: "settles (f_id f) s (fst (settle_fill env f s))"
  by (auto simp: settle_fill_def settle_order_settles split: option.split) (auto simp: settles_def)

lemma callback_settles: "settles (f_id f) (s\<lparr> en_db := db \<rparr>) ((fst (settle_callback env db f s))\<lparr> en_db := db \<rparr>)"
  using settle_fill_settles [of f "s\<lparr> en_db := db \<rparr>" env] by (auto simp: settle_callback_def settles_def)

subsection \<open>Applying fills\<close>

text \<open>A fill that is new to the order tables is not settled yet; one that is known is not settled again.\<close>

lemma apply_fill_new:
  assumes "apply_fill db ids f = (db', ret (x, True))"
  shows "f_id f \<notin> f_id ` set (db_fills db) \<and> f_id ` set (db_fills db') = insert (f_id f) (f_id ` set (db_fills db))"
proof -
  from assms have "apply_fill_at db db ids f = (db', ret (x, True))" by (simp add: apply_fill_def)
  then show ?thesis
  proof (cases rule: apply_fill_cases)
    case unchanged
    then show ?thesis by blast
  qed (auto simp: fill_row_def fill_conflict_def)
qed

lemma apply_fill_grows: "f_id ` set (db_fills db) \<subseteq> f_id ` set (db_fills (fst (apply_fill db ids f)))"
proof -
  obtain db' r where a: "apply_fill_at db db ids f = (db', r)" by force
  then show ?thesis by (cases rule: apply_fill_cases) (use a in \<open>auto simp: apply_fill_def\<close>)
qed

lemma settling_keeps_tables:
  assumes "apply_fill_settling (settle_callback env (fst (apply_fill db ids f))) (db, w) ids f = ((db', w'), r)"
    and "tables_ok (w\<lparr> en_db := db \<rparr>)" "0 \<le> f_qty f"
  shows "tables_ok (w'\<lparr> en_db := db' \<rparr>)" "unsettled (w\<lparr> en_db := db \<rparr>) \<subseteq> unsettled (w'\<lparr> en_db := db' \<rparr>)"
proof -
  obtain db1 q where a: "apply_fill db ids f = (db1, q)" by force
  have reach: "om_reach db1" using om_reach.fill [OF _ assms(3), of db ids] assms(2) a by (simp add: tables_ok_def)
  have sub: "settled_ok db1 (en_ledger w)" using apply_fill_grows [of db ids f] assms(2) a by (auto simp: tables_ok_def settled_ok_def)
  have grow: "f_id ` set (db_fills db) \<subseteq> f_id ` set (db_fills db1)" using apply_fill_grows [of db ids f] a by simp
  have "tables_ok (w'\<lparr> en_db := db' \<rparr>) \<and> unsettled (w\<lparr> en_db := db \<rparr>) \<subseteq> unsettled (w'\<lparr> en_db := db' \<rparr>)"
  proof (cases "\<exists>x. q = ret (x, True)")
    case False
    then have "db' = db1" "w' = w" using assms(1) a by (auto simp: apply_fill_settling_def split: sum.splits bool.splits)
    then show ?thesis using assms(2) reach sub grow by (auto simp: tables_ok_def unsettled_def)
  next
    case True
    then obtain x where q: "q = ret (x, True)" by blast
    have new: "f_id f \<notin> f_id ` set (db_fills db)" "f_id f \<in> f_id ` set (db_fills db1)"
      using apply_fill_new [OF a [unfolded q]] by auto
    have "db' = db1" "w' = fst (settle_callback env db1 f w)"
      using assms(1) a q by (auto simp: apply_fill_settling_def split: sum.splits prod.splits)
    then have "settles (f_id f) (w\<lparr> en_db := db1 \<rparr>) (w'\<lparr> en_db := db1 \<rparr>)" "db' = db1" using callback_settles by simp_all
    then show ?thesis using assms(2) reach sub new grow
      by (auto simp: tables_ok_def settles_def settled_ok_def unsettled_def) (metis imageI)+
  qed
  then show "tables_ok (w'\<lparr> en_db := db' \<rparr>)" "unsettled (w\<lparr> en_db := db \<rparr>) \<subseteq> unsettled (w'\<lparr> en_db := db' \<rparr>)" by blast+
qed

lemma kept_apply_fill: "0 \<le> f_qty f \<Longrightarrow> moves tables_kept (apply_engine_fill env f)"
proof -
  assume q: "0 \<le> f_qty f"
  have "tables_kept s (fst (case apply_fill_settling (settle_callback env (fst (apply_fill (en_db s) ids f))) (en_db s, s) ids f of
     ((db, w), r) \<Rightarrow> (w\<lparr> en_db := db \<rparr>, r)))" for s :: "'a engine" and ids
  proof -
    obtain db w r where a: "apply_fill_settling (settle_callback env (fst (apply_fill (en_db s) ids f))) (en_db s, s) ids f = ((db, w), r)"
      by (metis prod.collapse)
    show ?thesis using settling_keeps_tables [OF a] q by (simp add: a tables_kept_def)
  qed
  then show ?thesis unfolding apply_engine_fill_def Let_def by (intro tables.bind kept_steps) (simp add: moves_def)
qed

lemma kept_order_event:
  assumes "reported_ok ev"
  shows "moves tables_kept (handle_order_event env ev xid local)"
proof -
  have fill: "moves tables_kept (eff_bind (fill_from_payload env local (ee_payload ev)) (\<lambda>f. void (apply_engine_fill env f)))"
  proof -
    have "tables_kept s (fst (eff_bind (fill_from_payload env local (ee_payload ev)) (\<lambda>f. void (apply_engine_fill env f)) s))" for s
    proof -
      obtain t r where m: "fill_from_payload env local (ee_payload ev) s = (t, r)" by force
      have q: "same_tables s t"
        by (rule movesD [where m = "fill_from_payload env local (ee_payload ev)", OF _ m])
          (unfold fill_from_payload_def, intro quiet.rules quiet_steps)
      show ?thesis
      proof (cases r)
        case (Inl e)
        then show ?thesis using m kept_quiet q by (auto simp: eff_bind_def tables_kept_def tables_ok_def same_tables_def unsettled_def)
      next
        case (Inr f)
        have "reported_quantity (ee_payload ev) = ret (f_qty f)"
          using m Inr unfolding fill_from_payload_def reported_quantity_def
          by (auto elim!: eff_bind_cases)
        then have "0 \<le> f_qty f" using assms by (simp add: reported_ok_def)
        then have "moves tables_kept (void (apply_engine_fill env f))" unfolding void_def by (intro tables.rules kept_apply_fill)
        then have "tables_kept t (fst (void (apply_engine_fill env f) t))" by (simp add: moves_def)
        then show ?thesis using m Inr q by (auto simp: tables_kept_def tables_ok_def same_tables_def unsettled_def)
      qed
    qed
    then show ?thesis by (simp add: moves_def)
  qed
  show ?thesis unfolding handle_order_event_def Let_def
    by (cases "ee_type ev") (simp_all add: fill, (unfold void_def, (intro tables.rules kept_steps table_steps)+)+)
qed

lemma kept_exchange_event: "reported_ok ev \<Longrightarrow> moves tables_kept (process_exchange_event env ev)"
  unfolding process_exchange_event_def Let_def
  by (auto intro!: tables.rules kept_steps kept_order_event)

lemma kept_loop: "moves tables_kept m \<Longrightarrow> moves tables_kept (loop_turn l m)"
  by (erule loop_moves [OF tables.step_relation_axioms, rotated]) (simp add: tables_kept_def tables_ok_def unsettled_def)

lemma kept_handle_queued: "moves tables_kept (handle_queued env)"
proof -
 have "tables_kept s (fst (handle_queued env s))" for s :: "'a engine"
 proof (cases "en_queue s")
  case (Cons ev q)
  have "tables_ok (fst (handle_queued env s)) \<and> unsettled s \<subseteq> unsettled (fst (handle_queued env s))" if ok: "tables_ok s"
  proof -
    have "reported_ok ev" "tables_ok (s\<lparr> en_queue := q \<rparr>)" "unsettled (s\<lparr> en_queue := q \<rparr>) = unsettled s"
      using ok Cons by (auto simp: tables_ok_def unsettled_def)
    moreover have "reported_ok ev \<Longrightarrow> moves tables_kept (eff_try (process_exchange_event env ev)
        (\<lambda>e. eff_then (set_health env ''event_processing'' False ''unhandled event error'') (eff_raise (Exn AttributeErrorC []))))"
      by (intro tables.rules kept_exchange_event kept_steps)
    ultimately show ?thesis using Cons by (auto simp: handle_queued_def moves_def tables_kept_def)
  qed
  then show ?thesis by (simp add: tables_kept_def)
 qed (simp add: handle_queued_def tables.refl)
 then show ?thesis by (simp add: moves_def)
qed

subsection \<open>Recovery and signals\<close>

interpretation engine_recovery: recovery_steps "recovery_env_of env run t" UNIV
    "\<lambda>db w. tables_ok (w\<lparr> en_db := db \<rparr>) \<and> U \<subseteq> unsettled (w\<lparr> en_db := db \<rparr>)" for env run t U
proof
  fix db w oid new now ety a
  assume "tables_ok (w\<lparr> en_db := db \<rparr>) \<and> U \<subseteq> unsettled (w\<lparr> en_db := db \<rparr>)"
  then show "tables_ok (w\<lparr> en_db := fst (om_transition db new now oid ety a) \<rparr>) \<and>
      U \<subseteq> unsettled (w\<lparr> en_db := fst (om_transition db new now oid ety a) \<rparr>)"
    by (simp add: tables_ok_def settled_ok_def unsettled_def om_reach.transition)
next
  fix db w f js db' w' r
  assume ok: "tables_ok (w\<lparr> en_db := db \<rparr>) \<and> U \<subseteq> unsettled (w\<lparr> en_db := db \<rparr>)" "0 \<le> f_qty f"
    and a: "apply_fill_settling (re_settle (recovery_env_of env run t) (fst (apply_fill db js f))) (db, w) js f = ((db', w'), r)"
  have "re_settle (recovery_env_of env run t) = settle_callback env" by (simp add: recovery_env_of_def)
  from settling_keeps_tables [OF a [unfolded this] conjunct1 [OF ok(1)] ok(2)] ok(1)
  show "tables_ok (w'\<lparr> en_db := db' \<rparr>) \<and> U \<subseteq> unsettled (w'\<lparr> en_db := db' \<rparr>)" by blast
qed (simp_all add: recovery_env_of_def tables_ok_def unsettled_def)

lemma kept_recovery [table_steps]:
  fixes env :: "'x engine_env"
  shows "moves tables_kept (run_recovery env)"
proof -
  have "tables_kept s (fst (case recover (recovery_env_of env run t) query \<lparr> rv_db = en_db s, rv_world = s, rv_actions = [] \<rparr> of
     (q, r) \<Rightarrow> ((rv_world q)\<lparr> en_db := rv_db q \<rparr>, rbind r (\<lambda>_. ret ()))))" for s :: "'x engine" and run t query
  proof -
    obtain q r where a: "recover (recovery_env_of env run t) query \<lparr> rv_db = en_db s, rv_world = s, rv_actions = [] \<rparr> = (q, r)" by force
    show ?thesis using engine_recovery.recover_keeps [OF a, of "unsettled s"] by (simp add: a tables_kept_def)
  qed
  then show ?thesis unfolding run_recovery_def by (intro tables.bind kept_steps) (simp add: moves_def)
qed

text \<open>An exchange that does not report negative quantities while an order is submitted.\<close>

definition honest_adapter :: "'x adapter \<Rightarrow> bool" where
  "honest_adapter ad \<longleftrightarrow> (\<forall>ord t x. list_all reported_ok (fst (snd (ad_submit ad ord t x))))"

lemma kept_submit: "honest_adapter (ev_adapter env) \<Longrightarrow> moves tables_kept (submit_to_exchange env ord)"
  unfolding submit_to_exchange_def
  by (intro tables.bind kept_steps)
    (auto simp: moves_def tables_kept_def tables_ok_def honest_adapter_def unsettled_def split: prod.split, metis fst_conv snd_conv)

lemma kept_submit_failed [table_steps]: "moves tables_kept (submit_failed env ord e)"
  unfolding submit_failed_def Let_def by (intro tables.rules kept_steps table_steps)

lemma kept_after_submit [table_steps]: "moves tables_kept (after_submit env ord x)"
  unfolding after_submit_def Let_def void_def by (intro tables.rules kept_steps table_steps)

lemma kept_place_order: "honest_adapter (ev_adapter env) \<Longrightarrow> 0 \<le> oi_qty i \<Longrightarrow> moves tables_kept (place_order env i)"
  unfolding place_order_def
  by (intro tables.rules kept_steps table_steps kept_lifecycle kept_submit) (auto intro!: tables.rules table_steps split: option.split)

lemma kept_perpetual_order: "0 \<le> oi_qty i \<Longrightarrow> moves tables_kept (execute_perpetual_order env i price side)"
  unfolding execute_perpetual_order_def Let_def
  by (auto intro!: tables.rules kept_steps table_steps kept_lifecycle kept_apply_fill simp: perp_fill_def split: option.split)

lemma approved_quantity:
  assumes "snd (authorize wall clk i c) = ret (APPROVE, ns)"
  shows "0 < oi_qty i"
proof -
  have "authority_gates wall i c" using authorize_refuses [of wall i c clk] assms by blast
  then show ?thesis by (auto simp: authority_gates_def own_reversal_def check_no_reversal_def split: if_splits)
qed

lemma kept_route: "honest_adapter (ev_adapter env) \<Longrightarrow> 0 \<le> oi_qty i \<Longrightarrow> moves tables_kept (route_order env sg price i)"
  unfolding route_order_def by (intro tables.cond kept_perpetual_order kept_place_order)

lemma kept_authorize:
  assumes "honest_adapter (ev_adapter env)"
  shows "moves tables_kept (authorize_signal env sg price signed risk)"
proof -
  have "moves tables_kept (eff_bind (eff_lift (snd (authorize now 0 i c))) (\<lambda>(d, ns).
       if d \<noteq> APPROVE then authority_refused env sg risk d ns
       else eff_then (route_order env sg price i) (eff_ret (Some risk))))" for now i c
  proof (cases "snd (authorize now 0 i c)")
    case (Inl e)
    then show ?thesis by (simp add: moves_def eff_bind_def tables_kept_def)
  next
    case (Inr dn)
    obtain d ns where dn: "dn = (d, ns)" by force
    show ?thesis
    proof (cases "d = APPROVE")
      case True
      have "0 \<le> oi_qty i" using approved_quantity [of now 0 i c ns] Inr dn True by simp
      then have "moves tables_kept (eff_then (route_order env sg price i) (eff_ret (Some risk)))"
        by (intro tables.rules kept_route assms)
      then show ?thesis using Inr dn True by (simp add: moves_def eff_bind_def)
    next
      case False
      have "moves tables_kept (authority_refused env sg risk d ns)" by (intro kept_steps)
      then show ?thesis using Inr dn False by (simp add: moves_def eff_bind_def)
    qed
  qed
  then show ?thesis unfolding authorize_signal_def
    by (intro tables.rules kept_steps) (clarsimp split: prod.split)
qed

lemma kept_signal: "honest_adapter (ev_adapter env) \<Longrightarrow> moves tables_kept (process_signal env sg)"
  unfolding process_signal_def consider_signal_def
  by (auto intro!: tables.rules kept_steps kept_authorize split: option.split)

subsection \<open>Starting and ticking\<close>

lemma kept_deposit [table_steps]: "moves tables_kept (record_deposit env b)"
  unfolding record_deposit_def void_def by (intro tables.rules table_steps) (simp add: no_record_args_def)

lemma kept_seed [table_steps]: "moves tables_kept (seed_initial_balances env)"
  unfolding seed_initial_balances_def by (intro tables.rules kept_steps table_steps)

lemma kept_upd [table_steps]:
  "moves tables_kept (eff_mod (\<lambda>s. s\<lparr> en_settling := b \<rparr>))" "moves tables_kept (eff_mod (\<lambda>s. s\<lparr> en_running := b \<rparr>))"
  "moves tables_kept (eff_mod (\<lambda>s. s\<lparr> en_running := b, en_dead := [] \<rparr>))"
  "moves tables_kept (eff_mod (\<lambda>s. s\<lparr> en_run := rid \<rparr>))" "moves tables_kept (eff_mod (\<lambda>s. s\<lparr> en_failures := k s \<rparr>))"
  "moves tables_kept (eff_mod (\<lambda>s. s\<lparr> en_quarantined := q s \<rparr>))"
  by (intro tables.upd, simp add: tables_kept_def tables_ok_def unsettled_def)+

lemma kept_run_up [table_steps]: "moves tables_kept (recover_and_run env)"
  unfolding recover_and_run_def by (auto intro!: tables.rules kept_steps table_steps split: option.split)

lemma kept_start: "moves tables_kept (start_engine env rid)"
  unfolding start_engine_def by (auto intro!: tables.rules kept_steps table_steps)

lemma kept_signals: "honest_adapter (ev_adapter env) \<Longrightarrow> moves tables_kept (run_signals env active sgs)"
  by (induction sgs) (auto intro!: tables.rules kept_signal)

lemma kept_strategies: "honest_adapter (ev_adapter env) \<Longrightarrow> moves tables_kept (run_strategies env sts active rest)"
proof (induction rest)
  case (Cons st rest)
  have "moves tables_kept (run_strategy env sts active st)" unfolding run_strategy_def
    by (intro tables.rules kept_steps)
      (auto intro!: tables.rules kept_steps table_steps kept_signals kept_signal Cons.prems split: sum.split list.split option.split)
  then show ?case using Cons by (auto intro!: tables.rules)
qed (simp add: tables.pure)

lemma kept_tick:
  assumes "honest_adapter (ev_adapter env)" "\<And>b. bridge = Some b \<Longrightarrow> moves tables_kept b"
  shows "moves tables_kept (tick env sts bridge)"
  unfolding tick_def tick_strategies_def by (auto intro!: tables.rules kept_steps kept_strategies assms split: option.split)

subsection \<open>Reachable states\<close>

text \<open>A new process on the tables that an earlier one has left, between two of its steps.\<close>

definition restarted_on :: "'x engine \<Rightarrow> 'x \<Rightarrow> perp_engine option \<Rightarrow> md_state \<Rightarrow> kill_switch \<Rightarrow> 'x engine" where
  "restarted_on s x pe md ks =
     (engine_init x (en_db s) (en_ledger s) (en_proj s) (en_leases s) pe md ks)
       \<lparr> en_audit := en_audit s, en_risks := en_risks s, en_recons := en_recons s, en_runs := en_runs s, en_ids := en_ids s,
         en_reads := en_reads s \<rparr>"

text \<open>Every turn of the loops, every call from outside, and what happens at the exchange in between. The
  bridge calls \<open>process_signal\<close>, so its signals are a step of their own.\<close>

inductive engine_step :: "'x engine_env \<Rightarrow> 'x engine \<Rightarrow> 'x engine \<Rightarrow> bool" for env s where
  restart: "engine_step env s (restarted_on s x pe md ks)"
| started: "start_engine env rid s = (t, r1) \<Longrightarrow> engine_step env s t"
| stopped: "stop_engine env s = (t, r2) \<Longrightarrow> engine_step env s t"
| signalled: "process_signal env sg s = (t, r3) \<Longrightarrow> engine_step env s t"
| ticked: "tick env sts None s = (t, r4) \<Longrightarrow> engine_step env s t"
| event: "event_turn env s = (t, r5) \<Longrightarrow> engine_step env s t"
| turned: "loop_turn l (loop_action env sts l) s = (t, r9) \<Longrightarrow> engine_step env s t"
| leased: "lease_turn env s = (t, r6) \<Longrightarrow> engine_step env s t"
| reconciled: "reconciliation_turn env s = (t, r7) \<Longrightarrow> engine_step env s t"
| recovered: "run_recovery env s = (t, r8) \<Longrightarrow> engine_step env s t"
| delivered: "reported_ok ev \<Longrightarrow> engine_step env s (s\<lparr> en_queue := en_queue s @ [ev] \<rparr>)"
| exchange: "engine_step env s (s\<lparr> en_adapter := x \<rparr>)"
| operator: "engine_step env s (s\<lparr> en_ks := ks \<rparr>)"
| elsewhere: "engine_step env s (s\<lparr> en_leases := leases \<rparr>)"

inductive engine_run :: "'x engine_env \<Rightarrow> 'x engine \<Rightarrow> 'x engine \<Rightarrow> bool" for env s where
  here: "engine_run env s s"
| further: "engine_run env s t \<Longrightarrow> engine_step env t u \<Longrightarrow> engine_run env s u"

definition engine_new :: "'x engine \<Rightarrow> bool" where
  "engine_new s \<longleftrightarrow> en_db s = \<lparr> db_orders = [], db_events = [], db_fills = [] \<rparr> \<and> en_ledger s = [] \<and> en_queue s = []"

definition engine_reach :: "'x engine_env \<Rightarrow> 'x engine \<Rightarrow> bool" where
  "engine_reach env s \<longleftrightarrow> (\<exists>s0. engine_new s0 \<and> engine_run env s0 s)"

lemma kept_step:
  assumes "engine_step env s t" "honest_adapter (ev_adapter env)"
  shows "tables_kept s t"
  using assms(1)
proof cases
  case (started rid r1)
  show ?thesis by (rule movesD [OF kept_start started])
next
  case (stopped r2)
  show ?thesis by (rule movesD [OF kept_quiet [OF quiet_stop] stopped])
next
  case (signalled sg r3)
  show ?thesis by (rule movesD [OF kept_signal [OF assms(2)] signalled])
next
  case (ticked sts r4)
  have "moves tables_kept (tick env sts None)" by (rule kept_tick [OF assms(2)]) simp
  then show ?thesis using ticked by (rule movesD)
next
  case (event r5)
  show ?thesis by (rule movesD [OF kept_loop [OF kept_handle_queued] event [unfolded event_turn_def]])
next
  case (turned l sts r9)
  have "moves tables_kept (tick env sts None)" by (rule kept_tick [OF assms(2)]) simp
  then have "moves tables_kept (loop_action env sts l)"
    by (cases l) (auto simp: void_def intro!: tables.rules kept_handle_queued kept_quiet [OF quiet_lease_turn] kept_quiet [OF quiet_reconciliation])
  from movesD [OF kept_loop [OF this] turned] show ?thesis .
next
  case (leased r6)
  show ?thesis by (rule movesD [OF kept_quiet [OF quiet_lease_turn] leased])
next
  case (reconciled r7)
  show ?thesis by (rule movesD [OF kept_quiet [OF quiet_reconciliation] reconciled])
next
  case (recovered r8)
  show ?thesis by (rule movesD [OF kept_recovery recovered])
qed (auto simp: tables_kept_def tables_ok_def unsettled_def engine_init_def restarted_on_def)

lemma kept_run: "engine_run env s t \<Longrightarrow> honest_adapter (ev_adapter env) \<Longrightarrow> tables_kept s t"
  by (induction rule: engine_run.induct) (auto intro: tables.refl tables.trans kept_step)

lemma engine_reach_tables:
  assumes "engine_reach env s" "honest_adapter (ev_adapter env)"
  shows "tables_ok s"
proof -
  obtain s0 where "engine_new s0" "tables_kept s0 s" using assms kept_run unfolding engine_reach_def by blast
  then show ?thesis
    by (auto simp: tables_kept_def tables_ok_def engine_new_def settled_ok_def settled_fills_def intro: om_reach.empty ledger_reach.empty)
qed

lemma zero_text: "json_D (JStr ''0'') = ret 0"
  by code_simp

lemma ex_honest: "honest_adapter (ev_adapter ex_engine_env)"
  using zero_text
  by (simp add: honest_adapter_def ex_engine_env_def ex_adapter_def Let_def reported_ok_def reported_quantity_def ex_event_def)

lemma ex_engine_new: "engine_new (ex_engine q)"
  by (simp add: engine_new_def ex_engine_def engine_init_def)

lemma ex_filled_run: "engine_run ex_engine_env (ex_engine q) (ex_filled q)"
proof -
  have "engine_step ex_engine_env (ex_engine q) (ex_bought q)"
    unfolding ex_bought_def by (rule engine_step.signalled [OF prod.collapse [symmetric]])
  moreover have "engine_step ex_engine_env (ex_bought q) (ex_filled q)"
    unfolding ex_filled_def by (rule engine_step.event [OF prod.collapse [symmetric]])
  ultimately show ?thesis using engine_run.here engine_run.further by metis
qed

lemma ex_filled_reach: "engine_reach ex_engine_env (ex_filled q)"
  unfolding engine_reach_def using ex_engine_new ex_filled_run by blast

lemma ex_settled: "settled_fills db = List.map_filter x_fill db"
  by (induction db) (auto simp: settled_fills_def List.map_filter_def split: option.split)

text \<open>C2: in every state of the engine, whatever was signalled, delivered, refused, lost or restarted, the order
  tables and the ledger keep their invariants, every fill was settled in the ledger at most once, and
  nothing was settled that the order tables do not record as a fill.\<close>

theorem engine_tables_invariant:
  assumes "engine_reach env s" "honest_adapter (ev_adapter env)"
  shows "om_ok (en_db s) \<and> ledger_ok (en_ledger s) \<and> distinct (settled_fills (en_ledger s)) \<and>
    set (settled_fills (en_ledger s)) \<subseteq> f_id ` set (db_fills (en_db s))"
  using engine_reach_tables [OF assms] om_reach_ok ledger_reach_ok by (auto simp: tables_ok_def settled_ok_def)

theorem engine_tables_invariant_witness:
  "om_ok (en_db (ex_filled [])) \<and> settled_fills (en_ledger (ex_filled [])) = [''fill_x1'']"
  using engine_tables_invariant [OF ex_filled_reach ex_honest, of "[]"] ex_filled_tables by (simp add: ex_tables_def ex_settled)

text \<open>A fill that is recorded but not settled - its settlement raised, it was quarantined or belongs to a
  perpetual - is never settled later: no redelivery, no recovery and no restart brings it into the
  ledger, although the order counts it as filled.\<close>

theorem failed_settlement_is_final:
  assumes "engine_reach env s" "honest_adapter (ev_adapter env)" "engine_run env s t"
    and "get_fill (en_db s) fid \<noteq> None" "fid \<notin> set (settled_fills (en_ledger s))"
  shows "get_fill (en_db t) fid \<noteq> None \<and> fid \<notin> set (settled_fills (en_ledger t))"
proof -
  have "fid \<in> unsettled s" using assms(4,5) by (auto simp: unsettled_def get_fill_def find_None)
  then have "fid \<in> unsettled t" using kept_run [OF assms(3,2)] engine_reach_tables [OF assms(1,2)] by (auto simp: tables_kept_def)
  then show ?thesis by (auto simp: unsettled_def get_fill_def find_None)
qed

theorem failed_settlement_is_final_witness:
  "get_fill (en_db (restarted_on (ex_filled [''fill_x1'']) 0 None md_init (kill_switch_init False))) ''fill_x1'' \<noteq> None \<and>
    ''fill_x1'' \<notin> set (settled_fills (en_ledger (restarted_on (ex_filled [''fill_x1'']) 0 None md_init (kill_switch_init False))))"
proof -
  let ?s = "ex_filled [''fill_x1'']"
  have "engine_run ex_engine_env ?s (restarted_on ?s 0 None md_init (kill_switch_init False))"
    by (rule engine_run.further [OF engine_run.here engine_step.restart])
  moreover have "get_fill (en_db ?s) ''fill_x1'' \<noteq> None"
    using ex_quarantined_tables by (force simp: get_fill_def find_None ex_tables_def)
  moreover have "''fill_x1'' \<notin> set (settled_fills (en_ledger ?s))"
    using ex_quarantined_tables by (simp add: ex_tables_def ex_settled)
  ultimately show ?thesis using failed_settlement_is_final [OF ex_filled_reach ex_honest] by blast
qed

end
