(* ===== verification/Engine_Gates.thy ===== *)
theory Engine_Gates
  imports Engine_Invariant
begin

text \<open>
  What has to hold before \<open>process_signal\<close> reaches the order lifecycle, and what it leaves alone when it
  does not.
\<close>

subsection \<open>Without the exchange's submission\<close>

definition with_submit :: "(order \<Rightarrow> usec \<Rightarrow> 'x \<Rightarrow> 'x \<times> exchange_event list \<times> order res) \<Rightarrow> 'x engine_env \<Rightarrow> 'x engine_env" where
  "with_submit sub env = env\<lparr> ev_adapter := (ev_adapter env)\<lparr> ad_submit := sub \<rparr> \<rparr>"

lemma with_submit_simps [simp]:
  "ev_gen (with_submit sub env) = ev_gen env" "ev_clock (with_submit sub env) = ev_clock env"
  "ev_settings (with_submit sub env) = ev_settings env" "ev_risk (with_submit sub env) = ev_risk env"
  "ev_provider (with_submit sub env) = ev_provider env" "ev_dump (with_submit sub env) = ev_dump env"
  "ev_lease_key (with_submit sub env) = ev_lease_key env" "ev_require_lease (with_submit sub env) = ev_require_lease env"
  "ad_book (ev_adapter (with_submit sub env)) = ad_book (ev_adapter env)"
  "ad_real (ev_adapter (with_submit sub env)) = ad_real (ev_adapter env)"
  "ad_connected (ev_adapter (with_submit sub env)) = ad_connected (ev_adapter env)"
  by (simp_all add: with_submit_def)

lemma with_submit_basic [simp]:
  "en_now (with_submit sub env) = en_now env" "en_fresh (with_submit sub env) = en_fresh env"
  "ledger_ids (with_submit sub env) = ledger_ids env"
  by (simp_all add: fun_eq_iff en_now_def en_fresh_def ledger_ids_def)

lemma with_submit_actions [simp]:
  "set_health (with_submit sub env) = set_health env" "audit_log (with_submit sub env) = audit_log env"
  "on_market (with_submit sub env) = on_market env" "on_perp (with_submit sub env) = on_perp env"
  "on_leases (with_submit sub env) = on_leases env" "log_for (with_submit sub env) = log_for env"
  by (simp_all add: fun_eq_iff set_health_def audit_log_def on_market_def on_perp_def on_leases_def log_for_def)

lemma with_submit_stages [simp]:
  "refresh_orderbook (with_submit sub env) = refresh_orderbook env"
  "current_signed_quantity (with_submit sub env) = current_signed_quantity env"
  "risk_rejected (with_submit sub env) = risk_rejected env" "lease_held_now (with_submit sub env) = lease_held_now env"
  "authority_refused (with_submit sub env) = authority_refused env"
  "authorization_context (with_submit sub env) = authorization_context env"
  by (simp_all add: fun_eq_iff refresh_orderbook_def current_signed_quantity_def risk_rejected_def lease_held_now_def
      authority_refused_def authorization_context_def cong: option.case_cong)

lemma with_submit_no_price [simp]: "no_reference_price (with_submit sub env) = no_reference_price env"
  by (simp add: fun_eq_iff no_reference_price_def)

subsection \<open>What the stages before the authority leave alone\<close>

definition steady :: "'x engine \<Rightarrow> 'x engine \<Rightarrow> bool" where
  "steady s t \<longleftrightarrow> same_tables s t \<and> en_ks t = en_ks s \<and> en_halted t = en_halted s \<and> en_lease t = en_lease s \<and>
     en_leases t = en_leases s \<and> en_failures t = en_failures s \<and> en_run t = en_run s \<and> en_proj t = en_proj s"

interpretation steady: step_relation steady
  by unfold_locales (auto simp: steady_def same_tables_def)

lemma steady_basic:
  "moves steady (en_now env)" "moves steady (en_fresh env p)" "moves steady (on_adapter f)" "moves steady (persist_risk d)"
  "moves steady en_block"
  by (auto simp: moves_def steady_def same_tables_def en_now_def en_fresh_def on_adapter_def eff_zoom_def persist_risk_def en_block_def
      split: prod.split)

lemma steady_bound: "moves steady (on_market env m)" "moves steady (set_health env name ok d)" "moves steady (audit_log env action a)"
  unfolding on_market_def set_health_def audit_log_def
  by (rule steady.bind; (rule steady_basic)?; auto simp: moves_def steady_def same_tables_def eff_zoom_def split: prod.split)+

lemma steady_refresh: "moves steady (refresh_orderbook env sy)"
  unfolding refresh_orderbook_def by (auto intro!: steady.rules steady_basic steady_bound split: prod.split)

lemma steady_load:
  fixes env :: "'x engine_env"
  shows "moves steady (on_perp env (\<lambda>_ _ t. load_state t) e)"
proof -
  have "steady s (fst (case load_state t (e\<lparr> pe_ledger := en_ledger s \<rparr>) of (e', r) \<Rightarrow> (s\<lparr> en_perp := Some e', en_ledger := pe_ledger e' \<rparr>, r)))"
    for s :: "'x engine" and t
  proof -
    obtain e' r where l: "load_state t (e\<lparr> pe_ledger := en_ledger s \<rparr>) = (e', r)" by force
    show ?thesis using load_ledger [OF l] by (simp add: l steady_def same_tables_def)
  qed
  then show ?thesis unfolding on_perp_def by (intro steady.bind steady_basic) (simp add: moves_def)
qed

lemma steady_signed: "moves steady (current_signed_quantity env sg ps)"
  unfolding current_signed_quantity_def by (auto intro!: steady.rules steady_load split: option.split)

lemma steady_log: "moves steady (log_for env action target f)"
  unfolding log_for_def by (intro steady.rules steady_bound)

lemma steady_refusals:
  "moves steady (risk_rejected env sg d)" "moves steady (authority_refused env sg d dec ns)" "moves steady (no_reference_price env sg)"
  unfolding no_reference_price_def risk_rejected_def authority_refused_def Let_def
  by (intro steady.rules steady_log steady_bound steady_basic)+

text \<open>Reading the position leaves the market data alone as well.\<close>

lemma signed_market: "current_signed_quantity env sg ps s = (t, r) \<Longrightarrow> en_md t = en_md s"
  by (auto simp: current_signed_quantity_def on_perp_def en_block_def en_now_def eff_bind_def split: if_splits option.splits prod.splits sum.splits)

text \<open>Clock readings are only added.\<close>

definition later :: "'x engine \<Rightarrow> 'x engine \<Rightarrow> bool" where
  "later s t \<longleftrightarrow> en_reads s \<le> en_reads t"

interpretation later: step_relation later
  by unfold_locales (auto simp: later_def)

lemma later_basic: "moves later (en_now env)" "moves later en_block" "moves later (on_adapter f)"
  by (auto simp: moves_def later_def en_now_def en_block_def on_adapter_def eff_zoom_def split: prod.split)

lemma later_market: "moves later (on_market env m)" "moves later (set_health env name ok d)"
  unfolding on_market_def set_health_def
  by (rule later.bind; (rule later_basic)?; auto simp: moves_def later_def eff_zoom_def split: prod.split)+

lemma later_perp: "moves later (on_perp env f e)"
  unfolding on_perp_def by (intro later.bind later_basic) (auto simp: moves_def later_def split: prod.split)

lemma later_refresh: "moves later (refresh_orderbook env sy)"
  unfolding refresh_orderbook_def by (auto intro!: later.rules later_basic later_market split: prod.split)

lemma later_signed: "moves later (current_signed_quantity env sg ps)"
  unfolding current_signed_quantity_def by (auto intro!: later.rules later_perp split: option.split)

text \<open>The states that a signal goes through on its way to the risk engine: after the clock reading for the account
  and the refresh of the book, which an exchange with real market data gets, and after the position is read.\<close>

definition book_refreshed :: "'x engine_env \<Rightarrow> signal_intent \<Rightarrow> 'x engine \<Rightarrow> 'x engine" where
  "book_refreshed env sg s =
     (let s1 = s\<lparr> en_reads := Suc (en_reads s) \<rparr>
      in if ad_real (ev_adapter env) then fst (refresh_orderbook env (reference_of sg) s1) else s1)"

definition position_read :: "'x engine_env \<Rightarrow> signal_intent \<Rightarrow> 'x engine \<Rightarrow> 'x engine \<times> dec res" where
  "position_read env sg s = current_signed_quantity env sg (get_positions (en_proj s)) (book_refreshed env sg s)"

text \<open>The risk engine approves the signal, at the reading of the clock that follows, on the account at the first
  reading, on the positions, the open orders and the failures of the state that the signal meets, on the price of
  the refreshed book, and on the quantity that was read.\<close>

definition risk_approves :: "'x engine_env \<Rightarrow> signal_intent \<Rightarrow> 'x engine \<Rightarrow> risk_decision \<Rightarrow> bool" where
  "risk_approves env sg s risk \<longleftrightarrow> rd_decision risk = APPROVE \<and>
     (\<exists>acc signed v. get_account (en_ledger s) (effective_mode (ev_settings env)) (ev_clock env (en_reads s)) = ret acc \<and>
        position_read env sg s = (v, ret signed) \<and>
        risk_check (ev_risk env) (en_ks s) (ev_gen env ''risk'' (en_ids v)) (ev_clock env (en_reads v))
          (risk_context acc (get_positions (en_proj s)) (market_price_of (en_md v) (reference_of sg)) (count_open (en_db s)) signed s)
          (FromSignal sg) = ret risk)"

text \<open>The state in which its authorization begins.\<close>

definition risk_stored :: "'x engine_env \<Rightarrow> signal_intent \<Rightarrow> 'x engine \<Rightarrow> risk_decision \<Rightarrow> 'x engine" where
  "risk_stored env sg s risk =
     (let v = fst (position_read env sg s)
      in v\<lparr> en_ids := Suc (en_ids v), en_reads := Suc (en_reads v), en_risks := en_risks v @ [risk] \<rparr>)"

lemma risk_stored_later: "en_reads s < en_reads (risk_stored env sg s risk)"
proof -
  have "later (s\<lparr> en_reads := Suc (en_reads s) \<rparr>) (book_refreshed env sg s)"
    using later_refresh [of env "reference_of sg"] later.refl by (auto simp: book_refreshed_def Let_def moves_def)
  moreover have "later (book_refreshed env sg s) (fst (position_read env sg s))"
    using later_signed [of env sg] by (simp add: position_read_def moves_def)
  ultimately show ?thesis by (simp add: later_def risk_stored_def Let_def)
qed

lemma process_signal_stages:
  assumes "process_signal env sg s = (t, r)"
  shows "(steady s t \<and> (\<forall>sub. process_signal (with_submit sub env) sg s = (t, r))) \<or>
    (\<exists>price signed risk. steady s (risk_stored env sg s risk) \<and> risk_approves env sg s risk \<and>
       authorize_signal env sg price signed risk (risk_stored env sg s risk) = (t, r) \<and>
       (\<forall>sub. process_signal (with_submit sub env) sg s = authorize_signal (with_submit sub env) sg price signed risk (risk_stored env sg s risk)))"
proof (cases "get_by_client (en_db s) (client_order_id sg)")
  case (Some ord)
  have "moves steady (eff_then (log_for env ''SIGNAL_IDEMPOTENT_RETRY'' (client_order_id sg)
     (\<lambda>a. a\<lparr> aa_client := Some (client_order_id sg), aa_order := Some (o_id ord) \<rparr>)) (eff_ret (None :: risk_decision option)))"
    by (intro steady.rules steady_log)
  from movesD [OF this] show ?thesis using assms Some by (simp add: process_signal_def)
next
  case None
  define k where "k = ev_clock env (en_reads s)"
  define s1 where "s1 = s\<lparr> en_reads := Suc (en_reads s) \<rparr>"
  have now: "en_now env s = (s1, ret k)" by (simp add: en_now_def k_def s1_def)
  have st1: "steady s s1" by (simp add: steady_def same_tables_def s1_def)
  show ?thesis
  proof (cases "get_account (en_ledger s) (effective_mode (ev_settings env)) k")
    case (Inl e)
    then have "process_signal env' sg s = (s1, Inl e)" if "env' = env \<or> (\<exists>sub. env' = with_submit sub env)" for env'
      using that None now by (auto simp: process_signal_def eff_bind_def s1_def)
    then show ?thesis using assms st1 by auto
  next
    case (Inr acc)
    define refresh where "refresh = (if ad_real (ev_adapter env) then refresh_orderbook env (reference_of sg) else eff_ret ())"
    obtain s2 q where ref: "refresh s1 = (s2, q)" by force
    have mv: "moves steady refresh" by (auto simp: refresh_def intro: steady_refresh steady.pure)
    have st2: "steady s s2" using movesD [OF mv ref] steady.trans [OF st1] by blast
    have br: "book_refreshed env sg s = s2"
      using ref by (auto simp: refresh_def book_refreshed_def s1_def Let_def split: if_splits)
    show ?thesis
    proof (cases q)
      case (Inl e)
      then have "process_signal env' sg s = (s2, Inl e)" if "env' = env \<or> (\<exists>sub. env' = with_submit sub env)" for env'
        using that None now Inr ref by (auto simp: process_signal_def eff_bind_def s1_def refresh_def)
      then show ?thesis using assms st2 by auto
    next
      case q: (Inr z)
      define ps where "ps = get_positions (en_proj s)"
      define price where "price = market_price_of (en_md s2) (reference_of sg)"
      define n where "n = count_open (en_db s)"
      have step: "process_signal env' sg s =
          (if s_market sg = PERPETUAL \<and> price \<le> 0 then no_reference_price env sg s2 else consider_signal env' sg acc ps price n s2)"
        if "env' = env \<or> (\<exists>sub. env' = with_submit sub env)" for env'
        using that None now Inr ref q st2
        by (auto simp: process_signal_def eff_bind_def s1_def refresh_def ps_def price_def n_def steady_def same_tables_def)
      show ?thesis
      proof (cases "s_market sg = PERPETUAL \<and> price \<le> 0")
        case True
        have "no_reference_price env sg s2 = (t, r)" using step [of env] True assms by simp
        then have "steady s2 t" by (rule movesD [OF steady_refusals(3)])
        then show ?thesis using step True assms steady.trans [OF st2] by auto
      next
        case False
        obtain s3 g where sig: "current_signed_quantity env sg ps s2 = (s3, g)" by force
        have st3: "steady s s3" using movesD [OF steady_signed sig] steady.trans [OF st2] by blast
        have md3: "en_md s3 = en_md s2" using signed_market [OF sig] by simp
        have pr: "position_read env sg s = (s3, g)" using sig br by (simp add: position_read_def ps_def)
        show ?thesis
        proof (cases g)
          case (Inl e)
          then have "process_signal env' sg s = (s3, Inl e)" if "env' = env \<or> (\<exists>sub. env' = with_submit sub env)" for env'
            using that step [of env'] False sig by (auto simp: consider_signal_def)
          then show ?thesis using assms st3 by auto
        next
          case g: (Inr signed)
          define rid where "rid = ev_gen env ''risk'' (en_ids s3)"
          define k2 where "k2 = ev_clock env (en_reads s3)"
          define s4 where "s4 = s3\<lparr> en_ids := Suc (en_ids s3), en_reads := Suc (en_reads s3) \<rparr>"
          define chk where "chk = risk_check (ev_risk env) (en_ks s) rid k2 (risk_context acc ps price n signed s) (FromSignal sg)"
          have st4: "steady s s4" using st3 by (simp add: s4_def steady_def same_tables_def)
          have con: "consider_signal env' sg acc ps price n s2 =
              eff_bind (eff_lift chk) (\<lambda>risk. eff_then (persist_risk risk)
                (if rd_decision risk \<noteq> APPROVE then risk_rejected env sg risk else authorize_signal env' sg price signed risk)) s4"
            if "env' = env \<or> (\<exists>sub. env' = with_submit sub env)" for env'
            using that sig g st3
            by (auto simp: consider_signal_def eff_bind_def en_fresh_def en_now_def s4_def chk_def rid_def k2_def risk_context_def steady_def
                split: sum.split prod.split)
          show ?thesis
          proof (cases chk)
            case (Inl e)
            then have "process_signal env' sg s = (s4, Inl e)" if "env' = env \<or> (\<exists>sub. env' = with_submit sub env)" for env'
              using that step [of env'] False con [of env'] by (simp add: eff_bind_def)
            then show ?thesis using assms st4 by auto
          next
            case c: (Inr risk)
            define s5 where "s5 = s4\<lparr> en_risks := en_risks s4 @ [risk] \<rparr>"
            have st5: "steady s s5" using st4 by (simp add: s5_def steady_def same_tables_def)
            have fin: "process_signal env' sg s =
                (if rd_decision risk \<noteq> APPROVE then risk_rejected env sg risk s5 else authorize_signal env' sg price signed risk s5)"
              if "env' = env \<or> (\<exists>sub. env' = with_submit sub env)" for env'
              using that step [of env'] False con [of env'] c by (simp add: eff_bind_def persist_risk_def s5_def)
            show ?thesis
            proof (cases "rd_decision risk = APPROVE")
              case False
              have "risk_rejected env sg risk s5 = (t, r)" using fin [of env] False assms by simp
              then have "steady s5 t" by (rule movesD [OF steady_refusals(1)])
              then show ?thesis using fin False assms steady.trans [OF st5] by auto
            next
              case True
              have "get_account (en_ledger s) (effective_mode (ev_settings env)) (ev_clock env (en_reads s)) = ret acc"
                using Inr by (simp add: k_def)
              moreover have "risk_check (ev_risk env) (en_ks s) (ev_gen env ''risk'' (en_ids s3)) (ev_clock env (en_reads s3))
                  (risk_context acc (get_positions (en_proj s)) (market_price_of (en_md s3) (reference_of sg)) (count_open (en_db s)) signed s)
                  (FromSignal sg) = ret risk"
                using c by (simp add: chk_def rid_def k2_def ps_def price_def n_def md3)
              ultimately have "risk_approves env sg s risk"
                using True pr g unfolding risk_approves_def by blast
              moreover have "risk_stored env sg s risk = s5" using pr by (simp add: risk_stored_def s5_def s4_def Let_def)
              ultimately show ?thesis using fin True assms st5 by (intro disjI2 exI [of _ price] exI [of _ signed] exI [of _ risk]) auto
            qed
          qed
        qed
      qed
    qed
  qed
qed

subsection \<open>The gates\<close>

text \<open>What has to hold for an order to be sent: of the switches and the lease table that the signal meets, and of the
  market data, the instrument and the connection in the state \<open>u\<close> in which its authorization begins. The lease is
  judged at the next reading of the clock; the expiry, the age of the data and the age of the book at the three readings
  after it, or at the next three when no lease is required.\<close>

definition gates_open :: "'x engine_env \<Rightarrow> signal_intent \<Rightarrow> 'x engine \<Rightarrow> 'x engine \<Rightarrow> bool" where
  "gates_open env sg s u \<longleftrightarrow>
     (let k = en_reads u; n = (if ev_require_lease env then Suc k else k) in
      \<not> ks_enabled (en_ks s) \<and> \<not> en_halted s \<and> 0 < s_qty sg \<and>
      (ev_require_lease env \<longrightarrow> (\<exists>l. en_lease s = Some l \<and>
         is_held (total_seconds (ev_clock env k)) (ev_lease_key env) (Some (ls_token l)) (en_leases s))) \<and>
      (\<forall>t. s_expires sg = Some t \<longrightarrow> ev_clock env n < t) \<and>
      is_fresh (en_md u) (reference_of sg) (st_data_age (ev_settings env)) (ev_clock env (Suc n)) \<and>
      is_fresh (en_md u) (reference_of sg) (st_book_age (ev_settings env)) (ev_clock env (Suc (Suc n))) \<and>
      is_healthy (en_md u) (reference_of sg) \<and>
      (\<exists>i. instrument_of_signal u sg = Some i \<and> i_status i = ''TRADING'') \<and>
      ad_connected (ev_adapter env) (en_adapter u))"

lemma approved_context:
  assumes "snd (authorize wall clk i c) = ret (APPROVE, ns)"
  shows "ax_lease_held c \<and> (case ax_kill_switch c of Some k \<Rightarrow> \<not> ks_enabled k | None \<Rightarrow> True) \<and> \<not> ax_halted c \<and>
    (case oi_expires i of Some t \<Rightarrow> (case ax_now c of Some n \<Rightarrow> n | None \<Rightarrow> wall) < t | None \<Rightarrow> True) \<and>
    ax_data_fresh c \<and> ax_book_fresh c \<and> ax_book_healthy c \<and> ax_tradeable c \<and> ax_connected c"
proof -
  have "authority_gates wall i c" using authorize_refuses [of wall i c clk] assms by blast
  then show ?thesis by (auto simp: authority_gates_def entry_gates_def not_le split: option.splits)
qed

lemma lease_held_reading:
  "lease_held_now env u =
     (case (if ev_require_lease env then en_lease u else None) of
        None \<Rightarrow> (u, ret False)
      | Some l \<Rightarrow> (u\<lparr> en_reads := Suc (en_reads u) \<rparr>,
          ret (is_held (total_seconds (ev_clock env (en_reads u))) (ev_lease_key env) (Some (ls_token l)) (en_leases u))))"
  by (simp add: lease_held_now_def on_leases_def eff_bind_def en_now_def split: option.split)

lemma authorize_signal_stages:
  assumes "authorize_signal env sg price signed risk u = (t, r)"
  shows "(steady u t \<and> (\<forall>sub. authorize_signal (with_submit sub env) sg price signed risk u = (t, r))) \<or> gates_open env sg u u"
proof -
  define ins where "ins = instrument_of_signal u sg"
  define l where "l = (if ev_require_lease env then en_lease u else None)"
  define v where "v = (if l = None then u else u\<lparr> en_reads := Suc (en_reads u) \<rparr>)"
  define b where "b = (case l of None \<Rightarrow> False
    | Some x \<Rightarrow> is_held (total_seconds (ev_clock env (en_reads u))) (ev_lease_key env) (Some (ls_token x)) (en_leases u))"
  have held: "lease_held_now env u = (v, ret b)"
    by (simp add: lease_held_reading l_def v_def b_def split: option.split)
  define k where "k = en_reads v"
  define w where "w = v\<lparr> en_reads := Suc (Suc (Suc k)) \<rparr>"
  define i where "i = intent_of_signal sg (en_run w)"
  define c where "c = authorization_context env sg ins b signed risk (ev_clock env k) (ev_clock env (Suc k)) (ev_clock env (Suc (Suc k))) w"
  define verdict where "verdict = snd (authorize (ev_clock env k) 0 i c)"
  have run: "authorize_signal env' sg price signed risk u =
      eff_bind (eff_lift verdict) (\<lambda>(d, ns). if d \<noteq> APPROVE then authority_refused env sg risk d ns
        else eff_then (route_order env' sg price i) (eff_ret (Some risk))) w"
    if "env' = env \<or> (\<exists>sub. env' = with_submit sub env)" for env'
    using that held
    by (auto simp: authorize_signal_def eff_bind_def en_now_def ins_def k_def w_def i_def c_def verdict_def split: sum.split prod.split)
  have uw: "steady u w" "en_ks w = en_ks u" "en_halted w = en_halted u" "en_md w = en_md u" "en_adapter w = en_adapter u"
    by (auto simp: w_def v_def steady_def same_tables_def)
  show ?thesis
  proof (cases verdict)
    case (Inl e)
    then have "authorize_signal env' sg price signed risk u = (w, Inl e)" if "env' = env \<or> (\<exists>sub. env' = with_submit sub env)" for env'
      using that run [of env'] by (simp add: eff_bind_def)
    then show ?thesis using assms uw(1) by auto
  next
    case (Inr dn)
    obtain d ns where dn: "dn = (d, ns)" by force
    show ?thesis
    proof (cases "d = APPROVE")
      case True
      then have v: "snd (authorize (ev_clock env k) 0 i c) = ret (APPROVE, ns)" using Inr dn by (simp add: verdict_def)
      have ex: "oi_expires i = s_expires sg" "oi_qty i = s_qty sg" by (simp_all add: i_def intent_of_signal_def)
      note gates = approved_context [OF v, unfolded c_def authorization_context_def Let_def ex, simplified]
      have lease: "\<exists>x. en_lease u = Some x \<and>
          is_held (total_seconds (ev_clock env (en_reads u))) (ev_lease_key env) (Some (ls_token x)) (en_leases u)" if "ev_require_lease env"
        using gates that by (auto simp: b_def l_def split: option.splits)
      then have "k = (if ev_require_lease env then Suc (en_reads u) else en_reads u)" by (auto simp: k_def v_def l_def)
      then show ?thesis using gates approved_quantity [OF v] lease uw
        unfolding gates_open_def Let_def ex by (auto simp: ins_def split: option.splits)
    next
      case False
      then have ref: "authorize_signal env' sg price signed risk u = authority_refused env sg risk d ns w"
        if "env' = env \<or> (\<exists>sub. env' = with_submit sub env)" for env'
        using that run [of env'] Inr dn by (simp add: eff_bind_def)
      then have "authority_refused env sg risk d ns w = (t, r)" using assms by simp
      then have "steady w t" by (rule movesD [OF steady_refusals(2)])
      then show ?thesis using ref assms steady.trans [OF uw(1)] by auto
    qed
  qed
qed

lemma gates_steady: "steady s u \<Longrightarrow> gates_open env sg u w \<Longrightarrow> gates_open env sg s w"
  by (simp add: gates_open_def steady_def)

lemma signal_gates:
  assumes "process_signal env sg s = (t, r)"
  shows "(steady s t \<and> (\<forall>sub. process_signal (with_submit sub env) sg s = (t, r))) \<or>
    (\<exists>risk. risk_approves env sg s risk \<and> gates_open env sg s (risk_stored env sg s risk))"
proof -
  consider "steady s t \<and> (\<forall>sub. process_signal (with_submit sub env) sg s = (t, r))"
    | price signed risk where "steady s (risk_stored env sg s risk)" "risk_approves env sg s risk"
        "authorize_signal env sg price signed risk (risk_stored env sg s risk) = (t, r)"
        "\<forall>sub. process_signal (with_submit sub env) sg s =
           authorize_signal (with_submit sub env) sg price signed risk (risk_stored env sg s risk)"
    using process_signal_stages [OF assms] by blast
  then show ?thesis
  proof cases
    case (2 price signed risk)
    then show ?thesis using authorize_signal_stages [OF 2(3)] gates_steady [OF 2(1)] steady.trans [OF 2(1)] by auto
  qed blast
qed

text \<open>C3: a signal leaves the orders, the ledger and the event queue as they are, and what it does is the same
  whatever the exchange would answer to a submission, unless the risk engine approved it on the account, the
  positions, the price and the open orders of this state, and then, at the clock readings of this very call, the
  kill switch is off, no reconciliation halt is set, the execution lease is held in the lease table, the signal has
  not expired, the refreshed book is healthy and fresh, the instrument is trading and the exchange is connected.\<close>

theorem orders_only_through_gates:
  assumes "process_signal env sg s = (t, r)"
  shows "(same_tables s t \<and> (\<forall>sub. process_signal (with_submit sub env) sg s = (t, r))) \<or>
    (\<exists>risk. risk_approves env sg s risk \<and> en_reads s < en_reads (risk_stored env sg s risk) \<and>
       gates_open env sg s (risk_stored env sg s risk))"
  using signal_gates [OF assms] risk_stored_later [of s env sg] unfolding steady_def by blast

theorem orders_only_through_gates_witness:
  "\<exists>risk. risk_approves ex_engine_env (ex_signal BUY 1) (ex_engine []) risk \<and>
     gates_open ex_engine_env (ex_signal BUY 1) (ex_engine []) (risk_stored ex_engine_env (ex_signal BUY 1) (ex_engine []) risk)"
proof -
  have "process_signal ex_engine_env (ex_signal BUY 1) (ex_engine []) = (ex_bought [], snd (process_signal ex_engine_env (ex_signal BUY 1) (ex_engine [])))"
    by (simp add: ex_bought_def)
  from orders_only_through_gates [OF this] show ?thesis
    using ex_bought_tables by (force simp: same_tables_def ex_tables_def ex_engine_def engine_init_def)
qed

subsection \<open>While the kill switch is on\<close>

text \<open>It stays on, and no order is created or changed in its terms.\<close>

definition frozen :: "'x engine \<Rightarrow> 'x engine \<Rightarrow> bool" where
  "frozen s t \<longleftrightarrow> (ks_enabled (en_ks s) \<longrightarrow>
     ks_enabled (en_ks t) \<and> map order_terms (db_orders (en_db t)) = map order_terms (db_orders (en_db s)))"

interpretation frozen: step_relation frozen
  by unfold_locales (auto simp: frozen_def)

named_theorems frozen_steps

lemma frozen_of_steady: "moves steady m \<Longrightarrow> moves frozen m"
  by (auto simp: moves_def frozen_def steady_def same_tables_def)

lemmas frozen_reads [frozen_steps] = steady_basic [THEN frozen_of_steady] steady_bound [THEN frozen_of_steady]
  steady_log [THEN frozen_of_steady] steady_refresh [THEN frozen_of_steady]

lemma frozen_basic [frozen_steps]: "moves frozen (enter_state st)" "moves frozen (set_initial b)"
  by (auto simp: moves_def frozen_def enter_state_def eff_zoom_def set_initial_def split: prod.split)

lemma frozen_bound [frozen_steps]:
  "moves frozen (on_leases env g)" "moves frozen (refresh_portfolio env)" "moves frozen (persist_run env st)"
  "moves frozen (record_ledger env ty ps ra)"
  unfolding on_leases_def refresh_portfolio_def persist_run_def record_ledger_def
  by (intro frozen.bind frozen_steps; auto simp: moves_def frozen_def eff_zoom_def Let_def split: prod.split)+

lemma frozen_transition [frozen_steps]: 
  assumes "\<And>new t db. map order_terms (db_orders (fst (f new t db))) = map order_terms (db_orders db)"
  shows "moves frozen (on_orders env f)"
  unfolding on_orders_def by (intro frozen.bind frozen_steps frozen.zoom) (simp add: frozen_def assms)

lemma frozen_settle: "moves frozen (settle_fill env f)"
  unfolding settle_fill_def settle_order_def
  by (auto intro!: frozen.rules frozen_steps split: option.split)

lemma frozen_callback:
  "frozen (w\<lparr> en_db := db \<rparr>) ((fst (settle_callback env db1 f w))\<lparr> en_db := db \<rparr>)"
proof -
  obtain t r where s: "settle_fill env f (w\<lparr> en_db := db1 \<rparr>) = (t, r)" by force
  have "frozen (w\<lparr> en_db := db1 \<rparr>) t" by (rule movesD [OF frozen_settle s])
  then show ?thesis using s by (auto simp: settle_callback_def frozen_def)
qed

lemma frozen_settling:
  assumes "apply_fill_settling (settle_callback env (fst (apply_fill db ids f))) (db, w) ids f = ((db', w'), r)"
  shows "frozen (w\<lparr> en_db := db \<rparr>) (w'\<lparr> en_db := db' \<rparr>)"
proof -
  have "db' = fst (apply_fill db ids f)" using assms settling_db by (metis fst_conv)
  moreover have "w' = w \<or> w' = fst (settle_callback env (fst (apply_fill db ids f)) f w)"
    using assms by (auto simp: apply_fill_settling_def split: prod.splits sum.splits bool.splits)
  ultimately show ?thesis using fill_terms [of db ids f] frozen_callback [where w = w and db = db and env = env and f = f and ?db1.0 = "fst (apply_fill db ids f)"]
    by (auto simp: frozen_def)
qed

lemma frozen_apply_fill [frozen_steps]: "moves frozen (apply_engine_fill env f)"
proof -
  have "frozen s (fst (case apply_fill_settling (settle_callback env (fst (apply_fill (en_db s) ids f))) (en_db s, s) ids f of
     ((db, w), r) \<Rightarrow> (w\<lparr> en_db := db \<rparr>, r)))" for s :: "'a engine" and ids
  proof -
    obtain db w r where a: "apply_fill_settling (settle_callback env (fst (apply_fill (en_db s) ids f))) (en_db s, s) ids f = ((db, w), r)"
      by (metis prod.collapse)
    show ?thesis using frozen_settling [OF a] by (simp add: a)
  qed
  then show ?thesis unfolding apply_engine_fill_def Let_def by (intro frozen.bind frozen_steps) (simp add: moves_def)
qed

lemmas order_steps_terms = om_ack_def om_opened_def om_cancel_confirm_def transition_terms

lemma frozen_loop: "moves frozen m \<Longrightarrow> moves frozen (loop_turn l m)"
  by (erule loop_moves [OF frozen.step_relation_axioms, rotated]) (simp add: frozen_def)

lemma frozen_event: "frozen s (fst (handle_queued env s))"
proof (cases "en_queue s")
  case (Cons ev q)
  have m: "moves frozen (process_market_event env ev)"
    unfolding process_market_event_def Let_def by (auto intro!: frozen.rules frozen_steps)
  have h: "moves frozen (handle_order_event env ev xid local)" for xid local
    unfolding handle_order_event_def Let_def void_def fill_from_payload_def
    by (cases "ee_type ev") (auto intro!: frozen.rules frozen_steps simp: order_steps_terms)
  have "moves frozen (eff_try (process_exchange_event env ev)
     (\<lambda>e. eff_then (set_health env ''event_processing'' False ''unhandled event error'') (eff_raise (Exn AttributeErrorC []))))"
    unfolding process_exchange_event_def Let_def by (auto intro!: frozen.rules frozen_steps m h)
  then show ?thesis using Cons by (auto simp: handle_queued_def moves_def frozen_def)
qed (simp add: handle_queued_def frozen.refl)

interpretation frozen_recovery: recovery_steps "recovery_env_of env run t" UNIV "\<lambda>db w. frozen s (w\<lparr> en_db := db \<rparr>)" for env run t s
proof
  fix db w oid new now ety a
  assume "frozen s (w\<lparr> en_db := db \<rparr>)"
  then show "frozen s (w\<lparr> en_db := fst (om_transition db new now oid ety a) \<rparr>)" by (simp add: frozen_def transition_terms)
next
  fix db w f js db' w' r
  assume ok: "frozen s (w\<lparr> en_db := db \<rparr>)" and a: "apply_fill_settling (re_settle (recovery_env_of env run t) (fst (apply_fill db js f))) (db, w) js f = ((db', w'), r)"
  have "re_settle (recovery_env_of env run t) = settle_callback env" by (simp add: recovery_env_of_def)
  from frozen_settling [OF a [unfolded this]] ok show "frozen s (w'\<lparr> en_db := db' \<rparr>)" by (rule frozen.trans [rotated])
qed (simp_all add: recovery_env_of_def frozen_def)

lemma frozen_run_recovery [frozen_steps]:
  fixes env :: "'x engine_env"
  shows "moves frozen (run_recovery env)"
proof -
  have "frozen s (fst (case recover (recovery_env_of env run t) query \<lparr> rv_db = en_db s, rv_world = s, rv_actions = [] \<rparr> of
     (q, r) \<Rightarrow> ((rv_world q)\<lparr> en_db := rv_db q \<rparr>, rbind r (\<lambda>_. ret ()))))" for s :: "'x engine" and run t query
  proof -
    obtain q r where a: "recover (recovery_env_of env run t) query \<lparr> rv_db = en_db s, rv_world = s, rv_actions = [] \<rparr> = (q, r)" by force
    show ?thesis using frozen_recovery.recover_keeps [OF a, of s] by (simp add: a frozen.refl)
  qed
  then show ?thesis unfolding run_recovery_def by (intro frozen.bind frozen_steps) (simp add: moves_def)
qed

lemma frozen_signal [frozen_steps]: "moves frozen (process_signal env sg)"
proof -
  have "frozen s t" if "process_signal env sg s = (t, r)" for s t r
    using signal_gates [OF that] by (auto simp: frozen_def gates_open_def steady_def same_tables_def)
  then show ?thesis by (metis moves_def prod.collapse)
qed

lemma frozen_upd [frozen_steps]:
  "moves frozen (eff_mod (\<lambda>s. s\<lparr> en_settling := b \<rparr>))" "moves frozen (eff_mod (\<lambda>s. s\<lparr> en_running := b \<rparr>))"
  "moves frozen (eff_mod (\<lambda>s. s\<lparr> en_running := b, en_dead := [] \<rparr>))"
  "moves frozen (eff_mod (\<lambda>s. s\<lparr> en_run := rid \<rparr>))" "moves frozen (eff_mod (\<lambda>s. s\<lparr> en_failures := k s \<rparr>))"
  "moves frozen (eff_mod (\<lambda>s. s\<lparr> en_quarantined := q s \<rparr>))" "moves frozen (eff_mod (\<lambda>s. s\<lparr> en_lease := l \<rparr>))"
  "moves frozen (eff_mod (\<lambda>s. s\<lparr> en_halted := b \<rparr>))" "moves frozen (eff_mod (\<lambda>s. s\<lparr> en_instruments := i \<rparr>))"
  "moves frozen (eff_mod (\<lambda>s. s\<lparr> en_ks := ks_engage reason n (en_ks s) \<rparr>))"
  by (intro frozen.upd, simp add: frozen_def ks_engage_def)+

lemma frozen_context [frozen_steps]: "moves frozen (strategy_context_for env sts)"
  unfolding strategy_context_for_def fetch_book_def invalidate_cached_def fetch_market_state_def Let_def
  by (auto intro!: frozen.rules frozen_steps split: option.split prod.split)

lemma frozen_tick: "moves frozen (tick env sts None)"
proof -
  have sgs: "moves frozen (run_signals env active sgs)" for active sgs
  proof (induction sgs)
    case Nil
    show ?case unfolding run_signals.simps by (rule frozen.pure)
  next
    case (Cons sg sgs)
    then show ?case unfolding run_signals.simps by (intro frozen.rules frozen_steps)
  qed
  have fresh: "moves frozen (case xs of [] \<Rightarrow> eff_ret () | sg # _ \<Rightarrow> refresh_orderbook env (reference_symbol_for (s_symbol sg)))" for xs
    by (cases xs) (simp_all add: frozen.pure frozen_steps)
  have st: "moves frozen (run_strategy env sts active st)" for active st unfolding run_strategy_def
    by (intro frozen.rules frozen_steps, split sum.split, intro conjI allI impI; intro frozen.bind frozen.pure frozen_steps sgs fresh)
  have "moves frozen (run_strategies env sts active rest)" for active rest
  proof (induction rest)
    case Nil
    show ?case unfolding run_strategies.simps by (rule frozen.pure)
  next
    case (Cons x rest)
    then show ?case unfolding run_strategies.simps by (intro frozen.rules st)
  qed
  then show ?thesis unfolding tick_def tick_strategies_def by (auto intro!: frozen.rules frozen_steps)
qed

lemma frozen_turns:
  "moves frozen (lease_turn env)" "moves frozen (reconciliation_turn env)" "moves frozen (stop_engine env)" "moves frozen (start_engine env rid)"
proof -
  show "moves frozen (lease_turn env)" unfolding lease_turn_def
    by (auto intro!: frozen.rules frozen_steps split: option.split)
  have "moves frozen (reconcile_now env)" unfolding reconcile_now_def
    by (auto intro!: frozen.rules frozen_steps split: sum.split) (auto simp: moves_def frozen_def split: prod.split)
  then show "moves frozen (reconciliation_turn env)" unfolding reconciliation_turn_def
    by (auto intro!: frozen.rules frozen_steps)
  show "moves frozen (stop_engine env)" unfolding stop_engine_def await_tasks_def void_def
    by (auto intro!: frozen.rules frozen_steps split: option.split list.split)
  have "moves frozen (acquire_lease env run)" for run unfolding acquire_lease_def
    by (auto intro!: frozen.rules frozen_steps split: attempt.split)
  moreover have "moves frozen (seed_initial_balances env)" unfolding seed_initial_balances_def record_deposit_def void_def
    by (intro frozen.rules frozen_steps)
  moreover have "moves frozen (load_instruments env)" unfolding load_instruments_def by (intro frozen.rules frozen_steps)
  ultimately show "moves frozen (start_engine env rid)" unfolding start_engine_def recover_and_run_def
    by (auto intro!: frozen.rules frozen_steps split: option.split)
qed

text \<open>Steps after which the kill switch is on; a run of them is one in which nobody turns it off.\<close>

inductive halted_run :: "'x engine_env \<Rightarrow> 'x engine \<Rightarrow> 'x engine \<Rightarrow> bool" for env s where
  here: "halted_run env s s"
| further: "halted_run env s t \<Longrightarrow> engine_step env t u \<Longrightarrow> ks_enabled (en_ks u) \<Longrightarrow> halted_run env s u"

lemma frozen_step:
  assumes "engine_step env s t" "ks_enabled (en_ks t)"
  shows "frozen s t"
  using assms(1)
proof cases
  case (started rid r1)
  show ?thesis by (rule movesD [OF frozen_turns(4) started])
next
  case (stopped r2)
  show ?thesis by (rule movesD [OF frozen_turns(3) stopped])
next
  case (signalled sg r3)
  show ?thesis by (rule movesD [OF frozen_signal signalled])
next
  case (ticked sts r4)
  show ?thesis by (rule movesD [OF frozen_tick ticked])
next
  case (event r5)
  have "moves frozen (handle_queued env)" by (simp add: moves_def frozen_event)
  from movesD [OF frozen_loop [OF this] event [unfolded event_turn_def]] show ?thesis .
next
  case (turned l sts r9)
  have "moves frozen (loop_action env sts l)"
    by (cases l) (auto simp: void_def moves_def [of frozen "handle_queued env"] frozen_event intro!: frozen.rules frozen_tick frozen_turns)
  from movesD [OF frozen_loop [OF this] turned] show ?thesis .
next
  case (leased r6)
  show ?thesis by (rule movesD [OF frozen_turns(1) leased])
next
  case (reconciled r7)
  show ?thesis by (rule movesD [OF frozen_turns(2) reconciled])
next
  case (recovered r8)
  show ?thesis by (rule movesD [OF frozen_run_recovery recovered])
qed (use assms(2) in \<open>auto simp: frozen_def engine_init_def restarted_on_def\<close>)

lemma frozen_halted:
  assumes "halted_run env s t" "ks_enabled (en_ks s)"
  shows "ks_enabled (en_ks t) \<and> map order_terms (db_orders (en_db t)) = map order_terms (db_orders (en_db s))"
  using assms by (induction rule: halted_run.induct) (auto dest!: frozen_step simp: frozen_def)

text \<open>C4: when the execution lease cannot be renewed, no order is created from then on, whatever is signalled or
  delivered, until somebody disengages the kill switch.\<close>

theorem lost_lease_stops_new_orders:
  assumes "en_lease s = Some l"
    and "\<not> snd (renew (total_seconds (ev_clock env (en_reads s))) (ev_lease_key env) (ls_token l) (st_lease_ttl (ev_settings env)) (en_leases s))"
    and "lease_turn env s = (t, r)" "halted_run env t u"
  shows "ks_enabled (en_ks u) \<and> map order_terms (db_orders (en_db u)) = map order_terms (db_orders (en_db s))"
proof -
  have "ks_enabled (en_ks t)"
    using assms(1-3) by (auto simp: lease_turn_def on_leases_def en_now_def eff_bind_def set_health_def ks_engage_def split: prod.splits)
  moreover have "same_tables s t" by (rule movesD [OF quiet_lease_turn assms(3)])
  ultimately show ?thesis using frozen_halted [OF assms(4)] by (simp add: same_tables_def)
qed

text \<open>An engine whose lease has left the table.\<close>

definition ex_lost :: "nat engine" where
  "ex_lost = (ex_engine [])\<lparr> en_lease := Some \<lparr> ls_key = ''k'', ls_owner = ''o'', ls_token = ''t'', ls_expires = 0, ls_fence = 1 \<rparr> \<rparr>"

theorem lost_lease_stops_new_orders_witness:
  "db_orders (en_db (fst (process_signal ex_engine_env (ex_signal BUY 1) (fst (lease_turn ex_engine_env ex_lost))))) = []"
proof -
  let ?t = "fst (lease_turn ex_engine_env ex_lost)"
  have l: "en_lease ex_lost = Some \<lparr> ls_key = ''k'', ls_owner = ''o'', ls_token = ''t'', ls_expires = 0, ls_fence = 1 \<rparr>"
    by (simp add: ex_lost_def)
  have n: "\<not> snd (renew (total_seconds (ev_clock ex_engine_env (en_reads ex_lost))) (ev_lease_key ex_engine_env) ''t''
      (st_lease_ttl (ev_settings ex_engine_env)) (en_leases ex_lost))"
    by code_simp
  have t: "lease_turn ex_engine_env ex_lost = (?t, snd (lease_turn ex_engine_env ex_lost))" by simp
  note lost = lost_lease_stops_new_orders [OF l _ t, simplified, OF n]
  have "ks_enabled (en_ks ?t)" using lost halted_run.here by blast
  then have k: "ks_enabled (en_ks (fst (process_signal ex_engine_env (ex_signal BUY 1) ?t)))"
    using frozen_signal [of ex_engine_env "ex_signal BUY 1"] by (simp add: moves_def frozen_def)
  have "engine_step ex_engine_env ?t (fst (process_signal ex_engine_env (ex_signal BUY 1) ?t))"
    by (rule engine_step.signalled [OF prod.collapse [symmetric]])
  from lost [OF halted_run.further [OF halted_run.here this k]] show ?thesis
    by (simp add: ex_lost_def ex_engine_def engine_init_def)
qed

subsection \<open>An event that cannot be handled\<close>

text \<open>C29: an exception from the handling of one event ends the handling of events: the clause that is to log it raises
  \<open>AttributeError\<close>, the task of the loop ends, and from then on a turn of it does nothing, so that fills and
  acknowledgements stay in the queue; and stopping the engine raises that error again, before the lease is released,
  the exchange disconnected and the run closed.\<close>

theorem failed_event_ends_loop:
  assumes "map_of (en_dead s) EventLoop = None" "en_queue s = ev # q"
    and "process_exchange_event env ev (s\<lparr> en_queue := q \<rparr>) = (w, Inl e)" "event_turn env s = (t, r)"
  shows "r = raise AttributeErrorC \<and> map_of (en_dead t) EventLoop = Some (Exn AttributeErrorC []) \<and>
    (\<forall>u. map_of (en_dead u) EventLoop = Some (Exn AttributeErrorC []) \<longrightarrow>
       event_turn env u = (u, ret ()) \<and>
       (en_running u \<longrightarrow> stop_engine env u = (u\<lparr> en_running := False \<rparr>, raise AttributeErrorC)))"
proof -
  obtain w' where h: "set_health env ''event_processing'' False ''unhandled event error'' w = (w', ret ())"
    by (auto simp: set_health_def eff_bind_def en_now_def)
  have "handle_queued env s = (w', raise AttributeErrorC)"
    using assms(2,3) h by (simp add: handle_queued_def eff_try_def eff_bind_def)
  then have "r = raise AttributeErrorC" "t = w'\<lparr> en_dead := (EventLoop, Exn AttributeErrorC []) # en_dead w' \<rparr>"
    using assms(1,4) by (simp_all add: event_turn_def loop_turn_def)
  moreover have "stop_engine env u = (u\<lparr> en_running := False \<rparr>, raise AttributeErrorC)"
    if "map_of (en_dead u) EventLoop = Some (Exn AttributeErrorC [])" "en_running u" for u :: "'a engine"
    using that by (simp add: stop_engine_def await_tasks_def eff_bind_def map_filter_simps)
  ultimately show ?thesis by (simp add: event_turn_def loop_turn_def)
qed

definition ex_broken_event :: exchange_event where
  "ex_broken_event = \<lparr> ee_id = ''ev_1'', ee_type = EX_MARKET_DELTA, ee_symbol = Some ''BTCUSDT'', ee_time = 0, ee_payload = [] \<rparr>"

theorem failed_event_ends_loop_witness:
  "\<exists>t. event_turn ex_engine_env ((ex_engine [])\<lparr> en_queue := [ex_broken_event] \<rparr>) = (t, raise AttributeErrorC) \<and>
     event_turn ex_engine_env (t\<lparr> en_queue := [ex_event EX_ORDER_FILLED ''x1'' 1] \<rparr>) = (t\<lparr> en_queue := [ex_event EX_ORDER_FILLED ''x1'' 1] \<rparr>, ret ())"
proof -
  let ?s = "(ex_engine [])\<lparr> en_queue := [ex_broken_event] \<rparr>"
  have d: "map_of (en_dead ?s) EventLoop = None" "en_queue ?s = ex_broken_event # []" by (simp_all add: ex_engine_def engine_init_def)
  have k: "\<not> catches [MarketDataUnhealthy] (Exn KeyErrorC [])" "truthy_str (Some ''BTCUSDT'')" by code_simp+
  have p: "process_exchange_event ex_engine_env ex_broken_event (?s\<lparr> en_queue := [] \<rparr>) = (?s\<lparr> en_queue := [] \<rparr>, raise KeyErrorC)"
    using k by (simp add: process_exchange_event_def process_market_event_def ex_broken_event_def eff_try_def eff_bind_def meta_item_def Let_def)
  obtain t r where t: "event_turn ex_engine_env ?s = (t, r)" by force
  show ?thesis using failed_event_ends_loop [OF d p t] t by auto
qed

end
