(* ===== verification/Python_Values.thy ===== *)
theory Python_Values
  imports Domain
begin

text \<open>
  Values and functions of the Python library that the decision path computes with: floats and decimals read
  from text, \<open>round\<close>, \<open>sum\<close>, \<open>fmean\<close>, \<open>max\<close> with a key, the square root of a decimal, and the first
  occurrences of the elements of a list. A float is a rational that is rounded after each operation;
  overflow to infinity is not modelled. The square root is computed on integers; its lemmas say how far
  it is off.
\<close>

subsection \<open>Conversions\<close>

text \<open>\<open>Decimal(str(x))\<close> of a value of a payload, and \<open>Decimal(t)\<close> and \<open>float(t)\<close> of a text.\<close>

definition decimal_of :: "json \<Rightarrow> dec res" where
  "decimal_of j =
     (case j of
        JDec d \<Rightarrow> ret d | JRaw d \<Rightarrow> ret d | JInt n \<Rightarrow> ret (of_int n)
      | JStr t \<Rightarrow> (case parse_decimal (strip t) of Some d \<Rightarrow> ret d | None \<Rightarrow> raise InvalidOperation)
      | _ \<Rightarrow> raise InvalidOperation)"

definition float_of_text :: "string \<Rightarrow> fl res" where
  "float_of_text t = (case parse_decimal (strip t) of Some d \<Rightarrow> ret (fround d) | None \<Rightarrow> raise ValueError)"

subsection \<open>Floats\<close>

text \<open>\<open>Decimal(str(x))\<close> of a float: the shortest decimal that reads back as \<open>x\<close>.\<close>

definition repr_dec :: "fl \<Rightarrow> dec" where
  "repr_dec x = (case List.find (\<lambda>d. fround d = x) (map (\<lambda>n. fl_round 10 n x) [1..<18]) of Some d \<Rightarrow> d | None \<Rightarrow> x)"

definition fdiv :: "fl \<Rightarrow> fl \<Rightarrow> fl" where "fdiv a b = fround (a / b)"

text \<open>\<open>round(x, n)\<close>\<close>

definition fl_places :: "nat \<Rightarrow> fl \<Rightarrow> fl" where
  "fl_places n x = fround (of_int (half_even (x * 10 ^ n)) / 10 ^ n)"

text \<open>\<open>sum(xs)\<close> of floats adds a correction for the rounding errors at the end; \<open>fmean\<close> rounds the exact sum.\<close>

definition sum_step :: "fl \<times> fl \<Rightarrow> fl \<Rightarrow> fl \<times> fl" where
  "sum_step st x =
     (let (s, c) = st; t = fadd s x
      in (t, fadd c (if \<bar>x\<bar> \<le> \<bar>s\<bar> then fadd (fsub s t) x else fadd (fsub x t) s)))"

definition fl_sum :: "fl list \<Rightarrow> fl" where
  "fl_sum xs = (let (s, c) = foldl sum_step (0, 0) xs in fadd s c)"

definition fl_mean :: "fl list \<Rightarrow> fl" where
  "fl_mean xs = fdiv (fround (sum_list xs)) (of_nat (length xs))"

lemma fround_float [simp]:
  "fround (fadd a b) = fadd a b" "fround (fsub a b) = fsub a b" "fround (fmul a b) = fmul a b" "fround (fdiv a b) = fdiv a b"
  by (simp_all add: fadd_def fsub_def fmul_def fdiv_def)

lemma fround_int:
  assumes "\<bar>n\<bar> \<le> 2 ^ 53"
  shows "fround (of_int n) = of_int n"
proof -
  have "has_digits 2 53 (of_int n)" unfolding has_digits_def using assms by (intro exI [of _ n] exI [of _ "0::int"]) simp
  then show ?thesis unfolding fround_def by (intro fl_round_exact) simp_all
qed

lemma fround_nat: "n \<le> 2 ^ 53 \<Longrightarrow> fround (of_nat n) = of_nat n"
  using fround_int [of "int n"] by simp

lemma fround_numeral: "numeral k \<le> (2 ^ 53 :: int) \<Longrightarrow> fround (numeral k) = numeral k"
  using fround_int [of "numeral k"] by simp

lemma fround_1 [simp]: "fround 1 = 1"
  using fround_int [of 1] by simp

lemma fround_unit: "0 \<le> x \<Longrightarrow> x \<le> 1 \<Longrightarrow> 0 \<le> fround x \<and> fround x \<le> 1"
  using flt.rnd_nonneg flt.rnd_le_fixed by force

lemma half_even_mono:
  assumes "x \<le> y"
  shows "half_even x \<le> half_even y"
proof (rule ccontr)
  assume n: "\<not> half_even x \<le> half_even y"
  have "\<bar>of_int (half_even x) - x\<bar> \<le> 1 / 2" "\<bar>of_int (half_even y) - y\<bar> \<le> 1 / 2" by (rule half_even_error)+
  moreover have "of_int (half_even y) + 1 \<le> (of_int (half_even x) :: rat)" using n by linarith
  ultimately have "x = y" using assms unfolding abs_le_iff by linarith
  then show False using n by simp
qed

lemma fl_places_unit:
  assumes "0 \<le> x" "x \<le> 1"
  shows "0 \<le> fl_places n x" "fl_places n x \<le> 1"
proof -
  have "half_even 0 \<le> half_even (x * 10 ^ n)" using assms by (intro half_even_mono) simp
  then have lo: "0 \<le> half_even (x * 10 ^ n)" using half_even_of_int [of 0] by simp
  have "half_even (x * 10 ^ n) \<le> half_even (of_int (10 ^ n))" using assms by (intro half_even_mono) (simp add: mult_left_le_one_le)
  then have "(of_int (half_even (x * 10 ^ n)) :: rat) \<le> of_int (10 ^ n)" by (simp only: half_even_of_int of_int_le_iff)
  then have "of_int (half_even (x * 10 ^ n)) / 10 ^ n \<le> (1 :: rat)" by simp
  moreover have "0 \<le> (of_int (half_even (x * 10 ^ n)) / 10 ^ n :: rat)" using lo by simp
  ultimately show "0 \<le> fl_places n x" "fl_places n x \<le> 1" using fround_unit unfolding fl_places_def by blast+
qed

subsection \<open>Lists\<close>

text \<open>\<open>list(dict.fromkeys(xs))\<close>: the first occurrence of each element.\<close>

definition dedupe :: "'a list \<Rightarrow> 'a list" where
  "dedupe xs = rev (remdups (rev xs))"

text \<open>\<open>max(xs, key=f)\<close>: the first element with the largest key.\<close>

fun max_by :: "('a \<Rightarrow> 'b::linorder) \<Rightarrow> 'a \<Rightarrow> 'a list \<Rightarrow> 'a" where
  "max_by f x [] = x"
| "max_by f x (y # ys) = max_by f (if f x < f y then y else x) ys"

lemma max_by_mem: "max_by f x ys \<in> insert x (set ys)"
  by (induction ys arbitrary: x) (auto split: if_splits)

lemma max_by_ge: "f x \<le> f (max_by f x ys) \<and> (\<forall>y \<in> set ys. f y \<le> f (max_by f x ys))"
proof (induction ys arbitrary: x)
  case (Cons y ys)
  from Cons [of "if f x < f y then y else x"] show ?case by (auto split: if_splits)
qed simp

subsection \<open>Square roots\<close>

function isqrt :: "int \<Rightarrow> int" where
  "isqrt n = (if n \<le> 0 then 0 else (let r = 2 * isqrt (n div 4) in if (r + 1) * (r + 1) \<le> n then r + 1 else r))"
  by pat_completeness auto
termination by (relation "measure nat") auto

declare isqrt.simps [simp del]

lemma isqrt_bounds: "0 \<le> n \<Longrightarrow> 0 \<le> isqrt n \<and> isqrt n ^ 2 \<le> n \<and> n < (isqrt n + 1) ^ 2"
proof (induction n rule: isqrt.induct)
  case (1 n)
  show ?case
  proof (cases "n = 0")
    case False
    define r where "r = isqrt (n div 4)"
    have r: "0 \<le> r" "r ^ 2 \<le> n div 4" "n div 4 < (r + 1) ^ 2" using 1 False by (simp_all add: r_def)
    then have "4 * r ^ 2 \<le> n" "n < 4 * (r + 1) ^ 2" by linarith+
    then have "(2 * r) ^ 2 \<le> n" "n < (2 * r + 2) ^ 2" by (simp_all add: power2_eq_square algebra_simps)
    then show ?thesis using False 1(2) r(1)
      by (simp add: isqrt.simps [of n] r_def [symmetric] Let_def power2_eq_square algebra_simps)
  qed (simp add: isqrt.simps)
qed

text \<open>
  \<open>x.sqrt()\<close>: the root is computed to at least one digit more than the precision; when it is not exact the last
  digit is made uneven, so that the final rounding sees on which side of a tie the root lies.
\<close>

definition sqrt_scale :: "dec \<Rightarrow> nat" where
  "sqrt_scale x = nat (30 - (case quotient_of x of (a, q) \<Rightarrow> mag_exp_div 10 \<bar>a\<bar> q) div 2)"

definition dsqrt :: "dec \<Rightarrow> dec" where
  "dsqrt x =
     (let k = sqrt_scale x; c = \<lfloor>x * 100 ^ k\<rfloor>; n = isqrt c
      in dround (if of_int (n * n) = x * 100 ^ k then of_int n / 10 ^ k else (of_int n + 1 / 2) / 10 ^ k))"

text \<open>Before the final rounding the root is off by less than half a unit of its last digit.\<close>

definition root_digits :: "dec \<Rightarrow> dec" where
  "root_digits x = of_int (isqrt \<lfloor>x * 100 ^ sqrt_scale x\<rfloor>) / 10 ^ sqrt_scale x"

lemma root_digits_bounds:
  assumes "0 \<le> x"
  shows "root_digits x ^ 2 \<le> x" "x < (root_digits x + 1 / 10 ^ sqrt_scale x) ^ 2"
proof -
  define k where "k = sqrt_scale x"
  define n where "n = isqrt \<lfloor>x * 100 ^ k\<rfloor>"
  have b: "n ^ 2 \<le> \<lfloor>x * 100 ^ k\<rfloor>" "\<lfloor>x * 100 ^ k\<rfloor> < (n + 1) ^ 2"
    using isqrt_bounds [of "\<lfloor>x * 100 ^ k\<rfloor>"] assms by (simp_all add: n_def)
  have "(of_int (n ^ 2) :: rat) \<le> x * 100 ^ k" using b(1) by (simp only: le_floor_iff)
  then have l: "(of_int n :: rat) ^ 2 \<le> x * 100 ^ k" by simp
  have "x * 100 ^ k < (of_int ((n + 1) ^ 2) :: rat)" using b(2) by (simp only: floor_less_iff)
  then have h: "x * 100 ^ k < ((of_int n + 1) :: rat) ^ 2" by simp
  have p: "(100 :: rat) ^ k = (10 ^ k) ^ 2" by (simp add: power2_eq_square flip: power_mult_distrib)
  have "(of_int n / 10 ^ k) ^ 2 \<le> x" using l by (simp add: p power_divide divide_le_eq)
  then show "root_digits x ^ 2 \<le> x" by (simp add: root_digits_def n_def k_def)
  have "x < ((of_int n + 1) / 10 ^ k) ^ 2" using h by (simp add: p power_divide less_divide_eq)
  then show "x < (root_digits x + 1 / 10 ^ sqrt_scale x) ^ 2" by (simp add: root_digits_def n_def k_def add_divide_distrib)
qed

lemma dsqrt_examples: "dsqrt 0 = 0" "dsqrt 4 = 2" "dsqrt (1 / 100) = 1 / 10" "dsqrt 2 = 1414213562373095048801688724 / 10 ^ 27"
  by code_simp+

end
