(* ===== verification/Trade_Episodes.thy ===== *)
theory Trade_Episodes
  imports Engine_Signals Python_Values
begin

text \<open>
  \<open>governance/trade_episodes.py\<close>: the fills of a symbol, replayed into cycles from flat to flat, and the
  table of learning episodes that is derived from them again at every call. The digest that makes the
  key of an episode is an argument: nothing rests on it being free of collisions. The tables are
  those of the order manager, the ledger and the audit trail.
\<close>

subsection \<open>Cycles\<close>

record ep_fill =
  ef_id :: string
  ef_order :: string
  ef_side :: order_side
  ef_price :: dec
  ef_qty :: dec
  ef_time :: usec
  ef_fee :: dec
  ef_ccy :: string
  ef_market :: string
  ef_reduce :: bool
  ef_strategy :: string
  ef_client :: string
  ef_payload :: meta

record cycle =
  cy_symbol :: string
  cy_market :: string
  cy_entry :: "ep_fill list"
  cy_exit :: "ep_fill list"
  cy_open :: dec
  cy_dir :: position_side

definition cycle_complete :: "cycle \<Rightarrow> bool" where
  "cycle_complete c \<longleftrightarrow> cy_entry c \<noteq> [] \<and> cy_exit c \<noteq> [] \<and> cy_open c = 0"

definition signed_of :: "ep_fill \<Rightarrow> dec" where
  "signed_of f = (if ef_side f = BUY then ef_qty f else dneg (ef_qty f))"

definition is_reduce :: "ep_fill \<Rightarrow> dec \<Rightarrow> bool" where
  "is_reduce f q \<longleftrightarrow> q \<noteq> 0 \<and> (0 < q \<and> ef_side f = SELL \<or> q < 0 \<and> ef_side f = BUY)"

definition open_cycle :: "string \<Rightarrow> ep_fill \<Rightarrow> cycle" where
  "open_cycle sy f =
     \<lparr> cy_symbol = sy, cy_market = ef_market f, cy_entry = [f], cy_exit = [], cy_open = signed_of f,
       cy_dir = (if ef_side f = BUY then LONG else SHORT) \<rparr>"

definition extend_cycle :: "ep_fill \<Rightarrow> cycle \<Rightarrow> cycle" where
  "extend_cycle f c =
     (let c1 = (if is_reduce f (cy_open c) \<or> ef_reduce f then c\<lparr> cy_exit := cy_exit c @ [f] \<rparr> else c\<lparr> cy_entry := cy_entry c @ [f] \<rparr>)
      in c1\<lparr> cy_open := dadd (cy_open c1) (signed_of f) \<rparr>)"

text \<open>The list of the completed cycles and the current one.\<close>

type_synonym cycles = "cycle list \<times> cycle option"

definition close_current :: "cycles \<Rightarrow> cycle list" where
  "close_current st = (case st of (cs, Some c) \<Rightarrow> if cycle_complete c then cs @ [c] else cs | (cs, None) \<Rightarrow> cs)"

definition cycle_step :: "string \<Rightarrow> cycles \<Rightarrow> ep_fill \<Rightarrow> cycles" where
  "cycle_step sy st f =
     (case st of
        (cs, Some c) \<Rightarrow>
          if cy_open c \<noteq> 0 then (cs, Some (extend_cycle f c))
          else if is_reduce f 0 \<or> ef_reduce f then (close_current st, None)
          else (close_current st, Some (open_cycle sy f))
      | (cs, None) \<Rightarrow> if is_reduce f 0 \<or> ef_reduce f then (cs, None) else (cs, Some (open_cycle sy f)))"

definition build_cycles :: "string \<Rightarrow> ep_fill list \<Rightarrow> cycle list" where
  "build_cycles sy fs = close_current (foldl (cycle_step sy) ([], None) fs)"

subsection \<open>Quarantine\<close>

definition is_fill_id :: "string \<Rightarrow> bool" where
  "is_fill_id t \<longleftrightarrow> take 5 t = ''fill_''"

text \<open>\<open>str(x or "")\<close>\<close>

definition text_or_empty :: "json option \<Rightarrow> string" where
  "text_or_empty v = (case v of Some j \<Rightarrow> if truthy_json j then str_json j else [] | None \<Rightarrow> [])"

text \<open>What a \<open>for\<close> loop runs over: the elements of a list, the characters of a text, the keys of a mapping.
  A number there, over which a loop would raise, counts as nothing.\<close>

definition json_items :: "json option \<Rightarrow> json list" where
  "json_items v =
     (case v of Some (JList js) \<Rightarrow> js | Some (JStr t) \<Rightarrow> map (\<lambda>c. JStr [c]) t | Some (JObj kvs) \<Rightarrow> map (\<lambda>kv. JStr (fst kv)) kvs | _ \<Rightarrow> [])"

definition quarantine_rows :: "audit_event list \<Rightarrow> audit_event list" where
  "quarantine_rows rows = filter (\<lambda>r. au_action r = ''EVIDENCE_QUARANTINE'') rows"

definition quarantined_fills :: "audit_event list \<Rightarrow> string list" where
  "quarantined_fills rows =
     concat (map (\<lambda>r. filter is_fill_id (au_target r #
        map (\<lambda>j. text_or_empty (Some j)) (json_items (map_of (au_after r) ''tainted_fill_ids'')) @
        map (\<lambda>k. text_or_empty (map_of (au_after r) k)) [''fill_id'', ''target_fill_id''])) (quarantine_rows rows))"

definition quarantine_windows :: "audit_event list \<Rightarrow> (string \<times> usec) list" where
  "quarantine_windows rows =
     concat (map (\<lambda>r.
        let direct = au_target r \<noteq> [] \<and> \<not> is_fill_id (au_target r);
            sym = (if direct then au_target r else text_or_empty (map_of (au_after r) ''symbol''))
        in if sym \<noteq> [] then [(sym, au_time r)] else []) (quarantine_rows rows))"

definition in_window :: "usec \<Rightarrow> usec \<Rightarrow> usec \<Rightarrow> bool" where
  "in_window entry exit w \<longleftrightarrow> entry \<le> w \<and> w \<le> exit"

subsection \<open>Facts of other tables\<close>

definition ledger_realized_by_order :: "ledger_db \<Rightarrow> (string, json) dict" where
  "ledger_realized_by_order db =
     foldl (\<lambda>d x. case (x_order x, map_of (x_meta x) ''realized_pnl'') of
         (Some oid, Some j) \<Rightarrow> if j = JNull then d else AList.update oid j d | _ \<Rightarrow> d)
       [] (filter (\<lambda>x. x_type x = FUTURES_REALIZED_PNL) db)"

definition ai_exit_intents :: "audit_event list \<Rightarrow> (string, string) dict" where
  "ai_exit_intents rows =
     foldl (\<lambda>d r. case au_order r of
         Some oid \<Rightarrow> (let reason = text_or_empty (map_of (au_after r) ''exit_reason'') in if reason \<noteq> [] then AList.update oid reason d else d)
       | None \<Rightarrow> d)
       [] (filter (\<lambda>r. au_action r = ''AI_EXIT_INTENT'') rows)"

text \<open>The leverage of the \<open>OPEN\<close> rows, the last one in the order of the transaction ids winning.\<close>

definition perp_leverage_by_symbol :: "ledger_db \<Rightarrow> (string, dec) dict" where
  "perp_leverage_by_symbol db =
     foldl (\<lambda>d x. case (map_of (x_meta x) ''symbol'', map_of (x_meta x) ''leverage'') of
         (Some sy, Some lev) \<Rightarrow>
           if map_of (x_meta x) ''action'' = Some (JStr ''OPEN'') \<and> truthy_json sy \<and> lev \<noteq> JNull then
             (case decimal_of lev of Inr v \<Rightarrow> if 0 < v then AList.update (str_json sy) v d else d | Inl _ \<Rightarrow> d)
           else d
       | _ \<Rightarrow> d)
       [] (sort_key x_id db)"

subsection \<open>Episodes\<close>

definition weighted_avg :: "ep_fill list \<Rightarrow> dec" where
  "weighted_avg fs =
     (let total = dsum (map ef_qty fs)
      in if total = 0 then 0 else ddiv (dsum (map (\<lambda>f. dmul (ef_price f) (ef_qty f)) fs)) total)"

datatype episode_result = WIN | LOSS | BREAKEVEN

record episode =
  ep_id :: string
  ep_symbol :: string
  ep_market :: string
  ep_dir :: position_side
  ep_entry :: dec
  ep_exit :: dec
  ep_size :: dec
  ep_entry_qty :: dec
  ep_exit_qty :: dec
  ep_holding :: fl
  ep_gross :: dec
  ep_fees :: dec
  ep_ccy :: string
  ep_net :: dec
  ep_result :: episode_result
  ep_from :: usec
  ep_to :: usec
  ep_entry_orders :: "string list"
  ep_exit_orders :: "string list"
  ep_entry_fills :: "string list"
  ep_exit_fills :: "string list"
  ep_decision :: "json option"
  ep_signal :: "json option"
  ep_strategy :: string

definition exit_reason_for :: "ep_fill list \<Rightarrow> (string, string) dict \<Rightarrow> usec \<Rightarrow> fl option \<Rightarrow> string" where
  "exit_reason_for exits intents entry time_stop =
     (case List.find (\<lambda>t. t \<noteq> []) (map (\<lambda>f. text_or_empty (map_of (ef_payload f) ''exit_reason'')) exits) of
        Some reason \<Rightarrow> reason
      | None \<Rightarrow>
          (case List.find (\<lambda>t. t \<noteq> []) (map (\<lambda>f. case map_of intents (ef_order f) of Some t \<Rightarrow> t | None \<Rightarrow> []) exits) of
             Some reason \<Rightarrow> reason
           | None \<Rightarrow>
               (case time_stop of
                  Some limit \<Rightarrow>
                    if set (map ef_strategy exits) = {''ai_brain''} \<and> limit \<noteq> 0 \<and>
                       fmul limit (fround (95 / 100)) \<le> total_seconds (ef_time (last exits) - entry)
                    then ''TIME_STOP'' else ''UNKNOWN''
                | None \<Rightarrow> ''UNKNOWN'')))"

definition gross_of :: "cycle \<Rightarrow> (string, json) dict \<Rightarrow> dec \<Rightarrow> dec \<Rightarrow> dec \<Rightarrow> dec res" where
  "gross_of c realized entry exit qty =
     (case List.find (\<lambda>f. map_of realized (ef_order f) \<noteq> None) (cy_exit c) of
        Some f \<Rightarrow> decimal_of (the (map_of realized (ef_order f)))
      | None \<Rightarrow> ret (if cy_dir c = LONG then dmul (dsub exit entry) qty else dmul (dsub entry exit) qty))"

definition episode_key :: "(string \<Rightarrow> string) \<Rightarrow> cycle \<Rightarrow> string" where
  "episode_key sha c =
     sha (cy_symbol c @ ''|'' @ cy_market c @ ''|'' @ joined '','' (map ef_id (cy_entry c)) @ ''|'' @
          joined '','' (map ef_id (cy_exit c)))"

definition first_item :: "string \<Rightarrow> ep_fill list \<Rightarrow> json option" where
  "first_item k fs = map_of (ef_payload (hd fs)) k"

definition cycle_episode :: "(string \<Rightarrow> string) \<Rightarrow> cycle \<Rightarrow> (string, json) dict \<Rightarrow> episode res" where
  "cycle_episode sha c realized =
     (let entries = cy_entry c; exits = cy_exit c;
          entry = weighted_avg entries; exit = weighted_avg exits;
          entry_qty = dsum (map ef_qty entries); exit_qty = dsum (map ef_qty exits);
          qty = min entry_qty exit_qty;
          fees = dsum (map ef_fee (entries @ exits));
          ccy = ef_ccy (hd (exits @ entries))
      in rbind (gross_of c realized entry exit qty) (\<lambda>gross.
         let net = dsub gross fees;
             from = ef_time (hd entries); upto = ef_time (last exits)
         in ret \<lparr> ep_id = ''eps-'' @ episode_key sha c, ep_symbol = cy_symbol c, ep_market = cy_market c, ep_dir = cy_dir c,
              ep_entry = entry, ep_exit = exit, ep_size = qty, ep_entry_qty = entry_qty, ep_exit_qty = exit_qty,
              ep_holding = max 0 (total_seconds (upto - from)), ep_gross = gross, ep_fees = fees,
              ep_ccy = (if ccy \<noteq> [] then ccy else ''USDT''), ep_net = net,
              ep_result = (if 0 < net then WIN else if net < 0 then LOSS else BREAKEVEN), ep_from = from, ep_to = upto,
              ep_entry_orders = sort (remdups (map ef_order entries)), ep_exit_orders = sort (remdups (map ef_order exits)),
              ep_entry_fills = map ef_id entries, ep_exit_fills = map ef_id exits,
              ep_decision = first_item ''decision_id'' entries, ep_signal = first_item ''signal_id'' entries,
              ep_strategy = ef_strategy (hd entries) \<rparr>))"

subsection \<open>The table\<close>

record episode_row =
  er_id :: string
  er_symbol :: string
  er_regime :: string
  er_strategy :: string
  er_entry :: dec
  er_exit :: dec
  er_size :: dec
  er_leverage :: dec
  er_holding :: fl
  er_pnl :: dec
  er_result :: episode_result
  er_created :: usec
  er_market :: string
  er_dir :: position_side
  er_reason :: string
  er_gross :: dec
  er_fees :: dec
  er_net :: dec
  er_lineage :: meta

definition lineage_of :: "episode \<Rightarrow> string \<Rightarrow> meta" where
  "lineage_of e reason =
     (let ids = (\<lambda>xs. JList (map JStr xs)); opt = (\<lambda>v. case v of Some j \<Rightarrow> j | None \<Rightarrow> JNull)
      in [(''entry_order_ids'', ids (ep_entry_orders e)), (''exit_order_ids'', ids (ep_exit_orders e)),
          (''entry_fill_ids'', ids (ep_entry_fills e)), (''exit_fill_ids'', ids (ep_exit_fills e)),
          (''entry_decision_id'', opt (ep_decision e)), (''entry_signal_id'', opt (ep_signal e)), (''exit_reason'', JStr reason),
          (''entry_timestamp'', JInt (ep_from e)), (''exit_timestamp'', JInt (ep_to e)), (''entry_qty'', JDec (ep_entry_qty e)),
          (''exit_qty'', JDec (ep_exit_qty e)), (''fee_currency'', JStr (ep_ccy e)), (''mae'', JStr ''NOT_AVAILABLE''),
          (''mfe'', JStr ''NOT_AVAILABLE'')])"

definition leverage_text :: "dec option \<Rightarrow> dec" where
  "leverage_text lev = (case lev of Some v \<Rightarrow> if 0 < v then v else 1 | None \<Rightarrow> 1)"

text \<open>What an update writes; the rest of a row is only written when it is inserted.\<close>

definition derive_row :: "episode \<Rightarrow> string \<Rightarrow> meta \<Rightarrow> dec option \<Rightarrow> episode_row \<Rightarrow> episode_row" where
  "derive_row e reason lineage lev r =
     r\<lparr> er_entry := ep_entry e, er_exit := ep_exit e, er_size := ep_size e, er_leverage := leverage_text lev,
        er_holding := ep_holding e, er_pnl := ep_net e, er_result := ep_result e, er_market := ep_market e, er_dir := ep_dir e,
        er_reason := reason, er_gross := ep_gross e, er_fees := ep_fees e, er_net := ep_net e, er_lineage := lineage \<rparr>"

definition new_row :: "usec \<Rightarrow> episode \<Rightarrow> string \<Rightarrow> meta \<Rightarrow> dec option \<Rightarrow> episode_row" where
  "new_row now e reason lineage lev =
     \<lparr> er_id = ep_id e, er_symbol = ep_symbol e,
       er_regime = (let t = text_or_empty (map_of lineage ''entry_regime'') in if t \<noteq> [] then t else ''UNKNOWN''),
       er_strategy = ep_strategy e, er_entry = ep_entry e, er_exit = ep_exit e, er_size = ep_size e,
       er_leverage = leverage_text lev, er_holding = ep_holding e, er_pnl = ep_net e, er_result = ep_result e, er_created = now,
       er_market = ep_market e, er_dir = ep_dir e, er_reason = reason, er_gross = ep_gross e, er_fees = ep_fees e,
       er_net = ep_net e, er_lineage = lineage \<rparr>"

text \<open>The flag says that a row was inserted.\<close>

definition persist_episode ::
  "usec \<Rightarrow> episode \<Rightarrow> string \<Rightarrow> meta \<Rightarrow> dec option \<Rightarrow> episode_row list \<Rightarrow> episode_row list \<times> bool" where
  "persist_episode now e reason lineage lev rows =
     (if ep_id e \<in> er_id ` set rows
      then (map (\<lambda>r. if er_id r = ep_id e then derive_row e reason lineage lev r else r) rows, False)
      else (rows @ [new_row now e reason lineage lev], True))"

subsection \<open>The backfill\<close>

record episode_db =
  ed_orders :: om_db
  ed_ledger :: ledger_db
  ed_audit :: "audit_event list"
  ed_columns :: "string list"

definition required_columns :: "string list" where
  "required_columns = [''market_type'', ''direction'', ''exit_reason'', ''lineage_json'', ''gross_pnl'', ''fees'', ''net_pnl'']"

definition ensure_columns :: "string list \<Rightarrow> unit res" where
  "ensure_columns have = (if set required_columns \<subseteq> set have then ret () else raise RuntimeErrorC)"

definition ep_fill_of :: "om_db \<Rightarrow> fill \<Rightarrow> ep_fill" where
  "ep_fill_of db f =
     (let ord = get_order db (f_order f); market = text_or_empty (map_of (f_payload f) ''market_type'')
      in \<lparr> ef_id = f_id f, ef_order = f_order f, ef_side = f_side f, ef_price = f_price f, ef_qty = f_qty f, ef_time = f_time f,
           ef_fee = f_fee f, ef_ccy = (case or_str (f_fee_ccy f) (Some ''USDT'') of Some c \<Rightarrow> c | None \<Rightarrow> []),
           ef_market = (if market \<noteq> [] then market else ''SPOT''),
           ef_reduce = (case ord of Some r \<Rightarrow> o_reduce_only r | None \<Rightarrow> False),
           ef_strategy = (case ord of Some r \<Rightarrow> if o_strategy r \<noteq> [] then o_strategy r else ''unknown'' | None \<Rightarrow> ''unknown''),
           ef_client = (case ord of Some r \<Rightarrow> o_client r | None \<Rightarrow> []), ef_payload = f_payload f \<rparr>)"

definition symbol_fills :: "episode_db \<Rightarrow> string \<Rightarrow> ep_fill list" where
  "symbol_fills db sy =
     map (ep_fill_of (ed_orders db))
       (filter (\<lambda>f. f_id f \<notin> set (quarantined_fills (ed_audit db)))
         (sort_key f_time (filter (\<lambda>f. f_symbol f = sy) (db_fills (ed_orders db)))))"

definition excluded :: "episode_db \<Rightarrow> string \<Rightarrow> episode \<Rightarrow> bool" where
  "excluded db sy e \<longleftrightarrow>
     (set (ep_entry_fills e) \<union> set (ep_exit_fills e)) \<inter> set (quarantined_fills (ed_audit db)) \<noteq> {} \<or>
     (\<exists>(w, t) \<in> set (quarantine_windows (ed_audit db)). w = sy \<and> in_window (ep_from e) (ep_to e) t)"

text \<open>The table, and the ids of the episodes that were inserted; the rest of the report counts them.\<close>

type_synonym backfill = "episode_row list \<times> string list"

definition record_cycle :: "(string \<Rightarrow> string) \<Rightarrow> episode_db \<Rightarrow> usec \<Rightarrow> string \<Rightarrow> cycle \<Rightarrow> backfill \<Rightarrow> backfill res" where
  "record_cycle sha db now sy c st =
     rbind (cycle_episode sha c (ledger_realized_by_order (ed_ledger db))) (\<lambda>e.
       if excluded db sy e then ret st
       else (let lev = (if ep_market e = ''PERPETUAL'' then map_of (perp_leverage_by_symbol (ed_ledger db)) sy else Some 1);
                 reason = exit_reason_for (cy_exit c) (ai_exit_intents (ed_audit db)) (ef_time (hd (cy_entry c))) (Some 14400);
                 (rows, new) = persist_episode now e reason (lineage_of e reason) lev (fst st)
             in ret (rows, if new then snd st @ [ep_id e] else snd st)))"

definition record_symbol :: "(string \<Rightarrow> string) \<Rightarrow> episode_db \<Rightarrow> usec \<Rightarrow> string \<Rightarrow> backfill \<Rightarrow> backfill res" where
  "record_symbol sha db now sy = rfold (record_cycle sha db now sy) (build_cycles sy (symbol_fills db sy))"

text \<open>Everything is committed at the end: an exception leaves the table as it was.\<close>

definition record_all_cycles ::
  "(string \<Rightarrow> string) \<Rightarrow> episode_db \<Rightarrow> usec \<Rightarrow> string list option \<Rightarrow> episode_row list \<Rightarrow> episode_row list \<times> string list res" where
  "record_all_cycles sha db now symbols rows =
     (let all = (case symbols of Some sys \<Rightarrow> sys | None \<Rightarrow> rev (remdups (rev (map f_symbol (db_fills (ed_orders db))))))
      in case rbind (ensure_columns (ed_columns db)) (\<lambda>_. rfold (record_symbol sha db now) all (rows, [])) of
           Inl e \<Rightarrow> (rows, Inl e)
         | Inr (rows', new) \<Rightarrow> (rows', ret new))"

definition record_cycle_for_fill ::
  "(string \<Rightarrow> string) \<Rightarrow> episode_db \<Rightarrow> usec \<Rightarrow> string \<Rightarrow> string \<Rightarrow> fl option \<Rightarrow> episode_row list
     \<Rightarrow> episode_row list \<times> string list res" where
  "record_cycle_for_fill sha db now fid sy time_stop = record_all_cycles sha db now (Some [sy])"

subsection \<open>Completed cycles are final\<close>

lemma open_cycle_incomplete [simp]: "\<not> cycle_complete (open_cycle sy f)"
  by (simp add: cycle_complete_def open_cycle_def)

lemma close_step: "\<exists>rest. close_current (cycle_step sy st f) = close_current st @ rest"
proof -
  obtain cs cur where st: "st = (cs, cur)" by force
  show ?thesis
    by (cases cur) (auto simp: st close_current_def cycle_step_def cycle_complete_def [of "extend_cycle f _"], auto simp: cycle_complete_def)
qed

lemma close_run: "\<exists>rest. close_current (foldl (cycle_step sy) st fs) = close_current st @ rest"
proof (induction fs arbitrary: st)
  case (Cons f fs)
  obtain r where "close_current (cycle_step sy st f) = close_current st @ r" using close_step by blast
  moreover obtain r' where "close_current (foldl (cycle_step sy) (cycle_step sy st f) fs) = close_current (cycle_step sy st f) @ r'"
    using Cons by blast
  ultimately show ?case by simp
qed simp

text \<open>What was a completed cycle stays the same completed cycle whatever fills follow: the cycles of a longer
  history begin with the cycles of the shorter one.\<close>

theorem completed_cycles_final: "\<exists>rest. build_cycles sy (fs @ gs) = build_cycles sy fs @ rest"
  unfolding build_cycles_def using close_run [of sy "foldl (cycle_step sy) ([], None) fs" gs] by simp

subsection \<open>Cycles are flat\<close>

definition net_quantity :: "ep_fill list \<Rightarrow> dec" where
  "net_quantity fs = sum_list (map (\<lambda>f. if ef_side f = BUY then ef_qty f else - ef_qty f) fs)"

definition cycle_fills :: "cycle \<Rightarrow> ep_fill list" where
  "cycle_fills c = cy_entry c @ cy_exit c"

text \<open>Quantities with \<open>k\<close> decimals whose total is small enough to be added without rounding.\<close>

definition exact_fills :: "nat \<Rightarrow> ep_fill list \<Rightarrow> bool" where
  "exact_fills k fs \<longleftrightarrow> (\<forall>f \<in> set fs. places k (ef_qty f)) \<and> (\<Sum>f\<leftarrow>fs. \<bar>ef_qty f\<bar>) \<le> 10 ^ 28 / 10 ^ k"

lemma net_quantity_simps [simp]:
  "net_quantity [] = 0" "net_quantity (f # fs) = (if ef_side f = BUY then ef_qty f else - ef_qty f) + net_quantity fs"
  "net_quantity (fs @ gs) = net_quantity fs + net_quantity gs"
  by (simp_all add: net_quantity_def)

lemma net_quantity_places: "\<forall>f \<in> set fs. places k (ef_qty f) \<Longrightarrow> places k (net_quantity fs)"
  by (induction fs) (simp_all add: places_add places_uminus)

lemma net_quantity_bound: "\<bar>net_quantity fs\<bar> \<le> (\<Sum>f\<leftarrow>fs. \<bar>ef_qty f\<bar>)"
  by (induction fs) auto

lemma sum_abs_subset:
  assumes "mset gs \<subseteq># mset fs"
  shows "(\<Sum>f\<leftarrow>gs. \<bar>ef_qty f\<bar>) \<le> (\<Sum>f\<leftarrow>fs. \<bar>ef_qty f\<bar>)"
proof -
  obtain hs where "mset fs = mset (gs @ hs)"
    using assms by (metis ex_mset mset_append mset_subset_eq_exists_conv)
  then have "mset (map (\<lambda>f. \<bar>ef_qty f\<bar>) fs) = mset (map (\<lambda>f. \<bar>ef_qty f\<bar>) (gs @ hs))" by (simp add: mset_map)
  then have "(\<Sum>f\<leftarrow>fs. \<bar>ef_qty f\<bar>) = (\<Sum>f\<leftarrow>gs @ hs. \<bar>ef_qty f\<bar>)" by (metis sum_mset_sum_list)
  moreover have "0 \<le> (\<Sum>f\<leftarrow>hs. \<bar>ef_qty f\<bar>)" by (rule sum_list_nonneg) auto
  ultimately show ?thesis by simp
qed

lemma exact_net:
  assumes "exact_fills k fs" "mset gs \<subseteq># mset fs"
  shows "dround (net_quantity gs) = net_quantity gs"
proof (rule dround_places)
  show "places k (net_quantity gs)"
    using assms by (intro net_quantity_places) (auto simp: exact_fills_def dest: mset_subset_eqD)
  show "\<bar>net_quantity gs\<bar> \<le> 10 ^ 28 / 10 ^ k"
    using assms net_quantity_bound [of gs] sum_abs_subset [OF assms(2)] by (simp add: exact_fills_def)
qed

lemma net_quantity_perm: "mset fs = mset gs \<Longrightarrow> net_quantity fs = net_quantity gs"
proof -
  assume p: "mset fs = mset gs"
  have "net_quantity hs = sum_mset (image_mset (\<lambda>f. if ef_side f = BUY then ef_qty f else - ef_qty f) (mset hs))" for hs
    by (simp add: net_quantity_def sum_mset_sum_list flip: mset_map)
  then show "net_quantity fs = net_quantity gs" by (simp only: p)
qed

lemma exact_signed:
  assumes "exact_fills k fs" "f \<in> set fs"
  shows "signed_of f = net_quantity [f]"
proof -
  have "mset [f] \<subseteq># mset fs" using assms(2) by simp
  from exact_net [OF assms(1) this] show ?thesis by (simp add: signed_of_def dneg_def split: if_splits)
qed

text \<open>What holds of the cycles while the fills \<open>fs\<close> are replayed.\<close>

definition cycle_tracks :: "string \<Rightarrow> cycle \<Rightarrow> bool" where
  "cycle_tracks sy c \<longleftrightarrow> cy_symbol c = sy \<and> cy_entry c \<noteq> [] \<and> cy_open c = net_quantity (cycle_fills c) \<and>
     cy_dir c = (if ef_side (hd (cy_entry c)) = BUY then LONG else SHORT) \<and> \<not> ef_reduce (hd (cy_entry c))"

definition all_cycles :: "cycles \<Rightarrow> cycle list" where
  "all_cycles st = fst st @ (case snd st of Some c \<Rightarrow> [c] | None \<Rightarrow> [])"

definition cycles_inv :: "string \<Rightarrow> ep_fill list \<Rightarrow> cycles \<Rightarrow> bool" where
  "cycles_inv sy fs st \<longleftrightarrow> list_all (cycle_tracks sy) (all_cycles st) \<and> list_all cycle_complete (fst st) \<and>
     mset (concat (map cycle_fills (all_cycles st))) \<subseteq># mset fs"

lemma cycles_inv_step:
  assumes "exact_fills k (fs @ [f])" "cycles_inv sy fs st"
  shows "cycles_inv sy (fs @ [f]) (cycle_step sy st f)"
proof -
  obtain cs cur where st: "st = (cs, cur)" by force
  have sf: "signed_of f = net_quantity [f]" using exact_signed [OF assms(1)] by simp
  have weaker: "M \<subseteq># mset fs \<Longrightarrow> M \<subseteq># mset (fs @ [f])" "M \<subseteq># mset fs \<Longrightarrow> M + {#f#} \<subseteq># mset (fs @ [f])" for M
    by (auto intro: subset_mset.order_trans)
  have new: "cycles_inv sy (fs @ [f]) (cs', if is_reduce f 0 \<or> ef_reduce f then None else Some (open_cycle sy f))"
    if "list_all (cycle_tracks sy) cs'" "list_all cycle_complete cs'" "mset (concat (map cycle_fills cs')) \<subseteq># mset fs" for cs'
    using that weaker [of "mset (concat (map cycle_fills cs'))"]
    by (auto simp: cycles_inv_def all_cycles_def cycle_tracks_def open_cycle_def cycle_fills_def sf is_reduce_def)
  show ?thesis
  proof (cases cur)
    case None
    then show ?thesis using assms(2) new [of cs] by (auto simp: st cycle_step_def cycles_inv_def all_cycles_def)
  next
    case (Some c)
    have inv: "list_all (cycle_tracks sy) cs" "cycle_tracks sy c" "list_all cycle_complete cs"
        "mset (concat (map cycle_fills cs)) + mset (cycle_fills c) \<subseteq># mset fs"
      using assms(2) Some by (auto simp: st cycles_inv_def all_cycles_def)
    show ?thesis
    proof (cases "cy_open c = 0")
      case True
      have "mset (concat (map cycle_fills cs)) \<subseteq># mset fs" using inv(4) by (meson mset_subset_eq_add_left subset_mset.order_trans)
      then show ?thesis using inv True Some new [of "close_current st"]
        by (auto simp: st cycle_step_def close_current_def)
    next
      case False
      have perm: "mset (cycle_fills (extend_cycle f c)) = mset (cycle_fills c) + {#f#}"
        by (simp add: cycle_fills_def extend_cycle_def Let_def)
      then have net: "net_quantity (cycle_fills (extend_cycle f c)) = net_quantity (cycle_fills c) + net_quantity [f]"
        using net_quantity_perm [of "cycle_fills (extend_cycle f c)" "cycle_fills c @ [f]"] by simp
      have sub: "mset (concat (map cycle_fills cs)) + mset (cycle_fills (extend_cycle f c)) \<subseteq># mset (fs @ [f])"
        using weaker(2) [OF inv(4)] perm by (simp add: add.assoc)
      then have "mset (cycle_fills (extend_cycle f c)) \<subseteq># mset (fs @ [f])"
        by (metis mset_subset_eq_add_right subset_mset.order_trans)
      note rounds = exact_net [OF assms(1) this]
      have "cy_open (extend_cycle f c) = dround (net_quantity (cycle_fills c) + net_quantity [f])"
        using inv(2) by (simp add: extend_cycle_def Let_def dadd_def sf cycle_tracks_def)
      with rounds have "cy_open (extend_cycle f c) = net_quantity (cycle_fills (extend_cycle f c))" unfolding net by simp
      then have "cycle_tracks sy (extend_cycle f c)" using inv(2)
        by (auto simp: cycle_tracks_def extend_cycle_def Let_def)
      then show ?thesis using inv False Some sub
        by (simp add: st cycle_step_def cycles_inv_def all_cycles_def)
    qed
  qed
qed

lemma cycles_inv_run: "exact_fills k fs \<Longrightarrow> cycles_inv sy fs (foldl (cycle_step sy) ([], None) fs)"
proof (induction fs rule: rev_induct)
  case (snoc f fs)
  have "0 \<le> \<bar>ef_qty f\<bar>" by simp
  then have "exact_fills k fs" using snoc.prems by (auto simp: exact_fills_def)
  then show ?case using cycles_inv_step [OF snoc.prems snoc.IH] by simp
qed (simp add: cycles_inv_def all_cycles_def)

text \<open>C21: a completed cycle begins with a fill that is not reduce-only, which gives it its direction, has fills on
  both sides, and the bought quantity in it is the sold quantity; no fill is counted in two cycles.\<close>

theorem completed_cycles_flat:
  assumes "exact_fills k fs"
  shows "list_all (\<lambda>c. cycle_tracks sy c \<and> cy_exit c \<noteq> [] \<and> net_quantity (cycle_fills c) = 0) (build_cycles sy fs) \<and>
    mset (concat (map cycle_fills (build_cycles sy fs))) \<subseteq># mset fs"
proof -
  obtain cs cur where run: "foldl (cycle_step sy) ([], None) fs = (cs, cur)" by force
  have "cycles_inv sy fs (cs, cur)" using cycles_inv_run [OF assms] run by metis
  moreover have "mset (concat (map cycle_fills cs)) \<subseteq># mset fs" if "mset (concat (map cycle_fills cs)) + M \<subseteq># mset fs" for M
    using that by (meson mset_subset_eq_add_left subset_mset.order_trans)
  ultimately show ?thesis
    by (cases cur) (auto simp: build_cycles_def run close_current_def cycles_inv_def all_cycles_def list_all_iff cycle_tracks_def cycle_complete_def)
qed

subsection \<open>The backfill can be repeated\<close>

text \<open>What is recorded of a cycle: the episode, its exit reason and the leverage.\<close>

type_synonym item = "episode \<times> string \<times> dec option"

definition item_of :: "episode_db \<Rightarrow> string \<Rightarrow> cycle \<Rightarrow> episode \<Rightarrow> item option" where
  "item_of db sy c e =
     (if excluded db sy e then None
      else Some (e, exit_reason_for (cy_exit c) (ai_exit_intents (ed_audit db)) (ef_time (hd (cy_entry c))) (Some 14400),
        if ep_market e = ''PERPETUAL'' then map_of (perp_leverage_by_symbol (ed_ledger db)) sy else Some 1))"

fun put_item :: "usec \<Rightarrow> backfill \<Rightarrow> item \<Rightarrow> backfill" where
  "put_item now st (e, reason, lev) =
     (case persist_episode now e reason (lineage_of e reason) lev (fst st) of
        (rows, new) \<Rightarrow> (rows, if new then snd st @ [ep_id e] else snd st))"

lemma record_cycle_item:
  "record_cycle sha db now sy c st =
     rbind (cycle_episode sha c (ledger_realized_by_order (ed_ledger db)))
       (\<lambda>e. ret (case item_of db sy c e of None \<Rightarrow> st | Some x \<Rightarrow> put_item now st x))"
  unfolding record_cycle_def item_of_def
  by (rule arg_cong [where f = "rbind _"]) (auto simp: fun_eq_iff Let_def split: prod.split)

text \<open>A run that does not raise records a list of items, the same from any table.\<close>

lemma record_symbol_items:
  assumes "rfold (record_cycle sha db now sy) cs st = ret st'"
  shows "\<exists>items. \<forall>now st. rfold (record_cycle sha db now sy) cs st = ret (foldl (put_item now) st items)"
  using assms
proof (induction cs arbitrary: st)
  case Nil
  show ?case by (rule exI [of _ "[]"]) simp
next
  case (Cons c cs)
  then obtain st1 where s: "record_cycle sha db now sy c st = ret st1" "rfold (record_cycle sha db now sy) cs st1 = ret st'"
    by (auto simp: rbind_eq_Inr)
  obtain e where e: "cycle_episode sha c (ledger_realized_by_order (ed_ledger db)) = ret e"
    using s(1) by (auto simp: record_cycle_item rbind_eq_Inr)
  from Cons.IH [OF s(2)] obtain items where
    i: "\<And>now st. rfold (record_cycle sha db now sy) cs st = ret (foldl (put_item now) st items)" by blast
  have first: "record_cycle sha db now sy c st = ret (case item_of db sy c e of None \<Rightarrow> st | Some x \<Rightarrow> put_item now st x)" for now st
    by (simp add: record_cycle_item e)
  show ?case
    by (rule exI [of _ "(case item_of db sy c e of None \<Rightarrow> [] | Some x \<Rightarrow> [x]) @ items"], cases "item_of db sy c e")
      (simp_all add: first i del: put_item.simps)
qed

lemma record_symbols_items:
  assumes "rfold (record_symbol sha db now) sys st = ret st'"
  shows "\<exists>items. \<forall>now st. rfold (record_symbol sha db now) sys st = ret (foldl (put_item now) st items)"
  using assms
proof (induction sys arbitrary: st)
  case Nil
  show ?case by (rule exI [of _ "[]"]) simp
next
  case (Cons sy sys)
  then obtain st1 where s: "record_symbol sha db now sy st = ret st1" "rfold (record_symbol sha db now) sys st1 = ret st'"
    by (auto simp: rbind_eq_Inr)
  obtain xs where "\<And>now st. record_symbol sha db now sy st = ret (foldl (put_item now) st xs)"
    using record_symbol_items s(1) unfolding record_symbol_def by blast
  moreover obtain ys where "\<And>now st. rfold (record_symbol sha db now) sys st = ret (foldl (put_item now) st ys)"
    using Cons.IH [OF s(2)] by blast
  ultimately show ?case by (intro exI [of _ "xs @ ys"]) simp
qed

fun derive_item :: "item \<Rightarrow> episode_row \<Rightarrow> episode_row" where
  "derive_item (e, reason, lev) r = derive_row e reason (lineage_of e reason) lev r"

fun new_item :: "usec \<Rightarrow> item \<Rightarrow> episode_row" where
  "new_item now (e, reason, lev) = new_row now e reason (lineage_of e reason) lev"

definition item_id :: "item \<Rightarrow> string" where
  "item_id x = ep_id (fst x)"

lemma item_simps [simp]:
  "er_id (derive_item x r) = er_id r" "derive_item x (derive_item y r) = derive_item x r"
  "derive_item x (new_item now x) = new_item now x" "er_id (new_item now x) = item_id x"
  by (cases x; cases y; simp add: derive_row_def new_row_def item_id_def)+

lemma put_item_rows:
  "put_item now (rows, new) x =
     (if item_id x \<in> er_id ` set rows then (map (\<lambda>r. if er_id r = item_id x then derive_item x r else r) rows, new)
      else (rows @ [new_item now x], new @ [item_id x]))"
  by (cases x) (auto simp: persist_episode_def item_id_def)

definition last_item :: "item list \<Rightarrow> string \<Rightarrow> item option" where
  "last_item xs i = List.find (\<lambda>x. item_id x = i) (rev xs)"

lemma last_item_snoc [simp]: "last_item (xs @ [x]) i = (if item_id x = i then Some x else last_item xs i)"
  by (simp add: last_item_def)

lemma last_item_Nil [simp]: "last_item [] i = None"
  by (simp add: last_item_def)

definition refreshed :: "item list \<Rightarrow> episode_row \<Rightarrow> episode_row" where
  "refreshed xs r = (case last_item xs (er_id r) of Some x \<Rightarrow> derive_item x r | None \<Rightarrow> r)"

text \<open>The table after some items: each has a row, and every row says what the last item with its id says.\<close>

definition recorded :: "item list \<Rightarrow> episode_row list \<Rightarrow> bool" where
  "recorded xs rows \<longleftrightarrow> item_id ` set xs \<subseteq> er_id ` set rows \<and> (\<forall>r \<in> set rows. refreshed xs r = r)"

lemma refreshed_snoc: "refreshed (xs @ [x]) r = (if item_id x = er_id r then derive_item x r else refreshed xs r)"
  by (simp add: refreshed_def)

lemma put_item_recorded:
  assumes "recorded xs rows" "put_item now (rows, new) x = (rows', new')"
  shows "recorded (xs @ [x]) rows' \<and> er_id ` set rows \<subseteq> er_id ` set rows' \<and> (distinct (map er_id rows) \<longrightarrow> distinct (map er_id rows'))"
proof (cases "item_id x \<in> er_id ` set rows")
  case True
  define upd where "upd r = (if er_id r = item_id x then derive_item x r else r)" for r
  have r: "rows' = map upd rows" using assms(2) True by (simp add: put_item_rows upd_def [abs_def])
  have ids: "er_id (upd r) = er_id r" for r by (simp add: upd_def)
  then have img: "er_id ` set rows' = er_id ` set rows" "map er_id rows' = map er_id rows" by (simp_all add: r image_image)
  have "refreshed (xs @ [x]) (upd r) = upd r" if "refreshed xs r = r" for r using that by (simp add: refreshed_snoc upd_def)
  then have "recorded (xs @ [x]) rows'" using assms(1) True unfolding recorded_def img by (auto simp: r)
  then show ?thesis unfolding img by simp
next
  case False
  have r: "rows' = rows @ [new_item now x]" using assms(2) False by (simp add: put_item_rows)
  have "refreshed (xs @ [x]) r = r" if "r \<in> set rows" for r
    using assms(1) that False by (auto simp: refreshed_snoc recorded_def)
  then show ?thesis using assms(1) False by (auto simp: r recorded_def refreshed_snoc)
qed

lemma put_items_recorded:
  "recorded xs (fst (foldl (put_item now) (rows, new) xs)) \<and>
    er_id ` set rows \<subseteq> er_id ` set (fst (foldl (put_item now) (rows, new) xs)) \<and>
    (distinct (map er_id rows) \<longrightarrow> distinct (map er_id (fst (foldl (put_item now) (rows, new) xs))))"
proof (induction xs rule: rev_induct)
  case Nil
  show ?case by (simp add: recorded_def refreshed_def)
next
  case (snoc x xs)
  obtain rows1 new1 where r1: "foldl (put_item now) (rows, new) xs = (rows1, new1)" by force
  obtain rows2 new2 where r2: "put_item now (rows1, new1) x = (rows2, new2)" by force
  show ?case using snoc put_item_recorded [OF _ r2, of xs] by (auto simp: r1 r2)
qed

lemma put_items_again:
  "item_id ` set xs \<subseteq> er_id ` set rows \<Longrightarrow> foldl (put_item now) (rows, new) xs = (map (refreshed xs) rows, new)"
proof (induction xs rule: rev_induct)
  case Nil
  show ?case by (simp add: refreshed_def map_idI)
next
  case (snoc x xs)
  have "er_id (refreshed xs r) = er_id r" for r by (simp add: refreshed_def split: option.split)
  then have "er_id ` set (map (refreshed xs) rows) = er_id ` set rows" by (simp add: image_image)
  then show ?case using snoc by (auto simp: put_item_rows refreshed_def split: option.split)
qed

text \<open>C20: the backfill can be run again at any time, over all symbols or one: on the same facts the second run
  inserts nothing and changes no row; no row is ever removed and no episode has two.\<close>

theorem episode_backfill_idempotent:
  assumes "record_all_cycles sha db now symbols rows = (rows', ret new)" "distinct (map er_id rows)"
  shows "record_all_cycles sha db later symbols rows' = (rows', ret []) \<and>
    distinct (map er_id rows') \<and> er_id ` set rows \<subseteq> er_id ` set rows'"
proof -
  define all where "all = (case symbols of Some sys \<Rightarrow> sys | None \<Rightarrow> rev (remdups (rev (map f_symbol (db_fills (ed_orders db))))))"
  have c: "ensure_columns (ed_columns db) = ret ()" "rfold (record_symbol sha db now) all (rows, []) = ret (rows', new)"
    using assms(1) by (auto simp: record_all_cycles_def all_def rbind_def Let_def split: sum.splits prod.splits)
  from record_symbols_items [OF c(2)] obtain items where
    i: "\<And>now st. rfold (record_symbol sha db now) all st = ret (foldl (put_item now) st items)" by blast
  have run: "foldl (put_item now) (rows, []) items = (rows', new)" using c(2) i by simp
  note table = put_items_recorded [of items now rows "[]", unfolded run, simplified]
  then have "foldl (put_item later) (rows', []) items = (map (refreshed items) rows', [])"
    by (intro put_items_again) (simp add: recorded_def)
  also have "map (refreshed items) rows' = rows'" using table by (simp add: recorded_def map_idI)
  finally show ?thesis using table assms(2) c(1) by (simp add: record_all_cycles_def all_def [symmetric] i)
qed

subsection \<open>Partial closes\<close>

text \<open>Of the realized results that the ledger has for the exits of a cycle only that of the first such exit
  order counts: an episode is the same whatever the ledger says of the later exits, although the fees of
  all of them are subtracted.\<close>

theorem later_exit_results_ignored:
  assumes "cy_exit c = xs @ f # ys" "map_of realized (ef_order f) = Some j" "map_of realized' (ef_order f) = Some j"
    and "\<forall>x \<in> set xs. map_of realized (ef_order x) = None \<and> map_of realized' (ef_order x) = None"
  shows "cycle_episode sha c realized' = cycle_episode sha c realized"
proof -
  have hit: "List.find (\<lambda>f. map_of r (ef_order f) \<noteq> None) (xs @ f # ys) = Some f"
    if "map_of r (ef_order f) = Some j" "\<forall>x \<in> set xs. map_of r (ef_order x) = None" for r
    using that by (induction xs) auto
  have "gross_of c realized' = gross_of c realized"
    unfolding gross_of_def assms(1) hit [OF assms(2)] using assms(4) hit [OF assms(2)] hit [OF assms(3)] assms(2,3)
    by (simp add: fun_eq_iff)
  then show ?thesis by (simp only: cycle_episode_def)
qed

subsection \<open>Examples\<close>

definition ex_ep_fill :: "string \<Rightarrow> order_side \<Rightarrow> dec \<Rightarrow> dec \<Rightarrow> ep_fill" where
  "ex_ep_fill i sd price qty =
     \<lparr> ef_id = ''fill_'' @ i, ef_order = ''ord_'' @ i, ef_side = sd, ef_price = price, ef_qty = qty, ef_time = 0, ef_fee = 1,
       ef_ccy = ''USDT'', ef_market = ''PERPETUAL'', ef_reduce = (sd = SELL), ef_strategy = ''ai_brain'', ef_client = i, ef_payload = [] \<rparr>"

theorem completed_cycles_flat_witness:
  "net_quantity (concat (map cycle_fills (build_cycles ''B'' [ex_ep_fill ''1'' BUY 100 2, ex_ep_fill ''2'' SELL 110 1, ex_ep_fill ''3'' SELL 90 1]))) = 0 \<and>
   map (length \<circ> cy_exit) (build_cycles ''B'' [ex_ep_fill ''1'' BUY 100 2, ex_ep_fill ''2'' SELL 110 1, ex_ep_fill ''3'' SELL 90 1]) = [2]"
proof -
  let ?fs = "[ex_ep_fill ''1'' BUY 100 2, ex_ep_fill ''2'' SELL 110 1, ex_ep_fill ''3'' SELL 90 1]"
  have "exact_fills 0 ?fs" by (simp add: exact_fills_def ex_ep_fill_def places_def)
  note flat = completed_cycles_flat [OF this, of "''B''"]
  have n: "map (length \<circ> cy_exit) (build_cycles ''B'' ?fs) = [2]" by code_simp
  then obtain c where "build_cycles ''B'' ?fs = [c]" by auto
  with flat n show ?thesis by simp
qed

definition ex_fill_row :: "string \<Rightarrow> order_side \<Rightarrow> dec \<Rightarrow> fill" where
  "ex_fill_row i sd price =
     \<lparr> f_id = ''fill_'' @ i, f_trade = Some i, f_order = ''ord_'' @ i, f_client = None, f_exchange = None, f_symbol = ''B'', f_side = sd,
       f_price = price, f_qty = 2, f_fee = 1, f_fee_ccy = None, f_time = 0, f_payload = [] \<rparr>"

definition ex_episode_db :: episode_db where
  "ex_episode_db = \<lparr> ed_orders = \<lparr> db_orders = [], db_events = [], db_fills = [ex_fill_row ''1'' BUY 100, ex_fill_row ''2'' SELL 110] \<rparr>,
     ed_ledger = [], ed_audit = [], ed_columns = required_columns \<rparr>"

theorem episode_backfill_idempotent_witness:
  "case record_all_cycles (\<lambda>s. s) ex_episode_db 5 None [] of
     (rows, r) \<Rightarrow> map er_net rows = [18] \<and> record_all_cycles (\<lambda>s. s) ex_episode_db 9 None rows = (rows, ret [])"
proof -
  have "case record_all_cycles (\<lambda>s. s) ex_episode_db 5 None [] of (rows, r) \<Rightarrow> map er_net rows = [18] \<and> (case r of Inr _ \<Rightarrow> True | Inl _ \<Rightarrow> False)"
    by code_simp
  then obtain rows new where r: "record_all_cycles (\<lambda>s. s) ex_episode_db 5 None [] = (rows, ret new)" "map er_net rows = [18]"
    by (auto split: prod.splits sum.splits)
  have "distinct (map er_id ([] :: episode_row list))" by simp
  from episode_backfill_idempotent [OF r(1) this, of 9] r show ?thesis by simp
qed

text \<open>Two partial closes that realized 10 and - 10: the episode reports a gain of 10 before fees.\<close>

theorem later_exit_results_ignored_witness:
  "\<exists>c. build_cycles ''B'' [ex_ep_fill ''1'' BUY 100 2, ex_ep_fill ''2'' SELL 110 1, ex_ep_fill ''3'' SELL 90 1] = [c] \<and>
     cycle_episode (\<lambda>s. s) c [(''ord_2'', JDec 10), (''ord_3'', JDec (- 10))] = cycle_episode (\<lambda>s. s) c [(''ord_2'', JDec 10)] \<and>
     (case cycle_episode (\<lambda>s. s) c [(''ord_2'', JDec 10)] of Inr e \<Rightarrow> ep_gross e = 10 \<and> ep_result e = WIN | Inl _ \<Rightarrow> False)"
proof -
  let ?fs = "[ex_ep_fill ''1'' BUY 100 2, ex_ep_fill ''2'' SELL 110 1, ex_ep_fill ''3'' SELL 90 1]"
  have "case build_cycles ''B'' ?fs of [c] \<Rightarrow> map ef_order (cy_exit c) = [''ord_2'', ''ord_3''] \<and>
     (case cycle_episode (\<lambda>s. s) c [(''ord_2'', JDec 10)] of Inr e \<Rightarrow> ep_gross e = 10 \<and> ep_result e = WIN | Inl _ \<Rightarrow> False) | _ \<Rightarrow> False"
    by code_simp
  then obtain c where c: "build_cycles ''B'' ?fs = [c]" "map ef_order (cy_exit c) = [''ord_2'', ''ord_3'']"
     "case cycle_episode (\<lambda>s. s) c [(''ord_2'', JDec 10)] of Inr e \<Rightarrow> ep_gross e = 10 \<and> ep_result e = WIN | Inl _ \<Rightarrow> False"
    by (auto split: list.splits)
  then obtain f g where "cy_exit c = [] @ f # [g]" "ef_order f = ''ord_2''" by auto
  then have "cycle_episode (\<lambda>s. s) c [(''ord_2'', JDec 10), (''ord_3'', JDec (- 10))] = cycle_episode (\<lambda>s. s) c [(''ord_2'', JDec 10)]"
    by (intro later_exit_results_ignored) auto
  then show ?thesis using c by blast
qed

text \<open>A fill that turns the position around does not end the cycle: the other side's trade is counted in it.\<close>

lemma reversal_mixes_cycles:
  "case build_cycles ''B'' [(ex_ep_fill ''1'' BUY 100 1)\<lparr> ef_reduce := False \<rparr>, (ex_ep_fill ''2'' SELL 110 3)\<lparr> ef_reduce := False \<rparr>,
      (ex_ep_fill ''3'' BUY 90 2)\<lparr> ef_reduce := False \<rparr>] of
     [c] \<Rightarrow> cy_dir c = LONG \<and> map ef_qty (cy_entry c) = [1] \<and> map ef_qty (cy_exit c) = [3, 2] | _ \<Rightarrow> False"
  by code_simp

end
