(* ===== verification/Position_Brain.thy ===== *)
theory Position_Brain
  imports Engine_Loops Python_Values
begin

text \<open>
  The decisions about a position that is held: \<open>ai_brain/observation/observer.py\<close>, \<open>reasoning/challenge.py\<close>,
  \<open>position_manager/manager.py\<close> and \<open>state.py\<close>, \<open>exit_manager/manager.py\<close>, \<open>decision/decision_engine.py\<close>
  and \<open>runtime_adapter.py\<close>. Floats are rationals that are rounded after each operation; actions and
  statuses are the texts of the code.
\<close>

definition list_items :: "json option \<Rightarrow> json list" where
  "list_items v = (case v of Some (JList js) \<Rightarrow> js | _ \<Rightarrow> [])"

subsection \<open>Observation and challenge\<close>

record situation =
  si_state :: string
  si_opportunities :: "json list"
  si_risks :: "json list"
  si_uncertainties :: "string list"

definition observe :: "string \<Rightarrow> meta \<Rightarrow> meta \<Rightarrow> situation" where
  "observe state intelligence portfolio =
     (let summary = (case map_of intelligence ''factor_summary'' of Some (JObj m) \<Rightarrow> m | _ \<Rightarrow> [])
      in \<lparr> si_state = state,
           si_opportunities = dedupe (list_items (map_of intelligence ''positive_evidence'') @ list_items (map_of summary ''supporting'')),
           si_risks = dedupe (list_items (map_of intelligence ''risk_notes'') @ list_items (map_of summary ''risks'')),
           si_uncertainties = (if meta_truthy portfolio ''positions'' then [] else [''no existing positions'']) \<rparr>)"

record challenge_result =
  ch_bull :: string
  ch_bear :: string
  ch_confidence :: fl

definition challenge :: "string \<Rightarrow> string list \<Rightarrow> string list \<Rightarrow> fl \<Rightarrow> challenge_result" where
  "challenge thesis supporting contradicting base =
     (let penalty = min (fround (35 / 100)) (fmul (fround (8 / 100)) (of_nat (length contradicting)))
      in \<lparr> ch_bull = thesis @ '' '' @ joined '' '' (take 2 supporting),
           ch_bear = (if contradicting \<noteq> [] then joined '' '' contradicting else ''no clear counter evidence''),
           ch_confidence = fl_places 3 (max (fround (5 / 100)) (fsub base penalty)) \<rparr>)"

subsection \<open>The position manager\<close>

record position_context =
  px_symbol :: string
  px_qty :: fl
  px_unrealized :: fl
  px_time :: fl
  px_supporting :: "json list"
  px_contradicting :: "json list"
  px_status :: string
  px_hard :: bool

record position_decision =
  pd_symbol :: string
  pd_action :: string
  pd_conf :: fl
  pd_reason :: string
  pd_supporting :: "json list"
  pd_contradicting :: "json list"
  pd_status :: string
  pd_exit :: string
  pd_notes :: "string list"
  pd_before :: fl
  pd_change :: fl
  pd_fraction :: fl

definition plain_decision :: "position_context \<Rightarrow> string \<Rightarrow> fl \<Rightarrow> string \<Rightarrow> position_decision" where
  "plain_decision c action conf reason =
     \<lparr> pd_symbol = px_symbol c, pd_action = action, pd_conf = conf, pd_reason = reason, pd_supporting = [], pd_contradicting = [],
       pd_status = px_status c, pd_exit = [], pd_notes = [], pd_before = px_qty c, pd_change = 0, pd_fraction = 0 \<rparr>"

definition decide :: "position_context \<Rightarrow> position_decision" where
  "decide c =
     (if px_qty c \<le> 0 then
        (plain_decision c ''NO_ACTION'' 1 ''no active position'')\<lparr> pd_status := ''THESIS_INTACT'', pd_before := 0 \<rparr>
      else if px_hard c then
        (plain_decision c ''EXIT'' 1 ''hard risk exit'')\<lparr> pd_exit := ''EMERGENCY_RISK_EXIT'', pd_change := px_qty c, pd_notes := [''hard risk exit''] \<rparr>
      else if px_status c = ''THESIS_INVALIDATED'' then
        (plain_decision c ''EXIT'' (fround (9 / 10)) ''thesis invalidated'')\<lparr> pd_exit := ''THESIS_INVALIDATED'', pd_change := px_qty c \<rparr>
      else if px_status c = ''THESIS_WEAKENING'' then
        (let fraction = (if 0 < px_unrealized c then fround (3 / 10) else 1 / 2)
         in (plain_decision c ''REDUCE'' (fround (7 / 10)) ''thesis weakening'')\<lparr> pd_exit := ''THESIS_WEAKENING'',
              pd_change := fl_places 8 (fmul (px_qty c) fraction), pd_fraction := fraction, pd_contradicting := px_contradicting c \<rparr>)
      else if px_status c = ''THESIS_STRENGTHENING'' \<and> 0 < px_qty c then
        (plain_decision c ''ADD'' (fround (6 / 10)) ''thesis strengthening'')\<lparr> pd_change := fl_places 8 (fmul (px_qty c) (1 / 4)) \<rparr>
      else if 0 < px_unrealized c \<and> 3600 < px_time c then
        (plain_decision c ''HOLD'' (fround (65 / 100)) ''profit running; thesis intact'')\<lparr> pd_supporting := px_supporting c,
          pd_contradicting := px_contradicting c \<rparr>
      else
        (plain_decision c ''HOLD'' (fround (6 / 10)) ''thesis intact'')\<lparr> pd_supporting := px_supporting c,
          pd_contradicting := px_contradicting c \<rparr>)"

subsection \<open>The brain\<close>

record trading_intent =
  ti_symbol :: string
  ti_action :: string
  ti_conf :: fl
  ti_thesis :: string
  ti_evidence :: "json list"
  ti_risks :: "json list"
  ti_invalid :: "json list"

record entry_args =
  ea_direction :: string
  ea_thesis :: string
  ea_supporting :: "string list"
  ea_contradicting :: "string list"
  ea_confidence :: fl
  ea_invalid :: "json list"

definition entry_analysis :: "string \<Rightarrow> situation \<Rightarrow> entry_args \<Rightarrow> trading_intent" where
  "entry_analysis sy si a =
     (let conf = ch_confidence (challenge (ea_thesis a) (ea_supporting a) (ea_contradicting a) (ea_confidence a));
          intent = (\<lambda>action c evidence risks. \<lparr> ti_symbol = sy, ti_action = action, ti_conf = c, ti_thesis = ea_thesis a,
             ti_evidence = evidence, ti_risks = risks, ti_invalid = ea_invalid a \<rparr>)
      in if ea_thesis a = [] then (intent ''NO_TRADE'' 0 (si_opportunities si) (si_risks si))\<lparr> ti_thesis := ''no thesis'' \<rparr>
         else if conf < fround (35 / 100) then
           intent ''NO_TRADE'' conf (si_opportunities si) (si_risks si @ map JStr (ea_contradicting a))
         else intent (if ea_direction a = ''LONG'' then ''OPEN_LONG'' else if ea_direction a = ''SHORT'' then ''OPEN_SHORT'' else ''NO_TRADE'')
                conf (map JStr (ea_supporting a) @ si_opportunities si) (map JStr (ea_contradicting a) @ si_risks si))"

text \<open>The dictionary that describes an active position.\<close>

record active_position =
  ap_qty :: fl
  ap_side :: position_side
  ap_market :: market_type
  ap_entry :: fl
  ap_current :: fl
  ap_unrealized :: fl
  ap_realized :: fl
  ap_age :: fl
  ap_status :: string
  ap_thesis :: string
  ap_hard :: bool
  ap_change :: fl

definition position_analysis :: "string \<Rightarrow> situation \<Rightarrow> active_position \<Rightarrow> trading_intent" where
  "position_analysis sy si p =
     (let d = decide \<lparr> px_symbol = sy, px_qty = ap_qty p, px_unrealized = ap_unrealized p, px_time = ap_age p, px_supporting = [],
                px_contradicting = [], px_status = ap_status p, px_hard = ap_hard p \<rparr>
      in \<lparr> ti_symbol = sy, ti_action = (if pd_action d \<noteq> ''NO_ACTION'' then pd_action d else ''NO_TRADE''), ti_conf = pd_conf d,
           ti_thesis = ap_thesis p, ti_evidence = pd_supporting d @ si_opportunities si,
           ti_risks = pd_contradicting d @ si_risks si @ map JStr (pd_notes d), ti_invalid = [] \<rparr>)"

definition analyze :: "string \<Rightarrow> string \<Rightarrow> meta \<Rightarrow> meta \<Rightarrow> entry_args \<Rightarrow> active_position option \<Rightarrow> trading_intent" where
  "analyze sy state intelligence portfolio a active =
     (let si = observe state intelligence portfolio
      in case active of
           Some p \<Rightarrow> if ap_qty p \<noteq> 0 then position_analysis sy si p else entry_analysis sy si a
         | None \<Rightarrow> entry_analysis sy si a)"

definition no_entry :: entry_args where
  "no_entry = \<lparr> ea_direction = ''NO_TRADE'', ea_thesis = [], ea_supporting = [], ea_contradicting = [], ea_confidence = 1 / 2, ea_invalid = [] \<rparr>"

subsection \<open>The runtime adapter\<close>

record intent_mapping =
  im_action :: string
  im_side :: string
  im_qty :: fl
  im_reason :: string
  im_executable :: bool
  im_reduce :: bool

definition no_order :: "string \<Rightarrow> string \<Rightarrow> intent_mapping" where
  "no_order action reason =
     \<lparr> im_action = action, im_side = [], im_qty = 0, im_reason = reason, im_executable = False, im_reduce = False \<rparr>"

definition map_trading_intent :: "string \<Rightarrow> position_side \<Rightarrow> fl \<Rightarrow> fl \<Rightarrow> intent_mapping" where
  "map_trading_intent action side qty change =
     (let order = (\<lambda>sd q why reduce. \<lparr> im_action = action, im_side = sd, im_qty = q, im_reason = why, im_executable = True, im_reduce = reduce \<rparr>);
          with = (if side = LONG then ''BUY'' else ''SELL''); against = (if side = LONG then ''SELL'' else ''BUY'')
      in if action \<in> set [''HOLD'', ''NO_TRADE'', ''NO_ACTION''] then no_order action ''no order''
         else if action \<in> set [''OPEN_LONG'', ''OPEN_SHORT''] then
           (if 0 < qty then no_order ''NO_TRADE'' ''position exists''
            else order (if action = ''OPEN_LONG'' then ''BUY'' else ''SELL'') change ''entry'' False)
         else if action = ''ADD'' then
           (if qty \<le> 0 then no_order ''NO_TRADE'' ''no position to add'' else order with (min change qty) ''add exposure'' False)
         else if action = ''REDUCE'' then
           (if qty \<le> 0 then no_order ''NO_TRADE'' ''no position to reduce'' else order against (min change qty) ''reduce exposure'' True)
         else if action = ''EXIT'' then
           (if qty \<le> 0 then no_order ''NO_ACTION'' ''already closed'' else order against qty ''close position'' True)
         else no_order ''NO_TRADE'' ''unknown action'')"

subsection \<open>Exit reasons and the lifecycle of a position\<close>

record exit_reasoning =
  xr_symbol :: string
  xr_reason :: string
  xr_category :: string
  xr_conf :: fl

definition exit_reasoning_of :: "string \<Rightarrow> bool \<Rightarrow> bool \<Rightarrow> bool \<Rightarrow> bool \<Rightarrow> bool \<Rightarrow> exit_reasoning option" where
  "exit_reasoning_of sy valid risk better target expired =
     (let r = (\<lambda>why cat conf. Some \<lparr> xr_symbol = sy, xr_reason = why, xr_category = cat, xr_conf = fround conf \<rparr>)
      in if \<not> valid then r ''thesis invalidated'' ''THESIS_INVALIDATED'' (85 / 100)
         else if risk then r ''risk increased'' ''RISK_INCREASED'' (75 / 100)
         else if better then r ''better opportunity'' ''OPPORTUNITY_CHANGED'' (65 / 100)
         else if target then r ''protect profit'' ''PROFIT_PROTECTION'' (6 / 10)
         else if expired then r ''time window expired'' ''TIME_DECAY'' (55 / 100)
         else None)"

definition lifecycle_targets :: "(string, string list) dict" where
  "lifecycle_targets =
     [(''WATCHING'', [''ENTERED'']), (''ENTERED'', [''MONITORING'']), (''MONITORING'', [''MONITORING'', ''ADJUSTING'', ''EXIT_PENDING'']),
      (''ADJUSTING'', [''MONITORING'', ''EXIT_PENDING'']), (''EXIT_PENDING'', [''EXIT_PENDING'', ''EXITED'']), (''EXITED'', [''REVIEW'']),
      (''REVIEW'', []), (''CANCELLED'', [''WATCHING''])]"

record lifecycle =
  lc_state :: string
  lc_history :: "(string \<times> string \<times> string \<times> usec) list"

definition lifecycle_can :: "string \<Rightarrow> lifecycle \<Rightarrow> bool" where
  "lifecycle_can new l = (case map_of lifecycle_targets (lc_state l) of Some ts \<Rightarrow> new \<in> set ts | None \<Rightarrow> False)"

definition lifecycle_transition :: "string \<Rightarrow> string \<Rightarrow> usec \<Rightarrow> (lifecycle, string \<times> string \<times> string \<times> usec) eff" where
  "lifecycle_transition new reason now l =
     (if lifecycle_can new l
      then (let row = (lc_state l, new, reason, now) in (l\<lparr> lc_state := new, lc_history := lc_history l @ [row] \<rparr>, ret row))
      else (l, raise ValueError))"

subsection \<open>What an intent can do to a position\<close>

definition side_with :: "position_side \<Rightarrow> string" where
  "side_with sd = (if sd = LONG then ''BUY'' else ''SELL'')"

definition side_against :: "position_side \<Rightarrow> string" where
  "side_against sd = (if sd = LONG then ''SELL'' else ''BUY'')"

lemma decide_cases:
  assumes "0 < px_qty c"
  shows "pd_action (decide c) = (if px_hard c \<or> px_status c = ''THESIS_INVALIDATED'' then ''EXIT''
      else if px_status c = ''THESIS_WEAKENING'' then ''REDUCE'' else if px_status c = ''THESIS_STRENGTHENING'' then ''ADD'' else ''HOLD'')"
  using assms by (auto simp: decide_def plain_decision_def Let_def)

lemma analyze_action:
  assumes "0 < ap_qty p"
  shows "ti_action (analyze sy state intelligence portfolio a (Some p)) =
     (if ap_hard p \<or> ap_status p = ''THESIS_INVALIDATED'' then ''EXIT''
      else if ap_status p = ''THESIS_WEAKENING'' then ''REDUCE'' else if ap_status p = ''THESIS_STRENGTHENING'' then ''ADD'' else ''HOLD'')"
  using assms by (simp add: analyze_def position_analysis_def Let_def decide_cases)

text \<open>What the brain wants of a position that is held is mapped to an order only if the position is not to be
  held: a hard risk exit or an invalidated thesis closes exactly the position, a weakening one
  sells into it reduce-only and never more than it, and only a strengthening one adds, in the direction of
  the position and at most as much again.\<close>

theorem position_intent_bounded:
  assumes "0 < ap_qty p" "action = ti_action (analyze sy state intelligence portfolio a (Some p))"
    and "m = map_trading_intent action (ap_side p) (ap_qty p) change"
  shows "(im_executable m \<longleftrightarrow> action \<noteq> ''HOLD'') \<and> (im_executable m \<longrightarrow> im_action m = action \<and> im_qty m \<le> ap_qty p \<and>
      (if im_reduce m then im_side m = side_against (ap_side p) else action = ''ADD'' \<and> im_side m = side_with (ap_side p))) \<and>
    (ap_hard p \<or> ap_status p = ''THESIS_INVALIDATED'' \<longrightarrow> im_executable m \<and> im_reduce m \<and> im_qty m = ap_qty p)"
  using assms(1) unfolding assms(2,3) analyze_action [OF assms(1)]
  by (auto simp: map_trading_intent_def no_order_def side_with_def side_against_def Let_def)

definition ex_active :: "string \<Rightarrow> active_position" where
  "ex_active status = \<lparr> ap_qty = 2, ap_side = SHORT, ap_market = PERPETUAL, ap_entry = 100, ap_current = 110, ap_unrealized = -20,
     ap_realized = 0, ap_age = 0, ap_status = status, ap_thesis = ''position management'', ap_hard = False, ap_change = 5 \<rparr>"

theorem position_intent_bounded_witness:
  "im_side (map_trading_intent (ti_action (analyze ''B'' ''UNKNOWN'' [] [] no_entry (Some (ex_active ''THESIS_WEAKENING'')))) SHORT 2 5) = ''BUY'' \<and>
   im_qty (map_trading_intent (ti_action (analyze ''B'' ''UNKNOWN'' [] [] no_entry (Some (ex_active ''THESIS_WEAKENING'')))) SHORT 2 5) \<le> 2"
proof -
  have p: "0 < ap_qty (ex_active ''THESIS_WEAKENING'')" "ap_side (ex_active ''THESIS_WEAKENING'') = SHORT" "ap_qty (ex_active ''THESIS_WEAKENING'') = 2"
    by (simp_all add: ex_active_def)
  have a: "ti_action (analyze ''B'' ''UNKNOWN'' [] [] no_entry (Some (ex_active ''THESIS_WEAKENING''))) = ''REDUCE''"
    using analyze_action [OF p(1)] by (simp add: ex_active_def)
  show ?thesis
    using position_intent_bounded [OF p(1) refl refl, of "''B''" "''UNKNOWN''" "[]" "[]" no_entry 5] unfolding p(2,3) a
    by (auto simp: side_against_def split: if_splits)
qed

end
