(* ===== verification/Position_Bridge.thy ===== *)
theory Position_Bridge
  imports Position_Brain Engine_Gates
begin

text \<open>
  \<open>runtime/ai_position_bridge.py\<close>: the positions are looked at again by every tick and every few seconds,
  and what is to be closed goes through \<open>process_signal\<close> like any other signal. The state is the engine
  and the bridge. Left out are the creation times of evaluations; numbers in reasons are left out as
  elsewhere.
\<close>

subsection \<open>The state of the bridge\<close>

record evaluation =
  av_symbol :: string
  av_action :: string
  av_conf :: fl
  av_reason :: string
  av_status :: string
  av_executable :: bool
  av_side :: string
  av_qty :: fl
  av_reduce :: bool
  av_market :: market_type
  av_pside :: position_side

datatype history_row =
    Evaluated evaluation | RetryArmed string usec | TimeStopped string string usec | NotApproved string string string usec

record bridge_config =
  bc_cooldown :: fl
  bc_perp :: bool
  bc_time_stop :: "fl option"
  bc_opened :: "(om_db \<Rightarrow> string \<Rightarrow> position_side \<Rightarrow> usec option res) option"

record bridge =
  br_evaluated :: "(string, usec) dict"
  br_decision :: "(string, string) dict"
  br_history :: "history_row list"
  br_thesis :: "(string, string) dict"
  br_change :: "(string, fl) dict"
  br_hard :: "(string, bool) dict"
  br_seen :: "(string, usec) dict"
  br_missing :: "(string, usec) dict"
  br_exits :: "string list"

definition bridge_init :: bridge where
  "bridge_init = \<lparr> br_evaluated = [], br_decision = [], br_history = [], br_thesis = [], br_change = [], br_hard = [], br_seen = [],
     br_missing = [], br_exits = [] \<rparr>"

type_synonym ('x, 'a) bact = "('x engine \<times> bridge, 'a) eff"

definition on_engine :: "('x, 'a) act \<Rightarrow> ('x, 'a) bact" where
  "on_engine m = eff_zoom fst (\<lambda>s p. (s, snd p)) m"

definition on_bridge :: "(bridge \<Rightarrow> bridge) \<Rightarrow> ('x, unit) bact" where
  "on_bridge f = eff_mod (\<lambda>p. (fst p, f (snd p)))"

definition from_bridge :: "(bridge \<Rightarrow> 'a) \<Rightarrow> ('x, 'a) bact" where
  "from_bridge f = eff_get (\<lambda>p. f (snd p))"

definition bridge_now :: "'x engine_env \<Rightarrow> ('x, usec) bact" where
  "bridge_now env = on_engine (en_now env)"

definition get_or :: "(string, 'v) dict \<Rightarrow> string \<Rightarrow> 'v \<Rightarrow> 'v" where
  "get_or d k v = (case map_of d k of Some x \<Rightarrow> x | None \<Rightarrow> v)"

definition end_exit :: "string \<Rightarrow> bridge \<Rightarrow> bridge" where
  "end_exit sy b = b\<lparr> br_exits := filter (\<lambda>x. x \<noteq> sy) (br_exits b) \<rparr>"

definition note_row :: "history_row \<Rightarrow> bridge \<Rightarrow> bridge" where
  "note_row h b = b\<lparr> br_history := br_history b @ [h] \<rparr>"

subsection \<open>One evaluation\<close>

definition on_cooldown :: "bridge_config \<Rightarrow> string \<Rightarrow> usec \<Rightarrow> bridge \<Rightarrow> bool" where
  "on_cooldown cfg sy now b =
     (case map_of (br_evaluated b) sy of None \<Rightarrow> False | Some t0 \<Rightarrow> total_seconds (now - t0) < bc_cooldown cfg)"

definition evaluate :: "bridge_config \<Rightarrow> string \<Rightarrow> active_position \<Rightarrow> usec \<Rightarrow> bridge \<Rightarrow> bridge \<times> evaluation" where
  "evaluate cfg sy p now b =
     (if on_cooldown cfg sy now b then
        (b, \<lparr> av_symbol = sy, av_action = ''COOLDOWN'', av_conf = 0, av_reason = ''cooldown'', av_status = [], av_executable = False,
              av_side = [], av_qty = 0, av_reduce = False, av_market = SPOT, av_pside = FLAT \<rparr>)
      else
        (let i = analyze sy ''UNKNOWN'' [] [] no_entry (Some p);
             m = map_trading_intent (ti_action i) (ap_side p) (ap_qty p) (ap_change p);
             e = \<lparr> av_symbol = sy, av_action = ti_action i, av_conf = ti_conf i,
                   av_reason = (if ti_thesis i \<noteq> [] then ti_thesis i else ''position analysis''), av_status = ap_status p,
                   av_executable = im_executable m, av_side = im_side m, av_qty = im_qty m, av_reduce = im_reduce m,
                   av_market = ap_market p, av_pside = ap_side p \<rparr>
         in (note_row (Evaluated e) (b\<lparr> br_decision := AList.update sy (av_action e) (br_decision b),
               br_evaluated := AList.update sy now (br_evaluated b) \<rparr>), e)))"

subsection \<open>The signal of an exit\<close>

definition time_stop_mark :: string where
  "time_stop_mark = ''EXPLORATION_TIME_STOP''"

text \<open>\<open>f"{x:.0f}"\<close>\<close>

definition whole_text :: "fl \<Rightarrow> string" where
  "whole_text x = (if x < 0 then ''-'' else []) @ int_digits \<bar>half_even x\<bar>"

definition time_stop_reason :: "fl \<Rightarrow> fl \<Rightarrow> string" where
  "time_stop_reason age limit = time_stop_mark @ '' held '' @ whole_text age @ ''s >= '' @ whole_text limit @ ''s''"

definition bridge_signal :: "string \<Rightarrow> evaluation \<Rightarrow> string \<Rightarrow> string \<Rightarrow> signal_intent" where
  "bridge_signal sy e sid exit_reason =
     \<lparr> s_id = sid, s_strategy = ''ai_brain'', s_symbol = sy, s_side = (if av_side e = ''BUY'' then BUY else SELL),
       s_qty = repr_dec (av_qty e), s_limit = None, s_type = MARKET, s_tif = GTC, s_expires = None, s_reason = av_reason e, s_run = None,
       s_market = av_market e, s_pside = av_pside e, s_reduce_only = av_reduce e,
       s_meta = [(''exit_reason'', JStr exit_reason), (''signal_id'', JStr sid)] \<rparr>"

definition bridge_signal_id :: "string \<Rightarrow> usec \<Rightarrow> string" where
  "bridge_signal_id sy t = ''ai_'' @ sy @ ''_'' @ int_digits (round_down (fmul (total_seconds t) 1000))"

text \<open>An evaluation has no attribute \<open>hard_risk_exit\<close>: unless the reason is the time stop, asking for it raises.\<close>

definition exit_reason_of :: "evaluation \<Rightarrow> string res" where
  "exit_reason_of e =
     (if take (length time_stop_mark) (av_reason e) = time_stop_mark then ret ''TIME_STOP'' else raise AttributeErrorC)"

definition outcome_text :: "risk_decision option \<Rightarrow> string" where
  "outcome_text d = (case d of Some r \<Rightarrow> decision_text (rd_decision r) | None \<Rightarrow> [])"

definition apply_to_engine :: "'x engine_env \<Rightarrow> string \<Rightarrow> evaluation \<Rightarrow> ('x, unit) bact" where
  "apply_to_engine env sy e =
     eff_bind (bridge_now env) (\<lambda>t.
     eff_bind (eff_lift (exit_reason_of e)) (\<lambda>why.
     eff_bind (eff_try (on_engine (process_signal env (bridge_signal sy e (bridge_signal_id sy t) why)))
                (\<lambda>x. eff_then (on_bridge (end_exit sy)) (eff_raise x)))
       (\<lambda>d. let status = outcome_text d in
            if status = ''APPROVE'' then eff_ret ()
            else
              (let text = ''EXIT_'' @ (if status \<noteq> [] then status else ''REJECTED'') in
               eff_bind (bridge_now env) (\<lambda>t2. on_bridge (\<lambda>b.
                 note_row (NotApproved sy text (take 160 (case d of Some r \<Rightarrow> (case rd_reason r of Some x \<Rightarrow> x | None \<Rightarrow> ''None'') | None \<Rightarrow> [])) t2)
                   ((end_exit sy b)\<lparr> br_decision := AList.update sy text (br_decision b) \<rparr>)))))))"

subsection \<open>One position\<close>

record candidate =
  cd_symbol :: string
  cd_market :: market_type
  cd_side :: position_side
  cd_qty :: fl
  cd_entry :: fl
  cd_realized :: fl

definition price_for :: "candidate \<Rightarrow> 'x engine \<Rightarrow> fl" where
  "price_for c s =
     (case map_of (md_books (en_md s)) (reference_symbol_for (cd_symbol c)) of
        Some b \<Rightarrow> (case mid_price b of Some p \<Rightarrow> fround p | None \<Rightarrow> cd_entry c)
      | None \<Rightarrow> cd_entry c)"

definition active_of :: "candidate \<Rightarrow> fl \<Rightarrow> bridge \<Rightarrow> active_position" where
  "active_of c price b =
     \<lparr> ap_qty = cd_qty c, ap_side = cd_side c, ap_market = cd_market c, ap_entry = cd_entry c, ap_current = price,
       ap_unrealized = (if 0 < price \<and> 0 < cd_entry c then
                          (if cd_side c = LONG then fmul (fsub price (cd_entry c)) (cd_qty c) else fmul (fsub (cd_entry c) price) (cd_qty c))
                        else 0),
       ap_realized = cd_realized c, ap_age = 0, ap_status = get_or (br_thesis b) (cd_symbol c) ''THESIS_INTACT'',
       ap_thesis = ''position management'', ap_hard = get_or (br_hard b) (cd_symbol c) False,
       ap_change = get_or (br_change b) (cd_symbol c) 0 \<rparr>"

text \<open>Since when the position is held: as remembered, as the provider says, or since now.\<close>

definition opened_at :: "bridge_config \<Rightarrow> candidate \<Rightarrow> om_db \<Rightarrow> usec option" where
  "opened_at cfg c db =
     (case bc_opened cfg of None \<Rightarrow> None
      | Some f \<Rightarrow> (case f db (cd_symbol c) (cd_side c) of Inr t \<Rightarrow> t | Inl _ \<Rightarrow> None))"

definition first_seen :: "'x engine_env \<Rightarrow> bridge_config \<Rightarrow> candidate \<Rightarrow> ('x, usec) bact" where
  "first_seen env cfg c =
     eff_bind (from_bridge (\<lambda>b. map_of (br_seen b) (cd_symbol c))) (\<lambda>seen.
       case seen of
         Some t \<Rightarrow> eff_ret t
       | None \<Rightarrow>
           eff_bind (on_engine (eff_get (\<lambda>s. opened_at cfg c (en_db s)))) (\<lambda>opened.
           eff_bind (case opened of Some t \<Rightarrow> eff_ret t | None \<Rightarrow> bridge_now env) (\<lambda>t.
           eff_then (on_bridge (\<lambda>b. b\<lparr> br_seen := AList.update (cd_symbol c) t (br_seen b) \<rparr>)) (eff_ret t))))"

definition time_stop_evaluation :: "candidate \<Rightarrow> fl \<Rightarrow> fl \<Rightarrow> evaluation" where
  "time_stop_evaluation c age limit =
     \<lparr> av_symbol = cd_symbol c, av_action = ''EXIT'', av_conf = 1, av_reason = time_stop_reason age limit, av_status = ''THESIS_EXPIRED'',
       av_executable = True, av_side = (if cd_side c = LONG then ''SELL'' else ''BUY''), av_qty = cd_qty c, av_reduce = True,
       av_market = cd_market c, av_pside = cd_side c \<rparr>"

definition time_stop_exit :: "'x engine_env \<Rightarrow> candidate \<Rightarrow> fl \<Rightarrow> fl \<Rightarrow> ('x, evaluation) bact" where
  "time_stop_exit env c age limit =
     (let sy = cd_symbol c; e = time_stop_evaluation c age limit in
      eff_bind (bridge_now env) (\<lambda>t.
      eff_then (on_bridge (\<lambda>b. note_row (TimeStopped sy (av_reason e) t)
         (b\<lparr> br_decision := AList.update sy ''EXIT'' (br_decision b), br_evaluated := AList.update sy t (br_evaluated b),
             br_exits := List.insert sy (br_exits b) \<rparr>)))
      (eff_then (apply_to_engine env sy e) (eff_ret e))))"

definition brain_turn :: "'x engine_env \<Rightarrow> bridge_config \<Rightarrow> candidate \<Rightarrow> active_position \<Rightarrow> ('x, evaluation) bact" where
  "brain_turn env cfg c p =
     eff_bind (bridge_now env) (\<lambda>t.
     eff_bind (from_bridge (\<lambda>b. evaluate cfg (cd_symbol c) p t b)) (\<lambda>(b', e).
     eff_then (on_bridge (\<lambda>_. b'))
     (eff_then (if av_executable e \<and> av_action e \<in> set [''ADD'', ''REDUCE'', ''EXIT''] then apply_to_engine env (cd_symbol c) e else eff_ret ())
       (eff_ret e))))"

definition evaluate_one :: "'x engine_env \<Rightarrow> bridge_config \<Rightarrow> candidate \<Rightarrow> ('x, evaluation) bact" where
  "evaluate_one env cfg c =
     eff_bind (on_engine (eff_get (price_for c))) (\<lambda>price.
     eff_bind (from_bridge (active_of c price)) (\<lambda>p.
       case bc_time_stop cfg of
         None \<Rightarrow> brain_turn env cfg c p
       | Some limit \<Rightarrow>
           eff_bind (first_seen env cfg c) (\<lambda>t0. eff_bind (bridge_now env) (\<lambda>t.
             if limit \<le> total_seconds (t - t0) then time_stop_exit env c (total_seconds (t - t0)) limit else brain_turn env cfg c p))))"

subsection \<open>All positions\<close>

definition spot_candidates :: "(string, position) dict \<Rightarrow> candidate list" where
  "spot_candidates ps =
     map (\<lambda>(sy, p). \<lparr> cd_symbol = sy, cd_market = SPOT, cd_side = (if 0 < fround (p_qty p) then LONG else SHORT), cd_qty = \<bar>fround (p_qty p)\<bar>,
            cd_entry = fround (dec_or (p_avg p) 0), cd_realized = fround (p_realized p) \<rparr>)
       (filter (\<lambda>(_, p). fround (p_qty p) \<noteq> 0) ps)"

definition perp_candidates :: "(string, margin_position) dict \<Rightarrow> candidate list" where
  "perp_candidates ps =
     map (\<lambda>(sy, p). \<lparr> cd_symbol = sy, cd_market = PERPETUAL, cd_side = mp_side p, cd_qty = \<bar>fround (mp_qty p)\<bar>,
            cd_entry = fround (mp_entry p), cd_realized = fround (mp_realized p) \<rparr>)
       (filter (\<lambda>(_, p). \<not> is_flat p) ps)"

definition perp_positions :: "'x engine_env \<Rightarrow> bridge_config \<Rightarrow> ('x, candidate list) act" where
  "perp_positions env cfg =
     eff_bind (eff_get en_perp) (\<lambda>pe.
       case (if bc_perp cfg then pe else None) of
         None \<Rightarrow> eff_ret []
       | Some e \<Rightarrow> eff_try (eff_bind (on_perp env (\<lambda>_ _ t. load_state t) e) (\<lambda>a. eff_ret (perp_candidates (pa_positions a))))
                     (\<lambda>x. eff_ret []))"

text \<open>An exit that is marked in flight but has no open order any more may be tried again.\<close>

definition rearm_one :: "'x engine_env \<Rightarrow> candidate list \<Rightarrow> string list \<Rightarrow> string \<Rightarrow> ('x, unit) bact" where
  "rearm_one env cands outstanding sy =
     (if sy \<in> set outstanding then eff_ret ()
      else eff_then (on_bridge (end_exit sy))
        (if sy \<in> cd_symbol ` set cands then eff_bind (bridge_now env) (\<lambda>t. on_bridge (note_row (RetryArmed sy t))) else eff_ret ()))"

definition rearm_exits :: "'x engine_env \<Rightarrow> candidate list \<Rightarrow> ('x, unit) bact" where
  "rearm_exits env cands =
     eff_bind (from_bridge br_exits) (\<lambda>exits.
       if exits = [] \<or> cands = [] then eff_ret ()
       else eff_bind (on_engine (eff_get (\<lambda>s. map o_symbol (filter o_reduce_only (list_open (en_db s))))))
              (\<lambda>outstanding. eff_each (rearm_one env cands outstanding) exits))"

fun evaluate_candidates :: "'x engine_env \<Rightarrow> bridge_config \<Rightarrow> candidate list \<Rightarrow> ('x, evaluation list) bact" where
  "evaluate_candidates env cfg [] = eff_ret []"
| "evaluate_candidates env cfg (c # cs) =
     eff_bind (from_bridge (\<lambda>b. cd_symbol c \<in> set (br_exits b))) (\<lambda>in_flight.
     eff_bind (if in_flight then eff_ret [] else eff_bind (evaluate_one env cfg c) (\<lambda>e. eff_ret [e])) (\<lambda>es.
     eff_bind (evaluate_candidates env cfg cs) (\<lambda>rest. eff_ret (es @ rest))))"

text \<open>The age of a position is forgotten only after it has been absent for a while.\<close>

definition forget_one :: "fl \<Rightarrow> usec \<Rightarrow> string \<Rightarrow> bridge \<Rightarrow> bridge" where
  "forget_one grace now sy b =
     (let since = get_or (br_missing b) sy now; b1 = b\<lparr> br_missing := AList.update sy since (br_missing b) \<rparr>
      in if grace \<le> total_seconds (now - since)
         then b1\<lparr> br_seen := AList.delete sy (br_seen b1), br_missing := AList.delete sy (br_missing b1) \<rparr> else b1)"

definition forget_closed :: "bridge_config \<Rightarrow> string list \<Rightarrow> usec \<Rightarrow> bridge \<Rightarrow> bridge" where
  "forget_closed cfg seen now b =
     (let absent = filter (\<lambda>sy. sy \<notin> set seen) (map fst (br_seen b));
          b1 = foldl (\<lambda>b sy. forget_one (max 60 (bc_cooldown cfg)) now sy b) b absent;
          b2 = b1\<lparr> br_missing := filter (\<lambda>kv. fst kv \<notin> set seen) (br_missing b1) \<rparr>
      in b2\<lparr> br_exits := filter (\<lambda>sy. sy \<in> set seen) (br_exits b2) \<rparr>)"

definition evaluate_active_positions :: "'x engine_env \<Rightarrow> bridge_config \<Rightarrow> ('x, evaluation list) bact" where
  "evaluate_active_positions env cfg =
     eff_bind (on_engine (eff_get (\<lambda>s. spot_candidates (get_positions (en_proj s))))) (\<lambda>spot.
     eff_bind (on_engine (perp_positions env cfg)) (\<lambda>perp.
     let cands = spot @ perp in
     eff_then (rearm_exits env cands)
     (eff_bind (evaluate_candidates env cfg cands) (\<lambda>es.
      eff_bind (bridge_now env) (\<lambda>t.
      eff_then (on_bridge (forget_closed cfg (map cd_symbol cands) t)) (eff_ret es))))))"

text \<open>A tick of an engine that has a bridge.\<close>

definition tick_bridged :: "'x engine_env \<Rightarrow> strategy list \<Rightarrow> bridge_config \<Rightarrow> ('x, risk_decision list) bact" where
  "tick_bridged env sts cfg =
     eff_bind (on_engine (tick_strategies env sts)) (\<lambda>ds.
     eff_bind (evaluate_active_positions env cfg) (\<lambda>_.
     eff_then (on_engine (set_health env ''engine_loop'' True [])) (eff_ret ds)))"

text \<open>The provider that \<open>runtime/bootstrap.py\<close> installs: the last fill on the side of the entry.\<close>

definition position_opened_at :: "om_db \<Rightarrow> string \<Rightarrow> position_side \<Rightarrow> usec option res" where
  "position_opened_at db sy side =
     (let entry = (if side = SHORT then SELL else BUY);
          ts = map f_time (filter (\<lambda>f. f_symbol f = sy \<and> f_side f = entry) (db_fills db))
      in ret (if ts = [] then None else Some (Max (set ts))))"

subsection \<open>The bridge only closes positions\<close>

text \<open>A market order of the brain that reduces: against the side of its position and nothing more.\<close>

definition exit_signal :: "signal_intent \<Rightarrow> bool" where
  "exit_signal sg \<longleftrightarrow> s_reduce_only sg \<and> s_strategy sg = ''ai_brain'' \<and> s_type sg = MARKET \<and>
     s_side sg = (if s_pside sg = LONG then SELL else BUY)"

text \<open>What the engine does while the bridge is at work: it reads, or it processes an exit.\<close>

inductive exits_only :: "'x engine_env \<Rightarrow> 'x engine \<Rightarrow> 'x engine \<Rightarrow> bool" for env s where
  here: "exits_only env s s"
| reads: "exits_only env s t \<Longrightarrow> steady t u \<Longrightarrow> exits_only env s u"
| exit: "exits_only env s t \<Longrightarrow> exit_signal sg \<Longrightarrow> process_signal env sg t = (u, r) \<Longrightarrow> exits_only env s u"

lemma exits_only_trans: "exits_only env t u \<Longrightarrow> exits_only env s t \<Longrightarrow> exits_only env s u"
  by (induction rule: exits_only.induct) (auto intro: exits_only.intros)

definition bridge_step :: "'x engine_env \<Rightarrow> 'x engine \<times> bridge \<Rightarrow> 'x engine \<times> bridge \<Rightarrow> bool" where
  "bridge_step env p q \<longleftrightarrow> exits_only env (fst p) (fst q)"

interpretation exits: step_relation "bridge_step env" for env
  by unfold_locales (auto simp: bridge_step_def intro: exits_only.here exits_only_trans)

named_theorems exit_steps

lemma exits_engine [exit_steps]: "moves steady m \<Longrightarrow> moves (bridge_step env) (on_engine m)"
  by (auto simp: moves_def bridge_step_def on_engine_def eff_zoom_def split: prod.split
      intro!: exits_only.reads [OF exits_only.here]) (metis fst_conv)

lemma exits_bridge [exit_steps]: "moves (bridge_step env) (on_bridge f)" "moves (bridge_step env) (from_bridge g)"
  by (auto simp: moves_def bridge_step_def on_bridge_def from_bridge_def intro: exits_only.here)

lemma exits_now [exit_steps]: "moves (bridge_step env) (bridge_now env)"
  unfolding bridge_now_def by (intro exit_steps steady_basic)

lemma exits_get [exit_steps]: "moves (bridge_step env) (on_engine (eff_get f))"
  by (intro exit_steps steady.pure)

lemma exits_signal: "exit_signal sg \<Longrightarrow> moves (bridge_step env) (on_engine (process_signal env sg))"
  by (auto simp: moves_def bridge_step_def on_engine_def eff_zoom_def split: prod.split intro: exits_only.exit [OF exits_only.here])

lemma eff_bind_lift: "eff_bind (eff_lift (Inl x)) f = eff_raise x" "eff_bind (eff_lift (Inr y)) f = f y"
  by (simp_all add: fun_eq_iff eff_bind_def)

lemma exits_apply:
  assumes "\<And>sid why. exit_reason_of e = ret why \<Longrightarrow> exit_signal (bridge_signal sy e sid why)"
  shows "moves (bridge_step env) (apply_to_engine env sy e)"
proof (cases "exit_reason_of e")
  case (Inl x)
  show ?thesis unfolding apply_to_engine_def Inl eff_bind_lift by (intro exits.rules exit_steps)
next
  case (Inr why)
  have m: "moves (bridge_step env) (on_engine (process_signal env (bridge_signal sy e sid why)))" for sid
    by (rule exits_signal [OF assms [OF Inr]])
  show ?thesis unfolding apply_to_engine_def Inr eff_bind_lift Let_def
    by (intro exits.rules exit_steps m)
qed

text \<open>Whatever the brain decides, its reason is not that of the time stop, so nothing is sent.\<close>

lemma brain_thesis:
  "ti_thesis (analyze sy state i pf no_entry (Some p)) = (if ap_qty p \<noteq> 0 then ap_thesis p else ''no thesis'')"
  by (simp add: analyze_def position_analysis_def entry_analysis_def no_entry_def Let_def)

lemma brain_reason:
  assumes "ap_thesis p = ''position management''"
  shows "exit_reason_of (snd (evaluate cfg sy p now b)) = raise AttributeErrorC"
proof -
  have "av_reason (snd (evaluate cfg sy p now b)) =
      (if on_cooldown cfg sy now b then ''cooldown'' else if ap_qty p \<noteq> 0 then ''position management'' else ''no thesis'')"
    by (simp add: evaluate_def Let_def brain_thesis assms)
  then show ?thesis by (simp add: exit_reason_of_def time_stop_mark_def)
qed

lemma active_of_thesis [simp]: "ap_thesis (active_of c price b) = ''position management''"
  by (simp add: active_of_def)

lemma exits_brain:
  assumes "ap_thesis p = ''position management''"
  shows "moves (bridge_step env) (brain_turn env cfg c p)"
proof -
  have ap: "moves (bridge_step env) (apply_to_engine env sy (snd (evaluate cfg sy p t b)))" for sy t b
    by (rule exits_apply) (simp add: brain_reason [OF assms])
  have "moves (bridge_step env) (eff_bind (from_bridge (\<lambda>b. evaluate cfg (cd_symbol c) p t b)) (\<lambda>(b', e).
     eff_then (on_bridge (\<lambda>_. b'))
     (eff_then (if av_executable e \<and> av_action e \<in> set [''ADD'', ''REDUCE'', ''EXIT''] then apply_to_engine env (cd_symbol c) e else eff_ret ())
       (eff_ret e))))" for t
  proof -
    have "moves (bridge_step env) (case evaluate cfg (cd_symbol c) p t b of (b', e) \<Rightarrow>
       eff_then (on_bridge (\<lambda>_. b'))
       (eff_then (if av_executable e \<and> av_action e \<in> set [''ADD'', ''REDUCE'', ''EXIT''] then apply_to_engine env (cd_symbol c) e else eff_ret ())
         (eff_ret e)))" for b
      using ap [of "cd_symbol c" t b]
      by (cases "evaluate cfg (cd_symbol c) p t b") (auto intro!: exits.rules exit_steps)
    then show ?thesis by (simp add: moves_def from_bridge_def)
  qed
  then show ?thesis unfolding brain_turn_def by (rule exits.bind [OF exits_now])
qed

lemma exits_time_stop: "moves (bridge_step env) (time_stop_exit env c age limit)"
proof -
  have "exit_signal (bridge_signal (cd_symbol c) (time_stop_evaluation c age limit) sid why)" for sid why
    by (simp add: exit_signal_def bridge_signal_def time_stop_evaluation_def)
  then show ?thesis unfolding time_stop_exit_def Let_def
    by (intro exits.rules exit_steps exits_apply)
qed

lemma exits_one: "moves (bridge_step env) (evaluate_one env cfg c)"
proof -
  have "moves (bridge_step env) (first_seen env cfg c)"
    unfolding first_seen_def by (auto intro!: exits.rules exit_steps split: option.split)
  then have "moves (bridge_step env) (case bc_time_stop cfg of None \<Rightarrow> brain_turn env cfg c p
       | Some limit \<Rightarrow> eff_bind (first_seen env cfg c) (\<lambda>t0. eff_bind (bridge_now env) (\<lambda>t.
             if limit \<le> total_seconds (t - t0) then time_stop_exit env c (total_seconds (t - t0)) limit else brain_turn env cfg c p)))"
    if "ap_thesis p = ''position management''" for p
    by (intro exits.rules exit_steps exits_brain [OF that] exits_time_stop)
  then have "moves (bridge_step env) (eff_bind (from_bridge (active_of c price)) (\<lambda>p.
       case bc_time_stop cfg of None \<Rightarrow> brain_turn env cfg c p
       | Some limit \<Rightarrow> eff_bind (first_seen env cfg c) (\<lambda>t0. eff_bind (bridge_now env) (\<lambda>t.
             if limit \<le> total_seconds (t - t0) then time_stop_exit env c (total_seconds (t - t0)) limit else brain_turn env cfg c p))))" for price
    by (simp add: moves_def from_bridge_def)
  then show ?thesis unfolding evaluate_one_def by (rule exits.bind [OF exits_get])
qed

lemma exits_candidates: "moves (bridge_step env) (evaluate_candidates env cfg cs)"
proof (induction cs)
  case Nil
  show ?case unfolding evaluate_candidates.simps by (rule exits.pure)
next
  case (Cons c cs)
  then show ?case unfolding evaluate_candidates.simps by (intro exits.rules exit_steps exits_one)
qed

lemma exits_positions: "moves (bridge_step env) (evaluate_active_positions env cfg)"
proof -
  have "moves steady (perp_positions env cfg)" unfolding perp_positions_def
    by (intro steady.rules steady_load)
  moreover have "moves (bridge_step env) (rearm_exits env cands)" for cands
    unfolding rearm_exits_def rearm_one_def by (intro exits.rules exit_steps)
  ultimately show ?thesis unfolding evaluate_active_positions_def Let_def
    by (intro exits.rules exit_steps exits_candidates)
qed

text \<open>C7: however the bridge was configured and whatever it remembers, its evaluation of the positions makes the
  engine process nothing but reduce-only market orders against the side of the position; everything
  else it does leaves orders, ledger, event queue, kill switch and lease alone.\<close>

theorem bridge_only_exits:
  assumes "evaluate_active_positions env cfg (s, b) = ((t, b'), r)"
  shows "exits_only env s t"
  using movesD [OF exits_positions assms] by (simp add: bridge_step_def)

subsection \<open>Exits of the time stop and of the brain\<close>

lemma bridge_now_simp: "bridge_now env (s, b) = ((s\<lparr> en_reads := Suc (en_reads s) \<rparr>, b), ret (ev_clock env (en_reads s)))"
  by (simp add: bridge_now_def on_engine_def eff_zoom_def en_now_def)

lemma bridge_simps:
  "on_bridge f (s, b) = ((s, f b), ret ())" "from_bridge g (s, b) = ((s, b), ret (g b))" "on_engine (eff_get h) (s, b) = ((s, b), ret (h s))"
  by (simp_all add: on_bridge_def from_bridge_def on_engine_def eff_zoom_def)

lemma steady_read: "steady s (s\<lparr> en_reads := k \<rparr>)"
  by (simp add: steady_def same_tables_def)

lemma apply_raises:
  assumes "exit_reason_of e = Inl x"
  shows "apply_to_engine env sy e (s, b) = ((s\<lparr> en_reads := Suc (en_reads s) \<rparr>, b), Inl x)"
  by (simp add: apply_to_engine_def assms eff_bind_lift eff_bind_def bridge_now_simp)

lemma brain_acts:
  assumes "0 < ap_qty p" "ap_thesis p = ''position management''" "\<not> on_cooldown cfg sy now b"
    and "ap_hard p \<or> ap_status p \<in> {''THESIS_INVALIDATED'', ''THESIS_WEAKENING'', ''THESIS_STRENGTHENING''}"
  shows "av_executable (snd (evaluate cfg sy p now b)) \<and> av_action (snd (evaluate cfg sy p now b)) \<in> {''ADD'', ''REDUCE'', ''EXIT''}"
  using assms(1,3,4) by (auto simp: evaluate_def Let_def analyze_action map_trading_intent_def no_order_def)

text \<open>What comes before the brain is asked: whether the time stop fires, with the clock readings that this takes.\<close>

definition stop_fires :: "'x engine_env \<Rightarrow> bridge_config \<Rightarrow> candidate \<Rightarrow> ('x, bool) bact" where
  "stop_fires env cfg c =
     (case bc_time_stop cfg of
        None \<Rightarrow> eff_ret False
      | Some limit \<Rightarrow>
          eff_bind (first_seen env cfg c) (\<lambda>t0. eff_bind (bridge_now env) (\<lambda>t. eff_ret (limit \<le> total_seconds (t - t0)))))"

lemma first_seen_result:
  "\<exists>s1 t0 seen. first_seen env cfg c (s, b) = ((s1, b\<lparr> br_seen := seen \<rparr>), ret t0) \<and> steady s s1"
proof (cases "map_of (br_seen b) (cd_symbol c)")
  case (Some t0)
  then have "first_seen env cfg c (s, b) = ((s, b\<lparr> br_seen := br_seen b \<rparr>), ret t0)"
    by (simp add: first_seen_def eff_bind_def bridge_simps)
  then show ?thesis using steady.refl by blast
next
  case None
  show ?thesis
  proof (cases "opened_at cfg c (en_db s)")
    case (Some t0)
    then have "first_seen env cfg c (s, b) = ((s, b\<lparr> br_seen := AList.update (cd_symbol c) t0 (br_seen b) \<rparr>), ret t0)"
      using None by (simp add: first_seen_def eff_bind_def bridge_simps)
    then show ?thesis using steady.refl by blast
  next
    case no: None
    define t0 where "t0 = ev_clock env (en_reads s)"
    have "first_seen env cfg c (s, b) =
        ((s\<lparr> en_reads := Suc (en_reads s) \<rparr>, b\<lparr> br_seen := AList.update (cd_symbol c) t0 (br_seen b) \<rparr>), ret t0)"
      using None no by (simp add: first_seen_def eff_bind_def bridge_simps bridge_now_simp t0_def)
    then show ?thesis using steady_read by blast
  qed
qed

text \<open>The evaluation of one position: the exit of the time stop if it fires, and otherwise the brain's turn.\<close>

lemma evaluate_one_stop:
  assumes "stop_fires env cfg c (s, b) = ((s1, b1), ret h)"
  shows "steady s s1 \<and> br_exits b1 = br_exits b \<and>
    (if h then \<exists>age limit. evaluate_one env cfg c (s, b) = time_stop_exit env c age limit (s1, b1)
     else evaluate_one env cfg c (s, b) = brain_turn env cfg c (active_of c (price_for c s) b) (s1, b1))"
proof (cases "bc_time_stop cfg")
  case None
  then show ?thesis using assms steady.refl
    by (auto simp: stop_fires_def evaluate_one_def eff_bind_def bridge_simps)
next
  case (Some limit)
  obtain s0 t0 seen where f: "first_seen env cfg c (s, b) = ((s0, b\<lparr> br_seen := seen \<rparr>), ret t0)" "steady s s0"
    using first_seen_result by blast
  define t where "t = ev_clock env (en_reads s0)"
  have e: "s1 = s0\<lparr> en_reads := Suc (en_reads s0) \<rparr>" "b1 = b\<lparr> br_seen := seen \<rparr>" "h = (limit \<le> total_seconds (t - t0))"
    using assms f(1) by (auto simp: stop_fires_def Some eff_bind_def bridge_now_simp t_def)
  have "evaluate_one env cfg c (s, b) = (if h then time_stop_exit env c (total_seconds (t - t0)) limit (s1, b1)
      else brain_turn env cfg c (active_of c (price_for c s) b) (s1, b1))"
    using f(1) by (simp add: evaluate_one_def Some eff_bind_def bridge_simps bridge_now_simp t_def [symmetric] e)
  moreover have "steady s s1" using steady.trans [OF f(2) steady_read] by (simp add: e)
  ultimately show ?thesis by (auto simp: e)
qed

text \<open>C9: whenever the brain wants to change a position that is held - for a hard risk exit or an invalidated,
  weakening or strengthened thesis - and is asked, that is the time stop has not fired, whether or not there is one,
  and the position is neither on its cooldown nor in flight, the bridge raises \<open>AttributeError\<close> and the order is never
  sent: no order, ledger entry or event comes of it, and the exception leaves the evaluation of all positions.\<close>

theorem brain_exit_raises:
  assumes "0 < cd_qty c" "cd_symbol c \<notin> set (br_exits b)"
    and "get_or (br_hard b) (cd_symbol c) False \<or>
      get_or (br_thesis b) (cd_symbol c) ''THESIS_INTACT'' \<in> {''THESIS_INVALIDATED'', ''THESIS_WEAKENING'', ''THESIS_STRENGTHENING''}"
    and "stop_fires env cfg c (s, b) = ((s1, b1), ret False)"
    and "\<not> on_cooldown cfg (cd_symbol c) (ev_clock env (en_reads s1)) b1"
    and "evaluate_candidates env cfg (c # cs) (s, b) = ((t, b'), r)"
  shows "r = raise AttributeErrorC \<and> steady s t"
proof -
  define p where "p = active_of c (price_for c s) b"
  define s2 where "s2 = s1\<lparr> en_reads := Suc (en_reads s1) \<rparr>"
  obtain b2 e where ev: "evaluate cfg (cd_symbol c) p (ev_clock env (en_reads s1)) b1 = (b2, e)" by force
  have acts: "av_executable e" "av_action e \<in> set [''ADD'', ''REDUCE'', ''EXIT'']"
    using brain_acts [of p cfg "cd_symbol c" "ev_clock env (en_reads s1)" b1] assms(1,3,5) ev by (auto simp: p_def active_of_def)
  have why: "exit_reason_of e = raise AttributeErrorC"
    using brain_reason [of p cfg "cd_symbol c" "ev_clock env (en_reads s1)" b1] ev by (simp add: p_def)
  have one: "steady s s1" "evaluate_one env cfg c (s, b) = brain_turn env cfg c p (s1, b1)"
    using evaluate_one_stop [OF assms(4)] by (simp_all add: p_def)
  have turn: "brain_turn env cfg c p (s1, b1) = ((s2\<lparr> en_reads := Suc (en_reads s2) \<rparr>, b2), raise AttributeErrorC)"
    using acts why ev by (simp add: brain_turn_def eff_bind_def bridge_simps bridge_now_simp s2_def apply_raises)
  have "((t, b'), r) = ((s2\<lparr> en_reads := Suc (en_reads s2) \<rparr>, b2), raise AttributeErrorC)"
    using assms(2,6) by (simp add: eff_bind_def bridge_simps one(2) turn)
  then show ?thesis using steady.trans [OF one(1) steady.trans [OF steady_read steady_read]] by (simp add: s2_def)
qed

lemma decision_text_approve: "decision_text d = ''APPROVE'' \<longleftrightarrow> d = APPROVE"
  by (cases d) simp_all

text \<open>What the bridge does with an exit that it hands to the engine.\<close>

lemma time_stop_hands_over:
  assumes "time_stop_exit env c age limit (s1, b0) = ((t, b'), r)"
  shows "\<exists>sid why u v d. let sg = bridge_signal (cd_symbol c) (time_stop_evaluation c age limit) sid why in
    steady s1 u \<and> process_signal env sg u = (v, d) \<and> steady v t \<and>
    (cd_symbol c \<in> set (br_exits b') \<longleftrightarrow> (\<exists>x. d = ret (Some x) \<and> rd_decision x = APPROVE))"
proof -
  define s2 where "s2 = s1\<lparr> en_reads := Suc (en_reads s1) \<rparr>"
  define u where "u = s2\<lparr> en_reads := Suc (en_reads s2) \<rparr>"
  define b1 where "b1 = note_row (TimeStopped (cd_symbol c) (time_stop_reason age limit) (ev_clock env (en_reads s1)))
     (b0\<lparr> br_decision := AList.update (cd_symbol c) ''EXIT'' (br_decision b0),
         br_evaluated := AList.update (cd_symbol c) (ev_clock env (en_reads s1)) (br_evaluated b0),
         br_exits := List.insert (cd_symbol c) (br_exits b0) \<rparr>)"
  define sg where "sg = bridge_signal (cd_symbol c) (time_stop_evaluation c age limit) (bridge_signal_id (cd_symbol c) (ev_clock env (en_reads s2))) ''TIME_STOP''"
  obtain v d where p: "process_signal env sg u = (v, d)" by force
  have rs: "av_reason (time_stop_evaluation c age limit) = time_stop_reason age limit" by (simp add: time_stop_evaluation_def)
  have why: "exit_reason_of (time_stop_evaluation c age limit) = ret ''TIME_STOP''"
    by (simp add: exit_reason_of_def time_stop_evaluation_def time_stop_reason_def time_stop_mark_def)
  have "time_stop_exit env c age limit (s1, b0) =
      eff_then (apply_to_engine env (cd_symbol c) (time_stop_evaluation c age limit)) (eff_ret (time_stop_evaluation c age limit)) (s2, b1)"
    by (simp add: time_stop_exit_def Let_def eff_bind_def bridge_simps bridge_now_simp s2_def b1_def rs split: prod.split sum.split)
  then have run: "eff_then (apply_to_engine env (cd_symbol c) (time_stop_evaluation c age limit)) (eff_ret (time_stop_evaluation c age limit)) (s2, b1) = ((t, b'), r)"
    using assms by simp
  have sent: "on_engine (process_signal env sg) (u, b1) = ((v, b1), d)" using p by (simp add: on_engine_def eff_zoom_def)
  have ex: "cd_symbol c \<in> set (br_exits b1)" by (simp add: b1_def note_row_def)
  have st: "steady s1 u" using steady.trans [OF steady_read steady_read] by (simp add: u_def s2_def)
  have "steady v t \<and> (cd_symbol c \<in> set (br_exits b') \<longleftrightarrow> (\<exists>x. d = ret (Some x) \<and> rd_decision x = APPROVE))"
  proof (cases d)
    case (Inl x)
    then show ?thesis using run sent steady.refl
      by (auto simp: apply_to_engine_def eff_bind_def eff_try_def bridge_now_simp bridge_simps why end_exit_def sg_def [symmetric] u_def)
  next
    case (Inr o1)
    show ?thesis
    proof (cases "outcome_text o1 = ''APPROVE''")
      case True
      then obtain x where "o1 = Some x" "rd_decision x = APPROVE"
        by (cases o1) (simp_all add: outcome_text_def decision_text_approve)
      then show ?thesis using run sent ex Inr True steady.refl
        by (auto simp: apply_to_engine_def eff_bind_def eff_try_def bridge_now_simp why sg_def [symmetric] u_def Let_def)
    next
      case False
      have "\<not> (\<exists>x. o1 = Some x \<and> rd_decision x = APPROVE)" using False by (auto simp: outcome_text_def)
      moreover have "t = v\<lparr> en_reads := Suc (en_reads v) \<rparr> \<and> cd_symbol c \<notin> set (br_exits b')" using run sent Inr False
        by (auto simp: apply_to_engine_def eff_bind_def eff_try_def bridge_now_simp bridge_simps why sg_def [symmetric] u_def Let_def
            note_row_def end_exit_def)
      ultimately show ?thesis using Inr steady_read by auto
    qed
  qed
  then show ?thesis using st p unfolding Let_def sg_def by blast
qed

text \<open>C8: once a position, of the spot portfolio or of the perpetual account, has been held for the time limit, its
  evaluation makes the engine process a reduce-only market order against its side, whatever the thesis says, for the
  quantity of the position as the bridge reads it, in floating point. Whether the order is executed is up to the risk
  engine and the authority; the position is passed over in later evaluations only if the engine approved it, and
  otherwise, after a refusal or an exception, its exit is tried again.\<close>

theorem time_stop_sends_exit:
  assumes "c \<in> set (spot_candidates ps @ perp_candidates qs)"
    and "stop_fires env cfg c (s, b) = ((s1, b1), ret True)" "evaluate_one env cfg c (s, b) = ((t, b'), r)"
  shows "\<exists>sg u v d. steady s u \<and> process_signal env sg u = (v, d) \<and> steady v t \<and>
    s_symbol sg = cd_symbol c \<and> s_reduce_only sg \<and> s_type sg = MARKET \<and>
    ((\<exists>p. (cd_symbol c, p) \<in> set ps \<and> s_market sg = SPOT \<and> s_qty sg = repr_dec \<bar>fround (p_qty p)\<bar> \<and>
        s_side sg = (if 0 < fround (p_qty p) then SELL else BUY)) \<or>
     (\<exists>p. (cd_symbol c, p) \<in> set qs \<and> s_market sg = PERPETUAL \<and> s_qty sg = repr_dec \<bar>fround (mp_qty p)\<bar> \<and>
        s_pside sg = mp_side p \<and> s_side sg = (if mp_side p = LONG then SELL else BUY))) \<and>
    (cd_symbol c \<in> set (br_exits b') \<longleftrightarrow> (\<exists>x. d = ret (Some x) \<and> rd_decision x = APPROVE))"
proof -
  obtain age limit where e: "evaluate_one env cfg c (s, b) = time_stop_exit env c age limit (s1, b1)" "steady s s1"
    using evaluate_one_stop [OF assms(2)] by auto
  from time_stop_hands_over [OF e(1) [symmetric, unfolded assms(3)]] obtain sid why u v d where
    h: "steady s1 u" "process_signal env (bridge_signal (cd_symbol c) (time_stop_evaluation c age limit) sid why) u = (v, d)" "steady v t"
      "cd_symbol c \<in> set (br_exits b') \<longleftrightarrow> (\<exists>x. d = ret (Some x) \<and> rd_decision x = APPROVE)"
    unfolding Let_def by blast
  define sg where "sg = bridge_signal (cd_symbol c) (time_stop_evaluation c age limit) sid why"
  have sg: "s_symbol sg = cd_symbol c" "s_reduce_only sg" "s_type sg = MARKET" "s_market sg = cd_market c" "s_qty sg = repr_dec (cd_qty c)"
      "s_pside sg = cd_side c" "s_side sg = (if cd_side c = LONG then SELL else BUY)"
    by (simp_all add: sg_def bridge_signal_def time_stop_evaluation_def)
  have "(\<exists>p. (cd_symbol c, p) \<in> set ps \<and> s_market sg = SPOT \<and> s_qty sg = repr_dec \<bar>fround (p_qty p)\<bar> \<and>
        s_side sg = (if 0 < fround (p_qty p) then SELL else BUY)) \<or>
     (\<exists>p. (cd_symbol c, p) \<in> set qs \<and> s_market sg = PERPETUAL \<and> s_qty sg = repr_dec \<bar>fround (mp_qty p)\<bar> \<and>
        s_pside sg = mp_side p \<and> s_side sg = (if mp_side p = LONG then SELL else BUY))"
  proof (cases "c \<in> set (spot_candidates ps)")
    case True
    then obtain p where p: "(cd_symbol c, p) \<in> set ps" "cd_market c = SPOT" "cd_side c = (if 0 < fround (p_qty p) then LONG else SHORT)"
        "cd_qty c = \<bar>fround (p_qty p)\<bar>"
      by (auto simp: spot_candidates_def simp del: abs_if split del: if_split)
    then show ?thesis unfolding sg by (intro disjI1 exI [of _ p]) simp
  next
    case False
    then obtain p where p: "(cd_symbol c, p) \<in> set qs" "cd_market c = PERPETUAL" "cd_side c = mp_side p" "cd_qty c = \<bar>fround (mp_qty p)\<bar>"
      using assms(1) by (auto simp: perp_candidates_def simp del: abs_if split del: if_split)
    then show ?thesis unfolding sg by (intro disjI2 exI [of _ p]) simp
  qed
  then show ?thesis using h e(2) sg(1-3) steady.trans unfolding sg_def [symmetric] by blast
qed

subsection \<open>Examples\<close>

definition ex_candidate :: candidate where
  "ex_candidate = \<lparr> cd_symbol = ''BTCUSDT'', cd_market = SPOT, cd_side = LONG, cd_qty = 1, cd_entry = 100, cd_realized = 0 \<rparr>"

definition ex_bridge_config :: "fl option \<Rightarrow> bridge_config" where
  "ex_bridge_config limit = \<lparr> bc_cooldown = 5, bc_perp = False, bc_time_stop = limit, bc_opened = Some position_opened_at \<rparr>"

definition ex_held :: "nat engine" where
  "ex_held = (ex_engine [])\<lparr> en_proj := \<lparr> pj_accounts = [], pj_positions = [\<lparr> pr_account = ''default'',
     pr_view = \<lparr> pv_symbol = ''BTCUSDT'', pv_base = ''BTC'', pv_quote = ''USDT'', pv_qty = 1, pv_avg = Some 100, pv_cost = 100, pv_realized = 0 \<rparr>,
     pr_updated = 0 \<rparr>] \<rparr> \<rparr>"

definition ex_closed :: "(nat engine \<times> bridge) \<times> evaluation list res" where
  "ex_closed = evaluate_active_positions ex_engine_env (ex_bridge_config (Some 0)) (ex_held, bridge_init)"

theorem bridge_only_exits_witness: "exits_only ex_engine_env ex_held (fst (fst ex_closed))"
proof -
  obtain t b r where "ex_closed = ((t, b), r)" by (metis prod.collapse)
  then show ?thesis using bridge_only_exits [of ex_engine_env "ex_bridge_config (Some 0)" ex_held bridge_init t b r]
    by (simp add: ex_closed_def)
qed

definition ex_invalidated :: bridge where
  "ex_invalidated = bridge_init\<lparr> br_thesis := [(''BTCUSDT'', ''THESIS_INVALIDATED'')], br_seen := [(''BTCUSDT'', 0)],
     br_evaluated := [(''BTCUSDT'', - 60000000)] \<rparr>"

theorem brain_exit_raises_witness:
  "snd (evaluate_candidates ex_engine_env (ex_bridge_config (Some 30)) [ex_candidate] (ex_held, ex_invalidated)) = raise AttributeErrorC \<and>
   steady ex_held (fst (fst (evaluate_candidates ex_engine_env (ex_bridge_config (Some 30)) [ex_candidate] (ex_held, ex_invalidated))))"
proof -
  obtain t b r where run: "evaluate_candidates ex_engine_env (ex_bridge_config (Some 30)) [ex_candidate] (ex_held, ex_invalidated) = ((t, b), r)"
    by (metis prod.collapse)
  have c: "0 < cd_qty ex_candidate" "cd_symbol ex_candidate \<notin> set (br_exits ex_invalidated)"
    "get_or (br_thesis ex_invalidated) (cd_symbol ex_candidate) ''THESIS_INTACT'' = ''THESIS_INVALIDATED''"
    "map_of (br_seen ex_invalidated) (cd_symbol ex_candidate) = Some 0" "map_of (br_evaluated ex_invalidated) (cd_symbol ex_candidate) = Some (- 60000000)"
    by (simp_all add: ex_candidate_def ex_invalidated_def bridge_init_def get_or_def)
  have k: "\<not> 30 \<le> total_seconds 0" "\<not> total_seconds 60000001 < 5" by code_simp+
  have e: "ev_clock ex_engine_env = int" "en_reads ex_held = 0" by (simp_all add: ex_engine_env_def ex_held_def ex_engine_def engine_init_def)
  have stop: "stop_fires ex_engine_env (ex_bridge_config (Some 30)) ex_candidate (ex_held, ex_invalidated) =
      ((ex_held\<lparr> en_reads := 1 \<rparr>, ex_invalidated), ret False)"
    using c(4) k(1) by (simp add: stop_fires_def ex_bridge_config_def first_seen_def eff_bind_def bridge_simps bridge_now_simp e)
  have cool: "\<not> on_cooldown (ex_bridge_config (Some 30)) (cd_symbol ex_candidate) (ev_clock ex_engine_env (en_reads (ex_held\<lparr> en_reads := 1 \<rparr>))) ex_invalidated"
    using c(5) k(2) by (simp add: on_cooldown_def e ex_bridge_config_def)
  show ?thesis using brain_exit_raises [OF c(1,2) _ stop cool run] c(3) by (simp add: run del: evaluate_candidates.simps)
qed

theorem time_stop_sends_exit_witness:
  "\<exists>sg u v d. steady ex_held u \<and> process_signal ex_engine_env sg u = (v, d) \<and> s_reduce_only sg \<and> s_symbol sg = ''BTCUSDT'' \<and>
     s_side sg = SELL \<and> s_qty sg = repr_dec 1"
proof -
  define b where "b = bridge_init\<lparr> br_seen := [(''BTCUSDT'', - 60000000)] \<rparr>"
  define p where "p = \<lparr> p_symbol = ''BTCUSDT'', p_base = ''BTC'', p_quote = ''USDT'', p_qty = 1, p_avg = Some 100, p_cost = 100, p_realized = 0, p_updated = None \<rparr>"
  obtain t b' r where run: "evaluate_one ex_engine_env (ex_bridge_config (Some 30)) ex_candidate (ex_held, b) = ((t, b'), r)"
    by (metis prod.collapse)
  have f: "fround 1 = 1" "fround 100 = 100" "fround 0 = 0" by code_simp+
  have c: "ex_candidate \<in> set (spot_candidates [(''BTCUSDT'', p)] @ perp_candidates [])"
    by (simp add: spot_candidates_def ex_candidate_def p_def f dec_or_def)
  have k: "30 \<le> total_seconds 60000000" by code_simp
  have e: "ev_clock ex_engine_env = int" "en_reads ex_held = 0" by (simp_all add: ex_engine_env_def ex_held_def ex_engine_def engine_init_def)
  have "stop_fires ex_engine_env (ex_bridge_config (Some 30)) ex_candidate (ex_held, b) = ((ex_held\<lparr> en_reads := 1 \<rparr>, b), ret True)"
    using k by (simp add: stop_fires_def ex_bridge_config_def first_seen_def eff_bind_def bridge_simps bridge_now_simp e b_def ex_candidate_def)
  from time_stop_sends_exit [OF c this run] show ?thesis by (auto simp: ex_candidate_def p_def f)
qed

end
