(* ===== verification/Alpha_Features.thy ===== *)
theory Alpha_Features
  imports Python_Values
begin

text \<open>
  The market history that the strategies look at: \<open>alpha/market_data_engine.py\<close>, the features that are computed
  from it (\<open>alpha/features.py\<close>) and the regime engine (\<open>alpha/regime.py\<close>). The history of bars is kept in
  order of time, with positive prices where the evidence builder feeds it; the realized volatility is
  never available, whatever the history, because only one return is looked at.
\<close>

subsection \<open>Bars\<close>

record alpha_bar =
  ab_time :: usec
  ab_price :: dec
  ab_volume :: dec
  ab_oi :: "dec option"
  ab_funding :: "dec option"
  ab_basis :: "dec option"

record market_engine =
  me_symbol :: string
  me_max :: nat
  me_bars :: "alpha_bar list"
  me_version :: int

definition market_engine_init :: "string \<Rightarrow> market_engine" where
  "market_engine_init sy = \<lparr> me_symbol = sy, me_max = 500, me_bars = [], me_version = 0 \<rparr>"

text \<open>\<open>xs[-n:]\<close>\<close>

definition last_n :: "nat \<Rightarrow> 'a list \<Rightarrow> 'a list" where
  "last_n n xs = drop (length xs - n) xs"

text \<open>\<open>xs[:-n]\<close> for a positive \<open>n\<close>\<close>

definition butlast_n :: "nat \<Rightarrow> 'a list \<Rightarrow> 'a list" where
  "butlast_n n xs = take (length xs - n) xs"

definition ingest_bar :: "alpha_bar \<Rightarrow> market_engine \<Rightarrow> market_engine \<times> alpha_bar res" where
  "ingest_bar b m =
     (if me_bars m \<noteq> [] \<and> ab_time b \<le> ab_time (last (me_bars m)) then (m, raise ValueError)
      else (m\<lparr> me_bars := last_n (me_max m) (me_bars m @ [b]), me_version := me_version m + 1 \<rparr>, ret b))"

definition window :: "nat \<Rightarrow> market_engine \<Rightarrow> alpha_bar list" where
  "window n m = (if 0 < n then last_n n (me_bars m) else me_bars m)"

definition closes :: "nat \<Rightarrow> market_engine \<Rightarrow> dec list" where
  "closes n m = map ab_price (window n m)"

definition returns_of :: "nat \<Rightarrow> market_engine \<Rightarrow> dec list" where
  "returns_of n m = (let cs = closes (n + 1) m in map2 (\<lambda>a b. ddiv (dsub b a) a) cs (tl cs))"

definition dmean :: "dec list \<Rightarrow> dec" where
  "dmean xs = ddiv (dsum xs) (of_nat (length xs))"

text \<open>\<open>sum((x - mean) ** 2 for x in xs)\<close>\<close>

definition sum_squares :: "dec \<Rightarrow> dec list \<Rightarrow> dec" where
  "sum_squares mean xs = dsum (map (\<lambda>x. dmul (dsub x mean) (dsub x mean)) xs)"

definition sma :: "nat \<Rightarrow> market_engine \<Rightarrow> dec option" where
  "sma n m = (let cs = closes n m in if n \<le> length cs then Some (dmean cs) else None)"

definition ema_from :: "dec \<Rightarrow> dec \<Rightarrow> dec list \<Rightarrow> dec" where
  "ema_from alpha = foldl (\<lambda>e p. dadd (dmul p alpha) (dmul e (dsub 1 alpha)))"

definition ema :: "nat \<Rightarrow> market_engine \<Rightarrow> dec option" where
  "ema n m =
     (let cs = closes 0 m
      in if length cs < n then None
         else Some (ema_from (ddiv 2 (of_nat (n + 1))) (ddiv (dsum (take n cs)) (of_nat n)) (drop n cs)))"

definition realized_vol :: "nat \<Rightarrow> market_engine \<Rightarrow> dec option" where
  "realized_vol n m =
     (let rets = last_n n (returns_of 1 m)
      in if length rets < 2 then None
         else Some (dsqrt (ddiv (sum_squares (dmean rets) rets) (of_nat (length rets - 1)))))"

definition average_volume :: "nat \<Rightarrow> market_engine \<Rightarrow> dec option" where
  "average_volume n m = (let vs = map ab_volume (window n m) in if vs \<noteq> [] then Some (dmean vs) else None)"

definition donchian :: "nat \<Rightarrow> nat \<Rightarrow> market_engine \<Rightarrow> (dec \<times> dec) option" where
  "donchian n offset m =
     (let ps = map ab_price (butlast_n offset (window (n + offset) m))
      in case ps of [] \<Rightarrow> None | p # qs \<Rightarrow> Some (foldl min p qs, foldl max p qs))"

definition zscore :: "nat \<Rightarrow> market_engine \<Rightarrow> dec option" where
  "zscore n m =
     (let cs = closes n m
      in if length cs < n then None
         else (let mean = dmean cs; var = ddiv (sum_squares mean cs) (of_nat (length cs))
               in Some (if var = 0 then 0 else ddiv (dsub (last cs) mean) (dsqrt var))))"

subsection \<open>Features\<close>

record feature =
  fe_symbol :: string
  fe_time :: usec
  fe_version :: int
  fe_price :: dec
  fe_return1 :: dec
  fe_return5 :: dec
  fe_return20 :: dec
  fe_vol :: dec
  fe_volume :: dec
  fe_ema20 :: dec
  fe_ema50 :: dec
  fe_zscore :: dec
  fe_low50 :: dec
  fe_high50 :: dec
  fe_oi :: dec
  fe_funding :: dec
  fe_basis :: dec
  fe_has_funding :: bool
  fe_has_basis :: bool
  fe_has_oi :: bool

definition return_over :: "nat \<Rightarrow> market_engine \<Rightarrow> dec" where
  "return_over n m =
     (let cs = closes (n + 1) m
      in if length cs < n + 1 then 0
         else (let c0 = cs ! (length cs - 1 - n) in ddiv (dsub (last cs) c0) c0))"

definition compute_features :: "market_engine \<Rightarrow> string \<Rightarrow> usec \<Rightarrow> feature res" where
  "compute_features m sy ts =
     (if me_bars m = [] then raise ValueError
      else
        (let b = last (me_bars m); price = ab_price b; avg = dec_or (average_volume 20 m) 1; band = donchian 50 1 m
         in ret \<lparr> fe_symbol = sy, fe_time = ts, fe_version = me_version m, fe_price = price, fe_return1 = return_over 1 m,
              fe_return5 = return_over 5 m, fe_return20 = return_over 20 m, fe_vol = dec_or (realized_vol 20 m) 0,
              fe_volume = (if 0 < avg then ddiv (ab_volume b) avg else 1), fe_ema20 = dec_or (ema 20 m) price,
              fe_ema50 = dec_or (ema 50 m) price, fe_zscore = dec_or (zscore 20 m) 0, fe_low50 = dec_or (map_option fst band) price,
              fe_high50 = dec_or (map_option snd band) price, fe_oi = dec_or (ab_oi b) 0, fe_funding = dec_or (ab_funding b) 0,
              fe_basis = dec_or (ab_basis b) 0, fe_has_funding = ab_funding b \<noteq> None, fe_has_basis = ab_basis b \<noteq> None,
              fe_has_oi = ab_oi b \<noteq> None \<rparr>))"

subsection \<open>Regimes\<close>

datatype market_regime = BULL | BEAR | RANGE | HIGH_VOL | EXTREME_RISK

fun regime_text :: "market_regime \<Rightarrow> string" where
  "regime_text BULL = ''BULL''"
| "regime_text BEAR = ''BEAR''"
| "regime_text RANGE = ''RANGE''"
| "regime_text HIGH_VOL = ''HIGH_VOL''"
| "regime_text EXTREME_RISK = ''EXTREME_RISK''"

record regime_output =
  ro_symbol :: string
  ro_time :: usec
  ro_version :: int
  ro_regime :: market_regime
  ro_reasons :: "string list"
  ro_trend :: fl
  ro_vol :: fl

record regime_engine =
  re_high :: dec
  re_extreme :: dec
  re_hist :: "(string \<times> dec) list"
  re_version :: int

definition regime_engine_init :: regime_engine where
  "regime_engine_init = \<lparr> re_high = 8 / 10, re_extreme = 95 / 100, re_hist = [], re_version = 0 \<rparr>"

definition vols_of :: "string \<Rightarrow> regime_engine \<Rightarrow> dec list" where
  "vols_of sy e = map snd (filter (\<lambda>h. fst h = sy) (re_hist e))"

definition percentile_for :: "string \<Rightarrow> dec \<Rightarrow> regime_engine \<Rightarrow> fl" where
  "percentile_for sy vol e =
     (let vs = vols_of sy e
      in if vs = [] then 1 / 2 else fdiv (of_nat (length (filter (\<lambda>v. v \<le> vol) vs))) (of_nat (length vs)))"

definition record_vol :: "string \<Rightarrow> dec \<Rightarrow> regime_engine \<Rightarrow> regime_engine" where
  "record_vol sy vol e = e\<lparr> re_hist := re_hist e @ [(sy, vol)] \<rparr>"

definition regime_of :: "regime_engine \<Rightarrow> rat \<Rightarrow> fl \<Rightarrow> market_regime \<times> string" where
  "regime_of e pct trend =
     (if re_extreme e \<le> pct then (EXTREME_RISK, ''EXTREME_VOL'')
      else if re_high e \<le> pct then (HIGH_VOL, ''HIGH_VOL'')
      else if fround (1 / 100) < trend then (BULL, ''TREND_UP'')
      else if trend < - fround (1 / 100) then (BEAR, ''TREND_DOWN'')
      else (RANGE, ''RANGE_BOUND''))"

definition classify :: "feature \<Rightarrow> dec option \<Rightarrow> regime_engine \<Rightarrow> regime_engine \<times> regime_output" where
  "classify f given e =
     (let trend = fround (if 0 < fe_ema50 f then ddiv (dsub (fe_ema20 f) (fe_ema50 f)) (fe_ema50 f) else 0);
          e1 = record_vol (fe_symbol f) (fe_vol f) (e\<lparr> re_version := re_version e + 1 \<rparr>);
          pct = (case given of Some p \<Rightarrow> p
                 | None \<Rightarrow> if length (vols_of (fe_symbol f) e1) < 10 then 1 / 2 else percentile_for (fe_symbol f) (fe_vol f) e1);
          (regime, reason) = regime_of e1 pct trend
      in (e1, \<lparr> ro_symbol = fe_symbol f, ro_time = fe_time f, ro_version = re_version e1, ro_regime = regime, ro_reasons = [reason],
                ro_trend = trend, ro_vol = fround (fe_vol f) \<rparr>))"

subsection \<open>The history\<close>

lemma last_n_length [simp]: "length (last_n n xs) = min n (length xs)"
  by (simp add: last_n_def)

lemma last_n_subset: "set (last_n n xs) \<subseteq> set xs"
  by (simp add: last_n_def set_drop_subset)

lemma sorted_last_n: "sorted_wrt R xs \<Longrightarrow> sorted_wrt R (last_n n xs)"
  by (simp add: last_n_def sorted_wrt_drop)

text \<open>The bars are in strict order of time, no more than the limit, and have positive prices and volumes.\<close>

definition bars_ok :: "market_engine \<Rightarrow> bool" where
  "bars_ok m \<longleftrightarrow> sorted_wrt (\<lambda>a b. ab_time a < ab_time b) (me_bars m) \<and> length (me_bars m) \<le> me_max m \<and>
     (\<forall>b \<in> set (me_bars m). 0 < ab_price b \<and> 0 < ab_volume b)"

lemma bars_ok_init: "bars_ok (market_engine_init sy)"
  by (simp add: bars_ok_def market_engine_init_def)

lemma sorted_wrt_le_last:
  assumes "sorted_wrt (\<lambda>a b. ab_time a < ab_time b) xs" "x \<in> set xs"
  shows "ab_time x \<le> ab_time (last xs)"
  using assms by (cases xs rule: rev_cases) (auto simp: sorted_wrt_append)

lemma ingest_ok:
  assumes "bars_ok m" "0 < ab_price b" "0 < ab_volume b"
  shows "bars_ok (fst (ingest_bar b m))"
proof (cases "me_bars m \<noteq> [] \<and> ab_time b \<le> ab_time (last (me_bars m))")
  case False
  have "sorted_wrt (\<lambda>a b. ab_time a < ab_time b) (me_bars m @ [b])"
    using assms(1) False sorted_wrt_le_last [of "me_bars m"] by (fastforce simp: bars_ok_def sorted_wrt_append)
  then show ?thesis using assms last_n_subset [of "me_max m" "me_bars m @ [b]"]
    by (auto simp: bars_ok_def ingest_bar_def False sorted_last_n)
qed (use assms(1) in \<open>simp add: ingest_bar_def\<close>)

lemma foldl_min_max:
  fixes p :: dec
  shows "foldl min p qs \<le> p" "p \<le> foldl max p qs"
proof (induction qs arbitrary: p)
  case (Cons q qs)
  { case 1 show ?case using Cons(1) [of "min p q"] by simp }
  { case 2 show ?case using Cons(2) [of "max p q"] by simp }
qed simp_all

lemma donchian_ordered:
  assumes "donchian n k m = Some (lo, hi)"
  shows "lo \<le> hi"
proof (cases "map ab_price (butlast_n k (window (n + k) m))")
  case (Cons p qs)
  then have "lo = foldl min p qs" "hi = foldl max p qs" using assms by (auto simp: donchian_def)
  then show ?thesis using foldl_min_max [of p qs] by simp
qed (use assms in \<open>simp add: donchian_def\<close>)

subsection \<open>Volatility is never available\<close>

lemma returns_of_length: "length (returns_of n m) \<le> n"
  by (simp add: returns_of_def closes_def window_def Let_def)

lemma realized_vol_missing: "realized_vol n m = None"
  using returns_of_length [of 1 m] by (simp add: realized_vol_def Let_def)

lemma no_volatility: "compute_features m sy ts = ret f \<Longrightarrow> fe_vol f = 0 \<and> fe_symbol f = sy"
  by (auto simp: compute_features_def realized_vol_missing dec_or_def Let_def split: if_splits)

text \<open>So every volatility on record is zero, and every new one is at the top of the record.\<close>

definition calm :: "regime_engine \<Rightarrow> bool" where
  "calm e \<longleftrightarrow> re_extreme e \<le> 1 \<and> (\<forall>h \<in> set (re_hist e). snd h = 0)"

lemma classify_simps [simp]:
  "re_extreme (fst (classify f g e)) = re_extreme e" "re_hist (fst (classify f g e)) = re_hist e @ [(fe_symbol f, fe_vol f)]"
  by (simp_all add: classify_def Let_def record_vol_def split: prod.split)

lemma classify_calm:
  assumes "calm e" "fe_vol f = 0"
  shows "calm (fst (classify f g e))"
  using assms by (auto simp: calm_def)

lemma classify_extreme:
  assumes "calm e" "fe_vol f = 0" "9 \<le> length (vols_of (fe_symbol f) e)"
  shows "ro_regime (snd (classify f None e)) = EXTREME_RISK"
proof -
  define e1 where "e1 = record_vol (fe_symbol f) (fe_vol f) (e\<lparr> re_version := re_version e + 1 \<rparr>)"
  have vs: "vols_of (fe_symbol f) e1 = vols_of (fe_symbol f) e @ [0]" using assms(2) by (simp add: e1_def vols_of_def record_vol_def)
  have "\<forall>v \<in> set (vols_of (fe_symbol f) e1). v = 0" using assms(1) by (auto simp: vs vols_of_def [of _ e] calm_def)
  then have "filter (\<lambda>v. v \<le> fe_vol f) (vols_of (fe_symbol f) e1) = vols_of (fe_symbol f) e1"
    using assms(2) by (auto simp: filter_id_conv)
  then have "percentile_for (fe_symbol f) (fe_vol f) e1 = 1"
    by (simp add: percentile_for_def vs fdiv_def)
  moreover have "\<not> length (vols_of (fe_symbol f) e1) < 10" using assms(3) by (simp add: vs)
  moreover have "re_extreme e1 \<le> 1" using assms(1) by (simp add: calm_def e1_def record_vol_def)
  ultimately show ?thesis by (simp add: classify_def Let_def e1_def [symmetric] regime_of_def)
qed

end
