(* ===== verification/Alpha_Strategies.thy ===== *)
theory Alpha_Strategies
  imports Alpha_Features
begin

text \<open>
  \<open>alpha/sub_strategy/\<close>: the ten strategies. Each looks at the features only and answers with a side, a confidence
  and reasons. The lemmas bound the confidence and show that a side is only taken with confidence.
\<close>

subsection \<open>The contract\<close>

datatype alpha_side = GoLong | GoShort | NoTrade

fun side_text :: "alpha_side \<Rightarrow> string" where
  "side_text GoLong = ''LONG''"
| "side_text GoShort = ''SHORT''"
| "side_text NoTrade = ''NO_TRADE''"

record alpha_context =
  ac_symbol :: string
  ac_time :: usec
  ac_feature :: feature
  ac_regime :: regime_output

record alpha_signal =
  as_strategy :: string
  as_version :: string
  as_symbol :: string
  as_time :: usec
  as_side :: alpha_side
  as_conf :: dec
  as_reasons :: "string list"
  as_meta :: meta

definition alpha_signal_of :: "string \<Rightarrow> alpha_context \<Rightarrow> alpha_side \<Rightarrow> dec \<Rightarrow> string list \<Rightarrow> meta \<Rightarrow> alpha_signal" where
  "alpha_signal_of name c side conf reasons m =
     \<lparr> as_strategy = name, as_version = ''0.1.0'', as_symbol = ac_symbol c, as_time = ac_time c, as_side = side, as_conf = conf,
       as_reasons = reasons, as_meta = m \<rparr>"

text \<open>The branches of an \<open>evaluate\<close> method: the long setup, the short setup, neither.\<close>

definition two_sided ::
  "string \<Rightarrow> alpha_context \<Rightarrow> bool \<times> dec \<times> string list \<Rightarrow> bool \<times> dec \<times> string list \<Rightarrow> string list \<Rightarrow> meta \<Rightarrow> alpha_signal" where
  "two_sided name c up down none m =
     (if fst up then alpha_signal_of name c GoLong (fst (snd up)) (snd (snd up)) m
      else if fst down then alpha_signal_of name c GoShort (fst (snd down)) (snd (snd down)) m
      else alpha_signal_of name c NoTrade 0 none m)"

definition trend_pct :: "feature \<Rightarrow> dec" where
  "trend_pct f = (if 0 < fe_ema50 f then ddiv (dsub (fe_ema20 f) (fe_ema50 f)) (fe_ema50 f) else 0)"

definition near :: "dec \<Rightarrow> dec \<Rightarrow> dec \<Rightarrow> bool" where
  "near price level tolerance \<longleftrightarrow> 0 < level \<and> ddiv (dabs (dsub price level)) level \<le> tolerance"

text \<open>\<open>min(cap, base + x * factor)\<close>\<close>

definition capped :: "dec \<Rightarrow> dec \<Rightarrow> dec \<Rightarrow> dec \<Rightarrow> dec" where
  "capped cap base x factor = min cap (dadd base (dmul x factor))"

subsection \<open>The canonical strategies\<close>

definition trend_following :: "dec \<Rightarrow> alpha_context \<Rightarrow> alpha_signal" where
  "trend_following threshold c =
     (let t = trend_pct (ac_feature c)
      in two_sided ''trend_following'' c (threshold < t, capped (9 / 10) (5 / 10) t 100, [''EMA_BULL''])
           (t < dneg threshold, capped (9 / 10) (5 / 10) (dneg t) 100, [''EMA_BEAR'']) [''EMA_FLAT''] [(''trend'', JDec t)])"

definition momentum :: "dec \<Rightarrow> alpha_context \<Rightarrow> alpha_signal" where
  "momentum threshold c =
     (let mom = fe_return5 (ac_feature c)
      in two_sided ''momentum'' c (threshold < mom, capped (85 / 100) (5 / 10) mom 40, [''MOMENTUM_POS''])
           (mom < dneg threshold, capped (85 / 100) (5 / 10) (dneg mom) 40, [''MOMENTUM_NEG'']) [''MOMENTUM_FLAT'']
           [(''momentum_5'', JDec mom)])"

definition breakout :: "dec \<Rightarrow> alpha_context \<Rightarrow> alpha_signal" where
  "breakout buffer c =
     (let f = ac_feature c
      in two_sided ''breakout'' c (0 < fe_high50 f \<and> dmul (fe_high50 f) (dadd 1 buffer) < fe_price f, 8 / 10, [''BREAKOUT_UP''])
           (0 < fe_low50 f \<and> fe_price f < dmul (fe_low50 f) (dsub 1 buffer), 8 / 10, [''BREAKOUT_DOWN'']) [''NO_BREAKOUT'']
           [(''range'', JDec (fe_price f))])"

definition mean_reversion :: "dec \<Rightarrow> alpha_context \<Rightarrow> alpha_signal" where
  "mean_reversion entry_z c =
     (let z = fe_zscore (ac_feature c)
      in two_sided ''mean_reversion'' c (z < dneg entry_z, capped (8 / 10) (45 / 100) (dneg z) (2 / 10), [''OVERSOLD''])
           (entry_z < z, capped (8 / 10) (45 / 100) z (2 / 10), [''OVERBOUGHT'']) [''Z_WITHIN_BAND''] [(''zscore'', JDec z)])"

definition funding_basis :: "dec \<Rightarrow> alpha_context \<Rightarrow> alpha_signal" where
  "funding_basis threshold c =
     (let f = ac_feature c; score = dadd (fe_funding f) (fe_basis f)
      in if \<not> fe_has_funding f \<or> \<not> fe_has_basis f then
           alpha_signal_of ''funding_basis'' c NoTrade 0
             ((if fe_has_funding f then [] else [''FUNDING_DATA_UNAVAILABLE'']) @ (if fe_has_basis f then [] else [''BASIS_DATA_UNAVAILABLE''])) []
         else two_sided ''funding_basis'' c (score < dneg threshold, capped (75 / 100) (4 / 10) (dneg score) 300, [''FUNDING_LONG_BIAS''])
           (threshold < score, capped (75 / 100) (4 / 10) score 300, [''FUNDING_SHORT_BIAS'']) [''FUNDING_NEUTRAL'']
           [(''funding'', JDec (fe_funding f)), (''basis'', JDec (fe_basis f))])"

subsection \<open>The live playbook\<close>

definition trend_pullback :: "dec \<Rightarrow> dec \<Rightarrow> alpha_context \<Rightarrow> alpha_signal" where
  "trend_pullback threshold zone c =
     (let f = ac_feature c; t = trend_pct f; conf = capped (88 / 100) (55 / 100) (dabs t) 35
      in two_sided ''trend_pullback'' c
           (threshold < t \<and> 0 < fe_return20 f \<and> fe_ema50 f \<le> fe_price f \<and> fe_price f \<le> dmul (fe_ema20 f) (dadd 1 zone) \<and>
              fe_zscore f \<le> 75 / 100, conf, [''TREND_UP_INTACT'', ''PULLBACK_TO_VALUE_ZONE''])
           (t < dneg threshold \<and> fe_return20 f < 0 \<and> fe_price f \<le> fe_ema50 f \<and> dmul (fe_ema20 f) (dsub 1 zone) \<le> fe_price f \<and>
              - (75 / 100) \<le> fe_zscore f, conf, [''TREND_DOWN_INTACT'', ''PULLBACK_TO_VALUE_ZONE''])
           [''NO_VALID_TREND_PULLBACK''] [(''trend_pct'', JDec t), (''zscore_20'', JDec (fe_zscore f))])"

definition breakout_retest :: "dec \<Rightarrow> alpha_context \<Rightarrow> alpha_signal" where
  "breakout_retest tolerance c =
     (let f = ac_feature c; conf = capped (86 / 100) (54 / 100) (min (fe_volume f) 2) (8 / 100)
      in two_sided ''breakout_retest'' c
           (near (fe_price f) (fe_high50 f) tolerance \<and> 0 < fe_return20 f \<and> 0 < fe_return1 f \<and> 8 / 10 \<le> fe_volume f \<and>
              fe_zscore f < 25 / 10, conf, [''PRIOR_HIGH_RETEST_PROXY'', ''RECLAIM_MOMENTUM_UP''])
           (near (fe_price f) (fe_low50 f) tolerance \<and> fe_return20 f < 0 \<and> fe_return1 f < 0 \<and> 8 / 10 \<le> fe_volume f \<and>
              - (25 / 10) < fe_zscore f, conf, [''PRIOR_LOW_RETEST_PROXY'', ''RECLAIM_MOMENTUM_DOWN''])
           [''NO_VALID_BREAKOUT_RETEST'']
           [(''donchian_high_50'', JDec (fe_high50 f)), (''donchian_low_50'', JDec (fe_low50 f)), (''proxy'', JStr ''close_based_retest'')])"

definition liquidity_sweep :: "dec \<Rightarrow> alpha_context \<Rightarrow> alpha_signal" where
  "liquidity_sweep tolerance c =
     (let f = ac_feature c; conf = capped (80 / 100) (50 / 100) (min (dabs (fe_zscore f)) 3) (8 / 100)
      in two_sided ''liquidity_sweep'' c
           (near (fe_price f) (fe_low50 f) tolerance \<and> fe_zscore f \<le> - (15 / 10) \<and> 0 < fe_return1 f \<and> 12 / 10 \<le> fe_volume f,
              conf, [''LOW_BOUNDARY_SWEEP_PROXY'', ''CLOSE_RECLAIM_UP'', ''SWEEP_PROXY_CLOSE_ONLY''])
           (near (fe_price f) (fe_high50 f) tolerance \<and> 15 / 10 \<le> fe_zscore f \<and> fe_return1 f < 0 \<and> 12 / 10 \<le> fe_volume f,
              conf, [''HIGH_BOUNDARY_SWEEP_PROXY'', ''CLOSE_RECLAIM_DOWN'', ''SWEEP_PROXY_CLOSE_ONLY''])
           [''NO_VALID_LIQUIDITY_SWEEP'', ''SWEEP_PROXY_CLOSE_ONLY''] [(''proxy'', JStr ''no_wick_or_orderflow_data'')])"

definition support_resistance_reversal :: "dec \<Rightarrow> alpha_context \<Rightarrow> alpha_signal" where
  "support_resistance_reversal tolerance c =
     (let f = ac_feature c; conf = capped (82 / 100) (52 / 100) (min (dabs (fe_zscore f)) (25 / 10)) (8 / 100)
      in two_sided ''support_resistance_reversal'' c
           (near (fe_price f) (fe_low50 f) tolerance \<and> fe_zscore f \<le> - (75 / 100) \<and> 0 < fe_return1 f, conf, [''SUPPORT_ZONE_TEST'', ''REJECTION_UP''])
           (near (fe_price f) (fe_high50 f) tolerance \<and> 75 / 100 \<le> fe_zscore f \<and> fe_return1 f < 0, conf, [''RESISTANCE_ZONE_TEST'', ''REJECTION_DOWN''])
           [''NO_VALID_SR_REVERSAL''] [])"

definition market_structure :: "dec \<Rightarrow> alpha_context \<Rightarrow> alpha_signal" where
  "market_structure threshold c =
     (let f = ac_feature c; t = trend_pct f; conf = capped (90 / 100) (55 / 100) (dabs t) 35
      in two_sided ''market_structure'' c
           (threshold < t \<and> 0 < fe_return5 f \<and> 0 < fe_return20 f \<and> fe_ema20 f \<le> fe_price f \<and> fe_zscore f < 25 / 10,
              conf, [''BULL_STRUCTURE_PROXY'', ''MULTI_HORIZON_CONFIRMATION''])
           (t < dneg threshold \<and> fe_return5 f < 0 \<and> fe_return20 f < 0 \<and> fe_price f \<le> fe_ema20 f \<and> - (25 / 10) < fe_zscore f,
              conf, [''BEAR_STRUCTURE_PROXY'', ''MULTI_HORIZON_CONFIRMATION''])
           [''NO_VALID_MARKET_STRUCTURE''] [(''trend_pct'', JDec t), (''proxy'', JStr ''ema_and_returns'')])"

text \<open>The default pool, with the default parameters, in the order of the evidence builder.\<close>

definition strategy_pool :: "(string \<times> (alpha_context \<Rightarrow> alpha_signal)) list" where
  "strategy_pool =
     [(''trend_following'', trend_following (2 / 1000)), (''momentum'', momentum (4 / 1000)), (''breakout'', breakout (2 / 10000)),
      (''mean_reversion'', mean_reversion (15 / 10)), (''funding_basis'', funding_basis (5 / 10000)),
      (''trend_pullback'', trend_pullback (4 / 1000) (6 / 1000)), (''breakout_retest'', breakout_retest (6 / 1000)),
      (''liquidity_sweep'', liquidity_sweep (4 / 1000)), (''support_resistance_reversal'', support_resistance_reversal (6 / 1000)),
      (''market_structure'', market_structure (3 / 1000))]"

subsection \<open>Confidence\<close>

lemma dround_constants:
  "dround (1 / 2) = 1 / 2" "dround (9 / 20) = 9 / 20" "dround (2 / 5) = 2 / 5" "dround (11 / 20) = 11 / 20"
  "dround (27 / 50) = 27 / 50" "dround (13 / 25) = 13 / 25"
  "dround (1 / 500) = 1 / 500" "dround (1 / 250) = 1 / 250" "dround (3 / 2) = 3 / 2" "dround (1 / 2000) = 1 / 2000" "dround (3 / 1000) = 3 / 1000"
  by (rule dround_places [of 4]; simp add: places_def)+

lemma capped_bounds:
  assumes "0 \<le> x" "0 \<le> factor" "dround base = base"
  shows "min cap base \<le> capped cap base x factor" "capped cap base x factor \<le> cap"
proof -
  have "base \<le> dadd base (dmul x factor)" unfolding dadd_def
    using assms dmul_nonneg by (intro dec.fixed_le_rnd) simp_all
  then show "min cap base \<le> capped cap base x factor" by (simp add: capped_def min.coboundedI2)
qed (simp add: capped_def)

text \<open>A side is taken with a confidence in \<open>(0, 0.9]\<close>, and none with confidence 0.\<close>

definition sure :: "alpha_signal \<Rightarrow> bool" where
  "sure s \<longleftrightarrow> (if as_side s = NoTrade then as_conf s = 0 else 0 < as_conf s \<and> as_conf s \<le> 9 / 10)"

lemma sure_none: "sure (alpha_signal_of name c NoTrade 0 none m)"
  by (simp add: sure_def alpha_signal_of_def)

lemma sure_two_sided:
  assumes "up \<Longrightarrow> 0 < cu \<and> cu \<le> 9 / 10" "down \<Longrightarrow> 0 < cd \<and> cd \<le> 9 / 10"
  shows "sure (two_sided name c (up, cu, ru) (down, cd, rd) none m)"
  using assms by (simp add: sure_def two_sided_def alpha_signal_of_def)

lemma capped_sure:
  assumes "0 \<le> x" "0 \<le> factor" "dround base = base" "0 < base" "0 < cap" "cap \<le> 9 / 10"
  shows "0 < capped cap base x factor \<and> capped cap base x factor \<le> 9 / 10"
  using capped_bounds [OF assms(1-3), of cap] assms(4-6) by (auto simp: min_def split: if_splits)

lemma dneg_threshold: "x < dneg t \<Longrightarrow> dround t = t \<Longrightarrow> 0 \<le> t \<Longrightarrow> 0 \<le> dneg x"
  using dec.rnd_nonneg [of "- x"] by (simp add: dneg_def dec.rnd_uminus)

lemma strategies_sure:
  assumes "(name, s) \<in> set strategy_pool"
  shows "sure (s c)"
proof -
  note rules = sure_two_sided capped_sure sure_none
  have "sure (trend_following (2 / 1000) c)" unfolding trend_following_def Let_def
    by (intro rules) (auto simp: dround_constants dest: dneg_threshold)
  moreover have "sure (momentum (4 / 1000) c)" unfolding momentum_def Let_def
    by (intro rules) (auto simp: dround_constants dest: dneg_threshold)
  moreover have "sure (breakout (2 / 10000) c)" unfolding breakout_def Let_def
    by (intro rules) auto
  moreover have "sure (mean_reversion (15 / 10) c)" unfolding mean_reversion_def Let_def
    by (intro rules) (auto simp: dround_constants dest: dneg_threshold)
  moreover have "sure (funding_basis (5 / 10000) c)" unfolding funding_basis_def Let_def
    by (cases "\<not> fe_has_funding (ac_feature c) \<or> \<not> fe_has_basis (ac_feature c)")
      (simp_all only: if_True if_False, (intro rules; auto simp: dround_constants dest: dneg_threshold)+)
  moreover have "sure (trend_pullback (4 / 1000) (6 / 1000) c)" unfolding trend_pullback_def Let_def
    by (intro rules) (auto simp: dround_constants)
  moreover have "sure (breakout_retest (6 / 1000) c)" unfolding breakout_retest_def Let_def
    by (intro rules) (auto simp: dround_constants)
  moreover have "sure (liquidity_sweep (4 / 1000) c)" unfolding liquidity_sweep_def Let_def
    by (intro rules) (auto simp: dround_constants)
  moreover have "sure (support_resistance_reversal (6 / 1000) c)" unfolding support_resistance_reversal_def Let_def
    by (intro rules) (auto simp: dround_constants)
  moreover have "sure (market_structure (3 / 1000) c)" unfolding market_structure_def Let_def
    by (intro rules) (auto simp: dround_constants)
  ultimately show ?thesis using assms unfolding strategy_pool_def by auto
qed

subsection \<open>Long and short\<close>

text \<open>The market seen in a mirror: prices reflected at the slow average, signed features negated.\<close>

definition mirror :: "feature \<Rightarrow> feature" where
  "mirror f = f\<lparr> fe_price := 2 * fe_ema50 f - fe_price f, fe_ema20 := 2 * fe_ema50 f - fe_ema20 f, fe_return1 := - fe_return1 f,
     fe_return5 := - fe_return5 f, fe_return20 := - fe_return20 f, fe_zscore := - fe_zscore f, fe_funding := - fe_funding f,
     fe_basis := - fe_basis f \<rparr>"

lemma mirror_fields [simp]:
  "fe_price (mirror f) = 2 * fe_ema50 f - fe_price f" "fe_ema20 (mirror f) = 2 * fe_ema50 f - fe_ema20 f" "fe_ema50 (mirror f) = fe_ema50 f"
  "fe_return5 (mirror f) = - fe_return5 f" "fe_return20 (mirror f) = - fe_return20 f" "fe_zscore (mirror f) = - fe_zscore f"
  "fe_funding (mirror f) = - fe_funding f" "fe_basis (mirror f) = - fe_basis f" "fe_has_funding (mirror f) = fe_has_funding f"
  "fe_has_basis (mirror f) = fe_has_basis f"
  by (simp_all add: mirror_def)

fun other_side :: "alpha_side \<Rightarrow> alpha_side" where
  "other_side GoLong = GoShort"
| "other_side GoShort = GoLong"
| "other_side NoTrade = NoTrade"

definition mirrored :: "alpha_signal \<Rightarrow> alpha_signal \<Rightarrow> bool" where
  "mirrored s t \<longleftrightarrow> as_side t = other_side (as_side s) \<and> as_conf t = as_conf s"

definition mirror_context :: "alpha_context \<Rightarrow> alpha_context" where
  "mirror_context c = c\<lparr> ac_feature := mirror (ac_feature c) \<rparr>"

lemma mirrored_two_sided:
  assumes "up' = down" "down' = up" "\<not> (up \<and> down)" "up \<Longrightarrow> cd' = cu" "down \<Longrightarrow> cu' = cd"
  shows "mirrored (two_sided n c (up, cu, ru) (down, cd, rd) none m) (two_sided n' c' (up', cu', ru') (down', cd', rd') none' m')"
  using assms by (simp add: mirrored_def two_sided_def alpha_signal_of_def)

lemma computed_rounded:
  assumes "compute_features m sy ts = ret f"
  shows "dround (fe_return5 f) = fe_return5 f" "dround (fe_zscore f) = fe_zscore f"
  using assms by (auto simp: compute_features_def return_over_def zscore_def dec_or_def Let_def split: if_splits)

lemma trend_pct_rounded [simp]: "dround (trend_pct f) = trend_pct f"
  by (simp add: trend_pct_def)

lemma trend_pct_mirror: "trend_pct (mirror f) = - trend_pct f"
proof -
  have "dsub (2 * fe_ema50 f - fe_ema20 f) (fe_ema50 f) = - dsub (fe_ema20 f) (fe_ema50 f)"
    using dec.rnd_diff_swap [of "fe_ema50 f" "fe_ema20 f"] by (simp add: dsub_def)
  then show ?thesis by (simp add: trend_pct_def ddiv_def dec.rnd_uminus)
qed

lemma dneg_fixed: "dround x = x \<Longrightarrow> dneg x = - x"
  by (simp add: dneg_def dec.rnd_uminus)

lemma dneg_fixed': "dround x = x \<Longrightarrow> dneg (- x) = x"
  by (simp add: dneg_def)

lemma score_mirror: "dadd (- a) (- b) = - dadd a b"
  using dec.rnd_uminus [of "a + b"] by (simp add: dadd_def)

lemma funding_basis_data:
  assumes "fe_has_funding (ac_feature c)" "fe_has_basis (ac_feature c)"
  shows "funding_basis threshold c =
     (let score = dadd (fe_funding (ac_feature c)) (fe_basis (ac_feature c))
      in two_sided ''funding_basis'' c (score < dneg threshold, capped (75 / 100) (4 / 10) (dneg score) 300, [''FUNDING_LONG_BIAS''])
           (threshold < score, capped (75 / 100) (4 / 10) score 300, [''FUNDING_SHORT_BIAS'']) [''FUNDING_NEUTRAL'']
           [(''funding'', JDec (fe_funding (ac_feature c))), (''basis'', JDec (fe_basis (ac_feature c)))])"
  using assms by (simp add: funding_basis_def Let_def)

text \<open>The contract of the strategies calls long and short symmetric. For trend following, momentum, mean
  reversion, funding and market structure it is so: on the mirrored features each takes the other side
  with the same confidence.\<close>

theorem strategies_symmetric:
  assumes "compute_features m sy ts = ret (ac_feature c)"
    and "(name, s) \<in> set strategy_pool" "name \<in> {''trend_following'', ''momentum'', ''mean_reversion'', ''funding_basis'', ''market_structure''}"
  shows "mirrored (s c) (s (mirror_context c))"
proof -
  note r = computed_rounded [OF assms(1)]
  note eqs = mirror_context_def trend_pct_mirror dneg_fixed dneg_fixed' dround_constants
  have "mirrored (trend_following (2 / 1000) c) (trend_following (2 / 1000) (mirror_context c))"
    unfolding trend_following_def Let_def by (rule mirrored_two_sided) (auto simp: eqs)
  moreover have "mirrored (momentum (4 / 1000) c) (momentum (4 / 1000) (mirror_context c))"
    unfolding momentum_def Let_def by (rule mirrored_two_sided) (auto simp: eqs r)
  moreover have "mirrored (mean_reversion (15 / 10) c) (mean_reversion (15 / 10) (mirror_context c))"
    unfolding mean_reversion_def Let_def by (rule mirrored_two_sided) (auto simp: eqs r)
  moreover have "mirrored (funding_basis (5 / 10000) c) (funding_basis (5 / 10000) (mirror_context c))"
  proof (cases "\<not> fe_has_funding (ac_feature c) \<or> \<not> fe_has_basis (ac_feature c)")
    case True
    then show ?thesis by (auto simp: funding_basis_def mirror_context_def mirrored_def alpha_signal_of_def)
  next
    case False
    then have d: "fe_has_funding (ac_feature d)" "fe_has_basis (ac_feature d)" if "d \<in> {c, mirror_context c}" for d
      using that by (auto simp: mirror_context_def)
    show ?thesis unfolding funding_basis_data [OF d [of c, OF insertI1]] funding_basis_data [OF d [of "mirror_context c", OF insertI2, OF insertI1]] Let_def
      by (intro mirrored_two_sided) (auto simp: eqs score_mirror)
  qed
  moreover have "mirrored (market_structure (3 / 1000) c) (market_structure (3 / 1000) (mirror_context c))"
    unfolding market_structure_def Let_def
    by (rule mirrored_two_sided) (auto simp: eqs dabs_def)
  ultimately show ?thesis using assms(2,3) unfolding strategy_pool_def by auto
qed

subsection \<open>Examples\<close>

text \<open>Bars a minute apart, one price higher each.\<close>

definition ex_bar :: "nat \<Rightarrow> alpha_bar" where
  "ex_bar k = \<lparr> ab_time = int k * 60000000, ab_price = of_nat (100 + k), ab_volume = 1, ab_oi = None, ab_funding = None, ab_basis = None \<rparr>"

definition ex_market :: market_engine where
  "ex_market = (market_engine_init ''BTCUSDT'')\<lparr> me_bars := map ex_bar [0..<6] \<rparr>"

definition ex_feature :: feature where
  "ex_feature = (case compute_features ex_market ''BTCUSDT'' 300000000 of Inr f \<Rightarrow> f | Inl _ \<Rightarrow> undefined)"

definition ex_context :: alpha_context where
  "ex_context = \<lparr> ac_symbol = ''BTCUSDT'', ac_time = 300000000, ac_feature = ex_feature,
     ac_regime = snd (classify ex_feature None regime_engine_init) \<rparr>"

lemma ex_computed: "compute_features ex_market ''BTCUSDT'' 300000000 = ret (ac_feature ex_context)"
  by (simp add: ex_context_def ex_feature_def compute_features_def ex_market_def Let_def)

theorem strategies_symmetric_witness:
  "as_side (momentum (4 / 1000) ex_context) = GoLong \<and> as_side (momentum (4 / 1000) (mirror_context ex_context)) = GoShort"
proof -
  have "as_side (momentum (4 / 1000) ex_context) = GoLong" by code_simp
  moreover have "mirrored (momentum (4 / 1000) ex_context) (momentum (4 / 1000) (mirror_context ex_context))"
    by (rule strategies_symmetric [OF ex_computed, of "''momentum''"]) (simp_all add: strategy_pool_def)
  ultimately show ?thesis by (simp add: mirrored_def)
qed

end
