(* ===== verification/Strategy_Evidence.thy ===== *)
theory Strategy_Evidence
  imports Alpha_Strategies
begin

text \<open>
  \<open>llm_chief/strategy_evidence.py\<close>: the evidence that is built from candles for the chief trader. A candle holds
  its opening time, missing if it cannot be read, and texts as the public feed delivers them; the
  derivatives data are decimals that are already read. Evidence is advisory: the lemmas bound the
  scores, say what is skipped, and show what the regime engine ends up with.
\<close>

subsection \<open>Candles and packages\<close>

record candle =
  kl_time :: "usec option"
  kl_open :: "string option"
  kl_high :: "string option"
  kl_low :: "string option"
  kl_close :: "string option"
  kl_volume :: "string option"

record derivatives =
  dv_oi :: "dec option"
  dv_funding :: "dec option"
  dv_basis :: "dec option"

record strategy_candidate =
  sc_id :: string
  sc_version :: string
  sc_dir :: string
  sc_fit :: fl
  sc_conf :: fl
  sc_supporting :: "string list"
  sc_contradicting :: "string list"
  sc_reasons :: "string list"
  sc_health :: string

datatype regime_detail = NoHistory | RegimeDetail fl fl "string list"

record market_quality =
  mq_count :: nat
  mq_price :: bool
  mq_funding :: bool
  mq_oi :: bool
  mq_basis :: bool

record evidence_package =
  sp_symbol :: string
  sp_time :: string
  sp_regime :: string
  sp_detail :: regime_detail
  sp_candidates :: "strategy_candidate list"
  sp_dominant :: "string list"
  sp_flags :: "string list"
  sp_quality :: market_quality

definition directional :: "evidence_package \<Rightarrow> strategy_candidate list" where
  "directional p = filter (\<lambda>c. sc_dir c \<in> set [''LONG'', ''SHORT'']) (sp_candidates p)"

definition best_candidate :: "evidence_package \<Rightarrow> strategy_candidate option" where
  "best_candidate p = (case directional p of [] \<Rightarrow> None | c # cs \<Rightarrow> Some (max_by sc_fit c cs))"

subsection \<open>Fit\<close>

text \<open>The multipliers of a regime, in hundredths, in the order of the pool.\<close>

definition fit_multipliers :: "(string, int list) dict" where
  "fit_multipliers =
     [(''BULL'', [125, 110, 90, 70, 90, 125, 105, 85, 75, 120]), (''BEAR'', [120, 100, 90, 80, 100, 125, 105, 90, 80, 120]),
      (''RANGE'', [60, 80, 70, 140, 100, 65, 75, 125, 135, 70]), (''HIGH_VOL'', [80, 90, 130, 100, 100, 75, 115, 125, 105, 85]),
      (''EXTREME_RISK'', [70, 80, 110, 90, 110, 65, 85, 90, 80, 65])]"

definition strategy_names :: "string list" where
  "strategy_names =
     [''trend_following'', ''momentum'', ''breakout'', ''mean_reversion'', ''funding_basis'', ''trend_pullback'', ''breakout_retest'',
      ''liquidity_sweep'', ''support_resistance_reversal'', ''market_structure'']"

definition multiplier :: "string \<Rightarrow> string \<Rightarrow> fl" where
  "multiplier regime sid =
     (case map_of fit_multipliers regime of
        Some ps \<Rightarrow> (case map_of (zip strategy_names ps) sid of Some p \<Rightarrow> fround (of_int p / 100) | None \<Rightarrow> 1)
      | None \<Rightarrow> 1)"

definition funding_threshold :: dec where
  "funding_threshold = 5 / 10000"

definition fit :: "dec \<Rightarrow> string \<Rightarrow> string \<Rightarrow> bool \<Rightarrow> fl" where
  "fit confidence sid regime dislocated =
     (let m = multiplier regime sid;
          mult = (if dislocated \<and> sid = ''funding_basis'' then fmul m (3 / 2) else m)
      in fl_places 4 (min 1 (fmul (fround confidence) mult)))"

subsection \<open>Attribution\<close>

definition zscore_extreme :: "feature \<Rightarrow> bool" where
  "zscore_extreme f \<longleftrightarrow> 2 < \<bar>fround (fe_zscore f)\<bar>"

definition funding_crowded :: "feature \<Rightarrow> bool" where
  "funding_crowded f \<longleftrightarrow> fe_has_funding f \<and> fround funding_threshold < \<bar>fround (fe_funding f)\<bar>"

definition on :: "bool \<Rightarrow> string list \<Rightarrow> string list" where
  "on b xs = (if b then xs else [])"

definition attribute :: "string \<Rightarrow> feature \<Rightarrow> string list \<times> string list" where
  "attribute sid f =
     (let up = fround (fe_ema50 f) < fround (fe_ema20 f); rising = 1 < fround (fe_volume f);
          crowded = funding_crowded f; extreme = zscore_extreme f; vol_high = fround (2 / 100) < fround (fe_vol f);
          r20 = fround (fe_return20 f)
      in if sid = ''trend_following'' then
           ([''trend''] @ on ((0 < r20) = up \<and> r20 \<noteq> 0) [''momentum''] @ on rising [''volume_change''],
            on crowded [''funding_rate''] @ on extreme [''mean_reversion''])
         else if sid = ''momentum'' then ([''momentum'', ''return''] @ on rising [''volume_change''], on extreme [''mean_reversion''])
         else if sid = ''breakout'' then
           (let high = fround (fe_high50 f)
            in (on (0 < high \<and> fmul high (fround (99 / 100)) \<le> fround (fe_price f)) [''breakout'', ''trend''] @
                on (3 / 2 < fround (fe_volume f)) [''volume_change''] @ on vol_high [''volatility_regime''],
                on vol_high [''realized_volatility'']))
         else if sid = ''mean_reversion'' then
           (on extreme [''mean_reversion''] @ on crowded [''funding_rate''],
            on (fround (2 / 1000) < fdiv \<bar>fsub (fround (fe_ema20 f)) (fround (fe_ema50 f))\<bar> (max (fround (fe_ema50 f)) (fround (1 / 10 ^ 9))))
              [''trend''])
         else if sid = ''funding_basis'' then
           (on (fe_has_funding f) [''funding_rate'', ''funding_change''] @ on (fe_has_oi f) [''open_interest''], on up [''trend''])
         else if sid = ''trend_pullback'' then
           ([''trend'', ''mean_reversion''] @ on (r20 \<noteq> 0) [''return''], on extreme [''mean_reversion''] @ on crowded [''funding_rate''])
         else if sid = ''breakout_retest'' then
           ([''breakout'', ''trend''] @ on rising [''volume_change''], on extreme [''mean_reversion''] @ on vol_high [''realized_volatility''])
         else if sid = ''liquidity_sweep'' then
           ([''mean_reversion'', ''return''] @ on rising [''volume_change''] @ on vol_high [''volatility_regime''], on (fround (3 / 100) < \<bar>r20\<bar>) [''trend''])
         else if sid = ''support_resistance_reversal'' then
           ([''mean_reversion'', ''return''] @ on rising [''volume_change''], on (fround (3 / 100) < \<bar>r20\<bar>) [''trend''])
         else if sid = ''market_structure'' then
           ([''trend'', ''momentum'', ''return''] @ on rising [''volume_change''], on extreme [''mean_reversion''] @ on crowded [''funding_rate''])
         else ([], []))"

definition data_health :: "string \<Rightarrow> feature \<Rightarrow> string" where
  "data_health sid f =
     (if sid = ''funding_basis'' \<and> (\<not> fe_has_funding f \<or> \<not> fe_has_basis f) then ''DERIVATIVES_DATA_UNAVAILABLE''
      else if sid = ''liquidity_sweep'' then ''PROXY_NO_WICK_OR_ORDERFLOW''
      else if sid = ''breakout_retest'' then ''PROXY_CLOSE_BASED_RETEST''
      else if sid = ''market_structure'' then ''PROXY_EMA_RETURN_STRUCTURE''
      else ''OK'')"

subsection \<open>Building a package\<close>

definition text_decimal :: "string option \<Rightarrow> dec res" where
  "text_decimal t = decimal_of (JStr (case t of Some x \<Rightarrow> x | None \<Rightarrow> ''0''))"

text \<open>One candle: what cannot be read as a time, or comes too early, is skipped; a text that is no decimal raises.\<close>

definition ingest_candle :: "derivatives \<Rightarrow> candle \<Rightarrow> market_engine \<times> nat \<Rightarrow> (market_engine \<times> nat) res" where
  "ingest_candle dv k st =
     (case kl_time k of
        None \<Rightarrow> ret st
      | Some ts \<Rightarrow>
          rbind (text_decimal (kl_close k)) (\<lambda>mid.
          if mid \<le> 0 then ret st
          else rbind (text_decimal (kl_volume k)) (\<lambda>vol.
            case ingest_bar \<lparr> ab_time = ts, ab_price = mid, ab_volume = max vol (1 / 10000), ab_oi = dv_oi dv, ab_funding = dv_funding dv,
                              ab_basis = dv_basis dv \<rparr> (fst st) of
              (m, Inr _) \<Rightarrow> ret (m, Suc (snd st))
            | (m, Inl e) \<Rightarrow> if catches [KeyErrorC, ValueError, TypeErrorC] e then ret (m, snd st) else Inl e)))"

definition ingest_candles :: "string \<Rightarrow> derivatives \<Rightarrow> candle list \<Rightarrow> (market_engine \<times> nat) res" where
  "ingest_candles sy dv ks = rfold (ingest_candle dv) ks (market_engine_init sy, 0)"

record evidence_builder =
  eb_symbol :: string
  eb_regimes :: regime_engine

definition evidence_builder_init :: "string \<Rightarrow> evidence_builder" where
  "evidence_builder_init sy = \<lparr> eb_symbol = sy, eb_regimes = regime_engine_init \<rparr>"

definition no_history :: "string \<Rightarrow> string \<Rightarrow> nat \<Rightarrow> evidence_package" where
  "no_history sy now n =
     \<lparr> sp_symbol = sy, sp_time = now, sp_regime = ''UNKNOWN'', sp_detail = NoHistory, sp_candidates = [], sp_dominant = [],
       sp_flags = [''INSUFFICIENT_HISTORY''],
       sp_quality = \<lparr> mq_count = n, mq_price = 0 < n, mq_funding = False, mq_oi = False, mq_basis = False \<rparr> \<rparr>"

definition dislocated :: "feature \<Rightarrow> bool" where
  "dislocated f \<longleftrightarrow> fe_has_funding f \<and> fe_has_basis f \<and>
     fround funding_threshold < \<bar>fadd (fround (fe_funding f)) (fround (fe_basis f))\<bar>"

definition candidate_of :: "alpha_context \<Rightarrow> string \<Rightarrow> string \<times> (alpha_context \<Rightarrow> alpha_signal) \<Rightarrow> strategy_candidate" where
  "candidate_of c regime st =
     (let s = snd st c; (supporting, contradicting) = attribute (fst st) (ac_feature c)
      in \<lparr> sc_id = fst st, sc_version = as_version s, sc_dir = side_text (as_side s),
           sc_fit = fit (as_conf s) (fst st) regime (dislocated (ac_feature c)), sc_conf = fround (as_conf s),
           sc_supporting = supporting, sc_contradicting = contradicting, sc_reasons = as_reasons s,
           sc_health = data_health (fst st) (ac_feature c) \<rparr>)"

definition risk_flags :: "feature \<Rightarrow> market_regime \<Rightarrow> string list" where
  "risk_flags f regime =
     on (dislocated f \<and> 0 < fround (fe_funding f)) [''FUNDING_CROWDED_LONGS''] @
     on (dislocated f \<and> fround (fe_funding f) < 0) [''FUNDING_CROWDED_SHORTS''] @ on (regime = EXTREME_RISK) [''EXTREME_VOLATILITY'']"

definition package_of :: "string \<Rightarrow> string \<Rightarrow> nat \<Rightarrow> feature \<Rightarrow> regime_output \<Rightarrow> evidence_package" where
  "package_of sy now n f r =
     (let regime = regime_text (ro_regime r);
          c = \<lparr> ac_symbol = sy, ac_time = fe_time f, ac_feature = f, ac_regime = r \<rparr>;
          cands = map (candidate_of c regime) strategy_pool;
          best = max_by sc_fit (hd cands) (tl cands)
      in \<lparr> sp_symbol = sy, sp_time = now, sp_regime = regime, sp_detail = RegimeDetail (ro_trend r) (ro_vol r) (ro_reasons r),
           sp_candidates = cands, sp_dominant = take 3 (dedupe (sc_supporting best)), sp_flags = risk_flags f (ro_regime r),
           sp_quality = \<lparr> mq_count = n, mq_price = True, mq_funding = fe_has_funding f, mq_oi = fe_has_oi f, mq_basis = fe_has_basis f \<rparr> \<rparr>)"

definition build_evidence ::
  "candle list \<Rightarrow> derivatives \<Rightarrow> string \<Rightarrow> evidence_builder \<Rightarrow> evidence_builder \<times> evidence_package res" where
  "build_evidence ks dv now e =
     (case ingest_candles (eb_symbol e) dv ks of
        Inl x \<Rightarrow> (e, Inl x)
      | Inr (m, n) \<Rightarrow>
          if n < 30 then (e, ret (no_history (eb_symbol e) now n))
          else (case compute_features m (eb_symbol e) (ab_time (last (me_bars m))) of
                  Inl x \<Rightarrow> (e, Inl x)
                | Inr f \<Rightarrow>
                    (let (regimes, r) = classify f None (eb_regimes e)
                     in (e\<lparr> eb_regimes := regimes \<rparr>, ret (package_of (eb_symbol e) now n f r)))))"

subsection \<open>Scores\<close>

lemma multiplier_nonneg: "0 \<le> multiplier regime sid"
proof -
  have "\<forall>rp \<in> set fit_multipliers. \<forall>p \<in> set (snd rp). 0 \<le> p" by (simp add: fit_multipliers_def)
  then have "0 \<le> p" if "map_of fit_multipliers regime = Some ps" "map_of (zip strategy_names ps) sid = Some p" for ps p
    using that by (fastforce dest!: map_of_SomeD set_zip_rightD)
  then show ?thesis by (auto simp: multiplier_def flt.rnd_nonneg split: option.split)
qed

lemma fit_unit:
  assumes "0 \<le> confidence"
  shows "0 \<le> fit confidence sid regime d" "fit confidence sid regime d \<le> 1"
proof -
  define m where "m = (if d \<and> sid = ''funding_basis'' then fmul (multiplier regime sid) (3 / 2) else multiplier regime sid)"
  have "0 \<le> m" using multiplier_nonneg by (simp add: m_def fmul_def flt.rnd_nonneg)
  then have "0 \<le> fmul (fround confidence) m" using assms by (simp add: fmul_def flt.rnd_nonneg)
  then show "0 \<le> fit confidence sid regime d" "fit confidence sid regime d \<le> 1"
    using fl_places_unit [of "min 1 (fmul (fround confidence) m)" 4] by (simp_all add: fit_def m_def Let_def)
qed

lemma fit_0: "fit 0 sid regime d = 0"
  by (simp add: fit_def fl_places_def fmul_def half_even_def)

text \<open>A candidate that takes no side has no fit; one that takes a side has a confidence of at most 0.9.\<close>

definition candidate_ok :: "strategy_candidate \<Rightarrow> bool" where
  "candidate_ok c \<longleftrightarrow> 0 \<le> sc_fit c \<and> sc_fit c \<le> 1 \<and> 0 \<le> sc_conf c \<and> sc_conf c \<le> 9 / 10 + 1 / 10 ^ 15 \<and>
     sc_dir c \<in> {''LONG'', ''SHORT'', ''NO_TRADE''} \<and> (sc_dir c = ''NO_TRADE'' \<longrightarrow> sc_fit c = 0 \<and> sc_conf c = 0)"

lemma nine_tenths: "fround (9 / 10) \<le> 9 / 10 + 1 / 10 ^ 15"
  by code_simp

lemma candidate_of_ok:
  assumes "st \<in> set strategy_pool"
  shows "candidate_ok (candidate_of c regime st)"
proof -
  define s where "s = snd st c"
  have s: "sure s" using strategies_sure assms by (cases st) (auto simp: s_def)
  then have c: "0 \<le> as_conf s" "as_conf s \<le> 9 / 10" by (auto simp: sure_def split: if_splits)
  then have "fround (as_conf s) \<le> fround (9 / 10)" by (intro flt.rnd_mono)
  then have "0 \<le> fround (as_conf s)" "fround (as_conf s) \<le> 9 / 10 + 1 / 10 ^ 15"
    using nine_tenths c(1) by (auto simp: flt.rnd_nonneg intro: order_trans)
  moreover have "as_side s = NoTrade" if "side_text (as_side s) = ''NO_TRADE''" using that by (cases "as_side s") simp_all
  then have "side_text (as_side s) = ''NO_TRADE'' \<longrightarrow> as_conf s = 0" using s by (auto simp: sure_def)
  moreover have "side_text (as_side s) \<in> {''LONG'', ''SHORT'', ''NO_TRADE''}" by (cases "as_side s") simp_all
  ultimately show ?thesis using fit_unit [OF c(1)] fit_0
    by (auto simp: candidate_ok_def candidate_of_def s_def [symmetric] Let_def split: prod.split)
qed

lemma pool_names: "map fst strategy_pool = strategy_names"
  by (simp add: strategy_pool_def strategy_names_def)

lemma candidate_id [simp]: "sc_id (candidate_of c regime st) = fst st"
  by (simp add: candidate_of_def Let_def split: prod.split)

definition package_ok :: "evidence_package \<Rightarrow> bool" where
  "package_ok p \<longleftrightarrow> (if sp_regime p = ''UNKNOWN'' then sp_candidates p = [] \<and> sp_dominant p = []
     else map sc_id (sp_candidates p) = strategy_names \<and> (\<forall>c \<in> set (sp_candidates p). candidate_ok c) \<and> length (sp_dominant p) \<le> 3 \<and>
       (\<exists>b \<in> set (sp_candidates p). (\<forall>c \<in> set (sp_candidates p). sc_fit c \<le> sc_fit b) \<and> set (sp_dominant p) \<subseteq> set (sc_supporting b)))"

lemma regime_known: "regime_text r \<noteq> ''UNKNOWN''"
  by (cases r) simp_all

lemma package_of_ok: "package_ok (package_of sy now n f r)"
proof -
  define c where "c = \<lparr> ac_symbol = sy, ac_time = fe_time f, ac_feature = f, ac_regime = r \<rparr>"
  define cands where "cands = map (candidate_of c (regime_text (ro_regime r))) strategy_pool"
  define best where "best = max_by sc_fit (hd cands) (tl cands)"
  have ne: "cands \<noteq> []" by (simp add: cands_def strategy_pool_def)
  have p: "sp_candidates (package_of sy now n f r) = cands" "sp_regime (package_of sy now n f r) = regime_text (ro_regime r)"
    "sp_dominant (package_of sy now n f r) = take 3 (dedupe (sc_supporting best))"
    by (simp_all add: package_of_def Let_def c_def [symmetric] cands_def [symmetric] best_def [symmetric])
  have "map sc_id cands = strategy_names" by (simp add: cands_def comp_def flip: pool_names)
  moreover have "\<forall>c \<in> set cands. candidate_ok c" by (auto simp: cands_def candidate_of_ok)
  moreover have "set (take 3 (dedupe (sc_supporting best))) \<subseteq> set (sc_supporting best)"
    using set_take_subset [of 3 "dedupe (sc_supporting best)"] by (simp add: dedupe_def)
  moreover have "best \<in> set cands" "\<forall>c \<in> set cands. sc_fit c \<le> sc_fit best"
    using max_by_mem [of sc_fit "hd cands" "tl cands"] max_by_ge [of sc_fit "hd cands" "tl cands"] ne
    by (cases cands; auto simp: best_def)+
  ultimately show ?thesis by (auto simp: package_ok_def p regime_known)
qed

lemma build_evidence_cases:
  assumes "build_evidence ks dv now e = (e', r)"
  obtains (raised) x where "e' = e" "r = Inl x"
  | (short) m n where "ingest_candles (eb_symbol e) dv ks = Inr (m, n)" "n < 30" "e' = e" "r = ret (no_history (eb_symbol e) now n)"
  | (built) m n f where "ingest_candles (eb_symbol e) dv ks = Inr (m, n)" "30 \<le> n" "compute_features m (eb_symbol e) (ab_time (last (me_bars m))) = Inr f"
      "e' = e\<lparr> eb_regimes := fst (classify f None (eb_regimes e)) \<rparr>"
      "r = ret (package_of (eb_symbol e) now n f (snd (classify f None (eb_regimes e))))"
proof (cases "ingest_candles (eb_symbol e) dv ks")
  case (Inl x)
  then show ?thesis using assms by (intro raised [of x]) (simp_all add: build_evidence_def)
next
  case (Inr st)
  obtain m n where st: "st = (m, n)" by force
  show ?thesis
  proof (cases "n < 30")
    case True
    then show ?thesis using assms Inr st by (intro short [of m n]) (auto simp: build_evidence_def)
  next
    case False
    then show ?thesis
    proof (cases "compute_features m (eb_symbol e) (ab_time (last (me_bars m)))")
      case (Inl x)
      then show ?thesis using assms Inr st False by (intro raised [of x]) (simp_all add: build_evidence_def)
    next
      case f: (Inr f)
      show ?thesis by (rule built [of m n f]) (use assms Inr st False f in \<open>auto simp: build_evidence_def Let_def split: prod.splits\<close>)
    qed
  qed
qed

lemma no_history_ok: "package_ok (no_history sy now n)"
  by (simp add: package_ok_def no_history_def)

text \<open>C27: an evidence package has either no candidates, when fewer than 30 candles could be used, or one for each of the
  ten strategies in order; every fit lies between 0 and 1, a candidate without a side has fit and
  confidence 0, no confidence exceeds 0.9 by more than a rounding error, and the dominant factors, at most three,
  support a candidate of the highest fit.\<close>

theorem evidence_wellformed:
  assumes "build_evidence ks dv now e = (e', ret p)"
  shows "package_ok p"
  using assms by (cases rule: build_evidence_cases) (auto simp: package_of_ok no_history_ok)

subsection \<open>The regime\<close>

text \<open>A sequence of builds, and the packages that come of it.\<close>

fun packages :: "(candle list \<times> derivatives \<times> string) list \<Rightarrow> evidence_builder \<Rightarrow> evidence_package list" where
  "packages [] e = []"
| "packages ((ks, dv, now) # calls) e =
     (case build_evidence ks dv now e of (e', Inr p) \<Rightarrow> p # packages calls e' | (e', Inl _) \<Rightarrow> packages calls e')"

definition known :: "evidence_package \<Rightarrow> bool" where
  "known p \<longleftrightarrow> sp_regime p \<noteq> ''UNKNOWN''"

definition classified :: "nat \<Rightarrow> evidence_builder \<Rightarrow> bool" where
  "classified k e \<longleftrightarrow> calm (eb_regimes e) \<and> length (vols_of (eb_symbol e) (eb_regimes e)) = k"

lemma known_package [simp]: "known (package_of sy now n f r)" "\<not> known (no_history sy now n)"
  by (simp_all add: known_def package_of_def Let_def regime_known no_history_def)

lemma extreme_package:
  "ro_regime r = EXTREME_RISK \<Longrightarrow> sp_regime (package_of sy now n f r) = ''EXTREME_RISK'' \<and> ''EXTREME_VOLATILITY'' \<in> set (sp_flags (package_of sy now n f r))"
  by (simp add: package_of_def Let_def risk_flags_def on_def)

lemma packages_extreme:
  assumes "classified k e" "filter known (packages calls e) = ps @ p # qs" "9 \<le> k + length ps"
  shows "sp_regime p = ''EXTREME_RISK'' \<and> ''EXTREME_VOLATILITY'' \<in> set (sp_flags p)"
  using assms
proof (induction calls e arbitrary: k ps rule: packages.induct)
  case (2 ks dv now calls e)
  obtain e' r where b: "build_evidence ks dv now e = (e', r)" by force
  then show ?case
  proof (cases rule: build_evidence_cases)
    case (raised x)
    then show ?thesis using 2 b by simp
  next
    case (short m n)
    then show ?thesis using 2 b by simp
  next
    case (built m n f)
    have f: "fe_vol f = 0" "fe_symbol f = eb_symbol e" using no_volatility built(3) by blast+
    have next': "classified (Suc k) e'"
      using "2.prems"(1) f classify_calm by (simp add: classified_def built(4) vols_of_def)
    show ?thesis
    proof (cases ps)
      case Nil
      then have p: "p = package_of (eb_symbol e) now n f (snd (classify f None (eb_regimes e)))" using "2.prems"(2) b built(5) by simp
      have "ro_regime (snd (classify f None (eb_regimes e))) = EXTREME_RISK"
        using classify_extreme [of "eb_regimes e" f] "2.prems"(1,3) f Nil by (simp add: classified_def)
      then show ?thesis unfolding p by (rule extreme_package)
    next
      case (Cons q rest)
      then show ?thesis using 2 b built(5) next' by simp
    qed
  qed
qed simp

text \<open>C28: once nine packages of a builder have been classified, every further one reports EXTREME_RISK and carries the
  flag EXTREME_VOLATILITY, whatever the candles say: the volatility is always recorded as zero, and zero is
  at the top of the record of zeros.\<close>

theorem regime_ends_extreme:
  assumes "filter known (packages calls (evidence_builder_init sy)) = ps @ p # qs" "9 \<le> length ps"
  shows "sp_regime p = ''EXTREME_RISK'' \<and> ''EXTREME_VOLATILITY'' \<in> set (sp_flags p)"
proof -
  have "classified 0 (evidence_builder_init sy)"
    by (simp add: classified_def evidence_builder_init_def calm_def regime_engine_init_def vols_of_def)
  from packages_extreme [OF this assms(1)] assms(2) show ?thesis by simp
qed

subsection \<open>Candles that cannot be used\<close>

lemma text_decimal_error: "text_decimal t = Inl x \<Longrightarrow> x = Exn InvalidOperation []"
  by (auto simp: text_decimal_def decimal_of_def split: option.splits)

lemma ingest_bar_error: "ingest_bar b m = (m', Inl x) \<Longrightarrow> m' = m \<and> x = Exn ValueError []"
  by (auto simp: ingest_bar_def split: if_splits)

lemma value_error_is: "is_a ValueError ValueError"
  by code_simp

lemma ingest_candle_error: "ingest_candle dv k st = Inl x \<Longrightarrow> x = Exn InvalidOperation []"
  by (auto simp: ingest_candle_def rbind_def catches_def value_error_is dest!: text_decimal_error ingest_bar_error
      split: option.splits sum.splits if_splits prod.splits)

lemma ingest_candles_error: "rfold (ingest_candle dv) ks st = Inl x \<Longrightarrow> x = Exn InvalidOperation []"
  by (induction ks arbitrary: st) (auto simp: rbind_def dest: ingest_candle_error split: sum.splits)

lemma ingest_candles_bad:
  assumes "k \<in> set ks" "kl_time k = Some ts" "text_decimal (kl_close k) = Inl y"
  shows "rfold (ingest_candle dv) ks st = raise InvalidOperation"
  using assms(1)
proof (induction ks arbitrary: st)
  case (Cons k' ks)
  show ?case
  proof (cases "ingest_candle dv k' st")
    case (Inl x)
    then show ?thesis using ingest_candle_error by (auto simp: rbind_def)
  next
    case (Inr st')
    then have "k \<noteq> k'" using assms(2,3) by (auto simp: ingest_candle_def rbind_def)
    then show ?thesis using Cons Inr by (simp add: rbind_def)
  qed
qed simp

text \<open>A candle whose close is no decimal does not count as one to skip, as a missing or late one does: the whole build
  raises InvalidOperation, and the builder stays as it was.\<close>

theorem malformed_close_raises:
  assumes "k \<in> set ks" "kl_time k = Some ts" "kl_close k = Some t" "parse_decimal (strip t) = None"
  shows "build_evidence ks dv now e = (e, raise InvalidOperation)"
proof -
  have "text_decimal (kl_close k) = raise InvalidOperation" using assms(3,4) by (simp add: text_decimal_def decimal_of_def)
  from ingest_candles_bad [OF assms(1,2) this] show ?thesis by (simp add: build_evidence_def ingest_candles_def)
qed

text \<open>What is fed to the history keeps it in order, with positive prices: no feature divides by zero.\<close>

lemma ingest_candle_step:
  assumes "ingest_candle dv k st = Inr st'"
  obtains (skipped) "st' = st"
  | (fed) b where "fst st' = fst (ingest_bar b (fst st))" "0 < ab_price b" "0 < ab_volume b" "ab_basis b = dv_basis dv"
proof (cases "kl_time k")
  case None
  then show ?thesis using assms skipped by (simp add: ingest_candle_def)
next
  case (Some ts)
  obtain mid where mid: "text_decimal (kl_close k) = Inr mid"
    using assms Some by (cases "text_decimal (kl_close k)") (auto simp: ingest_candle_def rbind_def)
  show ?thesis
  proof (cases "mid \<le> 0")
    case True
    then show ?thesis using assms Some mid skipped by (simp add: ingest_candle_def rbind_def)
  next
    case False
    obtain vol where vol: "text_decimal (kl_volume k) = Inr vol"
      using assms Some mid False by (cases "text_decimal (kl_volume k)") (auto simp: ingest_candle_def rbind_def)
    define b where "b = \<lparr> ab_time = ts, ab_price = mid, ab_volume = max vol (1 / 10000), ab_oi = dv_oi dv, ab_funding = dv_funding dv,
      ab_basis = dv_basis dv \<rparr>"
    have "fst st' = fst (ingest_bar b (fst st))"
      using assms Some mid vol False by (auto simp: ingest_candle_def rbind_def b_def [symmetric] split: prod.splits sum.splits if_splits)
    then show ?thesis using False by (intro fed [of b]) (simp_all add: b_def less_max_iff_disj)
  qed
qed

lemma ingest_candles_ok: "ingest_candles sy dv ks = Inr (m, n) \<Longrightarrow> bars_ok m"
proof -
  assume i: "ingest_candles sy dv ks = Inr (m, n)"
  have "bars_ok (fst st')" if "bars_ok (fst st)" "ingest_candle dv k st = Inr st'" for k st st'
    using that(2) by (cases rule: ingest_candle_step) (simp_all add: that(1) ingest_ok)
  from rfold_inv [of ks "\<lambda>st. bars_ok (fst st)", OF this i [unfolded ingest_candles_def]] show ?thesis by (simp add: bars_ok_init)
qed

subsection \<open>Funding\<close>

lemma ingest_candles_basis:
  assumes "ingest_candles sy dv ks = Inr (m, n)" "dv_basis dv = None"
  shows "\<forall>b \<in> set (me_bars m). ab_basis b = None"
proof -
  have step: "\<forall>b \<in> set (me_bars (fst (ingest_bar b' m))). ab_basis b = None" if "\<forall>b \<in> set (me_bars m). ab_basis b = None" "ab_basis b' = None" for b' m
    using that last_n_subset [of "me_max m" "me_bars m @ [b']"] by (auto simp: ingest_bar_def)
  have "\<forall>b \<in> set (me_bars (fst st')). ab_basis b = None"
    if "\<forall>b \<in> set (me_bars (fst st)). ab_basis b = None" "ingest_candle dv k st = Inr st'" for k st st'
    using that(2)
  proof (cases rule: ingest_candle_step)
    case (fed b)
    then show ?thesis using step [OF that(1), of b] assms(2) by simp
  qed (simp add: that(1))
  from rfold_inv [of ks "\<lambda>st. \<forall>b \<in> set (me_bars (fst st)). ab_basis b = None", OF this assms(1) [unfolded ingest_candles_def]]
  show ?thesis by (simp add: market_engine_init_def)
qed

lemma features_basis:
  assumes "compute_features m sy ts = ret f" "\<forall>b \<in> set (me_bars m). ab_basis b = None"
  shows "\<not> fe_has_basis f"
  using assms by (auto simp: compute_features_def Let_def split: if_splits)

text \<open>The strategy on funding and basis needs both data, and nothing in the decision path delivers the basis; without
  it the candidate of this strategy never takes a side, and the package never warns of crowded funding.\<close>

theorem no_basis_no_funding:
  assumes "build_evidence ks dv now e = (e', ret p)" "dv_basis dv = None" "c \<in> set (sp_candidates p)" "sc_id c = ''funding_basis''"
  shows "sc_dir c = ''NO_TRADE'' \<and> sc_fit c = 0 \<and> set (sp_flags p) \<inter> {''FUNDING_CROWDED_LONGS'', ''FUNDING_CROWDED_SHORTS''} = {}"
  using assms(1)
proof (cases rule: build_evidence_cases)
  case (built m n f)
  define r where "r = snd (classify f None (eb_regimes e))"
  have f: "\<not> fe_has_basis f" using features_basis [OF built(3)] ingest_candles_basis [OF built(1) assms(2)] by blast
  have p: "p = package_of (eb_symbol e) now n f r" using built(5) by (simp add: r_def)
  obtain x where c: "c = candidate_of \<lparr> ac_symbol = eb_symbol e, ac_time = fe_time f, ac_feature = f, ac_regime = r \<rparr> (regime_text (ro_regime r)) x"
    "x \<in> set strategy_pool" using assms(3) by (auto simp: p package_of_def Let_def)
  then have "fst x = ''funding_basis''" using assms(4) by simp
  then have "x = (''funding_basis'', funding_basis (5 / 10000))" using c(2) by (auto simp: strategy_pool_def)
  then have "sc_dir c = ''NO_TRADE'' \<and> sc_fit c = 0"
    using f fit_0 by (simp add: c(1) candidate_of_def Let_def funding_basis_def alpha_signal_of_def split: prod.split)
  moreover have "\<not> dislocated f" using f by (simp add: dislocated_def)
  ultimately show ?thesis by (simp add: p package_of_def Let_def risk_flags_def on_def)
qed (use assms(3) in \<open>simp_all add: no_history_def\<close>)

subsection \<open>Examples\<close>

text \<open>Thirty candles a minute apart, one price higher each, and the derivatives data of the decision path.\<close>

definition ex_candle :: "nat \<Rightarrow> candle" where
  "ex_candle k = \<lparr> kl_time = Some (int k * 60000000), kl_open = None, kl_high = None, kl_low = None, kl_close = Some (int_digits (100 + int k)),
     kl_volume = Some ''1'' \<rparr>"

definition ex_candles :: "candle list" where
  "ex_candles = map ex_candle [0..<30]"

definition ex_derivatives :: derivatives where
  "ex_derivatives = \<lparr> dv_oi = Some 1000, dv_funding = Some (1 / 1000), dv_basis = None \<rparr>"

definition ex_builder :: evidence_builder where
  "ex_builder = evidence_builder_init ''BTCUSDT''"

lemma ex_ingested: "\<exists>m. ingest_candles ''BTCUSDT'' ex_derivatives ex_candles = Inr (m, 30) \<and> me_bars m \<noteq> []"
proof -
  have "case ingest_candles ''BTCUSDT'' ex_derivatives ex_candles of Inr (m, n) \<Rightarrow> n = 30 \<and> me_bars m \<noteq> [] | Inl _ \<Rightarrow> False"
    by code_simp
  then show ?thesis by (cases "ingest_candles ''BTCUSDT'' ex_derivatives ex_candles") auto
qed

lemma ex_built:
  assumes "eb_symbol e = ''BTCUSDT''"
  shows "\<exists>e' p. build_evidence ex_candles ex_derivatives now e = (e', ret p) \<and> eb_symbol e' = ''BTCUSDT'' \<and> known p"
proof -
  obtain m where "ingest_candles ''BTCUSDT'' ex_derivatives ex_candles = Inr (m, 30)" "me_bars m \<noteq> []" using ex_ingested by blast
  moreover obtain f where "compute_features m ''BTCUSDT'' (ab_time (last (me_bars m))) = ret f"
    using calculation(2) by (simp add: compute_features_def Let_def)
  ultimately show ?thesis using assms by (simp add: build_evidence_def Let_def split: prod.split)
qed

theorem evidence_wellformed_witness:
  "\<exists>e' p. build_evidence ex_candles ex_derivatives ''now'' ex_builder = (e', ret p) \<and> package_ok p \<and> known p"
  using ex_built [of ex_builder "''now''"] evidence_wellformed by (fastforce simp: ex_builder_def evidence_builder_init_def)

lemma ex_packages:
  "eb_symbol e = ''BTCUSDT'' \<Longrightarrow>
     length (packages (replicate k (ex_candles, ex_derivatives, ''now'')) e) = k \<and>
     list_all known (packages (replicate k (ex_candles, ex_derivatives, ''now'')) e)"
proof (induction k arbitrary: e)
  case (Suc k)
  obtain e' p where "build_evidence ex_candles ex_derivatives ''now'' e = (e', ret p)" "eb_symbol e' = ''BTCUSDT''" "known p"
    using ex_built [OF Suc.prems] by blast
  then show ?case using Suc.IH [of e'] by simp
qed simp

theorem regime_ends_extreme_witness:
  "\<exists>p. packages (replicate 10 (ex_candles, ex_derivatives, ''now'')) ex_builder ! 9 = p \<and> sp_regime p = ''EXTREME_RISK''"
proof -
  define xs where "xs = packages (replicate 10 (ex_candles, ex_derivatives, ''now'')) ex_builder"
  have x: "length xs = 10" "list_all known xs" using ex_packages [of ex_builder 10] by (simp_all add: xs_def ex_builder_def evidence_builder_init_def)
  have "filter known xs = xs" using x(2) by (simp add: filter_id_conv list_all_iff)
  also have "\<dots> = take 9 xs @ xs ! 9 # drop 10 xs" using id_take_nth_drop [of 9 xs] x(1) by simp
  finally have "filter known xs = take 9 xs @ xs ! 9 # drop 10 xs" .
  then show ?thesis
    using regime_ends_extreme [of "replicate 10 (ex_candles, ex_derivatives, ''now'')" "''BTCUSDT''" "take 9 xs" "xs ! 9" "drop 10 xs"] x(1)
    by (simp add: xs_def ex_builder_def)
qed

theorem no_basis_no_funding_witness:
  "\<exists>e' p c. build_evidence ex_candles ex_derivatives ''now'' ex_builder = (e', ret p) \<and> c \<in> set (sp_candidates p) \<and>
     sc_id c = ''funding_basis'' \<and> sc_dir c = ''NO_TRADE''"
proof -
  obtain e' p where b: "build_evidence ex_candles ex_derivatives ''now'' ex_builder = (e', ret p)" "known p"
    using ex_built [of ex_builder "''now''"] by (auto simp: ex_builder_def evidence_builder_init_def)
  from b(1) have "''funding_basis'' \<in> set (map sc_id (sp_candidates p))"
  proof (cases rule: build_evidence_cases)
    case (built m n f)
    then show ?thesis using package_of_ok [of "eb_symbol ex_builder" "''now''" n f] b(2)
      by (simp add: package_ok_def known_def strategy_names_def split: if_splits)
  qed (use b(2) in simp_all)
  then obtain c where "c \<in> set (sp_candidates p)" "sc_id c = ''funding_basis''" by auto
  then show ?thesis using no_basis_no_funding [OF b(1)] b(1) by (fastforce simp: ex_derivatives_def)
qed

theorem malformed_close_raises_witness:
  "build_evidence (ex_candles @ [(ex_candle 30)\<lparr> kl_close := Some ''n/a'' \<rparr>]) ex_derivatives ''now'' ex_builder = (ex_builder, raise InvalidOperation)"
proof -
  have "parse_decimal (strip ''n/a'') = None" by code_simp
  then show ?thesis by (intro malformed_close_raises [of "(ex_candle 30)\<lparr> kl_close := Some ''n/a'' \<rparr>"]) (simp_all add: ex_candle_def)
qed

end
