(* ===== verification/Technical_Indicators.thy ===== *)
theory Technical_Indicators
  imports Strategy_Evidence
begin

text \<open>
  \<open>market_data/technical_indicators.py\<close>: indicators over candles, as evidence only. Floats are rationals that are
  rounded after each operation. An indicator without enough history is \<open>None\<close>; the lemmas bound the
  oscillators and show that unusable candles give the answer UNAVAILABLE.
\<close>

subsection \<open>Series\<close>

fun series :: "(candle \<Rightarrow> string option) \<Rightarrow> candle list \<Rightarrow> fl list option" where
  "series key [] = Some []"
| "series key (k # ks) =
     (case key k of
        None \<Rightarrow> None
      | Some t \<Rightarrow> (case float_of_text t of
                    Inl _ \<Rightarrow> None
                  | Inr x \<Rightarrow> map_option ((#) x) (series key ks)))"

definition series_of :: "(candle \<Rightarrow> string option) \<Rightarrow> candle list \<Rightarrow> fl list" where
  "series_of key ks = (case series key ks of Some xs \<Rightarrow> xs | None \<Rightarrow> [])"

definition favg :: "fl list \<Rightarrow> nat \<Rightarrow> fl" where
  "favg xs n = fdiv (fl_sum xs) (of_nat n)"

definition fl_sma :: "fl list \<Rightarrow> nat \<Rightarrow> fl option" where
  "fl_sma xs n = (if n \<le> length xs then Some (favg (last_n n xs) n) else None)"

fun ema_steps :: "fl \<Rightarrow> fl \<Rightarrow> fl list \<Rightarrow> fl list" where
  "ema_steps alpha cur [] = [cur]"
| "ema_steps alpha cur (x # xs) = cur # ema_steps alpha (fadd (fmul alpha x) (fmul (fsub 1 alpha) cur)) xs"

definition ema_series :: "fl list \<Rightarrow> nat \<Rightarrow> fl list" where
  "ema_series xs n =
     (if length xs < n then [] else ema_steps (fdiv 2 (of_nat (n + 1))) (favg (take n xs) n) (drop n xs))"

definition last_opt :: "'a list \<Rightarrow> 'a option" where
  "last_opt xs = (if xs = [] then None else Some (last xs))"

definition fl_ema :: "fl list \<Rightarrow> nat \<Rightarrow> fl option" where
  "fl_ema xs n = last_opt (ema_series xs n)"

definition changes :: "fl list \<Rightarrow> fl list" where
  "changes xs = map2 (\<lambda>a b. fsub b a) xs (tl xs)"

text \<open>\<open>100.0 - 100.0 / (1.0 + up / down)\<close>, with its two special cases.\<close>

definition oscillator :: "fl \<Rightarrow> fl \<Rightarrow> fl" where
  "oscillator up down =
     (if down = 0 then (if 0 < up then 100 else 50) else fsub 100 (fdiv 100 (fadd 1 (fdiv up down))))"

definition rsi :: "fl list \<Rightarrow> nat \<Rightarrow> fl option" where
  "rsi xs n =
     (if length xs < n + 1 then None
      else (let w = last_n n (changes xs)
            in Some (oscillator (favg (map (\<lambda>c. max c 0) w) n) (favg (map (\<lambda>c. max (- c) 0) w) n))))"

definition true_ranges :: "fl list \<Rightarrow> fl list \<Rightarrow> fl list \<Rightarrow> fl list" where
  "true_ranges high low close =
     (if high = [] \<or> length high \<noteq> length low \<or> length high \<noteq> length close then []
      else fsub (hd high) (hd low) #
        map (\<lambda>i. max (max (fsub (high ! i) (low ! i)) \<bar>fsub (high ! i) (close ! (i - 1))\<bar>) \<bar>fsub (low ! i) (close ! (i - 1))\<bar>)
          [1..<length close])"

definition atr :: "fl list \<Rightarrow> fl list \<Rightarrow> fl list \<Rightarrow> nat \<Rightarrow> fl option" where
  "atr high low close n = fl_sma (true_ranges high low close) n"

definition macd :: "fl list \<Rightarrow> fl option \<times> fl option \<times> fl option" where
  "macd xs =
     (let slow = ema_series xs 26
      in if slow = [] then (None, None, None)
         else (let lines = map2 fsub (last_n (length slow) (ema_series xs 12)) slow; line = last lines; signals = ema_series lines 9
               in if signals = [] then (Some line, None, None)
                  else (Some line, Some (last signals), Some (fsub line (last signals)))))"

subsection \<open>Ranges\<close>

definition highest :: "fl list \<Rightarrow> fl" where "highest xs = foldl max (hd xs) (tl xs)"
definition lowest :: "fl list \<Rightarrow> fl" where "lowest xs = foldl min (hd xs) (tl xs)"

text \<open>\<open>xs[start : end + 1]\<close> of length \<open>n\<close>\<close>

definition slice_to :: "nat \<Rightarrow> nat \<Rightarrow> 'a list \<Rightarrow> 'a list" where
  "slice_to e n xs = take n (drop (e + 1 - n) xs)"

definition stochastic_k :: "fl list \<Rightarrow> fl list \<Rightarrow> fl list \<Rightarrow> nat \<Rightarrow> nat \<Rightarrow> fl" where
  "stochastic_k high low close n e =
     (let hi = highest (slice_to e n high); lo = lowest (slice_to e n low)
      in if hi = lo then 50 else fdiv (fmul 100 (fsub (close ! e) lo)) (fsub hi lo))"

definition stochastic :: "fl list \<Rightarrow> fl list \<Rightarrow> fl list \<Rightarrow> nat \<Rightarrow> fl option \<times> fl option" where
  "stochastic high low close n =
     (if length close < n then (None, None)
      else (let ks = map (stochastic_k high low close n) [max (n - 1) (length close - 3)..<length close]
            in (Some (last ks), fl_sma ks 3)))"

definition plus_dm :: "fl list \<Rightarrow> fl list \<Rightarrow> nat \<Rightarrow> fl" where
  "plus_dm high low i =
     (if i = 0 then 0
      else (let up = fsub (high ! i) (high ! (i - 1)); down = fsub (low ! (i - 1)) (low ! i) in if down < up \<and> 0 < up then up else 0))"

definition minus_dm :: "fl list \<Rightarrow> fl list \<Rightarrow> nat \<Rightarrow> fl" where
  "minus_dm high low i =
     (if i = 0 then 0
      else (let up = fsub (high ! i) (high ! (i - 1)); down = fsub (low ! (i - 1)) (low ! i) in if up < down \<and> 0 < down then down else 0))"

text \<open>The list of the \<open>dx\<close> values and the last pair of directional indicators.\<close>

definition adx_step ::
  "fl list \<Rightarrow> fl list \<Rightarrow> fl list \<Rightarrow> nat \<Rightarrow> fl list \<times> (fl \<times> fl) option \<Rightarrow> nat \<Rightarrow> fl list \<times> (fl \<times> fl) option" where
  "adx_step trs up down n st e =
     (let tr = fl_sum (slice_to e n trs)
      in if tr \<le> 0 then st
         else (let p = fdiv (fmul 100 (fl_sum (slice_to e n up))) tr; m = fdiv (fmul 100 (fl_sum (slice_to e n down))) tr;
                   total = fadd p m
               in (fst st @ [if total = 0 then 0 else fdiv (fmul 100 \<bar>fsub p m\<bar>) total], Some (p, m))))"

definition adx :: "fl list \<Rightarrow> fl list \<Rightarrow> fl list \<Rightarrow> nat \<Rightarrow> fl option \<times> fl option \<times> fl option" where
  "adx high low close n =
     (if length close < n + 1 then (None, None, None)
      else (let trs = true_ranges high low close; idx = [0..<length close];
                (dx, di) = foldl (adx_step trs (map (plus_dm high low) idx) (map (minus_dm high low) idx) n) ([], None) [n - 1..<length close]
            in (fl_sma dx n, map_option fst di, map_option snd di)))"

subsection \<open>Volume\<close>

definition obv :: "fl list \<Rightarrow> fl list \<Rightarrow> fl option" where
  "obv close volume =
     (if close = [] \<or> length close \<noteq> length volume then None
      else Some (foldl (\<lambda>r i. if close ! (i - 1) < close ! i then fadd r (volume ! i)
                              else if close ! i < close ! (i - 1) then fsub r (volume ! i) else r) 0 [1..<length close]))"

definition typical :: "fl \<Rightarrow> fl \<Rightarrow> fl \<Rightarrow> fl" where
  "typical h l c = fdiv (fadd (fadd h l) c) 3"

definition typicals :: "fl list \<Rightarrow> fl list \<Rightarrow> fl list \<Rightarrow> fl list" where
  "typicals high low close = map (\<lambda>(h, l, c). typical h l c) (zip high (zip low close))"

definition mfi_step :: "fl list \<Rightarrow> fl list \<Rightarrow> fl \<times> fl \<Rightarrow> nat \<Rightarrow> fl \<times> fl" where
  "mfi_step typ volume st i =
     (let flow = fmul (typ ! i) (volume ! i)
      in if typ ! (i - 1) < typ ! i then (fadd (fst st) flow, snd st)
         else if typ ! i < typ ! (i - 1) then (fst st, fadd (snd st) flow) else st)"

definition mfi :: "fl list \<Rightarrow> fl list \<Rightarrow> fl list \<Rightarrow> fl list \<Rightarrow> nat \<Rightarrow> fl option" where
  "mfi high low close volume n =
     (if length close < n + 1 then None
      else (let (positive, negative) = foldl (mfi_step (typicals high low close) volume) (0, 0) [length close - n..<length close]
            in Some (oscillator positive negative)))"

definition cci :: "fl list \<Rightarrow> fl list \<Rightarrow> fl list \<Rightarrow> nat \<Rightarrow> fl option" where
  "cci high low close n =
     (if length close < n then None
      else (let typ = typicals (last_n n high) (last_n n low) (last_n n close); mean = favg typ n;
                deviation = favg (map (\<lambda>t. \<bar>fsub t mean\<bar>) typ) n
            in Some (if deviation = 0 then 0 else fdiv (fsub (last typ) mean) (fmul (fround (15 / 1000)) deviation))))"

definition vwap :: "fl list \<Rightarrow> fl list \<Rightarrow> fl list \<Rightarrow> fl list \<Rightarrow> nat \<Rightarrow> fl option" where
  "vwap high low close volume n =
     (if length close < n then None
      else (let total = fl_sum (last_n n volume)
            in if total \<le> 0 then None
               else Some (fdiv (fl_sum (map (\<lambda>i. fmul (typical (high ! i) (low ! i) (close ! i)) (volume ! i)) [length close - n..<length close])) total)))"

definition midpoint :: "fl list \<Rightarrow> fl list \<Rightarrow> nat \<Rightarrow> fl option" where
  "midpoint high low n =
     (if length high < n then None else Some (fdiv (fadd (highest (last_n n high)) (lowest (last_n n low))) 2))"

definition ichimoku :: "fl list \<Rightarrow> fl list \<Rightarrow> (string \<times> fl option) list" where
  "ichimoku high low =
     (let tenkan = midpoint high low 9; kijun = midpoint high low 26
      in [(''tenkan_9'', tenkan), (''kijun_26'', kijun),
          (''senkou_a'', case (tenkan, kijun) of (Some t, Some k) \<Rightarrow> Some (fdiv (fadd t k) 2) | _ \<Rightarrow> None),
          (''senkou_b_52'', midpoint high low 52)])"

subsection \<open>Deviations\<close>

text \<open>The square root of a fraction as a float, correctly rounded; \<open>pstdev\<close> takes it of the exact variance.\<close>

definition fl_sqrt :: "rat \<Rightarrow> fl" where
  "fl_sqrt x =
     (let k = nat (60 - (case quotient_of x of (a, q) \<Rightarrow> mag_exp_div 2 \<bar>a\<bar> q) div 2); n = isqrt \<lfloor>x * 4 ^ k\<rfloor>
      in fround (if of_int (n * n) = x * 4 ^ k then of_int n / 2 ^ k else (of_int n + 1 / 2) / 2 ^ k))"

definition pstdev :: "fl list \<Rightarrow> fl" where
  "pstdev xs =
     (let n = of_nat (length xs); mean = sum_list xs / n
      in fl_sqrt (sum_list (map (\<lambda>x. (x - mean) ^ 2) xs) / n))"

subsection \<open>The snapshot\<close>

record technicals =
  tk_status :: string
  tk_count :: nat
  tk_price :: "fl option"
  tk_available :: nat
  tk_items :: "(string \<times> fl option) list"

definition opt2 :: "(fl \<Rightarrow> fl \<Rightarrow> fl option) \<Rightarrow> fl option \<Rightarrow> fl option \<Rightarrow> fl option" where
  "opt2 f a b = (case (a, b) of (Some x, Some y) \<Rightarrow> f x y | _ \<Rightarrow> None)"

definition when_enough :: "nat \<Rightarrow> fl list \<Rightarrow> (fl list \<Rightarrow> fl) \<Rightarrow> fl option" where
  "when_enough n xs f = (if n \<le> length xs then Some (f (last_n n xs)) else None)"

definition price_returns :: "fl list \<Rightarrow> fl list" where
  "price_returns close = map (\<lambda>(a, b). fsub (fdiv b a) 1) (filter (\<lambda>(a, b). a \<noteq> 0) (zip close (tl close)))"

definition band :: "fl \<Rightarrow> fl option \<Rightarrow> fl option \<Rightarrow> fl option" where
  "band factor = opt2 (\<lambda>mid width. Some (fadd mid (fmul factor width)))"

definition bandwidth :: "fl option \<Rightarrow> fl option \<Rightarrow> fl option \<Rightarrow> fl option" where
  "bandwidth upper lower mid =
     opt2 (\<lambda>u l. case mid of Some m \<Rightarrow> if m \<noteq> 0 then Some (fdiv (fsub u l) m) else None | None \<Rightarrow> None) upper lower"

definition percent_b :: "fl \<Rightarrow> fl option \<Rightarrow> fl option \<Rightarrow> fl option" where
  "percent_b price = opt2 (\<lambda>u l. if u \<noteq> l then Some (fdiv (fsub price l) (fsub u l)) else None)"

definition williams_r :: "fl list \<Rightarrow> fl list \<Rightarrow> fl list \<Rightarrow> fl \<Rightarrow> nat \<Rightarrow> fl option" where
  "williams_r high low close price n =
     (if length close < n then None
      else (let hi = highest (last_n n high); lo = lowest (last_n n low)
            in Some (if hi = lo then - 50 else fdiv (fmul (- 100) (fsub hi price)) (fsub hi lo))))"

text \<open>\<open>price / x - 1.0 if x else None\<close>\<close>

definition relative_to :: "fl \<Rightarrow> fl option \<Rightarrow> fl option" where
  "relative_to price x = (case x of Some e \<Rightarrow> if e \<noteq> 0 then Some (fsub (fdiv price e) 1) else None | None \<Rightarrow> None)"

definition quotient_opt :: "fl option \<Rightarrow> fl option \<Rightarrow> fl option" where
  "quotient_opt = opt2 (\<lambda>a b. if b \<noteq> 0 then Some (fdiv a b) else None)"

definition indicator_items :: "fl list \<Rightarrow> fl list \<Rightarrow> fl list \<Rightarrow> fl list \<Rightarrow> (string \<times> fl option) list" where
  "indicator_items close high low volume =
     (let price = last close; atr14 = atr high low close 14; (line, signal, hist) = macd close;
          (k, d) = stochastic high low close 14; (adx14, plus_di, minus_di) = adx high low close 14;
          mid = fl_sma close 20; std = when_enough 20 close pstdev; upper = band 2 mid std; lower = band (- 2) mid std;
          ema20 = fl_ema close 20; ema50 = fl_ema close 50; ema200 = fl_ema close 200;
          high20 = when_enough 20 high highest; low20 = when_enough 20 low lowest;
          ago = (\<lambda>n. close ! (length close - n)); baseline = fl_sma volume 20
      in map (\<lambda>n. (''sma_'' @ int_digits (int n), fl_sma close n)) [5, 10, 20, 50, 100, 200] @
         map (\<lambda>n. (''ema_'' @ int_digits (int n), fl_ema close n)) [5, 9, 12, 20, 21, 26, 50, 100, 200] @
         [(''rsi_6'', rsi close 6), (''rsi_14'', rsi close 14), (''rsi_21'', rsi close 21), (''macd_12_26'', line), (''macd_signal_9'', signal),
          (''macd_histogram'', hist), (''bollinger_mid_20'', mid), (''bollinger_upper_20_2'', upper), (''bollinger_lower_20_2'', lower),
          (''bollinger_bandwidth'', bandwidth upper lower mid), (''bollinger_percent_b'', percent_b price upper lower), (''atr_14'', atr14),
          (''atr_percent_14'', quotient_opt atr14 (Some price)), (''adx_14'', adx14), (''plus_di_14'', plus_di), (''minus_di_14'', minus_di),
          (''stochastic_k_14'', k), (''stochastic_d_3'', d), (''williams_r_14'', williams_r high low close price 14),
          (''cci_20'', cci high low close 20),
          (''roc_12'', if 13 \<le> length close then relative_to price (Some (ago 13)) else None),
          (''momentum_10'', if 11 \<le> length close then Some (fsub price (ago 11)) else None), (''obv'', obv close volume),
          (''mfi_14'', mfi high low close volume 14), (''vwap_20'', vwap high low close volume 20), (''donchian_high_20'', high20),
          (''donchian_low_20'', low20), (''donchian_high_50'', when_enough 50 high highest), (''donchian_low_50'', when_enough 50 low lowest),
          (''keltner_mid_20'', ema20), (''keltner_upper_20'', band 2 ema20 atr14), (''keltner_lower_20'', band (- 2) ema20 atr14),
          (''realized_volatility_20'', when_enough 20 (price_returns close) pstdev),
          (''zscore_20'', opt2 (\<lambda>m s. if s \<noteq> 0 then Some (fdiv (fsub price m) s) else None) mid std),
          (''volume_ratio_20'', case baseline of Some b \<Rightarrow> if 0 < b then Some (fdiv (last volume) b) else None | None \<Rightarrow> None),
          (''price_vs_ema20'', relative_to price ema20), (''price_vs_ema50'', relative_to price ema50),
          (''price_vs_ema200'', relative_to price ema200), (''recent_support_20'', low20), (''recent_resistance_20'', high20)] @
         ichimoku high low)"

definition calculate_technical_indicators :: "candle list \<Rightarrow> technicals" where
  "calculate_technical_indicators ks =
     (let close = series_of kl_close ks; high = series_of kl_high ks; low = series_of kl_low ks; volume = series_of kl_volume ks
      in if close = [] \<or> high = [] \<or> low = [] \<or> volume = [] \<or>
            \<not> (length close = length high \<and> length high = length low \<and> length low = length volume)
         then \<lparr> tk_status = ''UNAVAILABLE'', tk_count = 0, tk_price = None, tk_available = 0, tk_items = [] \<rparr>
         else (let items = indicator_items close high low volume; n = length (filter (\<lambda>i. snd i \<noteq> None) items)
               in \<lparr> tk_status = (if 0 < n then ''OK'' else ''INSUFFICIENT_HISTORY''), tk_count = length close, tk_price = Some (last close),
                    tk_available = n, tk_items = items \<rparr>))"

subsection \<open>Compensated sums\<close>

text \<open>A rounding is off by at most one part in \<open>2^53\<close>.\<close>

definition ulp :: rat where "ulp = 1 / 2 ^ 53"

lemma fround_error: "\<bar>fround x - x\<bar> \<le> ulp * \<bar>x\<bar>"
proof (cases "x = 0")
  case False
  define u :: rat where "u = 2 powi (mag_exp 2 x - 53 + 1)"
  have u: "0 < u" by (simp add: u_def)
  have f: "fround x = of_int (half_even (x / u)) * u" using False by (simp add: fround_def fl_round_def u_def Let_def)
  have "\<bar>of_int (half_even (x / u)) - x / u\<bar> \<le> 1 / 2" by (rule half_even_error)
  then have "\<bar>of_int (half_even (x / u)) - x / u\<bar> * u \<le> 1 / 2 * u" using u by (intro mult_right_mono) simp_all
  also have "\<bar>of_int (half_even (x / u)) - x / u\<bar> * u = \<bar>fround x - x\<bar>"
  proof -
    have "\<bar>of_int (half_even (x / u)) - x / u\<bar> * u = \<bar>(of_int (half_even (x / u)) - x / u) * u\<bar>" using u by (simp add: abs_mult)
    also have "(of_int (half_even (x / u)) - x / u) * u = fround x - x" using u by (simp add: f left_diff_distrib)
    finally show ?thesis .
  qed
  finally have e: "\<bar>fround x - x\<bar> \<le> u / 2" by simp
  have "(of_nat 2 :: rat) powi (mag_exp 2 x) \<le> \<bar>x\<bar>" using False by (intro mag_exp_bounds) simp_all
  moreover have "u / 2 = ulp * 2 powi (mag_exp 2 x)" by (simp add: u_def ulp_def power_int_add power_int_diff)
  ultimately have "u / 2 \<le> ulp * \<bar>x\<bar>" by (simp add: ulp_def)
  then show ?thesis using e by linarith
qed (simp add: ulp_def)

lemma fround_le: "\<bar>fround x\<bar> \<le> (1 + ulp) * \<bar>x\<bar>"
  using fround_error [of x] by (simp add: distrib_right)

lemma ulp_small: "0 < ulp" "ulp \<le> 1 / 1000"
  by (simp_all add: ulp_def)

lemma sum_step_error:
  assumes "0 \<le> s" "fround s = s" "0 \<le> x" "\<bar>c\<bar> \<le> 2 ^ (k + 4) * ulp * s" "sum_step (s, c) x = (t, c')"
  shows "0 \<le> t" "fround t = t" "\<bar>c'\<bar> \<le> 2 ^ (Suc k + 4) * ulp * t"
proof -
  define a b where "a = (if \<bar>x\<bar> \<le> \<bar>s\<bar> then s else x)" and "b = (if \<bar>x\<bar> \<le> \<bar>s\<bar> then x else s)"
  define e where "e = fadd (fsub a t) b"
  define w where "w = ulp * (a + b)"
  have ab: "0 \<le> a" "0 \<le> b" "a + b = s + x" using assms(1,3) by (auto simp: a_def b_def)
  have t: "t = fround (a + b)" "c' = fadd c e" using assms(5) ab by (auto simp: sum_step_def e_def a_def b_def fadd_def Let_def split: if_splits)
  show "fround t = t" by (simp add: t)
  show t0: "0 \<le> t" using ab flt.rnd_nonneg by (simp add: t)
  have "fround s \<le> fround (a + b)" using assms(3) ab(3) by (intro flt.rnd_mono) simp
  then have st: "s \<le> t" using assms(2) t(1) by simp
  have te: "\<bar>t - (a + b)\<bar> \<le> w" using fround_error [of "a + b"] ab(1,2) by (simp add: t w_def)
  have w: "0 \<le> w" "w \<le> (a + b) / 1000" "ulp * b \<le> w"
    using ab(1,2) ulp_small mult_right_mono [of ulp "1 / 1000" "a + b"] by (simp_all add: w_def mult_left_mono)
  have ab2: "a + b \<le> 2 * t" using te w(2) ab(1,2) by (simp add: abs_le_iff)
  have "\<bar>fsub a t - (a - t)\<bar> \<le> ulp * \<bar>a - t\<bar>" unfolding fsub_def by (rule fround_error)
  also have "\<dots> \<le> ulp * (b + w)" using te ab(2) w(1) ulp_small by (intro mult_left_mono) (simp_all add: abs_le_iff)
  also have "\<dots> \<le> w + w / 1000" using w ulp_small mult_right_mono [of ulp "1 / 1000" w] by (simp add: distrib_left)
  finally have "\<bar>fsub a t + b\<bar> \<le> 3 * w" using te w(1) unfolding abs_le_iff by linarith
  then have "\<bar>e\<bar> \<le> (1 + ulp) * (3 * w)" using fround_le [of "fsub a t + b"] ulp_small
    by (simp add: e_def fadd_def) (meson add_nonneg_nonneg less_imp_le mult_left_mono order_trans zero_le_one)
  also have "\<dots> \<le> 4 * w" using w(1) ulp_small mult_right_mono [of ulp "1 / 1000" "3 * w"] by (simp add: distrib_right)
  also have "\<dots> \<le> 8 * ulp * t" using ab2 ulp_small mult_left_mono [of "a + b" "2 * t" ulp] by (simp add: w_def)
  finally have e: "\<bar>e\<bar> \<le> 8 * ulp * t" .
  define P :: rat where "P = 2 ^ (k + 4)"
  have P: "16 \<le> P" using power_increasing [of 4 "k + 4" "2 :: rat"] by (simp add: P_def)
  have ut: "0 \<le> ulp * t" using ulp_small t0 by simp
  have "\<bar>c\<bar> \<le> P * (ulp * s)" using assms(4) by (simp add: P_def mult.assoc)
  also have "\<dots> \<le> P * (ulp * t)" using st P ulp_small by (intro mult_left_mono) simp_all
  finally have "\<bar>c\<bar> \<le> P * (ulp * t)" .
  then have "\<bar>c + e\<bar> \<le> (P + 8) * (ulp * t)" using e by (simp add: distrib_right mult.assoc)
  then have "\<bar>c'\<bar> \<le> (1 + ulp) * ((P + 8) * (ulp * t))" using fround_le [of "c + e"] ulp_small
    by (simp add: t(2) fadd_def) (meson add_nonneg_nonneg less_imp_le mult_left_mono order_trans zero_le_one)
  also have "\<dots> = ((1 + ulp) * (P + 8)) * (ulp * t)" by (simp add: mult.assoc)
  also have "\<dots> \<le> (2 * P) * (ulp * t)"
  proof (intro mult_right_mono ut)
    have "(1 + ulp) * (P + 8) \<le> (1 + 1 / 1000) * (P + 8)" using ulp_small P by (intro mult_right_mono) simp_all
    also have "\<dots> \<le> 2 * P" using P by (simp add: distrib_left distrib_right)
    finally show "(1 + ulp) * (P + 8) \<le> 2 * P" .
  qed
  finally have "\<bar>c'\<bar> \<le> 2 * P * (ulp * t)" .
  moreover have "2 ^ (Suc k + 4) = 2 * P" by (simp add: P_def power_add)
  ultimately show "\<bar>c'\<bar> \<le> 2 ^ (Suc k + 4) * ulp * t" by (simp only: mult.assoc)
qed

lemma sum_steps_error:
  assumes "foldl sum_step (s, c) xs = (t, d)" "0 \<le> s" "fround s = s" "\<forall>x \<in> set xs. 0 \<le> x" "\<bar>c\<bar> \<le> 2 ^ (k + 4) * ulp * s"
  shows "0 \<le> t \<and> fround t = t \<and> \<bar>d\<bar> \<le> 2 ^ (k + length xs + 4) * ulp * t"
  using assms
proof (induction xs arbitrary: s c k)
  case (Cons x xs)
  obtain s' c' where st: "sum_step (s, c) x = (s', c')" by force
  note e = sum_step_error [OF Cons.prems(2,3) _ Cons.prems(5) st]
  show ?case using Cons.IH [of s' c' "Suc k"] Cons.prems st e by simp
qed simp

lemma fl_sum_nonneg:
  assumes "\<forall>x \<in> set xs. 0 \<le> x" "length xs \<le> 40"
  shows "0 \<le> fl_sum xs"
proof -
  obtain t d where td: "foldl sum_step (0, 0) xs = (t, d)" by force
  have "0 \<le> t \<and> \<bar>d\<bar> \<le> 2 ^ (length xs + 4) * ulp * t" using sum_steps_error [OF td, of 0] assms(1) by simp
  moreover have "(2 :: rat) ^ (length xs + 4) \<le> 2 ^ 53" using assms(2) by (intro power_increasing) simp_all
  then have "2 ^ (length xs + 4) * ulp \<le> 1" by (simp add: ulp_def)
  ultimately have "0 \<le> t" "\<bar>d\<bar> \<le> t" using mult_right_mono [of "2 ^ (length xs + 4) * ulp" 1 t] by auto
  then have "0 \<le> t + d" by linarith
  then show ?thesis by (simp add: fl_sum_def td fadd_def flt.rnd_nonneg)
qed

subsection \<open>Oscillators\<close>

lemma oscillator_bounds:
  assumes "0 \<le> up" "0 \<le> down"
  shows "0 \<le> oscillator up down" "oscillator up down \<le> 100"
proof -
  have f100: "fround 100 = 100" by (rule fround_numeral) simp
  have "0 \<le> fdiv up down" using assms by (simp add: fdiv_def flt.rnd_nonneg)
  then have "1 \<le> fadd 1 (fdiv up down)" unfolding fadd_def by (intro flt.fixed_le_rnd) simp_all
  then have q: "0 \<le> fdiv 100 (fadd 1 (fdiv up down))" "fdiv 100 (fadd 1 (fdiv up down)) \<le> 100"
    unfolding fdiv_def [of 100] by (auto intro!: flt.rnd_nonneg flt.rnd_le_fixed simp: f100 divide_le_eq)
  then show "0 \<le> oscillator up down" "oscillator up down \<le> 100"
    using flt.rnd_le_fixed [OF f100] by (auto simp: oscillator_def fsub_def flt.rnd_nonneg)
qed

lemma favg_nonneg: "\<forall>x \<in> set xs. 0 \<le> x \<Longrightarrow> length xs \<le> 40 \<Longrightarrow> 0 \<le> favg xs n"
  using fl_sum_nonneg by (simp add: favg_def fdiv_def flt.rnd_nonneg)

lemma rsi_bounds: "rsi xs n = Some v \<Longrightarrow> n \<le> 40 \<Longrightarrow> 0 \<le> v \<and> v \<le> 100"
  using oscillator_bounds favg_nonneg by (auto simp: rsi_def Let_def split: if_splits)

lemma mfi_bounds:
  assumes "mfi high low close volume n = Some v" "length high = length close" "length low = length close" "length volume = length close"
    and "\<forall>x \<in> set high \<union> set low \<union> set close \<union> set volume. 0 \<le> x"
  shows "0 \<le> v \<and> v \<le> 100"
proof -
  define tps where "tps = typicals high low close"
  have l: "length tps = length close" using assms(2,3) by (simp add: tps_def typicals_def)
  have "0 \<le> tps ! i" if "i < length close" for i
    using that assms(2,3,5) by (simp add: tps_def typicals_def typical_def fdiv_def fadd_def flt.rnd_nonneg)
  then have flow: "0 \<le> fmul (tps ! i) (volume ! i)" if "i < length close" for i
    using that assms(4,5) by (simp add: fmul_def flt.rnd_nonneg)
  have "0 \<le> fst st' \<and> 0 \<le> snd st'"
    if "foldl (mfi_step tps volume) st ids = st'" "\<forall>i \<in> set ids. i < length close" "0 \<le> fst st" "0 \<le> snd st" for st st' ids
    using that
  proof (induction ids arbitrary: st)
    case (Cons i ids)
    then show ?case using flow [of i] Cons.IH [of "mfi_step tps volume st i"]
      by (simp add: mfi_step_def Let_def fadd_def flt.rnd_nonneg)
  qed simp
  from this [of "(0, 0)" "[length close - n..<length close]"]
  show ?thesis using assms(1) oscillator_bounds by (auto simp: mfi_def tps_def split: if_splits prod.splits)
qed

lemma rsi_items:
  "(name, v) \<in> set (indicator_items close high low volume) \<Longrightarrow> name \<in> {''rsi_6'', ''rsi_14'', ''rsi_21''} \<Longrightarrow> v \<in> {rsi close 6, rsi close 14, rsi close 21}"
  by (auto simp: indicator_items_def ichimoku_def Let_def split: prod.splits)

lemma rsi_6_given:
  assumes "series_of kl_close ks \<noteq> []" "length (series_of kl_close ks) = length (series_of kl_high ks)"
    "length (series_of kl_high ks) = length (series_of kl_low ks)" "length (series_of kl_low ks) = length (series_of kl_volume ks)"
  shows "(''rsi_6'', rsi (series_of kl_close ks) 6) \<in> set (tk_items (calculate_technical_indicators ks))"
proof -
  have "series_of kl_high ks \<noteq> []" "series_of kl_low ks \<noteq> []" "series_of kl_volume ks \<noteq> []"
    using assms by (metis length_0_conv)+
  then have "tk_items (calculate_technical_indicators ks) =
      indicator_items (series_of kl_close ks) (series_of kl_high ks) (series_of kl_low ks) (series_of kl_volume ks)"
    using assms by (simp add: calculate_technical_indicators_def Let_def)
  moreover have "(''rsi_6'', rsi close 6) \<in> set (indicator_items close high low volume)" for close high low volume
    by (cases "macd close"; cases "stochastic high low close 14"; cases "adx high low close 14") (simp add: indicator_items_def Let_def)
  ultimately show ?thesis by (simp only:)
qed

lemma mfi_item:
  "(''mfi_14'', v) \<in> set (indicator_items close high low volume) \<Longrightarrow> v = mfi high low close volume 14"
  by (auto simp: indicator_items_def ichimoku_def Let_def split: prod.splits)

text \<open>C30: the relative strength indices lie between 0 and 100 for whatever candles, in the floating-point arithmetic
  of the code; so does the money flow index for candles without negative prices and volumes, which the code does not
  check: \<open>negative_volume_escapes\<close> shows that it is needed.\<close>

theorem oscillators_bounded:
  assumes "(name, Some v) \<in> set (tk_items (calculate_technical_indicators ks))"
    and "name \<in> {''rsi_6'', ''rsi_14'', ''rsi_21''} \<or>
      name = ''mfi_14'' \<and> (\<forall>key \<in> {kl_close, kl_high, kl_low, kl_volume}. \<forall>x \<in> set (series_of key ks). 0 \<le> x)"
  shows "0 \<le> v \<and> v \<le> 100"
proof -
  define close high low volume where defs: "close = series_of kl_close ks" "high = series_of kl_high ks" "low = series_of kl_low ks"
    "volume = series_of kl_volume ks"
  have item: "(name, Some v) \<in> set (indicator_items close high low volume)"
    and l: "length high = length close" "length low = length close" "length volume = length close"
    using assms(1) by (auto simp: calculate_technical_indicators_def defs Let_def split: if_splits)
  from assms(2) show ?thesis
  proof
    assume "name \<in> {''rsi_6'', ''rsi_14'', ''rsi_21''}"
    from rsi_items [OF item this] obtain n where "n \<in> {6, 14, 21}" "rsi close n = Some v" by fastforce
    then show ?thesis using rsi_bounds [of close n v] by auto
  next
    assume m: "name = ''mfi_14'' \<and> (\<forall>key \<in> {kl_close, kl_high, kl_low, kl_volume}. \<forall>x \<in> set (series_of key ks). 0 \<le> x)"
    then have "Some v = mfi high low close volume 14" using mfi_item item by blast
    then show ?thesis using mfi_bounds [OF _ l, of 14 v] m by (auto simp: defs)
  qed
qed

lemma negative_volume_escapes:
  "case mfi [100, 101, 100] [100, 101, 100] [100, 101, 100] [1, 3, -1] 2 of Some v \<Rightarrow> 100 < v | None \<Rightarrow> False"
  by code_simp

lemma series_None: "k \<in> set ks \<Longrightarrow> (\<And>t. key k = Some t \<Longrightarrow> parse_decimal (strip t) = None) \<Longrightarrow> series key ks = None"
  by (induction ks) (auto simp: float_of_text_def split: option.split)

text \<open>If one candle lacks a field, or holds a text there that is no number, no indicator is given at all.\<close>

theorem unusable_candle_unavailable:
  assumes "k \<in> set ks" "key \<in> {kl_close, kl_high, kl_low, kl_volume}" "\<And>t. key k = Some t \<Longrightarrow> parse_decimal (strip t) = None"
  shows "tk_status (calculate_technical_indicators ks) = ''UNAVAILABLE'' \<and> tk_items (calculate_technical_indicators ks) = []"
proof -
  have "series_of key ks = []" using series_None [OF assms(1,3)] by (simp add: series_of_def)
  then show ?thesis using assms(2) by (auto simp: calculate_technical_indicators_def Let_def)
qed

subsection \<open>Examples\<close>

definition ex_full_candle :: "nat \<Rightarrow> candle" where
  "ex_full_candle k = (let t = Some (int_digits (100 + int k))
     in \<lparr> kl_time = Some (int k), kl_open = t, kl_high = t, kl_low = t, kl_close = t, kl_volume = Some ''1'' \<rparr>)"

definition ex_rising :: "candle list" where
  "ex_rising = map ex_full_candle [0..<7]"

lemma ex_rising_series: "series_of kl_close ex_rising = map of_nat [100..<107]" "series_of kl_high ex_rising = map of_nat [100..<107]"
  "series_of kl_low ex_rising = map of_nat [100..<107]" "series_of kl_volume ex_rising = replicate 7 1"
  by code_simp+

theorem oscillators_bounded_witness:
  "rsi (map of_nat [100..<107]) 6 = Some 100 \<and> (''rsi_6'', Some 100) \<in> set (tk_items (calculate_technical_indicators ex_rising)) \<and> (100 :: fl) \<le> 100"
proof -
  have r: "rsi (map of_nat [100..<107]) 6 = Some 100" by code_simp
  have "series_of kl_close ex_rising \<noteq> []" "length (series_of kl_close ex_rising) = length (series_of kl_high ex_rising)"
    "length (series_of kl_high ex_rising) = length (series_of kl_low ex_rising)"
    "length (series_of kl_low ex_rising) = length (series_of kl_volume ex_rising)"
    unfolding ex_rising_series by simp_all
  from rsi_6_given [OF this] have "(''rsi_6'', rsi (map of_nat [100..<107]) 6) \<in> set (tk_items (calculate_technical_indicators ex_rising))"
    by (simp only: ex_rising_series)
  then have i: "(''rsi_6'', Some 100) \<in> set (tk_items (calculate_technical_indicators ex_rising))" by (simp only: r)
  show ?thesis using oscillators_bounded [OF i] r i by simp
qed

theorem unusable_candle_unavailable_witness:
  "tk_status (calculate_technical_indicators ((ex_full_candle 7)\<lparr> kl_volume := None \<rparr> # ex_rising)) = ''UNAVAILABLE''"
  using unusable_candle_unavailable [of "(ex_full_candle 7)\<lparr> kl_volume := None \<rparr>" _ kl_volume] by simp

end
