(* ===== verification/Time_Text.thy ===== *)
theory Time_Text
  imports Python_Values
begin

text \<open>
  Times as text: \<open>datetime.isoformat()\<close> in UTC, from microseconds since 1970, and \<open>str\<close> of a float that is neither very
  large nor very small, as in the identifiers made of \<open>timestamp()\<close>.
\<close>

text \<open>The civil date of a day, counted from the first of March of the year 0.\<close>

definition civil_date :: "int \<Rightarrow> int \<times> int \<times> int" where
  "civil_date days =
     (let z = days + 719468; era = z div 146097; doe = z - era * 146097;
          yoe = (doe - doe div 1460 + doe div 36524 - doe div 146096) div 365;
          doy = doe - (365 * yoe + yoe div 4 - yoe div 100); mp = (5 * doy + 2) div 153;
          m = (if mp < 10 then mp + 3 else mp - 9)
      in (yoe + era * 400 + (if m \<le> 2 then 1 else 0), m, doy - (153 * mp + 2) div 5 + 1))"

definition iso_text :: "usec \<Rightarrow> string" where
  "iso_text t =
     (let secs = t div 1000000; micros = t mod 1000000; sod = secs mod 86400; (y, m, d) = civil_date (secs div 86400)
      in fixed_digits 4 y @ ''-'' @ fixed_digits 2 m @ ''-'' @ fixed_digits 2 d @ ''T'' @ fixed_digits 2 (sod div 3600) @ '':'' @
         fixed_digits 2 (sod div 60 mod 60) @ '':'' @ fixed_digits 2 (sod mod 60) @
         (if micros = 0 then [] else ''.'' @ fixed_digits 6 micros) @ ''+00:00'')"

definition float_text :: "fl \<Rightarrow> string" where
  "float_text x = (let t = plain_text (repr_dec x) in if CHR ''.'' \<in> set t then t else t @ ''.0'')"

definition stamp_text :: "usec \<Rightarrow> string" where
  "stamp_text t = float_text (total_seconds t)"

lemma civil_date_examples:
  "civil_date 0 = (1970, 1, 1)" "civil_date 58 = (1970, 2, 28)" "civil_date 59 = (1970, 3, 1)" "civil_date 11016 = (2000, 2, 29)"
  "civil_date 19782 = (2024, 2, 29)" "civil_date 20088 = (2024, 12, 31)"
  by code_simp+

lemma iso_text_examples:
  "iso_text 0 = ''1970-01-01T00:00:00+00:00''" "iso_text 1709208000000500 = ''2024-02-29T12:00:00.000500+00:00''"
  by code_simp+

end
