(* ===== verification/Live_Context.thy ===== *)
theory Live_Context
  imports Technical_Indicators Paper_Market Time_Text Effects
begin

text \<open>
  \<open>runtime/live_decision_context.py\<close>: candles with a short cache for each symbol, and the bundle of factors,
  indicators and evidence for a decision. The candle feed, the clock, the factor gateway and the
  store of snapshots act on a state \<open>'x\<close> of their own. The lemmas show what the cache may answer, and that
  a store that fails does not hold up a decision.
\<close>

subsection \<open>The provider\<close>

record factor_snapshot =
  fs_id :: string
  fs_version :: string

record 'x live_env =
  lv_feed :: "string \<Rightarrow> ('x, candle list) eff"
  lv_factors :: "string \<Rightarrow> candle list \<Rightarrow> derivatives \<Rightarrow> ('x, factor_snapshot) eff"
  lv_persist :: "(factor_snapshot \<Rightarrow> ('x, unit) eff) option"
  lv_monotonic :: "'x \<Rightarrow> 'x \<times> fl"
  lv_now :: "'x \<Rightarrow> 'x \<times> usec"
  lv_min :: nat
  lv_ttl :: fl

record live_context =
  lc_symbol :: string
  lc_builders :: "(string, evidence_builder) dict"
  lc_cache :: "(string, fl \<times> candle list) dict"

type_synonym ('x, 'a) lact = "('x \<times> live_context, 'a) eff"

definition on_world :: "('x, 'a) eff \<Rightarrow> ('x, 'a) lact" where
  "on_world m = eff_zoom fst (\<lambda>x p. (x, snd p)) m"

definition reads :: "('x \<Rightarrow> 'x \<times> 'a) \<Rightarrow> ('x, 'a) eff" where
  "reads clock x = (case clock x of (y, t) \<Rightarrow> (y, ret t))"

definition on_live :: "(live_context \<Rightarrow> live_context) \<Rightarrow> ('x, unit) lact" where
  "on_live f = eff_mod (\<lambda>p. (fst p, f (snd p)))"

definition builder_for :: "string \<Rightarrow> live_context \<Rightarrow> evidence_builder" where
  "builder_for sy c = (case map_of (lc_builders c) sy of Some b \<Rightarrow> b | None \<Rightarrow> evidence_builder_init sy)"

definition put_builder :: "string \<Rightarrow> evidence_builder \<Rightarrow> live_context \<Rightarrow> live_context" where
  "put_builder sy b c = c\<lparr> lc_builders := AList.update sy b (lc_builders c) \<rparr>"

definition live_context_init :: "string \<Rightarrow> live_context res" where
  "live_context_init raw =
     rbind (to_canonical raw) (\<lambda>sy. ret (put_builder sy (evidence_builder_init sy) \<lparr> lc_symbol = sy, lc_builders = [], lc_cache = [] \<rparr>))"

definition set_symbol :: "string \<Rightarrow> ('x, unit) lact" where
  "set_symbol raw =
     eff_bind (eff_lift (to_canonical raw)) (\<lambda>sy. on_live (\<lambda>c. put_builder sy (builder_for sy c) (c\<lparr> lc_symbol := sy \<rparr>)))"

subsection \<open>Candles\<close>

definition get_candles :: "'x live_env \<Rightarrow> string \<Rightarrow> fl option \<Rightarrow> ('x, candle list) lact" where
  "get_candles env raw age =
     eff_bind (eff_lift (to_canonical raw)) (\<lambda>sy.
     (let ttl = (case age of None \<Rightarrow> max (lv_ttl env) 0 | Some a \<Rightarrow> max a 0) in
      eff_bind (on_world (reads (lv_monotonic env))) (\<lambda>now.
      eff_bind (eff_get (\<lambda>p. map_of (lc_cache (snd p)) sy)) (\<lambda>cached.
        if (case cached of Some (t, ks) \<Rightarrow> fsub now t \<le> ttl | None \<Rightarrow> False) then eff_ret (snd (the cached))
        else eff_bind (on_world (lv_feed env sy)) (\<lambda>ks.
          if ks \<noteq> [] then eff_then (on_live (\<lambda>c. c\<lparr> lc_cache := AList.update sy (now, ks) (lc_cache c) \<rparr>)) (eff_ret ks)
          else eff_ret [])))))"

subsection \<open>The bundle\<close>

record decision_bundle =
  bn_snapshot :: factor_snapshot
  bn_evidence :: evidence_package
  bn_technical :: technicals
  bn_persisted :: bool

definition persist_snapshot :: "'x live_env \<Rightarrow> factor_snapshot \<Rightarrow> ('x, bool) lact" where
  "persist_snapshot env f =
     (case lv_persist env of
        None \<Rightarrow> eff_ret True
      | Some store \<Rightarrow> eff_try (eff_then (on_world (store f)) (eff_ret True)) (\<lambda>e. eff_ret False))"

definition build_for :: "string \<Rightarrow> candle list \<Rightarrow> derivatives \<Rightarrow> string \<Rightarrow> ('x, evidence_package) lact" where
  "build_for sy ks dv now p =
     (case build_evidence ks dv now (builder_for sy (snd p)) of (b, r) \<Rightarrow> ((fst p, put_builder sy b (snd p)), r))"

text \<open>From the moment its symbol is set, a bundle is built for that symbol.\<close>

definition bundle_rest :: "'x live_env \<Rightarrow> derivatives \<Rightarrow> string \<Rightarrow> ('x, decision_bundle option) lact" where
  "bundle_rest env dv sy =
     eff_bind (get_candles env sy None) (\<lambda>ks.
        if ks = [] \<or> length ks < lv_min env then eff_ret None
        else
          eff_bind (on_world (lv_factors env sy ks dv)) (\<lambda>f.
          eff_bind (persist_snapshot env f) (\<lambda>ok.
          eff_bind (on_world (reads (lv_now env))) (\<lambda>now.
          eff_bind (build_for sy ks dv (iso_text now)) (\<lambda>ev.
            eff_ret (Some \<lparr> bn_snapshot = f, bn_evidence = ev, bn_technical = calculate_technical_indicators ks, bn_persisted = ok \<rparr>))))))"

definition build_bundle :: "'x live_env \<Rightarrow> derivatives \<Rightarrow> string option \<Rightarrow> ('x, decision_bundle option) lact" where
  "build_bundle env dv raw =
     eff_bind (case raw of Some r \<Rightarrow> if r \<noteq> [] then eff_lift (to_canonical r) else eff_get (\<lambda>p. lc_symbol (snd p))
                 | None \<Rightarrow> eff_get (\<lambda>p. lc_symbol (snd p))) (\<lambda>sy. eff_then (set_symbol sy) (bundle_rest env dv sy))"

subsection \<open>One builder for each symbol\<close>

definition builders_ok :: "live_context \<Rightarrow> bool" where
  "builders_ok c \<longleftrightarrow> (\<forall>k b. map_of (lc_builders c) k = Some b \<longrightarrow> eb_symbol b = k)"

text \<open>Steps that change the builder of one symbol at most, and keep every builder on its symbol.\<close>

definition own_builder :: "string \<Rightarrow> 'x \<times> live_context \<Rightarrow> 'x \<times> live_context \<Rightarrow> bool" where
  "own_builder sy s t \<longleftrightarrow> (builders_ok (snd s) \<longrightarrow> builders_ok (snd t)) \<and>
     (\<forall>k. k \<noteq> sy \<longrightarrow> map_of (lc_builders (snd t)) k = map_of (lc_builders (snd s)) k)"

interpretation own: step_relation "own_builder sy" for sy
  by unfold_locales (auto simp: own_builder_def)

lemma own_world: "moves (own_builder sy) (on_world m)"
  by (auto simp: on_world_def intro: own.zoom simp: own_builder_def)

lemma own_live: "(\<And>c. lc_builders (f c) = lc_builders c) \<Longrightarrow> moves (own_builder sy) (on_live f)"
  unfolding on_live_def by (rule own.upd) (simp add: own_builder_def builders_ok_def)

lemma builders_ok_put: "builders_ok c \<Longrightarrow> eb_symbol b = sy \<Longrightarrow> builders_ok (put_builder sy b c)"
  by (simp add: builders_ok_def put_builder_def map_of_update)

lemma builder_for_symbol: "builders_ok c \<Longrightarrow> eb_symbol (builder_for sy c) = sy"
  by (simp add: builders_ok_def builder_for_def evidence_builder_init_def split: option.split)

lemma own_put: "(builders_ok (snd s) \<Longrightarrow> eb_symbol b = sy) \<Longrightarrow> own_builder sy s (y, put_builder sy b (snd s))"
  using builders_ok_put [of "snd s" b sy] by (auto simp: own_builder_def put_builder_def map_of_update)

lemma build_keeps_symbol: "build_evidence ks dv now e = (e', r) \<Longrightarrow> eb_symbol e' = eb_symbol e"
  by (erule build_evidence_cases) auto

lemma own_build: "moves (own_builder sy) (build_for sy ks dv now)"
proof -
  have "own_builder sy s (fst (build_for sy ks dv now s))" for s :: "'x \<times> live_context"
  proof -
    obtain b r where b: "build_evidence ks dv now (builder_for sy (snd s)) = (b, r)" by force
    then have "builders_ok (snd s) \<Longrightarrow> eb_symbol b = sy" using build_keeps_symbol builder_for_symbol by metis
    then show ?thesis using b own_put [of s b sy] by (simp add: build_for_def)
  qed
  then show ?thesis unfolding moves_def by blast
qed

lemma own_candles: "moves (own_builder sy) (get_candles env raw age)"
  unfolding get_candles_def Let_def by (intro own.rules own_world own_live) simp

lemma set_symbol_simp:
  "to_canonical raw = ret sy \<Longrightarrow> set_symbol raw s = ((fst s, put_builder sy (builder_for sy (snd s)) ((snd s)\<lparr> lc_symbol := sy \<rparr>)), ret ())"
  by (simp add: set_symbol_def on_live_def builder_for_def)

lemma own_set: "to_canonical raw = ret sy \<Longrightarrow> moves (own_builder sy) (set_symbol raw)"
  unfolding moves_def using own_put [of _ "builder_for sy _" sy]
  by (auto simp: set_symbol_simp own_builder_def builders_ok_def put_builder_def map_of_update builder_for_def evidence_builder_init_def
    split: option.splits)

lemma own_persist: "moves (own_builder sy) (persist_snapshot env f)"
  unfolding persist_snapshot_def by (cases "lv_persist env") (auto intro!: own.rules own_world)

lemma own_rest: "moves (own_builder sy) (bundle_rest env dv sy)"
  unfolding bundle_rest_def by (intro own.rules own_world own_build own_candles own_persist)

definition same_symbol :: "'x \<times> live_context \<Rightarrow> 'x \<times> live_context \<Rightarrow> bool" where
  "same_symbol s t \<longleftrightarrow> lc_symbol (snd t) = lc_symbol (snd s)"

interpretation same: step_relation same_symbol
  by unfold_locales (simp_all add: same_symbol_def)

lemma same_world: "moves same_symbol (on_world m)"
  by (auto simp: on_world_def intro: same.zoom simp: same_symbol_def)

lemma same_live: "(\<And>c. lc_symbol (f c) = lc_symbol c) \<Longrightarrow> moves same_symbol (on_live f)"
  unfolding on_live_def by (rule same.upd) (simp add: same_symbol_def)

lemma same_rest: "moves same_symbol (bundle_rest env dv sy)"
proof -
  have "moves same_symbol (get_candles env sy None)" unfolding get_candles_def Let_def by (intro same.rules same_world same_live) simp_all
  moreover have "moves same_symbol (persist_snapshot env f)" for f
    unfolding persist_snapshot_def by (cases "lv_persist env") (auto intro!: same.rules same_world)
  moreover have "moves same_symbol (build_for sy ks dv now)" for ks now
    unfolding moves_def build_for_def by (auto simp: same_symbol_def put_builder_def split: prod.split)
  ultimately show ?thesis unfolding bundle_rest_def by (intro same.rules same_world)
qed

lemma package_symbol:
  assumes "build_evidence ks dv now e = (e', ret p)"
  shows "sp_symbol p = eb_symbol e"
  using assms by (cases rule: build_evidence_cases) (simp_all add: no_history_def package_of_def Let_def)

lemma rest_symbol:
  assumes "bundle_rest env dv sy s = (t, ret (Some b))" "builders_ok (snd s)"
  shows "sp_symbol (bn_evidence b) = sy"
proof -
  note eqs = assms(1) [unfolded bundle_rest_def]
  from eqs obtain ks s1 where 1: "get_candles env sy None s = (s1, ret ks)"
    "(if ks = [] \<or> length ks < lv_min env then eff_ret None
      else eff_bind (on_world (lv_factors env sy ks dv)) (\<lambda>f. eff_bind (persist_snapshot env f) (\<lambda>ok.
        eff_bind (on_world (reads (lv_now env))) (\<lambda>now. eff_bind (build_for sy ks dv (iso_text now)) (\<lambda>ev.
          eff_ret (Some \<lparr> bn_snapshot = f, bn_evidence = ev, bn_technical = calculate_technical_indicators ks, bn_persisted = ok \<rparr>)))))) s1 = (t, ret (Some b))"
    by (cases rule: eff_bind_cases) auto
  then have 2: "eff_bind (on_world (lv_factors env sy ks dv)) (\<lambda>f. eff_bind (persist_snapshot env f) (\<lambda>ok.
        eff_bind (on_world (reads (lv_now env))) (\<lambda>now. eff_bind (build_for sy ks dv (iso_text now)) (\<lambda>ev.
          eff_ret (Some \<lparr> bn_snapshot = f, bn_evidence = ev, bn_technical = calculate_technical_indicators ks, bn_persisted = ok \<rparr>))))) s1 = (t, ret (Some b))"
    by (auto split: if_splits)
  then obtain f s2 ok s3 now s4 ev where 3: "on_world (lv_factors env sy ks dv) s1 = (s2, ret f)" "persist_snapshot env f s2 = (s3, ret ok)"
    "on_world (reads (lv_now env)) s3 = (s4, ret now)" "build_for sy ks dv (iso_text now) s4 = (t, ret ev)" "bn_evidence b = ev"
    by (auto elim!: eff_bind_cases)
  have "own_builder sy s s1" "own_builder sy s1 s2" "own_builder sy s2 s3" "own_builder sy s3 s4"
    using movesD [OF own_candles 1(1)] movesD [OF own_world 3(1)] movesD [OF own_persist 3(2)] movesD [OF own_world 3(3)] by blast+
  then have "builders_ok (snd s4)" using assms(2) by (simp add: own_builder_def)
  then show ?thesis
    using 3(4,5) package_symbol builder_for_symbol by (auto simp: build_for_def split: prod.splits)
qed

lemma build_bundle_named:
  assumes "to_canonical raw = ret sy" "raw \<noteq> []"
  shows "build_bundle env dv (Some raw) s = eff_then (set_symbol sy) (bundle_rest env dv sy) s"
  using assms by (simp add: build_bundle_def bundle_rest_def)

text \<open>A bundle that is asked for under any name of a symbol is built by that symbol's own builder and reports that symbol; the
  provider then stands on it, and the builders of all other symbols, with their histories of volatility, are as before.\<close>

theorem bundle_about_symbol:
  assumes "builders_ok c" "to_canonical raw = ret sy" "raw \<noteq> []" "build_bundle env dv (Some raw) (x, c) = ((y, d), r)"
  shows "builders_ok d \<and> lc_symbol d = sy \<and> (\<forall>k. k \<noteq> sy \<longrightarrow> map_of (lc_builders d) k = map_of (lc_builders c) k) \<and>
    (\<forall>b. r = ret (Some b) \<longrightarrow> sp_symbol (bn_evidence b) = sy)"
proof -
  have again: "to_canonical sy = ret sy" using canonical_known [OF assms(2)] canonical_again by blast
  define s1 where "s1 = (x, put_builder sy (builder_for sy c) (c\<lparr> lc_symbol := sy \<rparr>))"
  have rest: "bundle_rest env dv sy s1 = ((y, d), r)"
    using assms(4) unfolding build_bundle_named [OF assms(2,3)] by (simp add: set_symbol_simp [OF again] s1_def)
  have "own_builder sy (x, c) s1" using movesD [OF own_set [OF again] set_symbol_simp [OF again, of "(x, c)"]] by (simp add: s1_def)
  moreover from this have "builders_ok (snd s1)" using assms(1) by (simp add: own_builder_def)
  moreover have "own_builder sy s1 (y, d)" "same_symbol s1 (y, d)" using movesD [OF own_rest rest] movesD [OF same_rest rest] by blast+
  moreover have "lc_symbol (snd s1) = sy" by (simp add: s1_def put_builder_def)
  ultimately show ?thesis using rest_symbol [of env dv sy s1] rest assms(1) by (auto simp: own_builder_def same_symbol_def)
qed

subsection \<open>A store that fails\<close>

lemma on_world_raises: "(\<And>x. store f x = (x, Inl (err f x))) \<Longrightarrow>
    persist_snapshot (env\<lparr> lv_persist := Some store \<rparr>) f s = (s, ret False)"
  by (simp add: persist_snapshot_def on_world_def eff_try_def eff_bind_def eff_zoom_def)

lemma store_only [simp]:
  "lv_feed (env\<lparr> lv_persist := p \<rparr>) = lv_feed env" "lv_factors (env\<lparr> lv_persist := p \<rparr>) = lv_factors env"
  "lv_monotonic (env\<lparr> lv_persist := p \<rparr>) = lv_monotonic env" "lv_now (env\<lparr> lv_persist := p \<rparr>) = lv_now env"
  "lv_min (env\<lparr> lv_persist := p \<rparr>) = lv_min env" "lv_ttl (env\<lparr> lv_persist := p \<rparr>) = lv_ttl env"
  by simp_all

lemma candles_store: "get_candles (env\<lparr> lv_persist := p \<rparr>) raw age = get_candles env raw age"
  unfolding get_candles_def store_only ..

definition unpersisted :: "decision_bundle \<Rightarrow> decision_bundle" where
  "unpersisted b = b\<lparr> bn_persisted := False \<rparr>"

text \<open>A store of snapshots that always fails, without doing anything else, does not change the decision context: the provider
  answers what it answers without a store, with the same candles, factors and evidence, and only the mark that
  the snapshot is stored is missing.\<close>

theorem failing_store_harmless:
  assumes "\<And>f x. store f x = (x, Inl (err f x))"
  shows "build_bundle (env\<lparr> lv_persist := Some store \<rparr>) dv raw s =
    (case build_bundle (env\<lparr> lv_persist := None \<rparr>) dv raw s of (t, r) \<Rightarrow> (t, map_sum id (map_option unpersisted) r))"
proof -
  have none: "persist_snapshot (env\<lparr> lv_persist := None \<rparr>) f s = (s, ret True)" for f s by (simp add: persist_snapshot_def)
  have rest: "bundle_rest (env\<lparr> lv_persist := Some store \<rparr>) dv sy s =
    (case bundle_rest (env\<lparr> lv_persist := None \<rparr>) dv sy s of (t, r) \<Rightarrow> (t, map_sum id (map_option unpersisted) r))" for sy s
    by (simp add: bundle_rest_def candles_store eff_bind_def none on_world_raises [of store, OF assms] unpersisted_def
      split: prod.split sum.split)
  show ?thesis by (simp add: build_bundle_def eff_bind_def rest split: prod.split sum.split)
qed

subsection \<open>Examples\<close>

text \<open>A feed that always delivers the thirty candles; the state of the world is a counter that the clock reads.\<close>

definition ex_live_env :: "nat live_env" where
  "ex_live_env = \<lparr> lv_feed = (\<lambda>sy x. (x, ret ex_candles)), lv_factors = (\<lambda>sy ks dv x. (x, ret \<lparr> fs_id = ''fsnap_1'', fs_version = ''v1'' \<rparr>)),
     lv_persist = None, lv_monotonic = (\<lambda>x. (x + 1, of_nat x)), lv_now = (\<lambda>x. (x, 0)), lv_min = 30, lv_ttl = 10 \<rparr>"

definition ex_live :: live_context where
  "ex_live = put_builder ''BTCUSDT'' (evidence_builder_init ''BTCUSDT'') \<lparr> lc_symbol = ''BTCUSDT'', lc_builders = [], lc_cache = [] \<rparr>"

lemma ex_live_init: "live_context_init ''btcusdt'' = ret ex_live" "to_canonical ''btcusdt'' = ret ''BTCUSDT''" "to_canonical ''BTCUSDT'' = ret ''BTCUSDT''"
  by code_simp+

lemma ex_live_ok: "builders_ok ex_live"
  by (simp add: ex_live_def builders_ok_def put_builder_def evidence_builder_init_def)

lemma ex_candles_length: "length ex_candles = 30" "ex_candles \<noteq> []"
proof -
  show "length ex_candles = 30" by (simp add: ex_candles_def)
  then show "ex_candles \<noteq> []" by force
qed

text \<open>States that the feed's candles have gone into.\<close>

definition ex_fine :: "live_context \<Rightarrow> bool" where
  "ex_fine c \<longleftrightarrow> builders_ok c \<and> (\<forall>t ks. map_of (lc_cache c) ''BTCUSDT'' = Some (t, ks) \<longrightarrow> ks = ex_candles)"

lemma ex_fine_live: "ex_fine ex_live"
  using ex_live_ok by (simp add: ex_fine_def ex_live_def put_builder_def)

lemma ex_fine_set:
  assumes "ex_fine c"
  shows "\<exists>d. set_symbol ''BTCUSDT'' (x, c) = ((x, d), ret ()) \<and> ex_fine d \<and> lc_symbol d = ''BTCUSDT''"
proof -
  define d where "d = put_builder ''BTCUSDT'' (builder_for ''BTCUSDT'' c) (c\<lparr> lc_symbol := ''BTCUSDT'' \<rparr>)"
  have "builders_ok (c\<lparr> lc_symbol := ''BTCUSDT'' \<rparr>)" "eb_symbol (builder_for ''BTCUSDT'' c) = ''BTCUSDT''"
    using assms builder_for_symbol by (auto simp: ex_fine_def builders_ok_def)
  then have "builders_ok d" unfolding d_def by (rule builders_ok_put)
  then have "ex_fine d" using assms by (simp add: ex_fine_def d_def put_builder_def)
  moreover have "set_symbol ''BTCUSDT'' (x, c) = ((x, d), ret ())" by (simp add: set_symbol_simp [OF ex_live_init(3)] d_def)
  moreover have "lc_symbol d = ''BTCUSDT''" by (simp add: d_def put_builder_def)
  ultimately show ?thesis by blast
qed

lemma ex_fine_candles:
  assumes "ex_fine c"
  shows "\<exists>d. get_candles ex_live_env ''BTCUSDT'' None (x, c) = ((x + 1, d), ret ex_candles) \<and> ex_fine d"
proof -
  define cached where "cached = map_of (lc_cache c) ''BTCUSDT''"
  define fresh where "fresh = (case cached of Some (t, ks) \<Rightarrow> fsub (of_nat x) t \<le> 10 | None \<Rightarrow> False)"
  define d where "d = c\<lparr> lc_cache := AList.update ''BTCUSDT'' (of_nat x, ex_candles) (lc_cache c) \<rparr>"
  have g: "get_candles ex_live_env ''BTCUSDT'' None (x, c) = (if fresh then ((x + 1, c), ret (snd (the cached))) else ((x + 1, d), ret ex_candles))"
    by (cases fresh) (simp_all add: get_candles_def ex_live_init Let_def on_world_def eff_zoom_def reads_def ex_live_env_def eff_bind_def
      ex_candles_length on_live_def cached_def [symmetric] fresh_def d_def)
  have "ex_fine d" using assms by (simp add: ex_fine_def d_def builders_ok_def map_of_update)
  moreover have "snd (the cached) = ex_candles" if fresh
    using assms that by (auto simp: fresh_def ex_fine_def cached_def split: option.splits)
  ultimately show ?thesis using assms g by (cases fresh) auto
qed

lemma ex_rest:
  assumes "ex_fine c"
  shows "\<exists>d b. bundle_rest ex_live_env ex_derivatives ''BTCUSDT'' (x, c) = ((x + 1, d), ret (Some b)) \<and>
    bn_snapshot b = \<lparr> fs_id = ''fsnap_1'', fs_version = ''v1'' \<rparr> \<and> sp_candidates (bn_evidence b) \<noteq> [] \<and> ex_fine d"
proof -
  obtain c1 where c1: "get_candles ex_live_env ''BTCUSDT'' None (x, c) = ((x + 1, c1), ret ex_candles)" "ex_fine c1"
    using ex_fine_candles [OF assms] by blast
  then have sy: "eb_symbol (builder_for ''BTCUSDT'' c1) = ''BTCUSDT''" by (simp add: ex_fine_def builder_for_symbol)
  obtain e' p where b: "build_evidence ex_candles ex_derivatives (iso_text 0) (builder_for ''BTCUSDT'' c1) = (e', ret p)" "known p"
    using ex_built [OF sy] by blast
  have "package_ok p" using b by (cases rule: build_evidence_cases) (auto simp: package_of_ok)
  then have "sp_candidates p \<noteq> []" using b(2) by (auto simp: package_ok_def known_def strategy_names_def)
  moreover have "ex_fine (put_builder ''BTCUSDT'' e' c1)"
    using c1(2) builders_ok_put [of c1 e'] build_keeps_symbol [OF b(1)] sy by (simp add: ex_fine_def put_builder_def)
  ultimately show ?thesis using b c1(1)
    by (simp add: bundle_rest_def on_world_def eff_zoom_def reads_def ex_live_env_def eff_bind_def ex_candles_length persist_snapshot_def build_for_def)
qed

theorem bundle_about_symbol_witness:
  "\<exists>y d b. build_bundle ex_live_env ex_derivatives (Some ''btcusdt'') (0, ex_live) = ((y, d), ret (Some b)) \<and>
     sp_symbol (bn_evidence b) = ''BTCUSDT'' \<and> lc_symbol d = ''BTCUSDT''"
proof -
  obtain c where c: "set_symbol ''BTCUSDT'' (0 :: nat, ex_live) = ((0, c), ret ())" "ex_fine c" using ex_fine_set [OF ex_fine_live, of 0] by (elim exE conjE) (rule that)
  from ex_rest [OF c(2), of 0] obtain d b where r: "bundle_rest ex_live_env ex_derivatives ''BTCUSDT'' (0, c) = ((0 + 1, d), ret (Some b))"
    by (elim exE conjE) (rule that)
  have built: "build_bundle ex_live_env ex_derivatives (Some ''btcusdt'') (0, ex_live) = ((0 + 1, d), ret (Some b))"
    by (subst build_bundle_named [OF ex_live_init(2)]) (simp, simp only: eff_bind_def c(1) r prod.case sum.case)
  with bundle_about_symbol [OF ex_live_ok ex_live_init(2) _ built] have "sp_symbol (bn_evidence b) = ''BTCUSDT'' \<and> lc_symbol d = ''BTCUSDT''" by simp
  with built show ?thesis by blast
qed

theorem failing_store_harmless_witness:
  "build_bundle (ex_live_env\<lparr> lv_persist := Some (\<lambda>f x. (x, raise ConnectionError)) \<rparr>) ex_derivatives (Some ''btcusdt'') (0, ex_live) =
    (case build_bundle (ex_live_env\<lparr> lv_persist := None \<rparr>) ex_derivatives (Some ''btcusdt'') (0, ex_live) of
       (t, r) \<Rightarrow> (t, map_sum id (map_option unpersisted) r))"
  by (rule failing_store_harmless [where err = "\<lambda>f x. Exn ConnectionError []"]) simp

end
