(* ===== verification/Live_Memory.thy ===== *)
theory Live_Memory
  imports Trade_Episodes
begin

text \<open>
  \<open>llm_chief/memory_retrieval.py\<close>: what the chief trader is shown of lessons, patterns, episodes and rules. The
  tables are lists in the order of insertion, which is kept where a query does not order rows; nothing is
  written. The lemmas bound what is shown and say which episodes it is.
\<close>

record lesson_row =
  ls_id :: string
  ls_kind :: string
  ls_text :: string
  ls_action :: string
  ls_count :: int
  ls_conf :: fl
  ls_status :: string

record pattern_row =
  pn_id :: string
  pn_regime :: string
  pn_strategy :: string
  pn_samples :: int
  pn_win :: dec
  pn_profit :: dec

record rule_row =
  ru_id :: string
  ru_title :: string
  ru_content :: string
  ru_created :: usec

record memory_db =
  my_lessons :: "lesson_row list"
  my_patterns :: "pattern_row list"
  my_episodes :: "episode_row list"
  my_rules :: "rule_row list"

record memory_limits =
  ml_lessons :: nat
  ml_patterns :: nat
  ml_episodes :: nat
  ml_rules :: nat

definition memory_limits_init :: memory_limits where
  "memory_limits_init = \<lparr> ml_lessons = 5, ml_patterns = 3, ml_episodes = 5, ml_rules = 3 \<rparr>"

subsection \<open>What is collected\<close>

definition top_lessons :: "memory_limits \<Rightarrow> memory_db \<Rightarrow> lesson_row list" where
  "top_lessons l db =
     take (ml_lessons l) (sort_key (\<lambda>r. (- ls_conf r, - ls_count r)) (filter (\<lambda>r. ls_status r = ''CONFIRMED'') (my_lessons db)))"

definition top_patterns :: "memory_limits \<Rightarrow> memory_db \<Rightarrow> string \<Rightarrow> pattern_row list" where
  "top_patterns l db regime =
     take (ml_patterns l) (sort_key (\<lambda>r. - pn_samples r)
       (if regime \<noteq> [] \<and> regime \<noteq> ''UNKNOWN'' then filter (\<lambda>r. pn_regime r = regime) (my_patterns db) else my_patterns db))"

definition recent_episodes :: "memory_db \<Rightarrow> episode_row list" where
  "recent_episodes db = take 60 (sort_key (\<lambda>r. - er_created r) (my_episodes db))"

definition relevance :: "string \<Rightarrow> string \<Rightarrow> episode_row \<Rightarrow> int" where
  "relevance regime sy r = (if regime \<noteq> [] \<and> er_regime r = regime then 2 else 0) + (if er_symbol r = sy then 1 else 0)"

definition similar_episodes :: "memory_limits \<Rightarrow> memory_db \<Rightarrow> string \<Rightarrow> string \<Rightarrow> episode_row list" where
  "similar_episodes l db regime sy =
     take (ml_episodes l) (sort_key (\<lambda>r. - relevance regime sy r) (filter (\<lambda>r. 0 < relevance regime sy r) (recent_episodes db)))"

definition newest_rules :: "memory_limits \<Rightarrow> memory_db \<Rightarrow> rule_row list" where
  "newest_rules l db = take (ml_rules l) (sort_key (\<lambda>r. - ru_created r) (my_rules db))"

subsection \<open>What is shown\<close>

definition lesson_json :: "lesson_row \<Rightarrow> json" where
  "lesson_json r = JObj [(''lesson_id'', JStr (ls_id r)), (''type'', JStr (ls_kind r)), (''statement'', JStr (ls_text r)),
     (''recommended_action'', JStr (ls_action r)), (''confidence'', JDec (repr_dec (ls_conf r))), (''status'', JStr (ls_status r))]"

definition pattern_json :: "pattern_row \<Rightarrow> json" where
  "pattern_json r = JObj [(''pattern_id'', JStr (pn_id r)), (''regime'', JStr (pn_regime r)), (''strategy'', JStr (pn_strategy r)),
     (''sample_count'', JInt (pn_samples r)), (''win_rate'', JDec (pn_win r)), (''profit_factor'', JDec (pn_profit r))]"

fun result_text :: "episode_result \<Rightarrow> string" where
  "result_text WIN = ''WIN''" | "result_text LOSS = ''LOSS''" | "result_text BREAKEVEN = ''BREAKEVEN''"

definition episode_json :: "episode_row \<Rightarrow> json" where
  "episode_json r = JObj [(''episode_id'', JStr (er_id r)), (''symbol'', JStr (er_symbol r)), (''market_regime'', JStr (er_regime r)),
     (''strategy_selected'', JStr (er_strategy r)), (''result'', JStr (result_text (er_result r))), (''pnl'', JDec (er_pnl r)),
     (''holding_time_seconds'', JDec (repr_dec (er_holding r)))]"

definition rule_json :: "rule_row \<Rightarrow> json" where
  "rule_json r = JObj [(''rule_id'', JStr (ru_id r)), (''title'', JStr (ru_title r)), (''content'', JStr (take 300 (ru_content r)))]"

record memory =
  mm_refs :: "string list"
  mm_knowledge :: "json list"
  mm_patterns :: "json list"
  mm_similar :: "json list"
  mm_rules :: "json list"

definition no_memory :: memory where
  "no_memory = \<lparr> mm_refs = [], mm_knowledge = [], mm_patterns = [], mm_similar = [], mm_rules = [] \<rparr>"

definition retrieve :: "memory_limits \<Rightarrow> memory_db \<Rightarrow> string \<Rightarrow> string \<Rightarrow> memory" where
  "retrieve l db regime sy =
     (let ls = top_lessons l db; ps = top_patterns l db regime; es = similar_episodes l db regime sy; rs = newest_rules l db
      in \<lparr> mm_refs = map ls_id ls @ map pn_id ps @ map er_id es @ map ru_id rs, mm_knowledge = map lesson_json ls,
           mm_patterns = map pattern_json ps, mm_similar = map episode_json es, mm_rules = map rule_json rs \<rparr>)"

subsection \<open>Bounds and relevance\<close>

lemma take_sorted_best:
  assumes "x \<in> set (take n (sort_key f xs))" "y \<in> set xs" "y \<notin> set (take n (sort_key f xs))"
  shows "f x \<le> f y"
proof -
  have "y \<in> set (drop n (sort_key f xs))" using assms(2,3) by (metis Un_iff append_take_drop_id set_append set_sort)
  moreover have "sorted (map f (take n (sort_key f xs)) @ map f (drop n (sort_key f xs)))"
    using sorted_sort_key [of f xs] by (metis append_take_drop_id map_append)
  ultimately show ?thesis using assms(1) by (simp add: sorted_append)
qed

text \<open>What is retrieved stays within its limits and has one reference for each item; every episode shown is one of the 60
  newest and shares the regime or the symbol, the more relevant ones come first, and an episode that is left out
  is no more relevant than any that is shown.\<close>

theorem retrieval_bounded:
  "length (mm_knowledge (retrieve l db regime sy)) \<le> ml_lessons l \<and> length (mm_patterns (retrieve l db regime sy)) \<le> ml_patterns l \<and>
   length (mm_similar (retrieve l db regime sy)) \<le> ml_episodes l \<and> length (mm_rules (retrieve l db regime sy)) \<le> ml_rules l \<and>
   length (mm_refs (retrieve l db regime sy)) = length (mm_knowledge (retrieve l db regime sy)) + length (mm_patterns (retrieve l db regime sy)) +
     length (mm_similar (retrieve l db regime sy)) + length (mm_rules (retrieve l db regime sy)) \<and>
   (\<exists>es. mm_similar (retrieve l db regime sy) = map episode_json es \<and> sorted (map (\<lambda>r. - relevance regime sy r) es) \<and>
     (\<forall>r \<in> set es. r \<in> set (recent_episodes db) \<and> (er_regime r = regime \<or> er_symbol r = sy)) \<and>
     (\<forall>r \<in> set es. \<forall>q \<in> set (recent_episodes db) - set es. relevance regime sy q \<le> relevance regime sy r))"
proof -
  define es where "es = similar_episodes l db regime sy"
  have shown: "mm_similar (retrieve l db regime sy) = map episode_json es" by (simp add: retrieve_def Let_def es_def)
  have ord: "sorted (map (\<lambda>r. - relevance regime sy r) es)"
    by (simp add: es_def similar_episodes_def take_map [symmetric] sorted_wrt_take)
  have mem: "0 < relevance regime sy r \<and> r \<in> set (recent_episodes db)" if "r \<in> set es" for r
    using that by (auto simp: es_def similar_episodes_def dest!: in_set_takeD)
  have "er_regime r = regime \<or> er_symbol r = sy" if "0 < relevance regime sy r" for r
    using that by (auto simp: relevance_def split: if_splits)
  then have shared: "\<forall>r \<in> set es. r \<in> set (recent_episodes db) \<and> (er_regime r = regime \<or> er_symbol r = sy)" using mem by blast
  have best: "relevance regime sy q \<le> relevance regime sy r" if "r \<in> set es" "q \<in> set (recent_episodes db)" "q \<notin> set es" for r q
  proof (cases "0 < relevance regime sy q")
    case True
    then show ?thesis
      using take_sorted_best [of r "ml_episodes l" "\<lambda>r. - relevance regime sy r" "filter (\<lambda>r. 0 < relevance regime sy r) (recent_episodes db)" q] that
      by (simp add: es_def similar_episodes_def)
  next
    case False
    then show ?thesis using mem [OF that(1)] by linarith
  qed
  have "\<exists>es. mm_similar (retrieve l db regime sy) = map episode_json es \<and> sorted (map (\<lambda>r. - relevance regime sy r) es) \<and>
     (\<forall>r \<in> set es. r \<in> set (recent_episodes db) \<and> (er_regime r = regime \<or> er_symbol r = sy)) \<and>
     (\<forall>r \<in> set es. \<forall>q \<in> set (recent_episodes db) - set es. relevance regime sy q \<le> relevance regime sy r)"
    using shown ord shared best by blast
  moreover have "length (top_lessons l db) \<le> ml_lessons l" "length (top_patterns l db regime) \<le> ml_patterns l"
    "length (similar_episodes l db regime sy) \<le> ml_episodes l" "length (newest_rules l db) \<le> ml_rules l"
    by (simp_all add: top_lessons_def top_patterns_def similar_episodes_def newest_rules_def)
  ultimately show ?thesis by (simp add: retrieve_def Let_def)
qed

subsection \<open>An example\<close>

definition ex_episode :: "string \<Rightarrow> string \<Rightarrow> string \<Rightarrow> usec \<Rightarrow> episode_row" where
  "ex_episode i sy regime t = \<lparr> er_id = i, er_symbol = sy, er_regime = regime, er_strategy = ''momentum'', er_entry = 1, er_exit = 2, er_size = 1,
     er_leverage = 1, er_holding = 60, er_pnl = 1, er_result = WIN, er_created = t, er_market = ''SPOT'', er_dir = LONG, er_reason = [],
     er_gross = 1, er_fees = 0, er_net = 1, er_lineage = [] \<rparr>"

definition ex_memory_db :: memory_db where
  "ex_memory_db = \<lparr> my_lessons = [], my_patterns = [],
     my_episodes = [ex_episode ''a'' ''ETHUSDT'' ''RANGE'' 1, ex_episode ''b'' ''BTCUSDT'' ''RANGE'' 2, ex_episode ''c'' ''BTCUSDT'' ''BULL'' 3],
     my_rules = [] \<rparr>"

theorem retrieval_bounded_witness:
  "mm_refs (retrieve memory_limits_init ex_memory_db ''BULL'' ''BTCUSDT'') = [''c'', ''b''] \<and>
   length (mm_similar (retrieve memory_limits_init ex_memory_db ''BULL'' ''BTCUSDT'')) \<le> 5"
proof -
  have "map er_id (similar_episodes memory_limits_init ex_memory_db ''BULL'' ''BTCUSDT'') = [''c'', ''b'']"
    "top_lessons memory_limits_init ex_memory_db = []" "top_patterns memory_limits_init ex_memory_db ''BULL'' = []"
    "newest_rules memory_limits_init ex_memory_db = []"
    by code_simp+
  then have "mm_refs (retrieve memory_limits_init ex_memory_db ''BULL'' ''BTCUSDT'') = [''c'', ''b'']" by (simp add: retrieve_def Let_def)
  then show ?thesis using retrieval_bounded [of memory_limits_init ex_memory_db "''BULL''" "''BTCUSDT''"] by (simp add: memory_limits_init_def)
qed

end
