(* ===== verification/Chief_Decision.thy ===== *)
theory Chief_Decision
  imports Live_Context Live_Memory Position_Bridge
begin

text \<open>
  \<open>llm_chief/decision.py\<close>, \<open>context.py\<close> and \<open>engine.py\<close>: what the language model is asked, and how its answer becomes a
  decision. The model itself is a function that is given; so is \<open>validate\<close>, the validation of the third-party
  library, of which only the documented behaviour is used that it keeps a text. A number of an answer is
  the decimal that is written there. The text of the prompt is not modelled.
\<close>

subsection \<open>Decisions\<close>

record decision =
  de_id :: string
  de_symbol :: string
  de_action :: string
  de_regime :: string
  de_strategies :: "string list"
  de_thesis :: string
  de_supporting_evidence :: "string list"
  de_contradicting_evidence :: "string list"
  de_knowledge_refs :: "string list"
  de_memory_refs :: "string list"
  de_coin_refs :: "string list"
  de_pattern_refs :: "string list"
  de_lessons :: "string list"
  de_holding :: string
  de_plan :: string
  de_size :: fl
  de_leverage :: fl
  de_stop :: "fl option"
  de_target :: "fl option"
  de_add_conditions :: "string list"
  de_reduce_conditions :: "string list"
  de_exit_conditions :: "string list"
  de_invalidation :: "string list"
  de_raw_conf :: fl
  de_return :: fl
  de_risk :: fl
  de_reasons :: "string list"
  de_invocation :: string
  de_strategy :: string
  de_strategy_version :: string
  de_fit :: fl
  de_secondary :: "string list"
  de_supporting :: "string list"
  de_contradicting :: "string list"
  de_dominant :: string
  de_conf :: fl
  de_class :: string
  de_exploration :: bool
  de_snapshot :: string
  de_factor_set :: string
  de_model :: string
  de_knowledge_version :: string
  de_memory_version :: string
  de_created :: string

definition new_decision :: "string \<Rightarrow> string \<Rightarrow> string \<Rightarrow> string \<Rightarrow> decision" where
  "new_decision i sy action regime =
     \<lparr> de_id = i, de_symbol = sy, de_action = action, de_regime = regime, de_strategies = [], de_thesis = [], de_supporting_evidence = [],
       de_contradicting_evidence = [], de_knowledge_refs = [], de_memory_refs = [], de_coin_refs = [], de_pattern_refs = [], de_lessons = [],
       de_holding = [], de_plan = [], de_size = 0, de_leverage = 0, de_stop = None, de_target = None, de_add_conditions = [],
       de_reduce_conditions = [], de_exit_conditions = [], de_invalidation = [], de_raw_conf = 0, de_return = 0, de_risk = 0, de_reasons = [],
       de_invocation = [], de_strategy = [], de_strategy_version = [], de_fit = 0, de_secondary = [], de_supporting = [], de_contradicting = [],
       de_dominant = [], de_conf = 0, de_class = [], de_exploration = False, de_snapshot = [], de_factor_set = [], de_model = ''0'',
       de_knowledge_version = ''0'', de_memory_version = ''0'', de_created = [] \<rparr>"

text \<open>The names of the fields, which are the keys that an answer may use.\<close>

definition decision_keys :: "string list" where
  "decision_keys =
     [''decision_id'', ''symbol'', ''action'', ''market_regime'', ''strategy_selected'', ''thesis'', ''supporting_evidence'',
      ''contradicting_evidence'', ''knowledge_refs'', ''memory_refs'', ''coin_profile_refs'', ''pattern_refs'', ''compressed_lessons'',
      ''expected_holding_period'', ''entry_plan'', ''position_size_request'', ''leverage_request'', ''stop_loss'', ''take_profit'',
      ''add_conditions'', ''reduce_conditions'', ''exit_conditions'', ''invalidation_conditions'', ''raw_llm_confidence'', ''expected_return'',
      ''expected_risk'', ''reason_codes'', ''llm_invocation_id'', ''selected_strategy'', ''strategy_version'', ''strategy_fit_score'',
      ''secondary_strategies'', ''supporting_factors'', ''contradicting_factors'', ''dominant_factor'', ''evidence_adjusted_confidence'',
      ''decision_class'', ''exploration_mode'', ''factor_snapshot_id'', ''factor_set_version'', ''model_version'', ''knowledge_version'',
      ''memory_version'', ''created_at'']"

definition fl_json :: "fl \<Rightarrow> json" where "fl_json x = JDec (repr_dec x)"
definition fl_opt_json :: "fl option \<Rightarrow> json" where "fl_opt_json x = (case x of Some v \<Rightarrow> fl_json v | None \<Rightarrow> JNull)"
definition texts_json :: "string list \<Rightarrow> json" where "texts_json xs = JList (map JStr xs)"

definition decision_values :: "decision \<Rightarrow> json list" where
  "decision_values d =
     [JStr (de_id d), JStr (de_symbol d), JStr (de_action d), JStr (de_regime d), texts_json (de_strategies d), JStr (de_thesis d),
      texts_json (de_supporting_evidence d), texts_json (de_contradicting_evidence d), texts_json (de_knowledge_refs d),
      texts_json (de_memory_refs d), texts_json (de_coin_refs d), texts_json (de_pattern_refs d), texts_json (de_lessons d),
      JStr (de_holding d), JStr (de_plan d), fl_json (de_size d), fl_json (de_leverage d), fl_opt_json (de_stop d), fl_opt_json (de_target d),
      texts_json (de_add_conditions d), texts_json (de_reduce_conditions d), texts_json (de_exit_conditions d), texts_json (de_invalidation d),
      fl_json (de_raw_conf d), fl_json (de_return d), fl_json (de_risk d), texts_json (de_reasons d), JStr (de_invocation d),
      JStr (de_strategy d), JStr (de_strategy_version d), fl_json (de_fit d), texts_json (de_secondary d), texts_json (de_supporting d),
      texts_json (de_contradicting d), JStr (de_dominant d), fl_json (de_conf d), JStr (de_class d), JBool (de_exploration d),
      JStr (de_snapshot d), JStr (de_factor_set d), JStr (de_model d), JStr (de_knowledge_version d), JStr (de_memory_version d),
      JStr (de_created d)]"

definition decision_json :: "decision \<Rightarrow> json" where
  "decision_json d = JObj (zip decision_keys (decision_values d))"

subsection \<open>The context\<close>

record chief_context =
  kx_symbol :: string
  kx_market :: meta
  kx_regime :: string
  kx_portfolio :: meta
  kx_intelligence :: meta
  kx_knowledge :: "json list"
  kx_similar :: "json list"
  kx_rules :: "json list"
  kx_evidence :: "evidence_package option"
  kx_factors :: "decision_bundle option"
  kx_release :: meta

text \<open>What the domain model is given: \<open>domain_model_context\<close>.\<close>

record domain_context =
  dc_market :: meta
  dc_regime :: string
  dc_factors :: "decision_bundle option"
  dc_health :: meta
  dc_profile :: string
  dc_evidence :: "evidence_package option"
  dc_portfolio :: meta
  dc_positions :: json
  dc_intelligence :: meta
  dc_memory :: "json list \<times> json list \<times> json list"
  dc_release :: meta

definition domain_model_context :: "chief_context \<Rightarrow> domain_context" where
  "domain_model_context c =
     \<lparr> dc_market = kx_market c, dc_regime = kx_regime c, dc_factors = kx_factors c, dc_health = kx_intelligence c, dc_profile = ''FULL'',
       dc_evidence = kx_evidence c, dc_portfolio = kx_portfolio c,
       dc_positions = (case map_of (kx_portfolio c) ''positions'' of Some p \<Rightarrow> p | None \<Rightarrow> JObj []), dc_intelligence = kx_intelligence c,
       dc_memory = (kx_knowledge c, kx_similar c, kx_rules c), dc_release = kx_release c \<rparr>"

definition evidence_candidates :: "chief_context \<Rightarrow> strategy_candidate list" where
  "evidence_candidates c = (case kx_evidence c of Some p \<Rightarrow> sp_candidates p | None \<Rightarrow> [])"

definition with_side :: "strategy_candidate list \<Rightarrow> strategy_candidate list" where
  "with_side = filter (\<lambda>c. sc_dir c \<in> set [''LONG'', ''SHORT''])"

definition snapshot_id :: "chief_context \<Rightarrow> string" where
  "snapshot_id c = (case kx_factors c of Some b \<Rightarrow> fs_id (bn_snapshot b) | None \<Rightarrow> [])"

definition factor_version :: "chief_context \<Rightarrow> string" where
  "factor_version c = (case kx_factors c of Some b \<Rightarrow> fs_version (bn_snapshot b) | None \<Rightarrow> [])"

subsection \<open>Reading an answer\<close>

definition action_aliases :: "(string, string) dict" where
  "action_aliases =
     [(''LONG'', ''LONG''), (''OPEN_LONG'', ''LONG''), (''BUY'', ''LONG''), (''SHORT'', ''SHORT''), (''OPEN_SHORT'', ''SHORT''),
      (''SELL'', ''SHORT''), (''NO_TRADE'', ''NO_TRADE''), (''WAIT'', ''WAIT'')]"

text \<open>\<open>str(x).upper()\<close>; of values that are not texts only those are written out that could be words.\<close>

fun json_word :: "json \<Rightarrow> string" where
  "json_word (JStr t) = t"
| "json_word JNull = ''None''"
| "json_word (JBool b) = (if b then ''True'' else ''False'')"
| "json_word (JInt n) = int_digits n"
| "json_word _ = []"

definition setdefault :: "string \<Rightarrow> json \<Rightarrow> meta \<Rightarrow> meta" where
  "setdefault k v m = (if map_of m k = None then AList.update k v m else m)"

definition read_action :: "meta \<Rightarrow> string" where
  "read_action raw =
     (case map_of action_aliases (map upper_char (case map_of raw ''action'' of Some v \<Rightarrow> json_word v | None \<Rightarrow> ''NO_TRADE'')) of
        Some a \<Rightarrow> a | None \<Rightarrow> ''WAIT'')"

text \<open>\<open>x in v\<close> and \<open>list(v)\<close> for the codes of an answer, which may be any value.\<close>

definition is_infix :: "string \<Rightarrow> string \<Rightarrow> bool" where
  "is_infix x t \<longleftrightarrow> list_ex (\<lambda>k. take (length x) (drop k t) = x) [0..<length t + 1]"

fun json_contains :: "string \<Rightarrow> json \<Rightarrow> bool res" where
  "json_contains x (JList vs) = ret (JStr x \<in> set vs)"
| "json_contains x (JObj kvs) = ret (x \<in> fst ` set kvs)"
| "json_contains x (JStr t) = ret (is_infix x t)"
| "json_contains x _ = raise TypeErrorC"

fun value_items :: "json \<Rightarrow> json list res" where
  "value_items (JList vs) = ret vs"
| "value_items (JObj kvs) = ret (map (JStr \<circ> fst) kvs)"
| "value_items (JStr t) = ret (map (\<lambda>c. JStr [c]) t)"
| "value_items _ = raise TypeErrorC"

definition fail_closed :: string where
  "fail_closed = ''ACTION_UNRECOGNIZED_FAIL_CLOSED''"

definition mark_wait :: "meta \<Rightarrow> meta res" where
  "mark_wait raw =
     (let m = setdefault ''reason_codes'' (JList []) raw; codes = the (map_of m ''reason_codes'')
      in rbind (json_contains fail_closed codes) (\<lambda>present.
           if present then ret m
           else rbind (value_items codes) (\<lambda>vs. ret (AList.update ''reason_codes'' (JList (vs @ [JStr fail_closed])) m))))"

text \<open>The strategy of the best candidate, when the answer names none.\<close>

definition fill_strategy :: "chief_context \<Rightarrow> decision \<Rightarrow> decision" where
  "fill_strategy c d =
     (if de_strategy d \<noteq> [] then d
      else case with_side (evidence_candidates c) of
        [] \<Rightarrow> d
      | x # xs \<Rightarrow> (let best = max_by sc_fit x xs
                 in d\<lparr> de_strategy := sc_id best, de_strategy_version := sc_version best, de_fit := sc_fit best \<rparr>))"

definition answer_fields :: "usec \<Rightarrow> usec \<Rightarrow> meta \<Rightarrow> chief_context \<Rightarrow> meta res" where
  "answer_fields t1 t2 raw c =
     (let m1 = setdefault ''market_regime'' (JStr (kx_regime c)) (setdefault ''symbol'' (JStr (kx_symbol c))
                 (setdefault ''decision_id'' (JStr (''llm_'' @ stamp_text t1)) raw));
          action = read_action m1; m2 = AList.update ''action'' (JStr action) m1
      in rbind (if action = ''WAIT'' then mark_wait m2 else ret m2) (\<lambda>m3.
           ret (filter (\<lambda>kv. fst kv \<in> set decision_keys) (setdefault ''created_at'' (JStr (iso_text t2)) m3))))"

definition parse_decision :: "(meta \<Rightarrow> decision res) \<Rightarrow> usec \<Rightarrow> usec \<Rightarrow> meta \<Rightarrow> chief_context \<Rightarrow> decision res" where
  "parse_decision validate t1 t2 raw c =
     rbind (answer_fields t1 t2 raw c) (\<lambda>m. rbind (validate m) (\<lambda>d. ret (fill_strategy c d)))"

subsection \<open>Asking\<close>

record llm_response =
  lm_ok :: bool
  lm_json :: "meta option"
  lm_invocation :: string

datatype llm_request = DomainRequest domain_context | PromptRequest chief_context

record 'x llm_provider =
  lp_name :: string
  lp_version :: string
  lp_domain :: bool
  lp_healthy :: "'x \<Rightarrow> bool res"
  lp_route :: "'x \<Rightarrow> bool res"
  lp_complete :: "llm_request \<Rightarrow> ('x, llm_response) eff"

definition ask :: "'x llm_provider option \<Rightarrow> chief_context \<Rightarrow> ('x, llm_response option) eff" where
  "ask provider c =
     (case provider of
        None \<Rightarrow> eff_ret None
      | Some p \<Rightarrow> eff_bind (lp_complete p (if lp_domain p then DomainRequest (domain_model_context c) else PromptRequest c)) (\<lambda>r. eff_ret (Some r)))"

definition usable_answer :: "llm_response option \<Rightarrow> meta option" where
  "usable_answer r = (case r of None \<Rightarrow> None | Some x \<Rightarrow> if lm_ok x \<and> lm_json x \<noteq> Some [] then lm_json x else None)"

definition engine_version :: string where
  "engine_version = ''0.1.0''"

definition no_answer :: "chief_context \<Rightarrow> string \<Rightarrow> usec \<Rightarrow> usec \<Rightarrow> decision" where
  "no_answer c invocation t1 t2 =
     (new_decision (''fail_'' @ stamp_text t1) (kx_symbol c) ''NO_TRADE'' (kx_regime c))
       \<lparr> de_invocation := invocation, de_thesis := ''LLM_UNAVAILABLE'', de_reasons := [''LLM_UNAVAILABLE''], de_model := engine_version,
         de_created := iso_text t2 \<rparr>"

definition chief_decide ::
  "'x llm_provider option \<Rightarrow> (meta \<Rightarrow> decision res) \<Rightarrow> ('x \<Rightarrow> 'x \<times> usec) \<Rightarrow> chief_context \<Rightarrow> ('x, decision) eff" where
  "chief_decide provider validate clock c =
     eff_bind (ask provider c) (\<lambda>r.
     (let invocation = (case r of Some x \<Rightarrow> lm_invocation x | None \<Rightarrow> []) in
      eff_bind (reads clock) (\<lambda>t1. eff_bind (reads clock) (\<lambda>t2.
        case usable_answer r of
          Some raw \<Rightarrow> eff_bind (eff_lift (parse_decision validate t1 t2 raw c)) (\<lambda>d. eff_ret (d\<lparr> de_invocation := invocation \<rparr>))
        | None \<Rightarrow> eff_ret (no_answer c invocation t1 t2)))))"

subsection \<open>What an answer may say\<close>

text \<open>The documented behaviour of the validation that is used: a text that is given for the action is the action.\<close>

definition keeps_action :: "(meta \<Rightarrow> decision res) \<Rightarrow> bool" where
  "keeps_action validate \<longleftrightarrow> (\<forall>m d a. validate m = ret d \<longrightarrow> map_of m ''action'' = Some (JStr a) \<longrightarrow> de_action d = a)"

lemma map_of_filter_key: "k \<in> A \<Longrightarrow> map_of (filter (\<lambda>kv. fst kv \<in> A) m) k = map_of m k"
  by (induction m) auto

lemma setdefault_other: "k \<noteq> k' \<Longrightarrow> map_of (setdefault k' v m) k = map_of m k"
  by (simp add: setdefault_def map_of_update)

lemma mark_wait_action: "mark_wait m = ret m' \<Longrightarrow> map_of m' ''action'' = map_of m ''action''"
  by (auto simp: mark_wait_def Let_def rbind_eq_Inr map_of_update setdefault_other split: if_splits)

lemma action_aliases_cases: "map_of action_aliases t = Some a \<Longrightarrow> a \<in> {''LONG'', ''SHORT'', ''NO_TRADE'', ''WAIT''}"
  by (auto simp: action_aliases_def split: if_splits)

lemma read_action_known: "read_action m \<in> {''LONG'', ''SHORT'', ''NO_TRADE'', ''WAIT''}"
  using action_aliases_cases by (auto simp: read_action_def split: option.split)

lemma read_action_cong: "map_of m ''action'' = map_of m' ''action'' \<Longrightarrow> read_action m = read_action m'"
  by (simp add: read_action_def)

lemma answer_fields_action:
  assumes "answer_fields t1 t2 raw c = ret m"
  shows "map_of m ''action'' = Some (JStr (read_action raw))"
proof -
  define m1 where "m1 = setdefault ''market_regime'' (JStr (kx_regime c)) (setdefault ''symbol'' (JStr (kx_symbol c))
                 (setdefault ''decision_id'' (JStr (''llm_'' @ stamp_text t1)) raw))"
  have r: "read_action m1 = read_action raw" by (rule read_action_cong) (simp add: m1_def setdefault_other)
  from assms obtain m3 where m3: "(if read_action m1 = ''WAIT'' then mark_wait (AList.update ''action'' (JStr (read_action m1)) m1)
      else ret (AList.update ''action'' (JStr (read_action m1)) m1)) = ret m3"
    "m = filter (\<lambda>kv. fst kv \<in> set decision_keys) (setdefault ''created_at'' (JStr (iso_text t2)) m3)"
    unfolding answer_fields_def Let_def m1_def [symmetric] rbind_eq_Inr by auto
  have "map_of m3 ''action'' = Some (JStr (read_action m1))"
    using m3(1) mark_wait_action [of "AList.update ''action'' (JStr (read_action m1)) m1" m3] by (auto simp: map_of_update split: if_splits)
  moreover have "''action'' \<in> set decision_keys" by (simp add: decision_keys_def)
  ultimately show ?thesis by (simp add: m3(2) map_of_filter_key setdefault_other r)
qed

lemma fill_strategy_action [simp]: "de_action (fill_strategy c d) = de_action d"
  by (simp add: fill_strategy_def Let_def split: list.split)

lemma parse_decision_action:
  assumes "parse_decision validate t1 t2 raw c = ret d" "keeps_action validate"
  shows "de_action d = read_action raw"
  using assms answer_fields_action by (fastforce simp: parse_decision_def rbind_eq_Inr keeps_action_def)

text \<open>An answer that asks for an entry names it.\<close>

definition names_entry :: "meta \<Rightarrow> bool" where
  "names_entry raw \<longleftrightarrow> (\<exists>v \<in> {''LONG'', ''OPEN_LONG'', ''BUY'', ''SHORT'', ''OPEN_SHORT'', ''SELL''}.
     map upper_char (case map_of raw ''action'' of Some j \<Rightarrow> json_word j | None \<Rightarrow> ''NO_TRADE'') = v)"

lemma entry_named: "read_action raw \<in> {''LONG'', ''SHORT''} \<Longrightarrow> names_entry raw"
  by (auto simp: read_action_def names_entry_def action_aliases_def split: option.splits if_splits)

lemma chief_decide_action:
  assumes "chief_decide provider validate clock c x = (y, ret d)" "keeps_action validate"
  shows "de_action d \<in> {''LONG'', ''SHORT'', ''NO_TRADE'', ''WAIT''} \<and>
    (de_action d \<in> {''LONG'', ''SHORT''} \<longrightarrow> (\<exists>x1 r raw. ask provider c x = (x1, ret (Some r)) \<and> lm_ok r \<and> lm_json r = Some raw \<and> names_entry raw \<and>
      read_action raw = de_action d))"
proof -
  from assms(1) obtain x1 r where a: "ask provider c x = (x1, ret r)" by (auto simp: chief_decide_def elim!: eff_bind_cases)
  show ?thesis
  proof (cases "usable_answer r")
    case None
    then show ?thesis using assms(1) a by (auto simp: chief_decide_def Let_def no_answer_def new_decision_def elim!: eff_bind_cases)
  next
    case (Some raw)
    then obtain q where q: "r = Some q" "lm_ok q" "lm_json q = Some raw" by (auto simp: usable_answer_def split: option.splits if_splits)
    from Some obtain t1 t2 d' where d: "parse_decision validate t1 t2 raw c = ret d'" "de_action d = de_action d'"
      using assms(1) a by (auto simp: chief_decide_def Let_def elim!: eff_bind_cases)
    have "de_action d = read_action raw" using parse_decision_action [OF d(1) assms(2)] d(2) by simp
    then show ?thesis using a q entry_named read_action_known [of raw] by metis
  qed
qed

end
