(* ===== verification/Opportunity_Scanner.thy ===== *)
theory Opportunity_Scanner
  imports Technical_Indicators Engine_Loops
begin

text \<open>
  \<open>runtime/opportunity_scanner.py\<close>: a cheap score of a symbol from its candles and its book, for the ranking that
  the multi-symbol chief trader shows. Floats are rationals that are rounded after each operation.
\<close>

record opportunity =
  op_symbol :: string
  op_score :: fl
  op_eligible :: bool
  op_dir :: string
  op_spread :: fl
  op_parts :: "(string \<times> fl) list"
  op_reason :: string

record scanner =
  oc_candles :: nat
  oc_lookback :: nat
  oc_min :: fl
  oc_spread :: fl

definition clip :: "fl \<Rightarrow> fl" where
  "clip x = max 0 (min 1 x)"

definition scanner_of :: "nat \<Rightarrow> nat \<Rightarrow> fl \<Rightarrow> fl \<Rightarrow> scanner" where
  "scanner_of candles lookback score spread =
     \<lparr> oc_candles = max candles 3, oc_lookback = max lookback 2, oc_min = clip score, oc_spread = max spread (fround (1 / 100)) \<rparr>"

definition invalid_opportunity :: "string \<Rightarrow> string \<Rightarrow> opportunity" where
  "invalid_opportunity sy reason =
     \<lparr> op_symbol = sy, op_score = 0, op_eligible = False, op_dir = ''NEUTRAL'', op_spread = 0, op_parts = [], op_reason = reason \<rparr>"

text \<open>The closes, which must be there, and the volumes, which may be missing.\<close>

fun rmapM :: "('a \<Rightarrow> 'b res) \<Rightarrow> 'a list \<Rightarrow> 'b list res" where
  "rmapM f [] = ret []"
| "rmapM f (x # xs) = rbind (f x) (\<lambda>y. rbind (rmapM f xs) (\<lambda>ys. ret (y # ys)))"

definition closes_and_volumes :: "candle list \<Rightarrow> (fl list \<times> fl list) res" where
  "closes_and_volumes ks =
     rbind (rmapM (\<lambda>k. case kl_close k of Some t \<Rightarrow> float_of_text t | None \<Rightarrow> raise KeyErrorC) ks) (\<lambda>cs.
     rbind (rmapM (\<lambda>k. case kl_volume k of Some t \<Rightarrow> float_of_text t | None \<Rightarrow> ret 0) ks) (\<lambda>vs. ret (cs, vs)))"

definition fl_mean_or_0 :: "fl list \<Rightarrow> fl" where
  "fl_mean_or_0 xs = (if xs \<noteq> [] then fl_mean xs else 0)"

definition abs_returns :: "fl list \<Rightarrow> fl list" where
  "abs_returns cs = map (\<lambda>i. \<bar>fsub (fdiv (cs ! i) (cs ! (i - 1))) 1\<bar>) [max 1 (length cs - 20)..<length cs]"

definition volume_impulse :: "fl list \<Rightarrow> fl" where
  "volume_impulse vs =
     (let recent = fl_mean_or_0 (last_n 5 vs); baseline = fl_mean_or_0 (butlast_n 5 (last_n 25 vs))
      in if 0 < baseline then clip (fdiv (max (fsub (fdiv recent baseline) 1) 0) (3 / 2)) else 0)"

definition depth :: "levels \<Rightarrow> fl" where
  "depth ls = fl_sum (map (\<lambda>l. fround (bl_qty l)) (take 10 (dict_values ls)))"

definition imbalance :: "order_book \<Rightarrow> fl" where
  "imbalance b =
     (let bids = depth (ob_bids b); asks = depth (ob_asks b); total = fadd bids asks
      in if 0 < total then fdiv (fsub bids asks) total else 0)"

definition derivatives_score :: "dec option \<Rightarrow> dec option \<Rightarrow> fl" where
  "derivatives_score funding basis =
     (let mag = (\<lambda>v. case v of Some d \<Rightarrow> \<bar>fround d\<bar> | None \<Rightarrow> 0)
      in max (clip (fdiv (mag funding) (fround (1 / 1000)))) (clip (fdiv (mag basis) (fround (3 / 1000)))))"

definition weighted_score :: "fl \<Rightarrow> fl \<Rightarrow> fl \<Rightarrow> fl \<Rightarrow> fl \<Rightarrow> fl" where
  "weighted_score mom volume volatility book derivs =
     fadd (fadd (fadd (fadd (fmul (fround (30 / 100)) mom) (fmul (1 / 4) volume)) (fmul (fround (15 / 100)) volatility))
       (fmul (fround (20 / 100)) book)) (fmul (fround (10 / 100)) derivs)"

definition pressure_text :: "fl \<Rightarrow> string" where
  "pressure_text p =
     (if fround (5 / 100) < p then ''LONG_BIAS'' else if p < - fround (5 / 100) then ''SHORT_BIAS'' else ''NEUTRAL'')"

definition momentum_over :: "nat \<Rightarrow> fl list \<Rightarrow> fl" where
  "momentum_over lookback cs =
     (let k = min lookback (length cs - 1) in fsub (fdiv (last cs) (cs ! (length cs - 1 - k))) 1)"

definition score_opportunity :: "scanner \<Rightarrow> strategy_context \<Rightarrow> candle list \<Rightarrow> opportunity" where
  "score_opportunity sc ctx ks =
     (let sy = sx_symbol ctx; b = sx_book ctx in
      if length ks < oc_candles sc then invalid_opportunity sy ''INSUFFICIENT_CANDLES''
      else case closes_and_volumes ks of
        Inl _ \<Rightarrow> invalid_opportunity sy ''INVALID_CANDLES''
      | Inr (cs, vs) \<Rightarrow>
          if list_ex (\<lambda>p. p \<le> 0) cs then invalid_opportunity sy ''INVALID_CLOSE''
          else case (best_bid b, best_ask b) of
            (Some bid, Some ask) \<Rightarrow>
              if bl_price bid \<le> 0 \<or> bl_price ask \<le> bl_price bid then invalid_opportunity sy ''INVALID_ORDERBOOK''
              else
                (let bp = fround (bl_price bid); ap = fround (bl_price ask); mid = fdiv (fadd bp ap) 2;
                     spread = fmul (fdiv (fsub ap bp) mid) 10000
                 in if spread \<le> 0 \<or> oc_spread sc < spread then
                      \<lparr> op_symbol = sy, op_score = 0, op_eligible = False, op_dir = ''NEUTRAL'', op_spread = spread,
                        op_parts = [(''spread_quality'', 0)], op_reason = ''SPREAD_TOO_WIDE'' \<rparr>
                    else
                      (let raw = momentum_over (oc_lookback sc) cs; mom = clip (fdiv \<bar>raw\<bar> (fround (1 / 100)));
                           volatility = clip (fdiv (fl_mean_or_0 (abs_returns cs)) (fround (3 / 1000)));
                           volume = volume_impulse vs; skew = imbalance b; book = clip \<bar>skew\<bar>;
                           derivs = derivatives_score (sx_funding ctx) (sx_basis ctx);
                           quality = clip (fsub 1 (fdiv spread (oc_spread sc)));
                           final = clip (fmul (weighted_score mom volume volatility book derivs) quality);
                           pressure = fadd (fmul raw 100) (fmul skew (1 / 4));
                           ok = (oc_min sc \<le> final)
                       in \<lparr> op_symbol = sy, op_score = final, op_eligible = ok, op_dir = pressure_text pressure, op_spread = spread,
                            op_parts = [(''momentum'', mom), (''volume_impulse'', volume), (''volatility'', volatility),
                              (''orderbook_imbalance'', book), (''derivatives'', derivs), (''spread_quality'', quality)],
                            op_reason = (if ok then ''OK'' else ''SCORE_BELOW_THRESHOLD'') \<rparr>))
          | _ \<Rightarrow> invalid_opportunity sy ''INVALID_ORDERBOOK'')"

subsection \<open>The score\<close>

lemma clip_unit [simp]: "0 \<le> clip x" "clip x \<le> 1"
  by (simp_all add: clip_def)

text \<open>Every score and every part of it lies between 0 and 1; a symbol is called eligible only when its score reaches
  the minimum, with candles, a book that is not crossed and a spread within the limit.\<close>

theorem opportunity_bounded:
  assumes "o1 = score_opportunity sc ctx ks"
  shows "op_symbol o1 = sx_symbol ctx \<and> 0 \<le> op_score o1 \<and> op_score o1 \<le> 1 \<and> (\<forall>p \<in> set (op_parts o1). 0 \<le> snd p \<and> snd p \<le> 1) \<and>
    (op_eligible o1 \<longrightarrow> oc_min sc \<le> op_score o1 \<and> oc_candles sc \<le> length ks \<and> 0 < op_spread o1 \<and> op_spread o1 \<le> oc_spread sc \<and>
      (\<exists>bid ask. best_bid (sx_book ctx) = Some bid \<and> best_ask (sx_book ctx) = Some ask \<and> bl_price bid < bl_price ask))"
proof -
  have parts: "0 \<le> derivatives_score f b \<and> derivatives_score f b \<le> 1" "0 \<le> volume_impulse vs \<and> volume_impulse vs \<le> 1" for f b vs
    by (simp_all add: derivatives_score_def volume_impulse_def Let_def less_max_iff_disj le_max_iff_disj)
  show ?thesis unfolding assms score_opportunity_def Let_def invalid_opportunity_def
    by (auto simp: parts split: sum.split option.split)
qed

subsection \<open>Examples\<close>

definition ex_tight_book :: order_book where
  "ex_tight_book = (new_book ''BTCUSDT'' ''OKX'')\<lparr> ob_bids := [(''100'', \<lparr> bl_price = 100, bl_qty = 2 \<rparr>)],
     ob_asks := [(''100.01'', \<lparr> bl_price = 10001 / 100, bl_qty = 1 \<rparr>)] \<rparr>"

definition ex_strategy_context :: strategy_context where
  "ex_strategy_context = \<lparr> sx_symbol = ''BTCUSDT'', sx_book = ex_tight_book,
     sx_account = \<lparr> a_id = ''a'', a_mode = PAPER, a_balances = [], a_equity = 1000, a_margin_used = 0, a_updated = None \<rparr>,
     sx_positions = [], sx_time = 0, sx_run = None, sx_mark = Some 100, sx_index = None, sx_funding = None, sx_oi = None, sx_basis = None \<rparr>"

lemma ex_scan_inputs:
  "length ex_rising = 7"
  "closes_and_volumes ex_rising = ret (map of_nat [100..<107], replicate 7 1)"
  "best_bid ex_tight_book = Some \<lparr> bl_price = 100, bl_qty = 2 \<rparr>"
  "best_ask ex_tight_book = Some \<lparr> bl_price = 10001 / 100, bl_qty = 1 \<rparr>"
  "0 < fmul (fdiv (fsub (fround (10001 / 100)) (fround 100)) (fdiv (fadd (fround 100) (fround (10001 / 100))) 2)) 10000"
  "fmul (fdiv (fsub (fround (10001 / 100)) (fround 100)) (fdiv (fadd (fround 100) (fround (10001 / 100))) 2)) 10000 \<le> 15"
  by code_simp+

theorem opportunity_bounded_witness:
  "\<exists>o1. o1 = score_opportunity (scanner_of 3 2 0 15) ex_strategy_context ex_rising \<and> op_eligible o1 \<and> op_score o1 \<le> 1 \<and>
     oc_candles (scanner_of 3 2 0 15) \<le> length ex_rising"
proof -
  have sc: "oc_candles (scanner_of 3 2 0 15) = 3" "oc_min (scanner_of 3 2 0 15) = 0" "oc_spread (scanner_of 3 2 0 15) = 15" by code_simp+
  have "\<not> list_ex (\<lambda>p. p \<le> 0) (map of_nat [100..<107] :: fl list)" by code_simp
  then have e: "op_eligible (score_opportunity (scanner_of 3 2 0 15) ex_strategy_context ex_rising)"
    using ex_scan_inputs(5,6)
    by (simp add: score_opportunity_def ex_strategy_context_def ex_scan_inputs sc Let_def not_le not_less)
  show ?thesis
    using opportunity_bounded [of _ "scanner_of 3 2 0 15" ex_strategy_context ex_rising, OF refl] e by blast
qed

end
