(* ===== verification/Chief_Trader.thy ===== *)
theory Chief_Trader
  imports Chief_Decision Opportunity_Scanner
begin

text \<open>
  \<open>runtime/chief_trader_strategy.py\<close> and \<open>runtime/ai_first_chief_trader.py\<close>: from a tick to the signals for an entry. The
  language model, the memory, the check for a perpetual position, the store of evidence and the clocks are
  actions on a state \<open>'x\<close>. The context is built, gates may end the decision before the model is asked, and
  every decision is stored, as far as the store works.
\<close>

subsection \<open>The adapter\<close>

record chief_config =
  cg_name :: string
  cg_version :: string
  cg_interval :: fl
  cg_min_fit :: fl
  cg_min_conf :: fl
  cg_exploring :: bool
  cg_probability :: fl
  cg_borderline :: fl
  cg_fraction :: fl
  cg_normal_fit :: fl
  cg_normal_conf :: fl
  cg_cooldown :: fl
  cg_quantity :: dec

record 'x chief_env =
  cv_provider :: "'x llm_provider option"
  cv_intelligence :: "(string \<Rightarrow> ('x, meta) eff) option"
  cv_live :: "'x live_env option"
  cv_memory :: "(string \<Rightarrow> string \<Rightarrow> ('x, memory) eff) option"
  cv_perp :: "(string \<Rightarrow> ('x, bool) eff) option"
  cv_store :: "(meta \<Rightarrow> ('x, unit) eff) option"
  cv_sampler :: "('x \<Rightarrow> 'x \<times> fl) option"
  cv_validate :: "meta \<Rightarrow> decision res"
  cv_monotonic :: "'x \<Rightarrow> 'x \<times> fl"
  cv_now :: "'x \<Rightarrow> 'x \<times> usec"
  cv_gen :: id_gen
  cv_config :: chief_config

record 'x chief =
  ct_world :: 'x
  ct_live :: live_context
  ct_entries :: "(string, fl) dict"
  ct_memory :: memory
  ct_failures :: nat
  ct_decided :: "fl option"
  ct_ids :: nat

type_synonym ('x, 'a) cact = "('x chief, 'a) eff"

definition out :: "('x, 'a) eff \<Rightarrow> ('x, 'a) cact" where
  "out m = eff_zoom ct_world (\<lambda>x s. s\<lparr> ct_world := x \<rparr>) m"

definition live :: "('x, 'a) lact \<Rightarrow> ('x, 'a) cact" where
  "live m = eff_zoom (\<lambda>s. (ct_world s, ct_live s)) (\<lambda>p s. s\<lparr> ct_world := fst p, ct_live := snd p \<rparr>) m"

text \<open>\<open>try ... except Exception\<close> with a value to go on with.\<close>

definition or_else :: "'a \<Rightarrow> ('s, 'a) eff \<Rightarrow> ('s, 'a) eff" where
  "or_else x m = eff_try m (\<lambda>e. eff_ret x)"

text \<open>\<open>try ... finally\<close>\<close>

definition eff_finally :: "('s, 'a) eff \<Rightarrow> ('s, unit) eff \<Rightarrow> ('s, 'a) eff" where
  "eff_finally m k s = (case m s of (t, r) \<Rightarrow> (case k t of (u, Inl e) \<Rightarrow> (u, Inl e) | (u, Inr _) \<Rightarrow> (u, r)))"

subsection \<open>The context of a decision\<close>

definition opt_dec_json :: "dec option \<Rightarrow> json" where
  "opt_dec_json v = (case v of Some d \<Rightarrow> JDec d | None \<Rightarrow> JNull)"

definition market_view :: "strategy_context \<Rightarrow> meta" where
  "market_view ctx =
     [(''symbol'', JStr (sx_symbol ctx)), (''clock_time'', JStr (iso_text (sx_time ctx))), (''mark_price'', opt_dec_json (sx_mark ctx)),
      (''funding'', opt_dec_json (sx_funding ctx)), (''oi'', opt_dec_json (sx_oi ctx))]"

definition portfolio_view :: "strategy_context \<Rightarrow> meta" where
  "portfolio_view ctx =
     [(''account_equity'', JDec (a_equity (sx_account ctx))),
      (''positions'', JObj (map (\<lambda>(sy, p). (sy, JObj [(''quantity'', JDec (p_qty p)), (''avg_entry_price'', JDec (dec_or (p_avg p) 0)),
         (''cost_basis'', JDec (p_cost p))])) (sx_positions ctx)))]"

definition release_view :: "'x chief_env \<Rightarrow> decision_bundle option \<Rightarrow> meta" where
  "release_view env b =
     [(''strategy_version'', JStr (cg_version (cv_config env))), (''entry_strategy'', JStr (cg_name (cv_config env))),
      (''factor_set_version'', JStr (case b of Some x \<Rightarrow> fs_version (bn_snapshot x) | None \<Rightarrow> [])),
      (''domain_model_version'', JStr (case cv_provider env of Some p \<Rightarrow> lp_version p | None \<Rightarrow> [])),
      (''note'', JStr ''running PAPER release versions (no promoted override)'')]"

definition live_bundle :: "'x chief_env \<Rightarrow> strategy_context \<Rightarrow> ('x, decision_bundle option) cact" where
  "live_bundle env ctx =
     (case cv_live env of
        None \<Rightarrow> eff_ret None
      | Some lv \<Rightarrow> or_else None (live (build_bundle lv \<lparr> dv_oi = sx_oi ctx, dv_funding = sx_funding ctx, dv_basis = None \<rparr> None)))"

definition build_context :: "'x chief_env \<Rightarrow> strategy_context \<Rightarrow> ('x, chief_context) cact" where
  "build_context env ctx =
     eff_bind (case cv_intelligence env of None \<Rightarrow> eff_ret [] | Some f \<Rightarrow> or_else [] (out (f (sx_symbol ctx)))) (\<lambda>intel.
     eff_bind (live_bundle env ctx) (\<lambda>b.
     (let regime = (case b of Some x \<Rightarrow> if sp_regime (bn_evidence x) \<noteq> [] then sp_regime (bn_evidence x) else ''UNKNOWN'' | None \<Rightarrow> ''UNKNOWN'') in
      eff_bind (case cv_memory env of None \<Rightarrow> eff_ret no_memory | Some f \<Rightarrow> or_else no_memory (out (f regime (sx_symbol ctx)))) (\<lambda>mem.
      eff_then (eff_mod (\<lambda>s. s\<lparr> ct_memory := mem \<rparr>))
        (eff_ret \<lparr> kx_symbol = sx_symbol ctx, kx_market = market_view ctx, kx_regime = regime, kx_portfolio = portfolio_view ctx,
           kx_intelligence = intel, kx_knowledge = mm_knowledge mem @ mm_patterns mem, kx_similar = mm_similar mem, kx_rules = mm_rules mem,
           kx_evidence = map_option bn_evidence b, kx_factors = b, kx_release = release_view env b \<rparr>)))))"

subsection \<open>Decisions that are made before asking\<close>

definition gate_decision :: "chief_context \<Rightarrow> usec \<Rightarrow> usec \<Rightarrow> string \<Rightarrow> string \<Rightarrow> string \<Rightarrow> fl \<Rightarrow> decision" where
  "gate_decision cc t1 t2 code thesis strat f =
     (new_decision (''gate_'' @ stamp_text t1) (kx_symbol cc) ''NO_TRADE'' (kx_regime cc))
       \<lparr> de_class := ''NO_TRADE'', de_thesis := thesis, de_reasons := [code], de_strategy := strat, de_fit := f, de_model := engine_version,
         de_created := iso_text t2 \<rparr>"

subsection \<open>Completing an answer\<close>

definition find_candidate :: "string \<Rightarrow> strategy_candidate list \<Rightarrow> strategy_candidate option" where
  "find_candidate sid cs = List.find (\<lambda>c. sc_id c = sid) cs"

definition or_text :: "string \<Rightarrow> string \<Rightarrow> string" where
  "or_text a b = (if a \<noteq> [] then a else b)"

text \<open>The version that an answer gives is overwritten with the empty text when its strategy is a candidate.\<close>

definition enrich :: "chief_context \<Rightarrow> decision \<Rightarrow> decision" where
  "enrich cc d =
     (let selected = find_candidate (de_strategy d) (with_side (evidence_candidates cc));
          dominant = (case kx_evidence cc of Some p \<Rightarrow> sp_dominant p | None \<Rightarrow> [])
      in d\<lparr> de_snapshot := or_text (de_snapshot d) (snapshot_id cc), de_factor_set := or_text (de_factor_set d) (factor_version cc),
            de_regime := (if de_regime d \<in> set [[], ''UNKNOWN''] then kx_regime cc else de_regime d),
            de_strategy_version := (case selected of None \<Rightarrow> de_strategy_version d
              | Some c \<Rightarrow> if de_strategy_version d = [] then sc_version c else []),
            de_supporting := (case selected of None \<Rightarrow> de_supporting d
              | Some c \<Rightarrow> if de_supporting d = [] then sc_supporting c else de_supporting d),
            de_contradicting := (case selected of None \<Rightarrow> de_contradicting d
              | Some c \<Rightarrow> if de_contradicting d = [] then sc_contradicting c else de_contradicting d),
            de_dominant := (if de_dominant d = [] \<and> dominant \<noteq> [] then hd dominant else de_dominant d) \<rparr>)"

definition or_fl :: "fl \<Rightarrow> fl \<Rightarrow> fl" where
  "or_fl a b = (if a \<noteq> 0 then a else b)"

definition confidence_of :: "decision \<Rightarrow> fl" where
  "confidence_of d = or_fl (de_conf d) (de_raw_conf d)"

definition selected_fit :: "chief_context \<Rightarrow> string \<Rightarrow> fl" where
  "selected_fit cc sid = (case find_candidate sid (evidence_candidates cc) of Some c \<Rightarrow> sc_fit c | None \<Rightarrow> 0)"

definition fit_of :: "chief_context \<Rightarrow> decision \<Rightarrow> fl" where
  "fit_of cc d = or_fl (de_fit d) (selected_fit cc (de_strategy d))"

definition classify_entry :: "chief_config \<Rightarrow> chief_context \<Rightarrow> decision \<Rightarrow> decision" where
  "classify_entry cfg cc d =
     (let conf = (if confidence_of d \<le> 0 then de_raw_conf d else confidence_of d);
          normal = (cg_normal_fit cfg \<le> fit_of cc d \<and> cg_normal_conf cfg \<le> conf)
      in d\<lparr> de_class := (if cg_exploring cfg \<and> \<not> normal then ''EXPLORATION_ENTRY'' else ''NORMAL_ENTRY''),
            de_exploration := cg_exploring cfg, de_conf := confidence_of d \<rparr>)"

definition add_code :: "bool \<Rightarrow> string \<Rightarrow> string list \<Rightarrow> string list" where
  "add_code b code codes = (if b \<and> code \<notin> set codes then codes @ [code] else codes)"

definition annotate_strength :: "chief_config \<Rightarrow> chief_context \<Rightarrow> decision \<Rightarrow> decision" where
  "annotate_strength cfg cc d =
     (let f = fit_of cc d; conf = confidence_of d;
          codes = add_code (map upper_char (kx_regime cc) = ''UNKNOWN'') ''REGIME_UNKNOWN''
                    (add_code (conf < cg_min_conf cfg) ''LOW_CONFIDENCE_EVIDENCE''
                      (add_code (f < cg_min_fit cfg) ''LOW_STRATEGY_FIT_EVIDENCE'' (de_reasons d)))
      in d\<lparr> de_fit := f, de_reasons := codes,
            de_class := (if cg_exploring cfg \<and> (f < cg_normal_fit cfg \<or> conf < cg_normal_conf cfg) then ''EXPLORATION_ENTRY'' else ''NORMAL_ENTRY''),
            de_exploration := cg_exploring cfg, de_conf := confidence_of d \<rparr>)"

subsection \<open>Signals\<close>

definition entry_quantity :: "chief_config \<Rightarrow> decision \<Rightarrow> dec" where
  "entry_quantity cfg d =
     (if take (length ''EXPLORATION'') (de_class d) = ''EXPLORATION'' then dmul (cg_quantity cfg) (repr_dec (cg_fraction cfg)) else cg_quantity cfg)"

definition entry_direction :: "string \<Rightarrow> order_side option" where
  "entry_direction action =
     (let a = map upper_char action
      in if a \<in> set [''LONG'', ''OPEN_LONG''] then Some BUY else if a \<in> set [''SHORT'', ''OPEN_SHORT''] then Some SELL else None)"

fun market_text :: "market_type \<Rightarrow> string" where
  "market_text SPOT = ''SPOT''" | "market_text PERPETUAL = ''PERPETUAL''"

definition bool_text :: "bool \<Rightarrow> string" where
  "bool_text b = (if b then ''True'' else ''False'')"

definition entry_signal :: "'x chief_env \<Rightarrow> string \<Rightarrow> order_side \<Rightarrow> decision \<Rightarrow> strategy_context \<Rightarrow> signal_intent" where
  "entry_signal env sid side d ctx =
     (let cfg = cv_config env; execution = execution_symbol_for (sx_symbol ctx); perp = is_paper_perpetual_symbol execution;
          market = (if perp then PERPETUAL else SPOT); pside = (if perp then (if side = BUY then LONG else SHORT) else FLAT)
      in \<lparr> s_id = sid, s_strategy = cg_name cfg, s_symbol = execution, s_side = side, s_qty = entry_quantity cfg d, s_limit = None,
           s_type = MARKET, s_tif = GTC, s_expires = None, s_reason = or_text (take 200 (de_thesis d)) ''llm_chief_trader'', s_run = None,
           s_market = market, s_pside = pside, s_reduce_only = False,
           s_meta = [(''decision_id'', JStr (de_id d)), (''thesis'', JStr (take 500 (de_thesis d))), (''model_version'', JStr (de_model d)),
             (''domain_model_version'', JStr (case cv_provider env of Some p \<Rightarrow> lp_version p | None \<Rightarrow> [])),
             (''llm_invocation_id'', JStr (de_invocation d)), (''selected_strategy'', JStr (de_strategy d)), (''strategy_fit_score'', fl_json (de_fit d)),
             (''market_regime'', JStr (de_regime d)), (''factor_snapshot_id'', JStr (de_snapshot d)), (''raw_llm_confidence'', fl_json (de_raw_conf d)),
             (''evidence_adjusted_confidence'', fl_json (de_conf d)), (''decision_class'', JStr (or_text (de_class d) ''NORMAL'')),
             (''exploration_mode'', JStr (bool_text (de_exploration d))), (''market_type'', JStr (market_text market)), (''execution_symbol'', JStr execution),
             (''reference_market_symbol'', JStr (sx_symbol ctx)), (''position_side'', JStr (pside_text pside)),
             (''requested_quantity'', JDec (entry_quantity cfg d))] \<rparr>)"

definition map_to_signals :: "'x chief_env \<Rightarrow> decision \<Rightarrow> strategy_context \<Rightarrow> ('x, signal_intent list) cact" where
  "map_to_signals env d ctx =
     (case entry_direction (de_action d) of
        None \<Rightarrow> eff_ret []
      | Some side \<Rightarrow>
          eff_bind (eff_get ct_ids) (\<lambda>n.
          eff_then (eff_mod (\<lambda>s. s\<lparr> ct_ids := n + 1 \<rparr>)) (eff_ret [entry_signal env (cv_gen env ''llm'' n) side d ctx])))"

subsection \<open>Stored evidence\<close>

definition candidate_json :: "strategy_candidate \<Rightarrow> json" where
  "candidate_json c =
     JObj [(''strategy_id'', JStr (sc_id c)), (''strategy_version'', JStr (sc_version c)), (''direction'', JStr (sc_dir c)),
       (''fit_score'', fl_json (sc_fit c)), (''raw_confidence'', fl_json (sc_conf c)), (''supporting_factors'', texts_json (sc_supporting c)),
       (''contradicting_factors'', texts_json (sc_contradicting c)), (''reason_codes'', texts_json (sc_reasons c)), (''data_health'', JStr (sc_health c))]"

text \<open>The two adjacent literals of the code are one text.\<close>

definition evidence_market :: "string \<Rightarrow> string" where
  "evidence_market sy = (if is_paper_perpetual_symbol (execution_symbol_for sy) then ''PERPETUAL'' @ ''PERPETUAL'' else ''SPOT'')"

definition count_json :: "'a list \<Rightarrow> json" where
  "count_json xs = JInt (int (length xs))"

definition analysis_evidence :: "'x chief_env \<Rightarrow> decision \<Rightarrow> strategy_context \<Rightarrow> chief_context \<Rightarrow> memory \<Rightarrow> meta" where
  "analysis_evidence env d ctx cc mem =
     (let cfg = cv_config env; sy = sx_symbol ctx; action = map upper_char (de_action d); entry = (action \<in> set [''LONG'', ''SHORT'']);
          perp = is_paper_perpetual_symbol (execution_symbol_for sy); text = (\<lambda>f. case cv_provider env of Some p \<Rightarrow> JStr (f p) | None \<Rightarrow> JStr [])
      in [(''factor_snapshot_persist_ok'', JBool (case kx_factors cc of Some b \<Rightarrow> bn_persisted b | None \<Rightarrow> True)),
          (''llm_invocation_id'', JStr (de_invocation d)), (''provider'', text lp_name), (''domain_model_version'', text lp_version),
          (''market_regime'', JStr (de_regime d)), (''raw_confidence'', fl_json (de_raw_conf d)), (''selected_strategy'', JStr (de_strategy d)),
          (''strategy_version'', JStr (de_strategy_version d)), (''strategy_fit_score'', fl_json (de_fit d)),
          (''secondary_strategies'', texts_json (de_secondary d)), (''supporting_factors'', texts_json (de_supporting d)),
          (''contradicting_factors'', texts_json (de_contradicting d)), (''dominant_factor'', JStr (de_dominant d)),
          (''evidence_adjusted_confidence'', fl_json (de_conf d)), (''position_size_request'', fl_json (de_size d)),
          (''leverage_request'', fl_json (de_leverage d)), (''market_type'', JStr (evidence_market sy)), (''execution_symbol'', JStr (execution_symbol_for sy)),
          (''reference_market_symbol'', JStr sy),
          (''position_side'', JStr (if entry \<and> perp then (if action = ''LONG'' then ''LONG'' else ''SHORT'') else ''FLAT'')),
          (''requested_quantity'', if entry then JDec (entry_quantity cfg d) else JStr []), (''memory_refs'', texts_json (mm_refs mem)),
          (''memory_summary'', JObj [(''confirmed_lessons'', count_json (mm_knowledge mem)), (''patterns'', count_json (mm_patterns mem)),
             (''similar_episodes'', count_json (mm_similar mem)), (''compressed_experience'', count_json (mm_rules mem))]),
          (''exploration_mode'', JBool (cg_exploring cfg)),
          (''decision_class'', JStr (or_text (de_class d) (if de_action d = ''NO_TRADE'' then ''NO_TRADE'' else []))),
          (''position_size'', JDec (entry_quantity cfg d)),
          (''entry_price_reference'', case sx_mark ctx of Some m \<Rightarrow> if m \<noteq> 0 then JDec m else JStr [] | None \<Rightarrow> JStr []),
          (''exploration_probability'', if cg_exploring cfg then fl_json (cg_probability cfg) else JNull),
          (''strategy_candidates'', JList (map candidate_json (evidence_candidates cc))),
          (''risk_flags'', texts_json (case kx_evidence cc of Some p \<Rightarrow> sp_flags p | None \<Rightarrow> []))])"

definition decision_evidence ::
  "'x chief_env \<Rightarrow> decision \<Rightarrow> strategy_context \<Rightarrow> chief_context \<Rightarrow> string \<Rightarrow> memory \<Rightarrow> string \<Rightarrow> meta" where
  "decision_evidence env d ctx cc reference mem now =
     (let cfg = cv_config env
      in [(''decision_id'', JStr (de_id d)), (''timestamp_utc'', JStr now), (''symbol'', JStr (sx_symbol ctx)), (''timeframe'', JStr ''runtime''),
          (''strategy_id'', JStr (cg_name cfg)), (''strategy_version'', JStr (cg_version cfg)), (''model_version'', JStr (de_model d)),
          (''prompt_version'', JStr ''chief-prompt-v2-strategy-fit''), (''factor_snapshot_id'', JStr (or_text (de_snapshot d) (snapshot_id cc))),
          (''factor_set_version'', JStr (or_text (de_factor_set d) (factor_version cc))), (''factor_profile'', JStr ''FULL''),
          (''market_data_reference'', JStr (''tick:'' @ sx_symbol ctx @ ''@'' @ iso_text (sx_time ctx))),
          (''analysis_evidence'', JObj (analysis_evidence env d ctx cc mem)), (''decision'', decision_json d),
          (''risk_decision'', JObj [(''status'', JStr ''PENDING''), (''note'', JStr ''NO_TRADE decisions are never submitted to RiskEngine'')]),
          (''execution_intent_reference'', JStr reference), (''created_at_utc'', JStr now)])"

definition persist_evidence :: "'x chief_env \<Rightarrow> decision \<Rightarrow> strategy_context \<Rightarrow> chief_context \<Rightarrow> string \<Rightarrow> ('x, unit) cact" where
  "persist_evidence env d ctx cc reference =
     (case cv_store env of
        None \<Rightarrow> eff_ret ()
      | Some store \<Rightarrow>
          eff_bind (out (reads (cv_now env))) (\<lambda>t.
          eff_bind (eff_get ct_memory) (\<lambda>mem.
          eff_try (out (store (decision_evidence env d ctx cc reference mem (iso_text t))))
            (\<lambda>e. eff_mod (\<lambda>s. s\<lparr> ct_failures := ct_failures s + 1 \<rparr>)))))"

text \<open>A gate: the decision not to enter is stored, and there is no signal.\<close>

definition skip_entry ::
  "'x chief_env \<Rightarrow> strategy_context \<Rightarrow> chief_context \<Rightarrow> string \<Rightarrow> string \<Rightarrow> string \<Rightarrow> fl \<Rightarrow> ('x, signal_intent list) cact" where
  "skip_entry env ctx cc code thesis strat f =
     eff_bind (out (reads (cv_now env))) (\<lambda>t1. eff_bind (out (reads (cv_now env))) (\<lambda>t2.
     eff_then (persist_evidence env (gate_decision cc t1 t2 code thesis strat f) ctx cc []) (eff_ret [])))"

subsection \<open>Deciding\<close>

definition no_snapshot_text :: string where
  "no_snapshot_text = ''No real FactorSnapshot available (market data insufficient or provider failure); new entries fail closed''"

definition no_evidence_text :: "string \<Rightarrow> string" where
  "no_evidence_text who = ''No strategy evidence package available; new entries fail closed without '' @ who @ '' evaluation''"

definition cooldown_text :: "string \<Rightarrow> fl \<Rightarrow> fl \<Rightarrow> string" where
  "cooldown_text sy waited limit =
     ''Entry skipped: last '' @ sy @ '' entry '' @ whole_text waited @ ''s ago, cooldown '' @ whole_text limit @ ''s''"

definition holds_position :: "position \<Rightarrow> bool" where
  "holds_position p \<longleftrightarrow> fround (p_qty p) \<noteq> 0"

text \<open>The gate on the time since the last entry for the symbol; it gives the reading of the clock that a new entry is marked with.\<close>

definition cooldown_left :: "'x chief_env \<Rightarrow> strategy_context \<Rightarrow> fl \<Rightarrow> 'x chief \<Rightarrow> fl option" where
  "cooldown_left env ctx now s =
     (case map_of (ct_entries s) (sx_symbol ctx) of
        None \<Rightarrow> None
      | Some t \<Rightarrow> if fsub now t < cg_cooldown (cv_config env) then Some (fsub now t) else None)"

definition cooldown_gate ::
  "'x chief_env \<Rightarrow> strategy_context \<Rightarrow> chief_context \<Rightarrow> (fl \<Rightarrow> ('x, signal_intent list) cact) \<Rightarrow> ('x, signal_intent list) cact" where
  "cooldown_gate env ctx cc k =
     eff_bind (out (reads (cv_monotonic env))) (\<lambda>now.
     eff_bind (eff_get (cooldown_left env ctx now)) (\<lambda>left.
       case left of
         Some waited \<Rightarrow> skip_entry env ctx cc ''ENTRY_COOLDOWN_ACTIVE'' (cooldown_text (sx_symbol ctx) waited (cg_cooldown (cv_config env))) [] 0
       | None \<Rightarrow> k now))"

text \<open>Asking, completing the answer with \<open>mark\<close>, mapping it to signals and storing it.\<close>

definition complete_answer ::
  "(chief_config \<Rightarrow> chief_context \<Rightarrow> decision \<Rightarrow> decision) \<Rightarrow> chief_config \<Rightarrow> chief_context \<Rightarrow> decision \<Rightarrow> decision" where
  "complete_answer mark cfg cc d0 = (let d = enrich cc d0 in if de_action d \<in> set [''LONG'', ''SHORT''] then mark cfg cc d else d)"

definition submit_entry :: "'x chief_env \<Rightarrow> strategy_context \<Rightarrow> chief_context \<Rightarrow> fl \<Rightarrow> decision \<Rightarrow> ('x, signal_intent list) cact" where
  "submit_entry env ctx cc now d =
     eff_bind (map_to_signals env d ctx) (\<lambda>sgs.
     eff_then (if sgs \<noteq> [] then eff_mod (\<lambda>s. s\<lparr> ct_entries := AList.update (sx_symbol ctx) now (ct_entries s) \<rparr>) else eff_ret ())
     (eff_then (persist_evidence env d ctx cc (case sgs of [] \<Rightarrow> [] | sg # _ \<Rightarrow> s_id sg)) (eff_ret sgs)))"

definition answer_entry ::
  "'x chief_env \<Rightarrow> (chief_config \<Rightarrow> chief_context \<Rightarrow> decision \<Rightarrow> decision) \<Rightarrow> strategy_context \<Rightarrow> chief_context \<Rightarrow> fl \<Rightarrow>
     ('x, signal_intent list) cact" where
  "answer_entry env mark ctx cc now =
     eff_bind (out (chief_decide (cv_provider env) (cv_validate env) (cv_now env) cc)) (\<lambda>d0.
       submit_entry env ctx cc now (complete_answer mark (cv_config env) cc d0))"

definition data_gates ::
  "'x chief_env \<Rightarrow> string \<Rightarrow> strategy_context \<Rightarrow> chief_context \<Rightarrow> ('x, signal_intent list) cact \<Rightarrow> ('x, signal_intent list) cact" where
  "data_gates env who ctx cc k =
     (if snapshot_id cc = [] then skip_entry env ctx cc ''FACTOR_CONTEXT_UNAVAILABLE'' no_snapshot_text [] 0
      else if evidence_candidates cc = [] then skip_entry env ctx cc ''STRATEGY_EVIDENCE_UNAVAILABLE'' (no_evidence_text who) [] 0
      else k)"

definition perp_text :: string where
  "perp_text = ''Entry skipped: a PAPER PERPETUAL position is already open; management is handled by the ''"

text \<open>The check for a perpetual position as the AI-first adapter does it.\<close>

definition perp_check :: "'x chief_env \<Rightarrow> strategy_context \<Rightarrow> ('x, bool option) cact" where
  "perp_check env ctx =
     (case cv_perp env of None \<Rightarrow> eff_ret (Some False)
        | Some f \<Rightarrow> or_else None (eff_bind (out (f (sx_symbol ctx))) (\<lambda>h. eff_ret (Some h))))"

definition ai_first_decide ::
  "'x chief_env \<Rightarrow> (strategy_context \<Rightarrow> ('x, chief_context) cact) \<Rightarrow> strategy_context \<Rightarrow> ('x, signal_intent list) cact" where
  "ai_first_decide env context_of ctx =
     eff_bind (context_of ctx) (\<lambda>cc.
     data_gates env ''AI'' ctx cc
       (if (case map_of (sx_positions ctx) (sx_symbol ctx) of Some p \<Rightarrow> holds_position p | None \<Rightarrow> False) then
          skip_entry env ctx cc ''POSITION_ALREADY_OPEN''
            (''Entry skipped: '' @ sx_symbol ctx @ '' already has an active position; management is handled by the runtime bridge'') [] 0
        else
          eff_bind (perp_check env ctx) (\<lambda>held.
            case held of
              Some True \<Rightarrow> skip_entry env ctx cc ''POSITION_ALREADY_OPEN'' (perp_text @ ''runtime bridge'') [] 0
            | None \<Rightarrow> skip_entry env ctx cc ''PERPETUAL_STATE_UNAVAILABLE''
                ''Entry skipped: perpetual position state could not be verified; fail closed rather than risk pyramiding'' [] 0
            | Some False \<Rightarrow> cooldown_gate env ctx cc (answer_entry env annotate_strength ctx cc))))"

text \<open>Whether a weak best candidate is left out by sampling; the sampler is asked only then.\<close>

definition sampled_out :: "'x chief_env \<Rightarrow> chief_context \<Rightarrow> ('x, strategy_candidate option) cact" where
  "sampled_out env cc =
     (case with_side (evidence_candidates cc) of
        [] \<Rightarrow> eff_ret None
      | c # cs \<Rightarrow>
          (let best = max_by sc_fit c cs; cfg = cv_config env in
           if cg_exploring cfg \<and> sc_fit best < cg_borderline cfg then
             (case cv_sampler env of
                None \<Rightarrow> eff_ret None
              | Some sample \<Rightarrow> eff_bind (out (reads sample)) (\<lambda>u. eff_ret (if cg_probability cfg \<le> u then Some best else None)))
           else eff_ret None))"

definition skipped_text :: "chief_config \<Rightarrow> strategy_candidate \<Rightarrow> string" where
  "skipped_text cfg c =
     ''Borderline candidate '' @ sc_id c @ '' fit '' @ float_text (sc_fit c) @ '' not sampled (exploration_probability='' @
     float_text (cg_probability cfg) @ '')''"

text \<open>The check of the base adapter goes on when it fails.\<close>

definition base_perp_check :: "'x chief_env \<Rightarrow> strategy_context \<Rightarrow> ('x, bool) cact" where
  "base_perp_check env ctx =
     (case cv_perp env of None \<Rightarrow> eff_ret False | Some f \<Rightarrow> or_else False (out (f (sx_symbol ctx))))"

definition base_decide :: "'x chief_env \<Rightarrow> strategy_context \<Rightarrow> ('x, signal_intent list) cact" where
  "base_decide env ctx =
     eff_bind (build_context env ctx) (\<lambda>cc.
     data_gates env ''LLM'' ctx cc
       (if list_ex holds_position (map snd (sx_positions ctx)) then
          skip_entry env ctx cc ''POSITION_ALREADY_OPEN'' ''Entry skipped: an active position exists; management is handled by the runtime bridge'' [] 0
        else
          eff_bind (base_perp_check env ctx) (\<lambda>held.
            if held then skip_entry env ctx cc ''POSITION_ALREADY_OPEN'' (perp_text @ ''bridge'') [] 0
            else cooldown_gate env ctx cc (\<lambda>now.
              eff_bind (sampled_out env cc) (\<lambda>weak.
                case weak of
                  Some c \<Rightarrow> skip_entry env ctx cc ''EXPLORATION_SKIPPED'' (skipped_text (cv_config env) c) (sc_id c) (sc_fit c)
                | None \<Rightarrow> answer_entry env classify_entry ctx cc now)))))"

subsection \<open>A tick of the base adapter\<close>

definition provider_ready :: "'x chief_env \<Rightarrow> 'x chief \<Rightarrow> bool res" where
  "provider_ready env s =
     (case cv_provider env of None \<Rightarrow> ret False
      | Some p \<Rightarrow> rbind (lp_healthy p (ct_world s)) (\<lambda>healthy. if healthy then lp_route p (ct_world s) else ret False))"

definition base_on_market_data :: "'x chief_env \<Rightarrow> strategy_context \<Rightarrow> ('x, signal_intent list) cact" where
  "base_on_market_data env ctx =
     eff_bind (eff_get (provider_ready env)) (\<lambda>r. eff_bind (eff_lift r) (\<lambda>ready.
       if \<not> ready then eff_ret []
       else
         eff_bind (out (reads (cv_monotonic env))) (\<lambda>now.
         eff_bind (eff_get ct_decided) (\<lambda>done_at.
           if (case done_at of Some t \<Rightarrow> fsub now t < max (cg_interval (cv_config env)) 0 | None \<Rightarrow> False) then eff_ret []
           else eff_finally (base_decide env ctx)
             (eff_bind (out (reads (cv_monotonic env))) (\<lambda>t. eff_mod (\<lambda>s. s\<lparr> ct_decided := Some t \<rparr>)))))))"

subsection \<open>The record of entries\<close>

definition entries_kept :: "'x chief \<Rightarrow> 'x chief \<Rightarrow> bool" where
  "entries_kept s t \<longleftrightarrow> ct_entries t = ct_entries s"

interpretation ek: step_relation entries_kept
  by unfold_locales (simp_all add: entries_kept_def)

lemma ek_parts: "moves entries_kept (out m)" "moves entries_kept (live k)"
  by (auto simp: out_def live_def intro!: ek.zoom simp: entries_kept_def)

lemma ek_or_else: "moves entries_kept m \<Longrightarrow> moves entries_kept (or_else x m)"
  unfolding or_else_def by (intro ek.rules)

lemma ek_upd: "(\<And>s. ct_entries (f s) = ct_entries s) \<Longrightarrow> moves entries_kept (eff_mod f)"
  by (rule ek.upd) (simp add: entries_kept_def)

lemma ek_context: "moves entries_kept (build_context env ctx)"
  unfolding build_context_def live_bundle_def Let_def by (intro ek.rules ek_or_else ek_parts ek_upd) simp

lemma ek_persist: "moves entries_kept (persist_evidence env d ctx cc r)"
  unfolding persist_evidence_def by (intro ek.rules ek_parts ek_upd) simp

lemma ek_skip: "moves entries_kept (skip_entry env ctx cc code thesis strat f)"
  unfolding skip_entry_def by (intro ek.rules ek_parts ek_persist)

lemma ek_signals: "moves entries_kept (map_to_signals env d ctx)"
  unfolding map_to_signals_def by (intro ek.rules ek_upd) simp

text \<open>A call leaves the record as it is, or marks an entry after the cooldown of the symbol.\<close>

definition entry_marked :: "'x chief_env \<Rightarrow> strategy_context \<Rightarrow> fl \<Rightarrow> 'x chief \<Rightarrow> 'x chief \<Rightarrow> bool" where
  "entry_marked env ctx now s t \<longleftrightarrow> cooldown_left env ctx now s = None \<and> ct_entries t = AList.update (sx_symbol ctx) now (ct_entries s)"

lemma skip_no_signal: "skip_entry env ctx cc code thesis strat f s = (t, r) \<Longrightarrow> r \<noteq> ret (sg # sgs) \<and> ct_entries t = ct_entries s"
  using movesD [OF ek_skip] by (fastforce simp: skip_entry_def entries_kept_def elim!: eff_bind_cases)

lemma persist_returns: "\<exists>t. persist_evidence env d ctx cc r s = (t, ret ())"
  by (auto simp: persist_evidence_def out_def eff_zoom_def reads_def eff_try_def eff_bind_def split: option.split prod.split sum.split)

text \<open>Only a decision with a direction is submitted, and only then an entry is marked.\<close>

lemma submit_entry_result:
  assumes "submit_entry env ctx cc now d s = (t, r)"
  obtains (none) "entry_direction (de_action d) = None" "ct_entries t = ct_entries s" "\<And>sg sgs. r \<noteq> ret (sg # sgs)"
  | (entry) sid side where "entry_direction (de_action d) = Some side" "ct_entries t = AList.update (sx_symbol ctx) now (ct_entries s)"
      "r = ret [entry_signal env sid side d ctx]"
proof (cases "entry_direction (de_action d)")
  case None
  then have "eff_then (persist_evidence env d ctx cc []) (eff_ret []) s = (t, r)"
    using assms by (simp add: submit_entry_def map_to_signals_def)
  then show ?thesis using movesD [OF ek_persist] by (intro none None) (auto simp: entries_kept_def elim!: eff_bind_cases)
next
  case (Some side)
  define sg where "sg = entry_signal env (cv_gen env ''llm'' (ct_ids s)) side d ctx"
  define s4 where "s4 = s\<lparr> ct_ids := ct_ids s + 1, ct_entries := AList.update (sx_symbol ctx) now (ct_entries s) \<rparr>"
  have "eff_then (persist_evidence env d ctx cc (s_id sg)) (eff_ret [sg]) s4 = (t, r)"
    using assms Some by (simp add: submit_entry_def map_to_signals_def sg_def s4_def)
  moreover obtain u where "persist_evidence env d ctx cc (s_id sg) s4 = (u, ret ())" using persist_returns by blast
  ultimately have "ct_entries t = ct_entries s4" "r = ret [sg]"
    using movesD [OF ek_persist] by (auto simp: entries_kept_def)
  then show ?thesis by (intro entry [OF Some]) (auto simp: s4_def sg_def)
qed

lemma enrich_action [simp]: "de_action (enrich cc d) = de_action d"
  by (simp add: enrich_def Let_def)

lemma mark_action [simp]: "de_action (annotate_strength cfg cc d) = de_action d" "de_action (classify_entry cfg cc d) = de_action d"
  by (simp_all add: annotate_strength_def classify_entry_def Let_def)

lemma complete_action: "(\<And>d. de_action (mark cfg cc d) = de_action d) \<Longrightarrow> de_action (complete_answer mark cfg cc d) = de_action d"
  by (simp add: complete_answer_def Let_def)

lemma ek_perp_check: "moves entries_kept (perp_check env ctx)"
  unfolding perp_check_def by (cases "cv_perp env") (auto intro!: ek.rules ek_or_else ek_parts)

lemma perp_check_passes:
  assumes "perp_check env ctx s = (t, ret (Some False))"
  shows "case cv_perp env of None \<Rightarrow> t = s | Some f \<Rightarrow> out (f (sx_symbol ctx)) s = (t, ret False)"
  using assms by (auto simp: perp_check_def or_else_def eff_try_def eff_bind_def split: option.splits prod.splits sum.splits)

definition no_position :: "strategy_context \<Rightarrow> bool" where
  "no_position ctx \<longleftrightarrow> (\<forall>p. map_of (sx_positions ctx) (sx_symbol ctx) = Some p \<longrightarrow> \<not> holds_position p)"

lemma cooldown_gate_result:
  assumes "cooldown_gate env ctx cc k s = (t, r)"
  obtains (quiet) "ct_entries t = ct_entries s" "\<And>sg sgs. r \<noteq> ret (sg # sgs)"
  | (open_) now s1 where "out (reads (cv_monotonic env)) s = (s1, ret now)" "ct_entries s1 = ct_entries s" "cooldown_left env ctx now s1 = None"
      "k now s1 = (t, r)"
  using assms unfolding cooldown_gate_def
proof (cases rule: eff_bind_cases)
  case (raised e)
  then show ?thesis using movesD [OF ek_parts(1)] by (intro quiet) (auto simp: entries_kept_def)
next
  case (returned s1 now)
  have kept: "ct_entries s1 = ct_entries s" using movesD [OF ek_parts(1) returned(1)] by (simp add: entries_kept_def)
  show ?thesis
  proof (cases "cooldown_left env ctx now s1")
    case None
    then show ?thesis using returned by (intro open_ [OF returned(1) kept]) simp_all
  next
    case (Some w)
    then have "skip_entry env ctx cc ''ENTRY_COOLDOWN_ACTIVE'' (cooldown_text (sx_symbol ctx) w (cg_cooldown (cv_config env))) [] 0 s1 = (t, r)"
      using returned(2) by simp
    from skip_no_signal [OF this] show ?thesis by (intro quiet) (simp_all add: kept)
  qed
qed

lemma ai_first_result:
  assumes "ai_first_decide env context_of ctx s = (t, r)" "moves entries_kept (context_of ctx)"
  obtains (quiet) "ct_entries t = ct_entries s" "\<And>sg sgs. r \<noteq> ret (sg # sgs)"
  | (answered) s1 cc s2 now s3 where "context_of ctx s = (s1, ret cc)" "snapshot_id cc \<noteq> []" "evidence_candidates cc \<noteq> []" "no_position ctx"
      "perp_check env ctx s1 = (s2, ret (Some False))" "out (reads (cv_monotonic env)) s2 = (s3, ret now)" "ct_entries s3 = ct_entries s"
      "cooldown_left env ctx now s3 = None" "answer_entry env annotate_strength ctx cc now s3 = (t, r)"
  using assms(1) unfolding ai_first_decide_def
proof (cases rule: eff_bind_cases)
  case (raised e)
  then show ?thesis using movesD [OF assms(2)] by (intro quiet) (auto simp: entries_kept_def)
next
  case (returned s1 cc)
  have kept1: "ct_entries s1 = ct_entries s" using movesD [OF assms(2) returned(1)] by (simp add: entries_kept_def)
  have skipped: thesis if "skip_entry env ctx cc code why strat f u = (t, r)" "ct_entries u = ct_entries s" for code why strat f u
    using skip_no_signal [OF that(1)] that(2) by (intro quiet) simp_all
  let ?pos = "case map_of (sx_positions ctx) (sx_symbol ctx) of Some p \<Rightarrow> holds_position p | None \<Rightarrow> False"
  show ?thesis
  proof (cases "snapshot_id cc = [] \<or> evidence_candidates cc = [] \<or> ?pos")
    case True
    then show ?thesis using returned(2) kept1 skipped by (fastforce simp: data_gates_def split: if_splits)
  next
    case False
    then have pos: "no_position ctx" by (auto simp: no_position_def split: option.splits)
    have "eff_bind (perp_check env ctx) (\<lambda>held. case held of
              None \<Rightarrow> skip_entry env ctx cc ''PERPETUAL_STATE_UNAVAILABLE''
                ''Entry skipped: perpetual position state could not be verified; fail closed rather than risk pyramiding'' [] 0
            | Some True \<Rightarrow> skip_entry env ctx cc ''POSITION_ALREADY_OPEN'' (perp_text @ ''runtime bridge'') [] 0
            | Some False \<Rightarrow> cooldown_gate env ctx cc (answer_entry env annotate_strength ctx cc)) s1 = (t, r)"
      using returned(2) False by (simp add: data_gates_def)
    then show ?thesis
    proof (cases rule: eff_bind_cases)
      case (raised e)
      then show ?thesis using movesD [OF ek_perp_check raised(1)] kept1 by (intro quiet) (auto simp: entries_kept_def)
    next
      case perp: (returned s2 held)
      have kept2: "ct_entries s2 = ct_entries s" using movesD [OF ek_perp_check perp(1)] kept1 by (simp add: entries_kept_def)
      show ?thesis
      proof (cases "held = Some False")
        case True
        then have "cooldown_gate env ctx cc (answer_entry env annotate_strength ctx cc) s2 = (t, r)" using perp(2) by simp
        then show ?thesis
        proof (cases rule: cooldown_gate_result)
          case quiet
          then show ?thesis using kept2 by (intro that(1)) simp_all
        next
          case (open_ now s3)
          show ?thesis
            by (rule answered [OF returned(1) _ _ pos perp(1) [unfolded True] open_(1)]) (use False open_ kept2 in simp_all)
        qed
      next
        case no: False
        then show ?thesis using perp(2) kept2 skipped by (cases held) (auto split: bool.splits)
      qed
    qed
  qed
qed

subsection \<open>What an entry is\<close>

lemma out_result: "out m s = (t, r) \<Longrightarrow> \<exists>y. m (ct_world s) = (y, r)"
  by (auto simp: out_def eff_zoom_def split: prod.splits)

lemma direction_known:
  assumes "entry_direction a = Some side" "a \<in> {''LONG'', ''SHORT'', ''NO_TRADE'', ''WAIT''}"
  shows "a \<in> {''LONG'', ''SHORT''}"
proof -
  have "entry_direction ''NO_TRADE'' = None" "entry_direction ''WAIT'' = None" by code_simp+
  then show ?thesis using assms by auto
qed

definition entry_shape :: "chief_config \<Rightarrow> strategy_context \<Rightarrow> signal_intent \<Rightarrow> bool" where
  "entry_shape cfg ctx sg \<longleftrightarrow> s_type sg = MARKET \<and> \<not> s_reduce_only sg \<and> s_symbol sg = execution_symbol_for (sx_symbol ctx) \<and>
     (s_market sg = PERPETUAL \<longleftrightarrow> is_paper_perpetual_symbol (s_symbol sg)) \<and>
     s_pside sg = (if s_market sg = PERPETUAL then (if s_side sg = BUY then LONG else SHORT) else FLAT) \<and>
     s_qty sg \<in> {cg_quantity cfg, dmul (cg_quantity cfg) (repr_dec (cg_fraction cfg))}"

lemma entry_signal_shape: "entry_shape (cv_config env) ctx (entry_signal env sid side d ctx)"
  by (simp add: entry_shape_def entry_signal_def entry_quantity_def Let_def)

text \<open>The model, asked about this context in this state, gave a usable answer that names an entry, on this side.\<close>

definition entry_answered :: "'x chief_env \<Rightarrow> chief_context \<Rightarrow> 'x chief \<Rightarrow> order_side \<Rightarrow> bool" where
  "entry_answered env cc s side \<longleftrightarrow>
     (\<exists>x resp raw. ask (cv_provider env) cc (ct_world s) = (x, ret (Some resp)) \<and> lm_ok resp \<and> lm_json resp = Some raw \<and>
        names_entry raw \<and> read_action raw = (if side = BUY then ''LONG'' else ''SHORT''))"

lemma direction_side:
  "entry_direction ''LONG'' = Some BUY" "entry_direction ''SHORT'' = Some SELL"
  by code_simp+

lemma answered_entry:
  assumes "answer_entry env annotate_strength ctx cc now s = (t, ret (sg # sgs))" "keeps_action (cv_validate env)"
  shows "sgs = [] \<and> entry_shape (cv_config env) ctx sg \<and> entry_answered env cc s (s_side sg) \<and> ct_entries t = AList.update (sx_symbol ctx) now (ct_entries s)"
proof -
  from assms(1) obtain s1 d0 where d0: "out (chief_decide (cv_provider env) (cv_validate env) (cv_now env) cc) s = (s1, ret d0)"
    "submit_entry env ctx cc now (complete_answer annotate_strength (cv_config env) cc d0) s1 = (t, ret (sg # sgs))"
    by (auto simp: answer_entry_def elim!: eff_bind_cases)
  from d0(2) show ?thesis
  proof (cases rule: submit_entry_result)
    case (entry sid side)
    have dir: "entry_direction (de_action d0) = Some side" using entry(1) by (simp add: complete_action)
    obtain y where y: "chief_decide (cv_provider env) (cv_validate env) (cv_now env) cc (ct_world s) = (y, ret d0)" using out_result [OF d0(1)] by blast
    note known = chief_decide_action [OF y assms(2)]
    then have "de_action d0 \<in> {''LONG'', ''SHORT''}" using direction_known [OF dir] by blast
    then obtain x1 resp raw where a: "ask (cv_provider env) cc (ct_world s) = (x1, ret (Some resp))" "lm_ok resp" "lm_json resp = Some raw" "names_entry raw"
        "read_action raw = de_action d0"
      using known by blast
    then have "read_action raw = (if side = BUY then ''LONG'' else ''SHORT'')"
      using \<open>de_action d0 \<in> {''LONG'', ''SHORT''}\<close> dir direction_side by auto
    then have "entry_answered env cc s side" using a unfolding entry_answered_def by blast
    moreover have "s_side sg = side" using entry(3) by (auto simp: entry_signal_def Let_def)
    moreover have "ct_entries s1 = ct_entries s" using movesD [OF ek_parts(1) d0(1)] by (simp add: entries_kept_def)
    ultimately show ?thesis using entry(2,3) entry_signal_shape by auto
  qed blast
qed

lemma ai_first_entry:
  assumes "ai_first_decide env context_of ctx s = (t, ret (sg # sgs))" "moves entries_kept (context_of ctx)" "keeps_action (cv_validate env)"
  shows "sgs = [] \<and> entry_shape (cv_config env) ctx sg \<and> no_position ctx \<and>
    (\<exists>s1 cc s2 now s3. context_of ctx s = (s1, ret cc) \<and> snapshot_id cc \<noteq> [] \<and> evidence_candidates cc \<noteq> [] \<and>
      (case cv_perp env of None \<Rightarrow> s2 = s1 | Some f \<Rightarrow> out (f (sx_symbol ctx)) s1 = (s2, ret False)) \<and>
      out (reads (cv_monotonic env)) s2 = (s3, ret now) \<and> cooldown_left env ctx now s3 = None \<and> entry_answered env cc s3 (s_side sg))"
  using assms(1,2)
proof (cases rule: ai_first_result)
  case (answered s1 cc s2 now s3)
  then show ?thesis using perp_check_passes [OF answered(5)] answered_entry [OF answered(9) assms(3)] by blast
qed blast

text \<open>A call marks an entry only after the cooldown; whatever it returns, other symbols are as before.\<close>

lemma ai_first_entries:
  assumes "ai_first_decide env context_of ctx s = (t, r)" "moves entries_kept (context_of ctx)"
  shows "ct_entries t = ct_entries s \<and> (\<forall>sg sgs. r \<noteq> ret (sg # sgs)) \<or>
    (\<exists>now sg. ct_entries t = AList.update (sx_symbol ctx) now (ct_entries s) \<and> r = ret [sg] \<and>
      (\<forall>t0. map_of (ct_entries s) (sx_symbol ctx) = Some t0 \<longrightarrow> cg_cooldown (cv_config env) \<le> fsub now t0))"
  using assms
proof (cases rule: ai_first_result)
  case (answered s1 cc s2 now s3)
  have cool: "\<forall>t0. map_of (ct_entries s) (sx_symbol ctx) = Some t0 \<longrightarrow> cg_cooldown (cv_config env) \<le> fsub now t0"
    using answered(7,8) by (auto simp: cooldown_left_def split: option.splits if_splits)
  from answered(9) show ?thesis unfolding answer_entry_def
  proof (cases rule: eff_bind_cases)
    case (raised e)
    then show ?thesis using movesD [OF ek_parts(1) raised(1)] answered(7) by (simp add: entries_kept_def)
  next
    case (returned s4 d0)
    have "ct_entries s4 = ct_entries s" using movesD [OF ek_parts(1) returned(1)] answered(7) by (simp add: entries_kept_def)
    with returned(2) show ?thesis by (cases rule: submit_entry_result) (use cool in auto)
  qed
qed blast

subsection \<open>Two findings\<close>

text \<open>An answer that names no strategy takes over the best candidate and its version; completing the decision then overwrites the
  version with the empty text, although the code means to keep a version that is set.\<close>

theorem filled_version_erased:
  assumes "de_strategy d = []" "with_side (evidence_candidates cc) = c # cs" "\<And>x. x \<in> set (c # cs) \<Longrightarrow> sc_version x \<noteq> []"
  shows "de_strategy_version (fill_strategy cc d) \<noteq> [] \<and> de_strategy (enrich cc (fill_strategy cc d)) = sc_id (max_by sc_fit c cs) \<and>
    de_strategy_version (enrich cc (fill_strategy cc d)) = []"
proof -
  define best where "best = max_by sc_fit c cs"
  have best: "best \<in> set (c # cs)" using max_by_mem [of sc_fit c cs] by (simp add: best_def)
  then obtain x where x: "find_candidate (sc_id best) (c # cs) = Some x"
    unfolding find_candidate_def using find_None_iff [of "\<lambda>y. sc_id y = sc_id best" "c # cs"] by (cases "List.find (\<lambda>y. sc_id y = sc_id best) (c # cs)") auto
  have f: "fill_strategy cc d = d\<lparr> de_strategy := sc_id best, de_strategy_version := sc_version best, de_fit := sc_fit best \<rparr>"
    using assms(1,2) by (simp add: fill_strategy_def best_def Let_def)
  then show ?thesis using x assms(2) assms(3) [OF best] by (simp add: enrich_def Let_def best_def)
qed

text \<open>The parts of the adapter that do not look at the check for a perpetual position.\<close>

lemma perp_only:
  "cv_provider (env\<lparr> cv_perp := q \<rparr>) = cv_provider env" "cv_intelligence (env\<lparr> cv_perp := q \<rparr>) = cv_intelligence env"
  "cv_live (env\<lparr> cv_perp := q \<rparr>) = cv_live env" "cv_memory (env\<lparr> cv_perp := q \<rparr>) = cv_memory env" "cv_store (env\<lparr> cv_perp := q \<rparr>) = cv_store env"
  "cv_sampler (env\<lparr> cv_perp := q \<rparr>) = cv_sampler env" "cv_validate (env\<lparr> cv_perp := q \<rparr>) = cv_validate env"
  "cv_monotonic (env\<lparr> cv_perp := q \<rparr>) = cv_monotonic env" "cv_now (env\<lparr> cv_perp := q \<rparr>) = cv_now env"
  "cv_gen (env\<lparr> cv_perp := q \<rparr>) = cv_gen env" "cv_config (env\<lparr> cv_perp := q \<rparr>) = cv_config env"
  by simp_all

lemma perp_context: "build_context (env\<lparr> cv_perp := q \<rparr>) ctx = build_context env ctx"
  unfolding build_context_def live_bundle_def release_view_def perp_only ..

lemma perp_persist: "persist_evidence (env\<lparr> cv_perp := q \<rparr>) d ctx cc r = persist_evidence env d ctx cc r"
  unfolding persist_evidence_def decision_evidence_def analysis_evidence_def perp_only ..

lemma perp_skip: "skip_entry (env\<lparr> cv_perp := q \<rparr>) ctx cc code thesis strat f = skip_entry env ctx cc code thesis strat f"
  unfolding skip_entry_def perp_persist perp_only ..

lemma perp_cooldown: "cooldown_gate (env\<lparr> cv_perp := q \<rparr>) ctx cc k = cooldown_gate env ctx cc k"
  unfolding cooldown_gate_def cooldown_left_def perp_skip perp_only ..

lemma perp_answer: "answer_entry (env\<lparr> cv_perp := q \<rparr>) mark ctx cc now = answer_entry env mark ctx cc now"
  unfolding answer_entry_def submit_entry_def map_to_signals_def entry_signal_def perp_persist perp_only ..

lemma perp_gates: "data_gates (env\<lparr> cv_perp := q \<rparr>) who ctx cc k = data_gates env who ctx cc k"
  unfolding data_gates_def perp_skip ..

lemma perp_sampled: "sampled_out (env\<lparr> cv_perp := q \<rparr>) cc = sampled_out env cc"
  unfolding sampled_out_def perp_only ..

text \<open>C26: if the check for a perpetual position fails, the base adapter goes on as if there were no such check, while the AI-first
  adapter returns no signal.\<close>

theorem perp_check_failure:
  assumes "cv_perp env = Some f" "\<And>x. f (sx_symbol ctx) x = (x, Inl (err x))"
  shows "base_decide env ctx s = base_decide (env\<lparr> cv_perp := None \<rparr>) ctx s \<and>
    (\<forall>sg sgs. snd (ai_first_decide env (build_context env) ctx s) \<noteq> ret (sg # sgs))"
proof (intro conjI allI)
  have "or_else False (out (f (sx_symbol ctx))) = eff_ret False"
    by (rule ext) (simp add: or_else_def eff_try_def out_def eff_zoom_def assms(2))
  then have check: "base_perp_check env ctx = base_perp_check (env\<lparr> cv_perp := None \<rparr>) ctx" by (simp add: base_perp_check_def assms(1))
  show "base_decide env ctx s = base_decide (env\<lparr> cv_perp := None \<rparr>) ctx s"
    unfolding base_decide_def perp_context perp_gates perp_skip perp_cooldown perp_sampled perp_answer perp_only check ..
  obtain t r where a: "ai_first_decide env (build_context env) ctx s = (t, r)" by force
  fix sg sgs
  from a ek_context show "snd (ai_first_decide env (build_context env) ctx s) \<noteq> ret (sg # sgs)"
  proof (cases rule: ai_first_result)
    case (answered s1 cc s2 now s3)
    then show ?thesis by (simp add: perp_check_def or_else_def eff_try_def out_def eff_zoom_def eff_bind_def assms)
  qed (simp add: a)
qed

subsection \<open>Examples\<close>

text \<open>A model that answers with the action \<open>long\<close>, and a validation that keeps the action.\<close>

definition ex_validate :: "meta \<Rightarrow> decision res" where
  "ex_validate m = (case map_of m ''action'' of Some (JStr a) \<Rightarrow> ret (new_decision ''d1'' ''BTCUSDT'' a ''RANGE'') | _ \<Rightarrow> raise ValueError)"

definition ex_provider :: "nat llm_provider" where
  "ex_provider = \<lparr> lp_name = ''live'', lp_version = ''1'', lp_domain = True, lp_healthy = (\<lambda>x. ret True), lp_route = (\<lambda>x. ret True),
     lp_complete = (\<lambda>q x. (x, ret \<lparr> lm_ok = True, lm_json = Some [(''action'', JStr ''long'')], lm_invocation = ''inv1'' \<rparr>)) \<rparr>"

definition ex_config :: chief_config where
  "ex_config = \<lparr> cg_name = ''llm_chief_trader'', cg_version = ''2.3.0'', cg_interval = 300, cg_min_fit = 0, cg_min_conf = 0, cg_exploring = False,
     cg_probability = 0, cg_borderline = 0, cg_fraction = 1, cg_normal_fit = 0, cg_normal_conf = 0, cg_cooldown = 240, cg_quantity = 1 / 1000 \<rparr>"

definition ex_chief_env :: "(string \<Rightarrow> (nat, bool) eff) option \<Rightarrow> nat chief_env" where
  "ex_chief_env q = \<lparr> cv_provider = Some ex_provider, cv_intelligence = None, cv_live = Some ex_live_env, cv_memory = None, cv_perp = q,
     cv_store = None, cv_sampler = None, cv_validate = ex_validate, cv_monotonic = (\<lambda>x. (x + 300, of_nat x)), cv_now = (\<lambda>x. (x, 0)),
     cv_gen = (\<lambda>p n. p @ int_digits (int n)), cv_config = ex_config \<rparr>"

definition ex_chief :: "nat chief" where
  "ex_chief = \<lparr> ct_world = 0, ct_live = ex_live, ct_entries = [], ct_memory = no_memory, ct_failures = 0, ct_decided = None, ct_ids = 0 \<rparr>"

definition ex_entry_context :: strategy_context where
  "ex_entry_context = ex_strategy_context\<lparr> sx_oi := Some 1000, sx_funding := Some (1 / 1000) \<rparr>"

lemma ex_env_simps:
  "cv_provider (ex_chief_env q) = Some ex_provider" "cv_validate (ex_chief_env q) = ex_validate" "cv_now (ex_chief_env q) = (\<lambda>x. (x, 0))"
  "cv_monotonic (ex_chief_env q) = (\<lambda>x. (x + 300, of_nat x))" "cv_store (ex_chief_env q) = None" "cv_config (ex_chief_env q) = ex_config"
  "cv_live (ex_chief_env q) = Some ex_live_env" "cv_memory (ex_chief_env q) = None" "cv_intelligence (ex_chief_env q) = None" "cv_perp (ex_chief_env q) = q"
  "cv_sampler (ex_chief_env q) = None"
  by (simp_all add: ex_chief_env_def)

lemma ex_keeps: "keeps_action ex_validate"
  by (auto simp: keeps_action_def ex_validate_def new_decision_def split: option.splits json.splits)

lemma ex_symbol: "sx_symbol ex_entry_context = ''BTCUSDT''" "sx_positions ex_entry_context = []"
  by (simp_all add: ex_entry_context_def ex_strategy_context_def)

lemma ex_live_bundle:
  assumes "ex_fine (ct_live s)" "lc_symbol (ct_live s) = ''BTCUSDT''"
  shows "\<exists>c b. live_bundle (ex_chief_env q) ex_entry_context s = (s\<lparr> ct_world := ct_world s + 1, ct_live := c \<rparr>, ret (Some b)) \<and>
    fs_id (bn_snapshot b) = ''fsnap_1'' \<and> sp_candidates (bn_evidence b) \<noteq> [] \<and> ex_fine c"
proof -
  obtain c where c: "set_symbol ''BTCUSDT'' (ct_world s, ct_live s) = ((ct_world s, c), ret ())" "ex_fine c"
    using ex_fine_set [OF assms(1), of "ct_world s"] by (elim exE conjE) (rule that)
  from ex_rest [OF c(2), of "ct_world s"] obtain d b where r: "bundle_rest ex_live_env ex_derivatives ''BTCUSDT'' (ct_world s, c) = ((ct_world s + 1, d), ret (Some b))"
    "bn_snapshot b = \<lparr> fs_id = ''fsnap_1'', fs_version = ''v1'' \<rparr>" "sp_candidates (bn_evidence b) \<noteq> []" "ex_fine d" by (elim exE conjE) (rule that)
  have "build_bundle ex_live_env ex_derivatives None (ct_world s, ct_live s) = ((ct_world s + 1, d), ret (Some b))"
    using r(1) c(1) assms(2) by (simp add: build_bundle_def)
  moreover have "\<lparr> dv_oi = sx_oi ex_entry_context, dv_funding = sx_funding ex_entry_context, dv_basis = None \<rparr> = ex_derivatives"
    by (simp add: ex_entry_context_def ex_derivatives_def)
  ultimately show ?thesis using r(2-4)
    by (intro exI [of _ d] exI [of _ b]) (simp add: live_bundle_def ex_env_simps or_else_def eff_try_def live_def eff_zoom_def)
qed

lemma ex_context:
  assumes "ex_fine (ct_live s)" "lc_symbol (ct_live s) = ''BTCUSDT''"
  shows "\<exists>c m cc. build_context (ex_chief_env q) ex_entry_context s = (s\<lparr> ct_world := ct_world s + 1, ct_live := c, ct_memory := m \<rparr>, ret cc) \<and>
    snapshot_id cc = ''fsnap_1'' \<and> evidence_candidates cc \<noteq> [] \<and> ex_fine c"
proof -
  obtain c b where b: "live_bundle (ex_chief_env q) ex_entry_context s = (s\<lparr> ct_world := ct_world s + 1, ct_live := c \<rparr>, ret (Some b))"
    "fs_id (bn_snapshot b) = ''fsnap_1''" "sp_candidates (bn_evidence b) \<noteq> []" "ex_fine c"
    using ex_live_bundle [OF assms, of q] by (elim exE conjE) (rule that)
  then show ?thesis
    by (intro exI [of _ c] exI [of _ no_memory])
      (simp add: build_context_def ex_env_simps Let_def snapshot_id_def evidence_candidates_def eff_bind_def)
qed

lemma ex_parsed: "\<exists>d. parse_decision ex_validate 0 0 [(''action'', JStr ''long'')] cc = ret d \<and> de_action d = ''LONG''"
proof -
  have r: "read_action [(''action'', JStr ''long'')] = ''LONG''" by code_simp
  define m1 where "m1 = setdefault ''market_regime'' (JStr (kx_regime cc)) (setdefault ''symbol'' (JStr (kx_symbol cc))
     (setdefault ''decision_id'' (JStr (''llm_'' @ stamp_text 0)) [(''action'', JStr ''long'')]))"
  have "read_action m1 = read_action [(''action'', JStr ''long'')]" by (rule read_action_cong) (simp add: m1_def setdefault_other)
  then have "\<exists>m. answer_fields 0 0 [(''action'', JStr ''long'')] cc = ret m" unfolding answer_fields_def m1_def [symmetric] by (simp add: r)
  then obtain m where m: "answer_fields 0 0 [(''action'', JStr ''long'')] cc = ret m" by blast
  from answer_fields_action [OF m] r have "map_of m ''action'' = Some (JStr ''LONG'')" by simp
  then show ?thesis by (simp add: parse_decision_def m ex_validate_def new_decision_def)
qed

lemma ex_answer:
  assumes "\<And>cfg cc d. de_action (mark cfg cc d) = de_action d"
  shows "\<exists>sg. answer_entry (ex_chief_env q) mark ex_entry_context cc now s =
    (s\<lparr> ct_ids := ct_ids s + 1, ct_entries := AList.update ''BTCUSDT'' now (ct_entries s) \<rparr>, ret [sg])"
proof -
  obtain d where d: "parse_decision ex_validate 0 0 [(''action'', JStr ''long'')] cc = ret d" "de_action d = ''LONG''" using ex_parsed by blast
  have "chief_decide (Some ex_provider) ex_validate (\<lambda>x. (x, 0)) cc (ct_world s) = (ct_world s, ret (d\<lparr> de_invocation := ''inv1'' \<rparr>))"
    using d by (simp add: chief_decide_def ask_def ex_provider_def usable_answer_def reads_def eff_bind_def)
  then have c: "out (chief_decide (Some ex_provider) ex_validate (\<lambda>x. (x, 0)) cc) s = (s, ret (d\<lparr> de_invocation := ''inv1'' \<rparr>))"
    by (simp add: out_def eff_zoom_def)
  have "entry_direction ''LONG'' = Some BUY" by code_simp
  then have "entry_direction (de_action (complete_answer mark ex_config cc (d\<lparr> de_invocation := ''inv1'' \<rparr>))) = Some BUY"
    by (simp add: complete_action assms d)
  then show ?thesis
    by (simp add: answer_entry_def ex_env_simps c submit_entry_def map_to_signals_def persist_evidence_def ex_symbol)
qed

theorem filled_version_erased_witness:
  "\<exists>cc d. de_strategy d = [] \<and> evidence_candidates cc \<noteq> [] \<and> de_strategy_version (fill_strategy cc d) = ''0.1.0'' \<and>
     de_strategy_version (enrich cc (fill_strategy cc d)) = []"
proof -
  define c where "c = \<lparr> sc_id = ''momentum'', sc_version = ''0.1.0'', sc_dir = ''LONG'', sc_fit = 1 / 2, sc_conf = 1 / 2, sc_supporting = [],
     sc_contradicting = [], sc_reasons = [], sc_health = ''OK'' \<rparr>"
  define cc where "cc = \<lparr> kx_symbol = ''BTCUSDT'', kx_market = [], kx_regime = ''RANGE'', kx_portfolio = [], kx_intelligence = [], kx_knowledge = [],
     kx_similar = [], kx_rules = [], kx_evidence = Some ((no_history ''BTCUSDT'' ''now'' 0)\<lparr> sp_candidates := [c] \<rparr>), kx_factors = None, kx_release = [] \<rparr>"
  define d where "d = new_decision ''d1'' ''BTCUSDT'' ''LONG'' ''RANGE''"
  have e: "evidence_candidates cc = [c]" by (simp add: evidence_candidates_def cc_def)
  have s: "de_strategy d = []" "with_side (evidence_candidates cc) = [c]" by (simp_all add: d_def new_decision_def e with_side_def c_def)
  have "de_strategy_version (fill_strategy cc d) = ''0.1.0''" using s by (simp add: fill_strategy_def Let_def c_def)
  then show ?thesis using filled_version_erased [of d cc c "[]"] s e
    by (intro exI [of _ cc] exI [of _ d]) (auto simp: c_def)
qed

theorem perp_check_failure_witness:
  "\<exists>env t sg. cv_perp env = Some (\<lambda>sy x. (x, raise ConnectionError)) \<and> base_decide env ex_entry_context ex_chief = (t, ret [sg]) \<and>
     (\<forall>sg sgs. snd (ai_first_decide env (build_context env) ex_entry_context ex_chief) \<noteq> ret (sg # sgs))"
proof -
  define q where "q = Some (\<lambda>sy :: string. \<lambda>x :: nat. (x, raise ConnectionError :: bool res))"
  have live: "ct_live ex_chief = ex_live" "lc_symbol ex_live = ''BTCUSDT''" "ct_entries ex_chief = []"
    by (simp_all add: ex_chief_def ex_live_def put_builder_def)
  obtain t cc where c: "build_context (ex_chief_env None) ex_entry_context ex_chief = (t, ret cc)" "snapshot_id cc = ''fsnap_1''" "evidence_candidates cc \<noteq> []"
    "ct_entries t = []" using ex_context [of ex_chief None] ex_fine_live by (auto simp: live)
  obtain t' sg where a: "answer_entry (ex_chief_env None) classify_entry ex_entry_context cc (of_nat (ct_world t)) (t\<lparr> ct_world := ct_world t + 300 \<rparr>) = (t', ret [sg])"
    using ex_answer [of classify_entry None cc "of_nat (ct_world t)", OF mark_action(2)] by blast
  have w: "sampled_out (ex_chief_env None) cc u = (u, ret None)" for u by (simp add: sampled_out_def ex_env_simps ex_config_def Let_def split: list.split)
  have "base_decide (ex_chief_env None) ex_entry_context ex_chief = (t', ret [sg])"
    using a c by (simp add: base_decide_def data_gates_def ex_symbol base_perp_check_def ex_env_simps cooldown_gate_def cooldown_left_def out_def eff_zoom_def
      reads_def eff_bind_def w)
  moreover have "(ex_chief_env q)\<lparr> cv_perp := None \<rparr> = ex_chief_env None" by (simp add: ex_chief_env_def)
  ultimately show ?thesis
    using perp_check_failure [of "ex_chief_env q" "\<lambda>sy x. (x, raise ConnectionError)" ex_entry_context "\<lambda>x. Exn ConnectionError []" ex_chief]
    by (intro exI [of _ "ex_chief_env q"]) (auto simp: ex_env_simps q_def)
qed

end
