(* ===== verification/Chief_Rotation.thy ===== *)
theory Chief_Rotation
  imports Chief_Trader
begin

text \<open>
  \<open>runtime/multi_symbol_chief_trader.py\<close>: the chief trader over several symbols. Each tick reads the property \<open>symbol\<close>,
  which moves on to the next one, scores the symbol for a ranking that is only shown, and decides for it. The
  lemmas show that every symbol gets its turn, that the ranking orders what was scored and has no say in a
  decision, and what comes before an entry.
\<close>

subsection \<open>The adapter\<close>

record 'x rotation =
  mu_chief :: "'x chief"
  mu_symbols :: "string list"
  mu_cursor :: nat
  mu_last :: string
  mu_decided :: "(string, fl) dict"
  mu_scores :: "(string, opportunity) dict"
  mu_seen :: "string list"
  mu_ranking :: "opportunity list"
  mu_generation :: nat

record scan_config =
  su_enabled :: bool
  su_scanner :: scanner
  su_top :: int

type_synonym ('x, 'a) mact = "('x rotation, 'a) eff"

definition rotation_init :: "'x chief \<Rightarrow> string list \<Rightarrow> 'x rotation res" where
  "rotation_init c raws =
     rbind (rmapM to_canonical raws) (\<lambda>sys.
       if sys = [] then raise ValueError
       else if \<not> distinct sys then raise ValueError
       else ret \<lparr> mu_chief = c, mu_symbols = sys, mu_cursor = 0, mu_last = hd sys, mu_decided = [], mu_scores = [], mu_seen = [],
              mu_ranking = [], mu_generation = 0 \<rparr>)"

definition scan_config_of :: "bool \<Rightarrow> scanner \<Rightarrow> int \<Rightarrow> string list \<Rightarrow> scan_config" where
  "scan_config_of enabled sc k sys = \<lparr> su_enabled = enabled, su_scanner = sc, su_top = max 1 (min k (int (length sys))) \<rparr>"

definition chief_part :: "('x, 'a) cact \<Rightarrow> ('x, 'a) mact" where
  "chief_part m = eff_zoom mu_chief (\<lambda>c s. s\<lparr> mu_chief := c \<rparr>) m"

definition next_symbol :: "'x rotation \<Rightarrow> 'x rotation \<times> string" where
  "next_symbol s =
     (let cur = mu_symbols s ! mu_cursor s
      in (s\<lparr> mu_cursor := (mu_cursor s + 1) mod length (mu_symbols s), mu_last := cur \<rparr>, cur))"

definition eligible_symbols :: "scan_config \<Rightarrow> 'x rotation \<Rightarrow> string list" where
  "eligible_symbols cfg s = map op_symbol (take (nat (su_top cfg)) (mu_ranking s))"

definition opportunity_json :: "opportunity \<Rightarrow> json" where
  "opportunity_json o1 =
     JObj [(''symbol'', JStr (op_symbol o1)), (''score'', fl_json (op_score o1)), (''eligible'', JBool (op_eligible o1)),
       (''direction'', JStr (op_dir o1)), (''spread_bps'', fl_json (op_spread o1)),
       (''components'', JObj (map (\<lambda>(k, v). (k, fl_json v)) (op_parts o1))), (''reason'', JStr (op_reason o1))]"

definition opportunity_ranking :: "'x rotation \<Rightarrow> json list" where
  "opportunity_ranking s = map opportunity_json (mu_ranking s)"

subsection \<open>Scoring\<close>

definition score_symbol :: "'x chief_env \<Rightarrow> scanner \<Rightarrow> strategy_context \<Rightarrow> ('x, opportunity) mact" where
  "score_symbol env sc ctx =
     (case cv_live env of
        None \<Rightarrow> eff_ret (invalid_opportunity (sx_symbol ctx) ''DECISION_CONTEXT_UNAVAILABLE'')
      | Some lv \<Rightarrow>
          eff_try (eff_bind (chief_part (live (get_candles lv (sx_symbol ctx) None))) (\<lambda>ks. eff_ret (score_opportunity sc ctx ks)))
            (\<lambda>e. eff_ret (invalid_opportunity (sx_symbol ctx) (''SCAN_FAILED:'' @ class_name (exn_cls e)))))"

definition rank_key :: "opportunity \<Rightarrow> fl \<times> string" where
  "rank_key o1 = (- op_score o1, op_symbol o1)"

definition record_opportunity :: "opportunity \<Rightarrow> 'x rotation \<Rightarrow> 'x rotation" where
  "record_opportunity o1 s0 =
     (let s = s0\<lparr> mu_scores := AList.update (op_symbol o1) o1 (mu_scores s0), mu_seen := List.insert (op_symbol o1) (mu_seen s0) \<rparr>
      in if length (mu_seen s) < length (mu_symbols s) then s
         else s\<lparr> mu_ranking := sort_key rank_key (dict_values (mu_scores s)), mu_generation := mu_generation s + 1, mu_seen := [] \<rparr>)"

definition scan_symbol :: "'x chief_env \<Rightarrow> scan_config \<Rightarrow> strategy_context \<Rightarrow> ('x, unit) mact" where
  "scan_symbol env cfg ctx = eff_bind (score_symbol env (su_scanner cfg) ctx) (\<lambda>o1. eff_mod (record_opportunity o1))"

subsection \<open>A tick\<close>

definition rotation_context :: "'x chief_env \<Rightarrow> strategy_context \<Rightarrow> ('x, chief_context) cact" where
  "rotation_context env ctx =
     eff_then (case cv_live env of None \<Rightarrow> eff_ret () | Some lv \<Rightarrow> live (set_symbol (sx_symbol ctx))) (build_context env ctx)"

definition rotation_on_market_data :: "'x chief_env \<Rightarrow> scan_config \<Rightarrow> strategy_context \<Rightarrow> ('x, signal_intent list) mact" where
  "rotation_on_market_data env cfg ctx =
     eff_bind (eff_get (\<lambda>s. provider_ready env (mu_chief s))) (\<lambda>r. eff_bind (eff_lift r) (\<lambda>ready.
       if \<not> ready then eff_ret []
       else
         eff_then (if su_enabled cfg then scan_symbol env cfg ctx else eff_ret ())
         (eff_bind (chief_part (out (reads (cv_monotonic env)))) (\<lambda>now.
          eff_bind (eff_get (\<lambda>s. map_of (mu_decided s) (sx_symbol ctx))) (\<lambda>done_at.
            if (case done_at of Some t \<Rightarrow> fsub now t < max (cg_interval (cv_config env)) 0 | None \<Rightarrow> False) then eff_ret []
            else eff_finally (chief_part (ai_first_decide env (rotation_context env) ctx))
              (eff_bind (chief_part (out (reads (cv_monotonic env)))) (\<lambda>t.
                 eff_mod (\<lambda>s. s\<lparr> mu_decided := AList.update (sx_symbol ctx) t (mu_decided s) \<rparr>))))))))"

subsection \<open>Every symbol gets its turn\<close>

text \<open>A run of the engine: it reads the symbol once for each of its strategies in each tick, and where the reading was for
  this strategy and the context could be made, \<open>on_market_data\<close> gets the context for the symbol that was read. The
  result is the state and the symbols in the order of the readings.\<close>

fun turns :: "'x chief_env \<Rightarrow> scan_config \<Rightarrow> strategy_context option list \<Rightarrow> 'x rotation \<Rightarrow> 'x rotation \<times> string list" where
  "turns env cfg [] s = (s, [])"
| "turns env cfg (c # cs) s =
     (case next_symbol s of (t, sy) \<Rightarrow>
        (case turns env cfg cs (case c of None \<Rightarrow> t | Some x \<Rightarrow> fst (rotation_on_market_data env cfg (x\<lparr> sx_symbol := sy \<rparr>) t)) of
           (u, sys) \<Rightarrow> (u, sy # sys)))"

text \<open>A decision leaves the rotation where it is.\<close>

definition same_turn :: "'x rotation \<Rightarrow> 'x rotation \<Rightarrow> bool" where
  "same_turn s t \<longleftrightarrow> mu_symbols t = mu_symbols s \<and> mu_cursor t = mu_cursor s"

interpretation st: step_relation same_turn
  by unfold_locales (simp_all add: same_turn_def)

lemma st_parts: "moves same_turn (chief_part m)" "moves same_turn (scan_symbol env cfg ctx)"
  unfolding scan_symbol_def score_symbol_def
  by (auto intro!: st.rules st.upd st.zoom simp: chief_part_def same_turn_def record_opportunity_def Let_def split: option.split)

lemma st_finally: "moves same_turn m \<Longrightarrow> moves same_turn k \<Longrightarrow> moves same_turn (eff_finally m k)"
  unfolding moves_def eff_finally_def by (auto split: prod.split sum.split) (metis fst_conv st.trans)+

lemma decision_same_turn: "moves same_turn (rotation_on_market_data env cfg ctx)"
  unfolding rotation_on_market_data_def
  by (auto intro!: st.rules st.upd st_parts st_finally simp: same_turn_def)

lemma next_symbol_simp:
  "next_symbol s = (s\<lparr> mu_cursor := (mu_cursor s + 1) mod length (mu_symbols s), mu_last := mu_symbols s ! mu_cursor s \<rparr>, mu_symbols s ! mu_cursor s)"
  by (simp add: next_symbol_def Let_def)

lemma turns_nth:
  assumes "mu_cursor s < length (mu_symbols s)"
  shows "snd (turns env cfg cs s) = map (\<lambda>i. mu_symbols s ! ((mu_cursor s + i) mod length (mu_symbols s))) [0..<length cs]"
  using assms
proof (induction cs arbitrary: s)
  case (Cons c cs)
  define n where "n = length (mu_symbols s)"
  define t where "t = fst (next_symbol s)"
  define u where "u = (case c of None \<Rightarrow> t | Some x \<Rightarrow> fst (rotation_on_market_data env cfg (x\<lparr> sx_symbol := mu_symbols s ! mu_cursor s \<rparr>) t))"
  have "same_turn t u" using decision_same_turn st.refl by (auto simp: u_def moves_def split: option.split)
  then have t: "mu_symbols u = mu_symbols s" "mu_cursor u = (mu_cursor s + 1) mod n"
    by (simp_all add: t_def next_symbol_simp n_def same_turn_def)
  have "mu_cursor u < length (mu_symbols u)" using Cons.prems by (auto simp: t n_def [symmetric])
  from Cons.IH [OF this] have "snd (turns env cfg cs u) = map (\<lambda>i. mu_symbols s ! ((mu_cursor s + Suc i) mod n)) [0..<length cs]"
    by (simp add: t n_def [symmetric] mod_add_left_eq)
  moreover have "snd (turns env cfg (c # cs) s) = mu_symbols s ! mu_cursor s # snd (turns env cfg cs u)"
  proof -
    have "next_symbol s = (t, mu_symbols s ! mu_cursor s)" by (simp add: t_def next_symbol_simp)
    then show ?thesis by (simp add: u_def [symmetric] split: prod.split)
  qed
  ultimately show ?case using Cons.prems by (simp add: n_def map_upt_Suc del: upt_Suc)
qed simp

lemma canonical_symbols: "rmapM to_canonical raws = ret sys \<Longrightarrow> set sys \<subseteq> set DEFAULT_TRADING_SYMBOLS"
  by (induction raws arbitrary: sys) (auto simp: rbind_eq_Inr dest: canonical_known)

lemma rotation_initD:
  assumes "rotation_init c raws = ret s"
  shows "mu_symbols s \<noteq> []" "distinct (mu_symbols s)" "set (mu_symbols s) \<subseteq> set DEFAULT_TRADING_SYMBOLS" "mu_cursor s = 0"
    "mu_scores s = []" "mu_seen s = []" "mu_ranking s = []" "mu_generation s = 0" "mu_chief s = c"
  using assms by (auto simp: rotation_init_def rbind_eq_Inr split: if_splits dest: canonical_symbols [THEN subsetD])

text \<open>C24: the symbols are known and distinct, and among any as many readings of the symbol in a row as there are symbols,
  each symbol is read exactly once, in the configured order, whatever was decided, raised or could not be fetched in
  between. An engine with this strategy alone reads once in each tick, so that each symbol then gets its tick; every
  further strategy of the engine takes one of the readings.\<close>

theorem rotation_fair:
  assumes "rotation_init c raws = ret s" "length cs = k + length (mu_symbols s)"
  shows "snd (turns env cfg cs s) = snd (turns env cfg (take k cs) s) @ rotate k (mu_symbols s) \<and> distinct (rotate k (mu_symbols s)) \<and>
    set (rotate k (mu_symbols s)) = set (mu_symbols s) \<and> set (mu_symbols s) \<subseteq> set DEFAULT_TRADING_SYMBOLS"
proof -
  note i = rotation_initD [OF assms(1)]
  have "rotate k (mu_symbols s) = map (\<lambda>j. mu_symbols s ! (j mod length (mu_symbols s))) [k..<k + length (mu_symbols s)]"
    by (rule nth_equalityI) (simp_all add: nth_rotate)
  moreover have "[0..<k + length (mu_symbols s)] = [0..<k] @ [k..<k + length (mu_symbols s)]" by (rule upt_add_eq_append) simp
  ultimately have "snd (turns env cfg cs s) = snd (turns env cfg (take k cs) s) @ rotate k (mu_symbols s)"
    using turns_nth [of s env cfg] i(1,4) assms(2) by simp
  then show ?thesis using i(2,3) by simp
qed

subsection \<open>The ranking\<close>

text \<open>What is kept between two scores, when all scored symbols are those of the rotation.\<close>

definition scores_ok :: "opportunity list \<Rightarrow> 'x rotation \<Rightarrow> bool" where
  "scores_ok os s \<longleftrightarrow> dict_ok (mu_scores s) \<and> (\<forall>kv \<in> set (mu_scores s). op_symbol (snd kv) = fst kv \<and> snd kv \<in> set os) \<and>
     fst ` set (mu_scores s) \<subseteq> set (mu_symbols s) \<and> distinct (mu_seen s) \<and> set (mu_seen s) \<subseteq> fst ` set (mu_scores s) \<and>
     sorted (map rank_key (mu_ranking s)) \<and> distinct (map op_symbol (mu_ranking s)) \<and> set (mu_ranking s) \<subseteq> set os \<and>
     (if mu_generation s = 0 then mu_ranking s = [] else op_symbol ` set (mu_ranking s) = set (mu_symbols s))"

lemma values_symbols:
  assumes "\<forall>kv \<in> set d. op_symbol (snd kv) = fst kv"
  shows "map op_symbol (dict_values d) = map fst d"
  using assms by (simp add: dict_values_def)

lemma record_ok:
  assumes "scores_ok os s" "op_symbol o1 \<in> set (mu_symbols s)" "distinct (mu_symbols s)"
  shows "scores_ok (os @ [o1]) (record_opportunity o1 s)"
proof -
  define d where "d = AList.update (op_symbol o1) o1 (mu_scores s)"
  define seen where "seen = List.insert (op_symbol o1) (mu_seen s)"
  have d: "dict_ok d" "\<forall>kv \<in> set d. op_symbol (snd kv) = fst kv \<and> snd kv \<in> set (os @ [o1])" "fst ` set d \<subseteq> set (mu_symbols s)"
    "fst ` set d = insert (op_symbol o1) (fst ` set (mu_scores s))"
    using assms set_dict_update [of "op_symbol o1" o1 "mu_scores s"] dom_update [of "op_symbol o1" o1 "mu_scores s"]
    by (auto simp: scores_ok_def d_def image_iff)
  have seen: "distinct seen" "set seen \<subseteq> fst ` set d" using assms(1) d(4) by (auto simp: scores_ok_def seen_def)
  have r: "record_opportunity o1 s = (if length seen < length (mu_symbols s) then s\<lparr> mu_scores := d, mu_seen := seen \<rparr>
      else s\<lparr> mu_scores := d, mu_seen := [], mu_ranking := sort_key rank_key (dict_values d), mu_generation := mu_generation s + 1 \<rparr>)"
    by (simp add: record_opportunity_def Let_def d_def seen_def)
  show ?thesis
  proof (cases "length seen < length (mu_symbols s)")
    case True
    then show ?thesis using assms(1) d seen by (auto simp: r scores_ok_def)
  next
    case False
    have "set seen = set (mu_symbols s)"
      using False seen d(3) assms(3) by (intro card_seteq) (auto simp: distinct_card)
    then have all: "fst ` set d = set (mu_symbols s)" using seen(2) d(3) by blast
    have v: "map op_symbol (dict_values d) = map fst d" using d(2) by (intro values_symbols) blast
    have "distinct (map op_symbol (sort_key rank_key (dict_values d)))"
    proof -
      have "mset (map op_symbol (sort_key rank_key (dict_values d))) = mset (map fst d)" by (simp flip: v)
      then show ?thesis using d(1) by (metis dict_ok_def mset_eq_imp_distinct_iff)
    qed
    moreover have "op_symbol ` set (dict_values d) = set (mu_symbols s)" using v all by (metis list.set_map)
    moreover have "set (dict_values d) \<subseteq> set (os @ [o1])" using d(2) by (auto simp: dict_values_def)
    ultimately show ?thesis using False d by (simp add: r scores_ok_def)
  qed
qed

lemma record_keeps [simp]: "mu_symbols (record_opportunity o1 s) = mu_symbols s" "mu_chief (record_opportunity o1 s) = mu_chief s"
  "mu_decided (record_opportunity o1 s) = mu_decided s"
  by (simp_all add: record_opportunity_def Let_def)

lemma records_ok:
  assumes "\<forall>o1 \<in> set os. op_symbol o1 \<in> set (mu_symbols s0)" "scores_ok [] s0" "distinct (mu_symbols s0)"
  shows "scores_ok os (fold record_opportunity os s0) \<and> mu_symbols (fold record_opportunity os s0) = mu_symbols s0 \<and>
    mu_chief (fold record_opportunity os s0) = mu_chief s0"
  using assms(1)
proof (induction os rule: rev_induct)
  case (snoc o1 os)
  then show ?case using record_ok [of os "fold record_opportunity os s0" o1] assms(3) by simp
qed (simp add: assms(2))

text \<open>After any sequence of scores of the symbols, the ranking that is shown is in order of falling score, and by name where
  scores are equal; it has every symbol once as soon as there is one, each with a score that was computed, and
  ranking changes nothing of the chief trader.\<close>

theorem ranking_in_order:
  assumes "rotation_init c raws = ret s0" "\<And>o1. o1 \<in> set os \<Longrightarrow> op_symbol o1 \<in> set (mu_symbols s0)" "s = fold record_opportunity os s0"
  shows "sorted (map rank_key (mu_ranking s)) \<and> distinct (map op_symbol (mu_ranking s)) \<and> set (mu_ranking s) \<subseteq> set os \<and>
    (mu_ranking s \<noteq> [] \<longrightarrow> op_symbol ` set (mu_ranking s) = set (mu_symbols s0)) \<and> mu_chief s = c"
proof -
  note i = rotation_initD [OF assms(1)]
  have "scores_ok [] s0" by (simp add: scores_ok_def i)
  from records_ok [OF _ this i(2)] have "scores_ok os s \<and> mu_symbols s = mu_symbols s0 \<and> mu_chief s = c"
    using assms(2) by (simp add: assms(3) i)
  then show ?thesis by (auto simp: scores_ok_def split: if_splits)
qed

subsection \<open>Scores have no say\<close>

definition core :: "'x rotation \<Rightarrow> 'x chief \<times> (string, fl) dict" where
  "core s = (mu_chief s, mu_decided s)"

text \<open>Two actions that answer the same and leave the same where the chief traders are the same.\<close>

definition blind :: "('x, 'a) mact \<Rightarrow> ('x, 'a) mact \<Rightarrow> bool" where
  "blind m m' \<longleftrightarrow> (\<forall>s s'. core s = core s' \<longrightarrow> core (fst (m s)) = core (fst (m' s')) \<and> snd (m s) = snd (m' s'))"

lemma blindD: "blind m m' \<Longrightarrow> core s = core s' \<Longrightarrow> m s = (t, r) \<Longrightarrow> m' s' = (t', r') \<Longrightarrow> core t = core t' \<and> r = r'"
  unfolding blind_def by (metis fst_conv snd_conv)

lemma blind_bind:
  assumes "blind m m'" "\<And>x. blind (f x) (f' x)"
  shows "blind (eff_bind m f) (eff_bind m' f')"
  unfolding blind_def
proof (intro allI impI)
  fix s s' :: "'a rotation"
  assume c: "core s = core s'"
  obtain t r t' r' where m: "m s = (t, r)" "m' s' = (t', r')" by force
  from blindD [OF assms(1) c m] have e: "core t = core t'" "r' = r" by simp_all
  show "core (fst (eff_bind m f s)) = core (fst (eff_bind m' f' s')) \<and> snd (eff_bind m f s) = snd (eff_bind m' f' s')"
    using assms(2) e(1) m(2) unfolding blind_def e(2) by (cases r) (simp_all add: eff_bind_def m)
qed

lemma blind_ret: "blind (eff_ret x) (eff_ret x)"
  by (simp add: blind_def)

lemma blind_lift: "blind (eff_lift r) (eff_lift r)"
  by (simp add: blind_def)

lemma blind_get: "(\<And>s s'. core s = core s' \<Longrightarrow> f s = f s') \<Longrightarrow> blind (eff_get f) (eff_get f)"
  unfolding blind_def eff_get_def fst_conv snd_conv by metis

lemma blind_mod: "(\<And>s s'. core s = core s' \<Longrightarrow> core (f s) = core (f' s')) \<Longrightarrow> blind (eff_mod f) (eff_mod f')"
  unfolding blind_def eff_mod_def fst_conv snd_conv by blast

lemma blind_chief: "blind (chief_part m) (chief_part m)"
  unfolding blind_def chief_part_def by (auto simp: eff_zoom_def core_def split: prod.split)

lemma blind_finally:
  assumes "blind m m'" "blind k k'"
  shows "blind (eff_finally m k) (eff_finally m' k')"
  unfolding blind_def
proof (intro allI impI)
  fix s s' :: "'a rotation"
  assume c: "core s = core s'"
  obtain t r t' r' where m: "m s = (t, r)" "m' s' = (t', r')" by force
  obtain u q u' q' where k: "k t = (u, q)" "k' t' = (u', q')" by force
  from blindD [OF assms(1) c m] have e: "core t = core t'" "r = r'" by simp_all
  from blindD [OF assms(2) e(1) k] have q: "core u = core u'" "q' = q" by simp_all
  show "core (fst (eff_finally m k s)) = core (fst (eff_finally m' k' s')) \<and> snd (eff_finally m k s) = snd (eff_finally m' k' s')"
    using e q m k by (cases q) (simp_all add: eff_finally_def)
qed

lemma scan_result:
  "\<exists>t. scan_symbol env cfg ctx s = (t, ret ()) \<and> mu_decided t = mu_decided s \<and>
    mu_chief t = (case cv_live env of None \<Rightarrow> mu_chief s | Some lv \<Rightarrow> fst (live (get_candles lv (sx_symbol ctx) None) (mu_chief s)))"
  by (auto simp: scan_symbol_def score_symbol_def chief_part_def eff_zoom_def eff_try_def eff_bind_def split: option.split prod.split sum.split)

lemma blind_scan: "blind (scan_symbol env cfg ctx) (scan_symbol env cfg' ctx)"
  unfolding blind_def
proof (intro allI impI)
  fix s s' :: "'a rotation"
  assume c: "core s = core s'"
  then show "core (fst (scan_symbol env cfg ctx s)) = core (fst (scan_symbol env cfg' ctx s')) \<and>
      snd (scan_symbol env cfg ctx s) = snd (scan_symbol env cfg' ctx s')"
    using scan_result [of env cfg ctx s] scan_result [of env cfg' ctx s'] by (cases "cv_live env") (auto simp: core_def)
qed

text \<open>C23: the opportunity scanner has no say in a decision: with any other scores and any other ranking so far, and with a scanner of any
  other thresholds, a tick returns the same signals and leaves the chief trader and the times of its decisions the same.\<close>

theorem scores_never_veto:
  assumes "su_enabled cfg' = su_enabled cfg" "mu_chief s' = mu_chief s" "mu_decided s' = mu_decided s"
  shows "snd (rotation_on_market_data env cfg' ctx s') = snd (rotation_on_market_data env cfg ctx s) \<and>
    mu_chief (fst (rotation_on_market_data env cfg' ctx s')) = mu_chief (fst (rotation_on_market_data env cfg ctx s)) \<and>
    mu_decided (fst (rotation_on_market_data env cfg' ctx s')) = mu_decided (fst (rotation_on_market_data env cfg ctx s))"
proof -
  have scan: "blind (if su_enabled cfg then scan_symbol env cfg' ctx else eff_ret ()) (if su_enabled cfg then scan_symbol env cfg ctx else eff_ret ())"
    by (simp add: blind_scan blind_ret)
  have mark: "blind (eff_mod (\<lambda>s. s\<lparr> mu_decided := AList.update (sx_symbol ctx) t (mu_decided s) \<rparr>))
      (eff_mod (\<lambda>s. s\<lparr> mu_decided := AList.update (sx_symbol ctx) t (mu_decided s) \<rparr>))" for t
    by (rule blind_mod) (simp add: core_def)
  have ite: "blind m m' \<Longrightarrow> blind k k' \<Longrightarrow> blind (if b then m else k) (if b then m' else k')" for b and m m' k k' :: "('x, signal_intent list) mact"
    by simp
  have "blind (rotation_on_market_data env cfg' ctx) (rotation_on_market_data env cfg ctx)"
    unfolding rotation_on_market_data_def assms(1)
    by (intro blind_bind blind_get blind_lift ite blind_ret scan blind_chief blind_finally mark) (auto simp: core_def)
  then have "core (fst (rotation_on_market_data env cfg' ctx s')) = core (fst (rotation_on_market_data env cfg ctx s)) \<and>
      snd (rotation_on_market_data env cfg' ctx s') = snd (rotation_on_market_data env cfg ctx s)"
    unfolding blind_def using assms(2,3) by (simp add: core_def)
  then show ?thesis by (simp add: core_def)
qed

subsection \<open>What a tick may do to the entries\<close>

definition same_entries :: "'x rotation \<Rightarrow> 'x rotation \<Rightarrow> bool" where
  "same_entries s t \<longleftrightarrow> ct_entries (mu_chief t) = ct_entries (mu_chief s)"

interpretation se: step_relation same_entries
  by unfold_locales (simp_all add: same_entries_def)

lemma se_chief: "moves entries_kept m \<Longrightarrow> moves same_entries (chief_part m)"
  unfolding chief_part_def by (rule se.zoom) (simp add: same_entries_def moves_def entries_kept_def)

lemma se_upd: "(\<And>s. ct_entries (mu_chief (f s)) = ct_entries (mu_chief s)) \<Longrightarrow> moves same_entries (eff_mod f)"
  by (rule se.upd) (simp add: same_entries_def)

lemma se_scan: "moves same_entries (scan_symbol env cfg ctx)"
  unfolding scan_symbol_def score_symbol_def by (intro se.rules se_chief ek_parts se_upd) simp

lemma ek_rotation_context: "moves entries_kept (rotation_context env ctx)"
  unfolding rotation_context_def by (intro ek.rules ek_parts ek_context)

text \<open>The chief trader when the decision of a tick begins: after the scan, if there is one, and a reading of its clock.\<close>

definition decision_start :: "'x chief_env \<Rightarrow> scan_config \<Rightarrow> strategy_context \<Rightarrow> 'x rotation \<Rightarrow> 'x chief" where
  "decision_start env cfg ctx s =
     (let s1 = (if su_enabled cfg then fst (scan_symbol env cfg ctx s) else s)
      in fst (out (reads (cv_monotonic env)) (mu_chief s1)))"

lemma tick_result:
  assumes "rotation_on_market_data env cfg ctx s = (t, r)"
  obtains (quiet) "ct_entries (mu_chief t) = ct_entries (mu_chief s)" "\<And>sg sgs. r \<noteq> ret (sg # sgs)"
  | (decided) c2 where "provider_ready env (mu_chief s) = ret True" "ct_entries (decision_start env cfg ctx s) = ct_entries (mu_chief s)"
      "ai_first_decide env (rotation_context env) ctx (decision_start env cfg ctx s) = (c2, r)"
      "ct_entries (mu_chief t) = ct_entries c2"
proof -
  define scan where "scan = (if su_enabled cfg then scan_symbol env cfg ctx else eff_ret ())"
  have scan: "moves same_entries scan" unfolding scan_def by (intro se.rules se_scan)
  have clock: "moves same_entries (chief_part (out (reads (cv_monotonic env))))" by (intro se_chief ek_parts)
  show ?thesis
  proof (cases "provider_ready env (mu_chief s) = ret True")
    case False
    then show ?thesis using assms
      by (cases "provider_ready env (mu_chief s)") (auto simp: rotation_on_market_data_def intro!: quiet)
  next
    case True
    obtain s1 where s1: "scan s = (s1, ret ())"
      using scan_result [of env cfg ctx s] by (cases "su_enabled cfg") (auto simp: scan_def)
    obtain s2 now where s2: "chief_part (out (reads (cv_monotonic env))) s1 = (s2, ret now)"
      by (cases "cv_monotonic env (ct_world (mu_chief s1))") (simp add: chief_part_def out_def reads_def eff_zoom_def)
    have start: "decision_start env cfg ctx s = mu_chief s2"
      using s1 s2 by (auto simp: decision_start_def scan_def chief_part_def eff_zoom_def Let_def split: if_splits prod.splits)
    have kept: "ct_entries (mu_chief s2) = ct_entries (mu_chief s)"
      using movesD [OF scan s1] movesD [OF clock s2] by (simp add: same_entries_def)
    show ?thesis
    proof (cases "case map_of (mu_decided s2) (sx_symbol ctx) of Some t \<Rightarrow> fsub now t < max (cg_interval (cv_config env)) 0 | None \<Rightarrow> False")
      case True
      then have "(t, r) = (s2, ret [])"
        using assms \<open>provider_ready env (mu_chief s) = ret True\<close> s1 s2 by (simp add: rotation_on_market_data_def scan_def [symmetric])
      then show ?thesis using kept by (intro quiet) auto
    next
      case False
      obtain c2 q where c2: "ai_first_decide env (rotation_context env) ctx (mu_chief s2) = (c2, q)" by force
      then have "q = r \<and> ct_entries (mu_chief t) = ct_entries c2"
        using False assms \<open>provider_ready env (mu_chief s) = ret True\<close> s1 s2
        by (auto simp: rotation_on_market_data_def scan_def [symmetric] eff_finally_def chief_part_def eff_zoom_def out_def reads_def eff_bind_def
            split: prod.splits)
      then show ?thesis using c2 kept \<open>provider_ready env (mu_chief s) = ret True\<close> unfolding start [symmetric] by (intro decided) auto
    qed
  qed
qed

text \<open>C5: an entry is only returned, and then as the one signal of the tick, when in this very tick, from the state in which
  its decision begins, the context was made with a stored snapshot and candidates, the check for a perpetual position
  then ran and found none, the cooldown of the symbol had passed at the reading of the clock after it, and the model,
  asked about this context in the state after that, gave a usable answer that names an entry on the side of the signal;
  no position is held; and
  the entry is a market order for the symbol of the tick with the configured quantity.\<close>

theorem entry_needs_gates:
  assumes "rotation_on_market_data env cfg ctx s = (t, ret (sg # sgs))" "keeps_action (cv_validate env)"
  shows "sgs = [] \<and> entry_shape (cv_config env) ctx sg \<and> no_position ctx \<and> provider_ready env (mu_chief s) = ret True \<and>
    (\<exists>c2 cc c3 now c4. rotation_context env ctx (decision_start env cfg ctx s) = (c2, ret cc) \<and>
      snapshot_id cc \<noteq> [] \<and> evidence_candidates cc \<noteq> [] \<and>
      (case cv_perp env of None \<Rightarrow> c3 = c2 | Some f \<Rightarrow> out (f (sx_symbol ctx)) c2 = (c3, ret False)) \<and>
      out (reads (cv_monotonic env)) c3 = (c4, ret now) \<and> cooldown_left env ctx now c4 = None \<and> entry_answered env cc c4 (s_side sg))"
  using assms(1)
proof (cases rule: tick_result)
  case (decided c2)
  from decided(1) ai_first_entry [OF decided(3) ek_rotation_context assms(2)] show ?thesis by blast
qed blast

subsection \<open>The cooldown over a run\<close>

text \<open>The entries of a run of the engine's ticks: each tick builds its context for the next symbol.\<close>

fun entry_log :: "'x chief_env \<Rightarrow> scan_config \<Rightarrow> strategy_context list \<Rightarrow> 'x rotation \<Rightarrow> (string \<times> fl) list" where
  "entry_log env cfg [] s = []"
| "entry_log env cfg (c # cs) s =
     (case next_symbol s of (s1, sy) \<Rightarrow>
      (case rotation_on_market_data env cfg (c\<lparr> sx_symbol := sy \<rparr>) s1 of (t, r) \<Rightarrow>
         (case r of Inr (sg # sgs) \<Rightarrow> [(sy, the (map_of (ct_entries (mu_chief t)) sy))] | _ \<Rightarrow> []) @ entry_log env cfg cs t))"

lemma tick_entries:
  assumes "rotation_on_market_data env cfg ctx s = (t, r)"
  shows "ct_entries (mu_chief t) = ct_entries (mu_chief s) \<and> (\<forall>sg sgs. r \<noteq> ret (sg # sgs)) \<or>
    (\<exists>now sg. ct_entries (mu_chief t) = AList.update (sx_symbol ctx) now (ct_entries (mu_chief s)) \<and> r = ret [sg] \<and>
      (\<forall>t0. map_of (ct_entries (mu_chief s)) (sx_symbol ctx) = Some t0 \<longrightarrow> cg_cooldown (cv_config env) \<le> fsub now t0))"
  using assms
proof (cases rule: tick_result)
  case (decided c2)
  from ai_first_entries [OF decided(3) ek_rotation_context] show ?thesis unfolding decided(2,4) .
qed simp

lemma entry_log_step:
  obtains (quiet) t where "entry_log env cfg (c # cs) s = entry_log env cfg cs t" "ct_entries (mu_chief t) = ct_entries (mu_chief s)"
  | (entry) t sy now where "entry_log env cfg (c # cs) s = (sy, now) # entry_log env cfg cs t"
      "ct_entries (mu_chief t) = AList.update sy now (ct_entries (mu_chief s))"
      "\<forall>t0. map_of (ct_entries (mu_chief s)) sy = Some t0 \<longrightarrow> cg_cooldown (cv_config env) \<le> fsub now t0"
proof -
  obtain s1 sy where n: "next_symbol s = (s1, sy)" by force
  then have c: "mu_chief s1 = mu_chief s" by (auto simp: next_symbol_simp)
  obtain t r where t: "rotation_on_market_data env cfg (c\<lparr> sx_symbol := sy \<rparr>) s1 = (t, r)" by force
  from tick_entries [OF t] show ?thesis
  proof
    assume "ct_entries (mu_chief t) = ct_entries (mu_chief s1) \<and> (\<forall>sg sgs. r \<noteq> ret (sg # sgs))"
    then show ?thesis by (intro quiet [of t]) (auto simp: n t c split: sum.split list.split)
  next
    assume "\<exists>now sg. ct_entries (mu_chief t) = AList.update (sx_symbol (c\<lparr> sx_symbol := sy \<rparr>)) now (ct_entries (mu_chief s1)) \<and> r = ret [sg] \<and>
      (\<forall>t0. map_of (ct_entries (mu_chief s1)) (sx_symbol (c\<lparr> sx_symbol := sy \<rparr>)) = Some t0 \<longrightarrow> cg_cooldown (cv_config env) \<le> fsub now t0)"
    then show ?thesis by (elim exE) (intro entry [of sy _ t]; auto simp: n t c update_conv')
  qed
qed

lemma first_after:
  assumes "entry_log env cfg cs s = bs @ (sy, t2) # ds" "sy \<notin> fst ` set bs" "map_of (ct_entries (mu_chief s)) sy = Some t1"
  shows "cg_cooldown (cv_config env) \<le> fsub t2 t1"
  using assms
proof (induction cs arbitrary: s bs)
  case (Cons c cs)
  show ?case
  proof (cases rule: entry_log_step [of env cfg c cs s])
    case (quiet t)
    then show ?thesis using Cons.IH [of t bs] Cons.prems by simp
  next
    case (entry t sx now)
    then show ?thesis using Cons.IH [of t "tl bs"] Cons.prems by (cases bs) (auto simp: update_conv')
  qed
qed simp

text \<open>C6: over any run of ticks, two entries in a row for one symbol are at least the cooldown apart on the adapter's clock,
  whatever happened for other symbols in between.\<close>

theorem entries_spaced:
  assumes "entry_log env cfg cs s = before @ (sy, t1) # between @ (sy, t2) # rest" "sy \<notin> fst ` set between"
  shows "cg_cooldown (cv_config env) \<le> fsub t2 t1"
  using assms(1)
proof (induction cs arbitrary: s before)
  case (Cons c cs)
  show ?case
  proof (cases rule: entry_log_step [of env cfg c cs s])
    case (quiet t)
    then show ?thesis using Cons by simp
  next
    case (entry t sx now)
    show ?thesis
    proof (cases before)
      case Nil
      then have "entry_log env cfg cs t = between @ (sy, t2) # rest" "map_of (ct_entries (mu_chief t)) sy = Some t1"
        using entry Cons.prems by (auto simp: update_conv')
      then show ?thesis using first_after assms(2) by blast
    next
      case (Cons a before')
      then show ?thesis using entry Cons.IH Cons.prems by auto
    qed
  qed
qed simp

subsection \<open>Examples\<close>

definition ex_rotation :: "nat rotation" where
  "ex_rotation = \<lparr> mu_chief = ex_chief, mu_symbols = [''BTCUSDT''], mu_cursor = 0, mu_last = ''BTCUSDT'', mu_decided = [], mu_scores = [], mu_seen = [],
     mu_ranking = [], mu_generation = 0 \<rparr>"

definition ex_scan :: scan_config where
  "ex_scan = \<lparr> su_enabled = False, su_scanner = \<lparr> oc_candles = 24, oc_lookback = 6, oc_min = 0, oc_spread = 25 \<rparr>, su_top = 1 \<rparr>"

text \<open>What a tick of the example leaves, from any state in which the feed's candles have gone in.\<close>

lemma ex_tick:
  assumes "ex_fine (ct_live (mu_chief s))" "\<And>t. map_of (mu_decided s) ''BTCUSDT'' = Some t \<Longrightarrow> 300 \<le> fsub (of_nat (ct_world (mu_chief s))) t"
    "\<And>t. map_of (ct_entries (mu_chief s)) ''BTCUSDT'' = Some t \<Longrightarrow> 240 \<le> fsub (of_nat (ct_world (mu_chief s) + 301)) t"
  shows "\<exists>t sg. rotation_on_market_data (ex_chief_env None) ex_scan ex_entry_context s = (t, ret [sg]) \<and> ex_fine (ct_live (mu_chief t)) \<and>
    ct_world (mu_chief t) = ct_world (mu_chief s) + 901 \<and> mu_symbols t = mu_symbols s \<and> mu_cursor t = mu_cursor s \<and>
    map_of (mu_decided t) ''BTCUSDT'' = Some (of_nat (ct_world (mu_chief s) + 601)) \<and>
    map_of (ct_entries (mu_chief t)) ''BTCUSDT'' = Some (of_nat (ct_world (mu_chief s) + 301))"
proof -
  define x where "x = ct_world (mu_chief s)"
  define c0 where "c0 = (mu_chief s)\<lparr> ct_world := x + 300 \<rparr>"
  obtain l where l: "set_symbol ''BTCUSDT'' (x + 300, ct_live (mu_chief s)) = ((x + 300, l), ret ())" "ex_fine l" "lc_symbol l = ''BTCUSDT''"
    using ex_fine_set [OF assms(1), of "x + 300"] by (elim exE conjE) (rule that)
  define c1 where "c1 = c0\<lparr> ct_live := l \<rparr>"
  have "ex_fine (ct_live c1)" "lc_symbol (ct_live c1) = ''BTCUSDT''" using l by (simp_all add: c1_def)
  from ex_context [OF this, of None] obtain c m cc where k: "build_context (ex_chief_env None) ex_entry_context c1 =
      (c1\<lparr> ct_world := ct_world c1 + 1, ct_live := c, ct_memory := m \<rparr>, ret cc)"
    "snapshot_id cc = ''fsnap_1''" "evidence_candidates cc \<noteq> []" "ex_fine c" by (elim exE conjE) (rule that)
  define c2 where "c2 = c1\<lparr> ct_world := x + 601, ct_live := c, ct_memory := m \<rparr>"
  have ctx: "rotation_context (ex_chief_env None) ex_entry_context c0 = (c2\<lparr> ct_world := x + 301 \<rparr>, ret cc)"
    using k(1) l(1) by (simp add: rotation_context_def ex_env_simps ex_symbol live_def eff_zoom_def c0_def c1_def c2_def eff_bind_def)
  obtain sg where a: "answer_entry (ex_chief_env None) annotate_strength ex_entry_context cc (of_nat (x + 301)) c2 =
      (c2\<lparr> ct_ids := ct_ids c2 + 1, ct_entries := AList.update ''BTCUSDT'' (of_nat (x + 301)) (ct_entries c2) \<rparr>, ret [sg])"
    using ex_answer [of annotate_strength None cc "of_nat (x + 301)" c2, OF mark_action(1)] by blast
  have e: "ct_entries c2 = ct_entries (mu_chief s)" by (simp add: c2_def c1_def c0_def)
  have cool: "cooldown_left (ex_chief_env None) ex_entry_context (of_nat (x + 301)) c2 = None"
    using assms(3) by (auto simp: cooldown_left_def ex_env_simps ex_symbol e ex_config_def x_def split: option.split)
  have d: "ai_first_decide (ex_chief_env None) (rotation_context (ex_chief_env None)) ex_entry_context c0 =
      (c2\<lparr> ct_ids := ct_ids c2 + 1, ct_entries := AList.update ''BTCUSDT'' (of_nat (x + 301)) (ct_entries c2) \<rparr>, ret [sg])"
  proof -
    have "out (reads (cv_monotonic (ex_chief_env None))) (c2\<lparr> ct_world := x + 301 \<rparr>) = (c2, ret (of_nat (x + 301)))"
      by (simp add: ex_env_simps out_def eff_zoom_def reads_def c2_def)
    then show ?thesis
      using ctx k(2,3) a cool by (simp add: ai_first_decide_def data_gates_def ex_symbol perp_check_def ex_env_simps(10) cooldown_gate_def eff_bind_def)
  qed
  define t where "t = s\<lparr> mu_chief := c2\<lparr> ct_world := x + 901, ct_ids := ct_ids c2 + 1,
      ct_entries := AList.update ''BTCUSDT'' (of_nat (x + 301)) (ct_entries c2) \<rparr>,
    mu_decided := AList.update ''BTCUSDT'' (of_nat (x + 601)) (mu_decided s) \<rparr>"
  have go: "(case map_of (mu_decided s) ''BTCUSDT'' of
      Some t \<Rightarrow> fsub (of_nat x) t < max (cg_interval (cv_config (ex_chief_env None))) 0 | None \<Rightarrow> False) = False"
    using assms(2) by (cases "map_of (mu_decided s) ''BTCUSDT''") (auto simp: ex_env_simps(6) ex_config_def x_def)
  have clock: "chief_part (out (reads (cv_monotonic (ex_chief_env None)))) u = (u\<lparr> mu_chief := (mu_chief u)\<lparr> ct_world := ct_world (mu_chief u) + 300 \<rparr> \<rparr>,
      ret (of_nat (ct_world (mu_chief u))))" for u
    by (simp add: chief_part_def out_def eff_zoom_def reads_def ex_env_simps(4))
  have ready: "provider_ready (ex_chief_env None) (mu_chief s) = ret True" by (simp add: provider_ready_def ex_env_simps ex_provider_def)
  have "chief_part (ai_first_decide (ex_chief_env None) (rotation_context (ex_chief_env None)) ex_entry_context) (s\<lparr> mu_chief := c0 \<rparr>) =
      (s\<lparr> mu_chief := c2\<lparr> ct_ids := ct_ids c2 + 1, ct_entries := AList.update ''BTCUSDT'' (of_nat (x + 301)) (ct_entries c2) \<rparr> \<rparr>, ret [sg])"
    using d by (simp add: chief_part_def eff_zoom_def)
  then have "rotation_on_market_data (ex_chief_env None) ex_scan ex_entry_context s = (t, ret [sg])"
    by (simp add: rotation_on_market_data_def ready clock go ex_symbol ex_scan_def eff_bind_def eff_finally_def c0_def x_def [symmetric]
      del: of_nat_add) (simp add: t_def c2_def)
  then show ?thesis using k(4) by (intro exI [of _ t] exI [of _ sg]) (simp add: t_def c2_def x_def update_conv')
qed

lemma ex_rotation_chief:
  "ct_live (mu_chief ex_rotation) = ex_live" "ct_world (mu_chief ex_rotation) = 0" "ct_entries (mu_chief ex_rotation) = []" "mu_decided ex_rotation = []"
  by (simp_all add: ex_rotation_def ex_chief_def)

lemma ex_start: "rotation_init ex_chief [''btcusdt''] = ret ex_rotation"
  by (simp add: rotation_init_def ex_live_init ex_rotation_def)

theorem entry_needs_gates_witness:
  "\<exists>t sg. rotation_on_market_data (ex_chief_env None) ex_scan ex_entry_context ex_rotation = (t, ret [sg]) \<and>
     entry_shape ex_config ex_entry_context sg \<and> (\<exists>cc c. entry_answered (ex_chief_env None) cc c (s_side sg))"
proof -
  obtain t sg where t: "rotation_on_market_data (ex_chief_env None) ex_scan ex_entry_context ex_rotation = (t, ret [sg])"
    using ex_tick [of ex_rotation] by (auto simp: ex_rotation_chief ex_fine_live)
  have k: "keeps_action (cv_validate (ex_chief_env None))" by (simp add: ex_env_simps ex_keeps)
  show ?thesis using entry_needs_gates [OF t k] t unfolding ex_env_simps(6) by blast
qed

theorem entries_spaced_witness:
  "\<exists>cs. map fst (entry_log (ex_chief_env None) ex_scan cs ex_rotation) = [''BTCUSDT'', ''BTCUSDT''] \<and>
     cg_cooldown ex_config \<le> fsub (snd (entry_log (ex_chief_env None) ex_scan cs ex_rotation ! 1)) (snd (entry_log (ex_chief_env None) ex_scan cs ex_rotation ! 0))"
proof -
  define s1 where "s1 = fst (next_symbol ex_rotation)"
  have n1: "next_symbol ex_rotation = (s1, ''BTCUSDT'')" "mu_chief s1 = mu_chief ex_rotation" "mu_decided s1 = []" "mu_symbols s1 = [''BTCUSDT'']" "mu_cursor s1 = 0"
    by (simp_all add: s1_def next_symbol_simp ex_rotation_def)
  obtain t1 sg1 where 1: "rotation_on_market_data (ex_chief_env None) ex_scan ex_entry_context s1 = (t1, ret [sg1])" "ex_fine (ct_live (mu_chief t1))"
    "ct_world (mu_chief t1) = 901" "mu_symbols t1 = [''BTCUSDT'']" "mu_cursor t1 = 0" "map_of (mu_decided t1) ''BTCUSDT'' = Some 601"
    "map_of (ct_entries (mu_chief t1)) ''BTCUSDT'' = Some 301"
    using ex_tick [of s1] by (auto simp: n1 ex_rotation_chief ex_fine_live)
  define s2 where "s2 = fst (next_symbol t1)"
  have n2: "next_symbol t1 = (s2, ''BTCUSDT'')" "mu_chief s2 = mu_chief t1" "mu_decided s2 = mu_decided t1"
    by (simp_all add: s2_def next_symbol_simp 1)
  have "300 \<le> fsub 901 601" "240 \<le> fsub 1202 301" by code_simp+
  then obtain t2 sg2 where 2: "rotation_on_market_data (ex_chief_env None) ex_scan ex_entry_context s2 = (t2, ret [sg2])"
    "map_of (ct_entries (mu_chief t2)) ''BTCUSDT'' = Some 1202"
    using ex_tick [of s2] by (auto simp: n2 1)
  have c: "ex_entry_context\<lparr> sx_symbol := ''BTCUSDT'' \<rparr> = ex_entry_context" by (simp add: ex_entry_context_def ex_strategy_context_def)
  have log: "entry_log (ex_chief_env None) ex_scan [ex_entry_context, ex_entry_context] ex_rotation = [] @ (''BTCUSDT'', 301) # [] @ (''BTCUSDT'', 1202) # []"
    by (simp add: n1(1) n2(1) c 1(1,7) 2)
  from entries_spaced [OF log] have "cg_cooldown ex_config \<le> fsub 1202 301" by (simp add: ex_env_simps)
  with log show ?thesis by (intro exI [of _ "[ex_entry_context, ex_entry_context]"]) simp
qed

theorem rotation_fair_witness:
  "\<exists>s. rotation_init ex_chief [''btcusdt'', ''ETHUSDT''] = ret s \<and>
     snd (turns (ex_chief_env None) ex_scan [None, Some ex_entry_context, None] s) = [''BTCUSDT'', ''ETHUSDT'', ''BTCUSDT'']"
proof -
  define s where "s = ex_rotation\<lparr> mu_symbols := [''BTCUSDT'', ''ETHUSDT''] \<rparr>"
  have "to_canonical ''ETHUSDT'' = ret ''ETHUSDT''" by code_simp
  then have i: "rotation_init ex_chief [''btcusdt'', ''ETHUSDT''] = ret s"
    by (simp add: rotation_init_def ex_live_init s_def ex_rotation_def)
  have "snd (turns (ex_chief_env None) ex_scan [None] s) = [''BTCUSDT'']" by (simp add: next_symbol_simp s_def ex_rotation_def)
  with rotation_fair [OF i, of "[None, Some ex_entry_context, None]" 1 "ex_chief_env None" ex_scan] i show ?thesis
    by (simp add: s_def rotate1_def ex_rotation_def)
qed

theorem ranking_in_order_witness:
  "\<exists>s. s = fold record_opportunity [invalid_opportunity ''BTCUSDT'' ''x'', (invalid_opportunity ''BTCUSDT'' ''y'')\<lparr> op_score := 1 \<rparr>] ex_rotation \<and>
     map op_score (mu_ranking s) = [1] \<and> sorted (map rank_key (mu_ranking s))"
proof -
  define os where "os = [invalid_opportunity ''BTCUSDT'' ''x'', (invalid_opportunity ''BTCUSDT'' ''y'')\<lparr> op_score := 1 \<rparr>]"
  have "op_symbol o1 \<in> set (mu_symbols ex_rotation)" if "o1 \<in> set os" for o1
    using that by (auto simp: os_def ex_rotation_def invalid_opportunity_def)
  from ranking_in_order [OF ex_start this refl] have "sorted (map rank_key (mu_ranking (fold record_opportunity os ex_rotation)))" by blast
  moreover have "map op_score (mu_ranking (fold record_opportunity os ex_rotation)) = [1]"
    by (simp add: os_def record_opportunity_def ex_rotation_def invalid_opportunity_def Let_def List.insert_def dict_values_def)
  ultimately show ?thesis by (auto simp: os_def)
qed

theorem scores_never_veto_witness:
  "\<exists>t sg. rotation_on_market_data (ex_chief_env None) ex_scan ex_entry_context ex_rotation = (t, ret [sg]) \<and>
     snd (rotation_on_market_data (ex_chief_env None) ex_scan ex_entry_context (record_opportunity (invalid_opportunity ''BTCUSDT'' ''x'') ex_rotation)) =
       ret [sg] \<and>
     snd (rotation_on_market_data (ex_chief_env None) (ex_scan\<lparr> su_enabled := True, su_scanner := (su_scanner ex_scan)\<lparr> oc_min := 1 \<rparr> \<rparr>)
         ex_entry_context ex_rotation) =
       snd (rotation_on_market_data (ex_chief_env None) (ex_scan\<lparr> su_enabled := True \<rparr>) ex_entry_context ex_rotation)"
proof -
  obtain t sg where t: "rotation_on_market_data (ex_chief_env None) ex_scan ex_entry_context ex_rotation = (t, ret [sg])"
    using ex_tick [of ex_rotation] by (auto simp: ex_rotation_chief ex_fine_live)
  have "snd (rotation_on_market_data (ex_chief_env None) ex_scan ex_entry_context (record_opportunity (invalid_opportunity ''BTCUSDT'' ''x'') ex_rotation)) =
      ret [sg]"
    using scores_never_veto [of ex_scan ex_scan "record_opportunity (invalid_opportunity ''BTCUSDT'' ''x'') ex_rotation" ex_rotation "ex_chief_env None"
        ex_entry_context] t
    by simp
  moreover have "snd (rotation_on_market_data (ex_chief_env None) (ex_scan\<lparr> su_enabled := True, su_scanner := (su_scanner ex_scan)\<lparr> oc_min := 1 \<rparr> \<rparr>)
         ex_entry_context ex_rotation) =
       snd (rotation_on_market_data (ex_chief_env None) (ex_scan\<lparr> su_enabled := True \<rparr>) ex_entry_context ex_rotation)"
    by (rule scores_never_veto [THEN conjunct1]) simp_all
  ultimately show ?thesis using t by blast
qed

end
