(* ===== verification/LLM_Gateway.thy ===== *)
theory LLM_Gateway
  imports Chief_Decision
begin

text \<open>
  \<open>llm_runtime/gateway.py\<close> with \<open>contracts.py\<close>, \<open>repository.py\<close>, \<open>secrets.py\<close> and \<open>domain_models.py\<close>: the one way to a language
  model. Providers and routes are tables with a copy in memory, keys are in an encrypted file, every
  call is recorded, and a provider that keeps failing is left alone for a while. The transport, the validation of
  an answer and the hash of a prompt are functions that are given; a prompt is the value that is written out as
  text. The lemmas show that a call is recorded once, that an open circuit keeps calls away, and what the
  chief trader makes of a failure.
\<close>

subsection \<open>Contracts\<close>

datatype llm_error =
    NOT_CONFIGURED | UNKNOWN_ROUTE | DISABLED_PROVIDER | AUTHENTICATION_FAILED | RATE_LIMITED | TIMEOUT | PROVIDER_UNAVAILABLE
  | INVALID_MODEL | INVALID_RESPONSE | NETWORK_ERROR | CIRCUIT_OPEN

fun error_text :: "llm_error \<Rightarrow> string" where
  "error_text NOT_CONFIGURED = ''not_configured''"
| "error_text UNKNOWN_ROUTE = ''unknown_route''"
| "error_text DISABLED_PROVIDER = ''disabled_provider''"
| "error_text AUTHENTICATION_FAILED = ''authentication_failed''"
| "error_text RATE_LIMITED = ''rate_limited''"
| "error_text TIMEOUT = ''timeout''"
| "error_text PROVIDER_UNAVAILABLE = ''provider_unavailable''"
| "error_text INVALID_MODEL = ''invalid_model''"
| "error_text INVALID_RESPONSE = ''invalid_response''"
| "error_text NETWORK_ERROR = ''network_error''"
| "error_text CIRCUIT_OPEN = ''circuit_open''"

record provider_config =
  pc_id :: string
  pc_type :: string
  pc_name :: string
  pc_url :: string
  pc_secret :: string
  pc_model :: string
  pc_enabled :: bool
  pc_timeout :: fl
  pc_retries :: nat

record provider_upsert =
  pu_id :: string
  pu_type :: string
  pu_name :: string
  pu_url :: string
  pu_key :: "string option"
  pu_model :: string
  pu_enabled :: bool
  pu_timeout :: fl
  pu_retries :: nat

record model_route =
  mr_name :: string
  mr_provider :: string
  mr_model :: string
  mr_enabled :: bool
  mr_temperature :: fl
  mr_tokens :: nat
  mr_timeout :: fl

record domain_profile =
  dp_id :: string
  dp_name :: string
  dp_version :: string
  dp_brain :: string
  dp_routes :: "string list"

datatype prompt = PromptText string | ChiefPrompt chief_context | DomainPrompt domain_profile domain_context "string option"

record gateway_request =
  gq_route :: string
  gq_brain :: string
  gq_prompt :: prompt
  gq_correlation :: "string option"

record gateway_response =
  gp_id :: string
  gp_ok :: bool
  gp_route :: string
  gp_provider :: string
  gp_model :: string
  gp_content :: "meta option"
  gp_latency :: fl
  gp_tokens :: "int \<times> int \<times> int"
  gp_error :: "llm_error option"
  gp_checked :: string

record provider_result =
  pr_ok :: bool
  pr_content :: "meta option"
  pr_tokens :: "int \<times> int \<times> int"
  pr_error :: "llm_error option"
  pr_retryable :: bool

text \<open>The addresses that a provider may have: \<open>rstrip("/")\<close>, then HTTPS or the local machine.\<close>

definition secure_base_url :: "string \<Rightarrow> string res" where
  "secure_base_url url =
     (let t = rev (dropWhile (\<lambda>c. c = CHR ''/'') (rev url)); starts = (\<lambda>p. take (length p) t = p)
      in if \<not> starts ''https://'' \<and> \<not> (starts ''http://127.0.0.1'' \<or> starts ''http://localhost'') then raise ValueError else ret t)"

subsection \<open>The store of keys\<close>

text \<open>The encrypted file and the file of the master key. Encryption and decryption with the same key are inverse; a file that is
  damaged, or of another key, is not readable.\<close>

record secret_store =
  ss_file :: "(string, string) dict option"
  ss_private :: bool
  ss_readable :: bool
  ss_master :: bool
  ss_master_private :: bool

definition secret_error :: "string \<Rightarrow> 'a res" where
  "secret_error text = Inl (Exn RuntimeErrorC text)"

definition secret_fernet :: "bool \<Rightarrow> secret_store \<Rightarrow> secret_store res" where
  "secret_fernet create s =
     (if \<not> ss_master s then
        if create then ret (s\<lparr> ss_master := True, ss_master_private := True \<rparr>) else secret_error ''LLM master key is not initialized''
      else if \<not> ss_master_private s then secret_error ''insecure permissions'' else ret s)"

definition secret_read_all :: "secret_store \<Rightarrow> (string, string) dict res" where
  "secret_read_all s =
     (case ss_file s of
        None \<Rightarrow> ret []
      | Some kvs \<Rightarrow>
          if \<not> ss_private s then secret_error ''insecure permissions''
          else rbind (secret_fernet False s) (\<lambda>_. if ss_readable s then ret kvs else secret_error ''LLM secret store cannot be decrypted''))"

definition secret_write :: "(string, string) dict \<Rightarrow> secret_store \<Rightarrow> secret_store res" where
  "secret_write kvs s =
     rbind (secret_fernet True s) (\<lambda>s1. ret (s1\<lparr> ss_file := Some kvs, ss_private := True, ss_readable := True \<rparr>))"

definition secret_set :: "string \<Rightarrow> string \<Rightarrow> secret_store \<Rightarrow> secret_store res" where
  "secret_set k v s =
     (if k = [] \<or> v = [] then raise ValueError
      else rbind (secret_read_all s) (\<lambda>kvs. secret_write (AList.update k v kvs) s))"

definition secret_get :: "string \<Rightarrow> secret_store \<Rightarrow> string option res" where
  "secret_get k s = rbind (secret_read_all s) (\<lambda>kvs. ret (map_of kvs k))"

definition secret_delete :: "string \<Rightarrow> secret_store \<Rightarrow> secret_store res" where
  "secret_delete k s =
     rbind (secret_read_all s) (\<lambda>kvs. if map_of kvs k = None then ret s else secret_write (AList.delete k kvs) s)"

definition last_chars :: "nat \<Rightarrow> string \<Rightarrow> string" where
  "last_chars n t = drop (length t - n) t"

definition secret_mask :: "string option \<Rightarrow> string option" where
  "secret_mask v =
     (case v of
        None \<Rightarrow> None
      | Some t \<Rightarrow>
          if t = [] then None
          else (let suffix = (if 4 \<le> length t then last_chars 4 t else ''****'')
                in Some (if 7 < length t then take 3 t @ ''-************'' @ suffix else ''***'' @ suffix)))"

subsection \<open>The gateway\<close>

record circuit =
  ci_failures :: nat
  ci_opened :: "fl option"

definition closed_circuit :: circuit where
  "closed_circuit = \<lparr> ci_failures = 0, ci_opened = None \<rparr>"

record usage_row =
  us_id :: string
  us_time :: usec
  us_brain :: string
  us_route :: string
  us_provider :: string
  us_model :: string
  us_latency :: fl
  us_tokens :: "int \<times> int \<times> int"
  us_success :: bool
  us_error :: "string option"
  us_correlation :: "string option"
  us_hash :: string

record llm_check =
  lk_healthy :: bool
  lk_latency :: fl
  lk_checked :: string
  lk_error :: "string option"

record 'x gateway =
  gw_world :: 'x
  gw_providers :: "(string, provider_config) dict"
  gw_routes :: "(string, model_route) dict"
  gw_circuits :: "(string, circuit) dict"
  gw_checks :: "(string, llm_check) dict"
  gw_secrets :: secret_store
  gw_provider_rows :: "provider_config list"
  gw_route_rows :: "model_route list"
  gw_usage :: "usage_row list"
  gw_ids :: nat

record 'x gateway_env =
  ge_transport :: "provider_config \<Rightarrow> model_route \<Rightarrow> string \<Rightarrow> prompt \<Rightarrow> ('x, provider_result) eff"
  ge_sleep :: "fl \<Rightarrow> ('x, unit) eff"
  ge_monotonic :: "'x \<Rightarrow> 'x \<times> fl"
  ge_now :: "'x \<Rightarrow> 'x \<times> usec"
  ge_gen :: id_gen
  ge_hash :: "prompt \<Rightarrow> string"
  ge_length :: "prompt \<Rightarrow> nat"
  ge_threshold :: nat
  ge_reset :: fl

type_synonym ('x, 'a) gact = "('x gateway, 'a) eff"

text \<open>The validation of an answer by a model of the third-party library: what it makes of the answer, or none when it refuses it.\<close>

type_synonym answer_model = "meta \<Rightarrow> meta option"

definition world :: "('x, 'a) eff \<Rightarrow> ('x, 'a) gact" where
  "world m = eff_zoom gw_world (\<lambda>x s. s\<lparr> gw_world := x \<rparr>) m"

definition gw_fresh :: "'x gateway_env \<Rightarrow> string \<Rightarrow> ('x, string) gact" where
  "gw_fresh env p = (\<lambda>s. (s\<lparr> gw_ids := gw_ids s + 1 \<rparr>, ret (ge_gen env p (gw_ids s))))"

definition gw_keys :: "(secret_store \<Rightarrow> secret_store res) \<Rightarrow> ('x, unit) gact" where
  "gw_keys f = (\<lambda>s. case f (gw_secrets s) of Inl e \<Rightarrow> (s, Inl e) | Inr t \<Rightarrow> (s\<lparr> gw_secrets := t \<rparr>, ret ()))"

definition gateway_request_of :: "'x gateway_env \<Rightarrow> string \<Rightarrow> string \<Rightarrow> prompt \<Rightarrow> gateway_request res" where
  "gateway_request_of env route brain p =
     (if ge_length env p < 1 \<or> 100000 < ge_length env p then raise ValueError
      else ret \<lparr> gq_route = route, gq_brain = brain, gq_prompt = p, gq_correlation = None \<rparr>)"

subsection \<open>Tables\<close>

text \<open>\<open>upsert\<close> by a key: the row is changed in place or added.\<close>

definition upsert_row :: "('r \<Rightarrow> string) \<Rightarrow> 'r \<Rightarrow> 'r list \<Rightarrow> 'r list" where
  "upsert_row key r rows = (if list_ex (\<lambda>x. key x = key r) rows then map (\<lambda>x. if key x = key r then r else x) rows else rows @ [r])"

definition db_upsert_provider :: "provider_config \<Rightarrow> ('x, unit) gact" where
  "db_upsert_provider c = (\<lambda>s.
     if list_ex (\<lambda>r. pc_id r \<noteq> pc_id c \<and> pc_secret r = pc_secret c) (gw_provider_rows s) then (s, raise IntegrityError)
     else (s\<lparr> gw_provider_rows := upsert_row pc_id c (gw_provider_rows s) \<rparr>, ret ()))"

definition db_get_provider :: "string \<Rightarrow> ('x, provider_config option) gact" where
  "db_get_provider i = eff_get (\<lambda>s. List.find (\<lambda>r. pc_id r = i) (gw_provider_rows s))"

definition db_delete_provider :: "string \<Rightarrow> ('x, unit) gact" where
  "db_delete_provider i =
     eff_mod (\<lambda>s. s\<lparr> gw_route_rows := filter (\<lambda>r. mr_provider r \<noteq> i) (gw_route_rows s),
                     gw_provider_rows := filter (\<lambda>r. pc_id r \<noteq> i) (gw_provider_rows s) \<rparr>)"

definition db_replace_routes :: "model_route list \<Rightarrow> ('x, unit) gact" where
  "db_replace_routes rs = eff_mod (\<lambda>s. s\<lparr> gw_route_rows := foldl (\<lambda>rows r. upsert_row mr_name r rows) (gw_route_rows s) rs \<rparr>)"

definition reload :: "('x, unit) gact" where
  "reload = eff_mod (\<lambda>s. s\<lparr> gw_providers := foldl (\<lambda>d c. AList.update (pc_id c) c d) [] (gw_provider_rows s),
                           gw_routes := foldl (\<lambda>d r. AList.update (mr_name r) r d) [] (gw_route_rows s) \<rparr>)"

subsection \<open>Recording\<close>

definition usage_of :: "'x gateway_env \<Rightarrow> gateway_request \<Rightarrow> usec \<Rightarrow> gateway_response \<Rightarrow> usage_row" where
  "usage_of env q t r =
     \<lparr> us_id = gp_id r, us_time = t, us_brain = gq_brain q, us_route = gq_route q, us_provider = gp_provider r, us_model = gp_model r,
       us_latency = gp_latency r, us_tokens = gp_tokens r, us_success = gp_ok r, us_error = map_option error_text (gp_error r),
       us_correlation = gq_correlation q, us_hash = ge_hash env (gq_prompt q) \<rparr>"

text \<open>The key of the table is the identifier of the call.\<close>

definition record_usage :: "'x gateway_env \<Rightarrow> gateway_request \<Rightarrow> gateway_response \<Rightarrow> ('x, unit) gact" where
  "record_usage env q r =
     eff_bind (world (reads (ge_now env))) (\<lambda>t s.
       if list_ex (\<lambda>u. us_id u = gp_id r) (gw_usage s) then (s, raise IntegrityError)
       else (s\<lparr> gw_usage := gw_usage s @ [usage_of env q t r] \<rparr>, ret ()))"

definition check_of :: "bool \<Rightarrow> gateway_response \<Rightarrow> llm_check" where
  "check_of healthy r =
     \<lparr> lk_healthy = healthy, lk_latency = fl_places 2 (gp_latency r), lk_checked = gp_checked r, lk_error = map_option error_text (gp_error r) \<rparr>"

definition note_check :: "string \<Rightarrow> bool \<Rightarrow> gateway_response \<Rightarrow> ('x, unit) gact" where
  "note_check i healthy r = eff_mod (\<lambda>s. s\<lparr> gw_checks := AList.update i (check_of healthy r) (gw_checks s) \<rparr>)"

definition gw_failure ::
  "'x gateway_env \<Rightarrow> string \<Rightarrow> gateway_request \<Rightarrow> llm_error \<Rightarrow> model_route option \<Rightarrow> provider_config option \<Rightarrow> fl \<Rightarrow> ('x, gateway_response) gact" where
  "gw_failure env i q code r p latency =
     eff_bind (world (reads (ge_now env))) (\<lambda>t.
     (let resp = \<lparr> gp_id = i, gp_ok = False, gp_route = gq_route q,
            gp_provider = (case p of Some c \<Rightarrow> pc_id c | None \<Rightarrow> (case r of Some m \<Rightarrow> mr_provider m | None \<Rightarrow> [])),
            gp_model = (case r of Some m \<Rightarrow> mr_model m | None \<Rightarrow> []), gp_content = None, gp_latency = latency, gp_tokens = (0, 0, 0),
            gp_error = Some code, gp_checked = iso_text t \<rparr>
      in eff_then (record_usage env q resp)
         (eff_then (case p of Some c \<Rightarrow> note_check (pc_id c) False resp | None \<Rightarrow> eff_ret ()) (eff_ret resp))))"

subsection \<open>The circuit of a provider\<close>

definition circuit_for :: "string \<Rightarrow> 'x gateway \<Rightarrow> circuit" where
  "circuit_for i s = (case map_of (gw_circuits s) i of Some c \<Rightarrow> c | None \<Rightarrow> closed_circuit)"

definition put_circuit :: "string \<Rightarrow> circuit \<Rightarrow> 'x gateway \<Rightarrow> 'x gateway" where
  "put_circuit i c s = s\<lparr> gw_circuits := AList.update i c (gw_circuits s) \<rparr>"

definition circuit_open :: "'x gateway_env \<Rightarrow> string \<Rightarrow> ('x, bool) gact" where
  "circuit_open env i =
     eff_bind (eff_get (circuit_for i)) (\<lambda>c.
     eff_then (eff_mod (put_circuit i c))
       (case ci_opened c of
          None \<Rightarrow> eff_ret False
        | Some t0 \<Rightarrow>
            eff_bind (world (reads (ge_monotonic env))) (\<lambda>now.
              if ge_reset env \<le> fsub now t0 then eff_then (eff_mod (put_circuit i closed_circuit)) (eff_ret False) else eff_ret True)))"

definition record_failure :: "'x gateway_env \<Rightarrow> string \<Rightarrow> ('x, unit) gact" where
  "record_failure env i =
     eff_bind (eff_get (circuit_for i)) (\<lambda>c.
     (let n = ci_failures c + 1 in
      if ge_threshold env \<le> n then
        eff_bind (world (reads (ge_monotonic env))) (\<lambda>now. eff_mod (put_circuit i \<lparr> ci_failures = n, ci_opened = Some now \<rparr>))
      else eff_mod (put_circuit i (c\<lparr> ci_failures := n \<rparr>))))"

subsection \<open>A call\<close>

text \<open>The attempts, \<open>k\<close> more after this one, which is the attempt \<open>n\<close> counted from 0.\<close>

fun gw_attempts :: "'x gateway_env \<Rightarrow> provider_config \<Rightarrow> model_route \<Rightarrow> string \<Rightarrow> prompt \<Rightarrow> nat \<Rightarrow> nat \<Rightarrow> ('x, provider_result) eff" where
  "gw_attempts env p r key pr n 0 = ge_transport env p r key pr"
| "gw_attempts env p r key pr n (Suc k) =
     eff_bind (ge_transport env p r key pr) (\<lambda>res.
       if pr_ok res \<or> \<not> pr_retryable res then eff_ret res
       else eff_then (ge_sleep env (min 2 (fmul (fround (1 / 10)) (2 ^ n)))) (gw_attempts env p r key pr (n + 1) k))"

definition answer_content :: "answer_model option \<Rightarrow> provider_result \<Rightarrow> meta option" where
  "answer_content v res =
     (let content = (case pr_content res of Some m \<Rightarrow> m | None \<Rightarrow> []) in case v of None \<Rightarrow> Some content | Some f \<Rightarrow> f content)"

definition gw_success ::
  "'x gateway_env \<Rightarrow> string \<Rightarrow> gateway_request \<Rightarrow> model_route \<Rightarrow> provider_config \<Rightarrow> fl \<Rightarrow> provider_result \<Rightarrow> meta \<Rightarrow> ('x, gateway_response) gact" where
  "gw_success env i q r p latency res content =
     eff_then (eff_mod (put_circuit (pc_id p) closed_circuit))
     (eff_bind (world (reads (ge_now env))) (\<lambda>t.
      (let resp = \<lparr> gp_id = i, gp_ok = True, gp_route = gq_route q, gp_provider = pc_id p, gp_model = mr_model r, gp_content = Some content,
             gp_latency = latency, gp_tokens = pr_tokens res, gp_error = None, gp_checked = iso_text t \<rparr>
       in eff_then (record_usage env q resp) (eff_then (note_check (pc_id p) True resp) (eff_ret resp)))))"

definition gw_call ::
  "'x gateway_env \<Rightarrow> string \<Rightarrow> gateway_request \<Rightarrow> answer_model option \<Rightarrow> model_route \<Rightarrow> provider_config \<Rightarrow> string \<Rightarrow> ('x, gateway_response) gact" where
  "gw_call env i q v r p key =
     eff_bind (world (reads (ge_monotonic env))) (\<lambda>started.
     eff_bind (world (gw_attempts env p r key (gq_prompt q) 0 (pc_retries p))) (\<lambda>res.
     eff_bind (world (reads (ge_monotonic env))) (\<lambda>ended.
     (let latency = fmul (fsub ended started) 1000; fail = (\<lambda>code. gw_failure env i q code (Some r) (Some p) latency) in
      if \<not> pr_ok res then
        eff_then (record_failure env (pc_id p)) (fail (case pr_error res of Some c \<Rightarrow> c | None \<Rightarrow> PROVIDER_UNAVAILABLE))
      else
        (case answer_content v res of
           None \<Rightarrow> eff_then (record_failure env (pc_id p)) (fail INVALID_RESPONSE)
         | Some content \<Rightarrow> gw_success env i q r p latency res content)))))"

definition gw_invoke :: "'x gateway_env \<Rightarrow> gateway_request \<Rightarrow> answer_model option \<Rightarrow> ('x, gateway_response) gact" where
  "gw_invoke env q v =
     eff_bind (gw_fresh env ''llm'') (\<lambda>i.
     eff_bind (eff_get (\<lambda>s. map_of (gw_routes s) (gq_route q))) (\<lambda>route.
       case route of
         None \<Rightarrow> gw_failure env i q UNKNOWN_ROUTE None None 0
       | Some r \<Rightarrow>
           if \<not> mr_enabled r then gw_failure env i q UNKNOWN_ROUTE (Some r) None 0
           else eff_bind (eff_get (\<lambda>s. map_of (gw_providers s) (mr_provider r))) (\<lambda>provider.
             case provider of
               None \<Rightarrow> gw_failure env i q NOT_CONFIGURED (Some r) None 0
             | Some p \<Rightarrow>
                 if \<not> pc_enabled p then gw_failure env i q DISABLED_PROVIDER (Some r) (Some p) 0
                 else eff_bind (\<lambda>s. (s, secret_get (pc_secret p) (gw_secrets s))) (\<lambda>key.
                   if key = None \<or> key = Some [] then gw_failure env i q NOT_CONFIGURED (Some r) (Some p) 0
                   else eff_bind (circuit_open env (pc_id p)) (\<lambda>blocked.
                     if blocked then gw_failure env i q CIRCUIT_OPEN (Some r) (Some p) 0
                     else gw_call env i q v r p (the key))))))"

subsection \<open>Configuration\<close>

definition provider_config_of :: "provider_upsert \<Rightarrow> string \<Rightarrow> provider_config res" where
  "provider_config_of u secret =
     rbind (secure_base_url (pu_url u)) (\<lambda>url.
       ret \<lparr> pc_id = pu_id u, pc_type = pu_type u, pc_name = pu_name u, pc_url = url, pc_secret = secret, pc_model = pu_model u,
             pc_enabled = pu_enabled u, pc_timeout = pu_timeout u, pc_retries = pu_retries u \<rparr>)"

record safe_view =
  sv_config :: provider_config
  sv_masked :: "string option"
  sv_configured :: bool
  sv_check :: "llm_check option"

text \<open>What is shown of a provider: its configuration without the reference of the key, which is cleared here.\<close>

definition safe_provider :: "provider_config \<Rightarrow> 'x gateway \<Rightarrow> safe_view res" where
  "safe_provider c s =
     rbind (secret_get (pc_secret c) (gw_secrets s)) (\<lambda>secret.
       ret \<lparr> sv_config = c\<lparr> pc_secret := [] \<rparr>, sv_masked = secret_mask secret, sv_configured = (secret \<noteq> None \<and> secret \<noteq> Some []),
             sv_check = map_of (gw_checks s) (pc_id c) \<rparr>)"

definition save_provider :: "provider_upsert \<Rightarrow> ('x, safe_view) gact" where
  "save_provider u =
     eff_bind (db_get_provider (pu_id u)) (\<lambda>existing.
     (let secret = (case existing of Some c \<Rightarrow> pc_secret c | None \<Rightarrow> ''llm:'' @ pu_id u @ '':api-key'') in
      eff_then (case pu_key u of
                  Some (c # cs) \<Rightarrow> gw_keys (secret_set secret (c # cs))
                | _ \<Rightarrow> if existing = None then eff_raise (Exn ValueError ''api_key is required for a new provider'') else eff_ret ())
      (eff_bind (eff_lift (provider_config_of u secret)) (\<lambda>config.
       eff_then (db_upsert_provider config) (eff_then reload (\<lambda>s. (s, safe_provider config s)))))))"

definition delete_provider :: "string \<Rightarrow> ('x, unit) gact" where
  "delete_provider i =
     eff_bind (db_get_provider i) (\<lambda>config.
     eff_then (case config of Some c \<Rightarrow> gw_keys (secret_delete (pc_secret c)) | None \<Rightarrow> eff_ret ())
     (eff_then (db_delete_provider i) reload))"

definition save_routes :: "model_route list \<Rightarrow> ('x, model_route list) gact" where
  "save_routes rs =
     eff_bind (eff_get (\<lambda>s. List.find (\<lambda>r. map_of (gw_providers s) (mr_provider r) = None) rs)) (\<lambda>missing.
       case missing of
         Some r \<Rightarrow> eff_raise (Exn ValueError (''unknown provider: '' @ mr_provider r))
       | None \<Rightarrow> eff_then (db_replace_routes rs) (eff_then reload (eff_ret rs)))"

subsection \<open>Checks of a provider\<close>

definition test_route :: "string \<Rightarrow> string \<Rightarrow> fl \<Rightarrow> model_route" where
  "test_route i model limit =
     \<lparr> mr_name = ''provider_test'', mr_provider = i, mr_model = model, mr_enabled = True, mr_temperature = fround (2 / 10), mr_tokens = 32, mr_timeout = limit \<rparr>"

definition ok_json :: string where
  "ok_json = ''{'' @ [CHR 0x22] @ ''ok'' @ [CHR 0x22] @ '': true}''"

text \<open>The answer of a test is \<open>{"ok": b}\<close>, which the library also reads from other words for a truth value.\<close>

definition test_provider :: "'x gateway_env \<Rightarrow> answer_model \<Rightarrow> string \<Rightarrow> ('x, gateway_response) gact" where
  "test_provider env health i =
     eff_bind (eff_get (\<lambda>s. map_of (gw_providers s) i)) (\<lambda>provider.
       case provider of
         None \<Rightarrow> eff_bind (gw_fresh env ''llm'') (\<lambda>n. eff_bind (world (reads (ge_now env))) (\<lambda>t.
           eff_ret \<lparr> gp_id = n, gp_ok = False, gp_route = ''provider_test'', gp_provider = [], gp_model = [], gp_content = None, gp_latency = 0,
                     gp_tokens = (0, 0, 0), gp_error = Some NOT_CONFIGURED, gp_checked = iso_text t \<rparr>))
       | Some p \<Rightarrow>
           eff_bind (eff_get (\<lambda>s. map_of (gw_routes s) ''provider_test'')) (\<lambda>previous.
           eff_then (eff_mod (\<lambda>s. s\<lparr> gw_routes := AList.update ''provider_test'' (test_route i (pc_model p) (pc_timeout p)) (gw_routes s) \<rparr>))
             (\<lambda>s. case eff_bind (eff_lift (gateway_request_of env ''provider_test'' ''LIVE'' (PromptText (''Return exactly one JSON object: '' @ ok_json))))
                          (\<lambda>q. gw_invoke env q (Some health)) s of
                    (t, r) \<Rightarrow> (t\<lparr> gw_routes := (case previous of None \<Rightarrow> AList.delete ''provider_test'' (gw_routes t)
                                  | Some old \<Rightarrow> AList.update ''provider_test'' old (gw_routes t)) \<rparr>, r))))"

definition test_unsaved_provider :: "'x gateway_env \<Rightarrow> provider_upsert \<Rightarrow> ('x, gateway_response) gact" where
  "test_unsaved_provider env u =
     (case pu_key u of
        Some (c # cs) \<Rightarrow>
          eff_bind (eff_lift (provider_config_of u ''ephemeral:test-only'')) (\<lambda>p.
          eff_bind (world (reads (ge_monotonic env))) (\<lambda>started.
          eff_bind (world (ge_transport env p (test_route (pc_id p) (pc_model p) (pc_timeout p)) (c # cs) (PromptText (''Return '' @ ok_json)))) (\<lambda>res.
          eff_bind (gw_fresh env ''llm'') (\<lambda>i.
          eff_bind (world (reads (ge_monotonic env))) (\<lambda>ended.
          eff_bind (world (reads (ge_now env))) (\<lambda>t.
          (let fine = (pr_ok res \<and> (case pr_content res of Some m \<Rightarrow> map_of m ''ok'' = Some (JBool True) | None \<Rightarrow> False));
               resp = \<lparr> gp_id = i, gp_ok = fine, gp_route = ''provider_test'', gp_provider = pc_id p, gp_model = pc_model p, gp_content = None,
                 gp_latency = fmul (fsub ended started) 1000, gp_tokens = pr_tokens res,
                 gp_error = (if fine then None else case pr_error res of Some e \<Rightarrow> Some e | None \<Rightarrow> Some INVALID_RESPONSE), gp_checked = iso_text t \<rparr>
           in eff_bind (eff_lift (gateway_request_of env ''provider_test'' ''LIVE'' (PromptText ''provider qualification''))) (\<lambda>q.
              eff_then (record_usage env q resp) (eff_ret resp)))))))))
      | _ \<Rightarrow> eff_bind (gw_fresh env ''llm'') (\<lambda>i. eff_bind (world (reads (ge_now env))) (\<lambda>t.
          eff_ret \<lparr> gp_id = i, gp_ok = False, gp_route = ''provider_test'', gp_provider = pu_id u, gp_model = pu_model u, gp_content = None,
                    gp_latency = 0, gp_tokens = (0, 0, 0), gp_error = Some NOT_CONFIGURED, gp_checked = iso_text t \<rparr>)))"

text \<open>The configured routes in turn, each with its own prompt and model of the answer.\<close>

fun qualify_routes :: "'x gateway_env \<Rightarrow> (string \<times> string \<times> prompt \<times> answer_model) list \<Rightarrow> ('x, gateway_response list) gact" where
  "qualify_routes env [] = eff_ret []"
| "qualify_routes env ((route, brain, p, v) # checks) =
     eff_bind (eff_lift (gateway_request_of env route brain p)) (\<lambda>q.
     eff_bind (gw_invoke env q (Some v)) (\<lambda>r. eff_bind (qualify_routes env checks) (\<lambda>rs. eff_ret (r # rs))))"

definition llm_status :: "'x gateway \<Rightarrow> bool \<times> string \<times> nat \<times> nat" where
  "llm_status s =
     (let enabled = filter pc_enabled (dict_values (gw_providers s)); checks = map (\<lambda>p. map_of (gw_checks s) (pc_id p)) enabled;
          health = (if enabled = [] then ''NOT_CONFIGURED''
            else if list_ex (\<lambda>c. case c of Some k \<Rightarrow> lk_healthy k | None \<Rightarrow> False) checks then ''HEALTHY''
            else if list_ex (\<lambda>c. c \<noteq> None) checks then ''DEGRADED'' else ''UNVERIFIED'')
      in (enabled \<noteq> [], health, length enabled, length (filter mr_enabled (dict_values (gw_routes s)))))"

subsection \<open>Domain profiles and the adapter of the chief trader\<close>

definition domain_profiles :: "domain_profile list" where
  "domain_profiles =
     [\<lparr> dp_id = ''crypto-trader-live'', dp_name = ''CryptoTrader-Live-v1'', dp_version = ''v1'', dp_brain = ''LIVE'', dp_routes = [''live_analysis''] \<rparr>,
      \<lparr> dp_id = ''crypto-trader-learning'', dp_name = ''CryptoTrader-Learning-v1'', dp_version = ''v1'', dp_brain = ''DAILY'',
        dp_routes = [''daily_review'', ''daily_lesson_extraction''] \<rparr>,
      \<lparr> dp_id = ''crypto-trader-evolution'', dp_name = ''CryptoTrader-Evolution-v1'', dp_version = ''v1'', dp_brain = ''EVOLUTION'',
        dp_routes = [''evolution_research'', ''evolution_hypothesis'', ''evolution_candidate_reasoning''] \<rparr>]"

definition profile_for_route :: "string \<Rightarrow> domain_profile res" where
  "profile_for_route route =
     (case List.find (\<lambda>p. route \<in> set (dp_routes p)) domain_profiles of
        Some p \<Rightarrow> ret p | None \<Rightarrow> Inl (Exn ValueError (''no domain model profile for route: '' @ route)))"

definition domain_invoke :: "'x gateway_env \<Rightarrow> string \<Rightarrow> domain_context \<Rightarrow> answer_model \<Rightarrow> ('x, gateway_response) gact" where
  "domain_invoke env route c v =
     eff_bind (eff_lift (profile_for_route route)) (\<lambda>profile.
     eff_bind (if route = ''live_analysis'' then eff_bind (gw_fresh env ''dec'') (\<lambda>i. eff_ret (Some i)) else eff_ret None) (\<lambda>i.
     eff_bind (eff_lift (gateway_request_of env route (dp_brain profile) (DomainPrompt profile c i))) (\<lambda>q. gw_invoke env q (Some v))))"

definition route_ready :: "string \<Rightarrow> 'x gateway \<Rightarrow> bool res" where
  "route_ready route s =
     (case map_of (gw_routes s) route of
        None \<Rightarrow> ret False
      | Some r \<Rightarrow>
          if \<not> mr_enabled r then ret False
          else (case map_of (gw_providers s) (mr_provider r) of
             None \<Rightarrow> ret False
           | Some p \<Rightarrow> if \<not> pc_enabled p then ret False
                else rbind (secret_get (pc_secret p) (gw_secrets s)) (\<lambda>k. ret (k \<noteq> None \<and> k \<noteq> Some []))))"

definition chief_response :: "gateway_response \<Rightarrow> llm_response" where
  "chief_response r = \<lparr> lm_ok = gp_ok r, lm_json = gp_content r, lm_invocation = gp_id r \<rparr>"

text \<open>The provider that the chief trader is given, over the state of the gateway.\<close>

definition gateway_provider :: "'x gateway_env \<Rightarrow> answer_model \<Rightarrow> string \<Rightarrow> 'x gateway llm_provider" where
  "gateway_provider env v route =
     \<lparr> lp_name = ''llm_gateway'', lp_version = (case profile_for_route route of Inr p \<Rightarrow> dp_name p | Inl _ \<Rightarrow> []), lp_domain = True, lp_healthy = route_ready route,
        lp_route = route_ready route,
        lp_complete = (\<lambda>q. eff_bind
          (case q of
             DomainRequest c \<Rightarrow> domain_invoke env route c v
           | PromptRequest c \<Rightarrow> eff_bind (eff_lift (gateway_request_of env route ''LIVE'' (ChiefPrompt c))) (\<lambda>g. gw_invoke env g None))
          (\<lambda>r. eff_ret (chief_response r))) \<rparr>"

subsection \<open>Every call is recorded\<close>

definition usage_kept :: "'x gateway \<Rightarrow> 'x gateway \<Rightarrow> bool" where
  "usage_kept s t \<longleftrightarrow> gw_usage t = gw_usage s"

interpretation uk: step_relation usage_kept
  by unfold_locales (simp_all add: usage_kept_def)

lemma uk_parts: "moves usage_kept (world m)" "moves usage_kept (gw_fresh env p)" "moves usage_kept (note_check i h r)"
  "moves usage_kept (eff_mod (put_circuit i c))" "moves usage_kept (\<lambda>s. (s, f s))"
  by (auto simp: world_def gw_fresh_def note_check_def put_circuit_def usage_kept_def moves_def eff_zoom_def split: prod.split)

lemma uk_circuit: "moves usage_kept (circuit_open env i)" "moves usage_kept (record_failure env i)"
  unfolding circuit_open_def record_failure_def Let_def by (intro uk.rules uk_parts)+

text \<open>The one row of a call, or none when it raises.\<close>

definition recorded_once :: "'x gateway_env \<Rightarrow> gateway_request \<Rightarrow> 'x gateway \<Rightarrow> 'x gateway \<times> gateway_response res \<Rightarrow> bool" where
  "recorded_once env q s tr =
     (case snd tr of
        Inl e \<Rightarrow> gw_usage (fst tr) = gw_usage s
      | Inr resp \<Rightarrow> gp_id resp \<notin> us_id ` set (gw_usage s) \<and> (\<exists>time. gw_usage (fst tr) = gw_usage s @ [usage_of env q time resp]))"

definition logs :: "'x gateway_env \<Rightarrow> gateway_request \<Rightarrow> ('x, gateway_response) gact \<Rightarrow> bool" where
  "logs env q m \<longleftrightarrow> (\<forall>s. recorded_once env q s (m s))"

lemma logs_bind:
  assumes "moves usage_kept m" "\<And>x. logs env q (f x)"
  shows "logs env q (eff_bind m f)"
  unfolding logs_def
proof
  fix s
  obtain t r where m: "m s = (t, r)" by force
  then have u: "gw_usage t = gw_usage s" using movesD [OF assms(1) m] by (simp add: usage_kept_def)
  show "recorded_once env q s (eff_bind m f s)"
  proof (cases r)
    case (Inl e)
    then show ?thesis using m u by (simp add: eff_bind_def recorded_once_def)
  next
    case (Inr x)
    have "recorded_once env q t (f x t)" using assms(2) by (simp add: logs_def)
    then have "recorded_once env q s (f x t)" unfolding recorded_once_def u .
    then show ?thesis using m Inr by (simp add: eff_bind_def)
  qed
qed

lemma logs_row:
  assumes "moves usage_kept m" "\<And>s. \<exists>t. m s = (t, ret ())"
  shows "logs env q (eff_then (record_usage env q resp) (eff_then m (eff_ret resp)))"
  unfolding logs_def
proof
  fix s :: "'a gateway"
  obtain x time where x: "ge_now env (gw_world s) = (x, time)" by force
  define s1 where "s1 = s\<lparr> gw_world := x \<rparr>"
  define s2 where "s2 = s1\<lparr> gw_usage := gw_usage s @ [usage_of env q time resp] \<rparr>"
  obtain t where t: "m s2 = (t, ret ())" using assms(2) by blast
  then have u: "gw_usage t = gw_usage s @ [usage_of env q time resp]" using movesD [OF assms(1) t] by (simp add: usage_kept_def s2_def)
  have rec: "record_usage env q resp s = (if list_ex (\<lambda>u. us_id u = gp_id resp) (gw_usage s) then (s1, raise IntegrityError) else (s2, ret ()))"
    by (simp add: record_usage_def world_def eff_zoom_def reads_def x eff_bind_def s1_def s2_def)
  show "recorded_once env q s (eff_then (record_usage env q resp) (eff_then m (eff_ret resp)) s)"
  proof (cases "list_ex (\<lambda>u. us_id u = gp_id resp) (gw_usage s)")
    case True
    then show ?thesis by (simp add: eff_bind_def rec recorded_once_def s1_def)
  next
    case False
    then have new: "gp_id resp \<notin> us_id ` set (gw_usage s)" by (auto simp: list_ex_iff)
    have "eff_then (record_usage env q resp) (eff_then m (eff_ret resp)) s = (t, ret resp)" using False t by (simp add: eff_bind_def rec)
    then show ?thesis using u new by (auto simp: recorded_once_def)
  qed
qed

lemma note_check_returns: "\<exists>t. note_check i h r s = (t, ret ())"
  by (simp add: note_check_def)

lemma logs_failure: "logs env q (gw_failure env i q code r p latency)"
  unfolding gw_failure_def Let_def
  by (intro logs_bind uk_parts logs_row uk.opt uk.pure) (cases p; simp add: note_check_returns)

lemma logs_success: "logs env q (gw_success env i q r p latency res content)"
  unfolding gw_success_def Let_def by (intro logs_bind uk_parts logs_row note_check_returns)

lemma logs_if: "logs env q m \<Longrightarrow> logs env q k \<Longrightarrow> logs env q (if b then m else k)"
  by simp

lemma logs_opt: "logs env q m \<Longrightarrow> (\<And>x. logs env q (k x)) \<Longrightarrow> logs env q (case v of None \<Rightarrow> m | Some x \<Rightarrow> k x)"
  by (cases v) simp_all

lemma logs_call: "logs env q (gw_call env i q v r p key)"
  unfolding gw_call_def Let_def by (intro logs_bind uk_parts uk_circuit logs_if logs_opt logs_failure logs_success)

text \<open>C31: a call that returns has exactly one row, its own: it carries the identifier of the response, which no row had before, its
  success or error, and the request; a call that raises leaves none.\<close>

theorem every_call_recorded:
  "recorded_once env q s (gw_invoke env q v s)"
proof -
  have "logs env q (gw_invoke env q v)"
    unfolding gw_invoke_def by (intro logs_bind uk_parts uk.rules uk_circuit logs_if logs_opt logs_failure logs_call)
  then show ?thesis by (simp add: logs_def)
qed

subsection \<open>When a model is asked at all\<close>

definition circuit_free :: "'x gateway_env \<Rightarrow> string \<Rightarrow> 'x gateway \<Rightarrow> bool" where
  "circuit_free env i s =
     (case ci_opened (circuit_for i s) of None \<Rightarrow> True | Some t0 \<Rightarrow> ge_reset env \<le> fsub (snd (ge_monotonic env (gw_world s))) t0)"

definition callable :: "'x gateway_env \<Rightarrow> string \<Rightarrow> 'x gateway \<Rightarrow> bool" where
  "callable env route s =
     (case map_of (gw_routes s) route of
        None \<Rightarrow> False
      | Some r \<Rightarrow> mr_enabled r \<and>
          (case map_of (gw_providers s) (mr_provider r) of
             None \<Rightarrow> False
           | Some p \<Rightarrow> pc_enabled p \<and> (case secret_get (pc_secret p) (gw_secrets s) of Inr (Some (c # cs)) \<Rightarrow> circuit_free env (pc_id p) s | _ \<Rightarrow> False)))"

text \<open>The parts of the gateway that do not look at the transport.\<close>

lemma transport_only:
  "ge_sleep (env\<lparr> ge_transport := f \<rparr>) = ge_sleep env" "ge_monotonic (env\<lparr> ge_transport := f \<rparr>) = ge_monotonic env"
  "ge_now (env\<lparr> ge_transport := f \<rparr>) = ge_now env" "ge_gen (env\<lparr> ge_transport := f \<rparr>) = ge_gen env" "ge_hash (env\<lparr> ge_transport := f \<rparr>) = ge_hash env"
  "ge_length (env\<lparr> ge_transport := f \<rparr>) = ge_length env" "ge_threshold (env\<lparr> ge_transport := f \<rparr>) = ge_threshold env"
  "ge_reset (env\<lparr> ge_transport := f \<rparr>) = ge_reset env"
  by simp_all

lemma transport_failure: "gw_failure (env\<lparr> ge_transport := f \<rparr>) i q code r p l = gw_failure env i q code r p l"
  unfolding gw_failure_def record_usage_def usage_of_def transport_only ..

lemma transport_rest:
  "gw_fresh (env\<lparr> ge_transport := f \<rparr>) pre = gw_fresh env pre" "circuit_open (env\<lparr> ge_transport := f \<rparr>) i = circuit_open env i"
  "gateway_request_of (env\<lparr> ge_transport := f \<rparr>) route brain pr = gateway_request_of env route brain pr"
  unfolding gw_fresh_def circuit_open_def gateway_request_of_def transport_only by rule+

lemma circuit_open_result:
  "\<exists>t. circuit_open env i s = (t, ret (\<not> circuit_free env i s))"
  by (auto simp: circuit_open_def circuit_free_def world_def eff_zoom_def reads_def eff_bind_def circuit_for_def put_circuit_def closed_circuit_def
      split: option.split prod.split)

text \<open>An action that refuses: it asks no model, and what it returns is a failure without content.\<close>

definition refuses :: "('x, gateway_response) gact \<Rightarrow> bool" where
  "refuses m \<longleftrightarrow> (\<forall>s t resp. m s = (t, ret resp) \<longrightarrow> \<not> gp_ok resp \<and> gp_content resp = None \<and> gp_error resp \<noteq> None)"

lemma refuses_failure: "refuses (gw_failure env i q code r p l)"
  unfolding refuses_def gw_failure_def Let_def by (auto elim!: eff_bind_cases)

lemma refuses_raise: "refuses (eff_raise e)"
  by (simp add: refuses_def)

lemma blocked_call:
  assumes "\<not> callable env (gq_route q) s"
  shows "\<exists>k u. refuses k \<and> (\<forall>f. gw_invoke (env\<lparr> ge_transport := f \<rparr>) q v s = k u)"
proof -
  define s1 where "s1 = s\<lparr> gw_ids := gw_ids s + 1 \<rparr>"
  define i where "i = ge_gen env ''llm'' (gw_ids s)"
  have fresh: "gw_fresh env ''llm'' s = (s1, ret i)" by (simp add: gw_fresh_def s1_def i_def)
  have same: "gw_routes s1 = gw_routes s" "gw_providers s1 = gw_providers s" "gw_secrets s1 = gw_secrets s" "gw_circuits s1 = gw_circuits s"
    "gw_world s1 = gw_world s"
    by (simp_all add: s1_def)
  have free: "circuit_free env j s1 = circuit_free env j s" for j unfolding circuit_free_def circuit_for_def same ..
  note simps = gw_invoke_def transport_rest transport_failure fresh same eff_bind_def refuses_failure refuses_raise
  show ?thesis
  proof (cases "map_of (gw_routes s) (gq_route q)")
    case None
    then show ?thesis by (intro exI [of _ "gw_failure env i q UNKNOWN_ROUTE None None 0"] exI [of _ s1]) (simp add: simps)
  next
    case r: (Some r)
    show ?thesis
    proof (cases "mr_enabled r")
      case False
      then show ?thesis using r by (intro exI [of _ "gw_failure env i q UNKNOWN_ROUTE (Some r) None 0"] exI [of _ s1]) (simp add: simps)
    next
      case on: True
      show ?thesis
      proof (cases "map_of (gw_providers s) (mr_provider r)")
        case None
        then show ?thesis using r on by (intro exI [of _ "gw_failure env i q NOT_CONFIGURED (Some r) None 0"] exI [of _ s1]) (simp add: simps)
      next
        case p: (Some p)
        show ?thesis
        proof (cases "pc_enabled p")
          case False
          then show ?thesis using r on p by (intro exI [of _ "gw_failure env i q DISABLED_PROVIDER (Some r) (Some p) 0"] exI [of _ s1]) (simp add: simps)
        next
          case en: True
          show ?thesis
          proof (cases "secret_get (pc_secret p) (gw_secrets s)")
            case (Inl e)
            then show ?thesis using r on p en by (intro exI [of _ "eff_raise e"] exI [of _ s1]) (simp add: simps)
          next
            case key: (Inr key)
            show ?thesis
            proof (cases "key = None \<or> key = Some []")
              case True
              then show ?thesis using r on p en key
                by (intro exI [of _ "gw_failure env i q NOT_CONFIGURED (Some r) (Some p) 0"] exI [of _ s1]) (auto simp: simps)
            next
              case False
              then obtain c cs where k: "key = Some (c # cs)" by (cases key; cases "the key") auto
              then have "\<not> circuit_free env (pc_id p) s1" using assms r on p en key by (simp add: callable_def free)
              then obtain u where "circuit_open env (pc_id p) s1 = (u, ret True)" using circuit_open_result [of env "pc_id p" s1] by auto
              then show ?thesis using r on p en key k
                by (intro exI [of _ "gw_failure env i q CIRCUIT_OPEN (Some r) (Some p) 0"] exI [of _ u]) (simp add: simps)
            qed
          qed
        qed
      qed
    qed
  qed
qed

text \<open>A language model is asked only through an enabled route to an enabled provider with a key, and not while the circuit of the
  provider is open. Otherwise the call does the same with every transport, and all that it returns is a failure.\<close>

theorem blocked_call_asks_nobody:
  assumes "\<not> callable env (gq_route q) s"
  shows "gw_invoke (env\<lparr> ge_transport := f \<rparr>) q v s = gw_invoke env q v s \<and>
    (\<forall>t resp. gw_invoke env q v s = (t, ret resp) \<longrightarrow> \<not> gp_ok resp \<and> gp_content resp = None \<and> gp_error resp \<noteq> None)"
proof -
  obtain k u where k: "refuses k" "\<And>f. gw_invoke (env\<lparr> ge_transport := f \<rparr>) q v s = k u" using blocked_call [OF assms] by blast
  from k(2) [of "ge_transport env"] have "gw_invoke env q v s = k u" by simp
  then show ?thesis using k by (auto simp: refuses_def)
qed

subsection \<open>The circuit counts failures\<close>

definition circuits_kept :: "'x gateway \<Rightarrow> 'x gateway \<Rightarrow> bool" where
  "circuits_kept s t \<longleftrightarrow> gw_circuits t = gw_circuits s"

interpretation ci: step_relation circuits_kept
  by unfold_locales (simp_all add: circuits_kept_def)

lemma ci_parts: "moves circuits_kept (world m)" "moves circuits_kept (gw_fresh env p)" "moves circuits_kept (note_check i h r)"
  by (auto simp: world_def gw_fresh_def note_check_def circuits_kept_def moves_def eff_zoom_def split: prod.split)

lemma ci_record: "moves circuits_kept (record_usage env q r)"
  unfolding record_usage_def by (intro ci.bind ci_parts) (simp add: moves_def circuits_kept_def)

lemma ci_failure: "moves circuits_kept (gw_failure env i q code r p l)"
  unfolding gw_failure_def Let_def by (intro ci.rules ci_parts ci_record)

lemma kept_circuits: "moves circuits_kept m \<Longrightarrow> m s = (t, r) \<Longrightarrow> gw_circuits t = gw_circuits s"
  using movesD by (fastforce simp: circuits_kept_def)

text \<open>The circuits of two states agree but for one provider.\<close>

definition others_kept :: "string \<Rightarrow> 'x gateway \<Rightarrow> 'x gateway \<Rightarrow> bool" where
  "others_kept i s t \<longleftrightarrow> (\<forall>j. j \<noteq> i \<longrightarrow> map_of (gw_circuits t) j = map_of (gw_circuits s) j)"

lemma circuit_open_state:
  assumes "circuit_open env i s = (t, ret False)"
  shows "circuit_for i t = (if ci_opened (circuit_for i s) = None then circuit_for i s else closed_circuit) \<and> others_kept i s t"
  using assms
  by (auto simp: circuit_open_def world_def eff_zoom_def reads_def eff_bind_def circuit_for_def put_circuit_def others_kept_def
      split: option.splits prod.splits if_splits)

lemma record_failure_state:
  assumes "record_failure env i s = (t, r)"
  shows "r = ret () \<and> others_kept i s t \<and> ci_failures (circuit_for i t) = ci_failures (circuit_for i s) + 1 \<and>
    (if ge_threshold env \<le> ci_failures (circuit_for i s) + 1 then ci_opened (circuit_for i t) \<noteq> None
     else ci_opened (circuit_for i t) = ci_opened (circuit_for i s))"
  using assms
  by (auto simp: record_failure_def Let_def world_def eff_zoom_def reads_def eff_bind_def circuit_for_def put_circuit_def others_kept_def
      split: prod.splits if_splits)

lemma circuit_for_kept: "gw_circuits t = gw_circuits s \<Longrightarrow> circuit_for i t = circuit_for i s"
  by (simp add: circuit_for_def)

text \<open>What a call leaves of the circuits, from the circuit that it starts with.\<close>

definition counted :: "'x gateway_env \<Rightarrow> string \<Rightarrow> circuit \<Rightarrow> gateway_response \<Rightarrow> 'x gateway \<Rightarrow> bool" where
  "counted env i c resp t \<longleftrightarrow>
     (if gp_ok resp then circuit_for i t = closed_circuit
      else ci_failures (circuit_for i t) = ci_failures c + 1 \<and>
        (if ge_threshold env \<le> ci_failures c + 1 then ci_opened (circuit_for i t) \<noteq> None else ci_opened (circuit_for i t) = ci_opened c))"

lemma failing_call:
  assumes "eff_then (record_failure env i) (gw_failure env n q code r p l) s = (t, ret resp)"
  shows "counted env i (circuit_for i s) resp t \<and> others_kept i s t"
proof -
  obtain s1 where 1: "record_failure env i s = (s1, ret ())" "gw_failure env n q code r p l s1 = (t, ret resp)"
    using assms by (cases rule: eff_bind_cases) auto
  have "gw_circuits t = gw_circuits s1" using kept_circuits [OF ci_failure 1(2)] .
  moreover have "\<not> gp_ok resp" using refuses_failure 1(2) unfolding refuses_def by blast
  ultimately show ?thesis using record_failure_state [OF 1(1)] circuit_for_kept [of t s1 i] by (simp add: counted_def others_kept_def)
qed

lemma success_circuits:
  assumes "gw_success env i q r p l res content s = (t, ret resp)"
  shows "counted env (pc_id p) c resp t \<and> others_kept (pc_id p) s t"
proof -
  let ?rest = "\<lambda>t. let resp = \<lparr> gp_id = i, gp_ok = True, gp_route = gq_route q, gp_provider = pc_id p, gp_model = mr_model r, gp_content = Some content,
       gp_latency = l, gp_tokens = pr_tokens res, gp_error = None, gp_checked = iso_text t \<rparr>
       in eff_then (record_usage env q resp) (eff_then (note_check (pc_id p) True resp) (eff_ret resp))"
  have eq: "eff_bind (world (reads (ge_now env))) ?rest (put_circuit (pc_id p) closed_circuit s) = (t, ret resp)"
    using assms by (simp add: gw_success_def)
  have "moves circuits_kept (eff_bind (world (reads (ge_now env))) ?rest)" unfolding Let_def by (intro ci.rules ci_parts ci_record)
  from kept_circuits [OF this eq] have "gw_circuits t = AList.update (pc_id p) closed_circuit (gw_circuits s)" by (simp add: put_circuit_def)
  moreover have "gp_ok resp" using eq by (auto simp: Let_def elim!: eff_bind_cases)
  ultimately show ?thesis by (simp add: counted_def others_kept_def circuit_for_def)
qed

lemma call_circuits:
  assumes "gw_call env i q v r p key s = (t, ret resp)"
  shows "counted env (pc_id p) (circuit_for (pc_id p) s) resp t \<and> others_kept (pc_id p) s t"
proof -
  from assms obtain s1 s2 s3 started res ended where w: "world (reads (ge_monotonic env)) s = (s1, ret started)"
    "world (gw_attempts env p r key (gq_prompt q) 0 (pc_retries p)) s1 = (s2, ret res)" "world (reads (ge_monotonic env)) s2 = (s3, ret ended)"
    and rest: "(let latency = fmul (fsub ended started) 1000; fail = (\<lambda>code. gw_failure env i q code (Some r) (Some p) latency) in
      if \<not> pr_ok res then eff_then (record_failure env (pc_id p)) (fail (case pr_error res of Some c \<Rightarrow> c | None \<Rightarrow> PROVIDER_UNAVAILABLE))
      else (case answer_content v res of None \<Rightarrow> eff_then (record_failure env (pc_id p)) (fail INVALID_RESPONSE)
         | Some content \<Rightarrow> gw_success env i q r p latency res content)) s3 = (t, ret resp)"
    unfolding gw_call_def by (elim eff_bind_cases) blast+
  have k: "gw_circuits s3 = gw_circuits s" using kept_circuits [OF ci_parts(1) w(1)] kept_circuits [OF ci_parts(1) w(2)] kept_circuits [OF ci_parts(1) w(3)] by simp
  have "counted env (pc_id p) (circuit_for (pc_id p) s3) resp t \<and> others_kept (pc_id p) s3 t"
    using rest by (auto simp: Let_def split: if_splits option.splits dest!: failing_call success_circuits [where c = "circuit_for (pc_id p) s3"])
  then show ?thesis using k by (simp add: others_kept_def circuit_for_kept [OF k])
qed

text \<open>C18: a call that reaches a provider and returns closes its circuit when it succeeds; when it fails it adds one to the failures since the
  last success or reset, and opens the circuit exactly when the threshold is reached. The circuits of other providers stay as they are.\<close>

theorem circuit_counts_failures:
  assumes "gw_invoke env q v s = (t, ret resp)" "callable env (gq_route q) s"
    "map_of (gw_routes s) (gq_route q) = Some r" "map_of (gw_providers s) (mr_provider r) = Some p"
  shows "counted env (pc_id p) (if ci_opened (circuit_for (pc_id p) s) = None then circuit_for (pc_id p) s else closed_circuit) resp t \<and>
    others_kept (pc_id p) s t"
proof -
  define s1 where "s1 = s\<lparr> gw_ids := gw_ids s + 1 \<rparr>"
  define i where "i = ge_gen env ''llm'' (gw_ids s)"
  have fresh: "gw_fresh env ''llm'' s = (s1, ret i)" by (simp add: gw_fresh_def s1_def i_def)
  have same: "gw_routes s1 = gw_routes s" "gw_providers s1 = gw_providers s" "gw_secrets s1 = gw_secrets s" "gw_circuits s1 = gw_circuits s"
    "gw_world s1 = gw_world s"
    by (simp_all add: s1_def)
  have free: "circuit_free env j s1 = circuit_free env j s" for j unfolding circuit_free_def circuit_for_def same ..
  obtain c cs where on: "mr_enabled r" "pc_enabled p" "secret_get (pc_secret p) (gw_secrets s) = ret (Some (c # cs))" "circuit_free env (pc_id p) s1"
    using assms(2-4) by (auto simp: callable_def free split: sum.splits option.splits list.splits)
  obtain u where u: "circuit_open env (pc_id p) s1 = (u, ret False)" using circuit_open_result [of env "pc_id p" s1] on(4) by auto
  then have "gw_call env i q v r p (c # cs) u = (t, ret resp)"
    using assms(1,3,4) on by (simp add: gw_invoke_def eff_bind_def fresh same)
  from call_circuits [OF this] circuit_open_state [OF u] circuit_for_kept [OF same(4), of "pc_id p"] show ?thesis
    by (auto simp: others_kept_def same(4) split: if_splits)
qed

subsection \<open>Attempts\<close>

text \<open>The same environment over a world that counts the calls of the transport.\<close>

definition counting :: "'x gateway_env \<Rightarrow> ('x \<times> nat) gateway_env" where
  "counting env =
     \<lparr> ge_transport = (\<lambda>p r key pr w. case ge_transport env p r key pr (fst w) of (y, res) \<Rightarrow> ((y, snd w + 1), res)),
       ge_sleep = (\<lambda>d w. case ge_sleep env d (fst w) of (y, res) \<Rightarrow> ((y, snd w), res)),
       ge_monotonic = (\<lambda>w. case ge_monotonic env (fst w) of (y, t) \<Rightarrow> ((y, snd w), t)),
       ge_now = (\<lambda>w. case ge_now env (fst w) of (y, t) \<Rightarrow> ((y, snd w), t)), ge_gen = ge_gen env, ge_hash = ge_hash env, ge_length = ge_length env,
       ge_threshold = ge_threshold env, ge_reset = ge_reset env \<rparr>"

text \<open>A call tries its provider at least once and at most once more than the configured number of retries, and it gives up on a
  failure that may pass only after all of them.\<close>

theorem attempts_bounded:
  assumes "gw_attempts (counting env) p r key pr a k (x, n) = ((y, m), res)"
  shows "n < m \<and> m \<le> n + k + 1 \<and> (\<forall>z. res = ret z \<longrightarrow> \<not> pr_ok z \<longrightarrow> pr_retryable z \<longrightarrow> m = n + k + 1)"
  using assms
proof (induction k arbitrary: a x n)
  case 0
  then show ?case by (auto simp: counting_def split: prod.splits)
next
  case (Suc k)
  obtain x1 r1 where 1: "ge_transport env p r key pr x = (x1, r1)" by force
  then have t: "ge_transport (counting env) p r key pr (x, n) = ((x1, Suc n), r1)" by (simp add: counting_def)
  show ?case
  proof (cases r1)
    case (Inl e)
    then show ?thesis using Suc.prems by (auto simp: eff_bind_def t)
  next
    case (Inr z)
    show ?thesis
    proof (cases "pr_ok z \<or> \<not> pr_retryable z")
      case True
      then show ?thesis using Suc.prems Inr by (auto simp: eff_bind_def t)
    next
      case False
      define wait where "wait = min 2 (fmul (fround (1 / 10)) (2 ^ a))"
      obtain x2 r2 where 2: "ge_sleep env wait x1 = (x2, r2)" by force
      have s: "ge_sleep (counting env) wait (x1, Suc n) = ((x2, Suc n), r2)" by (simp add: counting_def 2)
      show ?thesis
      proof (cases r2)
        case (Inl e)
        then show ?thesis using Suc.prems Inr False by (auto simp: eff_bind_def t s wait_def [symmetric])
      next
        case two: (Inr u)
        then have "gw_attempts (counting env) p r key pr (Suc a) k (x2, Suc n) = ((y, m), res)"
          using Suc.prems Inr False by (simp add: eff_bind_def t s wait_def [symmetric])
        from Suc.IH [OF this] show ?thesis by auto
      qed
    qed
  qed
qed

subsection \<open>What the chief trader makes of a refusal\<close>

lemma callable_ids: "callable env route (s\<lparr> gw_ids := n \<rparr>) = callable env route s"
proof -
  have same: "gw_routes (s\<lparr> gw_ids := n \<rparr>) = gw_routes s" "gw_providers (s\<lparr> gw_ids := n \<rparr>) = gw_providers s"
    "gw_secrets (s\<lparr> gw_ids := n \<rparr>) = gw_secrets s" "gw_circuits (s\<lparr> gw_ids := n \<rparr>) = gw_circuits s" "gw_world (s\<lparr> gw_ids := n \<rparr>) = gw_world s"
    by simp_all
  show ?thesis unfolding callable_def circuit_free_def circuit_for_def same ..
qed

lemma domain_refuses:
  assumes "\<not> callable env route s"
  shows "domain_invoke (env\<lparr> ge_transport := f \<rparr>) route c v s = domain_invoke env route c v s \<and>
    (\<forall>t resp. domain_invoke env route c v s = (t, ret resp) \<longrightarrow> \<not> gp_ok resp \<and> gp_content resp = None)"
proof -
  define fresh where "fresh = (if route = ''live_analysis'' then eff_bind (gw_fresh env ''dec'') (\<lambda>i. eff_ret (Some i)) else eff_ret None)"
  obtain u i where u: "fresh s = (u, ret i)" "\<not> callable env route u"
    using assms by (cases "route = ''live_analysis''") (simp_all add: fresh_def gw_fresh_def eff_bind_def callable_ids)
  show ?thesis
  proof (cases "profile_for_route route")
    case (Inl e)
    then show ?thesis by (simp add: domain_invoke_def eff_bind_def)
  next
    case profile: (Inr profile)
    have rest: "domain_invoke (env\<lparr> ge_transport := f \<rparr>) route c v s =
        eff_bind (eff_lift (gateway_request_of env route (dp_brain profile) (DomainPrompt profile c i))) (\<lambda>q. gw_invoke (env\<lparr> ge_transport := f \<rparr>) q (Some v)) u" for f
      unfolding domain_invoke_def transport_rest fresh_def [symmetric] by (simp add: profile transport_rest u(1))
    show ?thesis
    proof (cases "gateway_request_of env route (dp_brain profile) (DomainPrompt profile c i)")
      case (Inl e)
      then show ?thesis using rest [of f] rest [of "ge_transport env"] by (simp add: eff_bind_def)
    next
      case (Inr q)
      then have "gq_route q = route" by (auto simp: gateway_request_of_def split: if_splits)
      with u(2) have "\<not> callable env (gq_route q) u" by simp
      from blocked_call_asks_nobody [OF this, of f "Some v"] show ?thesis
        using rest [of f] rest [of "ge_transport env"] Inr by (simp add: eff_bind_def)
    qed
  qed
qed

text \<open>C25: while no model may be asked, because a route, a provider or its key is missing or the circuit is open, the chief trader decides
  not to trade, with the same decision for every model behind the gateway.\<close>

theorem blocked_gateway_no_trade:
  assumes "\<not> callable env route s"
  shows "chief_decide (Some (gateway_provider (env\<lparr> ge_transport := f \<rparr>) v route)) validate clock cc s =
      chief_decide (Some (gateway_provider env v route)) validate clock cc s \<and>
    (\<forall>t d. chief_decide (Some (gateway_provider env v route)) validate clock cc s = (t, ret d) \<longrightarrow>
      de_action d = ''NO_TRADE'' \<and> de_reasons d = [''LLM_UNAVAILABLE''])"
proof -
  define c where "c = domain_model_context cc"
  note r = domain_refuses [OF assms, of f c v]
  have ask: "ask (Some (gateway_provider e v route)) cc s = (case domain_invoke e route c v s of
      (t, Inl x) \<Rightarrow> (t, Inl x) | (t, Inr resp) \<Rightarrow> (t, ret (Some (chief_response resp))))" for e
    by (auto simp: ask_def gateway_provider_def Let_def eff_bind_def c_def split: prod.split sum.split)
  then have same: "ask (Some (gateway_provider (env\<lparr> ge_transport := f \<rparr>) v route)) cc s = ask (Some (gateway_provider env v route)) cc s" using r by simp
  have "usable_answer a = None" if "ask (Some (gateway_provider env v route)) cc s = (t, ret a)" for t a
    using that r by (auto simp: ask usable_answer_def chief_response_def split: prod.splits sum.splits)
  then show ?thesis unfolding chief_decide_def
    by (auto simp: eff_bind_def same no_answer_def new_decision_def Let_def split: prod.splits sum.splits option.splits)
qed

subsection \<open>A test leaves the routes as they are\<close>

definition routes_kept :: "'x gateway \<Rightarrow> 'x gateway \<Rightarrow> bool" where
  "routes_kept s t \<longleftrightarrow> gw_routes t = gw_routes s"

interpretation rk: step_relation routes_kept
  by unfold_locales (simp_all add: routes_kept_def)

lemma rk_parts: "moves routes_kept (world m)" "moves routes_kept (gw_fresh env p)" "moves routes_kept (note_check i h r)"
  "moves routes_kept (eff_mod (put_circuit i c))" "moves routes_kept (\<lambda>s. (s, g s))" "moves routes_kept (record_usage env q resp)"
  by (auto simp: world_def gw_fresh_def note_check_def put_circuit_def routes_kept_def moves_def eff_zoom_def record_usage_def eff_bind_def
      split: prod.split sum.split)

lemma rk_failure: "moves routes_kept (gw_failure env i q code r p l)"
  unfolding gw_failure_def Let_def by (intro rk.rules rk_parts)

lemma rk_invoke: "moves routes_kept (gw_invoke env q v)"
proof -
  have "moves routes_kept (circuit_open env i)" "moves routes_kept (record_failure env i)" for i
    unfolding circuit_open_def record_failure_def Let_def by (intro rk.rules rk_parts)+
  moreover from this have "moves routes_kept (gw_call env i q v r p key)" for i r p key
    unfolding gw_call_def gw_success_def Let_def by (intro rk.rules rk_parts rk_failure)
  ultimately show ?thesis unfolding gw_invoke_def by (intro rk.rules rk_parts rk_failure)
qed

text \<open>Whatever a test of a provider returns or raises, every route leads where it led before, the route of the test included.\<close>

theorem provider_test_keeps_routes:
  "map_of (gw_routes (fst (test_provider env health i s))) = map_of (gw_routes s)"
proof (cases "map_of (gw_providers s) i")
  case None
  have "moves routes_kept (eff_bind (gw_fresh env ''llm'') (\<lambda>n. eff_bind (world (reads (ge_now env))) (\<lambda>t. eff_ret (k n t))))"
    for k :: "string \<Rightarrow> usec \<Rightarrow> gateway_response" by (intro rk.rules rk_parts)
  then show ?thesis using None by (simp add: test_provider_def moves_def routes_kept_def)
next
  case (Some p)
  define m where "m = eff_bind (eff_lift (gateway_request_of env ''provider_test'' ''LIVE'' (PromptText (''Return exactly one JSON object: '' @ ok_json))))
    (\<lambda>q. gw_invoke env q (Some health))"
  define s1 where "s1 = s\<lparr> gw_routes := AList.update ''provider_test'' (test_route i (pc_model p) (pc_timeout p)) (gw_routes s) \<rparr>"
  have "moves routes_kept m" unfolding m_def by (intro rk.rules rk_invoke)
  then have "gw_routes (fst (m s1)) = gw_routes s1" by (simp add: moves_def routes_kept_def)
  then have r: "gw_routes (fst (m s1)) = AList.update ''provider_test'' (test_route i (pc_model p) (pc_timeout p)) (gw_routes s)" by (simp add: s1_def)
  have "test_provider env health i s = (case m s1 of (t, r) \<Rightarrow> (t\<lparr> gw_routes := (case map_of (gw_routes s) ''provider_test'' of
      None \<Rightarrow> AList.delete ''provider_test'' (gw_routes t) | Some old \<Rightarrow> AList.update ''provider_test'' old (gw_routes t)) \<rparr>, r))"
    by (simp add: test_provider_def Some m_def s1_def)
  then show ?thesis using r by (cases "m s1") (auto split: option.split)
qed

subsection \<open>Keys\<close>

lemma read_written: "secret_write kvs s = ret t \<Longrightarrow> secret_read_all t = ret kvs"
  by (auto simp: secret_write_def secret_fernet_def secret_read_all_def rbind_eq_Inr secret_error_def split: if_splits)

text \<open>A key that was stored is read back as it is, and every other key is read as before; a key that was deleted is gone.\<close>

theorem key_store_roundtrip:
  assumes "secret_set k v s = ret t" "secret_delete j t = ret u"
  shows "secret_get k t = ret (Some v) \<and> (\<forall>l. l \<noteq> k \<longrightarrow> secret_get l t = secret_get l s) \<and>
    secret_get j u = ret None \<and> (\<forall>l. l \<noteq> j \<longrightarrow> secret_get l u = secret_get l t)"
proof -
  obtain kvs where v: "secret_read_all s = ret kvs" "secret_write (AList.update k v kvs) s = ret t"
    using assms(1) by (auto simp: secret_set_def rbind_eq_Inr split: if_splits)
  have t: "secret_read_all t = ret (AList.update k v kvs)" using read_written [OF v(2)] .
  have "secret_read_all u = ret (if map_of (AList.update k v kvs) j = None then AList.update k v kvs else AList.delete j (AList.update k v kvs))"
    using assms(2) t read_written [of _ t u] by (auto simp: secret_delete_def split: if_splits)
  then show ?thesis using v(1) t by (simp add: secret_get_def split: if_splits)
qed

text \<open>The mask of a short key shows the key.\<close>

lemma short_key_shown: "length k = 4 \<Longrightarrow> secret_mask (Some k) = Some (''***'' @ k)"
  by (auto simp: secret_mask_def Let_def last_chars_def)

subsection \<open>Saving\<close>

lemma upserted: "c \<in> set (upsert_row f c rows)" "r \<in> set (upsert_row f c rows) \<Longrightarrow> f r = f c \<Longrightarrow> r = c"
  by (auto simp: upsert_row_def list_ex_iff split: if_splits)

lemma loaded:
  assumes "\<forall>r \<in> set rows. f r = f c \<longrightarrow> r = c" "c \<in> set rows"
  shows "map_of (foldl (\<lambda>d r. AList.update (f r) r d) d0 rows) (f c) = Some c"
  using assms
proof (induction rows rule: rev_induct)
  case (snoc x rows)
  show ?case
  proof (cases "f x = f c")
    case True
    then show ?thesis using snoc.prems by simp
  next
    case False
    then show ?thesis using snoc by auto
  qed
qed simp

text \<open>Replacing the routes never takes one away.\<close>

lemma routes_remain:
  assumes "save_routes rs s = (t, ret out)" "r \<in> set (gw_route_rows s)" "\<forall>x \<in> set rs. mr_name x \<noteq> mr_name r"
  shows "r \<in> set (gw_route_rows t)"
proof -
  have step: "r \<in> set rows \<Longrightarrow> \<forall>x \<in> set rs. mr_name x \<noteq> mr_name r \<Longrightarrow> r \<in> set (foldl (\<lambda>rows x. upsert_row mr_name x rows) rows rs)" for rows
    by (induction rs arbitrary: rows) (auto simp: upsert_row_def image_iff)
  have "gw_route_rows t = foldl (\<lambda>rows x. upsert_row mr_name x rows) (gw_route_rows s) rs"
    using assms(1) by (auto simp: save_routes_def db_replace_routes_def reload_def eff_bind_def split: option.splits)
  then show ?thesis using step assms(2,3) by simp
qed

text \<open>A provider that was saved with a key is the one that is used from then on: memory holds its configuration with a secure
  address, and its key is found where the configuration says.\<close>

theorem saved_provider_used:
  assumes "save_provider u s = (t, ret view)" "pu_key u = Some key" "key \<noteq> []"
  shows "\<exists>c. map_of (gw_providers t) (pu_id u) = Some c \<and> secret_get (pc_secret c) (gw_secrets t) = ret (Some key) \<and> secure_base_url (pu_url u) = ret (pc_url c) \<and>
    pc_enabled c = pu_enabled u \<and> sv_configured view"
proof -
  define existing where "existing = List.find (\<lambda>r. pc_id r = pu_id u) (gw_provider_rows s)"
  define secret where "secret = (case existing of Some c \<Rightarrow> pc_secret c | None \<Rightarrow> ''llm:'' @ pu_id u @ '':api-key'')"
  obtain k ks where key: "key = k # ks" using assms(3) by (cases key) auto
  have "db_get_provider (pu_id u) s = (s, ret existing)" by (simp add: db_get_provider_def existing_def)
  with assms(1,2) obtain s1 c s2 s3 where
    1: "gw_keys (secret_set secret key) s = (s1, ret ())" and
    2: "provider_config_of u secret = ret c" "db_upsert_provider c s1 = (s2, ret ())" "reload s2 = (s3, ret ())" "t = s3" "safe_provider c s3 = ret view"
    unfolding save_provider_def key secret_def by (auto simp: key eff_bind_def Let_def split: prod.splits sum.splits)
  obtain ss where ss: "secret_set secret key (gw_secrets s) = ret ss" "s1 = s\<lparr> gw_secrets := ss \<rparr>" using 1 by (auto simp: gw_keys_def split: sum.splits)
  have c: "pc_id c = pu_id u" "pc_secret c = secret" "secure_base_url (pu_url u) = ret (pc_url c)" "pc_enabled c = pu_enabled u"
    using 2(1) by (auto simp: provider_config_of_def rbind_eq_Inr)
  have s2: "gw_provider_rows s2 = upsert_row pc_id c (gw_provider_rows s1)" "gw_secrets s2 = ss"
    using 2(2) ss(2) by (auto simp: db_upsert_provider_def split: if_splits)
  have t: "gw_providers t = foldl (\<lambda>d c. AList.update (pc_id c) c d) [] (gw_provider_rows s2)" "gw_secrets t = ss"
    using 2(3,4) s2(2) by (auto simp: reload_def)
  have "map_of (gw_providers t) (pu_id u) = Some c"
    unfolding t(1) s2(1) c(1) [symmetric] by (rule loaded) (auto simp: upserted dest: upserted(2))
  moreover have g: "secret_get secret ss = ret (Some key)"
  proof -
    obtain kvs where "secret_write (AList.update secret key kvs) (gw_secrets s) = ret ss"
      using ss(1) by (auto simp: secret_set_def rbind_eq_Inr split: if_splits)
    from read_written [OF this] show ?thesis by (simp add: secret_get_def)
  qed
  moreover have "sv_configured view" using 2(5) g c(2) 2(4) t(2) assms(3) by (auto simp: safe_provider_def)
  ultimately show ?thesis using c t(2) by auto
qed

subsection \<open>Examples\<close>

text \<open>A provider whose every answer is late; its world counts the readings of its clock.\<close>

definition ex_late :: provider_result where
  "ex_late = \<lparr> pr_ok = False, pr_content = None, pr_tokens = (0, 0, 0), pr_error = Some TIMEOUT, pr_retryable = True \<rparr>"

definition ex_gateway_env :: "nat gateway_env" where
  "ex_gateway_env = \<lparr> ge_transport = (\<lambda>p r key pr x. (x, ret ex_late)), ge_sleep = (\<lambda>d x. (x, ret ())), ge_monotonic = (\<lambda>x. (x + 1, of_nat x)),
     ge_now = (\<lambda>x. (x, 0)), ge_gen = (\<lambda>p n. p @ int_digits (int n)), ge_hash = (\<lambda>p. ''h''), ge_length = (\<lambda>p. 10), ge_threshold = 1, ge_reset = 60 \<rparr>"

definition ex_provider_config :: provider_config where
  "ex_provider_config = \<lparr> pc_id = ''p'', pc_type = ''custom'', pc_name = ''P'', pc_url = ''https://p'', pc_secret = ''llm:p:api-key'', pc_model = ''m'',
     pc_enabled = True, pc_timeout = 30, pc_retries = 0 \<rparr>"

definition ex_model_route :: model_route where
  "ex_model_route = \<lparr> mr_name = ''live_analysis'', mr_provider = ''p'', mr_model = ''m'', mr_enabled = True, mr_temperature = 0, mr_tokens = 800, mr_timeout = 30 \<rparr>"

definition ex_gateway :: "nat gateway" where
  "ex_gateway = \<lparr> gw_world = 0, gw_providers = [(''p'', ex_provider_config)], gw_routes = [(''live_analysis'', ex_model_route)], gw_circuits = [], gw_checks = [],
     gw_secrets = \<lparr> ss_file = Some [(''llm:p:api-key'', ''key'')], ss_private = True, ss_readable = True, ss_master = True, ss_master_private = True \<rparr>,
     gw_provider_rows = [ex_provider_config], gw_route_rows = [ex_model_route], gw_usage = [], gw_ids = 0 \<rparr>"

definition ex_gateway_request :: gateway_request where
  "ex_gateway_request = \<lparr> gq_route = ''live_analysis'', gq_brain = ''LIVE'', gq_prompt = PromptText ''hello'', gq_correlation = None \<rparr>"

definition ex_open :: "nat gateway" where
  "ex_open = ex_gateway\<lparr> gw_circuits := [(''p'', \<lparr> ci_failures = 1, ci_opened = Some 0 \<rparr>)], gw_world := 5 \<rparr>"

lemma ex_blocked: "\<not> callable ex_gateway_env ''live_analysis'' ex_open" "gq_route ex_gateway_request = ''live_analysis''"
  by code_simp+

lemma ex_ids: "gw_ids ex_open = 0" "ge_gen ex_gateway_env ''dec'' 0 = ''dec0''" "ge_length ex_gateway_env pr = 10"
  by (simp add: ex_open_def ex_gateway_def) (code_simp, simp add: ex_gateway_env_def)

lemma failure_returns: "gw_usage s = [] \<Longrightarrow> \<exists>t resp. gw_failure env i q code r p l s = (t, ret resp)"
  by (cases p) (auto simp: gw_failure_def record_usage_def note_check_def world_def eff_zoom_def reads_def eff_bind_def Let_def split: prod.split)

lemma ex_refused:
  assumes "gq_route q = ''live_analysis''"
  shows "\<exists>t resp. gw_invoke ex_gateway_env q v (ex_open\<lparr> gw_ids := n \<rparr>) = (t, ret resp)"
proof -
  define s1 where "s1 = ex_open\<lparr> gw_ids := n + 1 \<rparr>"
  have "circuit_free ex_gateway_env ''p'' ex_open = False" by code_simp
  moreover have "circuit_free ex_gateway_env ''p'' s1 = circuit_free ex_gateway_env ''p'' ex_open"
  proof -
    have "gw_circuits s1 = gw_circuits ex_open" "gw_world s1 = gw_world ex_open" by (simp_all add: s1_def)
    then show ?thesis unfolding circuit_free_def circuit_for_def by metis
  qed
  ultimately obtain u where u: "circuit_open ex_gateway_env ''p'' s1 = (u, ret True)" using circuit_open_result [of ex_gateway_env "''p''" s1] by auto
  have "gw_usage u = []" using movesD [OF uk_circuit(1) u] by (simp add: usage_kept_def s1_def ex_open_def ex_gateway_def)
  from failure_returns [OF this] obtain t resp where
    t: "gw_failure ex_gateway_env (ge_gen ex_gateway_env ''llm'' n) q CIRCUIT_OPEN (Some ex_model_route) (Some ex_provider_config) 0 u = (t, ret resp)" by blast
  have l: "map_of (gw_routes s1) ''live_analysis'' = Some ex_model_route" "mr_enabled ex_model_route" "mr_provider ex_model_route = ''p''"
    "map_of (gw_providers s1) ''p'' = Some ex_provider_config" "pc_enabled ex_provider_config" "pc_id ex_provider_config = ''p''"
    "gw_secrets s1 = gw_secrets ex_gateway" "pc_secret ex_provider_config = ''llm:p:api-key''"
    by (simp_all add: s1_def ex_open_def ex_gateway_def ex_model_route_def ex_provider_config_def)
  have key: "secret_get ''llm:p:api-key'' (gw_secrets ex_gateway) = ret (Some ''key'')" by code_simp
  have "gw_fresh ex_gateway_env ''llm'' (ex_open\<lparr> gw_ids := n \<rparr>) = (s1, ret (ge_gen ex_gateway_env ''llm'' n))" by (simp add: gw_fresh_def s1_def)
  then have "gw_invoke ex_gateway_env q v (ex_open\<lparr> gw_ids := n \<rparr>) = (t, ret resp)"
    by (simp add: gw_invoke_def eff_bind_def assms l key u t)
  then show ?thesis by blast
qed

theorem blocked_call_asks_nobody_witness:
  "gw_invoke (ex_gateway_env\<lparr> ge_transport := \<lambda>p r key pr x. (x, ret (ex_late\<lparr> pr_ok := True \<rparr>)) \<rparr>) ex_gateway_request None ex_open =
     gw_invoke ex_gateway_env ex_gateway_request None ex_open"
  using blocked_call_asks_nobody [of ex_gateway_env ex_gateway_request ex_open] ex_blocked by simp

theorem circuit_counts_failures_witness:
  "\<exists>t resp. gw_invoke ex_gateway_env ex_gateway_request None ex_gateway = (t, ret resp) \<and> \<not> gp_ok resp \<and> ci_opened (circuit_for ''p'' t) \<noteq> None"
proof -
  define s1 where "s1 = ex_gateway\<lparr> gw_ids := 1 \<rparr>"
  define i where "i = ge_gen ex_gateway_env ''llm'' 0"
  have l: "map_of (gw_routes s1) ''live_analysis'' = Some ex_model_route" "mr_enabled ex_model_route" "mr_provider ex_model_route = ''p''"
    "map_of (gw_providers s1) ''p'' = Some ex_provider_config" "pc_enabled ex_provider_config" "pc_id ex_provider_config = ''p''"
    "gw_secrets s1 = gw_secrets ex_gateway" "pc_secret ex_provider_config = ''llm:p:api-key''" "pc_retries ex_provider_config = 0"
    "gq_route ex_gateway_request = ''live_analysis''"
    by (simp_all add: s1_def ex_gateway_def ex_model_route_def ex_provider_config_def ex_gateway_request_def)
  have key: "secret_get ''llm:p:api-key'' (gw_secrets ex_gateway) = ret (Some ''key'')" by code_simp
  have fresh: "gw_fresh ex_gateway_env ''llm'' ex_gateway = (s1, ret i)" by (simp add: gw_fresh_def s1_def i_def ex_gateway_def)
  define u where "u = put_circuit ''p'' closed_circuit s1"
  have "gw_circuits s1 = []" by (simp add: s1_def ex_gateway_def)
  then have u: "circuit_open ex_gateway_env ''p'' s1 = (u, ret False)" by (simp add: circuit_open_def circuit_for_def closed_circuit_def u_def)
  define k where "k = gw_failure ex_gateway_env i ex_gateway_request TIMEOUT (Some ex_model_route) (Some ex_provider_config)"
  obtain u1 lat where call: "gw_call ex_gateway_env i ex_gateway_request None ex_model_route ex_provider_config ''key'' u =
      eff_then (record_failure ex_gateway_env ''p'') (k lat) u1" "gw_usage u1 = gw_usage u"
  proof -
    define u1 where "u1 = u\<lparr> gw_world := gw_world u + 2 \<rparr>"
    have "gw_call ex_gateway_env i ex_gateway_request None ex_model_route ex_provider_config ''key'' u =
      eff_then (record_failure ex_gateway_env ''p'') (k (fmul (fsub (of_nat (gw_world u + 1)) (of_nat (gw_world u))) 1000)) u1"
    proof -
      have "world (reads (ge_monotonic ex_gateway_env)) w = (w\<lparr> gw_world := gw_world w + 1 \<rparr>, ret (of_nat (gw_world w)))" for w
        by (simp add: world_def eff_zoom_def reads_def ex_gateway_env_def)
      moreover have "world (gw_attempts ex_gateway_env p r key pr 0 0) w = (w, ret ex_late)" for p r key pr w
        by (simp add: world_def eff_zoom_def ex_gateway_env_def)
      moreover have "\<not> pr_ok ex_late" "pr_error ex_late = Some TIMEOUT" by (simp_all add: ex_late_def)
      ultimately show ?thesis by (simp add: gw_call_def eff_bind_def l Let_def k_def u1_def)
    qed
    then show ?thesis by (intro that [of _ u1]) (simp_all add: u1_def)
  qed
  obtain u2 where u2: "record_failure ex_gateway_env ''p'' u1 = (u2, ret ())"
    using record_failure_state by (cases "record_failure ex_gateway_env ''p'' u1") blast
  have "gw_usage u2 = []" using movesD [OF uk_circuit(2) u2] call(2) by (simp add: usage_kept_def u_def s1_def put_circuit_def ex_gateway_def)
  then obtain t resp where t: "k lat u2 = (t, ret resp)" unfolding k_def using failure_returns by blast
  have r: "gw_invoke ex_gateway_env ex_gateway_request None ex_gateway = (t, ret resp)"
    by (simp add: gw_invoke_def eff_bind_def fresh l key u call(1) u2 t)
  have no: "\<not> gp_ok resp" using t refuses_failure unfolding refuses_def k_def by blast
  have c: "callable ex_gateway_env (gq_route ex_gateway_request) ex_gateway" by code_simp
  have m: "map_of (gw_routes ex_gateway) (gq_route ex_gateway_request) = Some ex_model_route"
    "map_of (gw_providers ex_gateway) (mr_provider ex_model_route) = Some ex_provider_config"
    by (simp_all add: ex_gateway_def ex_gateway_request_def ex_model_route_def)
  have "pc_id ex_provider_config = ''p''" "circuit_for ''p'' ex_gateway = closed_circuit"
    by (simp_all add: ex_provider_config_def circuit_for_def ex_gateway_def)
  note e = this
  have "counted ex_gateway_env ''p'' closed_circuit resp t" using circuit_counts_failures [OF r c m] unfolding e by simp
  then show ?thesis using r no by (auto simp: counted_def ex_gateway_env_def)
qed

theorem attempts_bounded_witness:
  "\<exists>y m. gw_attempts (counting ex_gateway_env) ex_provider_config ex_model_route ''key'' (PromptText ''hello'') 0 2 (0, 0) = ((y, m), ret ex_late) \<and> m = 3"
proof -
  have late: "gw_attempts (counting ex_gateway_env) p r key pr a k (x, n) = ((x, n + k + 1), ret ex_late)" for p r key pr a k x n
    by (induction k arbitrary: a n) (simp_all add: counting_def ex_gateway_env_def ex_late_def eff_bind_def)
  from attempts_bounded [OF late [of ex_provider_config ex_model_route "''key''" "PromptText ''hello''" 0 2 0 0]] late show ?thesis
    by (auto simp: ex_late_def)
qed

theorem blocked_gateway_no_trade_witness:
  "\<exists>t d. chief_decide (Some (gateway_provider ex_gateway_env Some ''live_analysis'')) (\<lambda>m. raise ValueError) (\<lambda>s. (s, 0))
       \<lparr> kx_symbol = ''BTCUSDT'', kx_market = [], kx_regime = ''RANGE'', kx_portfolio = [], kx_intelligence = [], kx_knowledge = [],
         kx_similar = [], kx_rules = [], kx_evidence = None, kx_factors = None, kx_release = [] \<rparr> ex_open = (t, ret d) \<and> de_action d = ''NO_TRADE''"
proof -
  define cc where "cc = \<lparr> kx_symbol = ''BTCUSDT'', kx_market = [], kx_regime = ''RANGE'', kx_portfolio = [], kx_intelligence = [], kx_knowledge = [],
         kx_similar = [], kx_rules = [], kx_evidence = None, kx_factors = None, kx_release = [] \<rparr>"
  define c where "c = domain_model_context cc"
  obtain prof where prof: "profile_for_route ''live_analysis'' = ret prof" by (cases "profile_for_route ''live_analysis''") (auto simp: profile_for_route_def domain_profiles_def)
  obtain t resp where r: "domain_invoke ex_gateway_env ''live_analysis'' c Some ex_open = (t, ret resp)"
    using ex_refused [of "\<lparr> gq_route = ''live_analysis'', gq_brain = dp_brain prof, gq_prompt = DomainPrompt prof c (Some ''dec0''), gq_correlation = None \<rparr>" "Some Some" 1]
    by (auto simp: domain_invoke_def prof eff_bind_def gw_fresh_def ex_ids gateway_request_of_def)
  with domain_refuses [OF ex_blocked(1)] have "gp_content resp = None" by blast
  then obtain d where "chief_decide (Some (gateway_provider ex_gateway_env Some ''live_analysis'')) (\<lambda>m. raise ValueError) (\<lambda>s. (s, 0)) cc ex_open = (t, ret d)"
    using r by (auto simp: chief_decide_def ask_def gateway_provider_def Let_def eff_bind_def c_def [symmetric] reads_def usable_answer_def chief_response_def)
  with blocked_gateway_no_trade [OF ex_blocked(1)] show ?thesis unfolding cc_def by blast
qed

theorem key_store_roundtrip_witness:
  "\<exists>t u. secret_set ''b'' ''two'' (gw_secrets ex_gateway) = ret t \<and> secret_delete ''b'' t = ret u \<and> secret_get ''b'' t = ret (Some ''two'') \<and>
     secret_get ''b'' u = ret None"
proof -
  obtain t where t: "secret_set ''b'' ''two'' (gw_secrets ex_gateway) = ret t"
    by (simp add: secret_set_def secret_read_all_def secret_fernet_def secret_write_def ex_gateway_def)
  have "\<exists>u. secret_delete ''b'' t = ret u"
    using t by (auto simp: secret_set_def secret_read_all_def secret_fernet_def secret_write_def ex_gateway_def secret_delete_def)
  then obtain u where "secret_delete ''b'' t = ret u" by blast
  with key_store_roundtrip [OF t this] t show ?thesis by blast
qed

theorem saved_provider_used_witness:
  "\<exists>u t view. pu_id u = ''p'' \<and> save_provider u ex_gateway = (t, ret view) \<and>
     (\<exists>c. map_of (gw_providers t) ''p'' = Some c \<and> pc_url c = ''https://q'' \<and> secret_get (pc_secret c) (gw_secrets t) = ret (Some ''new''))"
proof -
  define u where "u = \<lparr> pu_id = ''p'', pu_type = ''custom'', pu_name = ''P'', pu_url = ''https://q/'', pu_key = Some ''new'', pu_model = ''m'', pu_enabled = True,
    pu_timeout = 30, pu_retries = 1 \<rparr>"
  have url: "secure_base_url (pu_url u) = ret ''https://q''" unfolding u_def by code_simp
  have "case save_provider u ex_gateway of (t, Inr view) \<Rightarrow> True | (t, Inl e) \<Rightarrow> False" unfolding u_def by code_simp
  then obtain t view where s: "save_provider u ex_gateway = (t, ret view)" by (auto split: prod.splits sum.splits)
  from saved_provider_used [OF s, of "''new''"] obtain c where "map_of (gw_providers t) ''p'' = Some c" "secret_get (pc_secret c) (gw_secrets t) = ret (Some ''new'')"
    "ret (pc_url c) = secure_base_url (pu_url u)" by (auto simp: u_def)
  then show ?thesis using url s by (intro exI [of _ u] exI [of _ t] exI [of _ view]) (auto simp: u_def)
qed

end
