(* ===== verification/Evolution_Promotion.thy ===== *)
theory Evolution_Promotion
  imports Time_Text
begin

text \<open>
  \<open>evolution/\<close>: the way of a change to the trading release. A candidate is registered under a policy that protects the core
  (\<open>foundation/\<close>), validated and certified (\<open>validation/\<close>), and promoted in a safe window by a coordinator with a gate for
  new entries (\<open>promotion/\<close>); \<open>state_machine.py\<close> follows the phases. The lemmas show what is registered, certified and
  promoted, and what a rollback leaves.
\<close>

subsection \<open>Candidates\<close>

record evo_candidate =
  cd_id :: string
  cd_type :: string
  cd_parent :: string
  cd_champion :: string
  cd_lineage :: "string list"
  cd_scope :: string
  cd_files :: "string list"
  cd_config :: "string list"
  cd_code_hash :: string
  cd_config_hash :: string
  cd_status :: string

definition allowed_candidate_types :: "string list" where
  "allowed_candidate_types =
     [''FACTOR'', ''FACTOR_WEIGHT'', ''FACTOR_COMBINATION'', ''FACTOR_PARAMETER'', ''STRATEGY_PARAMETER'', ''STRATEGY_ROUTING'', ''PROMPT'',
      ''MODEL_ROUTING'', ''KNOWLEDGE'', ''RESEARCH_PROCESS'']"

definition protected_path_prefixes :: "string list" where
  "protected_path_prefixes =
     [''src/crypto_trader/runtime/engine.py'', ''src/crypto_trader/risk/'', ''src/crypto_trader/execution/'', ''src/crypto_trader/ledger/'',
      ''src/crypto_trader/order/'', ''src/crypto_trader/exchange/'', ''src/crypto_trader/credentials'', ''src/crypto_trader/reconciliation/'']"

definition protected_config_keys :: "string list" where
  "protected_config_keys = [''live_trading_enabled'', ''kill_switch'', ''max_leverage'', ''max_drawdown'', ''validation_gate'', ''promotion_policy'']"

definition is_path_protected :: "string \<Rightarrow> bool" where
  "is_path_protected path = list_ex (\<lambda>p. take (length p) path = p) protected_path_prefixes"

text \<open>The keys of the differences of the configuration are what the policy looks at.\<close>

definition validate_candidate :: "evo_candidate \<Rightarrow> bool \<times> string" where
  "validate_candidate c =
     (if cd_type c \<notin> set allowed_candidate_types then (False, ''CANDIDATE_TYPE_FORBIDDEN'')
      else if list_ex is_path_protected (cd_files c) then (False, ''PROTECTED_PATH_VIOLATION'')
      else if list_ex (\<lambda>k. k \<in> set protected_config_keys) (cd_config c) then (False, ''PROTECTED_CONFIG_KEY'')
      else (True, ''OK''))"

record registry =
  rg_candidates :: "(string, evo_candidate) dict"
  rg_rejections :: "(string \<times> string \<times> string) list"

definition empty_registry :: registry where
  "empty_registry = \<lparr> rg_candidates = [], rg_rejections = [] \<rparr>"

definition equivalent :: "evo_candidate \<Rightarrow> evo_candidate \<Rightarrow> bool" where
  "equivalent a b \<longleftrightarrow> cd_scope a = cd_scope b \<and> cd_code_hash a = cd_code_hash b \<and> cd_config_hash a = cd_config_hash b \<and> cd_parent a = cd_parent b"

definition register :: "usec \<Rightarrow> evo_candidate \<Rightarrow> registry \<Rightarrow> registry \<times> bool \<times> string" where
  "register now c r =
     (let (ok, reason) = validate_candidate c in
      if \<not> ok then (r\<lparr> rg_rejections := rg_rejections r @ [(cd_id c, reason, iso_text now)] \<rparr>, False, reason)
      else if map_of (rg_candidates r) (cd_id c) \<noteq> None then (r, False, ''DUPLICATE'')
      else if list_ex (\<lambda>e. equivalent e c) (dict_values (rg_candidates r)) then (r, False, ''EQUIVALENT'')
      else (r\<lparr> rg_candidates := AList.update (cd_id c) c (rg_candidates r) \<rparr>, True, ''REGISTERED''))"

definition mark_status :: "string \<Rightarrow> string \<Rightarrow> registry \<Rightarrow> registry" where
  "mark_status i status r =
     (case map_of (rg_candidates r) i of
        None \<Rightarrow> r
      | Some c \<Rightarrow> r\<lparr> rg_candidates := AList.update i (c\<lparr> cd_status := status \<rparr>) (rg_candidates r) \<rparr>)"

definition mark_rejected :: "usec \<Rightarrow> string \<Rightarrow> string \<Rightarrow> registry \<Rightarrow> registry" where
  "mark_rejected now i reason r =
     (case map_of (rg_candidates r) i of
        None \<Rightarrow> r
      | Some c \<Rightarrow> (mark_status i ''REJECTED'' r)\<lparr> rg_rejections := rg_rejections r @ [(i, reason, iso_text now)] \<rparr>)"

definition mark_quarantined :: "string \<Rightarrow> registry \<Rightarrow> registry" where
  "mark_quarantined i r = mark_status i ''QUARANTINED'' r"

definition list_by_status :: "string \<Rightarrow> registry \<Rightarrow> evo_candidate list" where
  "list_by_status status r = filter (\<lambda>c. cd_status c = status) (dict_values (rg_candidates r))"

definition list_by_parent :: "string \<Rightarrow> registry \<Rightarrow> evo_candidate list" where
  "list_by_parent parent r = filter (\<lambda>c. cd_parent c = parent) (dict_values (rg_candidates r))"

definition get_lineage :: "string \<Rightarrow> registry \<Rightarrow> (string \<times> string) list" where
  "get_lineage i r =
     (case map_of (rg_candidates r) i of
        None \<Rightarrow> []
      | Some c \<Rightarrow> map (\<lambda>x. (cd_id x, cd_status x)) (List.map_filter (map_of (rg_candidates r)) (cd_lineage c)) @ [(cd_id c, cd_status c)])"

definition evaluate_intake :: "int \<Rightarrow> int \<Rightarrow> int \<Rightarrow> fl \<Rightarrow> string \<Rightarrow> string \<times> string" where
  "evaluate_intake evidence periods contradictions confidence source =
     (if source = ''CONFIRMED_LESSON'' then
        if 2 \<le> periods \<and> 3 \<le> evidence then (''ELIGIBLE'', ''confirmed lesson with multi-period evidence'')
        else (''INSUFFICIENT_EVIDENCE'', ''not enough independent periods'')
      else if evidence < contradictions then (''REJECTED'', ''contradictions dominate'')
      else if 2 \<le> evidence \<and> 1 / 2 \<le> confidence then (''READY_FOR_HYPOTHESIS'', ''sufficient evidence'')
      else (''RESEARCH_REQUIRED'', ''more research needed''))"

subsection \<open>Validation and certification\<close>

record gate_result =
  gr_gate :: string
  gr_ok :: bool
  gr_reason :: string

record validation_run =
  vr_id :: string
  vr_candidate :: string
  vr_gates :: "gate_result list"
  vr_failures :: "gate_result list"
  vr_warnings :: "string list"
  vr_status :: string

text \<open>A metric of a guardrail counts when it is an object; without a verdict it counts as met.\<close>

definition guardrail_failed :: "json \<Rightarrow> bool" where
  "guardrail_failed v =
     (case v of
        JObj m \<Rightarrow> (case map_of m ''passed'' of
            None \<Rightarrow> False | Some (JBool b) \<Rightarrow> \<not> b | Some JNull \<Rightarrow> True | Some (JInt n) \<Rightarrow> n = 0 | Some (JStr t) \<Rightarrow> t = []
          | Some (JDec d) \<Rightarrow> d = 0 | Some (JRaw d) \<Rightarrow> d = 0 | Some (JList xs) \<Rightarrow> xs = [] | Some (JObj kvs) \<Rightarrow> kvs = [])
      | _ \<Rightarrow> False)"

fun comma_join :: "string list \<Rightarrow> string" where
  "comma_join [] = []"
| "comma_join [t] = t"
| "comma_join (t # u # ts) = t @ '','' @ comma_join (u # ts)"

definition run_validation :: "string \<Rightarrow> string \<Rightarrow> gate_result list \<Rightarrow> meta \<Rightarrow> validation_run" where
  "run_validation i candidate gates guardrails =
     (let failures = filter (\<lambda>g. \<not> gr_ok g) gates; bad = map fst (filter (\<lambda>(k, v). guardrail_failed v) guardrails)
      in \<lparr> vr_id = i, vr_candidate = candidate, vr_gates = gates, vr_failures = failures,
           vr_warnings = (if bad \<noteq> [] then [''GUARDRAIL_FAILURE:'' @ comma_join bad] else []),
           vr_status = (if bad \<noteq> [] then ''REJECTED'' else if failures \<noteq> [] then ''REJECTED'' else ''VALIDATED'') \<rparr>)"

definition contains_text :: "string \<Rightarrow> string \<Rightarrow> bool" where
  "contains_text x t = list_ex (\<lambda>k. take (length x) (drop k t) = x) [0..<length t + 1]"

definition certify :: "validation_run \<Rightarrow> string" where
  "certify r =
     (if vr_status r = ''VALIDATED'' then ''PASS'' else if list_ex (contains_text ''GUARDRAIL'') (vr_warnings r) then ''QUARANTINE'' else ''FAIL'')"

subsection \<open>Phases\<close>

definition valid_states :: "string list" where
  "valid_states =
     [''IDLE'', ''REVIEW_READY'', ''OBSERVE'', ''DIAGNOSE'', ''LESSON'', ''HYPOTHESIZE'', ''PROPOSE'', ''MATERIALIZE'', ''STATIC_VALIDATE'', ''BACKTEST'',
      ''OOS'', ''WALK_FORWARD'', ''STRESS'', ''SHADOW'', ''CERTIFY'', ''READY_FOR_UPGRADE'', ''WAIT_SAFE_WINDOW'', ''ACTIVATE'', ''VERIFY'', ''ACTIVE'',
      ''REJECTED'', ''QUARANTINED'', ''ROLLBACK'']"

definition terminal_states :: "string list" where
  "terminal_states = [''ACTIVE'', ''REJECTED'', ''QUARANTINED'', ''ROLLBACK'']"

record transition =
  tn_from :: string
  tn_to :: string
  tn_reason :: string
  tn_at :: string

record evolution_machine =
  em_state :: string
  em_history :: "transition list"

definition evolution_start :: evolution_machine where
  "evolution_start = \<lparr> em_state = ''IDLE'', em_history = [] \<rparr>"

definition evolution_step :: "usec \<Rightarrow> string \<Rightarrow> string \<Rightarrow> evolution_machine \<Rightarrow> (evolution_machine \<times> transition) res" where
  "evolution_step now new reason m =
     (if new \<notin> set valid_states then Inl (Exn ValueError (''invalid evolution state '' @ new))
      else if em_state m \<in> set terminal_states \<and> new \<noteq> ''IDLE'' then Inl (Exn ValueError (''terminal state '' @ em_state m @ '' cannot transition''))
      else (let t = \<lparr> tn_from = em_state m, tn_to = new, tn_reason = reason, tn_at = iso_text now \<rparr>
            in ret (m\<lparr> em_state := new, em_history := em_history m @ [t] \<rparr>, t)))"

definition evolution_reset :: "evolution_machine \<Rightarrow> evolution_machine" where
  "evolution_reset m = m\<lparr> em_state := ''IDLE'', em_history := [] \<rparr>"

subsection \<open>Promotion\<close>

record readiness =
  rd_champion :: string
  rd_open_positions :: int
  rd_open_orders :: int
  rd_in_flight :: int
  rd_pending :: int
  rd_volatility :: string
  rd_spread :: string
  rd_liquidity :: string
  rd_market_data :: string
  rd_exchange :: string
  rd_reconciliation :: string
  rd_ledger :: string
  rd_portfolio :: string
  rd_risk :: string
  rd_kill_switch :: string
  rd_lease :: string
  rd_incidents :: int

record trading_release =
  tr_id :: string
  tr_strategy :: string
  tr_factor_set :: string
  tr_prompt :: string
  tr_routing :: string
  tr_commit :: string
  tr_config_hash :: string
  tr_parent :: string
  tr_candidate :: string
  tr_promotion :: string
  tr_status :: string

record champion_snapshot =
  ch_id :: string
  ch_version :: string
  ch_commit :: string
  ch_config_hash :: string
  ch_factor_set :: string
  ch_strategy :: string
  ch_prompt :: string
  ch_routing :: string
  ch_created :: string

record promotion_record =
  po_id :: string
  po_candidate :: string
  po_previous :: string
  po_target :: string
  po_status :: string
  po_started :: string
  po_completed :: string
  po_failure :: string

datatype entry_gate = OPEN_FOR_ENTRIES | BLOCKED_FOR_UPGRADE

definition gate_allows :: "entry_gate \<Rightarrow> bool \<Rightarrow> string \<Rightarrow> bool" where
  "gate_allows g reduce_only action =
     (if g = OPEN_FOR_ENTRIES then True
      else reduce_only \<or> action \<in> set [''REDUCE'', ''EXIT'', ''STOP_LOSS'', ''TAKE_PROFIT'', ''EMERGENCY_EXIT'', ''RISK_REDUCE''])"

record coordinator =
  co_gate :: entry_gate
  co_active :: "trading_release option"
  co_snapshots :: "(string, champion_snapshot) dict"
  co_records :: "(string, promotion_record) dict"
  co_lock :: string

record promotion_result =
  pm_id :: string
  pm_status :: string
  pm_reason :: string

definition coordinator_start :: coordinator where
  "coordinator_start = \<lparr> co_gate = OPEN_FOR_ENTRIES, co_active = None, co_snapshots = [], co_records = [], co_lock = [] \<rparr>"

definition unsafe_reasons :: "readiness \<Rightarrow> string list" where
  "unsafe_reasons s =
     (if rd_open_positions s \<noteq> 0 then [''OPEN_POSITIONS''] else []) @ (if rd_open_orders s \<noteq> 0 then [''OPEN_ORDERS''] else []) @
     (if rd_in_flight s \<noteq> 0 then [''IN_FLIGHT''] else []) @ (if rd_pending s \<noteq> 0 then [''PENDING_EXECUTION''] else []) @
     (if rd_volatility s = ''EXTREME'' then [''EXTREME_VOLATILITY''] else []) @ (if rd_spread s = ''ABNORMAL'' then [''ABNORMAL_SPREAD''] else []) @
     (if rd_liquidity s = ''CRITICAL'' then [''CRITICAL_LIQUIDITY''] else []) @
     map (\<lambda>(name, state). name @ ''_UNHEALTHY'')
       (filter (\<lambda>(name, state). state \<noteq> ''HEALTHY'')
         [(''MARKET_DATA'', rd_market_data s), (''EXCHANGE'', rd_exchange s), (''RECONCILIATION'', rd_reconciliation s), (''LEDGER'', rd_ledger s),
          (''PORTFOLIO'', rd_portfolio s), (''RISK'', rd_risk s), (''LEASE'', rd_lease s)]) @
     (if rd_kill_switch s \<noteq> ''OFF'' then [''KILL_SWITCH''] else []) @ (if rd_incidents s \<noteq> 0 then [''CRITICAL_INCIDENTS''] else [])"

definition evaluate_safe_window :: "readiness \<Rightarrow> bool \<times> string list" where
  "evaluate_safe_window s = (let reasons = unsafe_reasons s in (reasons = [], reasons))"

definition snapshot_of :: "usec \<Rightarrow> string \<Rightarrow> readiness \<Rightarrow> trading_release \<Rightarrow> champion_snapshot" where
  "snapshot_of now i s target =
     \<lparr> ch_id = ''champ_'' @ i, ch_version = rd_champion s, ch_commit = tr_parent target, ch_config_hash = tr_config_hash target,
       ch_factor_set = tr_factor_set target, ch_strategy = tr_strategy target, ch_prompt = tr_prompt target, ch_routing = tr_routing target,
       ch_created = iso_text now \<rparr>"

text \<open>The times are those of the snapshot, of the record and of the completion.\<close>

definition promote ::
  "usec \<times> usec \<times> usec \<Rightarrow> string \<Rightarrow> string \<Rightarrow> bool \<Rightarrow> readiness \<Rightarrow> trading_release \<Rightarrow> bool \<Rightarrow> bool \<Rightarrow> coordinator \<Rightarrow> coordinator \<times> promotion_result" where
  "promote clocks i candidate certified s target health smoke c =
     (let (t1, t2, t3) = clocks; result = (\<lambda>status reason. \<lparr> pm_id = i, pm_status = status, pm_reason = reason \<rparr>); (safe, reasons) = evaluate_safe_window s in
      if co_lock c \<noteq> [] then (c, result ''REJECTED'' ''PROMOTION_LOCK_HELD'')
      else if \<not> certified then (c, result ''REJECTED'' ''NOT_CERTIFIED'')
      else if \<not> safe then (c, result ''WAIT_SAFE_WINDOW'' (comma_join reasons))
      else
        (let record0 = \<lparr> po_id = i, po_candidate = candidate, po_previous = rd_champion s, po_target = tr_id target, po_status = ''ACTIVATING'',
               po_started = iso_text t2, po_completed = [], po_failure = [] \<rparr>;
             c1 = c\<lparr> co_lock := i, co_snapshots := AList.update i (snapshot_of t1 i s target) (co_snapshots c), co_gate := BLOCKED_FOR_UPGRADE,
               co_records := AList.update i record0 (co_records c) \<rparr> in
         if \<not> health \<or> \<not> smoke then
           (c1\<lparr> co_records := AList.update i (record0\<lparr> po_status := ''ROLLING_BACK'', po_failure := ''HEALTH_SMOKE_FAIL'' \<rparr>) (co_records c1),
                co_gate := OPEN_FOR_ENTRIES, co_lock := [] \<rparr>,
            result ''ROLLED_BACK'' ''HEALTH_SMOKE_FAIL'')
         else
           (c1\<lparr> co_active := Some (target\<lparr> tr_status := ''ACTIVE'', tr_parent := rd_champion s \<rparr>), co_gate := OPEN_FOR_ENTRIES,
                co_records := AList.update i (record0\<lparr> po_status := ''ACTIVE'', po_completed := iso_text t3 \<rparr>) (co_records c1), co_lock := [] \<rparr>,
            result ''ACTIVE'' ''OK'')))"

definition set_record_status :: "string \<Rightarrow> string \<Rightarrow> coordinator \<Rightarrow> coordinator res" where
  "set_record_status i status c =
     (case map_of (co_records c) i of
        None \<Rightarrow> raise KeyErrorC
      | Some r \<Rightarrow> ret (c\<lparr> co_records := AList.update i (r\<lparr> po_status := status \<rparr>) (co_records c) \<rparr>))"

definition rollback :: "string \<Rightarrow> bool \<Rightarrow> coordinator \<Rightarrow> coordinator \<times> promotion_result res" where
  "rollback i health c =
     (let result = (\<lambda>status reason. \<lparr> pm_id = i, pm_status = status, pm_reason = reason \<rparr>) in
      if map_of (co_snapshots c) i = None then (c, ret (result ''REJECTED'' ''NO_SNAPSHOT''))
      else if co_lock c \<noteq> [] \<and> co_lock c \<noteq> i then (c, ret (result ''REJECTED'' ''PROMOTION_LOCK_HELD''))
      else if \<not> health then
        (let c1 = c\<lparr> co_gate := BLOCKED_FOR_UPGRADE \<rparr> in
         case set_record_status i ''SAFE_DEGRADED'' c1 of
           Inl e \<Rightarrow> (c1, Inl e) | Inr c2 \<Rightarrow> (c2, ret (result ''SAFE_DEGRADED'' ''ROLLBACK_HEALTH_FAIL'')))
      else
        (let c1 = c\<lparr> co_active := None, co_gate := OPEN_FOR_ENTRIES \<rparr> in
         case set_record_status i ''ROLLED_BACK'' c1 of
           Inl e \<Rightarrow> (c1, Inl e) | Inr c2 \<Rightarrow> (c2\<lparr> co_lock := [] \<rparr>, ret (result ''ROLLED_BACK'' ''OK''))))"

subsection \<open>What is registered\<close>

datatype registry_step = Register usec evo_candidate | Reject usec string string | Quarantine string

fun registry_do :: "registry_step \<Rightarrow> registry \<Rightarrow> registry" where
  "registry_do (Register now c) r = fst (register now c r)"
| "registry_do (Reject now i reason) r = mark_rejected now i reason r"
| "registry_do (Quarantine i) r = mark_quarantined i r"

definition keeps_core :: "evo_candidate \<Rightarrow> bool" where
  "keeps_core c \<longleftrightarrow> cd_type c \<in> set allowed_candidate_types \<and>
     (\<forall>f \<in> set (cd_files c). \<forall>p \<in> set protected_path_prefixes. take (length p) f \<noteq> p) \<and> set (cd_config c) \<inter> set protected_config_keys = {}"

definition registry_ok :: "registry \<Rightarrow> bool" where
  "registry_ok r \<longleftrightarrow> (\<forall>i c. map_of (rg_candidates r) i = Some c \<longrightarrow> cd_id c = i \<and> keeps_core c) \<and>
     (\<forall>i j a b. map_of (rg_candidates r) i = Some a \<longrightarrow> map_of (rg_candidates r) j = Some b \<longrightarrow> equivalent a b \<longrightarrow> i = j)"

lemma validated_keeps: "validate_candidate c = (True, reason) \<Longrightarrow> keeps_core c"
  by (auto simp: validate_candidate_def keeps_core_def is_path_protected_def list_ex_iff split: if_splits)

lemma keeps_status [simp]: "keeps_core (c\<lparr> cd_status := t \<rparr>) = keeps_core c" "equivalent (c\<lparr> cd_status := t \<rparr>) d = equivalent c d"
  "equivalent d (c\<lparr> cd_status := t \<rparr>) = equivalent d c"
  by (simp_all add: keeps_core_def equivalent_def)

lemma equivalent_sym: "equivalent a b = equivalent b a"
  by (auto simp: equivalent_def)

lemma register_cases:
  obtains (refused) "rg_candidates (fst (register now c r)) = rg_candidates r" "\<not> fst (snd (register now c r))"
  | (added) "rg_candidates (fst (register now c r)) = AList.update (cd_id c) c (rg_candidates r)" "keeps_core c" "map_of (rg_candidates r) (cd_id c) = None"
      "\<forall>i e. map_of (rg_candidates r) i = Some e \<longrightarrow> \<not> equivalent e c" "fst (snd (register now c r))"
proof (cases "validate_candidate c")
  case (Pair ok reason)
  show ?thesis
  proof (cases "ok \<and> map_of (rg_candidates r) (cd_id c) = None \<and> \<not> list_ex (\<lambda>e. equivalent e c) (dict_values (rg_candidates r))")
    case True
    then have "keeps_core c" using Pair validated_keeps by simp
    moreover have "\<forall>i e. map_of (rg_candidates r) i = Some e \<longrightarrow> \<not> equivalent e c" using True dict_values_map_of by (fastforce simp: list_ex_iff)
    ultimately show ?thesis using True Pair by (intro added) (simp_all add: register_def)
  next
    case False
    then show ?thesis using Pair by (intro refused) (auto simp: register_def)
  qed
qed

lemma register_ok: "registry_ok r \<Longrightarrow> registry_ok (fst (register now c r))"
proof -
  assume ok: "registry_ok r"
  show ?thesis
  proof (cases rule: register_cases [of now c r])
    case refused
    then show ?thesis using ok by (simp add: registry_ok_def)
  next
    case added
    then show ?thesis using ok equivalent_sym by (auto simp: registry_ok_def split: if_splits)
  qed
qed

lemma status_ok: "registry_ok r \<Longrightarrow> registry_ok (mark_status i t r)"
  by (cases "map_of (rg_candidates r) i") (auto simp: mark_status_def registry_ok_def split: if_splits)

lemma rejections_ok [simp]: "registry_ok (r\<lparr> rg_rejections := xs \<rparr>) = registry_ok r"
  by (simp add: registry_ok_def)

text \<open>Over any sequence of registrations, rejections and quarantines, every registered candidate is of an allowed type and changes neither a
  file under a protected path nor a protected key, and no two registered candidates are equivalent.\<close>

theorem registered_candidates_allowed:
  "registry_ok (fold registry_do steps empty_registry)"
proof (induction steps rule: rev_induct)
  case (snoc x xs)
  then show ?case
    by (cases x) (auto simp: register_ok mark_rejected_def mark_quarantined_def status_ok split: option.split)
qed (simp add: registry_ok_def empty_registry_def)

text \<open>A candidate passes certification exactly when none of the gates that were given failed and no guardrail failed; without any gate
  it passes as well.\<close>

theorem certified_iff:
  "certify (run_validation i c gates guardrails) = ''PASS'' \<longleftrightarrow> (\<forall>g \<in> set gates. gr_ok g) \<and> (\<forall>kv \<in> set guardrails. \<not> guardrail_failed (snd kv))"
proof -
  have "(filter (\<lambda>(k, v). guardrail_failed v) guardrails = []) = (\<forall>kv \<in> set guardrails. \<not> guardrail_failed (snd kv))"
    by (auto simp: filter_empty_conv)
  moreover have "(filter (\<lambda>g. \<not> gr_ok g) gates = []) = (\<forall>g \<in> set gates. gr_ok g)" by (auto simp: filter_empty_conv)
  ultimately show ?thesis by (simp add: certify_def run_validation_def Let_def)
qed

subsection \<open>The history of the phases\<close>

inductive linked :: "string \<Rightarrow> transition list \<Rightarrow> string \<Rightarrow> bool" where
  none: "linked s [] s"
| more: "linked s ts t \<Longrightarrow> tn_from n = t \<Longrightarrow> tn_to n \<in> set valid_states \<Longrightarrow> (t \<in> set terminal_states \<Longrightarrow> tn_to n = ''IDLE'') \<Longrightarrow>
    linked s (ts @ [n]) (tn_to n)"

datatype phase_step = Advance usec string string | Reset

fun phase_do :: "phase_step \<Rightarrow> evolution_machine \<Rightarrow> evolution_machine" where
  "phase_do (Advance now new reason) m = (case evolution_step now new reason m of Inr (t, _) \<Rightarrow> t | Inl _ \<Rightarrow> m)"
| "phase_do Reset m = evolution_reset m"

text \<open>Over any sequence of transitions and resets, the history is a chain of valid phases from idle to the phase the machine is in, and
  leaves a terminal phase only for idle.\<close>

theorem phase_history_linked:
  "linked ''IDLE'' (em_history (fold phase_do steps evolution_start)) (em_state (fold phase_do steps evolution_start))"
proof (induction steps rule: rev_induct)
  case Nil
  show ?case by (simp add: evolution_start_def linked.none)
next
  case (snoc x xs)
  define m where "m = fold phase_do xs evolution_start"
  show ?case
  proof (cases x)
    case (Advance now new reason)
    have "linked ''IDLE'' (em_history (phase_do x m)) (em_state (phase_do x m))"
    proof (cases "evolution_step now new reason m")
      case (Inr p)
      define n where "n = \<lparr> tn_from = em_state m, tn_to = new, tn_reason = reason, tn_at = iso_text now \<rparr>"
      have n: "p = (m\<lparr> em_state := new, em_history := em_history m @ [n] \<rparr>, n)" "new \<in> set valid_states"
        "em_state m \<in> set terminal_states \<longrightarrow> new = ''IDLE''"
        using Inr by (auto simp: evolution_step_def Let_def n_def split: if_splits)
      have "linked ''IDLE'' (em_history m @ [n]) (tn_to n)"
        using snoc n(2,3) by (intro linked.more [of _ _ "em_state m"]) (simp_all add: n_def m_def)
      then show ?thesis using Inr n(1) by (simp add: Advance n_def)
    qed (use snoc in \<open>simp add: Advance m_def\<close>)
    then show ?thesis by (simp add: m_def)
  next
    case Reset
    then show ?thesis by (simp add: evolution_reset_def linked.none)
  qed
qed

subsection \<open>Promotions\<close>

datatype coordinator_step =
    Promote "usec \<times> usec \<times> usec" string string bool readiness trading_release bool bool
  | Rollback string bool

fun coordinator_do :: "coordinator_step \<Rightarrow> coordinator \<Rightarrow> coordinator" where
  "coordinator_do (Promote ts i cand certified s target health smoke) c = fst (promote ts i cand certified s target health smoke c)"
| "coordinator_do (Rollback i health) c = fst (rollback i health c)"

text \<open>At rest no lock is held, and every promotion with a snapshot has a record.\<close>

definition coordinator_ok :: "coordinator \<Rightarrow> bool" where
  "coordinator_ok c \<longleftrightarrow> co_lock c = [] \<and> dom (map_of (co_snapshots c)) = dom (map_of (co_records c))"

definition promoted :: "readiness \<Rightarrow> trading_release \<Rightarrow> trading_release" where
  "promoted s target = target\<lparr> tr_status := ''ACTIVE'', tr_parent := rd_champion s \<rparr>"

lemma promote_cases:
  assumes "promote ts i cand certified s target health smoke c = (d, res)" "co_lock c = []"
  obtains (refused) "d = c" "pm_status res \<in> {''REJECTED'', ''WAIT_SAFE_WINDOW''}" "\<not> certified \<or> unsafe_reasons s \<noteq> []"
  | (failed) "pm_status res = ''ROLLED_BACK''" "certified" "unsafe_reasons s = []" "\<not> health \<or> \<not> smoke" "co_active d = co_active c" "co_gate d = OPEN_FOR_ENTRIES"
      "co_lock d = []" "dom (map_of (co_snapshots d)) = insert i (dom (map_of (co_snapshots c)))"
      "dom (map_of (co_records d)) = insert i (dom (map_of (co_records c)))"
  | (active) "pm_status res = ''ACTIVE''" "certified" "unsafe_reasons s = []" "health" "smoke" "co_active d = Some (promoted s target)"
      "co_gate d = OPEN_FOR_ENTRIES" "co_lock d = []" "dom (map_of (co_snapshots d)) = insert i (dom (map_of (co_snapshots c)))"
      "dom (map_of (co_records d)) = insert i (dom (map_of (co_records c)))"
proof -
  obtain t1 t2 t3 where t: "ts = (t1, t2, t3)" by (cases ts)
  show ?thesis
  proof (cases "certified \<and> unsafe_reasons s = []")
    case False
    then have "d = c \<and> pm_status res \<in> {''REJECTED'', ''WAIT_SAFE_WINDOW''}"
      using assms by (auto simp: promote_def t evaluate_safe_window_def Let_def split: if_splits)
    then show ?thesis using False by (intro refused) auto
  next
    case True
    show ?thesis
    proof (cases "health \<and> smoke")
      case False
      show ?thesis using False True assms
        by (intro failed) (auto simp: promote_def t evaluate_safe_window_def Let_def split: if_splits)
    next
      case ok: True
      show ?thesis using ok True assms
        by (intro active) (auto simp: promote_def t evaluate_safe_window_def Let_def promoted_def)
    qed
  qed
qed

lemma rollback_cases:
  assumes "rollback i health c = (d, res)" "coordinator_ok c"
  obtains (refused) "d = c" "map_of (co_snapshots c) i = None"
  | (degraded) r where "\<not> health" "co_gate d = BLOCKED_FOR_UPGRADE" "co_active d = co_active c" "co_lock d = []" "co_snapshots d = co_snapshots c"
      "map_of (co_records c) i = Some r" "co_records d = AList.update i (r\<lparr> po_status := ''SAFE_DEGRADED'' \<rparr>) (co_records c)"
  | (undone) r where "health" "co_gate d = OPEN_FOR_ENTRIES" "co_active d = None" "co_lock d = []" "co_snapshots d = co_snapshots c"
      "map_of (co_records c) i = Some r" "co_records d = AList.update i (r\<lparr> po_status := ''ROLLED_BACK'' \<rparr>) (co_records c)"
proof (cases "map_of (co_snapshots c) i")
  case None
  then show ?thesis using assms by (intro refused) (auto simp: rollback_def Let_def)
next
  case (Some s)
  then have "i \<in> dom (map_of (co_records c))" using assms(2) by (auto simp: coordinator_ok_def)
  then obtain r where r: "map_of (co_records c) i = Some r" by auto
  have lock: "co_lock c = []" using assms(2) by (simp add: coordinator_ok_def)
  show ?thesis
  proof (cases health)
    case True
    then show ?thesis using assms(1) Some r lock by (intro undone) (auto simp: rollback_def Let_def set_record_status_def)
  next
    case False
    then show ?thesis using assms(1) Some r lock by (intro degraded) (auto simp: rollback_def Let_def set_record_status_def)
  qed
qed

text \<open>A window in which nothing is held, ordered, in flight or pending, the market is quiet enough and every service is
  healthy.\<close>

definition window_safe :: "readiness \<Rightarrow> bool" where
  "window_safe s \<longleftrightarrow>
     rd_open_positions s = 0 \<and> rd_open_orders s = 0 \<and> rd_in_flight s = 0 \<and> rd_pending s = 0 \<and>
     rd_volatility s \<noteq> ''EXTREME'' \<and> rd_spread s \<noteq> ''ABNORMAL'' \<and> rd_liquidity s \<noteq> ''CRITICAL'' \<and>
     rd_market_data s = ''HEALTHY'' \<and> rd_exchange s = ''HEALTHY'' \<and> rd_reconciliation s = ''HEALTHY'' \<and>
     rd_ledger s = ''HEALTHY'' \<and> rd_portfolio s = ''HEALTHY'' \<and> rd_risk s = ''HEALTHY'' \<and> rd_lease s = ''HEALTHY'' \<and>
     rd_kill_switch s = ''OFF'' \<and> rd_incidents s = 0"

lemma no_unsafe_reasons: "unsafe_reasons s = [] \<longleftrightarrow> window_safe s"
  by (simp add: unsafe_reasons_def window_safe_def)

text \<open>What a promotion or a rollback may change.\<close>

definition step_allowed :: "coordinator_step \<Rightarrow> coordinator \<Rightarrow> coordinator \<Rightarrow> bool" where
  "step_allowed x c d \<longleftrightarrow>
     (case x of
        Promote ts i cand certified s target health smoke \<Rightarrow>
          co_active d = co_active c \<or>
          co_active d = Some (promoted s target) \<and> certified \<and> window_safe s \<and> health \<and> smoke
      | Rollback i health \<Rightarrow> co_active d \<in> {co_active c, None}) \<and>
     (co_gate d = BLOCKED_FOR_UPGRADE \<longrightarrow> co_gate c = BLOCKED_FOR_UPGRADE \<or> (\<exists>i. x = Rollback i False)) \<and>
     (\<forall>i health. x = Rollback i health \<longrightarrow> (\<exists>res. snd (rollback i health c) = ret res))"

lemma coordinator_step_ok:
  assumes "coordinator_ok c"
  shows "coordinator_ok (coordinator_do x c) \<and> step_allowed x c (coordinator_do x c)"
proof (cases x)
  case (Promote ts i cand certified s target health smoke)
  obtain d res where p: "promote ts i cand certified s target health smoke c = (d, res)" by force
  have e: "coordinator_do x c = d" by (simp add: Promote p)
  have "co_lock c = []" using assms by (simp add: coordinator_ok_def)
  with p show ?thesis unfolding e
    by (cases rule: promote_cases) (use assms in \<open>auto simp: Promote coordinator_ok_def step_allowed_def no_unsafe_reasons\<close>)
next
  case (Rollback i health)
  obtain d res where p: "rollback i health c = (d, res)" by force
  have ret: "\<exists>x. res = ret x" using p assms
    by (auto simp: rollback_def Let_def set_record_status_def coordinator_ok_def split: if_splits option.splits)
  then have r: "\<forall>j h. x = Rollback j h \<longrightarrow> (\<exists>y. snd (rollback j h c) = ret y)" using p by (auto simp: Rollback)
  have e: "coordinator_do x c = d" by (simp add: Rollback p)
  from p assms show ?thesis unfolding e step_allowed_def
    by (cases rule: rollback_cases) (use assms r in \<open>auto simp: Rollback coordinator_ok_def\<close>)
qed

lemma promotions_safe_start: "coordinator_ok (coordinator_do x coordinator_start)"
  by (intro coordinator_step_ok [THEN conjunct1]) (simp add: coordinator_ok_def coordinator_start_def)

text \<open>C33: over any sequence of promotions and rollbacks no lock stays behind and a rollback never misses a record; a release becomes active only by
  a promotion of a certified candidate whose health and smoke checks passed, in a window without open positions, open
  orders, orders in flight or pending executions, with no extreme volatility, abnormal spread or critical liquidity, every
  service healthy, the kill switch off and no critical incident; and only a failed rollback closes the gate for new entries.\<close>

theorem promotions_safe:
  "coordinator_ok (fold coordinator_do xs coordinator_start) \<and>
   step_allowed x (fold coordinator_do xs coordinator_start) (fold coordinator_do (xs @ [x]) coordinator_start)"
proof -
  have "coordinator_ok (fold coordinator_do xs coordinator_start)"
  proof (induction xs rule: rev_induct)
    case (snoc y ys)
    then show ?case using coordinator_step_ok by simp
  qed (simp add: coordinator_ok_def coordinator_start_def)
  then show ?thesis using coordinator_step_ok by simp
qed

text \<open>A rollback that fails its health check closes the gate for new entries, but any later promotion opens it again, even one that fails
  its own checks and is rolled back.\<close>

theorem degraded_gate_reopens:
  assumes "coordinator_ok c" "map_of (co_snapshots c) j \<noteq> None" "unsafe_reasons s = []"
  shows "co_gate (fst (rollback j False c)) = BLOCKED_FOR_UPGRADE \<and>
    co_gate (fst (promote ts i cand True s target False smoke (fst (rollback j False c)))) = OPEN_FOR_ENTRIES"
proof -
  obtain d res where r: "rollback j False c = (d, res)" by force
  then have d: "co_gate d = BLOCKED_FOR_UPGRADE" "co_lock d = []"
    using assms(1,2) by (cases rule: rollback_cases [OF r assms(1)]; simp)+
  obtain e res' where p: "promote ts i cand True s target False smoke d = (e, res')" by force
  then have "co_gate e = OPEN_FOR_ENTRIES" using assms(3) by (cases rule: promote_cases [OF p d(2)]) auto
  then show ?thesis using d r p by simp
qed

text \<open>A rollback of any promotion, an old one as well, leaves no active release.\<close>

lemma any_rollback_drops_release:
  assumes "coordinator_ok c" "map_of (co_snapshots c) j \<noteq> None"
  shows "co_active (fst (rollback j True c)) = None"
proof -
  obtain d res where r: "rollback j True c = (d, res)" by force
  show ?thesis using assms(2) by (cases rule: rollback_cases [OF r assms(1)]) (simp_all add: r)
qed

subsection \<open>Examples\<close>

theorem certified_iff_witness:
  "certify (run_validation ''r'' ''c'' [] [(''drawdown'', JObj [(''passed'', JBool True)])]) = ''PASS'' \<and>
   certify (run_validation ''r'' ''c'' [\<lparr> gr_gate = ''OOS'', gr_ok = False, gr_reason = [] \<rparr>] []) \<noteq> ''PASS''"
  by (simp add: certified_iff guardrail_failed_def)

definition ex_ready :: readiness where
  "ex_ready = \<lparr> rd_champion = ''v1'', rd_open_positions = 0, rd_open_orders = 0, rd_in_flight = 0, rd_pending = 0, rd_volatility = ''NORMAL'',
     rd_spread = ''NORMAL'', rd_liquidity = ''NORMAL'', rd_market_data = ''HEALTHY'', rd_exchange = ''HEALTHY'', rd_reconciliation = ''HEALTHY'',
     rd_ledger = ''HEALTHY'', rd_portfolio = ''HEALTHY'', rd_risk = ''HEALTHY'', rd_kill_switch = ''OFF'', rd_lease = ''HEALTHY'', rd_incidents = 0 \<rparr>"

definition ex_release :: trading_release where
  "ex_release = \<lparr> tr_id = ''r2'', tr_strategy = ''2'', tr_factor_set = ''1'', tr_prompt = ''1'', tr_routing = ''1'', tr_commit = ''c'', tr_config_hash = ''h'',
     tr_parent = ''r1'', tr_candidate = ''c'', tr_promotion = ''p'', tr_status = ''PENDING'' \<rparr>"

theorem degraded_gate_reopens_witness:
  "\<exists>c. c = fst (promote (0, 0, 0) ''p'' ''c'' True ex_ready ex_release True True coordinator_start) \<and>
     co_gate (fst (rollback ''p'' False c)) = BLOCKED_FOR_UPGRADE \<and>
     co_gate (fst (promote (0, 0, 0) ''q'' ''d'' True ex_ready ex_release False True (fst (rollback ''p'' False c)))) = OPEN_FOR_ENTRIES"
proof -
  define c where "c = fst (promote (0, 0, 0) ''p'' ''c'' True ex_ready ex_release True True coordinator_start)"
  have safe: "unsafe_reasons ex_ready = []" by (simp add: unsafe_reasons_def ex_ready_def)
  have ok: "coordinator_ok c" using promotions_safe_start [of "Promote (0, 0, 0) ''p'' ''c'' True ex_ready ex_release True True"] by (simp add: c_def)
  have snap: "map_of (co_snapshots c) ''p'' \<noteq> None"
    by (simp add: c_def promote_def coordinator_start_def evaluate_safe_window_def safe)
  show ?thesis by (intro exI [of _ c]) (rule conjI [OF c_def degraded_gate_reopens [OF ok snap safe]])
qed

end
