(* ===== verification/Spec2Isabelle.thy ===== *)
theory Spec2Isabelle
  imports Money Order_Manager Futures_Ledger Order_Book Market_Gate Execution_Authority Lease Paper_Market Reconciliation Recovery Engine_Gates Trade_Episodes Position_Bridge Technical_Indicators Chief_Rotation LLM_Gateway Evolution_Promotion
begin

text \<open>
  Verification of the crypto trading system, \<open>src/src/crypto_trader\<close>.

  \<^bold>\<open>The program.\<close> \<open>runtime/engine.py\<close> is the only path from market data to orders. A tick asks the
  strategies for signals; \<open>process_signal\<close> looks up the client order id, refreshes the order book,
  asks the risk engine and the execution authority, creates the order in the order manager and submits
  it to an exchange adapter, or executes it on the perpetual paper engine. The exchange answers with
  events, which drive the order state machine and bring fills; a fill that is new is settled in the
  double-entry ledger, from which balances and positions are replayed. Beside this path run the execution
  lease, the reconciliation with the exchange, the recovery after a restart and the supervisor.

  \<^bold>\<open>Theories and sources.\<close> Each theory names the file it models and keeps its names.
  \<^item> \<open>Decimal_Context\<close>, \<open>Money\<close>: Python decimals and floats as rationals that are rounded after each
    operation; \<open>domain/money.py\<close> and the column type of \<open>persistence/models.py\<close>.
  \<^item> \<open>Prelude\<close>: exceptions as values (\<open>exn + 'a\<close>), dictionaries as association lists, list lemmas.
    \<open>Effects\<close>: state with exceptions, and the locale \<open>step_relation\<close> that carries a reflexive and
    transitive relation through sequencing, handlers and loops.
  \<^item> \<open>Domain\<close>: \<open>domain/enums.py\<close>, \<open>models.py\<close>, \<open>clock.py\<close>, \<open>errors.py\<close>.
  \<^item> \<open>Order_State_Machine\<close> (\<open>order/state_machine.py\<close>) on the generic locale of \<open>Event_Machine\<close>;
    \<open>Order_Manager\<close> (\<open>order/manager.py\<close>) with its three tables, on the locale of \<open>Exactly_Once\<close>.
  \<^item> \<open>Ledger\<close> (\<open>ledger/service.py\<close>), \<open>Projections\<close> (\<open>ledger/projections.py\<close>, \<open>portfolio/service.py\<close>).
  \<^item> \<open>Order_Book\<close> (\<open>market_data/orderbook.py\<close>, \<open>service.py\<close>), \<open>Market_Gate\<close> (\<open>market_data/state.py\<close>,
    \<open>new_risk_gate.py\<close>).
  \<^item> \<open>Risk_Engine\<close> (\<open>risk/engine.py\<close>, \<open>kill_switch.py\<close>), \<open>Execution_Authority\<close> (\<open>execution/authority.py\<close>,
    \<open>rate_limiter.py\<close>, \<open>cross_exchange_guard.py\<close>).
  \<^item> \<open>Perpetual\<close> (\<open>perpetual/domain.py\<close>, \<open>margin.py\<close>, \<open>funding.py\<close>, \<open>liquidation.py\<close>), \<open>Futures_Ledger\<close>
    (\<open>perpetual/ledger.py\<close>, \<open>engine.py\<close>).
  \<^item> \<open>Lease\<close> (\<open>runtime/lease.py\<close>, \<open>supervisor.py\<close>), \<open>Audit_Trail\<close> (\<open>observability/audit.py\<close>), \<open>Runtime\<close>
    (\<open>runtime/state_machine.py\<close>, \<open>health.py\<close>, \<open>event_bus.py\<close>, \<open>execution_symbols.py\<close>).
  \<^item> \<open>Simulator\<close>, \<open>Matching\<close> (\<open>simulator/exchange.py\<close>), \<open>Paper_Market\<close> (\<open>simulator/real_market_paper.py\<close>,
    \<open>exchange/symbol_mapper.py\<close>).
  \<^item> \<open>Reconciliation\<close> (\<open>reconciliation/service.py\<close>), \<open>Recovery\<close> (\<open>runtime/recovery.py\<close>).
  \<^item> \<open>Engine_State\<close>, \<open>Engine\<close>, \<open>Engine_Signals\<close>, \<open>Engine_Loops\<close>: \<open>runtime/engine.py\<close>; \<open>Engine_Example\<close> is
    a small instance; \<open>Engine_Invariant\<close> and \<open>Engine_Gates\<close> hold what is shown of the engine.
  \<^item> \<open>Position_Brain\<close> (\<open>ai_brain/\<close>) and \<open>Position_Bridge\<close> (\<open>runtime/ai_position_bridge.py\<close>): the evaluation of
    open positions at the end of a tick; \<open>Trade_Episodes\<close> (\<open>governance/trade_episodes.py\<close>): what is learned from
    the fills.
  \<^item> \<open>Python_Values\<close>: floats and functions of the Python library. \<open>Alpha_Features\<close> (\<open>alpha/market_data_engine.py\<close>,
    \<open>features.py\<close>, \<open>regime.py\<close>), \<open>Alpha_Strategies\<close> (\<open>alpha/sub_strategy/\<close>), \<open>Strategy_Evidence\<close>
    (\<open>llm_chief/strategy_evidence.py\<close>), \<open>Technical_Indicators\<close> (\<open>market_data/technical_indicators.py\<close>),
    \<open>Opportunity_Scanner\<close> (\<open>runtime/opportunity_scanner.py\<close>), \<open>Live_Memory\<close> (\<open>llm_chief/memory_retrieval.py\<close>): the
    evidence that the chief trader is given.
  \<^item> \<open>Time_Text\<close>: times and floats as text. \<open>Live_Context\<close> (\<open>runtime/live_decision_context.py\<close>): candles with their
    cache and the bundle for a decision. \<open>Chief_Decision\<close> (\<open>llm_chief/decision.py\<close>, \<open>context.py\<close>, \<open>engine.py\<close>): asking the
    model and reading its answer. \<open>Chief_Trader\<close> (\<open>runtime/chief_trader_strategy.py\<close>, \<open>ai_first_chief_trader.py\<close>): the
    gates before and after the answer, the signal and the stored evidence. \<open>Chief_Rotation\<close>
    (\<open>runtime/multi_symbol_chief_trader.py\<close>): the adapter that the engine runs, one symbol each reading.
  \<^item> \<open>LLM_Gateway\<close> (\<open>llm_runtime/gateway.py\<close>, \<open>contracts.py\<close>, \<open>repository.py\<close>, \<open>secrets.py\<close>, \<open>domain_models.py\<close>): the one way
    to a language model, and the provider that the chief trader is given. \<open>Evolution_Promotion\<close>
    (\<open>evolution/foundation/\<close>, \<open>validation/\<close>, \<open>promotion/\<close>, \<open>state_machine.py\<close>): how a change becomes the trading release.

  \<^bold>\<open>How code becomes definitions.\<close> A table is a list of records and a commit checks its unique
  constraints; a method that commits before it raises returns the changed tables with the exception. Times
  are microseconds, identifiers and clock readings come from counted streams that are arguments. An asyncio
  task of the engine that ends with an exception is kept with it: its turns do nothing from then on. Two
  concurrent transactions are one state that is read and another that is committed to. The exchange is a
  record of functions with a state of its own, the strategies of a tick are arbitrary functions of their
  context; the strategy that changes its symbol at each reading is modelled in \<open>Chief_Rotation\<close>.

  \<^bold>\<open>What the lemmas show.\<close> For the order tables: keys stay unique, the filled quantity is the sum of
  the stored fills, fills are applied once, reports on the way to a complete fill may come in any order. For the ledger: it is appended
  to and balanced, and the replay of it is the net of its entries. For the books: a delta refines the
  update of a price map and a refused delta leaves the symbol unhealthy. For risk and authority: the
  authority approves exactly when all its conditions hold, the risk engine bounds orders from above only, and no
  approved order oversells or reverses. For the simulated exchange: matching ends
  and is the greedy walk over the sorted levels. For lease, recovery and reconciliation: nobody takes
  an active lease, a recovery creates no order, the verdict says exactly when to halt. For the engine, over
  every sequence of signals, events, turns, restarts and answers of the exchange: order tables and ledger
  keep their invariants together, no fill is settled twice, orders come only through the gates as they are at the
  clock readings of the call, a lost lease stops new orders, and an event that cannot be handled ends the handling
  of events. For the bridge: it makes the engine process nothing but reduce-only orders,
  a position past its time limit has a closing order sent, and what the brain decides never gets as far as an order. For
  the episodes: completed cycles are flat and final, and the backfill can be run again at any time.
  For the evidence: scores and indices keep their ranges in floating-point arithmetic, five strategies are
  symmetric in their features, unusable candles are told apart from missing ones, and the regime
  engine ends up with one answer. For the chief trader: an entry needs every gate and a usable answer of its own tick, two entries
  for a symbol are a cooldown apart, each symbol gets its turn, scores have no say, and a failing store or check
  has the effect that is shown. For the gateway: every call leaves one usage row, a provider that keeps failing is left
  alone, and without a route, a key and a closed circuit nobody is asked and nothing is traded. For the evolution: what
  is registered leaves the core alone, and a release becomes active only through a safe promotion.

  \<^bold>\<open>Loops and bounds.\<close> The matching loop and the recursion of \<open>acquire\<close> are partial functions for which
  termination is proved; every other loop is structural. Decimals have 28 digits (60 in \<open>floor_to_step\<close>);
  lemmas that need exact sums say so with a bound on the number of decimals. An action of the engine
  takes blocks of 16 identifiers, more than any journal has entries.

  \<^bold>\<open>Not modelled.\<close> Other asyncio tasks between two awaits of one method of the engine, except where a
  lemma is about a race of two transactions; trade memory, which never raises
  into the trading path; NaN and infinite decimals. The wording of the prompts is not modelled; the transport
  to the language model, the validation of its answer by the third-party library and the calculation of factors are
  parameters of the gateway and the chief trader. The HTTP interface and the frontend, the HTTP clients of the exchanges,
  the advisory modules, the calculation of factors, the rest of the alpha stack, the reviews and research that propose
  changes, migrations and configuration files are not part of the path from market data to the ledger.
\<close>

end
